(* ===== verification/Prelude.thy ===== *)
theory Prelude
  imports Complex_Main
begin

text \<open>
  Prelude of the development: what every component shares.
  \<^item> \<open>table\<close> rows: the ORM's tables are lists of rows in primary key order, a query
    \<open>filter(...).first()\<close> is \<open>find\<close>, an attribute assignment on a row is
    \<open>upd_row\<close>.
  \<^item> sums over filtered rows, as the code's generator expressions compute them.
  \<^item> the collections of simplification rules the components contribute to.
\<close>

named_theorems row_simps \<open>how lookups see a table after an update\<close>
named_theorems money_simps \<open>unfolding rules of the money arithmetic\<close>

subsection \<open>Tables of rows\<close>

definition find_row :: "('r \<Rightarrow> nat) \<Rightarrow> nat \<Rightarrow> 'r list \<Rightarrow> 'r option" where
  "find_row key i rs = List.find (\<lambda>r. key r = i) rs"

definition upd_row :: "('r \<Rightarrow> nat) \<Rightarrow> nat \<Rightarrow> ('r \<Rightarrow> 'r) \<Rightarrow> 'r list \<Rightarrow> 'r list" where
  "upd_row key i f rs = map (\<lambda>r. if key r = i then f r else r) rs"

definition del_row :: "('r \<Rightarrow> nat) \<Rightarrow> nat \<Rightarrow> 'r list \<Rightarrow> 'r list" where
  "del_row key i rs = filter (\<lambda>r. key r \<noteq> i) rs"

text \<open>The key an auto-incrementing primary key column hands out next.\<close>

definition next_key :: "('r \<Rightarrow> nat) \<Rightarrow> 'r list \<Rightarrow> nat" where
  "next_key key rs = Suc (foldr max (map key rs) 0)"

lemma find_row_Nil [simp]: "find_row key i [] = None"
  by (simp add: find_row_def)

lemma find_row_Cons [simp]:
  "find_row key i (r # rs) = (if key r = i then Some r else find_row key i rs)"
  by (simp add: find_row_def)

lemma find_row_Some_key: "find_row key i rs = Some r \<Longrightarrow> key r = i"
  by (induction rs) (auto split: if_splits)

lemma find_row_Some_in: "find_row key i rs = Some r \<Longrightarrow> r \<in> set rs"
  by (induction rs) (auto split: if_splits)

lemma find_row_None_iff: "find_row key i rs = None \<longleftrightarrow> i \<notin> key ` set rs"
  by (induction rs) auto

lemma find_row_distinct:
  "distinct (map key rs) \<Longrightarrow> r \<in> set rs \<Longrightarrow> find_row key (key r) rs = Some r"
  by (induction rs) (auto simp: image_iff)

lemma find_row_append:
  "find_row key i (rs @ ss) =
     (case find_row key i rs of None \<Rightarrow> find_row key i ss | Some r \<Rightarrow> Some r)"
  by (induction rs) auto

lemma find_Some_prop: "List.find P rs = Some r \<Longrightarrow> P r \<and> r \<in> set rs"
  by (induction rs) (auto split: if_splits)

lemma find_None_prop: "List.find P rs = None \<longleftrightarrow> (\<forall>r \<in> set rs. \<not> P r)"
  by (induction rs) auto

lemma find_append:
  "List.find P (rs @ ss) = (case List.find P rs of None \<Rightarrow> List.find P ss | Some r \<Rightarrow> Some r)"
  by (induction rs) auto

lemma upd_row_Nil [simp]: "upd_row key i f [] = []"
  by (simp add: upd_row_def)

lemma upd_row_Cons [simp]:
  "upd_row key i f (r # rs) = (if key r = i then f r else r) # upd_row key i f rs"
  by (simp add: upd_row_def)

lemma length_upd_row [simp]: "length (upd_row key i f rs) = length rs"
  by (simp add: upd_row_def)

lemma map_key_upd_row:
  "(\<And>r. key (f r) = key r) \<Longrightarrow> map key (upd_row key i f rs) = map key rs"
  by (simp add: upd_row_def)

lemma map_field_upd_row:
  "(\<And>r. g (f r) = g r) \<Longrightarrow> map g (upd_row key i f rs) = map g rs"
  by (auto simp: upd_row_def)

lemma find_row_upd_row [row_simps]:
  "(\<And>r. key (f r) = key r) \<Longrightarrow>
   find_row key j (upd_row key i f rs) =
     (if i = j then map_option f (find_row key j rs) else find_row key j rs)"
  by (induction rs) auto

lemma set_upd_row:
  "set (upd_row key i f rs) = (\<lambda>r. if key r = i then f r else r) ` set rs"
  by (simp add: upd_row_def)

lemma upd_row_id: "i \<notin> key ` set rs \<Longrightarrow> upd_row key i f rs = rs"
  by (induction rs) auto

lemma upd_row_upd_row:
  "(\<And>r. key (g r) = key r) \<Longrightarrow>
   upd_row key i f (upd_row key i g rs) = upd_row key i (\<lambda>r. f (g r)) rs"
  by (simp add: upd_row_def)

lemma upd_row_cong:
  "(\<And>r. r \<in> set rs \<Longrightarrow> key r = i \<Longrightarrow> f r = g r) \<Longrightarrow> upd_row key i f rs = upd_row key i g rs"
  by (auto simp: upd_row_def)

lemma upd_row_ident: "(\<And>r. r \<in> set rs \<Longrightarrow> key r = i \<Longrightarrow> f r = r) \<Longrightarrow> upd_row key i f rs = rs"
  by (induction rs) auto

lemma upd_row_commute:
  "i \<noteq> j \<Longrightarrow> (\<And>r. key (f r) = key r) \<Longrightarrow> (\<And>r. key (g r) = key r) \<Longrightarrow>
   upd_row key i f (upd_row key j g rs) = upd_row key j g (upd_row key i f rs)"
  by (simp add: upd_row_def)

lemma set_del_row: "set (del_row key i rs) = {r \<in> set rs. key r \<noteq> i}"
  by (simp add: del_row_def)

lemma distinct_map_del_row: "distinct (map f rs) \<Longrightarrow> distinct (map f (del_row key i rs))"
  unfolding del_row_def by (rule distinct_map_filter)

lemma find_row_del_row [row_simps]:
  "find_row key j (del_row key i rs) = (if i = j then None else find_row key j rs)"
  by (induction rs) (auto simp: del_row_def)

lemma del_row_snoc_fresh:
  "i \<notin> key ` set rs \<Longrightarrow> key r = i \<Longrightarrow> del_row key i (rs @ [r]) = rs"
  by (induction rs) (auto simp: del_row_def)

lemma next_key_gt: "r \<in> set rs \<Longrightarrow> key r < next_key key rs"
proof -
  assume "r \<in> set rs"
  then have "key r \<le> foldr max (map key rs) 0"
    by (induction rs) (auto simp: le_max_iff_disj)
  then show ?thesis by (simp add: next_key_def)
qed

lemma next_key_fresh: "next_key key rs \<notin> key ` set rs"
  using next_key_gt [of _ rs key] by fastforce

lemma find_row_next_key [simp]: "find_row key (next_key key rs) rs = None"
  by (simp add: find_row_None_iff next_key_fresh)

subsection \<open>Sums over rows\<close>

lemma sum_list_upd_row:
  fixes g :: "'r \<Rightarrow> 'a::ab_group_add"
  assumes "distinct (map key rs)" and "find_row key i rs = Some r"
  shows "sum_list (map g (upd_row key i f rs)) = sum_list (map g rs) - g r + g (f r)"
  using assms
proof (induction rs)
  case Nil
  then show ?case by simp
next
  case (Cons a rs)
  show ?case
  proof (cases "key a = i")
    case True
    with Cons.prems have "a = r" and "i \<notin> key ` set rs" by auto
    then show ?thesis using True by (simp add: upd_row_id)
  next
    case False
    with Cons show ?thesis by (simp add: algebra_simps)
  qed
qed

lemma sum_list_del_row:
  fixes g :: "'r \<Rightarrow> 'a::ab_group_add"
  assumes "distinct (map key rs)" and "find_row key i rs = Some r"
  shows "sum_list (map g (del_row key i rs)) = sum_list (map g rs) - g r"
  using assms
proof (induction rs)
  case Nil
  then show ?case by simp
next
  case (Cons a rs)
  show ?case
  proof (cases "key a = i")
    case True
    with Cons.prems have "a = r" and fresh: "i \<notin> key ` set rs" by auto
    moreover from fresh have "del_row key i rs = rs"
      by (auto simp: del_row_def filter_id_conv)
    ultimately show ?thesis using True by (simp add: del_row_def)
  next
    case False
    with Cons show ?thesis by (simp add: del_row_def algebra_simps)
  qed
qed

lemma sum_list_nonneg_map:
  "(\<And>x. x \<in> set xs \<Longrightarrow> (0::'a::ordered_comm_monoid_add) \<le> f x) \<Longrightarrow> 0 \<le> sum_list (map f xs)"
  by (induction xs) auto

subsection \<open>Association lists used as dictionaries\<close>

text \<open>Python dictionaries whose insertion order matters: \<open>d[k] = v\<close> and \<open>d.get(k)\<close>.\<close>

fun dset :: "'k \<Rightarrow> 'v \<Rightarrow> ('k \<times> 'v) list \<Rightarrow> ('k \<times> 'v) list" where
  "dset k v [] = [(k, v)]"
| "dset k v ((k', v') # d) = (if k = k' then (k, v) # d else (k', v') # dset k v d)"

lemma map_of_dset [simp]: "map_of (dset k v d) = (map_of d)(k \<mapsto> v)"
  by (induction k v d rule: dset.induct) auto

lemma keys_dset: "map fst (dset k v d) = (if k \<in> fst ` set d then map fst d else map fst d @ [k])"
  by (induction k v d rule: dset.induct) auto

lemma distinct_keys_dset: "distinct (map fst d) \<Longrightarrow> distinct (map fst (dset k v d))"
  by (auto simp: keys_dset)

end
