(* ===== verification/Numbers.thy ===== *)
theory Numbers
  imports Prelude
begin

text \<open>
  The two number types of the program. Money is \<open>decimal.Decimal\<close> (app/money.py), rates,
  lot counts and the debt simulation are \<open>float\<close>. Both are finite binary or decimal
  fractions, so a value of either type is a rational number here, and what distinguishes
  them is the rounding after each operation:
  \<^item> \<open>rnd b p\<close> rounds to \<open>p\<close> significant base-\<open>b\<close> digits, ties to even;
  \<^item> \<open>fl = rnd 2 53\<close> is the result of one IEEE double operation (the exponent range is
    not bounded: overflow and subnormals are outside the model);
  \<^item> \<open>dctx = rnd 10 28\<close> is the Decimal context of app/money.py (prec 28, the default
    ROUND_HALF_EVEN): it is applied to products and quotients. Sums and differences of
    Numeric(19,4) columns need at most 21 digits and are exact.
  \<open>quantize\<close> and \<open>round\<close> are \<open>qhe\<close> (ties to even) and \<open>qhu\<close> (ROUND_HALF_UP, ties
  away from zero).

  The laws every rounding shares (monotone, odd, zero to zero) are the locale \<open>rounding\<close>,
  interpreted on all of them below.
\<close>

subsection \<open>Rounding to integers\<close>

definition rhe :: "rat \<Rightarrow> int" where
  "rhe x = (let f = \<lfloor>x\<rfloor>; r = x - of_int f in
     if r < 1/2 then f else if 1/2 < r then f + 1 else if even f then f else f + 1)"

definition rhu :: "rat \<Rightarrow> int" where
  "rhu x = (if 0 \<le> x then \<lfloor>x + 1/2\<rfloor> else - \<lfloor>- x + 1/2\<rfloor>)"

lemma rhe_of_int [simp]: "rhe (of_int n) = n"
  by (simp add: rhe_def)

lemma rhu_of_int [simp]: "rhu (of_int n) = n"
proof -
  have m: "\<lfloor>of_int m + 1/2 :: rat\<rfloor> = m" for m
    by (simp add: floor_eq_iff)
  from m [of n] m [of "- n"] show ?thesis unfolding rhu_def by simp
qed

lemma rhe_close: "\<bar>of_int (rhe x) - x\<bar> \<le> 1/2"
  by (auto simp: rhe_def Let_def abs_if) linarith+

lemma rhu_close: "\<bar>of_int (rhu x) - x\<bar> \<le> 1/2"
proof (cases "0 \<le> x")
  case True
  then show ?thesis unfolding rhu_def abs_le_iff by simp linarith
next
  case False
  then show ?thesis unfolding rhu_def abs_le_iff by simp linarith
qed

lemma rhe_mono: "x \<le> y \<Longrightarrow> rhe x \<le> rhe y"
proof -
  assume le: "x \<le> y"
  then have fl: "\<lfloor>x\<rfloor> \<le> \<lfloor>y\<rfloor>" by (rule floor_mono)
  show ?thesis
  proof (cases "\<lfloor>x\<rfloor> = \<lfloor>y\<rfloor>")
    case True
    then show ?thesis using le by (auto simp: rhe_def Let_def)
  next
    case False
    then have "\<lfloor>x\<rfloor> + 1 \<le> \<lfloor>y\<rfloor>" using fl by simp
    then show ?thesis by (auto simp: rhe_def Let_def)
  qed
qed

lemma rhu_mono: "x \<le> y \<Longrightarrow> rhu x \<le> rhu y"
proof -
  assume le: "x \<le> y"
  consider "0 \<le> x" | "x < 0" "0 \<le> y" | "y < 0" by linarith
  then show ?thesis
  proof cases
    case 1
    then show ?thesis using le by (simp add: rhu_def floor_mono)
  next
    case 2
    have "0 \<le> \<lfloor>- x + 1/2\<rfloor>" and "0 \<le> \<lfloor>y + 1/2\<rfloor>" using 2 by simp_all
    then have "- \<lfloor>- x + 1/2\<rfloor> \<le> \<lfloor>y + 1/2\<rfloor>" by linarith
    with 2 show ?thesis unfolding rhu_def by simp
  next
    case 3
    then show ?thesis using le by (simp add: rhu_def floor_mono)
  qed
qed

lemma rhe_odd: "rhe (- x) = - rhe x"
proof (cases "x = of_int \<lfloor>x\<rfloor>")
  case True
  then show ?thesis by (metis of_int_minus rhe_of_int)
next
  case False
  then have "of_int \<lfloor>x\<rfloor> < x" by (metis of_int_floor_le order_le_imp_less_or_eq)
  then have "\<lfloor>- x\<rfloor> = - \<lfloor>x\<rfloor> - 1"
    by (simp add: floor_eq_iff) linarith
  then show ?thesis by (auto simp: rhe_def Let_def)
qed

lemma rhu_zero [simp]: "rhu 0 = 0"
  using rhu_of_int [of 0] by simp

lemma rhu_odd: "rhu (- x) = - rhu x"
proof (cases "x = 0")
  case False
  then show ?thesis by (auto simp: rhu_def)
qed simp

subsection \<open>quantize\<close>

definition qhe :: "nat \<Rightarrow> rat \<Rightarrow> rat" where
  "qhe n x = of_int (rhe (x * 10 ^ n)) / 10 ^ n"

definition qhu :: "nat \<Rightarrow> rat \<Rightarrow> rat" where
  "qhu n x = of_int (rhu (x * 10 ^ n)) / 10 ^ n"

text \<open>\<open>on_grid n x\<close>: \<open>x\<close> has at most \<open>n\<close> decimal places.\<close>

definition on_grid :: "nat \<Rightarrow> rat \<Rightarrow> bool" where
  "on_grid n x \<longleftrightarrow> of_int \<lfloor>x * 10 ^ n\<rfloor> = x * 10 ^ n"

lemma on_gridE:
  assumes "on_grid n x" obtains k where "x = of_int k / 10 ^ n"
proof (rule that)
  show "x = of_int \<lfloor>x * 10 ^ n\<rfloor> / 10 ^ n"
    using assms unfolding on_grid_def by (simp only:) simp
qed

lemma on_gridI: "x = of_int k / 10 ^ n \<Longrightarrow> on_grid n x"
  by (simp add: on_grid_def)

lemma on_grid_qhe [simp]: "on_grid n (qhe n x)"
  by (rule on_gridI) (rule qhe_def)

lemma on_grid_qhu [simp]: "on_grid n (qhu n x)"
  by (rule on_gridI) (rule qhu_def)

lemma qhe_grid: "on_grid n x \<Longrightarrow> qhe n x = x"
  by (erule on_gridE) (simp add: qhe_def)

lemma qhu_grid: "on_grid n x \<Longrightarrow> qhu n x = x"
  by (erule on_gridE) (simp add: qhu_def)

lemma on_grid_add: "on_grid n x \<Longrightarrow> on_grid n y \<Longrightarrow> on_grid n (x + y)"
proof -
  assume "on_grid n x" "on_grid n y"
  then obtain k l where "x = of_int k / 10 ^ n" "y = of_int l / 10 ^ n"
    by (meson on_gridE)
  then have "x + y = of_int (k + l) / 10 ^ n" by (simp add: add_divide_distrib)
  then show ?thesis by (rule on_gridI)
qed

lemma on_grid_minus: "on_grid n x \<Longrightarrow> on_grid n (- x)"
proof -
  assume "on_grid n x"
  then obtain k where "x = of_int k / 10 ^ n" by (rule on_gridE)
  then have "- x = of_int (- k) / 10 ^ n" by simp
  then show ?thesis by (rule on_gridI)
qed

lemma on_grid_diff: "on_grid n x \<Longrightarrow> on_grid n y \<Longrightarrow> on_grid n (x - y)"
  using on_grid_add [of n x "- y"] on_grid_minus [of n y] by simp

lemma on_grid_of_int: "on_grid n (of_int k)"
  by (rule on_gridI [of _ "k * 10 ^ n"]) simp

lemma qhe_error: "\<bar>qhe n x - x\<bar> \<le> 1 / (2 * 10 ^ n)"
proof -
  have "qhe n x - x = (of_int (rhe (x * 10 ^ n)) - x * 10 ^ n) / 10 ^ n"
    by (simp add: qhe_def diff_divide_distrib)
  then have "\<bar>qhe n x - x\<bar> = \<bar>of_int (rhe (x * 10 ^ n)) - x * 10 ^ n\<bar> / 10 ^ n"
    by (simp add: abs_divide)
  also have "\<dots> \<le> (1/2) / 10 ^ n"
    by (rule divide_right_mono [OF rhe_close]) simp
  finally show ?thesis by simp
qed

lemma qhu_error: "\<bar>qhu n x - x\<bar> \<le> 1 / (2 * 10 ^ n)"
proof -
  have "qhu n x - x = (of_int (rhu (x * 10 ^ n)) - x * 10 ^ n) / 10 ^ n"
    by (simp add: qhu_def diff_divide_distrib)
  then have "\<bar>qhu n x - x\<bar> = \<bar>of_int (rhu (x * 10 ^ n)) - x * 10 ^ n\<bar> / 10 ^ n"
    by (simp add: abs_divide)
  also have "\<dots> \<le> (1/2) / 10 ^ n"
    by (rule divide_right_mono [OF rhu_close]) simp
  finally show ?thesis by simp
qed

subsection \<open>Rounding to significant digits\<close>

text \<open>\<open>ilog b n\<close> is the integer logarithm of a positive \<open>n\<close>.\<close>

function ilog :: "nat \<Rightarrow> nat \<Rightarrow> nat" where
  "ilog b n = (if b < 2 \<or> n < b then 0 else Suc (ilog b (n div b)))"
  by pat_completeness auto
termination
  by (relation "measure snd") (auto intro: div_less_dividend)

declare ilog.simps [simp del]

lemma ilog_bounds:
  "2 \<le> b \<Longrightarrow> 0 < n \<Longrightarrow> b ^ ilog b n \<le> n \<and> n < b ^ Suc (ilog b n)"
proof (induction b n rule: ilog.induct)
  case (1 b n)
  show ?case
  proof (cases "n < b")
    case True
    with "1.prems" show ?thesis by (simp add: ilog.simps [of b n])
  next
    case False
    with "1.prems" have "0 < n div b" by (simp add: div_greater_zero_iff)
    with "1.IH" False "1.prems"
    have IH: "b ^ ilog b (n div b) \<le> n div b" "n div b < b ^ Suc (ilog b (n div b))" by auto
    from IH(1) have "b ^ ilog b (n div b) * b \<le> n"
      using "1.prems" by (simp add: less_eq_div_iff_mult_less_eq)
    moreover from IH(2) have "n < b ^ Suc (ilog b (n div b)) * b"
      using "1.prems" by (simp add: div_less_iff_less_mult)
    ultimately show ?thesis using False "1.prems"
      by (simp add: ilog.simps [of b n] mult.commute)
  qed
qed

text \<open>\<open>expo b x\<close> is the exponent \<open>e\<close> with \<open>b powi e \<le> \<bar>x\<bar> < b powi (e + 1)\<close>.\<close>

definition expo :: "nat \<Rightarrow> rat \<Rightarrow> int" where
  "expo b x = (let y = \<bar>x\<bar> in
     if 1 \<le> y then int (ilog b (nat \<lfloor>y\<rfloor>))
     else - int (Suc (ilog b (nat (\<lceil>1 / y\<rceil> - 1)))))"

lemma expo_bounds:
  assumes b: "2 \<le> b" and x: "x \<noteq> 0"
  shows "of_nat b powi expo b x \<le> \<bar>x\<bar>" "\<bar>x\<bar> < of_nat b powi (expo b x + 1)"
proof -
  let ?b = "of_nat b :: rat" and ?y = "\<bar>x\<bar>"
  have y: "0 < ?y" using x by simp
  have "?b powi expo b x \<le> ?y \<and> ?y < ?b powi (expo b x + 1)"
  proof (cases "1 \<le> ?y")
    case True
    define n where "n = nat \<lfloor>?y\<rfloor>"
    have n: "0 < n" using True by (simp add: n_def)
    have ny: "of_nat n \<le> ?y" "?y < of_nat n + 1"
      using y by (simp_all add: n_def) linarith
    note B = ilog_bounds [OF b n]
    have lo: "?b ^ ilog b n \<le> of_nat n"
      using B by (metis of_nat_le_iff of_nat_power)
    have hi: "of_nat n + 1 \<le> ?b ^ Suc (ilog b n)"
      using B by (metis Suc_leI of_nat_Suc of_nat_le_iff of_nat_power add.commute)
    have e: "expo b x = int (ilog b n)"
      using True by (simp add: expo_def n_def)
    have "?b powi (int (ilog b n) + 1) = ?b ^ Suc (ilog b n)"
      by (metis power_int_of_nat of_nat_Suc add.commute)
    then show ?thesis
      unfolding e power_int_of_nat using lo hi ny by (intro conjI; linarith)
  next
    case False
    define c where "c = \<lceil>1 / ?y\<rceil> - 1"
    define n where "n = nat c"
    have inv: "1 < 1 / ?y" using False y by simp
    have "1 < \<lceil>1 / ?y\<rceil>" using inv by (simp only: less_ceiling_iff of_int_1)
    then have c: "1 \<le> c" by (simp add: c_def)
    then have n: "0 < n" and nc: "of_nat n = (of_int c :: rat)"
      by (simp_all add: n_def)
    have ny: "of_nat n < 1 / ?y" "1 / ?y \<le> of_nat n + 1"
      unfolding nc by (simp_all add: c_def) linarith+
    note B = ilog_bounds [OF b n]
    have "?b ^ ilog b n \<le> of_nat n"
      using B by (metis of_nat_le_iff of_nat_power)
    then have lo: "?b ^ ilog b n < 1 / ?y" using ny(1) by (rule le_less_trans)
    have "of_nat n + 1 \<le> ?b ^ Suc (ilog b n)"
      using B by (metis Suc_leI of_nat_Suc of_nat_le_iff of_nat_power add.commute)
    then have hi: "1 / ?y \<le> ?b ^ Suc (ilog b n)" using ny by simp
    have e: "expo b x = - int (Suc (ilog b n))"
      using False by (simp add: expo_def n_def c_def)
    have bp: "0 < ?b ^ k" for k using b by simp
    have "1 / ?b ^ Suc (ilog b n) \<le> ?y"
      using hi y bp [of "Suc (ilog b n)"] by (simp add: field_simps)
    moreover have "?y < 1 / ?b ^ ilog b n"
      using lo y bp [of "ilog b n"] by (simp add: field_simps)
    moreover have "?b powi expo b x = 1 / ?b ^ Suc (ilog b n)"
      unfolding e power_int_minus power_int_of_nat by (simp add: divide_inverse)
    moreover have "expo b x + 1 = - int (ilog b n)" by (simp add: e)
    then have "?b powi (expo b x + 1) = 1 / ?b ^ ilog b n"
      by (simp add: power_int_minus divide_inverse)
    ultimately show ?thesis by simp
  qed
  then show "?b powi expo b x \<le> ?y" "?y < ?b powi (expo b x + 1)" by simp_all
qed

definition rnd :: "nat \<Rightarrow> nat \<Rightarrow> rat \<Rightarrow> rat" where
  "rnd b p x = (if x = 0 then 0 else
     let u = of_nat b powi (expo b x - (int p - 1)) in of_int (rhe (x / u)) * u)"

lemma expo_minus [simp]: "expo b (- x) = expo b x"
  by (simp add: expo_def)

lemma rnd_zero [simp]: "rnd b p 0 = 0"
  by (simp add: rnd_def)

lemma rnd_odd: "rnd b p (- x) = - rnd b p x"
  by (simp add: rnd_def Let_def rhe_odd)

text \<open>
  A positive argument stays in its binade: the result lies between the powers of \<open>b\<close>
  that enclose the argument. Monotonicity across binades follows from this.
\<close>

lemma rnd_binade:
  assumes b: "2 \<le> b" and p: "0 < p" and x: "0 < x"
  shows "of_nat b powi expo b x \<le> rnd b p x" "rnd b p x \<le> of_nat b powi (expo b x + 1)"
proof -
  let ?b = "of_nat b :: rat"
  define u where "u = ?b powi (expo b x - (int p - 1))"
  have b0: "?b \<noteq> 0" and bp: "0 < ?b" using b by simp_all
  have u: "0 < u" using bp by (simp add: u_def)
  have r: "rnd b p x = of_int (rhe (x / u)) * u"
    using x by (simp add: rnd_def u_def Let_def)
  have split: "?b powi expo b x = ?b ^ (p - 1) * u" "?b powi (expo b x + 1) = ?b ^ p * u"
    using b0 p by (simp_all add: u_def power_int_add [symmetric] of_nat_diff
        flip: power_int_of_nat)
  have "?b ^ (p - 1) * u \<le> x" "x < ?b ^ p * u"
    using expo_bounds [OF b, of x] x unfolding split [symmetric] by simp_all
  then have "of_int (int (b ^ (p - 1))) \<le> x / u" "x / u \<le> of_int (int (b ^ p))"
    using u by (simp_all add: field_simps)
  then have "int (b ^ (p - 1)) \<le> rhe (x / u)" "rhe (x / u) \<le> int (b ^ p)"
    using rhe_mono rhe_of_int by metis+
  then have "of_int (int (b ^ (p - 1))) \<le> (of_int (rhe (x / u)) :: rat)"
    "(of_int (rhe (x / u)) :: rat) \<le> of_int (int (b ^ p))"
    by (simp_all only: of_int_le_iff)
  then show "?b powi expo b x \<le> rnd b p x" "rnd b p x \<le> ?b powi (expo b x + 1)"
    unfolding split r using u by (simp_all add: mult_right_mono)
qed

lemma expo_mono:
  assumes b: "2 \<le> b" and "0 < x" "x \<le> y"
  shows "expo b x \<le> expo b y"
proof (rule ccontr)
  assume "\<not> expo b x \<le> expo b y"
  then have "expo b y + 1 \<le> expo b x" by simp
  then have "of_nat b powi (expo b y + 1) \<le> (of_nat b :: rat) powi expo b x"
    using b by (intro power_int_increasing) simp_all
  with expo_bounds [OF b, of x] expo_bounds [OF b, of y] assms show False by simp
qed

lemma rnd_mono_pos:
  assumes b: "2 \<le> b" and p: "0 < p" and x: "0 < x" and le: "x \<le> y"
  shows "rnd b p x \<le> rnd b p y"
proof (cases "expo b x = expo b y")
  case True
  define u :: rat where "u = of_nat b powi (expo b x - (int p - 1))"
  have u: "0 < u" using b by (simp add: u_def)
  have "rhe (x / u) \<le> rhe (y / u)"
    using le u by (intro rhe_mono divide_right_mono) simp_all
  moreover have "rnd b p x = of_int (rhe (x / u)) * u" "rnd b p y = of_int (rhe (y / u)) * u"
    using x le True by (simp_all add: rnd_def u_def Let_def)
  ultimately show ?thesis using u by (simp add: mult_right_mono)
next
  case False
  with expo_mono [OF b x le] have "expo b x + 1 \<le> expo b y" by simp
  then have "of_nat b powi (expo b x + 1) \<le> (of_nat b :: rat) powi expo b y"
    using b by (intro power_int_increasing) simp_all
  with rnd_binade [OF b p x] rnd_binade [OF b p, of y] x le show ?thesis by simp
qed

lemma rnd_pos: "2 \<le> b \<Longrightarrow> 0 < p \<Longrightarrow> 0 < x \<Longrightarrow> 0 < rnd b p x"
proof -
  assume b: "2 \<le> b" and p: "0 < p" and x: "0 < x"
  have "0 < (of_nat b :: rat) powi expo b x" using b by simp
  with rnd_binade(1) [OF b p x] show ?thesis by simp
qed

lemma rnd_mono:
  assumes b: "2 \<le> b" and p: "0 < p" and le: "x \<le> y"
  shows "rnd b p x \<le> rnd b p y"
proof -
  consider "0 < x" | "x \<le> 0" "0 \<le> y" | "y < 0" by linarith
  then show ?thesis
  proof cases
    case 1
    then show ?thesis using rnd_mono_pos [OF b p _ le] by simp
  next
    case 2
    have "rnd b p x \<le> 0"
      using rnd_pos [OF b p, of "- x"] 2 by (cases "x = 0") (auto simp: rnd_odd)
    moreover have "0 \<le> rnd b p y"
      using rnd_pos [OF b p, of y] 2 by (cases "y = 0") auto
    ultimately show ?thesis by simp
  next
    case 3
    then show ?thesis using rnd_mono_pos [OF b p, of "- y" "- x"] le by (simp add: rnd_odd)
  qed
qed

text \<open>Representable numbers are fixed points.\<close>

lemma rnd_fixed:
  assumes b: "2 \<le> b" and p: "0 < p"
    and rep: "x / of_nat b powi (expo b x - (int p - 1)) = of_int k"
  shows "rnd b p x = x"
proof (cases "x = 0")
  case False
  define u :: rat where "u = of_nat b powi (expo b x - (int p - 1))"
  have u: "u \<noteq> 0" using b by (simp add: u_def)
  have "x / u = of_int k" using rep by (simp add: u_def)
  with u have xu: "of_int k * u = x" by (metis nonzero_eq_divide_eq)
  have "rnd b p x = of_int (rhe (x / u)) * u"
    using False unfolding rnd_def Let_def u_def by simp
  also have "\<dots> = x" using xu \<open>x / u = of_int k\<close> by simp
  finally show ?thesis .
qed simp

subsection \<open>The laws of a rounding\<close>

locale rounding =
  fixes r :: "rat \<Rightarrow> rat"
  assumes r_mono: "x \<le> y \<Longrightarrow> r x \<le> r y"
    and r_zero: "r 0 = 0"
    and r_odd: "r (- x) = - r x"
begin

lemma r_nonneg: "0 \<le> x \<Longrightarrow> 0 \<le> r x"
  using r_mono [of 0 x] r_zero by simp

lemma r_nonpos: "x \<le> 0 \<Longrightarrow> r x \<le> 0"
  using r_mono [of x 0] r_zero by simp

lemma r_pos_arg: "0 < r x \<Longrightarrow> 0 < x"
  using r_nonpos [of x] by (cases "0 < x") auto

lemma r_neg_arg: "r x < 0 \<Longrightarrow> x < 0"
  using r_nonneg [of x] by (cases "x < 0") auto

lemma r_between: "r lo = lo \<Longrightarrow> r hi = hi \<Longrightarrow> lo \<le> x \<Longrightarrow> x \<le> hi \<Longrightarrow> lo \<le> r x \<and> r x \<le> hi"
  using r_mono [of lo x] r_mono [of x hi] by simp

lemma r_sub_nonneg: "y \<le> x \<Longrightarrow> 0 \<le> r (x - y)"
  by (rule r_nonneg) simp

lemma r_mult_nonneg: "0 \<le> x \<Longrightarrow> 0 \<le> y \<Longrightarrow> 0 \<le> r (x * y)"
  by (rule r_nonneg) simp

lemma r_div_nonneg: "0 \<le> x \<Longrightarrow> 0 < y \<Longrightarrow> 0 \<le> r (x / y)"
  by (rule r_nonneg) simp

end

subsection \<open>IEEE doubles\<close>

definition fl :: "rat \<Rightarrow> rat" where
  "fl x = rnd 2 53 x"

interpretation fl: rounding fl
  by unfold_locales (simp_all add: fl_def rnd_odd rnd_mono)

definition fadd :: "rat \<Rightarrow> rat \<Rightarrow> rat" where "fadd x y = fl (x + y)"
definition fsub :: "rat \<Rightarrow> rat \<Rightarrow> rat" where "fsub x y = fl (x - y)"
definition fmul :: "rat \<Rightarrow> rat \<Rightarrow> rat" where "fmul x y = fl (x * y)"
definition fdiv :: "rat \<Rightarrow> rat \<Rightarrow> rat" where "fdiv x y = fl (x / y)"

text \<open>\<open>round(x, n)\<close> of a float: the double nearest to the correctly rounded decimal.\<close>

definition fround :: "nat \<Rightarrow> rat \<Rightarrow> rat" where
  "fround n x = fl (qhe n x)"

text \<open>\<open>sum\<close> of a generator of floats: left to right, starting from 0.\<close>

definition fsum :: "rat list \<Rightarrow> rat" where
  "fsum xs = foldl fadd 0 xs"

subsection \<open>Decimals\<close>

definition dctx :: "rat \<Rightarrow> rat" where
  "dctx x = rnd 10 28 x"

interpretation dctx: rounding dctx
  by unfold_locales (simp_all add: dctx_def rnd_odd rnd_mono)

definition dmul :: "rat \<Rightarrow> rat \<Rightarrow> rat" where "dmul x y = dctx (x * y)"
definition ddiv :: "rat \<Rightarrow> rat \<Rightarrow> rat" where "ddiv x y = dctx (x / y)"

lemma qhe_mono: "x \<le> y \<Longrightarrow> qhe n x \<le> qhe n y"
  by (simp add: qhe_def divide_right_mono rhe_mono)

lemma qhu_mono: "x \<le> y \<Longrightarrow> qhu n x \<le> qhu n y"
  by (simp add: qhu_def divide_right_mono rhu_mono)

lemma qhe_odd: "qhe n (- x) = - qhe n x"
  using rhe_odd [of "x * 10 ^ n"] by (simp add: qhe_def)

lemma qhu_odd: "qhu n (- x) = - qhu n x"
  using rhu_odd [of "x * 10 ^ n"] by (simp add: qhu_def)

interpretation qhe: rounding "qhe n" for n
  by unfold_locales (simp_all add: qhe_mono qhe_odd qhe_grid on_grid_def)

interpretation qhu: rounding "qhu n" for n
  by unfold_locales (simp_all add: qhu_mono qhu_odd qhu_grid on_grid_def)

interpretation fround: rounding "fround n" for n
  by unfold_locales
    (simp_all add: fround_def qhe.r_zero qhe.r_odd fl.r_zero fl.r_odd qhe_mono fl.r_mono)

text \<open>
  app/money.py: \<open>D(x)\<close> of a float is \<open>Decimal(str(x))\<close>, the shortest decimal that reads
  back as the same double; of a Decimal or an int it is the value itself.
\<close>

definition D_float :: "rat \<Rightarrow> rat" where
  "D_float x = (case List.find (\<lambda>n. fl (rnd 10 n x) = x) [1..<17] of
     Some n \<Rightarrow> rnd 10 n x | None \<Rightarrow> rnd 10 17 x)"

definition q2 :: "rat option \<Rightarrow> rat option" where
  "q2 x = map_option (qhu 2) x"

definition q4 :: "rat option \<Rightarrow> rat option" where
  "q4 x = map_option (qhu 4) x"

lemma D_float_zero [simp]: "D_float 0 = 0"
  by (auto simp: D_float_def split: option.splits)

lemma D_float_sign: "0 \<le> x \<Longrightarrow> 0 \<le> D_float x"
proof -
  assume x: "0 \<le> x"
  have n: "0 \<le> rnd 10 n x" if "0 < n" for n
    using rnd_mono [of 10 n 0 x] that x by simp
  show ?thesis
  proof (cases "List.find (\<lambda>n. fl (rnd 10 n x) = x) [1..<17]")
    case None
    then show ?thesis using n by (simp add: D_float_def)
  next
    case (Some k)
    then have "k \<in> set [1..<17]" using find_Some_prop by fast
    then have "0 < k" by simp
    with Some show ?thesis using n by (simp add: D_float_def)
  qed
qed

text \<open>A decimal found among the first sixteen reads back as the double it came from.\<close>

lemma D_float_roundtrip:
  "\<exists>n \<in> {1..<17}. fl (rnd 10 n x) = x \<Longrightarrow> fl (D_float x) = x"
proof -
  assume ex: "\<exists>n \<in> {1..<17}. fl (rnd 10 n x) = x"
  show ?thesis
  proof (cases "List.find (\<lambda>n. fl (rnd 10 n x) = x) [1..<17]")
    case None
    with ex show ?thesis by (auto simp: find_None_prop)
  next
    case (Some k)
    then have "fl (rnd 10 k x) = x" using find_Some_prop by fastforce
    with Some show ?thesis by (simp add: D_float_def)
  qed
qed

subsection \<open>Floats that may not be numbers\<close>

datatype fnum = Fin rat | PInf | NInf | NaN

text \<open>app/action_executor.py \<open>_parse_finite\<close> of a value that is already a float.\<close>

definition parse_finite :: "fnum \<Rightarrow> rat option" where
  "parse_finite v = (case v of Fin x \<Rightarrow> Some x | _ \<Rightarrow> None)"

lemma parse_finite_simps [simp]:
  "parse_finite (Fin x) = Some x" "parse_finite PInf = None" "parse_finite NInf = None"
  "parse_finite NaN = None"
  by (simp_all add: parse_finite_def)

lemma parse_finite_Some [simp]: "parse_finite v = Some x \<longleftrightarrow> v = Fin x"
  by (cases v) (simp_all add: parse_finite_def)

subsection \<open>When a Decimal operation is exact\<close>

lemma fl_pos: "0 < x \<Longrightarrow> 0 < fl x"
  by (simp add: fl_def rnd_pos)

lemma fl_0 [simp]: "fl 0 = 0"
  by (simp add: fl_def)

lemma fl_minus: "fl (- x) = - fl x"
  by (simp add: fl_def rnd_odd)

lemma D_float_pos: "0 < x \<Longrightarrow> 0 < D_float x"
proof -
  assume x: "0 < x"
  have n: "0 < rnd 10 n x" if "0 < n" for n using rnd_pos [of 10 n x] that x by simp
  show ?thesis
  proof (cases "List.find (\<lambda>n. fl (rnd 10 n x) = x) [1..<17]")
    case None
    then show ?thesis using n by (simp add: D_float_def)
  next
    case (Some k)
    then have "k \<in> set [1..<17]" using find_Some_prop by fast
    then have "0 < k" by simp
    with Some show ?thesis using n by (simp add: D_float_def)
  qed
qed

text \<open>An amount of at most \<open>n\<close> decimal places below \<open>10 ^ (28 - n)\<close> fits into 28 digits.\<close>

lemma dctx_grid:
  assumes g: "on_grid n x" and b: "\<bar>x\<bar> < 10 ^ (28 - n)" and n: "n \<le> 27"
  shows "dctx x = x"
proof (cases "x = 0")
  case False
  define e where "e = expo 10 x"
  have "(10::rat) powi e \<le> \<bar>x\<bar>"
    using expo_bounds(1) [of 10 x] False by (simp add: e_def)
  also have "\<dots> < 10 powi (28 - int n)"
    using b n by (simp add: power_int_def of_nat_diff nat_diff_distrib)
  finally have "(10::rat) powi e < 10 powi (28 - int n)" .
  then have "e < 28 - int n"
    by (rule contrapos_pp) (simp add: power_int_increasing not_less)
  then obtain k where k: "27 - e = int n + int k"
    using zle_iff_zadd [of "int n" "27 - e"] by auto
  obtain m where m: "x = of_int m / 10 ^ n" using g by (rule on_gridE)
  have pw: "inverse ((10::rat) powi (e - 27)) = 10 ^ n * 10 ^ k"
  proof -
    have "inverse ((10::rat) powi (e - 27)) = 10 powi (27 - e)"
      by (simp add: power_int_minus [symmetric])
    also have "\<dots> = 10 ^ (n + k)" unfolding k by (metis of_nat_add power_int_of_nat)
    finally show ?thesis by (simp add: power_add)
  qed
  have "x / 10 powi (e - 27) = of_int (m * 10 ^ k)"
    by (simp add: divide_inverse pw m)
  then show ?thesis
    unfolding dctx_def by (intro rnd_fixed [where k = "m * 10 ^ k"]) (simp_all add: e_def)
qed (simp add: dctx_def)

end
