(* ===== verification/Calendar.thy ===== *)
theory Calendar
  imports Prelude
begin

text \<open>
  Calendar dates as \<open>datetime.date\<close> has them, and the program's own date arithmetic on top:
  the next occurrence of a day of the month (app/rules_engine.py), the monthly expansion of
  a recurring item over a window (app/cashflow.py), month addition with the day clamped to
  the month's end (app/debt_strategy.py, app/cashflow.py) and the half-open payment window
  of the simulator (app/simulation_engine.py).

  Years are natural numbers: the \<open>OverflowError\<close> of \<open>datetime.date\<close> beyond year 9999 is not
  modelled. \<open>date.today()\<close> is a parameter wherever the code reads it.
\<close>

subsection \<open>Dates\<close>

datatype date = Date (year: nat) (month: nat) (day: nat)

definition is_leap :: "nat \<Rightarrow> bool" where
  "is_leap y \<longleftrightarrow> y mod 4 = 0 \<and> (y mod 100 \<noteq> 0 \<or> y mod 400 = 0)"

text \<open>\<open>calendar.monthrange(y, m)[1]\<close>.\<close>

definition month_len :: "nat \<Rightarrow> nat \<Rightarrow> nat" where
  "month_len y m = (if m = 2 then (if is_leap y then 29 else 28)
     else if m = 4 \<or> m = 6 \<or> m = 9 \<or> m = 11 then 30 else 31)"

definition valid_date :: "date \<Rightarrow> bool" where
  "valid_date d \<longleftrightarrow> 1 \<le> month d \<and> month d \<le> 12 \<and> 1 \<le> day d \<and> day d \<le> month_len (year d) (month d)"

instantiation date :: linorder
begin

definition less_eq_date :: "date \<Rightarrow> date \<Rightarrow> bool" where
  "less_eq_date d e \<longleftrightarrow> year d < year e \<or> year d = year e \<and>
     (month d < month e \<or> month d = month e \<and> day d \<le> day e)"

definition less_date :: "date \<Rightarrow> date \<Rightarrow> bool" where
  "less_date d e \<longleftrightarrow> year d < year e \<or> year d = year e \<and>
     (month d < month e \<or> month d = month e \<and> day d < day e)"

instance
  by standard (auto simp: less_eq_date_def less_date_def date.expand)

end

lemma month_len_bounds [simp]: "1 \<le> month_len y m" "month_len y m \<le> 31" "0 < month_len y m"
  "Suc 0 \<le> month_len y m" "28 \<le> month_len y m"
  by (simp_all add: month_len_def)

text \<open>The number of the month a date lies in, counted from year 0.\<close>

definition month_index :: "date \<Rightarrow> nat" where
  "month_index d = 12 * year d + month d"

lemma month_index_mono:
  "1 \<le> month d \<Longrightarrow> month d \<le> 12 \<Longrightarrow> 1 \<le> month e \<Longrightarrow> month e \<le> 12 \<Longrightarrow> d \<le> e \<Longrightarrow>
   month_index d \<le> month_index e"
  by (auto simp: less_eq_date_def month_index_def)

lemma month_index_less:
  "1 \<le> month d \<Longrightarrow> month d \<le> 12 \<Longrightarrow> 1 \<le> month e \<Longrightarrow> month e \<le> 12 \<Longrightarrow>
   month_index d < month_index e \<Longrightarrow> d < e"
  by (auto simp: less_date_def month_index_def)

text \<open>\<open>date(y, m, min(dm, monthrange(y, m)[1]))\<close>, the idiom all recurring items share.\<close>

definition month_day :: "nat \<Rightarrow> nat \<Rightarrow> nat \<Rightarrow> date" where
  "month_day y m dm = Date y m (min dm (month_len y m))"

lemma valid_month_day: "1 \<le> m \<Longrightarrow> m \<le> 12 \<Longrightarrow> 1 \<le> dm \<Longrightarrow> valid_date (month_day y m dm)"
  by (simp add: valid_date_def month_day_def)

lemma month_day_sel [simp]:
  "year (month_day y m dm) = y" "month (month_day y m dm) = m"
  "day (month_day y m dm) = min dm (month_len y m)"
  by (simp_all add: month_day_def)

lemma month_index_month_day [simp]: "month_index (month_day y m dm) = 12 * y + m"
  by (simp add: month_index_def)

text \<open>The year and month after a month.\<close>

definition next_month :: "nat \<times> nat \<Rightarrow> nat \<times> nat" where
  "next_month = (\<lambda>(y, m). if m = 12 then (y + 1, 1) else (y, m + 1))"

lemma next_month_range: "next_month (y, m) = (y', m') \<Longrightarrow> 1 \<le> m \<Longrightarrow> m \<le> 12 \<Longrightarrow>
  1 \<le> m' \<and> m' \<le> 12 \<and> 12 * y' + m' = Suc (12 * y + m)"
  by (auto simp: next_month_def split: if_splits)

text \<open>A date falls on a given day of the month: its day is that day, or the month's last
  day where the month is shorter.\<close>

definition on_day :: "nat \<Rightarrow> date \<Rightarrow> bool" where
  "on_day dm d \<longleftrightarrow> day d = min dm (month_len (year d) (month d))"

lemma on_day_month_day [simp]: "on_day dm (month_day y m dm)"
  by (simp add: on_day_def)

lemma on_day_eq: "on_day dm d \<longleftrightarrow> d = month_day (year d) (month d) dm"
  by (cases d) (simp add: on_day_def month_day_def)

lemma same_month_index:
  assumes "month_index d = month_index e" "valid_date d" "valid_date e"
  shows "year d = year e" "month d = month e"
proof -
  have r: "1 \<le> month d" "month d \<le> 12" "1 \<le> month e" "month e \<le> 12"
    "12 * year d + month d = 12 * year e + month e"
    using assms by (simp_all add: valid_date_def month_index_def)
  from r show "year d = year e" by presburger
  with r show "month d = month e" by simp
qed

lemma on_day_month_le:
  assumes v: "valid_date d" "valid_date e" and o: "on_day dm d" "on_day dm e"
    and le: "month_index d \<le> month_index e"
  shows "d \<le> e"
proof (cases "month_index d = month_index e")
  case True
  from same_month_index [OF True v] have "d = e"
    using o by (metis on_day_eq)
  then show ?thesis by simp
next
  case False
  with le month_index_less [of d e] v show ?thesis by (simp add: valid_date_def)
qed

subsection \<open>Days\<close>

definition next_day :: "date \<Rightarrow> date" where
  "next_day d = (if day d < month_len (year d) (month d) then Date (year d) (month d) (day d + 1)
     else (case next_month (year d, month d) of (y, m) \<Rightarrow> Date y m 1))"

definition prev_day :: "date \<Rightarrow> date" where
  "prev_day d = (if 1 < day d then Date (year d) (month d) (day d - 1)
     else if month d = 1 then Date (year d - 1) 12 31
     else Date (year d) (month d - 1) (month_len (year d) (month d - 1)))"

text \<open>\<open>d + timedelta(days=n)\<close> and \<open>d - timedelta(days=n)\<close>.\<close>

fun add_days :: "date \<Rightarrow> nat \<Rightarrow> date" where
  "add_days d 0 = d"
| "add_days d (Suc n) = add_days (next_day d) n"

fun sub_days :: "date \<Rightarrow> nat \<Rightarrow> date" where
  "sub_days d 0 = d"
| "sub_days d (Suc n) = sub_days (prev_day d) n"

text \<open>\<open>date.toordinal()\<close>; \<open>(e - d).days\<close> is the difference of two ordinals.\<close>

definition days_before_year :: "nat \<Rightarrow> int" where
  "days_before_year y = (let z = int y - 1 in 365 * z + z div 4 - z div 100 + z div 400)"

definition days_before_month :: "nat \<Rightarrow> nat \<Rightarrow> nat" where
  "days_before_month y m = sum_list (map (month_len y) [1..<m])"

definition ordinal :: "date \<Rightarrow> int" where
  "ordinal d = days_before_year (year d) + int (days_before_month (year d) (month d)) + int (day d)"

definition days_between :: "date \<Rightarrow> date \<Rightarrow> int" where
  "days_between d e = ordinal e - ordinal d"

lemma div_step:
  fixes z k :: int
  assumes "1 < k"
  shows "z div k = (z - 1) div k + (if z mod k = 0 then 1 else 0)"
proof (cases "z mod k = 0")
  case True
  then obtain j where j: "z = k * j" by (auto simp: mod_eq_0_iff_dvd)
  then have "z - 1 = (k - 1) + k * (j - 1)" by (simp add: algebra_simps)
  then have "(z - 1) div k = j - 1"
    using assms by (metis add.right_neutral div_mult_self2 div_pos_pos_trivial diff_ge_0_iff_ge
        le_less less_add_same_cancel1 add.commute diff_add_cancel zle_diff1_eq zero_less_one
        less_irrefl add_0)
  then show ?thesis using True j assms by simp
next
  case False
  have r: "0 \<le> z mod k - 1" "z mod k - 1 < k"
    using False assms pos_mod_sign [of k z] pos_mod_bound [of k z] by linarith+
  have "z - 1 = (z mod k - 1) + k * (z div k)" by (simp add: algebra_simps)
  then have "(z - 1) div k = ((z mod k - 1) + k * (z div k)) div k" by (rule arg_cong)
  also have "\<dots> = z div k + (z mod k - 1) div k" using assms by (intro div_mult_self2) simp
  finally have "(z - 1) div k = z div k + (z mod k - 1) div k" .
  then show ?thesis using False r by (simp add: div_pos_pos_trivial)
qed

lemma days_before_year_Suc:
  "days_before_year (Suc y) = days_before_year y + (if is_leap y then 366 else 365)"
proof -
  have z: "int y mod numeral n = 0 \<longleftrightarrow> y mod numeral n = 0" for n
    by (metis of_nat_0_eq_iff of_nat_mod of_nat_numeral)
  have m: "y mod 400 = 0 \<Longrightarrow> y mod 100 = 0" "y mod 100 = 0 \<Longrightarrow> y mod 4 = 0"
    by (auto simp: mod_eq_0_iff_dvd intro: dvd_trans [of 100 400] dvd_trans [of 4 100])
  define a b c where "a = (int y - 1) div 4" "b = (int y - 1) div 100" "c = (int y - 1) div 400"
  have d: "int y div 4 = a + (if y mod 4 = 0 then 1 else 0)"
    "int y div 100 = b + (if y mod 100 = 0 then 1 else 0)"
    "int y div 400 = c + (if y mod 400 = 0 then 1 else 0)"
    unfolding a_b_c_def z [symmetric] by (rule div_step, simp)+
  have e: "int (Suc y) - 1 = int y" by simp
  have "days_before_year y = 365 * (int y - 1) + a - b + c"
    by (simp only: days_before_year_def Let_def a_b_c_def)
  moreover have "days_before_year (Suc y) = 365 * int y + int y div 4 - int y div 100 + int y div 400"
    by (simp only: days_before_year_def Let_def e)
  ultimately show ?thesis using m unfolding d is_leap_def by simp
qed

lemma days_before_month_Suc:
  "1 \<le> m \<Longrightarrow> days_before_month y (Suc m) = days_before_month y m + month_len y m"
  by (simp add: days_before_month_def)

lemma days_in_year: "days_before_month y 13 = (if is_leap y then 366 else 365)"
  by (simp add: days_before_month_def upt_rec month_len_def)

lemma ordinal_next_day: "valid_date d \<Longrightarrow> ordinal (next_day d) = ordinal d + 1"
proof (cases d)
  case (Date y m k)
  assume "valid_date d"
  then have v: "1 \<le> m" "m \<le> 12" "1 \<le> k" "k \<le> month_len y m" by (simp_all add: Date valid_date_def)
  consider "k < month_len y m" | "k = month_len y m" "m < 12" | "k = month_len y m" "m = 12"
    using v by linarith
  then show ?thesis
  proof cases
    case 3
    then have "days_before_month y 13 = days_before_month y 12 + k"
      using days_before_month_Suc [of 12 y] by simp
    then show ?thesis using 3 days_in_year [of y] days_before_year_Suc [of y]
      by (auto simp: Date ordinal_def next_day_def next_month_def days_before_month_def)
  qed (use v in \<open>simp_all add: Date ordinal_def next_day_def next_month_def days_before_month_Suc\<close>)
qed

lemma valid_next_day: "valid_date d \<Longrightarrow> valid_date (next_day d)"
  by (auto simp: valid_date_def next_day_def next_month_def)

lemma next_day_greater: "valid_date d \<Longrightarrow> d < next_day d"
  by (auto simp: valid_date_def next_day_def next_month_def less_date_def)

text \<open>No valid date lies strictly between a day and the next.\<close>

lemma next_day_least: "valid_date d \<Longrightarrow> valid_date e \<Longrightarrow> d < e \<Longrightarrow> next_day d \<le> e"
  by (auto simp: valid_date_def next_day_def next_month_def less_date_def less_eq_date_def)

lemma valid_add_days: "valid_date d \<Longrightarrow> valid_date (add_days d n)"
  by (induction n arbitrary: d) (simp_all add: valid_next_day)

lemma ordinal_add_days: "valid_date d \<Longrightarrow> ordinal (add_days d n) = ordinal d + int n"
  by (induction n arbitrary: d) (simp_all add: valid_next_day ordinal_next_day)

lemma add_days_add: "add_days d (m + n) = add_days (add_days d m) n"
  by (induction m arbitrary: d) simp_all

lemma add_days_Suc_end: "add_days d (Suc n) = next_day (add_days d n)"
  using add_days_add [of d n 1] by simp

lemma add_days_mono: "valid_date d \<Longrightarrow> m \<le> n \<Longrightarrow> add_days d m \<le> add_days d n"
proof (induction n)
  case (Suc n)
  then show ?case
    using next_day_greater [OF valid_add_days [OF Suc.prems(1), of n]]
    by (cases "m = Suc n") (auto simp: add_days_Suc_end simp del: add_days.simps(2))
qed simp

subsection \<open>The next occurrence of a day of the month\<close>

text \<open>app/rules_engine.py\<close>

definition get_month_remaining_days :: "date \<Rightarrow> nat" where
  "get_month_remaining_days today = month_len (year today) (month today) - day today + 1"

definition get_next_occurrence :: "nat \<Rightarrow> date \<Rightarrow> date" where
  "get_next_occurrence dm today =
     (let target_day = min dm (month_len (year today) (month today)) in
      if day today < target_day then Date (year today) (month today) target_day
      else (let (ny, nm) = (if month today = 12 then (year today + 1, 1)
                            else (year today, month today + 1))
            in Date ny nm (min dm (month_len ny nm))))"

definition get_next_due_date :: "date \<Rightarrow> nat \<Rightarrow> date" where
  "get_next_due_date today dm =
     (let candidate = Date (year today) (month today) (min dm (month_len (year today) (month today))) in
      if candidate < today then
        (let nm = month today mod 12 + 1; ny = year today + (if month today = 12 then 1 else 0)
         in Date ny nm (min dm (month_len ny nm)))
      else candidate)"

text \<open>app/debt_strategy.py: \<open>n\<close> calendar months later, the day clamped.\<close>

definition add_months :: "date \<Rightarrow> nat \<Rightarrow> date" where
  "add_months d months =
     (let total = month d - 1 + months; y = year d + total div 12; m = total mod 12 + 1
      in Date y m (min (day d) (month_len y m)))"

text \<open>app/cashflow.py: one month later, the day clamped.\<close>

definition advance_month :: "date \<Rightarrow> date" where
  "advance_month d = (let nm = month d mod 12 + 1; ny = year d + month d div 12
     in Date ny nm (min (day d) (month_len ny nm)))"

lemma valid_get_next_occurrence:
  "valid_date t \<Longrightarrow> 1 \<le> dm \<Longrightarrow> valid_date (get_next_occurrence dm t)"
  by (auto simp: valid_date_def get_next_occurrence_def Let_def)

lemma get_next_occurrence_greater:
  "valid_date t \<Longrightarrow> t < get_next_occurrence dm t"
  by (auto simp: get_next_occurrence_def Let_def less_date_def)

lemma get_next_occurrence_on_day: "on_day dm (get_next_occurrence dm t)"
  by (auto simp: get_next_occurrence_def Let_def on_day_def)

lemma get_next_occurrence_least:
  assumes t: "valid_date t" and e: "valid_date e" "on_day dm e" "t < e"
  shows "get_next_occurrence dm t \<le> e"
proof (cases "12 * year e + month e \<le> 12 * year t + month t")
  case True
  then have "year e = year t" "month e = month t"
    using t e(1,3) by (auto simp: valid_date_def less_date_def)
  then show ?thesis using e(2,3)
    by (auto simp: get_next_occurrence_def Let_def less_date_def less_eq_date_def on_day_def)
next
  case False
  then have "month_index (get_next_occurrence dm t) \<le> month_index e"
    by (auto simp: get_next_occurrence_def Let_def month_index_def)
  moreover have "1 \<le> dm" using e by (auto simp: valid_date_def on_day_def)
  ultimately show ?thesis
    using on_day_month_le [OF valid_get_next_occurrence [OF t] e(1) get_next_occurrence_on_day e(2)]
    by simp
qed

lemma get_next_due_date_cases:
  "get_next_due_date t dm = (if day t \<le> min dm (month_len (year t) (month t))
     then month_day (year t) (month t) dm
     else (case next_month (year t, month t) of (y, m) \<Rightarrow> month_day y m dm))"
  if "valid_date t"
  using that by (auto simp: get_next_due_date_def Let_def less_date_def month_day_def
      next_month_def valid_date_def)

lemma get_next_due_date_ge: "valid_date t \<Longrightarrow> t \<le> get_next_due_date t dm"
  by (auto simp: get_next_due_date_cases less_eq_date_def next_month_def)

lemma valid_get_next_due_date:
  "valid_date t \<Longrightarrow> 1 \<le> dm \<Longrightarrow> valid_date (get_next_due_date t dm)"
  by (auto simp: get_next_due_date_cases next_month_def valid_date_def)

lemma get_next_due_date_on_day: "valid_date t \<Longrightarrow> on_day dm (get_next_due_date t dm)"
  by (auto simp: get_next_due_date_cases next_month_def)

lemma get_next_due_date_eq_today: "valid_date t \<Longrightarrow> on_day dm t \<Longrightarrow> get_next_due_date t dm = t"
  by (cases t) (auto simp: get_next_due_date_cases on_day_def month_day_def)

lemma get_next_due_date_not_today:
  "valid_date t \<Longrightarrow> \<not> on_day dm t \<Longrightarrow> get_next_due_date t dm = get_next_occurrence dm t"
  by (auto simp: get_next_due_date_cases get_next_occurrence_def Let_def on_day_def month_day_def
      next_month_def)

lemma get_next_due_date_least:
  assumes "valid_date t" "valid_date e" "on_day dm e" "t \<le> e"
  shows "get_next_due_date t dm \<le> e"
  using assms get_next_due_date_eq_today get_next_due_date_not_today get_next_occurrence_least
  by (metis order_le_less)

lemma valid_add_months: "valid_date d \<Longrightarrow> valid_date (add_months d n)"
  by (auto simp: valid_date_def add_months_def Let_def)

lemma month_index_add_months:
  "valid_date d \<Longrightarrow> month_index (add_months d n) = month_index d + n"
  by (auto simp: valid_date_def add_months_def Let_def month_index_def)

lemma add_months_less:
  assumes "valid_date d" "m < n" shows "add_months d m < add_months d n"
  using month_index_less [of "add_months d m" "add_months d n"] assms
    month_index_add_months [OF assms(1)] valid_add_months [OF assms(1)]
  by (simp add: valid_date_def)

lemma advance_month_eq: "valid_date d \<Longrightarrow> advance_month d = add_months d 1"
  by (auto simp: advance_month_def add_months_def Let_def valid_date_def mod_Suc div_Suc
      split: if_splits)

subsection \<open>Expansion of a monthly item over a window\<close>

text \<open>app/cashflow.py \<open>_month_occurrences\<close>: \<open>cur\<close> walks over the first days of the months.\<close>

function month_walk :: "date \<Rightarrow> date \<Rightarrow> date \<Rightarrow> nat \<Rightarrow> date list" where
  "month_walk cur start fin dm = (if cur \<le> fin then
     (let candidate = Date (year cur) (month cur) (min dm (month_len (year cur) (month cur)));
          rest = month_walk (Date (year cur + (if month cur = 12 then 1 else 0)) (month cur mod 12 + 1) 1)
                   start fin dm
      in if start \<le> candidate \<and> candidate \<le> fin then candidate # rest else rest)
     else [])"
  by pat_completeness auto
termination
  by (relation "measure (\<lambda>(cur, start, fin, dm). (year fin + 1 - year cur) * 15 +
        (if 1 \<le> month cur \<and> month cur \<le> 12 then 13 - month cur else 14))")
    (auto simp: less_eq_date_def mod_Suc algebra_simps Suc_diff_le
      intro!: le_less_trans [OF mod_less_eq_dividend])

declare month_walk.simps [simp del]

definition month_occurrences :: "date \<Rightarrow> date \<Rightarrow> nat \<Rightarrow> date list" where
  "month_occurrences start fin dm = month_walk (Date (year start) (month start) 1) start fin dm"

text \<open>app/simulation_engine.py \<open>_next_payment_in_window\<close>: the payments in \<open>(start, end]\<close>,
  the cursor moving on by a month, clamped.\<close>

definition cursor_step :: "date \<Rightarrow> date" where
  "cursor_step cursor =
     (let (y, m) = (if 12 < month cursor + 1 then (year cursor + 1, 1) else (year cursor, month cursor + 1))
      in Date y m (min (day cursor) (month_len y m)))"

function payment_walk :: "date \<Rightarrow> date \<Rightarrow> date \<Rightarrow> date list" where
  "payment_walk cursor start fin = (if cursor \<le> fin then
     (if start < cursor then [cursor] else []) @ payment_walk (cursor_step cursor) start fin
     else [])"
  by pat_completeness auto
termination
  by (relation "measure (\<lambda>(cur, start, fin). (year fin + 1 - year cur) * 14 + (13 - month cur))")
    (auto simp: less_eq_date_def cursor_step_def)

declare payment_walk.simps [simp del]

definition next_payment_in_window :: "date option \<Rightarrow> date \<Rightarrow> date \<Rightarrow> date list" where
  "next_payment_in_window next_pay start fin =
     (case next_pay of None \<Rightarrow> [] | Some p \<Rightarrow> payment_walk p start fin)"

lemma first_of_month_le: "valid_date d \<Longrightarrow> Date (year d) (month d) 1 \<le> d"
  by (simp add: less_eq_date_def valid_date_def)

lemma before_first_of_month:
  assumes "valid_date d" "valid_date c" "day c = 1" "d < c"
  shows "month_index d < month_index c"
  using assms by (auto simp: less_date_def valid_date_def month_index_def)

lemma month_walk_next:
  assumes "valid_date c" "day c = 1"
  shows "valid_date (Date (year c + (if month c = 12 then 1 else 0)) (month c mod 12 + 1) 1)"
    and "month_index (Date (year c + (if month c = 12 then 1 else 0)) (month c mod 12 + 1) 1) =
      Suc (month_index c)"
  using assms by (auto simp: valid_date_def month_index_def mod_Suc)

lemma set_month_walk:
  assumes "valid_date cur" "day cur = 1" "1 \<le> dm"
  shows "set (month_walk cur start fin dm) =
    {d. valid_date d \<and> on_day dm d \<and> start \<le> d \<and> d \<le> fin \<and> month_index cur \<le> month_index d}"
  using assms
proof (induction cur start fin dm rule: month_walk.induct)
  case (1 cur start fin dm)
  let ?c = "month_day (year cur) (month cur) dm"
  let ?n = "Date (year cur + (if month cur = 12 then 1 else 0)) (month cur mod 12 + 1) 1"
  have c: "valid_date ?c" "on_day dm ?c" "month_index ?c = month_index cur"
    using "1.prems" by (simp_all add: valid_month_day valid_date_def month_index_def)
  note n = month_walk_next [OF "1.prems"(1,2)]
  have same: "d = ?c" if "valid_date d" "on_day dm d" "month_index d = month_index cur" for d
    using same_month_index [OF that(3,1) "1.prems"(1)] that(2) by (metis on_day_eq)
  show ?case
  proof (cases "cur \<le> fin")
    case True
    have IH: "set (month_walk ?n start fin dm) =
      {d. valid_date d \<and> on_day dm d \<and> start \<le> d \<and> d \<le> fin \<and> Suc (month_index cur) \<le> month_index d}"
      using "1.IH" [OF True _ n(1)] "1.prems" unfolding n(2) by (simp add: month_day_def)
    have "month_walk cur start fin dm = (if start \<le> ?c \<and> ?c \<le> fin
        then ?c # month_walk ?n start fin dm else month_walk ?n start fin dm)"
      using True by (simp add: month_walk.simps [of cur] Let_def month_day_def)
    then have "set (month_walk cur start fin dm) =
        {d. d = ?c \<and> start \<le> d \<and> d \<le> fin} \<union> set (month_walk ?n start fin dm)" by auto
    moreover have "(d = ?c \<and> start \<le> d \<and> d \<le> fin) \<or>
        (valid_date d \<and> on_day dm d \<and> start \<le> d \<and> d \<le> fin \<and> Suc (month_index cur) \<le> month_index d)
        \<longleftrightarrow> valid_date d \<and> on_day dm d \<and> start \<le> d \<and> d \<le> fin \<and> month_index cur \<le> month_index d" for d
      using c same [of d] by (metis Suc_le_eq le_eq_less_or_eq)
    ultimately show ?thesis unfolding IH by (simp add: set_eq_iff)
  next
    case False
    then have "\<not> month_index cur \<le> month_index d" if "valid_date d" "d \<le> fin" for d
      using before_first_of_month [OF that(1) "1.prems"(1,2)] that(2) by fastforce
    with False show ?thesis by (auto simp: month_walk.simps [of cur])
  qed
qed

lemma sorted_month_walk:
  assumes "valid_date cur" "day cur = 1" "1 \<le> dm"
  shows "sorted_wrt (<) (month_walk cur start fin dm)"
  using assms
proof (induction cur start fin dm rule: month_walk.induct)
  case (1 cur start fin dm)
  let ?c = "month_day (year cur) (month cur) dm"
  let ?n = "Date (year cur + (if month cur = 12 then 1 else 0)) (month cur mod 12 + 1) 1"
  note n = month_walk_next [OF "1.prems"(1,2)]
  have c: "valid_date ?c" "month_index ?c = month_index cur"
    using "1.prems" by (simp_all add: valid_month_day valid_date_def month_index_def)
  have setn: "set (month_walk ?n start fin dm) =
    {d. valid_date d \<and> on_day dm d \<and> start \<le> d \<and> d \<le> fin \<and> month_index ?n \<le> month_index d}"
    by (rule set_month_walk [OF n(1) _ "1.prems"(3)]) simp
  have "?c < d" if "d \<in> set (month_walk ?n start fin dm)" for d
    using that month_index_less [of ?c d] c unfolding setn n(2) valid_date_def by simp
  moreover have "sorted_wrt (<) (month_walk ?n start fin dm)" if "cur \<le> fin"
    using "1.IH" [OF that _ n(1)] "1.prems"(3) by (simp add: month_day_def)
  ultimately show ?case
    by (simp add: month_walk.simps [of cur] Let_def month_day_def)
qed

lemma set_month_occurrences:
  assumes "valid_date start" "1 \<le> dm"
  shows "set (month_occurrences start fin dm) =
    {d. valid_date d \<and> on_day dm d \<and> start \<le> d \<and> d \<le> fin}"
proof -
  have v: "valid_date (Date (year start) (month start) 1)" using assms by (simp add: valid_date_def)
  have "month_index (Date (year start) (month start) 1) \<le> month_index d"
    if "valid_date d" "start \<le> d" for d
    using month_index_mono [of start d] that assms by (simp add: valid_date_def month_index_def)
  with set_month_walk [OF v _ assms(2)] show ?thesis
    by (auto simp: month_occurrences_def)
qed

lemma sorted_month_occurrences:
  "valid_date start \<Longrightarrow> 1 \<le> dm \<Longrightarrow> sorted_wrt (<) (month_occurrences start fin dm)"
  unfolding month_occurrences_def by (rule sorted_month_walk) (simp_all add: valid_date_def)

lemma cursor_step_eq: "valid_date d \<Longrightarrow> cursor_step d = add_months d 1"
  by (cases "month d = 12") (simp_all add: cursor_step_def add_months_def Let_def valid_date_def)

lemma cursor_step_greater: "valid_date d \<Longrightarrow> d < cursor_step d"
  using month_index_less [of d "cursor_step d"] valid_add_months [of d 1]
  by (simp add: cursor_step_eq month_index_add_months valid_date_def)

lemma payment_walk_range: "d \<in> set (payment_walk c start fin) \<Longrightarrow> start < d \<and> d \<le> fin"
  by (induction c start fin rule: payment_walk.induct)
    (subst (asm) payment_walk.simps, auto split: if_splits)

text \<open>The half-open windows compose: nothing on the boundary is counted twice or lost.\<close>

lemma payment_walk_split:
  assumes "start \<le> mid" "mid \<le> fin" "valid_date c"
  shows "payment_walk c start fin = payment_walk c start mid @ payment_walk c mid fin"
  using assms
proof (induction c start fin rule: payment_walk.induct)
  case (1 c start fin)
  have n: "valid_date (cursor_step c)" using "1.prems" by (simp add: cursor_step_eq valid_add_months)
  consider "c \<le> mid" | "mid < c" "c \<le> fin" | "fin < c" by fastforce
  then show ?case
  proof cases
    case 1
    then have le: "c \<le> fin" "\<not> mid < c" using "1.prems" by simp_all
    then show ?thesis using "1.IH" [OF le(1) "1.prems"(1,2) n] 1
      by (simp add: payment_walk.simps [of c])
  next
    case 2
    then have "\<not> c \<le> mid" "start < c" "\<not> cursor_step c \<le> mid"
      using "1.prems" cursor_step_greater [of c] by auto
    moreover from this have "payment_walk (cursor_step c) start mid = []"
      by (simp add: payment_walk.simps [of "cursor_step c"])
    ultimately show ?thesis using "1.IH" [OF 2(2) "1.prems"(1,2) n] 2
      by (simp add: payment_walk.simps [of c])
  next
    case 3
    then have "\<not> c \<le> mid" "\<not> c \<le> fin" using "1.prems" by auto
    then show ?thesis by (simp add: payment_walk.simps [of c])
  qed
qed

end
