(* ===== verification/Data_Model.thy ===== *)
theory Data_Model
  imports Numbers Calendar
begin

text \<open>
  The rows of app/models.py the modelled components read and write, and the session as a
  record of tables. A table is the list of its rows in primary key order; money columns
  (\<open>Numeric\<close>) and \<open>Float\<close> columns are rationals (theory Numbers), a nullable column is an
  option. The coercion of a value to the scale of its \<open>Numeric(19,4)\<close> column at flush, the
  \<open>created_at\<close>/\<open>updated_at\<close> stamps, free-text notes and ORM relationships are not modelled.
  A \<open>datetime\<close> is an \<open>int\<close>, the seconds since the epoch.
\<close>

datatype account_type = Cash | Credit_Card | Loan | Investment
datatype transaction_type = Income | Expense | Transfer
datatype debt_direction = Receivable | Payable
datatype checkpoint_type = Red_Line | Strategy | Rule | Context
datatype action_status = Pending | Approved | Rejected | Executed | Failed
datatype workspace_role = Owner | Editor | Viewer

record account =
  acc_id :: nat
  acc_user :: nat
  acc_ws :: "nat option"
  acc_name :: string
  acc_type :: account_type
  acc_balance :: rat
  credit_limit :: "rat option"
  statement_day :: "nat option"
  payment_day :: "nat option"
  interest_rate :: "rat option"
  min_payment_ratio :: "rat option"
  statement_balance :: "rat option"
  monthly_payment :: "rat option"
  remaining_installments :: "nat option"
  next_payment_date :: "date option"
  early_payoff_amount :: "rat option"
  lot_count :: "rat option"
  cost_per_lot :: "rat option"
  current_price :: "rat option"
  last_price_update :: "int option"
  fund_code :: "string option"
  is_emanet :: bool

record recurring_income =
  ri_id :: nat
  ri_user :: nat
  ri_ws :: "nat option"
  ri_name :: string
  ri_amount :: rat
  ri_day :: nat
  ri_active :: bool
  ri_last_triggered :: "(nat \<times> nat) option"

record recurring_expense =
  re_id :: nat
  re_user :: nat
  re_ws :: "nat option"
  re_name :: string
  re_amount :: rat
  re_account :: "nat option"
  re_category :: "string option"
  re_day :: nat
  re_active :: bool
  re_last_triggered :: "(nat \<times> nat) option"

record category =
  cat_id :: nat
  cat_user :: nat
  cat_ws :: "nat option"
  slug :: string
  kart_varsayilani :: bool
  sistem :: bool
  gizli :: bool

record transaction =
  tx_id :: nat
  tx_user :: nat
  tx_ws :: "nat option"
  tx_account :: "nat option"
  tx_type :: transaction_type
  tx_amount :: rat
  tx_category :: "string option"
  tx_description :: "string option"
  tx_date :: date
  is_card_expense :: bool

record personal_debt =
  pd_id :: nat
  pd_user :: nat
  pd_ws :: "nat option"
  counterparty :: string
  direction :: debt_direction
  pd_amount :: rat
  pd_description :: "string option"
  due_date :: "date option"
  is_paid :: bool
  paid_date :: "date option"
  settlement_account :: "nat option"

text \<open>The structured rule of a checkpoint: the columns \<open>rule_type\<close> and \<open>rule_params\<close>, the JSON of the latter
  decoded. Of the parameters the two keys the code reads are kept; a value is an int, a float, a boolean
  or anything else.\<close>

datatype jval = J_Int int | J_Float rat | J_Bool bool | J_Else

record rule_params =
  rp_amount :: "jval option"
  rp_account :: "jval option"

record master_checkpoint =
  cp_id :: nat
  cp_user :: nat
  cp_ws :: "nat option"
  cp_title :: string
  cp_description :: string
  cp_type :: checkpoint_type
  cp_priority :: int
  cp_active :: bool
  cp_system :: bool
  cp_rule_type :: "string option"
  cp_rule_params :: "rule_params option"

text \<open>What the evaluators of app/user_rules.py read of them. \<open>D\<close> raises on a boolean, and the comparison of
  its result for a null does; \<open>isinstance(x, int)\<close> holds of booleans.\<close>

datatype rule_spec =
    Min_Cash_Floor rat
  | Account_Untouchable "nat option"
  | Max_Single_Expense rat
  | Unknown_Rule
  | Bad_Amount

definition rule_amount :: "rule_params option \<Rightarrow> rat option" where
  "rule_amount q = (case q of None \<Rightarrow> Some 0
     | Some p \<Rightarrow> (case rp_amount p of None \<Rightarrow> Some 0 | Some (J_Int n) \<Rightarrow> Some (of_int n) | Some (J_Float x) \<Rightarrow> Some (D_float x)
         | Some (J_Bool _) \<Rightarrow> None | Some J_Else \<Rightarrow> None))"

definition rule_account :: "rule_params option \<Rightarrow> nat option" where
  "rule_account q = (case q of None \<Rightarrow> None
     | Some p \<Rightarrow> (case rp_account p of Some (J_Int n) \<Rightarrow> (if 0 \<le> n then Some (nat n) else None)
         | Some (J_Bool b) \<Rightarrow> Some (if b then 1 else 0) | _ \<Rightarrow> None))"

definition cp_rule :: "master_checkpoint \<Rightarrow> rule_spec option" where
  "cp_rule c = map_option (\<lambda>t.
     if t = ''min_cash_floor'' then (case rule_amount (cp_rule_params c) of None \<Rightarrow> Bad_Amount | Some x \<Rightarrow> Min_Cash_Floor x)
     else if t = ''max_single_expense'' then
       (case rule_amount (cp_rule_params c) of None \<Rightarrow> Bad_Amount | Some x \<Rightarrow> Max_Single_Expense x)
     else if t = ''account_untouchable'' then Account_Untouchable (rule_account (cp_rule_params c))
     else Unknown_Rule) (cp_rule_type c)"

record workspace =
  ws_id :: nat
  ws_owner :: nat
  ws_name :: string
  is_personal :: bool

record membership =
  mb_id :: nat
  mb_ws :: nat
  mb_user :: nat
  mb_role :: workspace_role

text \<open>The tables the endpoints and handlers work on.\<close>

record db =
  accounts :: "account list"
  transactions :: "transaction list"
  debts :: "personal_debt list"
  incomes :: "recurring_income list"
  expenses :: "recurring_expense list"
  categories :: "category list"
  checkpoints :: "master_checkpoint list"
  db_workspaces :: "workspace list"

definition empty_db :: db where
  "empty_db = \<lparr>accounts = [], transactions = [], debts = [], incomes = [], expenses = [],
     categories = [], checkpoints = [], db_workspaces = []\<rparr>"

lemma empty_db_sel [simp]:
  "accounts empty_db = []" "transactions empty_db = []" "debts empty_db = []" "incomes empty_db = []"
  "expenses empty_db = []" "categories empty_db = []" "checkpoints empty_db = []" "db_workspaces empty_db = []"
  by (simp_all add: empty_db_def)

subsection \<open>Scope\<close>

text \<open>app/workspace_deps.py \<open>scope_filter\<close>: by workspace when one is active, by user otherwise.\<close>

definition scope_filter :: "nat \<Rightarrow> nat option \<Rightarrow> nat \<Rightarrow> nat option \<Rightarrow> bool" where
  "scope_filter user_id workspace_id row_user row_ws =
     (case workspace_id of Some w \<Rightarrow> row_ws = Some w | None \<Rightarrow> row_user = user_id)"

abbreviation acc_in_scope :: "nat \<Rightarrow> nat option \<Rightarrow> account \<Rightarrow> bool" where
  "acc_in_scope u w a \<equiv> scope_filter u w (acc_user a) (acc_ws a)"

abbreviation pd_in_scope :: "nat \<Rightarrow> nat option \<Rightarrow> personal_debt \<Rightarrow> bool" where
  "pd_in_scope u w d \<equiv> scope_filter u w (pd_user d) (pd_ws d)"

abbreviation tx_in_scope :: "nat \<Rightarrow> nat option \<Rightarrow> transaction \<Rightarrow> bool" where
  "tx_in_scope u w t \<equiv> scope_filter u w (tx_user t) (tx_ws t)"

text \<open>\<open>db.query(Account).filter(Account.id == i, scope_filter(...)).first()\<close>\<close>

definition query_account :: "nat \<Rightarrow> nat option \<Rightarrow> nat \<Rightarrow> account list \<Rightarrow> account option" where
  "query_account u w i accs = List.find (\<lambda>a. acc_id a = i \<and> acc_in_scope u w a) accs"

definition query_debt :: "nat \<Rightarrow> nat option \<Rightarrow> nat \<Rightarrow> personal_debt list \<Rightarrow> personal_debt option" where
  "query_debt u w i ds = List.find (\<lambda>d. pd_id d = i \<and> pd_in_scope u w d) ds"

text \<open>The change of an account's balance, and of a balance column in a table of accounts.\<close>

definition add_balance :: "rat \<Rightarrow> account \<Rightarrow> account" where
  "add_balance x a = a\<lparr>acc_balance := acc_balance a + x\<rparr>"

definition balance_of :: "nat \<Rightarrow> account list \<Rightarrow> rat option" where
  "balance_of i accs = map_option acc_balance (find_row acc_id i accs)"

abbreviation credit :: "nat \<Rightarrow> rat \<Rightarrow> account list \<Rightarrow> account list" where
  "credit i x accs \<equiv> upd_row acc_id i (add_balance x) accs"

lemma add_balance_sel [simp]:
  "acc_id (add_balance x a) = acc_id a" "acc_user (add_balance x a) = acc_user a"
  "acc_ws (add_balance x a) = acc_ws a" "acc_type (add_balance x a) = acc_type a"
  "is_emanet (add_balance x a) = is_emanet a" "acc_balance (add_balance x a) = acc_balance a + x"
  "acc_name (add_balance x a) = acc_name a" "lot_count (add_balance x a) = lot_count a"
  by (simp_all add: add_balance_def)

lemma add_balance_add [simp]: "add_balance x (add_balance y a) = add_balance (x + y) a"
  by (simp add: add_balance_def algebra_simps)

lemma add_balance_0 [simp]: "add_balance 0 a = a"
  by (simp add: add_balance_def)

lemma credit_credit [simp]: "credit i x (credit i y accs) = credit i (x + y) accs"
  by (simp add: upd_row_upd_row)

lemma credit_0 [simp]: "credit i 0 accs = accs"
  by (rule upd_row_ident) simp

lemma credit_commute: "credit i x (credit j y accs) = credit j y (credit i x accs)"
  by (cases "i = j") (simp_all add: add.commute upd_row_commute)

lemma balance_of_credit [row_simps]:
  "balance_of j (credit i x accs) =
     (if i = j then map_option ((+) x) (balance_of j accs) else balance_of j accs)"
  by (cases "find_row acc_id j accs") (simp_all add: balance_of_def row_simps add.commute)

lemma map_acc_id_credit [simp]: "map acc_id (credit i x accs) = map acc_id accs"
  by (simp add: map_key_upd_row)

lemma query_account_Some:
  "query_account u w i accs = Some a \<Longrightarrow> a \<in> set accs \<and> acc_id a = i \<and> acc_in_scope u w a"
  unfolding query_account_def by (drule find_Some_prop) simp

lemma query_account_find_row:
  "distinct (map acc_id accs) \<Longrightarrow> query_account u w i accs = Some a \<Longrightarrow> find_row acc_id i accs = Some a"
  by (metis find_row_distinct query_account_Some)

lemma query_debt_Some:
  "query_debt u w i ds = Some d \<Longrightarrow> d \<in> set ds \<and> pd_id d = i \<and> pd_in_scope u w d"
  unfolding query_debt_def by (drule find_Some_prop) simp

lemma query_debt_find_row:
  "distinct (map pd_id ds) \<Longrightarrow> query_debt u w i ds = Some d \<Longrightarrow> find_row pd_id i ds = Some d"
  by (metis find_row_distinct query_debt_Some)

text \<open>An account after an update of columns other than its key and scope is found again.\<close>

lemma query_account_upd_row:
  assumes "\<And>a. acc_id (f a) = acc_id a" "\<And>a. acc_user (f a) = acc_user a"
    "\<And>a. acc_ws (f a) = acc_ws a"
  shows "query_account u w j (upd_row acc_id i f accs) =
    (if i = j then map_option f (query_account u w j accs) else query_account u w j accs)"
  using assms by (induction accs) (auto simp: query_account_def)

lemma query_account_credit [row_simps]:
  "query_account u w j (credit i x accs) =
    (if i = j then map_option (add_balance x) (query_account u w j accs) else query_account u w j accs)"
  by (rule query_account_upd_row) simp_all

end
