(* ===== verification/Balance_Rules.thy ===== *)
theory Balance_Rules
  imports Data_Model
begin

text \<open>
  The single sources of the sign and of the account: app/balance_rules.py (what a transaction
  does to a balance), app/account_rules.py (which account is meant when none is named) and the
  integrity check of app/butunluk.py that every flushed row has to pass.

  Posting an amount to an account is the interface \<open>ledger\<close>: the transactions and the debt
  settlement prove their undo and conservation laws over it, and it is interpreted on the
  table of accounts.
\<close>

subsection \<open>Posting to accounts\<close>

locale ledger =
  fixes post :: "'k \<Rightarrow> rat \<Rightarrow> 's \<Rightarrow> 's" and bal :: "'k \<Rightarrow> 's \<Rightarrow> rat option"
  assumes bal_post: "bal j (post i x s) = (if i = j then map_option ((+) x) (bal j s) else bal j s)"
    and post_post: "post i x (post i y s) = post i (x + y) s"
    and post_0: "post i 0 s = s"
    and post_commute: "post i x (post j y s) = post j y (post i x s)"
begin

lemma post_undo: "post i (- x) (post i x s) = s" "post i x (post i (- x) s) = s"
  by (simp_all add: post_post post_0)

text \<open>Posting the difference is undoing the old amount and posting the new one.\<close>

lemma post_replace: "post i y (post i (- x) s) = post i (y - x) s"
  by (simp add: post_post)

lemma post_undo_across: "post j (- y) (post i (- x) (post i x (post j y s))) = s"
  by (simp add: post_undo)

lemma bal_exists_post: "(bal j (post i x s) = None) = (bal j s = None)"
  by (simp add: bal_post)

text \<open>A transfer changes no total.\<close>

lemma transfer_sum:
  assumes "i \<noteq> j" "bal i s = Some a" "bal j s = Some b"
  shows "\<exists>a' b'. bal i (post j x (post i (- x) s)) = Some a' \<and>
    bal j (post j x (post i (- x) s)) = Some b' \<and> a' + b' = a + b"
  using assms by (simp add: bal_post)

end

interpretation lg: ledger "\<lambda>i x. credit i x" balance_of
proof
  fix i j x y s
  show "balance_of j (credit i x s) =
      (if i = j then map_option ((+) x) (balance_of j s) else balance_of j s)"
    by (rule balance_of_credit)
  show "credit i x (credit i y s) = credit i (x + y) s" by simp
  show "credit i 0 s = s" by simp
  show "credit i x (credit j y s) = credit j y (credit i x s)" by (rule credit_commute)
qed

subsection \<open>Sign convention\<close>

definition balance_delta :: "account_type \<Rightarrow> transaction_type \<Rightarrow> rat \<Rightarrow> rat" where
  "balance_delta atype ttype amt = (case atype of
       Cash \<Rightarrow> (case ttype of Income \<Rightarrow> amt | Expense \<Rightarrow> - amt | Transfer \<Rightarrow> 0)
     | Credit_Card \<Rightarrow> (case ttype of Expense \<Rightarrow> amt | Income \<Rightarrow> - amt | Transfer \<Rightarrow> 0)
     | Loan \<Rightarrow> (case ttype of Expense \<Rightarrow> - amt | Income \<Rightarrow> 0 | Transfer \<Rightarrow> 0)
     | Investment \<Rightarrow> 0)"

definition net_worth_seen :: "rat \<Rightarrow> rat \<Rightarrow> rat \<Rightarrow> rat \<Rightarrow> rat" where
  "net_worth_seen cash investment card_debt loan_debt = cash + investment - card_debt - loan_debt"

definition net_worth_full :: "rat \<Rightarrow> rat \<Rightarrow> rat \<Rightarrow> rat" where
  "net_worth_full seen receivables payables = seen + receivables - payables"

text \<open>The part of the seen net worth an account carries: assets count with their balance, cards
  and loans against it.\<close>

definition worth :: "account \<Rightarrow> rat" where
  "worth a = (case acc_type a of Cash \<Rightarrow> acc_balance a | Investment \<Rightarrow> acc_balance a
     | Credit_Card \<Rightarrow> - acc_balance a | Loan \<Rightarrow> - acc_balance a)"

lemma balance_delta_transfer [simp]: "balance_delta t Transfer x = 0"
  by (cases t) (simp_all add: balance_delta_def)

lemma balance_delta_0 [simp]: "balance_delta t k 0 = 0"
  by (cases t; cases k) (simp_all add: balance_delta_def)

lemma balance_delta_add: "balance_delta t k (x + y) = balance_delta t k x + balance_delta t k y"
  by (cases t; cases k) (simp_all add: balance_delta_def)

lemma balance_delta_minus: "balance_delta t k (- x) = - balance_delta t k x"
  by (cases t; cases k) (simp_all add: balance_delta_def)

subsection \<open>The default account\<close>

text \<open>\<open>order_by(Account.id.asc()).first()\<close>: the table is in key order.\<close>

definition varsayilan_hesap :: "account_type \<Rightarrow> nat \<Rightarrow> nat option \<Rightarrow> account list \<Rightarrow> account option" where
  "varsayilan_hesap tip u w accs =
     List.find (\<lambda>a. acc_in_scope u w a \<and> acc_type a = tip \<and> \<not> is_emanet a) accs"

definition varsayilan_nakit_hesap :: "nat \<Rightarrow> nat option \<Rightarrow> account list \<Rightarrow> account option" where
  "varsayilan_nakit_hesap = varsayilan_hesap Cash"

lemma varsayilan_hesap_Some:
  "varsayilan_hesap tip u w accs = Some a \<Longrightarrow>
     a \<in> set accs \<and> acc_in_scope u w a \<and> acc_type a = tip \<and> \<not> is_emanet a"
  unfolding varsayilan_hesap_def by (drule find_Some_prop) simp

lemma varsayilan_nakit_Some:
  "varsayilan_nakit_hesap u w accs = Some a \<Longrightarrow>
     a \<in> set accs \<and> acc_in_scope u w a \<and> acc_type a = Cash \<and> \<not> is_emanet a"
  unfolding varsayilan_nakit_hesap_def by (rule varsayilan_hesap_Some)

text \<open>The choice does not depend on balances, so it is the same before and after a posting.\<close>

lemma varsayilan_hesap_upd_row:
  assumes "\<And>a. acc_user (f a) = acc_user a" "\<And>a. acc_ws (f a) = acc_ws a"
    "\<And>a. acc_type (f a) = acc_type a" "\<And>a. is_emanet (f a) = is_emanet a"
  shows "map_option acc_id (varsayilan_hesap tip u w (upd_row acc_id i (\<lambda>a. (f a)\<lparr>acc_id := acc_id a\<rparr>) accs)) =
    map_option acc_id (varsayilan_hesap tip u w accs)"
  using assms by (induction accs) (auto simp: varsayilan_hesap_def)

lemma varsayilan_nakit_credit [row_simps]:
  "map_option acc_id (varsayilan_nakit_hesap u w (credit i x accs)) =
     map_option acc_id (varsayilan_nakit_hesap u w accs)"
  unfolding varsayilan_nakit_hesap_def varsayilan_hesap_def by (induction accs) auto

subsection \<open>Integrity of flushed rows\<close>

text \<open>app/butunluk.py \<open>_denetle\<close>, by kind of row; \<open>True\<close> where the code raises nothing.
  \<open>last_triggered_year_month\<close> is a pair here, so its format check becomes the month's range.\<close>

definition denetle_debt :: "personal_debt \<Rightarrow> bool" where
  "denetle_debt d \<longleftrightarrow> is_paid d = (paid_date d \<noteq> None)"

definition denetle_account :: "account \<Rightarrow> bool" where
  "denetle_account a \<longleftrightarrow> acc_type a = Credit_Card \<or>
     credit_limit a = None \<and> statement_day a = None \<and> payment_day a = None \<and> statement_balance a = None"

definition denetle_progress :: "rat option \<Rightarrow> bool" where
  "denetle_progress p \<longleftrightarrow> (case p of None \<Rightarrow> True | Some x \<Rightarrow> 0 \<le> x \<and> x \<le> 100)"

definition denetle_year_month :: "(nat \<times> nat) option \<Rightarrow> bool" where
  "denetle_year_month ym \<longleftrightarrow> (case ym of None \<Rightarrow> True | Some (y, m) \<Rightarrow> y \<le> 9999 \<and> 1 \<le> m \<and> m \<le> 12)"

datatype insight_status = St_Active | St_Invalidated | St_Dormant | St_User_Invalidated

text \<open>\<open>None\<close> is legal only on a row being inserted; the legal strings are the constructors.\<close>

definition denetle_insight :: "bool \<Rightarrow> insight_status option \<Rightarrow> bool" where
  "denetle_insight yeni st \<longleftrightarrow> st \<noteq> None \<or> yeni"

end
