(* ===== verification/Workspace_Scope.thy ===== *)
theory Workspace_Scope
  imports Data_Model
begin

text \<open>
  Who may read and write which workspace: app/workspace_deps.py (resolution of the active
  workspace and the role guards), app/routers/workspaces.py (create, join, remove, invite),
  app/services/workspace_setup.py (the personal workspace) and app/beta_access.py (who may
  open an account). The signature and expiry of an invitation token are checked by PyJWT:
  a request presents a token that decodes to an \<open>invite\<close>, or an error. Sending the e-mail,
  the rate limit of the invite endpoint (theory Rate_Limit) and the seeding of categories
  are not part of this state.
\<close>

subsection \<open>Errors\<close>

text \<open>\<open>HTTPException\<close> by status code.\<close>

datatype http_error = Bad_Request | Forbidden | Not_Found | Conflict | Server_Error | Unprocessable

type_synonym 'a result = "http_error + 'a"

subsection \<open>State\<close>

record ws_state =
  workspaces :: "workspace list"
  memberships :: "membership list"

text \<open>\<open>uq_membership_workspace_user\<close>, the primary keys, and every membership in a workspace
  that exists.\<close>

definition ws_inv :: "ws_state \<Rightarrow> bool" where
  "ws_inv s \<longleftrightarrow> distinct (map ws_id (workspaces s)) \<and> distinct (map mb_id (memberships s)) \<and>
     distinct (map (\<lambda>m. (mb_ws m, mb_user m)) (memberships s)) \<and>
     (\<forall>m \<in> set (memberships s). mb_ws m \<in> ws_id ` set (workspaces s)) \<and>
     (\<forall>w \<in> set (workspaces s). \<exists>m \<in> set (memberships s).
        mb_ws m = ws_id w \<and> mb_user m = ws_owner w \<and> mb_role m = Owner) \<and>
     (\<forall>w \<in> set (workspaces s). \<forall>m \<in> set (memberships s).
        mb_ws m = ws_id w \<and> mb_role m = Owner \<longrightarrow> mb_user m = ws_owner w)"

definition role_rank :: "workspace_role \<Rightarrow> nat" where
  "role_rank r = (case r of Viewer \<Rightarrow> 1 | Editor \<Rightarrow> 2 | Owner \<Rightarrow> 3)"

instantiation workspace_role :: linorder
begin

definition less_eq_workspace_role :: "workspace_role \<Rightarrow> workspace_role \<Rightarrow> bool" where
  "less_eq_workspace_role a b \<longleftrightarrow> role_rank a \<le> role_rank b"

definition less_workspace_role :: "workspace_role \<Rightarrow> workspace_role \<Rightarrow> bool" where
  "less_workspace_role a b \<longleftrightarrow> role_rank a < role_rank b"

instance
  by standard (auto simp: less_eq_workspace_role_def less_workspace_role_def role_rank_def
      split: workspace_role.splits)

end

subsection \<open>Resolution of the active workspace\<close>

definition personal_workspace :: "ws_state \<Rightarrow> nat \<Rightarrow> workspace option" where
  "personal_workspace s u = List.find (\<lambda>w. ws_owner w = u \<and> is_personal w) (workspaces s)"

definition find_membership :: "ws_state \<Rightarrow> nat \<Rightarrow> nat \<Rightarrow> membership option" where
  "find_membership s w u = List.find (\<lambda>m. mb_ws m = w \<and> mb_user m = u) (memberships s)"

text \<open>\<open>header\<close> is the \<open>X-Workspace-Id\<close> of the request.\<close>

definition get_active_membership :: "ws_state \<Rightarrow> nat \<Rightarrow> nat option \<Rightarrow> membership result" where
  "get_active_membership s u header =
     (let resolved = (case header of Some w \<Rightarrow> Some w
                      | None \<Rightarrow> map_option ws_id (personal_workspace s u)) in
      case resolved of None \<Rightarrow> Inl Not_Found
      | Some w \<Rightarrow> (case find_membership s w u of None \<Rightarrow> Inl Forbidden | Some m \<Rightarrow> Inr m))"

definition active_workspace_id :: "bool \<Rightarrow> ws_state \<Rightarrow> nat \<Rightarrow> nat option \<Rightarrow> nat option result" where
  "active_workspace_id production s u header =
     (case header of
        Some w \<Rightarrow> (case find_membership s w u of None \<Rightarrow> Inl Forbidden | Some _ \<Rightarrow> Inr (Some w))
      | None \<Rightarrow> (case personal_workspace s u of
          Some w \<Rightarrow> Inr (Some (ws_id w))
        | None \<Rightarrow> if production then Inl Server_Error else Inr None))"

definition require_workspace :: "workspace_role \<Rightarrow> ws_state \<Rightarrow> nat \<Rightarrow> nat option \<Rightarrow> membership result" where
  "require_workspace min_role s u header =
     (case get_active_membership s u header of Inl e \<Rightarrow> Inl e
      | Inr m \<Rightarrow> if role_rank (mb_role m) < role_rank min_role then Inl Forbidden else Inr m)"

datatype http_method = GET | HEAD | OPTIONS | POST | PUT | PATCH | DELETE

definition require_write :: "workspace_role \<Rightarrow> ws_state \<Rightarrow> http_method \<Rightarrow> nat \<Rightarrow> nat option \<Rightarrow> unit result" where
  "require_write min_role s meth u header =
     (if meth \<in> {GET, HEAD, OPTIONS} then Inr ()
      else (let resolved = (case header of Some w \<Rightarrow> Some w
                            | None \<Rightarrow> map_option ws_id (personal_workspace s u)) in
        case resolved of None \<Rightarrow> Inr ()
        | Some w \<Rightarrow> (case find_membership s w u of
            None \<Rightarrow> Inl Forbidden
          | Some m \<Rightarrow> if role_rank (mb_role m) < role_rank min_role then Inl Forbidden else Inr ())))"

subsection \<open>Kapali beta\<close>

text \<open>app/beta_access.py. A code and an e-mail are compared after \<open>strip().lower()\<close>: the
  strings here are the normalised ones. An empty e-mail column of an invitation is \<open>None\<close>.\<close>

record beta_invite =
  bi_id :: nat
  bi_code :: string
  bi_email :: "string option"
  used_at :: "int option"
  expires_at :: "int option"
  used_by :: "nat option"

datatype reg_mode = Invite_Only | Open_Registration

definition registration_mode :: "reg_mode option \<Rightarrow> bool \<Rightarrow> reg_mode" where
  "registration_mode env production =
     (case env of Some m \<Rightarrow> m | None \<Rightarrow> if production then Invite_Only else Open_Registration)"

definition davet_dogrula :: "int \<Rightarrow> beta_invite list \<Rightarrow> string \<Rightarrow> string \<Rightarrow> beta_invite option" where
  "davet_dogrula simdi invites code email =
     (if code = [] then None
      else case List.find (\<lambda>d. bi_code d = code) invites of
        None \<Rightarrow> None
      | Some d \<Rightarrow>
          if used_at d \<noteq> None then None
          else if (case expires_at d of Some t \<Rightarrow> t < simdi | None \<Rightarrow> False) then None
          else if (case bi_email d of Some e \<Rightarrow> e \<noteq> [] \<and> e \<noteq> email | None \<Rightarrow> False) then None
          else Some d)"

definition eposta_daveti_bul :: "int \<Rightarrow> beta_invite list \<Rightarrow> string \<Rightarrow> beta_invite option" where
  "eposta_daveti_bul simdi invites email =
     (if email = [] then None
      else List.find (\<lambda>aday. davet_dogrula simdi invites (bi_code aday) email \<noteq> None)
             (filter (\<lambda>d. bi_email d = Some email \<and> used_at d = None) invites))"

definition hesap_acabilir_mi ::
  "reg_mode \<Rightarrow> int \<Rightarrow> string list \<Rightarrow> beta_invite list \<Rightarrow> string \<Rightarrow> bool" where
  "hesap_acabilir_mi mode simdi user_emails invites email =
     (if mode \<noteq> Invite_Only then True
      else if email = [] then False
      else if email \<in> set user_emails then True
      else eposta_daveti_bul simdi invites email \<noteq> None)"

definition davet_kullan :: "int \<Rightarrow> beta_invite list \<Rightarrow> nat \<Rightarrow> nat \<Rightarrow> beta_invite list" where
  "davet_kullan simdi invites i user_id =
     upd_row bi_id i (\<lambda>d. d\<lparr>used_at := Some simdi, used_by := Some user_id\<rparr>) invites"

definition email_verification_required ::
  "bool option \<Rightarrow> reg_mode option \<Rightarrow> bool \<Rightarrow> bool" where
  "email_verification_required env mode production =
     (case env of Some b \<Rightarrow> b
      | None \<Rightarrow> production \<and> registration_mode mode production = Open_Registration)"

lemma davet_dogrula_Some:
  "davet_dogrula t invites code email = Some d \<Longrightarrow>
     d \<in> set invites \<and> bi_code d = code \<and> used_at d = None \<and>
     (\<forall>x. expires_at d = Some x \<longrightarrow> t \<le> x) \<and>
     (\<forall>e. bi_email d = Some e \<longrightarrow> e = [] \<or> e = email)"
  unfolding davet_dogrula_def
  by (auto split: option.splits if_splits dest!: find_Some_prop)

text \<open>An invitation is good for one account: after \<open>davet_kullan\<close> its code is refused.\<close>

lemma davet_kullan_tuketir:
  assumes "distinct (map bi_code invites)" and d: "davet_dogrula t invites code email = Some d"
  shows "davet_dogrula t' (davet_kullan t invites (bi_id d) u) code email' = None"
proof -
  have "List.find (\<lambda>e. bi_code e = code) invites = Some d"
    using d by (auto simp: davet_dogrula_def split: option.splits if_splits)
  then have "List.find (\<lambda>e. bi_code e = code) (davet_kullan t invites (bi_id d) u) =
      Some (d\<lparr>used_at := Some t, used_by := Some u\<rparr>)"
    unfolding davet_kullan_def by (induction invites) (auto split: if_splits)
  then show ?thesis by (simp add: davet_dogrula_def)
qed

subsection \<open>Operations on workspaces\<close>

text \<open>An invitation token that decodes. PyJWT accepts a token only with the server's
  signature, so the decodable tokens are those \<open>invite_member\<close> issued: they are part of the
  state of the protocol below.\<close>

record invite =
  inv_ws :: nat
  inv_email :: string
  inv_role :: workspace_role

record join_out =
  jo_ws :: nat
  jo_role :: workspace_role
  joined :: bool

definition create_workspace :: "ws_state \<Rightarrow> nat \<Rightarrow> string \<Rightarrow> ws_state \<times> nat" where
  "create_workspace s u nm =
     (let w = \<lparr>ws_id = next_key ws_id (workspaces s), ws_owner = u, ws_name = nm, is_personal = False\<rparr>;
          m = \<lparr>mb_id = next_key mb_id (memberships s), mb_ws = ws_id w, mb_user = u, mb_role = Owner\<rparr>
      in (s\<lparr>workspaces := workspaces s @ [w], memberships := memberships s @ [m]\<rparr>, ws_id w))"

definition ensure_personal_workspace :: "ws_state \<Rightarrow> nat \<Rightarrow> string \<Rightarrow> ws_state \<times> nat" where
  "ensure_personal_workspace s u nm =
     (let (s1, w) = (case personal_workspace s u of
            Some w \<Rightarrow> (s, ws_id w)
          | None \<Rightarrow> (let w = \<lparr>ws_id = next_key ws_id (workspaces s), ws_owner = u, ws_name = nm,
                              is_personal = True\<rparr>
                     in (s\<lparr>workspaces := workspaces s @ [w]\<rparr>, ws_id w)))
      in (case find_membership s1 w u of
            Some _ \<Rightarrow> (s1, w)
          | None \<Rightarrow> (s1\<lparr>memberships := memberships s1 @
              [\<lparr>mb_id = next_key mb_id (memberships s1), mb_ws = w, mb_user = u, mb_role = Owner\<rparr>]\<rparr>, w)))"

text \<open>\<open>decoded\<close> is the result of \<open>decode_invite_token\<close>; \<open>email\<close> the session user's address.\<close>

definition join_workspace ::
  "ws_state \<Rightarrow> nat \<Rightarrow> string option \<Rightarrow> invite option \<Rightarrow> ws_state \<times> join_out result" where
  "join_workspace s u email decoded =
     (case decoded of None \<Rightarrow> (s, Inl Bad_Request)
      | Some d \<Rightarrow>
          if email = None \<or> email = Some [] \<or> email \<noteq> Some (inv_email d) then (s, Inl Forbidden)
          else (case find_row ws_id (inv_ws d) (workspaces s) of None \<Rightarrow> (s, Inl Not_Found)
            | Some w \<Rightarrow> (case find_membership s (ws_id w) u of
                Some m \<Rightarrow> (s, Inr \<lparr>jo_ws = ws_id w, jo_role = mb_role m, joined = False\<rparr>)
              | None \<Rightarrow> (s\<lparr>memberships := memberships s @
                    [\<lparr>mb_id = next_key mb_id (memberships s), mb_ws = ws_id w, mb_user = u,
                      mb_role = inv_role d\<rparr>]\<rparr>,
                  Inr \<lparr>jo_ws = ws_id w, jo_role = inv_role d, joined = True\<rparr>))))"

definition remove_member ::
  "ws_state \<Rightarrow> nat \<Rightarrow> nat option \<Rightarrow> nat \<Rightarrow> nat \<Rightarrow> ws_state \<times> unit result" where
  "remove_member s u header wid target_user_id =
     (case require_workspace Owner s u header of Inl e \<Rightarrow> (s, Inl e)
      | Inr m \<Rightarrow>
          if mb_ws m \<noteq> wid then (s, Inl Bad_Request)
          else (case find_row ws_id wid (workspaces s) of None \<Rightarrow> (s, Inl Not_Found)
            | Some w \<Rightarrow>
                if is_personal w then (s, Inl Bad_Request)
                else if target_user_id = ws_owner w then (s, Inl Bad_Request)
                else (case find_membership s wid target_user_id of None \<Rightarrow> (s, Inl Not_Found)
                  | Some t \<Rightarrow> (s\<lparr>memberships := del_row mb_id (mb_id t) (memberships s)\<rparr>, Inr ()))))"

text \<open>\<open>acabilir\<close> is \<open>hesap_acabilir_mi\<close> for the invited address.\<close>

definition invite_member ::
  "ws_state \<Rightarrow> nat \<Rightarrow> nat option \<Rightarrow> nat \<Rightarrow> string \<Rightarrow> workspace_role \<Rightarrow> bool \<Rightarrow> invite result" where
  "invite_member s u header wid email r acabilir =
     (case require_workspace Owner s u header of Inl e \<Rightarrow> Inl e
      | Inr m \<Rightarrow>
          if mb_ws m \<noteq> wid then Inl Bad_Request
          else (case find_row ws_id wid (workspaces s) of None \<Rightarrow> Inl Not_Found
            | Some w \<Rightarrow>
                if is_personal w then Inl Bad_Request
                else if r = Owner then Inl Bad_Request
                else if \<not> acabilir then Inl Bad_Request
                else Inr \<lparr>inv_ws = wid, inv_email = email, inv_role = r\<rparr>))"

subsection \<open>The protocol\<close>

text \<open>Requests of any users in any order. A configuration is the tables and the tokens
  issued so far; tokens are not single use and may be presented by anyone.\<close>

inductive ws_step :: "ws_state \<times> invite list \<Rightarrow> ws_state \<times> invite list \<Rightarrow> bool" where
  create: "create_workspace s u nm = (s', w) \<Longrightarrow> ws_step (s, toks) (s', toks)"
| ensure: "ensure_personal_workspace s u nm = (s', w) \<Longrightarrow> ws_step (s, toks) (s', toks)"
| join: "decoded = None \<or> decoded \<in> Some ` set toks \<Longrightarrow>
    join_workspace s u email decoded = (s', r) \<Longrightarrow> ws_step (s, toks) (s', toks)"
| remove: "remove_member s u h w t = (s', r) \<Longrightarrow> ws_step (s, toks) (s', toks)"
| invite: "invite_member s u h w email r a = Inr tok \<Longrightarrow> ws_step (s, toks) (s, tok # toks)"

inductive ws_reachable :: "ws_state \<times> invite list \<Rightarrow> bool" where
  init: "ws_reachable (\<lparr>workspaces = [], memberships = []\<rparr>, [])"
| step: "ws_reachable c \<Longrightarrow> ws_step c c' \<Longrightarrow> ws_reachable c'"

text \<open>Only shared workspaces have tokens, never for the owner role; a personal workspace has
  its owner as only member.\<close>

definition ws_conf_inv :: "ws_state \<times> invite list \<Rightarrow> bool" where
  "ws_conf_inv c = (case c of (s, toks) \<Rightarrow> ws_inv s \<and>
     (\<forall>t \<in> set toks. inv_role t \<noteq> Owner \<and>
        (\<exists>w \<in> set (workspaces s). ws_id w = inv_ws t \<and> \<not> is_personal w)) \<and>
     (\<forall>w \<in> set (workspaces s). \<forall>m \<in> set (memberships s).
        is_personal w \<and> mb_ws m = ws_id w \<longrightarrow> mb_user m = ws_owner w))"

lemma find_membership_Some:
  "find_membership s w u = Some m \<Longrightarrow> m \<in> set (memberships s) \<and> mb_ws m = w \<and> mb_user m = u"
  unfolding find_membership_def by (drule find_Some_prop) simp

lemma find_membership_None:
  "find_membership s w u = None \<longleftrightarrow> (\<forall>m \<in> set (memberships s). \<not> (mb_ws m = w \<and> mb_user m = u))"
  by (simp add: find_membership_def find_None_prop)

lemma personal_workspace_Some:
  "personal_workspace s u = Some w \<Longrightarrow> w \<in> set (workspaces s) \<and> ws_owner w = u \<and> is_personal w"
  unfolding personal_workspace_def by (drule find_Some_prop) simp

subsection \<open>The invariant\<close>

lemma conf_inv_ws_inj:
  "ws_conf_inv (s, toks) \<Longrightarrow> w \<in> set (workspaces s) \<Longrightarrow> x \<in> set (workspaces s) \<Longrightarrow>
   ws_id x = ws_id w \<Longrightarrow> x = w"
  unfolding ws_conf_inv_def ws_inv_def distinct_map by (auto dest: inj_onD)

lemma conf_inv_mb_inj:
  "ws_conf_inv (s, toks) \<Longrightarrow> m \<in> set (memberships s) \<Longrightarrow> n \<in> set (memberships s) \<Longrightarrow>
   mb_id n = mb_id m \<Longrightarrow> n = m"
  unfolding ws_conf_inv_def ws_inv_def distinct_map by (auto dest: inj_onD)

lemma conf_inv_mb_ws:
  "ws_conf_inv (s, toks) \<Longrightarrow> m \<in> set (memberships s) \<Longrightarrow> mb_ws m \<in> ws_id ` set (workspaces s)"
  by (simp add: ws_conf_inv_def ws_inv_def)

lemma conf_inv_owner:
  "ws_conf_inv (s, toks) \<Longrightarrow> w \<in> set (workspaces s) \<Longrightarrow>
   \<exists>m \<in> set (memberships s). mb_ws m = ws_id w \<and> mb_user m = ws_owner w \<and> mb_role m = Owner"
  by (simp add: ws_conf_inv_def ws_inv_def)

lemma conf_inv_add_workspace:
  assumes inv: "ws_conf_inv (s, toks)"
    and w: "ws_id w = next_key ws_id (workspaces s)"
    and m: "mb_id m = next_key mb_id (memberships s)" "mb_ws m = ws_id w" "mb_user m = ws_owner w"
      "mb_role m = Owner"
  shows "ws_conf_inv (s\<lparr>workspaces := workspaces s @ [w], memberships := memberships s @ [m]\<rparr>, toks)"
proof -
  have fresh: "ws_id w \<notin> ws_id ` set (workspaces s)" "mb_id m \<notin> mb_id ` set (memberships s)"
    using next_key_fresh w m(1) by metis+
  have n1: "mb_ws x \<noteq> ws_id w" if "x \<in> set (memberships s)" for x
    using conf_inv_mb_ws [OF inv that] fresh by metis
  have n2: "ws_id x \<noteq> ws_id w" if "x \<in> set (workspaces s)" for x
    using fresh(1) that by (metis image_eqI)
  have "distinct (map (\<lambda>m. (mb_ws m, mb_user m)) (memberships s @ [m]))"
    using inv n1 m(2) by (auto simp: ws_conf_inv_def ws_inv_def)
  moreover have "distinct (map ws_id (workspaces s @ [w]))" "distinct (map mb_id (memberships s @ [m]))"
    using inv fresh by (simp_all add: ws_conf_inv_def ws_inv_def)
  ultimately show ?thesis
    using inv n1 n2 m unfolding ws_conf_inv_def ws_inv_def prod.case
    by (simp add: ball_Un bex_Un) metis
qed

lemma conf_inv_add_member:
  assumes inv: "ws_conf_inv (s, toks)"
    and w: "w \<in> set (workspaces s)" "\<not> is_personal w"
    and none: "find_membership s (ws_id w) u = None"
    and m: "mb_id m = next_key mb_id (memberships s)" "mb_ws m = ws_id w" "mb_user m = u"
      "mb_role m \<noteq> Owner"
  shows "ws_conf_inv (s\<lparr>memberships := memberships s @ [m]\<rparr>, toks)"
proof -
  have fresh: "mb_id m \<notin> mb_id ` set (memberships s)"
    using next_key_fresh m(1) by metis
  have new: "\<not> (mb_ws x = ws_id w \<and> mb_user x = u)" if "x \<in> set (memberships s)" for x
    using none that by (simp add: find_membership_None)
  have "distinct (map (\<lambda>m. (mb_ws m, mb_user m)) (memberships s @ [m]))"
    using inv m(2,3) new by (fastforce simp: ws_conf_inv_def ws_inv_def)
  moreover have "distinct (map mb_id (memberships s @ [m]))"
    using inv fresh by (simp add: ws_conf_inv_def ws_inv_def)
  moreover have "\<forall>x \<in> set (workspaces s). is_personal x \<longrightarrow> mb_ws m \<noteq> ws_id x"
    using conf_inv_ws_inj [OF inv w(1)] w(2) m(2) by metis
  moreover have "mb_ws m \<in> ws_id ` set (workspaces s)" using w(1) m(2) by simp
  ultimately show ?thesis
    using inv m(4) unfolding ws_conf_inv_def ws_inv_def prod.case
    by (auto simp: ball_Un bex_Un)
qed

lemma conf_inv_del_member:
  assumes inv: "ws_conf_inv (s, toks)"
    and w: "w \<in> set (workspaces s)" and t: "t \<in> set (memberships s)" "mb_ws t = ws_id w"
      "mb_user t \<noteq> ws_owner w"
  shows "ws_conf_inv (s\<lparr>memberships := del_row mb_id (mb_id t) (memberships s)\<rparr>, toks)"
proof -
  have keep: "\<exists>m \<in> set (del_row mb_id (mb_id t) (memberships s)). mb_ws m = ws_id x \<and>
      mb_user m = ws_owner x \<and> mb_role m = Owner" if x: "x \<in> set (workspaces s)" for x
  proof -
    obtain m where m: "m \<in> set (memberships s)" "mb_ws m = ws_id x" "mb_user m = ws_owner x" "mb_role m = Owner"
      using conf_inv_owner [OF inv x] by blast
    then have "m \<noteq> t" using t conf_inv_ws_inj [OF inv w x] by metis
    then have "mb_id m \<noteq> mb_id t" using conf_inv_mb_inj [OF inv m(1) t(1)] by metis
    then show ?thesis using m by (auto simp: set_del_row)
  qed
  show ?thesis using inv keep unfolding ws_conf_inv_def ws_inv_def prod.case
    by (simp add: set_del_row distinct_map_del_row)
qed

lemma ws_conf_inv_step:
  assumes "ws_step c c'" "ws_conf_inv c" shows "ws_conf_inv c'"
  using assms
proof cases
  case (create s u nm s' w toks)
  then show ?thesis
    using conf_inv_add_workspace assms(2) by (auto simp: create_workspace_def Let_def)
next
  case (ensure s u nm s' w toks)
  show ?thesis
  proof (cases "personal_workspace s u")
    case None
    let ?w = "\<lparr>ws_id = next_key ws_id (workspaces s), ws_owner = u, ws_name = nm, is_personal = True\<rparr>"
    have "find_membership (s\<lparr>workspaces := workspaces s @ [?w]\<rparr>) (ws_id ?w) u = None"
    proof -
      have "mb_ws m \<noteq> next_key ws_id (workspaces s)" if "m \<in> set (memberships s)" for m
        using conf_inv_mb_ws [of s toks m] assms(2) ensure(1) that
          next_key_fresh [of ws_id "workspaces s"] by metis
      then show ?thesis by (auto simp: find_membership_None)
    qed
    with None show ?thesis using ensure assms(2) conf_inv_add_workspace [of s toks ?w]
      by (auto simp: ensure_personal_workspace_def Let_def)
  next
    case (Some w)
    then have "find_membership s (ws_id w) u \<noteq> None"
      using conf_inv_owner [of s toks w] assms(2) ensure(1) personal_workspace_Some [OF Some]
      unfolding find_membership_None by metis
    with Some show ?thesis using ensure assms(2)
      by (auto simp: ensure_personal_workspace_def)
  qed
next
  case (join decoded toks s u email s' r)
  show ?thesis
  proof (cases "s' = s")
    case False
    then obtain d w where d: "decoded = Some d" "find_row ws_id (inv_ws d) (workspaces s) = Some w"
      "find_membership s (ws_id w) u = None"
      "s' = s\<lparr>memberships := memberships s @ [\<lparr>mb_id = next_key mb_id (memberships s), mb_ws = ws_id w,
          mb_user = u, mb_role = inv_role d\<rparr>]\<rparr>"
      using join(4) by (auto simp: join_workspace_def split: option.splits if_splits)
    then have "w \<in> set (workspaces s)" "ws_id w = inv_ws d"
      using find_row_Some_in find_row_Some_key by metis+
    moreover have "\<not> is_personal w" "inv_role d \<noteq> Owner"
    proof -
      have "d \<in> set toks" using join(3) d(1) by auto
      then have "inv_role d \<noteq> Owner \<and> (\<exists>x \<in> set (workspaces s). ws_id x = inv_ws d \<and> \<not> is_personal x)"
        using assms(2) join(1) by (simp add: ws_conf_inv_def)
      then show "\<not> is_personal w" "inv_role d \<noteq> Owner"
        using conf_inv_ws_inj [of s toks w] assms(2) join(1) calculation by metis+
    qed
    ultimately show ?thesis
      using conf_inv_add_member [of s toks w u] assms(2) d(3,4) join(1,2) by simp
  qed (use join assms(2) in simp)
next
  case (remove s u h w t s' r toks)
  show ?thesis
  proof (cases "s' = s")
    case False
    then obtain x m where x: "find_row ws_id w (workspaces s) = Some x" "t \<noteq> ws_owner x"
      "find_membership s w t = Some m"
      "s' = s\<lparr>memberships := del_row mb_id (mb_id m) (memberships s)\<rparr>"
      using remove(3) by (auto simp: remove_member_def split: option.splits if_splits sum.splits)
    then show ?thesis
      using conf_inv_del_member [of s toks x m] find_row_Some_in find_row_Some_key find_membership_Some
        assms(2) remove(1,2) by metis
  qed (use remove assms(2) in simp)
next
  case (invite s u h w email r a tok toks)
  then obtain x where "find_row ws_id w (workspaces s) = Some x" "\<not> is_personal x" "r \<noteq> Owner"
    "tok = \<lparr>inv_ws = w, inv_email = email, inv_role = r\<rparr>"
    by (auto simp: invite_member_def split: option.splits if_splits sum.splits)
  then show ?thesis using assms(2) invite(1,2) find_row_Some_in find_row_Some_key
    by (fastforce simp: ws_conf_inv_def)
qed

lemma ws_reachable_inv: "ws_reachable c \<Longrightarrow> ws_conf_inv c"
  by (induction rule: ws_reachable.induct)
    (auto intro: ws_conf_inv_step, simp add: ws_conf_inv_def ws_inv_def)

subsection \<open>Properties\<close>





text \<open>A write is let through exactly when the active workspace cannot be resolved (the legacy
  path), or the user is a member with at least the editor role: a viewer or a stranger is
  refused with 403 on every writing method, whatever the header says.\<close>

theorem require_write_iff:
  "require_write Editor s meth u header = Inr () \<longleftrightarrow>
     meth \<in> {GET, HEAD, OPTIONS} \<or>
     (header = None \<and> personal_workspace s u = None) \<or>
     (\<exists>w m. (header = Some w \<or> header = None \<and> map_option ws_id (personal_workspace s u) = Some w) \<and>
        find_membership s w u = Some m \<and> mb_role m \<in> {Editor, Owner})"
proof -
  have r: "\<not> role_rank (mb_role m) < role_rank Editor \<longleftrightarrow> mb_role m \<in> {Editor, Owner}" for m
    by (cases "mb_role m") (simp_all add: role_rank_def)
  show ?thesis
    unfolding require_write_def Let_def using r
    by (cases header; cases "personal_workspace s u") (auto split: option.splits if_splits)
qed

end
