(* ===== verification/Debts.thy ===== *)
theory Debts
  imports Balance_Rules Workspace_Scope
begin

text \<open>
  Personal debts and receivables: app/services/debt_settlement.py (the cash leg of a
  settlement, the only place that knows its sign and its account) and the endpoints of
  app/routers/debts.py that go through it. The coach's \<open>mark_debt_paid\<close> handler (theory
  Action_Executor) uses the same \<open>senkronize_nakit\<close>.

  The abstract specification is a conservation law: for every account, the balance minus the
  legs recorded in the debts (\<open>settled\<close>) is the same before and after each operation.
\<close>

subsection \<open>The cash leg\<close>

definition kapanis_delta :: "debt_direction \<Rightarrow> rat \<Rightarrow> rat" where
  "kapanis_delta yon amt = (case yon of Receivable \<Rightarrow> amt | Payable \<Rightarrow> - amt)"

record kapanis_durumu =
  kd_is_paid :: bool
  kd_amount :: rat
  kd_direction :: debt_direction
  kd_settlement :: "nat option"

definition oku :: "personal_debt \<Rightarrow> kapanis_durumu" where
  "oku d = \<lparr>kd_is_paid = is_paid d, kd_amount = pd_amount d, kd_direction = direction d,
     kd_settlement = settlement_account d\<rparr>"

record sync_result =
  cash_effect :: rat
  cash_account :: "string option"
  applied :: bool

text \<open>\<open>senkronize_nakit\<close>: the accounts and the debt after the leg is brought in line with the
  debt's current state, from the state \<open>onceki\<close> read before the mutation.\<close>

definition senkronize_nakit ::
  "nat \<Rightarrow> nat option \<Rightarrow> personal_debt \<Rightarrow> kapanis_durumu \<Rightarrow> account list \<Rightarrow>
   account list \<times> personal_debt \<times> sync_result" where
  "senkronize_nakit u w debt onceki accs =
     (let yeni0 = (if is_paid debt then kapanis_delta (direction debt) (pd_amount debt) else 0);
          eski_hesap = (case kd_settlement onceki of
              Some i \<Rightarrow> if kd_is_paid onceki then find_row acc_id i accs else None
            | None \<Rightarrow> None);
          eski_etki = (if eski_hesap \<noteq> None then kapanis_delta (kd_direction onceki) (kd_amount onceki) else 0);
          hedef = (if yeni0 = 0 then None
            else (let iz = (case kd_settlement onceki of Some i \<Rightarrow> find_row acc_id i accs | None \<Rightarrow> None)
                  in (case iz of Some a \<Rightarrow> Some a | None \<Rightarrow> varsayilan_nakit_hesap u w accs)));
          yeni_etki = (if hedef = None then 0 else yeni0);
          accs' = (case (eski_hesap, hedef) of
              (Some e, Some h) \<Rightarrow>
                if acc_id e = acc_id h then
                  (let fark = yeni_etki - eski_etki in
                   if fark \<noteq> 0 then credit (acc_id h) fark accs else accs)
                else
                  (let a1 = (if eski_etki \<noteq> 0 then credit (acc_id e) (- eski_etki) accs else accs) in
                   if yeni_etki \<noteq> 0 then credit (acc_id h) yeni_etki a1 else a1)
            | (Some e, None) \<Rightarrow> if eski_etki \<noteq> 0 then credit (acc_id e) (- eski_etki) accs else accs
            | (None, Some h) \<Rightarrow> if yeni_etki \<noteq> 0 then credit (acc_id h) yeni_etki accs else accs
            | (None, None) \<Rightarrow> accs)
      in (accs',
          debt\<lparr>settlement_account := (if yeni_etki \<noteq> 0 then map_option acc_id hedef else None)\<rparr>,
          \<lparr>cash_effect = yeni_etki - eski_etki, cash_account = map_option acc_name hedef,
           applied = (yeni_etki \<noteq> 0)\<rparr>))"

subsection \<open>The endpoints\<close>

text \<open>A field of a PATCH body: absent, or set to a value or to \<open>null\<close>.\<close>

datatype 'a patch = Unset | Set_To 'a

definition patched :: "'a patch \<Rightarrow> 'a \<Rightarrow> 'a" where
  "patched p old = (case p of Unset \<Rightarrow> old | Set_To v \<Rightarrow> v)"

record debt_update =
  du_counterparty :: "string option patch"
  du_amount :: "rat option patch"
  du_description :: "string option patch"
  du_due_date :: "date option patch"
  du_paid_date :: "date option patch"
  du_is_paid :: "bool option patch"

definition create_debt ::
  "db \<Rightarrow> nat \<Rightarrow> nat option \<Rightarrow> string \<Rightarrow> debt_direction \<Rightarrow> rat \<Rightarrow> string option \<Rightarrow>
   date option \<Rightarrow> db \<times> personal_debt" where
  "create_debt s u w cp dir amt descr due =
     (let d = \<lparr>pd_id = next_key pd_id (debts s), pd_user = u, pd_ws = w, counterparty = cp,
               direction = dir, pd_amount = amt, pd_description = descr, due_date = due,
               is_paid = False, paid_date = None, settlement_account = None\<rparr>
      in (s\<lparr>debts := debts s @ [d]\<rparr>, d))"

text \<open>The loop of \<open>setattr\<close>: a \<open>null\<close> for a NOT NULL column reaches the flush, which refuses it.\<close>

definition set_fields :: "debt_update \<Rightarrow> personal_debt \<Rightarrow> personal_debt option" where
  "set_fields p d =
     (if du_counterparty p = Set_To None \<or> du_amount p = Set_To None \<or> du_is_paid p = Set_To None then None
      else Some (d\<lparr>counterparty := patched (case du_counterparty p of Set_To (Some c) \<Rightarrow> Set_To c | _ \<Rightarrow> Unset) (counterparty d),
        pd_amount := patched (case du_amount p of Set_To (Some x) \<Rightarrow> Set_To x | _ \<Rightarrow> Unset) (pd_amount d),
        pd_description := patched (du_description p) (pd_description d),
        due_date := patched (du_due_date p) (due_date d),
        paid_date := patched (du_paid_date p) (paid_date d),
        is_paid := patched (case du_is_paid p of Set_To (Some b) \<Rightarrow> Set_To b | _ \<Rightarrow> Unset) (is_paid d)\<rparr>))"

text \<open>BUG #106: an explicit \<open>is_paid\<close> wins over \<open>paid_date\<close>.\<close>

definition sync_paid_fields :: "date \<Rightarrow> debt_update \<Rightarrow> personal_debt \<Rightarrow> personal_debt" where
  "sync_paid_fields today p d =
     (case du_is_paid p of
        Set_To (Some False) \<Rightarrow> d\<lparr>paid_date := None\<rparr>
      | Set_To _ \<Rightarrow> if paid_date d = None then d\<lparr>paid_date := Some today\<rparr> else d
      | Unset \<Rightarrow> (case du_paid_date p of
            Set_To v \<Rightarrow> d\<lparr>is_paid := (v \<noteq> None)\<rparr> | Unset \<Rightarrow> d))"

definition update_debt ::
  "date \<Rightarrow> db \<Rightarrow> nat \<Rightarrow> nat option \<Rightarrow> nat \<Rightarrow> debt_update \<Rightarrow> db \<times> personal_debt result" where
  "update_debt today s u w debt_id p =
     (case query_debt u w debt_id (debts s) of
        None \<Rightarrow> (s, Inl Not_Found)
      | Some d \<Rightarrow> (case set_fields p d of
          None \<Rightarrow> (s, Inl Server_Error)
        | Some d1 \<Rightarrow>
            (let d2 = sync_paid_fields today p d1;
                 (accs, d3, res) = senkronize_nakit u w d2 (oku d) (accounts s)
             in if denetle_debt d3
                then (s\<lparr>accounts := accs, debts := upd_row pd_id (pd_id d) (\<lambda>_. d3) (debts s)\<rparr>, Inr d3)
                else (s, Inl Server_Error))))"

definition delete_debt ::
  "db \<Rightarrow> nat \<Rightarrow> nat option \<Rightarrow> nat \<Rightarrow> db \<times> unit result" where
  "delete_debt s u w debt_id =
     (case query_debt u w debt_id (debts s) of
        None \<Rightarrow> (s, Inl Not_Found)
      | Some d \<Rightarrow>
          (let (accs, _, _) = senkronize_nakit u w (d\<lparr>is_paid := False, paid_date := None\<rparr>) (oku d) (accounts s)
           in (s\<lparr>accounts := accs, debts := del_row pd_id (pd_id d) (debts s)\<rparr>, Inr ())))"

subsection \<open>The invariant\<close>

text \<open>The leg a debt has posted to account \<open>i\<close>, and all of them.\<close>

definition leg :: "nat \<Rightarrow> personal_debt \<Rightarrow> rat" where
  "leg i d = (if settlement_account d = Some i then kapanis_delta (direction d) (pd_amount d) else 0)"

definition settled :: "nat \<Rightarrow> db \<Rightarrow> rat" where
  "settled i s = (\<Sum>d\<leftarrow>debts s. leg i d)"

text \<open>A recorded leg belongs to a paid debt and points to an existing account; \<open>is_paid\<close> and
  \<open>paid_date\<close> agree (DATA-025).\<close>

definition debt_ok :: "account list \<Rightarrow> personal_debt \<Rightarrow> bool" where
  "debt_ok accs d \<longleftrightarrow> denetle_debt d \<and>
     (case settlement_account d of None \<Rightarrow> True
      | Some i \<Rightarrow> is_paid d \<and> i \<in> acc_id ` set accs)"

definition debts_inv :: "db \<Rightarrow> bool" where
  "debts_inv s \<longleftrightarrow> distinct (map acc_id (accounts s)) \<and> distinct (map pd_id (debts s)) \<and>
     (\<forall>d \<in> set (debts s). debt_ok (accounts s) d)"

lemma oku_sel [simp]:
  "kd_is_paid (oku d) = is_paid d" "kd_amount (oku d) = pd_amount d"
  "kd_direction (oku d) = direction d" "kd_settlement (oku d) = settlement_account d"
  by (simp_all add: oku_def)

text \<open>The heart of the component: the accounts move by exactly the difference of the legs.\<close>

lemma senkronize_nakit_leg:
  assumes ok: "debt_ok accs d" and ids: "distinct (map acc_id accs)"
    and key: "senkronize_nakit u w d' (oku d) accs = (accs', e, r)"
  shows "balance_of i accs' = map_option ((+) (leg i e - leg i d)) (balance_of i accs)"
proof -
  have z: "map_option ((+) (0::rat)) x = x" for x by (cases x) simp_all
  have one: "find_row acc_id (acc_id a) accs = Some a" if "a \<in> set accs" for a
    using find_row_distinct [OF ids that] .
  show ?thesis
  proof (cases "settlement_account d")
    case None
    then show ?thesis using key
      by (auto simp: senkronize_nakit_def Let_def leg_def z row_simps split: option.splits if_splits)
  next
    case (Some j)
    then obtain a where a: "find_row acc_id j accs = Some a" "is_paid d"
      using ok find_row_None_iff [of acc_id j accs] by (auto simp: debt_ok_def)
    moreover have "acc_id a = j" using a(1) by (rule find_row_Some_key)
    ultimately show ?thesis using key Some
      by (cases "balance_of i accs")
        (auto simp: senkronize_nakit_def Let_def leg_def z row_simps split: if_splits)
  qed
qed

lemma senkronize_nakit_ids:
  assumes "senkronize_nakit u w d' k accs = (accs', e, r)"
  shows "map acc_id accs' = map acc_id accs"
  using assms by (auto simp: senkronize_nakit_def Let_def split: option.splits if_splits)

lemma senkronize_nakit_debt:
  assumes "senkronize_nakit u w d' k accs = (accs', e, r)"
  shows "e = d'\<lparr>settlement_account := settlement_account e\<rparr>"
proof -
  have "\<exists>x. e = d'\<lparr>settlement_account := x\<rparr>"
    using assms unfolding senkronize_nakit_def Let_def prod.inject by blast
  then obtain x where e: "e = d'\<lparr>settlement_account := x\<rparr>" by blast
  show ?thesis unfolding e by simp
qed

lemma senkronize_nakit_trace:
  assumes "senkronize_nakit u w d' k accs = (accs', e, r)" "settlement_account e = Some i"
  shows "is_paid d' \<and> i \<in> acc_id ` set accs"
proof -
  have "find_row acc_id j accs = Some a \<Longrightarrow> acc_id a \<in> acc_id ` set accs" for j a
    using find_row_Some_in by fast
  moreover have "varsayilan_nakit_hesap u w accs = Some a \<Longrightarrow> acc_id a \<in> acc_id ` set accs" for a
    using varsayilan_nakit_Some by blast
  ultimately show ?thesis using assms
    by (auto simp: senkronize_nakit_def Let_def split: option.splits if_splits)
qed

lemma set_fields_id: "set_fields p d = Some d1 \<Longrightarrow> pd_id d1 = pd_id d"
  by (auto simp: set_fields_def split: if_splits)

lemma sync_paid_fields_id [simp]: "pd_id (sync_paid_fields t p d) = pd_id d"
  by (auto simp: sync_paid_fields_def split: patch.splits option.splits bool.splits)

lemma pd_id_settlement [simp]: "pd_id (d\<lparr>settlement_account := x\<rparr>) = pd_id d"
  by simp

text \<open>What an account holds apart from the legs.\<close>

definition base_balance :: "nat \<Rightarrow> db \<Rightarrow> rat option" where
  "base_balance i s = map_option (\<lambda>b. b - settled i s) (balance_of i (accounts s))"

lemma update_debt_cases:
  assumes "update_debt today s u w k p = (s', r)"
  obtains (unchanged) e where "s' = s" "r = Inl e"
  | (changed) d d1 accs d3 res where "query_debt u w k (debts s) = Some d" "set_fields p d = Some d1"
      "senkronize_nakit u w (sync_paid_fields today p d1) (oku d) (accounts s) = (accs, d3, res)"
      "denetle_debt d3" "r = Inr d3"
      "s' = s\<lparr>accounts := accs, debts := upd_row pd_id (pd_id d) (\<lambda>_. d3) (debts s)\<rparr>"
proof (cases "query_debt u w k (debts s)")
  case None
  with assms show thesis by (intro unchanged) (auto simp: update_debt_def)
next
  case (Some d)
  note q = Some
  show thesis
  proof (cases "set_fields p d")
    case None
    with q assms show thesis by (intro unchanged) (auto simp: update_debt_def)
  next
    case (Some d1)
    obtain accs d3 res where sync:
      "senkronize_nakit u w (sync_paid_fields today p d1) (oku d) (accounts s) = (accs, d3, res)"
      by (metis prod_cases3)
    show thesis
    proof (cases "denetle_debt d3")
      case True
      with q Some sync assms show thesis by (intro changed [OF q Some sync]) (auto simp: update_debt_def)
    next
      case False
      with q Some sync assms show thesis by (intro unchanged) (auto simp: update_debt_def)
    qed
  qed
qed

lemma settled_upd_row:
  assumes "distinct (map pd_id (debts s))" "query_debt u w k (debts s) = Some d"
  shows "(\<Sum>x\<leftarrow>upd_row pd_id (pd_id d) (\<lambda>_. e) (debts s). leg i x) = settled i s - leg i d + leg i e"
  using sum_list_upd_row [of pd_id "debts s" "pd_id d" d "leg i" "\<lambda>_. e"]
    query_debt_find_row [OF assms] query_debt_Some [OF assms(2)] assms(1)
  by (simp add: settled_def)

lemma debts_inv_ok: "debts_inv s \<Longrightarrow> query_debt u w k (debts s) = Some d \<Longrightarrow> debt_ok (accounts s) d"
  using query_debt_Some by (fastforce simp: debts_inv_def)

lemma debt_ok_ids: "map acc_id accs' = map acc_id accs \<Longrightarrow> debt_ok accs' d = debt_ok accs d"
  by (metis debt_ok_def list.set_map)

lemma update_debt_inv:
  assumes inv: "debts_inv s" and upd: "update_debt today s u w k p = (s', r)"
  shows "debts_inv s'"
  using upd
proof (cases rule: update_debt_cases)
  case (changed d d1 accs d3 res)
  have id3: "pd_id d3 = pd_id d"
    using senkronize_nakit_debt [OF changed(3)] set_fields_id [OF changed(2)]
    by (metis pd_id_settlement sync_paid_fields_id)
  have paid: "is_paid d3 = is_paid (sync_paid_fields today p d1)"
    using arg_cong [OF senkronize_nakit_debt [OF changed(3)], of is_paid] by simp
  have "debt_ok (accounts s) d3"
    using senkronize_nakit_trace [OF changed(3)] changed(4) paid
    by (auto simp: debt_ok_def split: option.splits)
  then have "debt_ok accs x" if "x \<in> set (upd_row pd_id (pd_id d) (\<lambda>_. d3) (debts s))" for x
    using that inv debt_ok_ids [OF senkronize_nakit_ids [OF changed(3)]]
    by (auto simp: set_upd_row debts_inv_def)
  moreover have "map pd_id (upd_row pd_id (pd_id d) (\<lambda>_. d3) (debts s)) = map pd_id (debts s)"
    using id3 by (auto simp: upd_row_def)
  ultimately show ?thesis
    using inv senkronize_nakit_ids [OF changed(3)] changed(6) by (simp add: debts_inv_def)
qed (use inv in simp)

lemma base_balance_step:
  assumes "balance_of i (accounts s') = map_option ((+) (x - y)) (balance_of i (accounts s))"
    "settled i s' = settled i s - y + x"
  shows "base_balance i s' = base_balance i s"
  using assms by (simp add: base_balance_def option.map_comp comp_def)

lemma update_debt_base:
  assumes inv: "debts_inv s" and upd: "update_debt today s u w k p = (s', r)"
  shows "base_balance i s' = base_balance i s"
  using upd
proof (cases rule: update_debt_cases)
  case (changed d d1 accs d3 res)
  show ?thesis
  proof (rule base_balance_step)
    show "balance_of i (accounts s') = map_option ((+) (leg i d3 - leg i d)) (balance_of i (accounts s))"
      using senkronize_nakit_leg [OF debts_inv_ok [OF inv changed(1)] _ changed(3)] inv changed(6)
      by (simp add: debts_inv_def)
    show "settled i s' = settled i s - leg i d + leg i d3"
      using settled_upd_row [OF _ changed(1), where e = d3 and i = i] inv changed(6)
      by (simp add: debts_inv_def settled_def)
  qed
qed simp

lemma delete_debt_base:
  assumes inv: "debts_inv s" and del: "delete_debt s u w k = (s', r)"
  shows "debts_inv s' \<and> base_balance i s' = base_balance i s"
proof (cases "query_debt u w k (debts s)")
  case None
  then show ?thesis using del inv by (simp add: delete_debt_def)
next
  case (Some d)
  obtain accs e res where sync:
    "senkronize_nakit u w (d\<lparr>is_paid := False, paid_date := None\<rparr>) (oku d) (accounts s) = (accs, e, res)"
    by (metis prod_cases3)
  with Some del have s': "s' = s\<lparr>accounts := accs, debts := del_row pd_id (pd_id d) (debts s)\<rparr>"
    by (simp add: delete_debt_def)
  have e: "leg i e = 0" using senkronize_nakit_trace [OF sync, of i] by (auto simp: leg_def)
  have dist: "distinct (map pd_id (debts s))" "distinct (map acc_id (accounts s))"
    using inv by (simp_all add: debts_inv_def)
  have "base_balance i s' = base_balance i s"
  proof (rule base_balance_step)
    show "balance_of i (accounts s') = map_option ((+) (0 - leg i d)) (balance_of i (accounts s))"
      using senkronize_nakit_leg [OF debts_inv_ok [OF inv Some] dist(2) sync] e s' by simp
    show "settled i s' = settled i s - leg i d + 0"
      using sum_list_del_row [OF dist(1) query_debt_find_row [OF dist(1) Some], of "leg i"]
        query_debt_Some [OF Some] s' by (simp add: settled_def)
  qed
  moreover have "debts_inv s'"
    using inv s' debt_ok_ids [OF senkronize_nakit_ids [OF sync]] senkronize_nakit_ids [OF sync]
    by (auto simp: debts_inv_def set_del_row distinct_map_del_row)
  ultimately show ?thesis by simp
qed

lemma create_debt_base:
  assumes inv: "debts_inv s" and cr: "create_debt s u w cp dir amt descr due = (s', d)"
  shows "debts_inv s' \<and> base_balance i s' = base_balance i s"
proof -
  let ?d = "\<lparr>pd_id = next_key pd_id (debts s), pd_user = u, pd_ws = w, counterparty = cp,
               direction = dir, pd_amount = amt, pd_description = descr, due_date = due,
               is_paid = False, paid_date = None, settlement_account = None\<rparr>"
  have s': "accounts s' = accounts s" "debts s' = debts s @ [?d]"
    using cr by (auto simp: create_debt_def Let_def)
  have "debt_ok accs ?d" "leg i ?d = 0" "pd_id ?d \<notin> pd_id ` set (debts s)" for accs
    using next_key_fresh [of pd_id "debts s"]
    by (simp_all add: debt_ok_def denetle_debt_def leg_def)
  then show ?thesis using inv s' by (auto simp: debts_inv_def base_balance_def settled_def)
qed

subsection \<open>Requests in any order\<close>

inductive debt_step :: "db \<Rightarrow> db \<Rightarrow> bool" where
  create: "create_debt s u w cp dir amt descr due = (s', d) \<Longrightarrow> debt_step s s'"
| update: "update_debt today s u w k p = (s', r) \<Longrightarrow> debt_step s s'"
| delete: "delete_debt s u w k = (s', r') \<Longrightarrow> debt_step s s'"

inductive debt_run :: "db \<Rightarrow> db \<Rightarrow> bool" where
  none: "debt_run s s"
| more: "debt_run s s' \<Longrightarrow> debt_step s' s'' \<Longrightarrow> debt_run s s''"

lemma debt_step_base:
  "debt_step s s' \<Longrightarrow> debts_inv s \<Longrightarrow> debts_inv s' \<and> base_balance i s' = base_balance i s"
proof (induction rule: debt_step.induct)
  case (create s u w cp dir amt descr due s' d)
  then show ?case using create_debt_base by metis
next
  case (update today s u w k p s' r)
  then show ?case using update_debt_base update_debt_inv by metis
next
  case (delete s u w k s' r')
  then show ?case using delete_debt_base by metis
qed

text \<open>A debt that is not settled counts as an open position.\<close>

definition open_position :: "personal_debt \<Rightarrow> rat" where
  "open_position d = (if is_paid d then 0 else kapanis_delta (direction d) (pd_amount d))"

definition mark_paid :: "date \<Rightarrow> debt_update" where
  "mark_paid t = \<lparr>du_counterparty = Unset, du_amount = Unset, du_description = Unset,
     du_due_date = Unset, du_paid_date = Set_To (Some t), du_is_paid = Unset\<rparr>"

definition unmark_paid :: debt_update where
  "unmark_paid = \<lparr>du_counterparty = Unset, du_amount = Unset, du_description = Unset,
     du_due_date = Unset, du_paid_date = Unset, du_is_paid = Set_To (Some False)\<rparr>"

lemma kapanis_delta_0 [simp]: "kapanis_delta yon x = 0 \<longleftrightarrow> x = 0"
  by (cases yon) (simp_all add: kapanis_delta_def)

lemma query_debt_upd:
  assumes "query_debt u w k ds = Some d" "pd_id e = pd_id d" "pd_user e = pd_user d" "pd_ws e = pd_ws d"
  shows "query_debt u w k (upd_row pd_id (pd_id d) (\<lambda>_. e) ds) = Some e"
  using assms query_debt_Some [OF assms(1)]
  by (induction ds) (auto simp: query_debt_def split: if_splits)

text \<open>The leg of a debt that has none yet goes to the default cash account, if there is one.\<close>

lemma senkronize_nakit_first:
  assumes "settlement_account d = None" "is_paid e"
  shows "senkronize_nakit u w e (oku d) accs =
    (case (if pd_amount e = 0 then None else varsayilan_nakit_hesap u w accs) of
       None \<Rightarrow> (accs, e\<lparr>settlement_account := None\<rparr>, \<lparr>cash_effect = 0, cash_account = None, applied = False\<rparr>)
     | Some a \<Rightarrow> (credit (acc_id a) (kapanis_delta (direction e) (pd_amount e)) accs,
         e\<lparr>settlement_account := Some (acc_id a)\<rparr>,
         \<lparr>cash_effect = kapanis_delta (direction e) (pd_amount e), cash_account = Some (acc_name a),
          applied = True\<rparr>))"
  using assms
  by (cases "varsayilan_nakit_hesap u w accs") (simp_all add: senkronize_nakit_def Let_def)

lemma mark_paid_result:
  assumes q: "query_debt u w k (debts s) = Some d" and unpaid: "\<not> is_paid d"
    and ok: "debt_ok (accounts s) d"
  obtains accs h where "h = (if pd_amount d = 0 then None else map_option acc_id (varsayilan_nakit_hesap u w (accounts s)))"
    "update_debt today s u w k (mark_paid t) =
      (s\<lparr>accounts := accs, debts := upd_row pd_id (pd_id d)
          (\<lambda>_. d\<lparr>paid_date := Some t, is_paid := True, settlement_account := h\<rparr>) (debts s)\<rparr>,
       Inr (d\<lparr>paid_date := Some t, is_paid := True, settlement_account := h\<rparr>))"
    "accs = (case h of None \<Rightarrow> accounts s
       | Some i \<Rightarrow> credit i (kapanis_delta (direction d) (pd_amount d)) (accounts s))"
proof -
  have none: "settlement_account d = None" using ok unpaid by (auto simp: debt_ok_def split: option.splits)
  let ?e = "d\<lparr>paid_date := Some t, is_paid := True\<rparr>"
  have f: "set_fields (mark_paid t) d = Some (d\<lparr>paid_date := Some t\<rparr>)"
    by (simp add: set_fields_def mark_paid_def patched_def)
  have g: "sync_paid_fields today (mark_paid t) (d\<lparr>paid_date := Some t\<rparr>) = ?e"
    by (simp add: sync_paid_fields_def mark_paid_def)
  note S = senkronize_nakit_first [OF none, of ?e u w "accounts s"]
  have dn: "denetle_debt (?e\<lparr>settlement_account := h\<rparr>)" for h by (simp add: denetle_debt_def)
  show thesis
  proof (cases "if pd_amount d = 0 then None else varsayilan_nakit_hesap u w (accounts s)")
    case None
    show thesis
    proof (rule that [of None "accounts s"])
      show "None = (if pd_amount d = 0 then None else map_option acc_id (varsayilan_nakit_hesap u w (accounts s)))"
        using None by (simp split: if_splits)
      show "update_debt today s u w k (mark_paid t) =
        (s\<lparr>accounts := accounts s, debts := upd_row pd_id (pd_id d)
          (\<lambda>_. d\<lparr>paid_date := Some t, is_paid := True, settlement_account := None\<rparr>) (debts s)\<rparr>,
         Inr (d\<lparr>paid_date := Some t, is_paid := True, settlement_account := None\<rparr>))"
        using S None dn [of None] by (simp add: update_debt_def q f g)
    qed simp
  next
    case (Some a)
    then have a: "pd_amount d \<noteq> 0" "varsayilan_nakit_hesap u w (accounts s) = Some a"
      by (auto split: if_splits)
    show thesis
    proof (rule that [of "Some (acc_id a)" "credit (acc_id a) (kapanis_delta (direction d) (pd_amount d)) (accounts s)"])
      show "update_debt today s u w k (mark_paid t) =
        (s\<lparr>accounts := credit (acc_id a) (kapanis_delta (direction d) (pd_amount d)) (accounts s),
            debts := upd_row pd_id (pd_id d)
          (\<lambda>_. d\<lparr>paid_date := Some t, is_paid := True, settlement_account := Some (acc_id a)\<rparr>) (debts s)\<rparr>,
         Inr (d\<lparr>paid_date := Some t, is_paid := True, settlement_account := Some (acc_id a)\<rparr>))"
        using S a dn [of "Some (acc_id a)"] by (simp add: update_debt_def q f g)
    qed (simp_all add: a)
  qed
qed

subsection \<open>Properties\<close>

text \<open>C1: The ledger law of debt settlement: whatever debts are created, edited, marked paid,
  unmarked, corrected or deleted, by any user in any scope, the balance of every account minus
  the legs recorded in the debts stays what it was. No money appears or vanishes, and no leg is
  applied twice or rewound twice.\<close>

theorem debt_settlement_conserves:
  assumes "debt_run s s'" and "debts_inv s"
  shows "debts_inv s' \<and> base_balance i s' = base_balance i s"
  using assms by (induction rule: debt_run.induct) (auto simp: debt_step_base)

definition ex_cash :: account where
  "ex_cash = \<lparr>acc_id = 1, acc_user = 7, acc_ws = Some 3, acc_name = ''Vadesiz'', acc_type = Cash,
     acc_balance = 1000, credit_limit = None, statement_day = None, payment_day = None,
     interest_rate = None, min_payment_ratio = None, statement_balance = None,
     monthly_payment = None, remaining_installments = None, next_payment_date = None,
     early_payoff_amount = None, lot_count = None, cost_per_lot = None, current_price = None,
     last_price_update = None, fund_code = None, is_emanet = False\<rparr>"

definition ex_debt :: personal_debt where
  "ex_debt = \<lparr>pd_id = 1, pd_user = 7, pd_ws = Some 3, counterparty = ''Ali'', direction = Receivable,
     pd_amount = 5000, pd_description = None, due_date = None, is_paid = False, paid_date = None,
     settlement_account = None\<rparr>"

lemma debt_settlement_conserves_witness:
  defines "s \<equiv> empty_db\<lparr>accounts := [ex_cash], debts := [ex_debt]\<rparr>"
  shows "base_balance 1 (fst (update_debt (Date 2026 9 1) s 7 (Some 3) 1 (mark_paid (Date 2026 8 6)))) = Some 1000"
proof -
  have "base_balance 1 s = Some 1000"
    by (simp add: s_def base_balance_def settled_def leg_def balance_of_def ex_cash_def ex_debt_def)
  moreover have "debts_inv s"
    by (simp add: s_def debts_inv_def debt_ok_def denetle_debt_def ex_debt_def)
  moreover have "debt_run s (fst (update_debt (Date 2026 9 1) s 7 (Some 3) 1 (mark_paid (Date 2026 8 6))))"
    by (rule debt_run.more [OF debt_run.none debt_step.update [OF prod.collapse [symmetric]]])
  ultimately show ?thesis using debt_settlement_conserves [of s _ 1] by simp
qed

text \<open>C23: Marking an open receivable or debt as paid and then taking it back leaves every account
  with the balance it had, whatever the day and the settings of the second request.\<close>

theorem mark_unmark_restores:
  assumes inv: "debts_inv s" and q: "query_debt u w k (debts s) = Some d" and unpaid: "\<not> is_paid d"
    and s1: "s1 = fst (update_debt today s u w k (mark_paid t))"
    and s2: "s2 = fst (update_debt today' s1 u w k unmark_paid)"
  shows "balance_of i (accounts s2) = balance_of i (accounts s)"
proof -
  obtain accs h where m: "update_debt today s u w k (mark_paid t) =
      (s\<lparr>accounts := accs, debts := upd_row pd_id (pd_id d)
          (\<lambda>_. d\<lparr>paid_date := Some t, is_paid := True, settlement_account := h\<rparr>) (debts s)\<rparr>,
       Inr (d\<lparr>paid_date := Some t, is_paid := True, settlement_account := h\<rparr>))"
    using mark_paid_result [OF q unpaid debts_inv_ok [OF inv q]] by metis
  let ?e = "d\<lparr>paid_date := Some t, is_paid := True, settlement_account := h\<rparr>"
  have inv1: "debts_inv s1" using update_debt_inv [OF inv, of today u w k "mark_paid t"] s1 by (metis prod.collapse)
  have q1: "query_debt u w k (debts s1) = Some ?e"
    using query_debt_upd [OF q, of ?e] by (simp add: s1 m)
  have dist: "distinct (map pd_id (debts s))" "distinct (map pd_id (debts s1))"
    using inv inv1 by (simp_all add: debts_inv_def)
  have none: "settlement_account d = None"
    using debts_inv_ok [OF inv q] unpaid by (auto simp: debt_ok_def split: option.splits)
  have set1: "settled i s1 = settled i s + leg i ?e"
    using settled_upd_row [OF dist(1) q, where e = ?e and i = i] none
    by (simp add: s1 m settled_def leg_def)
  have "set_fields unmark_paid ?e = Some (?e\<lparr>is_paid := False\<rparr>)"
    by (simp add: set_fields_def unmark_paid_def patched_def)
  moreover have "sync_paid_fields today' unmark_paid (?e\<lparr>is_paid := False\<rparr>) = ?e\<lparr>is_paid := False, paid_date := None\<rparr>" (is "_ = ?f0")
    by (simp add: sync_paid_fields_def unmark_paid_def)
  moreover obtain a2 f res where sync: "senkronize_nakit u w ?f0 (oku ?e) (accounts s1) = (a2, f, res)"
    by (metis prod_cases3)
  moreover have f: "leg i f = 0" "is_paid f = False" "paid_date f = None"
    using senkronize_nakit_trace [OF sync, of i] arg_cong [OF senkronize_nakit_debt [OF sync], of is_paid]
      arg_cong [OF senkronize_nakit_debt [OF sync], of paid_date] by (auto simp: leg_def)
  ultimately have s2': "s2 = s1\<lparr>accounts := a2, debts := upd_row pd_id (pd_id d) (\<lambda>_. f) (debts s1)\<rparr>"
    by (simp add: s2 update_debt_def q1 denetle_debt_def)
  have "settled i s2 = settled i s1 - leg i ?e + leg i f"
    using settled_upd_row [OF dist(2) q1, where e = f and i = i] by (simp add: s2' settled_def)
  then have "settled i s2 = settled i s" using set1 f(1) by simp
  moreover have "base_balance i s2 = base_balance i s"
    using update_debt_base [OF inv1, of today' u w k unmark_paid s2]
      update_debt_base [OF inv, of today u w k "mark_paid t" s1] s1 s2 by (metis prod.collapse)
  ultimately show ?thesis
    by (cases "balance_of i (accounts s)"; cases "balance_of i (accounts s2)") (auto simp: base_balance_def)
qed

lemma mark_unmark_restores_witness:
  defines "s \<equiv> empty_db\<lparr>accounts := [ex_cash], debts := [ex_debt]\<rparr>"
  defines "s1 \<equiv> fst (update_debt (Date 2026 9 1) s 7 (Some 3) 1 (mark_paid (Date 2026 8 6)))"
  shows "balance_of 1 (accounts s1) = Some 6000 \<and>
    balance_of 1 (accounts (fst (update_debt (Date 2026 9 2) s1 7 (Some 3) 1 unmark_paid))) = Some 1000"
proof -
  have q: "query_debt 7 (Some 3) 1 (debts s) = Some ex_debt"
    by (simp add: s_def query_debt_def ex_debt_def scope_filter_def)
  have inv: "debts_inv s" by (simp add: s_def debts_inv_def debt_ok_def denetle_debt_def ex_debt_def)
  have "balance_of 1 (accounts s) = Some 1000"
    by (simp add: s_def balance_of_def ex_cash_def)
  with mark_unmark_restores [OF inv q _ s1_def [THEN meta_eq_to_obj_eq] refl] have
    "balance_of 1 (accounts (fst (update_debt (Date 2026 9 2) s1 7 (Some 3) 1 unmark_paid))) = Some 1000"
    by (simp add: ex_debt_def)
  moreover have "balance_of 1 (accounts s1) = Some 6000"
    by (simp add: s1_def s_def update_debt_def query_debt_def scope_filter_def ex_debt_def ex_cash_def
        mark_paid_def set_fields_def sync_paid_fields_def patched_def senkronize_nakit_def Let_def oku_def
        varsayilan_nakit_hesap_def varsayilan_hesap_def kapanis_delta_def denetle_debt_def balance_of_def
        add_balance_def)
  ultimately show ?thesis by simp
qed

end
