(* ===== verification/Transactions.thy ===== *)
theory Transactions
  imports Balance_Rules Workspace_Scope
begin

text \<open>
  Transactions and their effect on balances: app/routers/transactions.py (create, quick entry,
  update, delete) and the category decisions of app/category_rules.py.

  The abstract specification is again a ledger: with automatic balance updates, the balance of
  an account minus the effects of the transactions booked on it never changes.
\<close>

subsection \<open>Kategoriler\<close>

text \<open>app/category_rules.py: slug, card default, system category.\<close>

definition varsayilan_set :: "(string \<times> bool \<times> bool) list" where
  "varsayilan_set =
    [(''yemek'', True, False), (''eglence'', True, False), (''sigara'', True, False),
     (''alisveris'', True, False), (''market'', True, False), (''ulasim'', False, False),
     (''fatura'', False, False), (''saglik'', False, False), (''kira'', False, False),
     (''abonelik'', False, False), (''sigorta'', False, False), (''internet'', False, False),
     (''telefon'', False, False), (''diger'', False, False), (''transfer'', False, True),
     (''borc_odeme'', False, True), (''borc_geri_odeme'', False, True),
     (''kredi_taksiti'', False, True), (''borc'', False, True), (''kredi'', False, True),
     (''loan_payment'', False, True), (''debt_payment'', False, True)]"

definition scoped_categories :: "nat \<Rightarrow> nat option \<Rightarrow> category list \<Rightarrow> category list" where
  "scoped_categories u w cats = filter (\<lambda>c. scope_filter u w (cat_user c) (cat_ws c)) cats"

text \<open>The dictionary \<open>slug -> flags\<close>; a later row of the same slug overrides an earlier one.\<close>

definition kategori_haritasi :: "nat \<Rightarrow> nat option \<Rightarrow> category list \<Rightarrow> (string \<times> bool \<times> bool) list" where
  "kategori_haritasi u w cats =
     (let rows = scoped_categories u w cats in
      if rows = [] then varsayilan_set
      else foldl (\<lambda>d r. dset (slug r) (kart_varsayilani r, sistem r) d) [] rows)"

text \<open>The slug asked for is already normalised (\<open>tr_text.normalize\<close>).\<close>

definition kart_varsayilani_mi :: "nat \<Rightarrow> nat option \<Rightarrow> category list \<Rightarrow> string \<Rightarrow> bool" where
  "kart_varsayilani_mi u w cats s =
     (case map_of (kategori_haritasi u w cats) s of None \<Rightarrow> False | Some (k, _) \<Rightarrow> k)"

definition sistem_slug_kumesi :: "nat \<Rightarrow> nat option \<Rightarrow> category list \<Rightarrow> string list" where
  "sistem_slug_kumesi u w cats = map fst (filter (\<lambda>(s, k, y). y) (kategori_haritasi u w cats))"

definition sistem_kategorisi_mi :: "nat \<Rightarrow> nat option \<Rightarrow> category list \<Rightarrow> string \<Rightarrow> bool" where
  "sistem_kategorisi_mi u w cats s =
     (case map_of (kategori_haritasi u w cats) s of None \<Rightarrow> False | Some (_, y) \<Rightarrow> y)"

definition kategorileri_tohumla :: "nat \<Rightarrow> nat option \<Rightarrow> category list \<Rightarrow> category list \<times> nat" where
  "kategorileri_tohumla u w cats =
     (let mevcut = map slug (scoped_categories u w cats);
          eklenen = filter (\<lambda>(s, k, y). s \<notin> set mevcut) varsayilan_set
      in (cats @ map (\<lambda>(i, s, k, y). \<lparr>cat_id = next_key cat_id cats + i, cat_user = u, cat_ws = w, slug = s,
              kart_varsayilani = k, sistem = y, gizli = False\<rparr>) (enumerate 0 eklenen),
          length eklenen))"

subsection \<open>Hizli giris\<close>

definition quick_keywords :: "(string \<times> string \<times> bool) list" where
  "quick_keywords =
    [(''yemek'', ''yemek'', True), (''kahve'', ''yemek'', True), (''icecek'', ''yemek'', True),
     (''kafe'', ''yemek'', True), (''eglence'', ''eglence'', True), (''sinema'', ''eglence'', True),
     (''sigara'', ''sigara'', True), (''ulasim'', ''ulasim'', False), (''yakit'', ''ulasim'', False),
     (''tasit'', ''ulasim'', False), (''metro'', ''ulasim'', False), (''otobus'', ''ulasim'', False),
     (''taksi'', ''ulasim'', False), (''fatura'', ''fatura'', False), (''telefon'', ''fatura'', False),
     (''internet'', ''fatura'', False), (''elektrik'', ''fatura'', False), (''saglik'', ''saglik'', False),
     (''ilac'', ''saglik'', False), (''doktor'', ''saglik'', False), (''borc'', ''borc_geri_odeme'', False),
     (''alisveris'', ''alisveris'', True), (''market'', ''alisveris'', True), (''diger'', ''diger'', False)]"

text \<open>\<open>needle in hay\<close>\<close>

fun contains :: "string \<Rightarrow> string \<Rightarrow> bool" where
  "contains needle [] = (needle = [])"
| "contains needle (c # hay) = (take (length needle) (c # hay) = needle \<or> contains needle hay)"

fun join_words :: "string list \<Rightarrow> string" where
  "join_words [] = []"
| "join_words [w] = w"
| "join_words (w # ws) = w @ '' '' @ join_words ws"

record quick =
  qk_amount :: rat
  qk_category :: string
  qk_is_card :: bool
  qk_description :: "string option"

text \<open>\<open>_parse_quick_text\<close> of a text split into lower-case words; \<open>tutar\<close> is \<open>float()\<close> of the first
  word, \<open>None\<close> where it raises.\<close>

definition parse_quick_text :: "string list \<Rightarrow> fnum option \<Rightarrow> quick option" where
  "parse_quick_text parts tutar =
     (case parts of [] \<Rightarrow> None
      | _ # ws \<Rightarrow> (case tutar of None \<Rightarrow> None
        | Some v \<Rightarrow> (case parse_finite v of None \<Rightarrow> None
          | Some amount \<Rightarrow>
              if amount \<le> 0 \<or> 1000000000000 < amount then None
              else (let rest = join_words ws in
                if rest = [] then Some \<lparr>qk_amount = amount, qk_category = ''diger'', qk_is_card = False,
                    qk_description = None\<rparr>
                else (case List.find (\<lambda>(kw, _). contains kw rest) quick_keywords of
                    Some (kw, cat, kart) \<Rightarrow> Some \<lparr>qk_amount = amount, qk_category = cat,
                      qk_is_card = kart, qk_description = (if rest \<noteq> kw then Some rest else None)\<rparr>
                  | None \<Rightarrow> Some \<lparr>qk_amount = amount,
                      qk_category = map (\<lambda>c. if c = CHR '' '' then CHR ''_'' else c) rest,
                      qk_is_card = False, qk_description = None\<rparr>)))))"

subsection \<open>Bakiye\<close>

definition apply_to_balance :: "account \<Rightarrow> transaction_type \<Rightarrow> rat \<Rightarrow> bool \<Rightarrow> account list \<Rightarrow> account list" where
  "apply_to_balance acc ttype amount reverse accs =
     (let delta = balance_delta (acc_type acc) ttype amount
      in credit (acc_id acc) (if reverse then - delta else delta) accs)"

subsection \<open>Endpoints\<close>

record txn_create =
  tc_account :: "nat option"
  tc_type :: "transaction_type option"
  tc_amount :: "rat option"
  tc_category :: "string option"
  tc_description :: "string option"
  tc_date :: "date option"
  tc_is_card :: "bool option"
  tc_quick :: "(string \<times> string list \<times> fnum option) option"
  tc_auto_update :: bool

definition truthy :: "string option \<Rightarrow> bool" where
  "truthy s = (s \<noteq> None \<and> s \<noteq> Some [])"

text \<open>The quick entry fills what the body leaves open; \<open>oneri\<close> is \<open>suggest_category\<close>.\<close>

definition quick_fill :: "txn_create \<Rightarrow> txn_create result" where
  "quick_fill p = (case tc_quick p of None \<Rightarrow> Inr p
     | Some (raw, parts, tutar) \<Rightarrow> (case parse_quick_text parts tutar of None \<Rightarrow> Inl Bad_Request
       | Some q \<Rightarrow> Inr (p\<lparr>
           tc_type := (case tc_type p of None \<Rightarrow> Some Expense | t \<Rightarrow> t),
           tc_amount := Some (qk_amount q),
           tc_category := (if truthy (tc_category p) then tc_category p else Some (qk_category q)),
           tc_is_card := (case tc_is_card p of None \<Rightarrow> Some (qk_is_card q) | b \<Rightarrow> b),
           tc_description := (if truthy (tc_description p) then tc_description p
             else if truthy (qk_description q) then qk_description q else Some raw)\<rparr>)))"

definition guess_category :: "(string option \<Rightarrow> string option) \<Rightarrow> txn_create \<Rightarrow> string option" where
  "guess_category oneri p =
     (if \<not> truthy (tc_category p) \<and> tc_type p = Some Expense \<and> truthy (oneri (tc_description p))
      then oneri (tc_description p) else tc_category p)"

text \<open>DATA-018: without an account, the default account of the kind the expense asks for.\<close>

definition resolve_account :: "nat \<Rightarrow> nat option \<Rightarrow> txn_create \<Rightarrow> account list \<Rightarrow> nat option" where
  "resolve_account u w p accs =
     (case tc_account p of Some (Suc i) \<Rightarrow> Some (Suc i)
      | _ \<Rightarrow> map_option acc_id (varsayilan_hesap
          (if tc_is_card p = Some True then Credit_Card else Cash) u w accs))"

definition new_txn ::
  "(string option \<Rightarrow> string option) \<Rightarrow> date \<Rightarrow> db \<Rightarrow> nat \<Rightarrow> nat option \<Rightarrow> txn_create \<Rightarrow>
   transaction_type \<Rightarrow> rat \<Rightarrow> nat \<Rightarrow> transaction" where
  "new_txn oneri today s u w p ttype amount i =
     \<lparr>tx_id = next_key tx_id (transactions s), tx_user = u, tx_ws = w, tx_account = Some i,
      tx_type = ttype, tx_amount = D_float amount, tx_category = guess_category oneri p,
      tx_description = tc_description p,
      tx_date = (case tc_date p of Some d \<Rightarrow> d | None \<Rightarrow> today),
      is_card_expense = (tc_is_card p = Some True)\<rparr>"

definition create_transaction ::
  "(string option \<Rightarrow> string option) \<Rightarrow> date \<Rightarrow> db \<Rightarrow> nat \<Rightarrow> nat option \<Rightarrow> txn_create \<Rightarrow> db \<times> transaction result" where
  "create_transaction oneri today s u w p0 =
     (case quick_fill p0 of Inl e \<Rightarrow> (s, Inl e)
      | Inr p \<Rightarrow>
        (case (tc_type p, tc_amount p) of
           (None, _) \<Rightarrow> (s, Inl Bad_Request)
         | (_, None) \<Rightarrow> (s, Inl Bad_Request)
         | (Some ttype, Some amount) \<Rightarrow>
             if amount \<le> 0 then (s, Inl Bad_Request)
             else (case resolve_account u w p (accounts s) of None \<Rightarrow> (s, Inl Bad_Request)
               | Some i \<Rightarrow> (case query_account u w i (accounts s) of None \<Rightarrow> (s, Inl Not_Found)
                 | Some a \<Rightarrow>
                   (let t = new_txn oneri today s u w p ttype amount i
                    in (s\<lparr>transactions := transactions s @ [t],
                          accounts := (if tc_auto_update p
                            then apply_to_balance a ttype (tx_amount t) False (accounts s)
                            else accounts s)\<rparr>, Inr t))))))"

record txn_update =
  tu_account :: "nat option option"
  tu_type :: "transaction_type option option"
  tu_amount :: "rat option option"
  tu_category :: "string option option"
  tu_description :: "string option option"
  tu_date :: "date option option"
  tu_is_card :: "bool option option"
  tu_auto_update :: bool

text \<open>A field of the body: \<open>None\<close> is absent, \<open>Some None\<close> an explicit \<open>null\<close>. \<open>null\<close> in a
  NOT NULL column is refused by the flush.\<close>

definition set_txn_fields :: "txn_update \<Rightarrow> transaction \<Rightarrow> transaction option" where
  "set_txn_fields p t =
     (if tu_type p = Some None \<or> tu_amount p = Some None \<or> tu_date p = Some None \<or> tu_is_card p = Some None
      then None
      else Some (t\<lparr>
        tx_account := (case tu_account p of Some v \<Rightarrow> v | None \<Rightarrow> tx_account t),
        tx_type := (case tu_type p of Some (Some v) \<Rightarrow> v | _ \<Rightarrow> tx_type t),
        tx_amount := (case tu_amount p of Some (Some v) \<Rightarrow> D_float v | _ \<Rightarrow> tx_amount t),
        tx_category := (case tu_category p of Some v \<Rightarrow> v | None \<Rightarrow> tx_category t),
        tx_description := (case tu_description p of Some v \<Rightarrow> v | None \<Rightarrow> tx_description t),
        tx_date := (case tu_date p of Some (Some v) \<Rightarrow> v | _ \<Rightarrow> tx_date t),
        is_card_expense := (case tu_is_card p of Some (Some v) \<Rightarrow> v | _ \<Rightarrow> is_card_expense t)\<rparr>))"

definition query_txn :: "nat \<Rightarrow> nat option \<Rightarrow> nat \<Rightarrow> transaction list \<Rightarrow> transaction option" where
  "query_txn u w i ts = List.find (\<lambda>t. tx_id t = i \<and> tx_in_scope u w t) ts"

text \<open>The account of a transaction, looked up in the scope of the request; nothing is done when
  it is not found.\<close>

definition apply_txn :: "nat \<Rightarrow> nat option \<Rightarrow> transaction \<Rightarrow> bool \<Rightarrow> account list \<Rightarrow> account list" where
  "apply_txn u w t reverse accs =
     (case tx_account t of None \<Rightarrow> accs
      | Some i \<Rightarrow> (case query_account u w i accs of None \<Rightarrow> accs
        | Some a \<Rightarrow> apply_to_balance a (tx_type t) (tx_amount t) reverse accs))"

definition update_transaction ::
  "db \<Rightarrow> nat \<Rightarrow> nat option \<Rightarrow> nat \<Rightarrow> txn_update \<Rightarrow> db \<times> transaction result" where
  "update_transaction s u w i p =
     (case query_txn u w i (transactions s) of None \<Rightarrow> (s, Inl Not_Found)
      | Some t \<Rightarrow>
          if (case tu_amount p of None \<Rightarrow> False | Some None \<Rightarrow> True | Some (Some x) \<Rightarrow> x \<le> 0)
          then (s, Inl Bad_Request)
          else if (case tu_account p of Some (Some j) \<Rightarrow> query_account u w j (accounts s) = None | _ \<Rightarrow> False)
          then (s, Inl Not_Found)
          else (let accs1 = (if tu_auto_update p then apply_txn u w t True (accounts s) else accounts s)
            in (case set_txn_fields p t of None \<Rightarrow> (s, Inl Server_Error)
              | Some t' \<Rightarrow>
                (let accs2 = (if tu_auto_update p then apply_txn u w t' False accs1 else accs1)
                 in (s\<lparr>accounts := accs2,
                       transactions := upd_row tx_id (tx_id t) (\<lambda>_. t') (transactions s)\<rparr>, Inr t')))))"

definition delete_transaction ::
  "db \<Rightarrow> nat \<Rightarrow> nat option \<Rightarrow> nat \<Rightarrow> bool \<Rightarrow> db \<times> unit result" where
  "delete_transaction s u w i auto_revert_balance =
     (case query_txn u w i (transactions s) of None \<Rightarrow> (s, Inl Not_Found)
      | Some t \<Rightarrow>
          (s\<lparr>accounts := (if auto_revert_balance then apply_txn u w t True (accounts s) else accounts s),
             transactions := del_row tx_id (tx_id t) (transactions s)\<rparr>, Inr ()))"

subsection \<open>The ledger law\<close>

text \<open>What transaction \<open>t\<close> contributes to account \<open>i\<close>, by the account's type.\<close>

definition type_of :: "nat \<Rightarrow> account list \<Rightarrow> account_type option" where
  "type_of i accs = map_option acc_type (find_row acc_id i accs)"

definition tx_effect :: "nat \<Rightarrow> account list \<Rightarrow> transaction \<Rightarrow> rat" where
  "tx_effect i accs t = (if tx_account t = Some i then
     (case type_of i accs of None \<Rightarrow> 0 | Some k \<Rightarrow> balance_delta k (tx_type t) (tx_amount t)) else 0)"

definition booked :: "nat \<Rightarrow> db \<Rightarrow> rat" where
  "booked i s = (\<Sum>t\<leftarrow>transactions s. tx_effect i (accounts s) t)"

definition opening_balance :: "nat \<Rightarrow> db \<Rightarrow> rat option" where
  "opening_balance i s = map_option (\<lambda>b. b - booked i s) (balance_of i (accounts s))"

text \<open>Keys are unique; a transaction is booked on an account of its own workspace.\<close>

definition txns_inv :: "db \<Rightarrow> bool" where
  "txns_inv s \<longleftrightarrow> distinct (map acc_id (accounts s)) \<and> distinct (map tx_id (transactions s)) \<and>
     (\<forall>t \<in> set (transactions s). \<forall>i. tx_account t = Some i \<longrightarrow>
        (\<exists>a. find_row acc_id i (accounts s) = Some a \<and> acc_ws a = tx_ws t))"

lemma type_of_credit [simp]: "type_of i (credit j x accs) = type_of i accs"
  by (cases "find_row acc_id i accs") (simp_all add: type_of_def row_simps)

lemma tx_effect_credit [simp]: "tx_effect i (credit j x accs) t = tx_effect i accs t"
  by (simp add: tx_effect_def)

lemma find_row_credit_ws:
  "find_row acc_id i (credit j x accs) = Some a \<Longrightarrow> \<exists>b. find_row acc_id i accs = Some b \<and> acc_ws a = acc_ws b"
  by (auto simp: row_simps split: if_splits)

lemma query_txn_Some:
  "query_txn u w i ts = Some t \<Longrightarrow> t \<in> set ts \<and> tx_id t = i \<and> tx_in_scope u w t"
  unfolding query_txn_def by (drule find_Some_prop) simp

lemma query_txn_find_row:
  "distinct (map tx_id ts) \<Longrightarrow> query_txn u w i ts = Some t \<Longrightarrow> find_row tx_id i ts = Some t"
  by (metis find_row_distinct query_txn_Some)

text \<open>Applying a transaction booked in the scope of the request posts its effect.\<close>

lemma apply_txn_credit:
  assumes "distinct (map acc_id accs)" "tx_account t = Some i" "query_account u w i accs = Some a"
  shows "apply_txn u w t rvs accs = credit i (if rvs then - tx_effect i accs t else tx_effect i accs t) accs"
  using query_account_find_row [OF assms(1,3)] query_account_Some [OF assms(3)] assms
  by (simp add: apply_txn_def apply_to_balance_def tx_effect_def type_of_def)

lemma query_account_ws:
  assumes "distinct (map acc_id accs)" "find_row acc_id i accs = Some a" "acc_ws a = Some w"
  shows "query_account u (Some w) i accs = Some a"
  using assms
proof (induction accs)
  case (Cons b accs)
  show ?case
  proof (cases "acc_id b = i")
    case True
    then show ?thesis using Cons.prems by (simp add: query_account_def scope_filter_def)
  next
    case False
    then show ?thesis using Cons by (simp add: query_account_def)
  qed
qed simp

lemma apply_txn_bal:
  assumes d: "distinct (map acc_id accs)"
    and own: "\<And>i. tx_account t = Some i \<Longrightarrow> \<exists>a. find_row acc_id i accs = Some a \<and> acc_ws a = Some w"
  shows "\<exists>j x. apply_txn u (Some w) t rvs accs = credit j x accs"
    and "balance_of i (apply_txn u (Some w) t rvs accs) =
      map_option ((+) (if rvs then - tx_effect i accs t else tx_effect i accs t)) (balance_of i accs)"
proof -
  have z: "map_option ((+) (0::rat)) x = x" for x by (cases x) simp_all
  have "(\<exists>j x. apply_txn u (Some w) t rvs accs = credit j x accs) \<and>
    balance_of i (apply_txn u (Some w) t rvs accs) =
      map_option ((+) (if rvs then - tx_effect i accs t else tx_effect i accs t)) (balance_of i accs)"
  proof (cases "tx_account t")
    case None
    then have "apply_txn u (Some w) t rvs accs = credit 0 0 accs" "tx_effect i accs t = 0"
      by (simp_all add: apply_txn_def tx_effect_def)
    then show ?thesis by (metis credit_0 minus_zero z)
  next
    case (Some k)
    with own obtain a where "find_row acc_id k accs = Some a" "acc_ws a = Some w" by blast
    then have q: "query_account u (Some w) k accs = Some a" using query_account_ws d by blast
    have e: "tx_effect i accs t = 0" if "i \<noteq> k" using that Some by (simp add: tx_effect_def)
    show ?thesis using apply_txn_credit [OF d Some q, of rvs] e
      by (auto simp: lg.bal_post z)
  qed
  then show "\<exists>j x. apply_txn u (Some w) t rvs accs = credit j x accs"
    "balance_of i (apply_txn u (Some w) t rvs accs) =
      map_option ((+) (if rvs then - tx_effect i accs t else tx_effect i accs t)) (balance_of i accs)"
    by simp_all
qed

lemma txns_inv_own:
  "txns_inv s \<Longrightarrow> t \<in> set (transactions s) \<Longrightarrow> tx_in_scope u (Some w) t \<Longrightarrow> tx_account t = Some i \<Longrightarrow>
   \<exists>a. find_row acc_id i (accounts s) = Some a \<and> acc_ws a = Some w"
  by (auto simp: txns_inv_def scope_filter_def)

lemma owns_credit:
  assumes "\<exists>a. find_row acc_id i accs = Some a \<and> acc_ws a = w"
  shows "\<exists>a. find_row acc_id i (credit j x accs) = Some a \<and> acc_ws a = w"
  using assms by (auto simp: row_simps)

lemma opening_balance_step:
  assumes "balance_of i (accounts s') = map_option ((+) x) (balance_of i (accounts s))"
    "booked i s' = booked i s + x"
  shows "opening_balance i s' = opening_balance i s"
  using assms by (simp add: opening_balance_def option.map_comp comp_def)

lemma query_account_own:
  "distinct (map acc_id accs) \<Longrightarrow> query_account u (Some w) i accs = Some a \<Longrightarrow>
   find_row acc_id i accs = Some a \<and> acc_ws a = Some w"
  using query_account_find_row query_account_Some by (fastforce simp: scope_filter_def)

lemma new_txn_sel [simp]:
  "tx_id (new_txn oneri today s u w p k x i) = next_key tx_id (transactions s)"
  "tx_account (new_txn oneri today s u w p k x i) = Some i" "tx_ws (new_txn oneri today s u w p k x i) = w"
  "tx_user (new_txn oneri today s u w p k x i) = u" "tx_type (new_txn oneri today s u w p k x i) = k"
  "tx_amount (new_txn oneri today s u w p k x i) = D_float x"
  by (simp_all add: new_txn_def)

lemma create_transaction_cases:
  assumes "create_transaction oneri today s u w p = (s', r)"
  obtains (refused) e where "s' = s" "r = Inl e"
  | (created) t i a q k x where "quick_fill p = Inr q" "tc_type q = Some k" "tc_amount q = Some x" "0 < x"
      "query_account u w i (accounts s) = Some a" "t = new_txn oneri today s u w q k x i" "r = Inr t"
      "s' = s\<lparr>transactions := transactions s @ [t], accounts := (if tc_auto_update q
          then apply_to_balance a k (tx_amount t) False (accounts s) else accounts s)\<rparr>"
proof (cases "quick_fill p")
  case (Inl e)
  with assms show thesis by (intro refused) (auto simp: create_transaction_def)
next
  case (Inr q)
  show thesis
  proof (cases "\<exists>k x i a. tc_type q = Some k \<and> tc_amount q = Some x \<and> 0 < x \<and>
      resolve_account u w q (accounts s) = Some i \<and> query_account u w i (accounts s) = Some a")
    case True
    then obtain k x i a where *: "tc_type q = Some k" "tc_amount q = Some x" "0 < x"
      "resolve_account u w q (accounts s) = Some i" "query_account u w i (accounts s) = Some a" by blast
    show thesis
      by (rule created [OF Inr *(1,2,3,5) refl]) (use assms Inr * in \<open>auto simp: create_transaction_def Let_def\<close>)
  next
    case False
    with Inr assms show thesis
      by (intro refused [of "projl r"]) (auto simp: create_transaction_def split: option.splits if_splits)
  qed
qed

lemma quick_fill_auto [simp]: "quick_fill p = Inr q \<Longrightarrow> tc_auto_update q = tc_auto_update p"
  by (auto simp: quick_fill_def split: option.splits)

lemma create_transaction_ledger:
  assumes inv: "txns_inv s" and auto: "tc_auto_update p"
    and cr: "create_transaction oneri today s u (Some w) p = (s', r)"
  shows "txns_inv s' \<and> opening_balance i s' = opening_balance i s"
  using cr
proof (cases rule: create_transaction_cases)
  case (created t k a q ty x)
  have d: "distinct (map acc_id (accounts s))" using inv by (simp add: txns_inv_def)
  note a = query_account_own [OF d created(5)]
  let ?d = "balance_delta (acc_type a) (tx_type t) (tx_amount t)"
  have t: "tx_account t = Some k" "tx_ws t = Some w" "tx_id t = next_key tx_id (transactions s)" "tx_type t = ty"
    by (simp_all add: created(6))
  have ak: "acc_id a = k" using a find_row_Some_key by metis
  have s': "transactions s' = transactions s @ [t]" "accounts s' = credit k ?d (accounts s)"
    using created(8) auto created(1) ak t by (simp_all add: apply_to_balance_def)
  have fresh: "tx_id t \<notin> tx_id ` set (transactions s)" using t(3) next_key_fresh by metis
  have own: "\<exists>b. find_row acc_id j (accounts s) = Some b \<and> acc_ws b = tx_ws y"
    if "y \<in> set (transactions s')" "tx_account y = Some j" for y j
    using that s'(1) a t inv by (auto simp: txns_inv_def)
  have "txns_inv s'"
    using inv fresh owns_credit [OF own] unfolding txns_inv_def s'(2)
    by (simp add: s'(1) txns_inv_def)
  moreover have "opening_balance i s' = opening_balance i s"
  proof (rule opening_balance_step)
    have e: "tx_effect i (accounts s) t = (if k = i then ?d else 0)"
      using a t by (auto simp: tx_effect_def type_of_def)
    show "balance_of i (accounts s') = map_option ((+) (tx_effect i (accounts s) t)) (balance_of i (accounts s))"
      using e by (cases "balance_of i (accounts s)") (auto simp: s' lg.bal_post)
    show "booked i s' = booked i s + tx_effect i (accounts s) t"
      by (simp add: booked_def s')
  qed
  ultimately show ?thesis by simp
qed (use inv in simp)

lemma update_transaction_cases:
  assumes "update_transaction s u w k p = (s', r)"
  obtains (refused) e where "s' = s" "r = Inl e"
  | (updated) t t' accs1 where "query_txn u w k (transactions s) = Some t" "set_txn_fields p t = Some t'"
      "\<And>j. tu_account p = Some (Some j) \<Longrightarrow> query_account u w j (accounts s) \<noteq> None" "r = Inr t'"
      "accs1 = (if tu_auto_update p then apply_txn u w t True (accounts s) else accounts s)"
      "s' = s\<lparr>accounts := (if tu_auto_update p then apply_txn u w t' False accs1 else accs1),
         transactions := upd_row tx_id (tx_id t) (\<lambda>_. t') (transactions s)\<rparr>"
proof (cases "query_txn u w k (transactions s)")
  case None
  with assms show thesis by (intro refused) (auto simp: update_transaction_def)
next
  case (Some t)
  note q = Some
  show thesis
  proof (cases "(case tu_amount p of None \<Rightarrow> False | Some None \<Rightarrow> True | Some (Some x) \<Rightarrow> x \<le> 0) \<or>
      (case tu_account p of Some (Some j) \<Rightarrow> query_account u w j (accounts s) = None | _ \<Rightarrow> False) \<or>
      set_txn_fields p t = None")
    case True
    with q assms show thesis
      by (intro refused [of "projl r"]) (auto simp: update_transaction_def Let_def split: if_splits)
  next
    case False
    then obtain t' where t': "set_txn_fields p t = Some t'" by auto
    show thesis
      by (rule updated [OF q t' _ _ refl]) (use False q t' assms in
        \<open>auto simp: update_transaction_def Let_def split: if_splits option.splits\<close>)
  qed
qed

lemma set_txn_fields_key:
  "set_txn_fields p t = Some t' \<Longrightarrow> tx_id t' = tx_id t \<and> tx_ws t' = tx_ws t \<and> tx_user t' = tx_user t \<and>
     tx_account t' = (case tu_account p of Some v \<Rightarrow> v | None \<Rightarrow> tx_account t)"
  by (auto simp: set_txn_fields_def split: if_splits)

lemma booked_upd_row:
  assumes "distinct (map tx_id (transactions s))" "query_txn u w k (transactions s) = Some t"
  shows "(\<Sum>x\<leftarrow>upd_row tx_id (tx_id t) (\<lambda>_. t') (transactions s). tx_effect i (accounts s) x) =
    booked i s - tx_effect i (accounts s) t + tx_effect i (accounts s) t'"
  using sum_list_upd_row [of tx_id "transactions s" "tx_id t" t "tx_effect i (accounts s)" "\<lambda>_. t'"]
    query_txn_find_row [OF assms] query_txn_Some [OF assms(2)] assms(1)
  by (simp add: booked_def)

lemma update_transaction_ledger:
  assumes inv: "txns_inv s" and auto: "tu_auto_update p"
    and up: "update_transaction s u (Some w) k p = (s', r)"
  shows "txns_inv s' \<and> opening_balance i s' = opening_balance i s"
  using up
proof (cases rule: update_transaction_cases)
  case (updated t t' accs1)
  have d: "distinct (map acc_id (accounts s))" "distinct (map tx_id (transactions s))"
    using inv by (simp_all add: txns_inv_def)
  note t = query_txn_Some [OF updated(1)] and key = set_txn_fields_key [OF updated(2)]
  have wt: "tx_ws t = Some w" using t by (simp add: scope_filter_def)
  have own: "\<exists>a. find_row acc_id j (accounts s) = Some a \<and> acc_ws a = Some w"
    if "tx_account t = Some j" for j
    using txns_inv_own [OF inv _ _ that] t by blast
  have own': "\<exists>a. find_row acc_id j (accounts s) = Some a \<and> acc_ws a = Some w"
    if "tx_account t' = Some j" for j
  proof (cases "tu_account p")
    case None
    then show ?thesis using own key that by simp
  next
    case (Some v)
    then have "query_account u (Some w) j (accounts s) \<noteq> None" using updated(3) key that by simp
    then show ?thesis using query_account_own [OF d(1)] by blast
  qed
  obtain j x where c1: "accs1 = credit j x (accounts s)"
    using apply_txn_bal(1) [OF d(1) own, where t = t and u = u and rvs = True] updated(5) auto by auto
  have d1: "distinct (map acc_id accs1)" using d c1 by simp
  have own1: "\<exists>a. find_row acc_id l accs1 = Some a \<and> acc_ws a = Some w" if "tx_account t' = Some l" for l
    using owns_credit [OF own' [OF that]] c1 by simp
  obtain j' x' where c2: "apply_txn u (Some w) t' False accs1 = credit j' x' accs1"
    using apply_txn_bal(1) [OF d1 own1, where t = t' and u = u and rvs = False] by blast
  have s': "accounts s' = credit j' x' (credit j x (accounts s))"
    "transactions s' = upd_row tx_id (tx_id t) (\<lambda>_. t') (transactions s)"
    using updated(6) auto c1 c2 by simp_all
  have "\<exists>a. find_row acc_id l (accounts s') = Some a \<and> acc_ws a = tx_ws y"
    if y: "y \<in> set (transactions s')" "tx_account y = Some l" for y l
  proof -
    have "\<exists>a. find_row acc_id l (accounts s) = Some a \<and> acc_ws a = tx_ws y"
    proof (cases "y = t'")
      case True
      then show ?thesis using own' y(2) wt key by simp
    next
      case False
      then have "y \<in> set (transactions s)" using y(1) by (auto simp: s'(2) set_upd_row)
      then show ?thesis using inv y(2) by (simp add: txns_inv_def)
    qed
    then show ?thesis unfolding s'(1) by (intro owns_credit)
  qed
  moreover have "map tx_id (transactions s') = map tx_id (transactions s)"
    using key by (auto simp: s'(2) upd_row_def)
  ultimately have "txns_inv s'" using d s'(1) by (simp add: txns_inv_def)
  moreover have "opening_balance i s' = opening_balance i s"
  proof (rule opening_balance_step)
    have e: "tx_effect i accs1 t' = tx_effect i (accounts s) t'" by (simp add: c1)
    have "balance_of i (accounts s') = map_option ((+) (tx_effect i accs1 t')) (balance_of i accs1)"
      using apply_txn_bal(2) [OF d1 own1, where t = t' and u = u and rvs = False and i = i] c1 c2 s'(1) by simp
    also have "balance_of i accs1 = map_option ((+) (- tx_effect i (accounts s) t)) (balance_of i (accounts s))"
      using apply_txn_bal(2) [OF d(1) own, where t = t and u = u and rvs = True and i = i] updated(5) auto by simp
    finally show "balance_of i (accounts s') =
      map_option ((+) (tx_effect i (accounts s) t' - tx_effect i (accounts s) t)) (balance_of i (accounts s))"
      by (cases "balance_of i (accounts s)") (simp_all add: e)
    show "booked i s' = booked i s + (tx_effect i (accounts s) t' - tx_effect i (accounts s) t)"
      using booked_upd_row [OF d(2) updated(1), where t' = t' and i = i] by (simp add: booked_def s')
  qed
  ultimately show ?thesis by simp
qed (use inv in simp)

lemma delete_transaction_ledger:
  assumes inv: "txns_inv s" and del: "delete_transaction s u (Some w) k True = (s', r)"
  shows "txns_inv s' \<and> opening_balance i s' = opening_balance i s"
proof (cases "query_txn u (Some w) k (transactions s)")
  case None
  then show ?thesis using del inv by (simp add: delete_transaction_def)
next
  case (Some t)
  have d: "distinct (map acc_id (accounts s))" "distinct (map tx_id (transactions s))"
    using inv by (simp_all add: txns_inv_def)
  have own: "\<exists>a. find_row acc_id j (accounts s) = Some a \<and> acc_ws a = Some w"
    if "tx_account t = Some j" for j
    using txns_inv_own [OF inv _ _ that] query_txn_Some [OF Some] by blast
  obtain j x where c: "apply_txn u (Some w) t True (accounts s) = credit j x (accounts s)"
    using apply_txn_bal(1) [OF d(1) own, where t = t and u = u and rvs = True] by blast
  have s': "accounts s' = credit j x (accounts s)"
    "transactions s' = del_row tx_id (tx_id t) (transactions s)"
    using del Some c by (auto simp: delete_transaction_def)
  have "\<exists>a. find_row acc_id l (accounts s') = Some a \<and> acc_ws a = tx_ws y"
    if y: "y \<in> set (transactions s')" "tx_account y = Some l" for y l
    unfolding s'(1) using that inv by (intro owns_credit) (auto simp: s'(2) set_del_row txns_inv_def)
  then have "txns_inv s'" using d s' by (simp add: txns_inv_def distinct_map_del_row)
  moreover have "opening_balance i s' = opening_balance i s"
  proof (rule opening_balance_step)
    show "balance_of i (accounts s') = map_option ((+) (- tx_effect i (accounts s) t)) (balance_of i (accounts s))"
      using apply_txn_bal(2) [OF d(1) own, where t = t and u = u and rvs = True and i = i] c s'(1) by simp
    show "booked i s' = booked i s + - tx_effect i (accounts s) t"
      using sum_list_del_row [OF d(2) query_txn_find_row [OF d(2) Some], of "tx_effect i (accounts s)"]
        query_txn_Some [OF Some] by (simp add: booked_def s')
  qed
  ultimately show ?thesis by simp
qed

subsection \<open>Requests in any order\<close>

text \<open>Requests with an active workspace and automatic balance updates, the defaults of the API.\<close>

inductive txn_step :: "db \<Rightarrow> db \<Rightarrow> bool" where
  create: "create_transaction oneri today s u (Some w) p = (s', r) \<Longrightarrow> tc_auto_update p \<Longrightarrow> txn_step s s'"
| update: "update_transaction s u (Some w) k q = (s', r) \<Longrightarrow> tu_auto_update q \<Longrightarrow> txn_step s s'"
| delete: "delete_transaction s u (Some w) k True = (s', r') \<Longrightarrow> txn_step s s'"

inductive txn_run :: "db \<Rightarrow> db \<Rightarrow> bool" where
  none: "txn_run s s"
| more: "txn_run s s' \<Longrightarrow> txn_step s' s'' \<Longrightarrow> txn_run s s''"

lemma txn_step_ledger:
  "txn_step s s' \<Longrightarrow> txns_inv s \<Longrightarrow> txns_inv s' \<and> opening_balance i s' = opening_balance i s"
proof (induction rule: txn_step.induct)
  case (create oneri today s u w p s' r)
  then show ?case using create_transaction_ledger by metis
next
  case (update s u w k q s' r)
  then show ?case using update_transaction_ledger by metis
next
  case (delete s u w k s' r')
  then show ?case using delete_transaction_ledger by metis
qed

subsection \<open>Properties\<close>


definition ex_card :: account where
  "ex_card = \<lparr>acc_id = 2, acc_user = 7, acc_ws = Some 3, acc_name = ''Kart'', acc_type = Credit_Card,
     acc_balance = 200, credit_limit = Some 10000, statement_day = Some 2, payment_day = Some 12,
     interest_rate = None, min_payment_ratio = None, statement_balance = None,
     monthly_payment = None, remaining_installments = None, next_payment_date = None,
     early_payoff_amount = None, lot_count = None, cost_per_lot = None, current_price = None,
     last_price_update = None, fund_code = None, is_emanet = False\<rparr>"

definition ex_expense :: txn_create where
  "ex_expense = \<lparr>tc_account = Some 2, tc_type = Some Expense, tc_amount = Some 50, tc_category = None,
     tc_description = None, tc_date = None, tc_is_card = Some True, tc_quick = None, tc_auto_update = True\<rparr>"


text \<open>Every transaction that is accepted moves the balance of its account by exactly the signed
  amount of the convention, and an expense booked without an account never lands on an emanet
  account (MC1).\<close>

theorem create_transaction_effect:
  assumes "distinct (map acc_id (accounts s))" and "tc_auto_update p"
    and "create_transaction oneri today s u w p = (s', Inr t)"
  shows "\<exists>i a. tx_account t = Some i \<and> query_account u w i (accounts s) = Some a \<and> 0 \<le> tx_amount t \<and>
    transactions s' = transactions s @ [t] \<and>
    accounts s' = credit i (balance_delta (acc_type a) (tx_type t) (tx_amount t)) (accounts s) \<and>
    (tc_account p = None \<longrightarrow> \<not> is_emanet a)"
  using assms(3)
proof (cases rule: create_transaction_cases)
  case (created t' i a q k x)
  have a: "a \<in> set (accounts s)" "acc_id a = i" using query_account_Some [OF created(5)] by simp_all
  have "\<not> is_emanet a" if none: "tc_account p = None"
  proof -
    have "tc_account q = None"
      using created(1) none by (auto simp: quick_fill_def split: option.splits)
    then obtain b where "varsayilan_hesap (if tc_is_card q = Some True then Credit_Card else Cash) u w (accounts s) = Some b"
      "acc_id b = i"
      using assms(3) created(1-7)
      by (auto simp: create_transaction_def Let_def resolve_account_def new_txn_def split: option.splits if_splits)
    then have "b \<in> set (accounts s)" "\<not> is_emanet b" "acc_id b = i"
      using varsayilan_hesap_Some by blast+
    then show ?thesis using a assms(1) by (metis find_row_distinct option.inject)
  qed
  moreover have "0 \<le> tx_amount t" using created(4,6,7) D_float_sign [of x] by simp
  ultimately show ?thesis
    using created a assms(2) by (intro exI [of _ i] exI [of _ a]) (auto simp: apply_to_balance_def)
qed simp

lemma create_transaction_effect_witness:
  "\<exists>i a. i = 2 \<and> query_account 7 (Some 3) i [ex_card] = Some a \<and>
     accounts (fst (create_transaction (\<lambda>_. None) (Date 2026 9 1)
       (empty_db\<lparr>accounts := [ex_card]\<rparr>) 7 (Some 3) ex_expense)) =
     credit i (balance_delta (acc_type a) Expense (D_float 50)) [ex_card]"
proof -
  let ?s = "empty_db\<lparr>accounts := [ex_card]\<rparr>"
  let ?t = "new_txn (\<lambda>_. None) (Date 2026 9 1) ?s 7 (Some 3) ex_expense Expense 50 2"
  obtain s' where c: "create_transaction (\<lambda>_. None) (Date 2026 9 1) ?s 7 (Some 3) ex_expense = (s', Inr ?t)"
    by (simp add: create_transaction_def quick_fill_def resolve_account_def query_account_def
        scope_filter_def ex_expense_def ex_card_def numeral_2_eq_2 Let_def)
  have "distinct (map acc_id (accounts ?s))" "tc_auto_update ex_expense"
    by (simp_all add: ex_expense_def)
  from create_transaction_effect [OF this c] show ?thesis using c by auto
qed

end
