(* ===== verification/Actions.thy ===== *)
theory Actions
  imports Debts Transactions
begin

text \<open>
  The seven actions the coach may propose and their handlers: app/action_schema.py (the payload
  contract), app/action_executor.py (\<open>_execute_*\<close>), the sale simulation of app/rules_engine.py
  and the manual price update of app/fund_tracker.py. A handler gets the session's tables and
  returns them updated with its result or the reason it refused; an exception in a handler
  (rolled back by the executor) is the reason \<open>Unexpected\<close>.

  A payload is the dictionary after JSON decoding: \<open>payload.get(k)\<close> is a field of the record,
  \<open>None\<close> where the key is absent or null. Numbers may be non-finite. Dates are decoded.
\<close>

record payload =
  p_account_id :: "nat option"
  p_new_balance :: "fnum option"
  p_transaction_type :: "string option"
  p_amount :: "fnum option"
  p_category :: "string option"
  p_description :: "string option"
  p_transaction_date :: "date option"
  p_is_card_expense :: "bool option"
  p_auto_update_balance :: "bool option"
  p_debt_id :: "nat option"
  p_paid_date :: "date option"
  p_card_account_id :: "nat option"
  p_source_account_id :: "nat option"
  p_investment_id :: "nat option"
  p_lots_to_sell :: "fnum option"
  p_actual_price :: "fnum option"
  p_credit_to_account_id :: "nat option"
  p_new_price :: "fnum option"
  p_title :: "string option"
  p_checkpoint_type :: "string option"
  p_priority :: "int option"
  p_target_account_id :: "nat option"
  p_credit_account_id :: "nat option"
  p_from_account_id :: "nat option"

definition empty_payload :: payload where
  "empty_payload = \<lparr>p_account_id = None, p_new_balance = None, p_transaction_type = None,
     p_amount = None, p_category = None, p_description = None, p_transaction_date = None,
     p_is_card_expense = None, p_auto_update_balance = None, p_debt_id = None, p_paid_date = None,
     p_card_account_id = None, p_source_account_id = None, p_investment_id = None,
     p_lots_to_sell = None, p_actual_price = None, p_credit_to_account_id = None,
     p_new_price = None, p_title = None, p_checkpoint_type = None, p_priority = None,
     p_target_account_id = None, p_credit_account_id = None, p_from_account_id = None\<rparr>"

datatype action_type =
    Update_Account_Balance | Add_Transaction | Mark_Debt_Paid | Pay_Credit_Card
  | Sell_Investment | Update_Fund_Price | Add_Master_Checkpoint

subsection \<open>The payload contract\<close>

text \<open>app/schema_types.py: bounds of a positive amount and of a balance.\<close>

definition fin_max :: rat where "fin_max = 1000000000000"

definition finans_tutar :: "fnum option \<Rightarrow> bool" where
  "finans_tutar v = (case v of Some (Fin x) \<Rightarrow> 0 < x \<and> x \<le> fin_max | _ \<Rightarrow> False)"

definition finans_opt_tutar :: "fnum option \<Rightarrow> bool" where
  "finans_opt_tutar v = (v = None \<or> finans_tutar v)"

definition finans_bakiye :: "fnum option \<Rightarrow> bool" where
  "finans_bakiye v = (case v of Some (Fin x) \<Rightarrow> - fin_max \<le> x \<and> x \<le> fin_max | _ \<Rightarrow> False)"

definition opt_id :: "nat option \<Rightarrow> bool" where
  "opt_id i = (i \<noteq> Some 0)"

definition req_id :: "nat option \<Rightarrow> bool" where
  "req_id i = (i \<noteq> None \<and> i \<noteq> Some 0)"

definition req_str :: "string option \<Rightarrow> bool" where
  "req_str s = (s \<noteq> None \<and> s \<noteq> Some [])"

definition txn_type_of :: "string \<Rightarrow> transaction_type option" where
  "txn_type_of s = (if s = ''income'' then Some Income else if s = ''expense'' then Some Expense
     else if s = ''transfer'' then Some Transfer else None)"

definition checkpoint_type_of :: "string \<Rightarrow> checkpoint_type option" where
  "checkpoint_type_of s = (if s = ''red_line'' then Some Red_Line else if s = ''strategy'' then Some Strategy
     else if s = ''rule'' then Some Rule else if s = ''context'' then Some Context else None)"

text \<open>\<open>extra="forbid"\<close>: the payload carries only the fields of its schema. \<open>keep\<close> blanks them.\<close>

definition only_fields :: "payload \<Rightarrow> (payload \<Rightarrow> payload) \<Rightarrow> bool" where
  "only_fields p blank = (blank p = empty_payload)"

definition dogrula :: "action_type \<Rightarrow> payload \<Rightarrow> bool" where
  "dogrula a p = (case a of
     Update_Account_Balance \<Rightarrow> req_id (p_account_id p) \<and> finans_bakiye (p_new_balance p) \<and>
       only_fields p (\<lambda>p. p\<lparr>p_account_id := None, p_new_balance := None\<rparr>)
   | Add_Transaction \<Rightarrow>
       (case p_transaction_type p of None \<Rightarrow> False | Some t \<Rightarrow> txn_type_of t \<noteq> None) \<and>
       finans_tutar (p_amount p) \<and> opt_id (p_account_id p) \<and>
       only_fields p (\<lambda>p. p\<lparr>p_transaction_type := None, p_amount := None, p_category := None,
         p_description := None, p_transaction_date := None, p_account_id := None,
         p_is_card_expense := None, p_auto_update_balance := None\<rparr>)
   | Mark_Debt_Paid \<Rightarrow> req_id (p_debt_id p) \<and>
       only_fields p (\<lambda>p. p\<lparr>p_debt_id := None, p_paid_date := None\<rparr>)
   | Pay_Credit_Card \<Rightarrow> opt_id (p_card_account_id p) \<and> opt_id (p_account_id p) \<and>
       finans_tutar (p_amount p) \<and> opt_id (p_source_account_id p) \<and>
       only_fields p (\<lambda>p. p\<lparr>p_card_account_id := None, p_account_id := None, p_amount := None,
         p_source_account_id := None\<rparr>)
   | Sell_Investment \<Rightarrow> req_id (p_investment_id p) \<and> finans_tutar (p_lots_to_sell p) \<and>
       finans_opt_tutar (p_actual_price p) \<and> opt_id (p_credit_to_account_id p) \<and>
       only_fields p (\<lambda>p. p\<lparr>p_investment_id := None, p_lots_to_sell := None, p_actual_price := None,
         p_credit_to_account_id := None\<rparr>)
   | Update_Fund_Price \<Rightarrow> req_id (p_account_id p) \<and> finans_tutar (p_new_price p) \<and>
       only_fields p (\<lambda>p. p\<lparr>p_account_id := None, p_new_price := None\<rparr>)
   | Add_Master_Checkpoint \<Rightarrow> req_str (p_title p) \<and> req_str (p_description p) \<and>
       (case p_checkpoint_type p of None \<Rightarrow> False | Some t \<Rightarrow> checkpoint_type_of t \<noteq> None) \<and>
       (case p_priority p of None \<Rightarrow> True | Some n \<Rightarrow> 1 \<le> n \<and> n \<le> 3) \<and>
       only_fields p (\<lambda>p. p\<lparr>p_title := None, p_description := None, p_checkpoint_type := None,
         p_priority := None\<rparr>))"

text \<open>The amount the summary has to state (\<open>PARA_ALANLARI\<close>), and the check that it does:
  \<open>sayilar\<close> are the numbers found in the summary.\<close>

definition para_alani :: "action_type \<Rightarrow> payload \<Rightarrow> fnum option" where
  "para_alani a p = (case a of Update_Account_Balance \<Rightarrow> p_new_balance p
     | Add_Transaction \<Rightarrow> p_amount p | Pay_Credit_Card \<Rightarrow> p_amount p
     | Update_Fund_Price \<Rightarrow> p_new_price p | _ \<Rightarrow> None)"

definition ozet_payload_celiskisi :: "action_type \<Rightarrow> payload \<Rightarrow> rat list \<Rightarrow> bool" where
  "ozet_payload_celiskisi a p sayilar = (case para_alani a p of
       Some (Fin tutar) \<Rightarrow> sayilar = [] \<or> \<not> list_ex (\<lambda>s. \<bar>fsub s tutar\<bar> \<le> fl (1/100)) sayilar
     | Some _ \<Rightarrow> True
     | None \<Rightarrow> False)"

subsection \<open>Results\<close>

datatype action_error =
    Missing_Fields | Account_Not_Found | Emanet_Refused | Not_Finite | Not_Positive | Debt_Not_Found
  | Already_Paid | Card_Not_Found | No_Source | Not_Investment | Insufficient_Lots | No_Price
  | No_Credit_Account | Bad_Checkpoint_Type | Rule_Violated string | Broken_Payload | Unexpected

record sale =
  satis_tutari :: rat
  satis_maliyeti :: rat
  brut_kar :: rat
  stopaj :: rat
  net_kar :: rat
  net_eline_gecen :: rat
  kalan_lot :: rat
  kalan_deger :: rat

datatype action_result =
    Balance_Updated rat rat
  | Txn_Added nat rat
  | Debt_Paid nat rat
  | Card_Paid bool rat rat
  | Sold sale
  | Price_Updated rat rat
  | Checkpoint_Added nat

text \<open>The context a handler runs in: the active workspace (\<open>workspace_scope\<close>), the user's today
  and the clock.\<close>

record env =
  aktif :: "nat option"
  bugun :: date
  simdi :: int

definition personal_ws_of :: "db \<Rightarrow> nat \<Rightarrow> nat option" where
  "personal_ws_of s u = map_option ws_id (List.find (\<lambda>w. ws_owner w = u \<and> is_personal w) (db_workspaces s))"

definition yazma_workspace_id :: "env \<Rightarrow> db \<Rightarrow> nat \<Rightarrow> nat option \<Rightarrow> nat option" where
  "yazma_workspace_id e s u kaynak_ws =
     (case aktif e of Some w \<Rightarrow> Some w
      | None \<Rightarrow> (case kaynak_ws of Some w \<Rightarrow> Some w | None \<Rightarrow> personal_ws_of s u))"

definition find_acc :: "env \<Rightarrow> db \<Rightarrow> nat \<Rightarrow> nat \<Rightarrow> account option" where
  "find_acc e s u i = query_account u (yazma_workspace_id e s u None) i (accounts s)"

type_synonym handler = "env \<Rightarrow> db \<Rightarrow> nat \<Rightarrow> payload \<Rightarrow> db \<times> (action_error + action_result)"

subsection \<open>The sale simulation\<close>

text \<open>app/rules_engine.py. Money arguments are Decimals (already through \<open>D\<close>), lots are floats;
  \<open>None\<close> is the \<open>ValueError\<close>. The record holds the Decimals, before \<open>floatify\<close>; \<open>kalan_lot\<close> is
  a float.\<close>

definition simulate_partial_sale :: "rat \<Rightarrow> rat \<Rightarrow> rat \<Rightarrow> rat \<Rightarrow> rat \<Rightarrow> sale option" where
  "simulate_partial_sale lots cost price sell oran =
     (if sell \<le> 0 \<or> price < 0 \<or> cost < 0 \<or> lots < sell then None
      else (let tutar = qhe 2 (dmul (D_float sell) price);
                maliyet = qhe 2 (dmul (D_float sell) cost);
                kar = qhe 2 (tutar - maliyet);
                stp = (if 0 < kar then qhe 2 (dmul kar oran) else 0);
                kalan = fround 4 (fsub lots sell)
            in Some \<lparr>satis_tutari = tutar, satis_maliyeti = maliyet, brut_kar = kar, stopaj = stp,
                 net_kar = qhe 2 (kar - stp), net_eline_gecen = qhe 2 (tutar - stp),
                 kalan_lot = kalan, kalan_deger = qhe 2 (dmul (D_float kalan) price)\<rparr>))"

text \<open>\<open>D(sim[k])\<close> of a floatified value.\<close>

definition through_float :: "rat \<Rightarrow> rat" where
  "through_float x = D_float (fl x)"

definition stopaj_orani :: rat where "stopaj_orani = 175 / 1000"

definition calculate_investment_pnl :: "rat \<Rightarrow> rat \<Rightarrow> rat \<Rightarrow> rat \<times> rat \<times> rat \<times> rat" where
  "calculate_investment_pnl lots cost price =
     (let toplam = qhe 2 (dmul (D_float lots) cost); guncel = qhe 2 (dmul (D_float lots) price);
          kar = qhe 2 (guncel - toplam)
      in (toplam, guncel, kar, if 0 < toplam then qhe 2 (dmul (ddiv kar toplam) 100) else 0))"

subsection \<open>Price freshness\<close>

text \<open>app/fund_tracker.py\<close>

definition is_price_stale :: "int option \<Rightarrow> nat \<Rightarrow> int \<Rightarrow> bool" where
  "is_price_stale last_update threshold_hours now =
     (case last_update of None \<Rightarrow> True | Some t \<Rightarrow> 3600 * int threshold_hours < now - t)"

datatype price_age = Not_Entered | Just_Now | Minutes int | Hours int | Yesterday | Days int

definition get_price_age_text :: "int option \<Rightarrow> int \<Rightarrow> price_age" where
  "get_price_age_text last_update now = (case last_update of None \<Rightarrow> Not_Entered
     | Some t \<Rightarrow> (let seconds = now - t in
         if seconds < 60 then Just_Now
         else if seconds < 3600 then Minutes (seconds div 60)
         else if seconds < 86400 then Hours (seconds div 3600)
         else if seconds < 172800 then Yesterday
         else Days (seconds div 86400)))"

definition set_price :: "int \<Rightarrow> rat \<Rightarrow> rat \<Rightarrow> account \<Rightarrow> account" where
  "set_price now price deger a = a\<lparr>current_price := Some price, last_price_update := Some now, acc_balance := deger\<rparr>"

definition update_fund_price_manual :: "int \<Rightarrow> db \<Rightarrow> nat \<Rightarrow> rat \<Rightarrow> nat option \<Rightarrow> db \<times> (action_error + action_result)" where
  "update_fund_price_manual now s account_id new_price user_id =
     (case List.find (\<lambda>a. acc_id a = account_id \<and> (case user_id of None \<Rightarrow> True | Some u \<Rightarrow> acc_user a = u)) (accounts s) of
        None \<Rightarrow> (s, Inl Account_Not_Found)
      | Some a \<Rightarrow>
          if acc_type a \<noteq> Investment then (s, Inl Not_Investment)
          else if new_price \<le> 0 then (s, Inl Not_Positive)
          else (let lots = (case lot_count a of None \<Rightarrow> 0 | Some l \<Rightarrow> l);
                    old_price = (case current_price a of None \<Rightarrow> 0 | Some x \<Rightarrow> x);
                    old_value = qhe 2 (dmul old_price (D_float lots));
                    new_value = qhe 2 (dmul (D_float new_price) (D_float lots))
                in (s\<lparr>accounts := upd_row acc_id (acc_id a) (set_price now (D_float new_price) new_value) (accounts s)\<rparr>,
                    Inr (Price_Updated old_value new_value))))"

subsection \<open>Handlers\<close>

definition execute_update_account_balance :: handler where
  "execute_update_account_balance e s u p =
     (case (p_account_id p, p_new_balance p) of
        (Some i, Some nb) \<Rightarrow>
          (case find_acc e s u i of None \<Rightarrow> (s, Inl Account_Not_Found)
           | Some a \<Rightarrow>
               if is_emanet a then (s, Inl Emanet_Refused)
               else (case parse_finite nb of None \<Rightarrow> (s, Inl Not_Finite)
                 | Some x \<Rightarrow>
                     (s\<lparr>accounts := upd_row acc_id (acc_id a) (\<lambda>a. a\<lparr>acc_balance := D_float x\<rparr>) (accounts s)\<rparr>,
                      Inr (Balance_Updated (acc_balance a) (D_float x)))))
      | _ \<Rightarrow> (s, Inl Missing_Fields))"

text \<open>The handler's own sign rule (it does not use \<open>balance_delta\<close>).\<close>

definition coach_delta :: "account_type \<Rightarrow> transaction_type \<Rightarrow> rat \<Rightarrow> rat" where
  "coach_delta k t x = (case t of
       Income \<Rightarrow> (if k = Credit_Card then - x else x)
     | Expense \<Rightarrow> (if k = Credit_Card then x else - x)
     | Transfer \<Rightarrow> 0)"

definition execute_add_transaction :: handler where
  "execute_add_transaction e s u p =
     (case (p_transaction_type p, p_amount p) of
        (Some tt, Some v) \<Rightarrow>
          (case txn_type_of tt of None \<Rightarrow> (s, Inl Missing_Fields)
           | Some k \<Rightarrow> (case parse_finite v of None \<Rightarrow> (s, Inl Not_Positive)
             | Some x \<Rightarrow>
                 if x \<le> 0 then (s, Inl Not_Positive)
                 else (let tarih = (case p_transaction_date p of Some d \<Rightarrow> d | None \<Rightarrow> bugun e);
                           yeni = (\<lambda>ws_kaynak. \<lparr>tx_id = next_key tx_id (transactions s), tx_user = u,
                             tx_ws = yazma_workspace_id e s u ws_kaynak, tx_account = p_account_id p,
                             tx_type = k, tx_amount = D_float x, tx_category = p_category p,
                             tx_description = p_description p, tx_date = tarih,
                             is_card_expense = (p_is_card_expense p = Some True)\<rparr>)
                       in if p_account_id p = None \<or> p_account_id p = Some 0
                          then (s\<lparr>transactions := transactions s @ [yeni None]\<rparr>,
                                Inr (Txn_Added (next_key tx_id (transactions s)) 0))
                          else (case find_acc e s u (the (p_account_id p)) of
                              None \<Rightarrow> (s, Inl Account_Not_Found)
                            | Some a \<Rightarrow>
                                if is_emanet a then (s, Inl Emanet_Refused)
                                else (let delta = (if p_auto_update_balance p = Some True
                                        then coach_delta (acc_type a) k (D_float x) else 0)
                                      in (s\<lparr>transactions := transactions s @ [yeni (acc_ws a)],
                                            accounts := credit (acc_id a) delta (accounts s)\<rparr>,
                                          Inr (Txn_Added (next_key tx_id (transactions s)) delta)))))))
      | _ \<Rightarrow> (s, Inl Missing_Fields))"

definition execute_mark_debt_paid :: handler where
  "execute_mark_debt_paid e s u p =
     (case p_debt_id p of None \<Rightarrow> (s, Inl Missing_Fields)
      | Some i \<Rightarrow>
          (case query_debt u (yazma_workspace_id e s u None) i (debts s) of
             None \<Rightarrow> (s, Inl Debt_Not_Found)
           | Some d \<Rightarrow>
               if is_paid d then (s, Inl Already_Paid)
               else (let d1 = d\<lparr>paid_date := Some (case p_paid_date p of Some t \<Rightarrow> t | None \<Rightarrow> bugun e),
                                is_paid := True\<rparr>;
                         (accs, d2, res) = senkronize_nakit u (yazma_workspace_id e s u None) d1 (oku d) (accounts s)
                     in (s\<lparr>accounts := accs, debts := upd_row pd_id (pd_id d) (\<lambda>_. d2) (debts s)\<rparr>,
                         Inr (Debt_Paid (pd_id d) (cash_effect res))))))"

text \<open>\<open>payload.get("card_account_id") or payload.get("account_id")\<close>\<close>

definition or_id :: "nat option \<Rightarrow> nat option \<Rightarrow> nat option" where
  "or_id a b = (if a = None \<or> a = Some 0 then b else a)"

text \<open>A non-finite amount, which the payload contract excludes, is \<open>Unexpected\<close> here.\<close>

definition execute_pay_credit_card :: handler where
  "execute_pay_credit_card e s u p =
     (case (or_id (p_card_account_id p) (p_account_id p), p_amount p) of
        (Some ci, Some v) \<Rightarrow>
          (case v of Fin x \<Rightarrow>
             if fl (D_float x) \<le> 0 then (s, Inl Not_Positive)
             else (case List.find (\<lambda>a. acc_id a = ci \<and> acc_in_scope u (yazma_workspace_id e s u None) a
                       \<and> acc_type a = Credit_Card) (accounts s) of
                 None \<Rightarrow> (s, Inl Card_Not_Found)
               | Some c \<Rightarrow>
                   (let amount = fl (D_float x);
                        source = (case p_source_account_id p of Some si \<Rightarrow> find_acc e s u si
                          | None \<Rightarrow> varsayilan_nakit_hesap u (yazma_workspace_id e s u None) (accounts s))
                    in (case source of None \<Rightarrow> (s, Inl No_Source)
                        | Some src \<Rightarrow>
                            (s\<lparr>accounts := credit (acc_id src) (- D_float amount)
                                 (credit (acc_id c) (- D_float amount) (accounts s))\<rparr>,
                             Inr (Card_Paid (fl (acc_balance c) < amount) (acc_balance c - D_float amount)
                               (acc_balance src - D_float amount))))))
           | _ \<Rightarrow> (s, Inl Unexpected))
      | _ \<Rightarrow> (s, Inl Missing_Fields))"

text \<open>The holding after the sale (\<open>inv.lot_count\<close>, \<open>balance\<close>, \<open>current_price\<close>).\<close>

definition after_sale :: "int \<Rightarrow> sale \<Rightarrow> rat \<Rightarrow> account \<Rightarrow> account" where
  "after_sale now sim price a = a\<lparr>lot_count := Some (kalan_lot sim),
     acc_balance := through_float (kalan_deger sim), current_price := Some price,
     last_price_update := Some now\<rparr>"

definition sell_validated ::
  "env \<Rightarrow> db \<Rightarrow> nat \<Rightarrow> payload \<Rightarrow> account \<Rightarrow> rat \<Rightarrow> rat \<Rightarrow> rat \<Rightarrow> db \<times> (action_error + action_result)" where
  "sell_validated e s u p yat sell cost price =
     (case simulate_partial_sale (case lot_count yat of Some l \<Rightarrow> l | None \<Rightarrow> 0) cost price sell stopaj_orani of
        None \<Rightarrow> (s, Inl Unexpected)
      | Some sim \<Rightarrow>
          (case p_credit_to_account_id p of
             None \<Rightarrow> (s, Inl No_Credit_Account)
           | Some ci \<Rightarrow>
               if ci = 0 then (s, Inl No_Credit_Account)
               else (case find_acc e s u ci of None \<Rightarrow> (s, Inl Account_Not_Found)
                 | Some c \<Rightarrow>
                     if is_emanet c then (s, Inl Emanet_Refused)
                     else (s\<lparr>accounts := credit (acc_id c) (through_float (net_eline_gecen sim))
                            (upd_row acc_id (acc_id yat) (after_sale (simdi e) sim price) (accounts s))\<rparr>,
                           Inr (Sold sim)))))"

definition execute_sell_investment :: handler where
  "execute_sell_investment e s u p =
     (case (p_investment_id p, p_lots_to_sell p) of
        (Some i, Some lv) \<Rightarrow>
          (case find_acc e s u i of None \<Rightarrow> (s, Inl Account_Not_Found)
           | Some yat \<Rightarrow>
               if acc_type yat \<noteq> Investment then (s, Inl Not_Investment)
               else if is_emanet yat then (s, Inl Emanet_Refused)
               else (case parse_finite lv of None \<Rightarrow> (s, Inl Not_Finite)
                 | Some sell \<Rightarrow>
                     if sell \<le> 0 then (s, Inl Not_Positive)
                     else if (case lot_count yat of Some l \<Rightarrow> l | None \<Rightarrow> 0) < sell then (s, Inl Insufficient_Lots)
                     else (case (cost_per_lot yat, current_price yat) of
                         (Some cost, Some cur) \<Rightarrow>
                           (case p_actual_price p of
                              None \<Rightarrow> sell_validated e s u p yat sell cost cur
                            | Some ap \<Rightarrow> (case parse_finite ap of None \<Rightarrow> (s, Inl Not_Finite)
                                | Some x \<Rightarrow> sell_validated e s u p yat sell cost (D_float x)))
                       | _ \<Rightarrow> (s, Inl No_Price))))
      | _ \<Rightarrow> (s, Inl Missing_Fields))"

definition execute_update_fund_price :: handler where
  "execute_update_fund_price e s u p =
     (case (p_account_id p, p_new_price p) of
        (Some i, Some v) \<Rightarrow> (case parse_finite v of None \<Rightarrow> (s, Inl Not_Finite)
          | Some x \<Rightarrow> update_fund_price_manual (simdi e) s i x (Some u))
      | _ \<Rightarrow> (s, Inl Missing_Fields))"

definition execute_add_master_checkpoint :: handler where
  "execute_add_master_checkpoint e s u p =
     (if \<not> req_str (p_title p) \<or> \<not> req_str (p_description p) \<or> \<not> req_str (p_checkpoint_type p)
      then (s, Inl Missing_Fields)
      else (case checkpoint_type_of (the (p_checkpoint_type p)) of
          None \<Rightarrow> (s, Inl Bad_Checkpoint_Type)
        | Some t \<Rightarrow>
            (let k = next_key cp_id (checkpoints s) in
             (s\<lparr>checkpoints := checkpoints s @
                 [\<lparr>cp_id = k, cp_user = u, cp_ws = yazma_workspace_id e s u None, cp_title = the (p_title p),
                   cp_description = the (p_description p), cp_type = t,
                   cp_priority = (case p_priority p of Some n \<Rightarrow> n | None \<Rightarrow> 2), cp_active = True,
                   cp_system = False, cp_rule_type = None, cp_rule_params = None\<rparr>]\<rparr>,
              Inr (Checkpoint_Added k)))))"

text \<open>\<open>ACTION_HANDLERS\<close>\<close>

definition run_handler :: "action_type \<Rightarrow> handler" where
  "run_handler a = (case a of
     Update_Account_Balance \<Rightarrow> execute_update_account_balance
   | Add_Transaction \<Rightarrow> execute_add_transaction
   | Mark_Debt_Paid \<Rightarrow> execute_mark_debt_paid
   | Pay_Credit_Card \<Rightarrow> execute_pay_credit_card
   | Sell_Investment \<Rightarrow> execute_sell_investment
   | Update_Fund_Price \<Rightarrow> execute_update_fund_price
   | Add_Master_Checkpoint \<Rightarrow> execute_add_master_checkpoint)"

subsection \<open>User rules\<close>

text \<open>app/user_rules.py\<close>

definition nakit_toplami :: "db \<Rightarrow> nat \<Rightarrow> nat option \<Rightarrow> rat" where
  "nakit_toplami s u w = (\<Sum>a\<leftarrow>filter (\<lambda>a. acc_in_scope u w a \<and> acc_type a = Cash) (accounts s). acc_balance a)"

definition amount_or_0 :: "payload \<Rightarrow> rat" where
  "amount_or_0 p = (case p_amount p of Some (Fin x) \<Rightarrow> \<bar>D_float x\<bar> | _ \<Rightarrow> 0)"

text \<open>The other names the code lists (\<open>pay_debt\<close>, \<open>pay_card\<close>, \<open>pay_loan_installment\<close>) are no
  action types, so of that branch \<open>mark_debt_paid\<close> remains.\<close>

definition harcama_tutari :: "action_type \<Rightarrow> payload \<Rightarrow> rat" where
  "harcama_tutari a p = (case a of
     Add_Transaction \<Rightarrow>
       if p_transaction_type p \<noteq> Some ''expense'' then 0
       else if p_is_card_expense p = Some True then 0 else amount_or_0 p
   | Mark_Debt_Paid \<Rightarrow> amount_or_0 p
   | _ \<Rightarrow> 0)"

definition etkilenen_hesap_id :: "payload \<Rightarrow> nat option" where
  "etkilenen_hesap_id p = (case p_account_id p of Some i \<Rightarrow> Some i
     | None \<Rightarrow> (case p_target_account_id p of Some i \<Rightarrow> Some i
       | None \<Rightarrow> (case p_credit_account_id p of Some i \<Rightarrow> Some i | None \<Rightarrow> p_from_account_id p)))"

definition min_cash_floor :: "db \<Rightarrow> nat \<Rightarrow> nat option \<Rightarrow> action_type \<Rightarrow> payload \<Rightarrow> rat \<Rightarrow> bool" where
  "min_cash_floor s u w a p taban =
     (if taban \<le> 0 then False
      else if harcama_tutari a p \<le> 0 then False
      else nakit_toplami s u w - harcama_tutari a p < taban)"

definition account_untouchable :: "payload \<Rightarrow> nat option \<Rightarrow> bool" where
  "account_untouchable p korunan = (case korunan of None \<Rightarrow> False | Some k \<Rightarrow> etkilenen_hesap_id p = Some k)"

definition max_single_expense :: "action_type \<Rightarrow> payload \<Rightarrow> rat \<Rightarrow> bool" where
  "max_single_expense a p tavan =
     (if tavan \<le> 0 \<or> a \<noteq> Add_Transaction then False
      else if p_transaction_type p \<noteq> Some ''expense'' then False
      else tavan < amount_or_0 p)"

definition rule_violated :: "db \<Rightarrow> nat \<Rightarrow> nat option \<Rightarrow> action_type \<Rightarrow> payload \<Rightarrow> rule_spec \<Rightarrow> bool" where
  "rule_violated s u w a p r = (case r of
     Min_Cash_Floor x \<Rightarrow> min_cash_floor s u w a p x
   | Account_Untouchable i \<Rightarrow> account_untouchable p i
   | Max_Single_Expense x \<Rightarrow> max_single_expense a p x
   | Unknown_Rule \<Rightarrow> False
   | Bad_Amount \<Rightarrow> False)"

text \<open>The active structured rules of the scope, by priority and id; the first one violated refuses the
  action under its title, and one whose amount is not a number makes the evaluator raise.\<close>

definition active_rules :: "db \<Rightarrow> nat \<Rightarrow> nat option \<Rightarrow> master_checkpoint list" where
  "active_rules s u w = sort_key cp_priority
     (filter (\<lambda>c. scope_filter u w (cp_user c) (cp_ws c) \<and> cp_active c \<and> cp_rule c \<noteq> None) (checkpoints s))"

datatype rule_outcome = Allowed | Violates string | Raises

definition enforce_user_rules :: "db \<Rightarrow> nat \<Rightarrow> action_type \<Rightarrow> payload \<Rightarrow> nat option \<Rightarrow> rule_outcome" where
  "enforce_user_rules s u a p w =
     (case List.find (\<lambda>c. cp_rule c = Some Bad_Amount \<or> rule_violated s u w a p (the (cp_rule c))) (active_rules s u w) of
        None \<Rightarrow> Allowed
      | Some c \<Rightarrow> if cp_rule c = Some Bad_Amount then Raises else Violates (cp_title c))"

lemma enforce_user_rules_Allowed:
  "enforce_user_rules s u a p w = Allowed \<longleftrightarrow>
     (\<forall>c \<in> set (checkpoints s). scope_filter u w (cp_user c) (cp_ws c) \<and> cp_active c \<longrightarrow>
        (\<forall>r. cp_rule c = Some r \<longrightarrow> r \<noteq> Bad_Amount \<and> \<not> rule_violated s u w a p r))"
proof -
  have "enforce_user_rules s u a p w = Allowed \<longleftrightarrow>
    List.find (\<lambda>c. cp_rule c = Some Bad_Amount \<or> rule_violated s u w a p (the (cp_rule c))) (active_rules s u w) = None"
    by (simp add: enforce_user_rules_def split: option.split)
  then show ?thesis by (auto simp: find_None_prop active_rules_def)
qed

end
