(* ===== verification/Action_Laws.thy ===== *)
theory Action_Laws
  imports Actions
begin

text \<open>
  What the handlers of theory Actions guarantee: a refusal writes nothing, a payload that passed
  the contract is never refused for its shape, the sale splits its proceeds without loss, emanet
  accounts (MC1) are out of reach of five of the seven handlers, and where the sixth,
  \<open>pay_credit_card\<close>, and the user rules fall short of that.
\<close>

subsection \<open>Refusals write nothing\<close>

lemma sell_validated_err: "sell_validated e s u p yat n c x = (s', Inl err) \<Longrightarrow> s' = s"
  by (auto simp: sell_validated_def split: option.splits if_splits)

lemma update_fund_price_err: "update_fund_price_manual t s i x w = (s', Inl err) \<Longrightarrow> s' = s"
  by (auto simp: update_fund_price_manual_def Let_def split: option.splits if_splits)

lemma sell_err: "execute_sell_investment e s u p = (s', Inl err) \<Longrightarrow> s' = s"
  unfolding execute_sell_investment_def
  by (auto dest: sell_validated_err split: option.splits if_splits)

lemma mark_err: "execute_mark_debt_paid e s u p = (s', Inl err) \<Longrightarrow> s' = s"
  by (auto simp: execute_mark_debt_paid_def Let_def split: option.splits if_splits prod.splits)

lemma update_balance_err: "execute_update_account_balance e s u p = (s', Inl err) \<Longrightarrow> s' = s"
  by (auto simp: execute_update_account_balance_def split: option.splits if_splits)

lemma add_transaction_err: "execute_add_transaction e s u p = (s', Inl err) \<Longrightarrow> s' = s"
  by (auto simp: execute_add_transaction_def Let_def split: option.splits if_splits)

lemma pay_card_err: "execute_pay_credit_card e s u p = (s', Inl err) \<Longrightarrow> s' = s"
  by (auto simp: execute_pay_credit_card_def Let_def split: option.splits if_splits fnum.splits)

lemma fund_price_err: "execute_update_fund_price e s u p = (s', Inl err) \<Longrightarrow> s' = s"
  by (auto simp: execute_update_fund_price_def dest: update_fund_price_err split: option.splits)

lemma checkpoint_err: "execute_add_master_checkpoint e s u p = (s', Inl err) \<Longrightarrow> s' = s"
  by (auto simp: execute_add_master_checkpoint_def Let_def split: option.splits if_splits)

lemmas handler_err = sell_err mark_err update_balance_err add_transaction_err pay_card_err
  fund_price_err checkpoint_err

lemma run_handler_err: "run_handler a e s u p = (s', Inl err) \<Longrightarrow> s' = s"
  by (cases a) (auto simp: run_handler_def dest: handler_err)

subsection \<open>The sale\<close>

lemma stopaj_orani_range: "0 < stopaj_orani" "stopaj_orani < 1"
  by (simp_all add: stopaj_orani_def)

lemma simulate_partial_sale_Some:
  assumes "simulate_partial_sale lots cost price sell oran = Some sim"
  shows "0 < sell" "sell \<le> lots" "0 \<le> price" "0 \<le> cost"
    "satis_tutari sim = qhe 2 (dmul (D_float sell) price)"
    "satis_maliyeti sim = qhe 2 (dmul (D_float sell) cost)"
    "brut_kar sim = satis_tutari sim - satis_maliyeti sim"
    "stopaj sim = (if 0 < brut_kar sim then qhe 2 (dmul (brut_kar sim) oran) else 0)"
    "net_kar sim = brut_kar sim - stopaj sim"
    "net_eline_gecen sim = satis_tutari sim - stopaj sim"
    "kalan_lot sim = fround 4 (fsub lots sell)"
    "kalan_deger sim = qhe 2 (dmul (D_float (kalan_lot sim)) price)"
    "on_grid 2 (brut_kar sim)" "on_grid 2 (stopaj sim)" "on_grid 2 (satis_tutari sim)"
proof -
  have z: "on_grid 2 0" using on_grid_of_int [of 2 0] by simp
  define tut mal where "tut = qhe 2 (dmul (D_float sell) price)" "mal = qhe 2 (dmul (D_float sell) cost)"
  have g: "on_grid 2 tut" "on_grid 2 mal" "on_grid 2 (tut - mal)"
    by (simp_all add: tut_mal_def on_grid_diff)
  define stp where "stp = (if 0 < tut - mal then qhe 2 (dmul (tut - mal) oran) else 0)"
  have gs: "on_grid 2 stp" by (simp add: stp_def z)
  note grid = qhe_grid [OF g(3)] qhe_grid [OF on_grid_diff [OF g(3) gs]] qhe_grid [OF on_grid_diff [OF g(1) gs]]
  have c: "\<not> (sell \<le> 0 \<or> price < 0 \<or> cost < 0 \<or> lots < sell)"
    using assms by (simp add: simulate_partial_sale_def split: if_splits)
  have "simulate_partial_sale lots cost price sell oran = Some \<lparr>satis_tutari = tut, satis_maliyeti = mal,
      brut_kar = tut - mal, stopaj = stp, net_kar = tut - mal - stp, net_eline_gecen = tut - stp,
      kalan_lot = fround 4 (fsub lots sell),
      kalan_deger = qhe 2 (dmul (D_float (fround 4 (fsub lots sell))) price)\<rparr>"
    by (simp only: simulate_partial_sale_def Let_def c if_False tut_mal_def [symmetric] grid(1)
        stp_def [symmetric] grid(2,3))
  then have sim: "sim = \<lparr>satis_tutari = tut, satis_maliyeti = mal, brut_kar = tut - mal, stopaj = stp,
      net_kar = tut - mal - stp, net_eline_gecen = tut - stp, kalan_lot = fround 4 (fsub lots sell),
      kalan_deger = qhe 2 (dmul (D_float (fround 4 (fsub lots sell))) price)\<rparr>"
    using assms by simp
  show "0 < sell" "sell \<le> lots" "0 \<le> price" "0 \<le> cost" using c by auto
  show "satis_tutari sim = qhe 2 (dmul (D_float sell) price)"
    "satis_maliyeti sim = qhe 2 (dmul (D_float sell) cost)"
    "brut_kar sim = satis_tutari sim - satis_maliyeti sim"
    "stopaj sim = (if 0 < brut_kar sim then qhe 2 (dmul (brut_kar sim) oran) else 0)"
    "net_kar sim = brut_kar sim - stopaj sim"
    "net_eline_gecen sim = satis_tutari sim - stopaj sim"
    "kalan_lot sim = fround 4 (fsub lots sell)"
    "kalan_deger sim = qhe 2 (dmul (D_float (kalan_lot sim)) price)"
    "on_grid 2 (brut_kar sim)" "on_grid 2 (stopaj sim)" "on_grid 2 (satis_tutari sim)"
    using g gs by (simp_all add: sim tut_mal_def stp_def)
qed

text \<open>A simulated sale splits the proceeds into what the seller gets and the withholding tax to
  the kurus; the tax is never negative, is due only on a profit and never exceeds it, so a sale at a
  profit returns at least its cost.\<close>

theorem sale_splits_proceeds:
  assumes "simulate_partial_sale lots cost price sell stopaj_orani = Some sim"
    and "\<bar>brut_kar sim\<bar> < 10 ^ 26"
  shows "net_eline_gecen sim + stopaj sim = satis_tutari sim \<and> 0 \<le> stopaj sim \<and>
    (brut_kar sim \<le> 0 \<longrightarrow> stopaj sim = 0) \<and> stopaj sim \<le> max 0 (brut_kar sim) \<and>
    (0 < brut_kar sim \<longrightarrow> satis_maliyeti sim \<le> net_eline_gecen sim) \<and>
    0 \<le> satis_tutari sim \<and> 0 \<le> kalan_lot sim \<and> 0 \<le> kalan_deger sim"
proof -
  note S = simulate_partial_sale_Some [OF assms(1)]
  have tax: "0 \<le> stopaj sim \<and> stopaj sim \<le> max 0 (brut_kar sim)"
  proof (cases "0 < brut_kar sim")
    case True
    have "dctx (brut_kar sim * stopaj_orani) \<le> dctx (brut_kar sim)"
      using True stopaj_orani_range by (intro dctx.r_mono) (simp add: mult_left_le)
    also have "\<dots> = brut_kar sim" using S(13) assms(2) by (intro dctx_grid [of 2]) simp_all
    finally have "qhe 2 (dmul (brut_kar sim) stopaj_orani) \<le> qhe 2 (brut_kar sim)"
      unfolding dmul_def by (rule qhe_mono)
    moreover have "0 \<le> qhe 2 (dmul (brut_kar sim) stopaj_orani)"
      using True stopaj_orani_range unfolding dmul_def
      by (intro qhe.r_nonneg dctx.r_nonneg) simp
    ultimately show ?thesis using True S(8) qhe_grid [OF S(13)] by simp
  next
    case False
    then show ?thesis using S(8) by simp
  qed
  have "0 \<le> satis_tutari sim"
    unfolding S(5) dmul_def using S(1,3) D_float_sign [of sell]
    by (intro qhe.r_nonneg dctx.r_nonneg) simp
  moreover have "0 \<le> kalan_lot sim"
    unfolding S(11) fsub_def using S(2) by (intro fround.r_nonneg fl.r_nonneg) simp
  moreover from this have "0 \<le> kalan_deger sim"
    unfolding S(12) dmul_def using S(3) D_float_sign
    by (intro qhe.r_nonneg dctx.r_nonneg) simp
  ultimately show ?thesis using tax S(7-10) by auto
qed

lemma sale_splits_proceeds_witness:
  "\<exists>sim. simulate_partial_sale 10 4000 5000 4 stopaj_orani = Some sim \<and> net_eline_gecen sim + stopaj sim = satis_tutari sim"
proof -
  have d: "D_float 4 = 4" by code_simp
  have "dmul 4 5000 = 20000" "dmul 4 4000 = 16000"
    unfolding dmul_def by (rule trans [OF dctx_grid [of 0]]; simp add: on_grid_def)+
  then have q: "qhe 2 (dmul 4 5000) = 20000" "qhe 2 (dmul 4 4000) = 16000"
    by (simp_all add: qhe_grid on_grid_def)
  obtain sim where sim: "simulate_partial_sale 10 4000 5000 4 stopaj_orani = Some sim"
    by (simp add: simulate_partial_sale_def Let_def)
  have "brut_kar sim = 4000"
    using simulate_partial_sale_Some(5-7) [OF sim] by (simp add: d q)
  with sale_splits_proceeds [OF sim] sim show ?thesis by simp
qed

subsection \<open>The contract is enough\<close>

text \<open>The refusals that are about the shape of the payload.\<close>

definition shape_error :: "action_error \<Rightarrow> bool" where
  "shape_error e = (e \<in> {Missing_Fields, Not_Finite, Not_Positive, Bad_Checkpoint_Type, Unexpected})"

lemma finans_tutar_Fin: "finans_tutar v \<Longrightarrow> \<exists>x. v = Some (Fin x) \<and> 0 < x"
  by (auto simp: finans_tutar_def split: option.splits fnum.splits)

lemma finans_bakiye_Fin: "finans_bakiye v \<Longrightarrow> \<exists>x. v = Some (Fin x)"
  by (auto simp: finans_bakiye_def split: option.splits fnum.splits)

lemma req_id_Some: "req_id i \<Longrightarrow> \<exists>k. i = Some (Suc k)"
  by (cases i) (auto simp: req_id_def gr0_conv_Suc)

lemma sell_validated_shape:
  assumes "0 < sell" "sell \<le> (case lot_count yat of Some l \<Rightarrow> l | None \<Rightarrow> 0)" "0 \<le> cost" "0 \<le> price"
    "snd (sell_validated e s u p yat sell cost price) = Inl err"
  shows "\<not> shape_error err"
proof -
  obtain sim where "simulate_partial_sale (case lot_count yat of Some l \<Rightarrow> l | None \<Rightarrow> 0) cost price sell stopaj_orani = Some sim"
    using assms(1-4) by (simp add: simulate_partial_sale_def Let_def)
  then show ?thesis using assms(5)
    by (auto simp: sell_validated_def shape_error_def split: option.splits if_splits)
qed

definition prices_ok :: "db \<Rightarrow> bool" where
  "prices_ok s \<longleftrightarrow> list_all (\<lambda>a. (case cost_per_lot a of None \<Rightarrow> True | Some x \<Rightarrow> 0 \<le> x) \<and>
     (case current_price a of None \<Rightarrow> True | Some x \<Rightarrow> 0 \<le> x)) (accounts s)"

lemma find_acc_in: "find_acc e s u i = Some a \<Longrightarrow> a \<in> set (accounts s) \<and> acc_id a = i"
  using query_account_Some by (fastforce simp: find_acc_def)

lemma sell_shape:
  assumes d: "dogrula Sell_Investment p" and ok: "prices_ok s"
    and r: "snd (execute_sell_investment e s u p) = Inl err"
  shows "\<not> shape_error err"
proof -
  obtain i where i: "p_investment_id p = Some (Suc i)" using d req_id_Some by (auto simp: dogrula_def)
  obtain x where x: "p_lots_to_sell p = Some (Fin x)" "0 < x"
    using d finans_tutar_Fin by (auto simp: dogrula_def)
  show ?thesis
  proof (cases "find_acc e s u (Suc i)")
    case None
    then show ?thesis using r by (auto simp: execute_sell_investment_def i x shape_error_def)
  next
    case (Some yat)
    have c: "0 \<le> c" if "cost_per_lot yat = Some c" for c
      using ok find_acc_in [OF Some] that by (force simp: prices_ok_def list_all_iff)
    have cp: "0 \<le> c" if "current_price yat = Some c" for c
      using ok find_acc_in [OF Some] that by (force simp: prices_ok_def list_all_iff)
    show ?thesis
    proof (cases "acc_type yat \<noteq> Investment \<or> is_emanet yat \<or>
        (case lot_count yat of Some l \<Rightarrow> l | None \<Rightarrow> 0) < x \<or> cost_per_lot yat = None \<or> current_price yat = None")
      case True
      then show ?thesis using r x
        by (auto simp: execute_sell_investment_def i Some shape_error_def split: option.splits if_splits)
    next
      case False
      then obtain k l where kl: "cost_per_lot yat = Some k" "current_price yat = Some l" by auto
      show ?thesis
      proof (cases "p_actual_price p")
        case None
        then show ?thesis using r x False kl c cp
          by (intro sell_validated_shape [of x yat k l e s u p]) (auto simp: execute_sell_investment_def i Some)
      next
        case (Some v)
        then obtain y where y: "v = Fin y" "0 < y"
          using d finans_tutar_Fin by (force simp: dogrula_def finans_opt_tutar_def)
        then show ?thesis using r x False kl c D_float_sign [of y] \<open>find_acc e s u (Suc i) = Some yat\<close> Some
          by (intro sell_validated_shape [of x yat k "D_float y" e s u p])
            (auto simp: execute_sell_investment_def i)
      qed
    qed
  qed
qed

text \<open>A payload that passed the contract when it was proposed is never refused for its shape
  when it is executed (BUG #266: no proposal that cannot be applied), for every action but
  pay_credit_card; only the state of the books can refuse it. For pay_credit_card it holds
  once the payload names a card.\<close>

theorem validated_payload_well_shaped:
  assumes "dogrula a p" and "prices_ok s"
    and "a = Pay_Credit_Card \<Longrightarrow> or_id (p_card_account_id p) (p_account_id p) \<noteq> None"
    and "snd (run_handler a e s u p) = Inl err"
  shows "\<not> shape_error err"
proof (cases a)
  case Update_Account_Balance
  then have "req_id (p_account_id p)" "finans_bakiye (p_new_balance p)" using assms(1) by (simp_all add: dogrula_def)
  then obtain i x where "p_account_id p = Some (Suc i)" "p_new_balance p = Some (Fin x)"
    using req_id_Some finans_bakiye_Fin by blast
  then show ?thesis using assms(4) Update_Account_Balance
    by (auto simp: run_handler_def execute_update_account_balance_def shape_error_def
        split: option.splits if_splits)
next
  case Add_Transaction
  then obtain t where t: "p_transaction_type p = Some t" "txn_type_of t \<noteq> None" and "finans_tutar (p_amount p)"
    using assms(1) by (auto simp: dogrula_def split: option.splits)
  then obtain k x where "txn_type_of t = Some k" "p_amount p = Some (Fin x)" "0 < x"
    using finans_tutar_Fin by blast
  then show ?thesis using assms(4) Add_Transaction t(1)
    by (auto simp: run_handler_def execute_add_transaction_def Let_def shape_error_def
        split: option.splits if_splits)
next
  case Mark_Debt_Paid
  then obtain i where "p_debt_id p = Some (Suc i)"
    using assms(1) req_id_Some by (auto simp: dogrula_def)
  then show ?thesis using assms(4) Mark_Debt_Paid
    by (auto simp: run_handler_def execute_mark_debt_paid_def Let_def shape_error_def
        split: option.splits if_splits prod.splits)
next
  case Pay_Credit_Card
  then have "finans_tutar (p_amount p)" using assms(1) by (simp add: dogrula_def)
  then obtain x where x: "p_amount p = Some (Fin x)" "0 < x"
    using finans_tutar_Fin by blast
  then have "0 < fl (D_float x)" by (intro fl_pos D_float_pos)
  then show ?thesis using assms(3,4) x(1) Pay_Credit_Card
    by (auto simp: run_handler_def execute_pay_credit_card_def Let_def shape_error_def
        split: option.splits if_splits)
next
  case Sell_Investment
  then show ?thesis using assms sell_shape by (simp add: run_handler_def)
next
  case Update_Fund_Price
  then have "req_id (p_account_id p)" "finans_tutar (p_new_price p)" using assms(1) by (simp_all add: dogrula_def)
  then obtain i x where "p_account_id p = Some (Suc i)" "p_new_price p = Some (Fin x)" "0 < x"
    using req_id_Some finans_tutar_Fin by blast
  then show ?thesis using assms(4) Update_Fund_Price
    by (auto simp: run_handler_def execute_update_fund_price_def shape_error_def
        update_fund_price_manual_def Let_def split: option.splits if_splits)
next
  case Add_Master_Checkpoint
  then show ?thesis using assms
    by (auto simp: run_handler_def dogrula_def execute_add_master_checkpoint_def shape_error_def Let_def
        req_str_def checkpoint_type_of_def split: option.splits if_splits)
qed

definition ex_env :: env where
  "ex_env = \<lparr>aktif = Some 3, bugun = Date 2026 9 1, simdi = 0\<rparr>"

lemma validated_payload_well_shaped_witness:
  "\<not> shape_error Account_Not_Found \<and>
   snd (run_handler Update_Account_Balance ex_env empty_db 7
     (empty_payload\<lparr>p_account_id := Some 9, p_new_balance := Some (Fin 100)\<rparr>)) = Inl Account_Not_Found"
proof -
  let ?p = "empty_payload\<lparr>p_account_id := Some 9, p_new_balance := Some (Fin 100)\<rparr>"
  have "dogrula Update_Account_Balance ?p"
    by (simp add: dogrula_def empty_payload_def req_id_def finans_bakiye_def fin_max_def only_fields_def)
  moreover have "prices_ok empty_db" by (simp add: prices_ok_def)
  moreover have r: "snd (run_handler Update_Account_Balance ex_env empty_db 7 ?p) = Inl Account_Not_Found"
    by (simp add: run_handler_def execute_update_account_balance_def empty_payload_def find_acc_def
        query_account_def)
  ultimately have "\<not> shape_error Account_Not_Found"
    using validated_payload_well_shaped [of Update_Account_Balance ?p empty_db ex_env 7] by simp
  with r show ?thesis by simp
qed

subsection \<open>MC1: emanet accounts\<close>

text \<open>The rows of \<open>accs\<close> that are emanet are still there, unchanged.\<close>

definition emanet_kept :: "account list \<Rightarrow> account list \<Rightarrow> bool" where
  "emanet_kept accs accs' \<longleftrightarrow> list_all (\<lambda>a. is_emanet a \<longrightarrow> a \<in> set accs') accs"

lemma emanet_kept_refl [simp]: "emanet_kept accs accs"
  by (simp add: emanet_kept_def list_all_iff)

lemma emanet_kept_upd:
  assumes d: "distinct (map acc_id accs)" and a: "a \<in> set accs" "\<not> is_emanet a"
  shows "emanet_kept accs (upd_row acc_id (acc_id a) f accs)"
proof -
  have "b \<in> set (upd_row acc_id (acc_id a) f accs)" if b: "b \<in> set accs" "is_emanet b" for b
  proof -
    have "acc_id b \<noteq> acc_id a" using b a d by (metis distinct_map inj_on_def)
    then show ?thesis using b by (auto simp: set_upd_row image_iff)
  qed
  then show ?thesis by (simp add: emanet_kept_def list_all_iff)
qed

lemma emanet_kept_trans_upd:
  assumes k: "emanet_kept accs accs'" and d: "distinct (map acc_id accs)"
    and a: "a \<in> set accs" "\<not> is_emanet a"
  shows "emanet_kept accs (upd_row acc_id (acc_id a) f accs')"
proof -
  have "b \<in> set (upd_row acc_id (acc_id a) f accs')" if b: "b \<in> set accs" "is_emanet b" for b
  proof -
    have "acc_id b \<noteq> acc_id a" using b a d by (metis distinct_map inj_on_def)
    moreover have "b \<in> set accs'" using k b by (simp add: emanet_kept_def list_all_iff)
    ultimately show ?thesis by (auto simp: set_upd_row image_iff)
  qed
  then show ?thesis by (simp add: emanet_kept_def list_all_iff)
qed

lemma emanet_kept_acc:
  "find_acc e s u i = Some a \<Longrightarrow> \<not> is_emanet a \<Longrightarrow> distinct (map acc_id (accounts s)) \<Longrightarrow>
   emanet_kept (accounts s) (upd_row acc_id i f (accounts s))"
  using emanet_kept_upd find_acc_in by metis

lemma emanet_kept_found:
  "find_acc e s u i = Some a \<Longrightarrow> \<not> is_emanet a \<Longrightarrow> distinct (map acc_id (accounts s)) \<Longrightarrow>
   emanet_kept (accounts s) (upd_row acc_id (acc_id a) f (accounts s))"
  using emanet_kept_upd find_acc_in by metis

lemma sell_emanet:
  assumes d: "distinct (map acc_id (accounts s))"
    and r: "execute_sell_investment e s u p = (s', res)"
  shows "emanet_kept (accounts s) (accounts s')"
proof (cases "\<exists>err. res = Inl err")
  case True
  then show ?thesis using sell_err r by fastforce
next
  case False
  have v: "emanet_kept (accounts s) (accounts (fst (sell_validated e s u p yat sell cost price)))"
    if "yat \<in> set (accounts s)" "\<not> is_emanet yat" for yat sell cost price
  proof -
    have "emanet_kept (accounts s) (credit (acc_id c) x (upd_row acc_id (acc_id yat) f (accounts s)))"
      if "find_acc e s u ci = Some c" "\<not> is_emanet c" for c ci x f
      using emanet_kept_trans_upd [OF emanet_kept_upd [OF d] d] that find_acc_in
        \<open>yat \<in> set (accounts s)\<close> \<open>\<not> is_emanet yat\<close> by metis
    then show ?thesis
      by (auto simp: sell_validated_def split: option.splits)
  qed
  obtain i lv yat sell cost cur price where *: "find_acc e s u i = Some yat" "\<not> is_emanet yat"
    "sell_validated e s u p yat sell cost price = (s', res)"
    using r False unfolding execute_sell_investment_def
    by (fastforce split: option.splits if_splits)
  then show ?thesis using v [of yat sell cost price] find_acc_in [OF *(1)] by (metis fst_conv)
qed

lemma mark_debt_emanet:
  assumes d: "distinct (map acc_id (accounts s))" and ok: "list_all (debt_ok (accounts s)) (debts s)"
    and r: "execute_mark_debt_paid e s u p = (s', res)"
  shows "emanet_kept (accounts s) (accounts s')"
proof (cases "\<exists>i db. p_debt_id p = Some i \<and>
    query_debt u (yazma_workspace_id e s u None) i (debts s) = Some db \<and> \<not> is_paid db")
  case False
  then have "s' = s" using r
    by (cases "p_debt_id p") (auto simp: execute_mark_debt_paid_def Let_def split: option.splits if_splits)
  then show ?thesis by simp
next
  case True
  define w where "w = yazma_workspace_id e s u None"
  from True obtain i db where i: "p_debt_id p = Some i" and db: "query_debt u w i (debts s) = Some db" "\<not> is_paid db"
    by (auto simp: w_def)
  have none: "settlement_account db = None"
    using ok query_debt_Some [OF db(1)] db(2)
    by (auto simp: list_all_iff debt_ok_def split: option.splits)
  let ?d1 = "db\<lparr>paid_date := Some (case p_paid_date p of Some t \<Rightarrow> t | None \<Rightarrow> bugun e), is_paid := True\<rparr>"
  have s': "accounts s' = fst (senkronize_nakit u w ?d1 (oku db) (accounts s))"
    using r db by (auto simp: execute_mark_debt_paid_def i Let_def w_def split: prod.splits)
  show ?thesis
  proof (cases "if pd_amount ?d1 = 0 then None else varsayilan_nakit_hesap u w (accounts s)")
    case None
    then show ?thesis by (simp add: s' senkronize_nakit_first [OF none])
  next
    case (Some a)
    then have "a \<in> set (accounts s)" "\<not> is_emanet a"
      using varsayilan_nakit_Some by (fastforce split: if_splits)+
    then show ?thesis using Some emanet_kept_upd [OF d]
      by (simp add: s' senkronize_nakit_first [OF none])
  qed
qed

text \<open>C26: Master Checkpoint 1 in code: whatever payload the coach proposes, no handler other than
  pay_credit_card and the price update changes an emanet account in any column.\<close>

theorem emanet_untouched:
  assumes "distinct (map acc_id (accounts s))" and "list_all (debt_ok (accounts s)) (debts s)"
    and "a \<noteq> Pay_Credit_Card" "a \<noteq> Update_Fund_Price"
    and "run_handler a e s u p = (s', res)"
  shows "emanet_kept (accounts s) (accounts s')"
proof (cases a)
  case Update_Account_Balance
  then show ?thesis using assms(1,5)
    by (auto intro: emanet_kept_acc emanet_kept_found simp: run_handler_def execute_update_account_balance_def split: option.splits if_splits)
next
  case Add_Transaction
  then show ?thesis using assms(1,5)
    by (auto intro: emanet_kept_acc emanet_kept_found simp: run_handler_def execute_add_transaction_def Let_def split: option.splits if_splits)
next
  case Add_Master_Checkpoint
  then show ?thesis using assms(5)
    by (auto simp: run_handler_def execute_add_master_checkpoint_def Let_def split: option.splits if_splits)
qed (use assms sell_emanet mark_debt_emanet in \<open>auto simp: run_handler_def\<close>)

definition ex_emanet :: account where
  "ex_emanet = ex_cash\<lparr>acc_id := 5, acc_name := ''Emanet'', is_emanet := True\<rparr>"

lemma emanet_untouched_witness:
  "ex_emanet \<in> set (accounts (fst (run_handler Update_Account_Balance ex_env
     (empty_db\<lparr>accounts := [ex_emanet]\<rparr>) 7
     (empty_payload\<lparr>p_account_id := Some 5, p_new_balance := Some (Fin 0)\<rparr>))))"
proof -
  let ?s = "empty_db\<lparr>accounts := [ex_emanet]\<rparr>"
  have "emanet_kept (accounts ?s) (accounts (fst (run_handler Update_Account_Balance ex_env ?s 7
     (empty_payload\<lparr>p_account_id := Some 5, p_new_balance := Some (Fin 0)\<rparr>))))"
    by (rule emanet_untouched [of ?s Update_Account_Balance, OF _ _ _ _ prod.collapse [symmetric]])
      simp_all
  then show ?thesis by (simp add: emanet_kept_def ex_emanet_def)
qed

subsection \<open>Money moved by the coach\<close>

text \<open>The handler of add_transaction signs an amount by its own rule. It agrees with the
  program's single source balance_delta exactly on cash and card accounts, on transfers and on
  loan expenses; it moves loan incomes and every investment booking, which the single source
  leaves alone.\<close>

theorem coach_sign_agreement:
  "coach_delta k t x = balance_delta k t x \<longleftrightarrow>
     x = 0 \<or> t = Transfer \<or> k = Cash \<or> k = Credit_Card \<or> k = Loan \<and> t = Expense"
  by (cases k; cases t) (auto simp: coach_delta_def balance_delta_def)

definition total_worth :: "db \<Rightarrow> rat" where
  "total_worth s = (\<Sum>a\<leftarrow>accounts s. worth a)"

lemma total_worth_credit:
  assumes "distinct (map acc_id accs)" and "find_row acc_id i accs = Some a"
  shows "(\<Sum>a\<leftarrow>credit i x accs. worth a) =
    (\<Sum>a\<leftarrow>accs. worth a) + (if acc_type a = Cash \<or> acc_type a = Investment then x else - x)"
proof -
  have "worth (add_balance x a) - worth a = (if acc_type a = Cash \<or> acc_type a = Investment then x else - x)"
    by (cases "acc_type a") (simp_all add: worth_def)
  then show ?thesis using sum_list_upd_row [OF assms, of worth "add_balance x"] by (simp split: if_splits)
qed

lemma fl_D_float_pos: "0 < fl (D_float x) \<Longrightarrow> 0 < D_float (fl (D_float x))"
  by (rule D_float_pos)

lemma pay_card_cases:
  assumes "execute_pay_credit_card e s u p = (s', Inr res)"
  obtains x c src where "p_amount p = Some (Fin x)" "0 < fl (D_float x)" "c \<in> set (accounts s)"
    "acc_type c = Credit_Card" "src \<in> set (accounts s)"
    "case p_source_account_id p of Some si \<Rightarrow> acc_id src = si | None \<Rightarrow> acc_type src = Cash \<and> \<not> is_emanet src"
    "accounts s' = credit (acc_id src) (- D_float (fl (D_float x)))
       (credit (acc_id c) (- D_float (fl (D_float x))) (accounts s))"
  using assms
  by (auto simp: execute_pay_credit_card_def Let_def dest!: find_Some_prop find_acc_in varsayilan_nakit_Some
      split: option.splits if_splits fnum.splits)

text \<open>Paying a credit card moves net worth nowhere when the money comes from a cash or
  investment account, in particular from the default account. The handler does not check the
  source, though: out of a card or a loan the payment raises the total net worth by twice
  its amount, because both debts shrink.\<close>

theorem card_payment_net_worth:
  assumes "distinct (map acc_id (accounts s))" and "execute_pay_credit_card e s u p = (s', Inr res)"
  shows "(p_source_account_id p = None \<longrightarrow> total_worth s' = total_worth s) \<and>
    (\<exists>src \<in> set (accounts s). \<exists>amt > 0.
       if acc_type src = Cash \<or> acc_type src = Investment then total_worth s' = total_worth s
       else p_source_account_id p = Some (acc_id src) \<and> total_worth s' = total_worth s + 2 * amt)"
proof -
  obtain x c src where *: "p_amount p = Some (Fin x)" "0 < fl (D_float x)" "c \<in> set (accounts s)"
    "acc_type c = Credit_Card" "src \<in> set (accounts s)"
    "case p_source_account_id p of Some si \<Rightarrow> acc_id src = si | None \<Rightarrow> acc_type src = Cash \<and> \<not> is_emanet src"
    "accounts s' = credit (acc_id src) (- D_float (fl (D_float x)))
       (credit (acc_id c) (- D_float (fl (D_float x))) (accounts s))"
    using pay_card_cases [OF assms(2)] by metis
  define amt where "amt = D_float (fl (D_float x))"
  have amt: "0 < amt" using fl_D_float_pos [OF *(2)] by (simp add: amt_def)
  have c: "find_row acc_id (acc_id c) (accounts s) = Some c"
    and src: "find_row acc_id (acc_id src) (accounts s) = Some src"
    using assms(1) *(3,5) by (simp_all add: find_row_distinct)
  have d: "distinct (map acc_id (credit (acc_id c) (- amt) (accounts s)))" using assms(1) by simp
  have "\<exists>a. find_row acc_id (acc_id src) (credit (acc_id c) (- amt) (accounts s)) = Some a \<and> acc_type a = acc_type src"
    using src by (simp add: row_simps)
  then obtain a where a: "find_row acc_id (acc_id src) (credit (acc_id c) (- amt) (accounts s)) = Some a"
    "acc_type a = acc_type src" by blast
  have t: "total_worth s' = total_worth s + amt + (if acc_type src = Cash \<or> acc_type src = Investment then - amt else amt)"
    unfolding total_worth_def *(7) amt_def [symmetric]
    by (simp add: total_worth_credit [OF d a(1)] total_worth_credit [OF assms(1) c] a(2) *(4))
  have "if acc_type src = Cash \<or> acc_type src = Investment then total_worth s' = total_worth s
       else p_source_account_id p = Some (acc_id src) \<and> total_worth s' = total_worth s + 2 * amt"
    using t *(6) by (auto split: option.splits)
  moreover have "p_source_account_id p = None \<longrightarrow> total_worth s' = total_worth s" using t *(6) by auto
  ultimately show ?thesis using *(5) amt by blast
qed

definition ex_kart :: account where
  "ex_kart = ex_cash\<lparr>acc_id := 2, acc_type := Credit_Card\<rparr>"

lemma card_payment_net_worth_witness:
  "total_worth (fst (execute_pay_credit_card ex_env (empty_db\<lparr>accounts := [ex_cash, ex_kart]\<rparr>) 7
     (empty_payload\<lparr>p_card_account_id := Some 2, p_amount := Some (Fin 100)\<rparr>))) =
   total_worth (empty_db\<lparr>accounts := [ex_cash, ex_kart]\<rparr>)"
proof -
  let ?s = "empty_db\<lparr>accounts := [ex_cash, ex_kart]\<rparr>"
  let ?p = "empty_payload\<lparr>p_card_account_id := Some 2, p_amount := Some (Fin 100)\<rparr>"
  obtain s' r where r: "execute_pay_credit_card ex_env ?s 7 ?p = (s', r)" by fastforce
  moreover have "\<not> fl (D_float 100) \<le> 0" by (simp add: not_le fl_pos D_float_pos)
  then have "\<not> isl (snd (execute_pay_credit_card ex_env ?s 7 ?p))"
    by (simp add: execute_pay_credit_card_def or_id_def empty_payload_def ex_kart_def ex_cash_def Let_def
        yazma_workspace_id_def ex_env_def varsayilan_nakit_hesap_def varsayilan_hesap_def
        scope_filter_def)
  ultimately obtain res where "execute_pay_credit_card ex_env ?s 7 ?p = (s', Inr res)" by (cases r) auto
  from card_payment_net_worth [OF _ this] show ?thesis unfolding r
    by (simp add: ex_cash_def ex_kart_def empty_payload_def)
qed

end
