(* ===== verification/Action_Executor.thy ===== *)
theory Action_Executor
  imports Action_Laws
begin

text \<open>
  The life of a proposed action: proposal, approval with its conditional claim, rejection and
  edit (app/action_executor.py, app/routers/actions.py), and the recurring incomes and expenses
  that propose themselves when due (app/routers/incomes.py, app/routers/expenses.py).

  What the code does with texts is an argument: \<open>metin\<close> holds the facts its regular expressions
  find in the user's message and in the summary, \<open>metin_islem\<close> the string functions.
  The request handlers run in stages between which other requests may run; the last section
  interleaves them.
\<close>

subsection \<open>The table of pending actions\<close>

datatype recurring_kind = Rec_Income | Rec_Expense

record pending_action =
  pa_id :: nat
  pa_user :: nat
  pa_ws :: "nat option"
  pa_type :: action_type
  pa_payload :: "payload option"
  pa_status :: action_status
  pa_error :: "action_error option"
  pa_warning :: bool
  pa_source :: "(recurring_kind \<times> nat) option"

text \<open>The payload column is JSON text, \<open>None\<close> where it does not parse.\<close>

record sys =
  tables :: db
  pendings :: "pending_action list"

definition query_pending :: "nat \<Rightarrow> nat \<Rightarrow> sys \<Rightarrow> pending_action option" where
  "query_pending u i s = List.find (\<lambda>p. pa_id p = i \<and> pa_user p = u) (pendings s)"

definition upd_pending :: "nat \<Rightarrow> (pending_action \<Rightarrow> pending_action) \<Rightarrow> sys \<Rightarrow> sys" where
  "upd_pending i f s = s\<lparr>pendings := upd_row pa_id i f (pendings s)\<rparr>"

subsection \<open>Proposals\<close>

record metin =
  mesaj_var :: bool
  hesap_geciyor :: bool
  tarih_geciyor :: bool
  ozet_sayilari :: "rat list"

text \<open>\<open>katla\<close> is \<open>category_rules.normalize\<close>, \<open>slug_of\<close> a name in lower case with underscores,
  \<open>aciklama\<close> a name with the month written out, \<open>para_sayilari\<close> the numbers that
  \<open>_ozetteki_sayilar\<close> finds in the summary written for a name and an amount.\<close>

record metin_islem =
  katla :: "string \<Rightarrow> string"
  slug_of :: "string \<Rightarrow> string"
  aciklama :: "string \<Rightarrow> date \<Rightarrow> string"
  para_sayilari :: "string \<Rightarrow> rat \<Rightarrow> rat list"

datatype propose_error = Payload_Gecersiz | Ozet_Celiskisi | Hesap_Belirsiz | Tarih_Belirsiz

text \<open>An expense on a category of the user's card defaults goes to the default card, unless a
  non-card account was chosen explicitly.\<close>

definition normalize_transaction_payload :: "env \<Rightarrow> metin_islem \<Rightarrow> db \<Rightarrow> nat \<Rightarrow> payload \<Rightarrow> payload" where
  "normalize_transaction_payload e mi s u p =
     (let cat = katla mi (case p_category p of Some c \<Rightarrow> c | None \<Rightarrow> []);
          w = yazma_workspace_id e s u None;
          redirect = (case varsayilan_hesap Credit_Card u w (accounts s) of None \<Rightarrow> p
            | Some kart \<Rightarrow> p\<lparr>p_category := Some cat, p_is_card_expense := Some True,
                p_account_id := Some (acc_id kart)\<rparr>)
      in if \<not> kart_varsayilani_mi u w (categories s) cat then p
         else (case p_account_id p of None \<Rightarrow> redirect
           | Some i \<Rightarrow> (case query_account u w i (accounts s) of
               Some a \<Rightarrow> if acc_type a \<noteq> Credit_Card then p else redirect
             | None \<Rightarrow> redirect)))"

definition tarih_belirsiz_mi :: "metin \<Rightarrow> payload \<Rightarrow> bool" where
  "tarih_belirsiz_mi m p = (p_transaction_date p = None \<and> tarih_geciyor m)"

text \<open>The card limit would be exceeded (a warning, not a refusal).\<close>

definition limit_warning :: "env \<Rightarrow> db \<Rightarrow> nat \<Rightarrow> payload \<Rightarrow> bool" where
  "limit_warning e s u p =
     (p_is_card_expense p = Some True \<and>
      (case p_account_id p of None \<Rightarrow> False
       | Some i \<Rightarrow> i \<noteq> 0 \<and> (case query_account u (yazma_workspace_id e s u None) i (accounts s) of
           None \<Rightarrow> False
         | Some kart \<Rightarrow> (case (credit_limit kart, p_amount p) of
             (Some l, Some (Fin x)) \<Rightarrow> l < acc_balance kart + D_float x
           | _ \<Rightarrow> False))))"

definition check_proposal :: "env \<Rightarrow> metin_islem \<Rightarrow> db \<Rightarrow> nat \<Rightarrow> action_type \<Rightarrow> payload \<Rightarrow>
    metin \<Rightarrow> nat option \<Rightarrow> propose_error + (payload \<times> bool)" where
  "check_proposal e mi s u a p m ws =
     (if \<not> dogrula a p then Inl Payload_Gecersiz
      else if ozet_payload_celiskisi a p (ozet_sayilari m) then Inl Ozet_Celiskisi
      else if a \<noteq> Add_Transaction then Inr (p, False)
      else if p_transaction_type p = Some ''expense'' \<and> mesaj_var m \<and> \<not> hesap_geciyor m
        then Inl Hesap_Belirsiz
      else if tarih_belirsiz_mi m p then Inl Tarih_Belirsiz
      else (let q = normalize_transaction_payload (e\<lparr>aktif := ws\<rparr>) mi s u p
            in Inr (q, limit_warning e s u q)))"

definition propose_action :: "env \<Rightarrow> metin_islem \<Rightarrow> sys \<Rightarrow> nat \<Rightarrow> action_type \<Rightarrow> payload \<Rightarrow>
    metin \<Rightarrow> nat option \<Rightarrow> sys \<times> (propose_error + pending_action)" where
  "propose_action e mi s u a p m ws =
     (case check_proposal e mi (tables s) u a p m ws of
        Inl err \<Rightarrow> (s, Inl err)
      | Inr (q, warn) \<Rightarrow>
          (let pa = \<lparr>pa_id = next_key pa_id (pendings s), pa_user = u,
                 pa_ws = (case ws of Some w \<Rightarrow> Some w | None \<Rightarrow> personal_ws_of (tables s) u),
                 pa_type = a, pa_payload = Some q, pa_status = Pending, pa_error = None,
                 pa_warning = warn, pa_source = None\<rparr>
           in (s\<lparr>pendings := pendings s @ [pa]\<rparr>, Inr pa)))"

subsection \<open>Approval\<close>

datatype exec_error =
    Not_Found
  | Already_In action_status
  | Lost_Race
  | Crashed
  | Refused action_error

definition mark_failed :: "nat \<Rightarrow> action_error \<Rightarrow> sys \<Rightarrow> sys" where
  "mark_failed i err = upd_pending i (\<lambda>p. p\<lparr>pa_status := Failed, pa_error := Some err\<rparr>)"

text \<open>The month a recurring source is marked with: that of the payload's date, else the user's
  current month. The source is looked up under the owner of the action.\<close>

definition mark_recurring_triggered :: "env \<Rightarrow> pending_action \<Rightarrow> payload \<Rightarrow> db \<Rightarrow> db" where
  "mark_recurring_triggered e pa p s =
     (let d = (case p_transaction_date p of Some d \<Rightarrow> d | None \<Rightarrow> bugun e); ym = (year d, month d)
      in case pa_source pa of
        None \<Rightarrow> s
      | Some (Rec_Income, i) \<Rightarrow> if i = 0 then s else
          s\<lparr>incomes := upd_row ri_id i (\<lambda>r. if ri_user r = pa_user pa then r\<lparr>ri_last_triggered := Some ym\<rparr> else r) (incomes s)\<rparr>
      | Some (Rec_Expense, i) \<Rightarrow> if i = 0 then s else
          s\<lparr>expenses := upd_row re_id i (\<lambda>r. if re_user r = pa_user pa then r\<lparr>re_last_triggered := Some ym\<rparr> else r) (expenses s)\<rparr>)"

text \<open>\<open>execute_pending_action\<close> in its three stages: the read, the conditional claim
  (\<open>UPDATE ... WHERE status = 'pending'\<close>, committed), the run. The rules are evaluated outside its
  \<open>try\<close>: what they raise leaves the row as it was claimed.\<close>

definition exec_check :: "sys \<Rightarrow> nat \<Rightarrow> nat \<Rightarrow> exec_error + pending_action" where
  "exec_check s i u = (case query_pending u i s of None \<Rightarrow> Inl Not_Found
     | Some pa \<Rightarrow> if pa_status pa \<noteq> Pending then Inl (Already_In (pa_status pa)) else Inr pa)"

definition exec_claim :: "sys \<Rightarrow> nat \<Rightarrow> sys option" where
  "exec_claim s i =
     (if list_ex (\<lambda>p. pa_id p = i \<and> pa_status p = Pending) (pendings s)
      then Some (upd_pending i (\<lambda>p. if pa_status p = Pending then p\<lparr>pa_status := Approved\<rparr> else p) s)
      else None)"

definition exec_run :: "env \<Rightarrow> sys \<Rightarrow> nat \<Rightarrow> pending_action \<Rightarrow> sys \<times> (exec_error + action_result)" where
  "exec_run e s u pa =
     (case pa_payload pa of
        None \<Rightarrow> (mark_failed (pa_id pa) Broken_Payload s, Inl (Refused Broken_Payload))
      | Some p \<Rightarrow>
          (case enforce_user_rules (tables s) u (pa_type pa) p (pa_ws pa) of
             Violates title \<Rightarrow> (mark_failed (pa_id pa) (Rule_Violated title) s, Inl (Refused (Rule_Violated title)))
           | Raises \<Rightarrow> (s, Inl Crashed)
           | Allowed \<Rightarrow>
               (case run_handler (pa_type pa) (e\<lparr>aktif := pa_ws pa\<rparr>) (tables s) u p of
                  (t, Inl err) \<Rightarrow> (mark_failed (pa_id pa) err (s\<lparr>tables := t\<rparr>), Inl (Refused err))
                | (t, Inr res) \<Rightarrow>
                    (upd_pending (pa_id pa) (\<lambda>p. p\<lparr>pa_status := Executed\<rparr>)
                       (s\<lparr>tables := mark_recurring_triggered e pa p t\<rparr>), Inr res))))"

definition execute_pending_action :: "env \<Rightarrow> sys \<Rightarrow> nat \<Rightarrow> nat \<Rightarrow> sys \<times> (exec_error + action_result)" where
  "execute_pending_action e s i u =
     (case exec_check s i u of
        Inl err \<Rightarrow> (s, Inl err)
      | Inr pa \<Rightarrow>
          (case exec_claim s (pa_id pa) of
             None \<Rightarrow> (s, Inl Lost_Race)
           | Some s1 \<Rightarrow> exec_run e s1 u pa))"

subsection \<open>Rejection and edit\<close>

text \<open>The rejection reads and decides, then writes without a condition.\<close>

definition reject_write :: "sys \<Rightarrow> nat \<Rightarrow> sys" where
  "reject_write s i = upd_pending i (\<lambda>p. p\<lparr>pa_status := Rejected\<rparr>) s"

definition reject_pending_action :: "sys \<Rightarrow> nat \<Rightarrow> nat \<Rightarrow> sys \<times> (exec_error + unit)" where
  "reject_pending_action s i u = (case exec_check s i u of
     Inl err \<Rightarrow> (s, Inl err) | Inr pa \<Rightarrow> (reject_write s (pa_id pa), Inr ()))"

definition edit_action :: "env \<Rightarrow> metin_islem \<Rightarrow> sys \<Rightarrow> nat \<Rightarrow> nat \<Rightarrow> payload \<Rightarrow> sys \<times> (exec_error + unit)" where
  "edit_action e mi s i u p =
     (case List.find (\<lambda>x. pa_id x = i \<and> pa_user x = u \<and> pa_status x = Pending) (pendings s) of
        None \<Rightarrow> (s, Inl Not_Found)
      | Some pa \<Rightarrow>
          (let q = (if pa_type pa = Add_Transaction
                    then normalize_transaction_payload e mi (tables s) u p else p)
           in (upd_pending i (\<lambda>x. x\<lparr>pa_payload := Some q\<rparr>) s, Inr ())))"

subsection \<open>Recurring incomes and expenses\<close>

definition has_pending :: "nat \<Rightarrow> recurring_kind \<Rightarrow> nat \<Rightarrow> pending_action list \<Rightarrow> bool" where
  "has_pending u k i ps =
     list_ex (\<lambda>p. pa_user p = u \<and> pa_source p = Some (k, i) \<and> pa_status p = Pending) ps"

definition due_today :: "nat \<Rightarrow> date \<Rightarrow> bool" where
  "due_today dm today = (min dm (month_len (year today) (month today)) \<le> day today)"

definition income_payload :: "metin_islem \<Rightarrow> date \<Rightarrow> nat \<Rightarrow> recurring_income \<Rightarrow> payload" where
  "income_payload mi today acc r = empty_payload\<lparr>p_transaction_type := Some ''income'',
     p_amount := Some (Fin (fl (ri_amount r))), p_category := Some (slug_of mi (ri_name r)),
     p_description := Some (aciklama mi (ri_name r) today), p_transaction_date := Some today, p_account_id := Some acc\<rparr>"

definition expense_payload :: "metin_islem \<Rightarrow> date \<Rightarrow> recurring_expense \<Rightarrow> payload" where
  "expense_payload mi today r = empty_payload\<lparr>p_transaction_type := Some ''expense'',
     p_amount := Some (Fin (fl (re_amount r))),
     p_category := Some (case re_category r of Some c \<Rightarrow> if c = [] then slug_of mi (re_name r) else c | None \<Rightarrow> slug_of mi (re_name r)),
     p_description := Some (aciklama mi (re_name r) today), p_transaction_date := Some today, p_account_id := re_account r,
     p_is_card_expense := Some False\<rparr>"

text \<open>One due item: a new proposal, then its source is recorded. The numbers of the summary are
  those \<open>sayilar\<close> finds in the text built from the name and the amount.\<close>

definition propose_recurring :: "env \<Rightarrow> metin_islem \<Rightarrow> nat \<Rightarrow> recurring_kind \<Rightarrow> nat \<Rightarrow>
    payload \<Rightarrow> rat list \<Rightarrow> sys \<Rightarrow> sys" where
  "propose_recurring e mi u k i p sayilar s =
     (case propose_action e mi s u Add_Transaction p
         \<lparr>mesaj_var = False, hesap_geciyor = False, tarih_geciyor = True, ozet_sayilari = sayilar\<rparr> None of
        (s', Inl err) \<Rightarrow> s'
      | (s', Inr pa) \<Rightarrow> upd_pending (pa_id pa) (\<lambda>x. x\<lparr>pa_source := Some (k, i)\<rparr>) s')"

definition trigger_income :: "env \<Rightarrow> metin_islem \<Rightarrow>
    nat \<Rightarrow> nat \<Rightarrow> recurring_income \<Rightarrow> sys \<Rightarrow> sys" where
  "trigger_income e mi u acc r s =
     (if \<not> due_today (ri_day r) (bugun e) then s
      else if ri_last_triggered r = Some (year (bugun e), month (bugun e)) then s
      else if has_pending u Rec_Income (ri_id r) (pendings s) then s
      else propose_recurring e mi u Rec_Income (ri_id r) (income_payload mi (bugun e) acc r)
             (para_sayilari mi (ri_name r) (ri_amount r)) s)"

definition trigger_due_incomes :: "env \<Rightarrow> metin_islem \<Rightarrow>
    sys \<Rightarrow> nat \<Rightarrow> nat option \<Rightarrow> sys" where
  "trigger_due_incomes e mi s u w =
     (case varsayilan_nakit_hesap u w (accounts (tables s)) of
        None \<Rightarrow> s
      | Some acc \<Rightarrow>
          fold (trigger_income e mi u (acc_id acc))
            (filter (\<lambda>r. scope_filter u w (ri_user r) (ri_ws r) \<and> ri_active r) (incomes (tables s))) s)"

definition trigger_expense :: "env \<Rightarrow> metin_islem \<Rightarrow>
    nat \<Rightarrow> recurring_expense \<Rightarrow> sys \<Rightarrow> sys" where
  "trigger_expense e mi u r s =
     (if \<not> due_today (re_day r) (bugun e) then s
      else if re_last_triggered r = Some (year (bugun e), month (bugun e)) then s
      else if has_pending u Rec_Expense (re_id r) (pendings s) then s
      else propose_recurring e mi u Rec_Expense (re_id r) (expense_payload mi (bugun e) r)
             (para_sayilari mi (re_name r) (re_amount r)) s)"

definition trigger_due_expenses :: "env \<Rightarrow> metin_islem \<Rightarrow>
    sys \<Rightarrow> nat \<Rightarrow> nat option \<Rightarrow> sys" where
  "trigger_due_expenses e mi s u w =
     fold (trigger_expense e mi u)
       (filter (\<lambda>r. scope_filter u w (re_user r) (re_ws r) \<and> re_active r) (expenses (tables s))) s"

end
