(* ===== verification/Action_Protocol.thy ===== *)
theory Action_Protocol
  imports Action_Executor
begin

text \<open>
  What the life cycle of theory Action_Executor guarantees: what a stored proposal looks like,
  how an approval ends, that settled actions stay settled, that concurrent approvals run an
  action at most once, that a due recurring item is proposed once, and the two places where the
  code falls short: a rejection may overwrite an execution, and a recurring item of a shared
  workspace is bound to the wrong scope.
\<close>

subsection \<open>Proposals\<close>

lemma propose_Inl: "propose_action e mi s u a p m w = (s', Inl err) \<Longrightarrow> s' = s"
  by (auto simp: propose_action_def Let_def split: sum.splits prod.splits)

lemma propose_Inr:
  assumes "propose_action e mi s u a p m w = (s', Inr pa)"
  obtains q where "check_proposal e mi (tables s) u a p m w = Inr (q, pa_warning pa)"
    "pa_payload pa = Some q" "tables s' = tables s" "pendings s' = pendings s @ [pa]"
    "pa_id pa = next_key pa_id (pendings s)" "pa_user pa = u" "pa_type pa = a" "pa_status pa = Pending"
    "pa_ws pa = (case w of Some w \<Rightarrow> Some w | None \<Rightarrow> personal_ws_of (tables s) u)" "pa_source pa = None"
  using assms by (auto simp: propose_action_def Let_def split: sum.splits prod.splits)

lemma propose_ok:
  "\<not> isl (check_proposal e mi (tables s) u a p m w) \<Longrightarrow> \<exists>s' pa. propose_action e mi s u a p m w = (s', Inr pa)"
  by (cases "check_proposal e mi (tables s) u a p m w") (auto simp: propose_action_def Let_def)

lemma check_proposal_Inr:
  "check_proposal e mi s u a p m w = Inr (q, warn) \<Longrightarrow>
     dogrula a p \<and> \<not> ozet_payload_celiskisi a p (ozet_sayilari m) \<and>
     q = (if a = Add_Transaction then normalize_transaction_payload (e\<lparr>aktif := w\<rparr>) mi s u p else p)"
  by (auto simp: check_proposal_def Let_def split: if_splits)

text \<open>The payload is either untouched or redirected to a card that is not an emanet account.\<close>

lemma normalize_cases:
  "normalize_transaction_payload e mi s u p = p \<or>
   (\<exists>kart cat. kart \<in> set (accounts s) \<and> acc_type kart = Credit_Card \<and> \<not> is_emanet kart \<and>
      acc_in_scope u (yazma_workspace_id e s u None) kart \<and>
      normalize_transaction_payload e mi s u p =
        p\<lparr>p_category := Some cat, p_is_card_expense := Some True, p_account_id := Some (acc_id kart)\<rparr>)"
  by (auto simp: normalize_transaction_payload_def Let_def dest!: varsayilan_hesap_Some split: option.splits)

lemma dogrula_redirect:
  "dogrula Add_Transaction p \<Longrightarrow> 0 < k \<Longrightarrow>
   dogrula Add_Transaction (p\<lparr>p_category := c, p_is_card_expense := x, p_account_id := Some k\<rparr>)"
  by (simp add: dogrula_def only_fields_def opt_id_def)

lemma celiski_redirect [simp]:
  "ozet_payload_celiskisi a (p\<lparr>p_category := c, p_is_card_expense := x, p_account_id := k\<rparr>) ns =
   ozet_payload_celiskisi a p ns"
  by (cases a) (simp_all add: ozet_payload_celiskisi_def para_alani_def)

text \<open>C27: A stored proposal is pending, meets the payload contract and states its amount in the
  summary, also after the normalisation; creating it moves no money. Whatever account the
  normalisation chooses is a credit card that is not an emanet account.\<close>

theorem proposal_contract:
  assumes "\<forall>a \<in> set (accounts (tables s)). 0 < acc_id a"
    and "propose_action e mi s u a p m w = (s', Inr pa)"
  shows "\<exists>q. pa_payload pa = Some q \<and> dogrula a q \<and> \<not> ozet_payload_celiskisi a q (ozet_sayilari m) \<and>
    pa_status pa = Pending \<and> tables s' = tables s \<and>
    (p_account_id q = p_account_id p \<or>
     (\<exists>kart \<in> set (accounts (tables s)). p_account_id q = Some (acc_id kart) \<and>
        acc_type kart = Credit_Card \<and> \<not> is_emanet kart))"
proof -
  obtain q where q: "check_proposal e mi (tables s) u a p m w = Inr (q, pa_warning pa)"
    "pa_payload pa = Some q" "tables s' = tables s" "pa_status pa = Pending"
    using propose_Inr [OF assms(2)] by metis
  note c = check_proposal_Inr [OF q(1)]
  have "dogrula a q \<and> \<not> ozet_payload_celiskisi a q (ozet_sayilari m) \<and>
    (p_account_id q = p_account_id p \<or>
     (\<exists>kart \<in> set (accounts (tables s)). p_account_id q = Some (acc_id kart) \<and>
        acc_type kart = Credit_Card \<and> \<not> is_emanet kart))"
  proof (cases "a = Add_Transaction")
    case False
    then show ?thesis using c by simp
  next
    case True
    then show ?thesis
      using c assms(1) normalize_cases [of "e\<lparr>aktif := w\<rparr>" mi "tables s" u p] dogrula_redirect by auto
  qed
  then show ?thesis using q by auto
qed

subsection \<open>Approval\<close>

lemma query_pending_Some:
  "query_pending u i s = Some pa \<Longrightarrow> pa \<in> set (pendings s) \<and> pa_id pa = i \<and> pa_user pa = u"
  unfolding query_pending_def by (drule find_Some_prop) simp

lemma exec_check_Inr:
  "exec_check s i u = Inr pa \<longleftrightarrow> query_pending u i s = Some pa \<and> pa_status pa = Pending"
  by (auto simp: exec_check_def split: option.splits)

lemma pending_in_claim:
  "pa \<in> set (pendings s) \<Longrightarrow> pa_status pa = Pending \<Longrightarrow>
   exec_claim s (pa_id pa) = Some (upd_pending (pa_id pa) (\<lambda>p. if pa_status p = Pending then p\<lparr>pa_status := Approved\<rparr> else p) s)"
  by (auto simp: exec_claim_def list_ex_iff)

lemma exec_check_claim:
  assumes "exec_check s i u = Inr pa"
  shows "exec_claim s i = Some (upd_pending i (\<lambda>p. if pa_status p = Pending then p\<lparr>pa_status := Approved\<rparr> else p) s)"
    "pa_id pa = i"
  using assms pending_in_claim query_pending_Some by (fastforce simp: exec_check_Inr)+

lemma upd_pending_sel [simp]:
  "tables (upd_pending i f s) = tables s" "pendings (upd_pending i f s) = upd_row pa_id i f (pendings s)"
  by (simp_all add: upd_pending_def)

lemma tables_mark_failed [simp]: "tables (mark_failed i err s) = tables s"
  by (simp add: mark_failed_def)

text \<open>The run ends executed, with the handler's tables, or failed, with the tables as before, or in an
  exception of the rule evaluation.\<close>

lemma exec_run_cases:
  assumes "exec_run e s u pa = (s', r)"
  obtains (crashed) p where "r = Inl Crashed" "s' = s" "pa_payload pa = Some p"
      "enforce_user_rules (tables s) u (pa_type pa) p (pa_ws pa) = Raises"
  | (failed) err where "r = Inl (Refused err)" "tables s' = tables s"
      "pendings s' = upd_row pa_id (pa_id pa) (\<lambda>p. p\<lparr>pa_status := Failed, pa_error := Some err\<rparr>) (pendings s)"
  | (executed) p t res where "r = Inr res" "pa_payload pa = Some p"
      "enforce_user_rules (tables s) u (pa_type pa) p (pa_ws pa) = Allowed"
      "run_handler (pa_type pa) (e\<lparr>aktif := pa_ws pa\<rparr>) (tables s) u p = (t, Inr res)"
      "tables s' = mark_recurring_triggered e pa p t"
      "pendings s' = upd_row pa_id (pa_id pa) (\<lambda>p. p\<lparr>pa_status := Executed\<rparr>) (pendings s)"
proof (cases "\<exists>err. r = Inl err")
  case True
  then show thesis using assms failed crashed
    by (auto simp: exec_run_def mark_failed_def dest: run_handler_err
        split: option.splits prod.splits sum.splits rule_outcome.splits)
next
  case False
  then show thesis using assms executed
    by (auto simp: exec_run_def split: option.splits prod.splits sum.splits rule_outcome.splits)
qed


text \<open>A settled action stays settled: once a row has left the pending state, approving,
  rejecting or editing it again changes nothing and is refused.\<close>

theorem settled_actions_stay:
  assumes "distinct (map pa_id (pendings s))" and "query_pending u i s = Some pa" and "pa_status pa \<noteq> Pending"
  shows "execute_pending_action e s i u = (s, Inl (Already_In (pa_status pa))) \<and>
    reject_pending_action s i u = (s, Inl (Already_In (pa_status pa))) \<and>
    edit_action e mi s i u p = (s, Inl Not_Found)"
proof -
  have check: "exec_check s i u = Inl (Already_In (pa_status pa))"
    using assms(2,3) by (simp add: exec_check_def)
  have "\<not> (pa_id x = i \<and> pa_user x = u \<and> pa_status x = Pending)" if "x \<in> set (pendings s)" for x
    using that assms query_pending_Some [OF assms(2)] distinct_map [of pa_id "pendings s"]
    by (metis inj_on_def)
  then have "List.find (\<lambda>x. pa_id x = i \<and> pa_user x = u \<and> pa_status x = Pending) (pendings s) = None"
    by (simp add: find_None_prop)
  then show ?thesis
    by (simp add: execute_pending_action_def reject_pending_action_def edit_action_def check)
qed

subsection \<open>Concurrent requests\<close>

text \<open>A request to approve or to reject an action, and how far it has got. \<open>Seen\<close>: it read the row
  as pending. \<open>Claimed\<close>: its conditional update won. Each stage is one transaction; between two
  stages of a request any other request may take a stage.\<close>

datatype phase = Start | Seen | Claimed | Done

record request =
  rq_user :: nat
  rq_action :: nat
  rq_reject :: bool
  rq_phase :: phase

definition serve :: "env \<Rightarrow> sys \<Rightarrow> request \<Rightarrow> sys \<times> phase \<times> nat list" where
  "serve e s r =
     (let i = rq_action r; u = rq_user r in case rq_phase r of
        Start \<Rightarrow> (case exec_check s i u of Inl _ \<Rightarrow> (s, Done, []) | Inr _ \<Rightarrow> (s, Seen, []))
      | Seen \<Rightarrow>
          if rq_reject r then (reject_write s i, Done, [])
          else (case exec_claim s i of None \<Rightarrow> (s, Done, []) | Some s1 \<Rightarrow> (s1, Claimed, []))
      | Claimed \<Rightarrow>
          (case query_pending u i s of None \<Rightarrow> (s, Done, [])
           | Some pa \<Rightarrow> (fst (exec_run e s u pa), Done, [i]))
      | Done \<Rightarrow> (s, Done, []))"

text \<open>The configuration: the database, the requests under way, the actions run so far.\<close>

record conf =
  c_sys :: sys
  c_reqs :: "request list"
  c_runs :: "nat list"

inductive conf_step :: "conf \<Rightarrow> conf \<Rightarrow> bool" where
  stage: "k < length (c_reqs c) \<Longrightarrow> serve e (c_sys c) (c_reqs c ! k) = (s', ph, rs) \<Longrightarrow>
    conf_step c \<lparr>c_sys = s', c_reqs = (c_reqs c)[k := (c_reqs c ! k)\<lparr>rq_phase := ph\<rparr>], c_runs = c_runs c @ rs\<rparr>"
| arrive: "rq_phase r = Start \<Longrightarrow> conf_step c (c\<lparr>c_reqs := c_reqs c @ [r]\<rparr>)"
| propose: "propose_action e mi (c_sys c) u a p m w = (s', res) \<Longrightarrow> conf_step c (c\<lparr>c_sys := s'\<rparr>)"
| edit: "edit_action e mi (c_sys c) i u p = (s', res') \<Longrightarrow> conf_step c (c\<lparr>c_sys := s'\<rparr>)"

definition conf_run :: "conf \<Rightarrow> conf \<Rightarrow> bool" where
  "conf_run = conf_step\<^sup>*\<^sup>*"

definition idle :: "sys \<Rightarrow> conf" where
  "idle s = \<lparr>c_sys = s, c_reqs = [], c_runs = []\<rparr>"

text \<open>How often action \<open>i\<close> has been run, or is claimed to be.\<close>

definition claims :: "nat \<Rightarrow> conf \<Rightarrow> nat" where
  "claims i c = count_list (c_runs c) i +
     length (filter (\<lambda>r. rq_action r = i \<and> \<not> rq_reject r \<and> rq_phase r = Claimed) (c_reqs c))"

definition settled :: "nat \<Rightarrow> sys \<Rightarrow> bool" where
  "settled i s \<longleftrightarrow> (\<exists>p \<in> set (pendings s). pa_id p = i \<and> pa_status p \<noteq> Pending)"

definition conf_inv :: "conf \<Rightarrow> bool" where
  "conf_inv c \<longleftrightarrow> distinct (map pa_id (pendings (c_sys c))) \<and>
     (\<forall>i. claims i c \<le> 1 \<and> (claims i c \<noteq> 0 \<longrightarrow> settled i (c_sys c))) \<and>
     (\<forall>r \<in> set (c_reqs c). rq_reject r \<longrightarrow> rq_phase r \<noteq> Claimed)"

lemma settled_upd:
  "(\<And>p. pa_id (f p) = pa_id p) \<Longrightarrow> (\<And>p. pa_status p \<noteq> Pending \<Longrightarrow> pa_status (f p) \<noteq> Pending) \<Longrightarrow>
   settled i s \<Longrightarrow> pendings s' = upd_row pa_id j f (pendings s) \<Longrightarrow> settled i s'"
  unfolding settled_def by (smt (verit, best) image_eqI set_upd_row)

lemma not_settled_pending:
  "distinct (map pa_id (pendings s)) \<Longrightarrow> pa \<in> set (pendings s) \<Longrightarrow> pa_status pa = Pending \<Longrightarrow>
   \<not> settled (pa_id pa) s"
  by (auto simp: settled_def distinct_map inj_on_def)

lemma exec_claim_Some:
  assumes "exec_claim s i = Some s'" and "distinct (map pa_id (pendings s))"
  shows "\<not> settled i s" "settled i s'"
    "pendings s' = upd_row pa_id i (\<lambda>p. if pa_status p = Pending then p\<lparr>pa_status := Approved\<rparr> else p) (pendings s)"
proof -
  obtain p where p: "p \<in> set (pendings s)" "pa_id p = i" "pa_status p = Pending"
    using assms(1) by (auto simp: exec_claim_def list_ex_iff split: if_splits)
  then show "\<not> settled i s" using not_settled_pending [OF assms(2)] by blast
  show eq: "pendings s' = upd_row pa_id i (\<lambda>p. if pa_status p = Pending then p\<lparr>pa_status := Approved\<rparr> else p) (pendings s)"
    using assms(1) by (auto simp: exec_claim_def split: if_splits)
  show "settled i s'"
    unfolding settled_def eq set_upd_row using p by (intro bexI [of _ "p\<lparr>pa_status := Approved\<rparr>"]) force+
qed

lemma exec_run_pendings:
  assumes "exec_run e s u pa = (s', r)"
  obtains f where "pendings s' = upd_row pa_id (pa_id pa) f (pendings s)"
    "\<And>p. pa_id (f p) = pa_id p" "\<And>p. pa_status p \<noteq> Pending \<Longrightarrow> pa_status (f p) \<noteq> Pending"
  using assms
proof (cases rule: exec_run_cases)
  case (crashed p)
  then show ?thesis using that [of "\<lambda>p. p"] by (simp add: upd_row_def)
next
  case (failed err)
  then show ?thesis using that by fastforce
next
  case (executed p t res)
  then show ?thesis using that by fastforce
qed

lemma length_filter_update:
  "k < length xs \<Longrightarrow> length (filter P (xs[k := y])) + (if P (xs ! k) then 1 else 0) =
     length (filter P xs) + (if P y then 1 else (0::nat))"
proof (induction xs arbitrary: k)
  case (Cons x xs)
  show ?case
  proof (cases k)
    case (Suc j)
    then show ?thesis using Cons.IH [of j] Cons.prems by (cases "P x") simp_all
  qed simp
qed simp

lemma claims_stage:
  assumes "k < length (c_reqs c)"
  shows "claims i \<lparr>c_sys = s', c_reqs = (c_reqs c)[k := (c_reqs c ! k)\<lparr>rq_phase := ph\<rparr>], c_runs = c_runs c @ rs\<rparr>
      + (if rq_action (c_reqs c ! k) = i \<and> \<not> rq_reject (c_reqs c ! k) \<and> rq_phase (c_reqs c ! k) = Claimed then 1 else 0)
    = claims i c + count_list rs i
      + (if rq_action (c_reqs c ! k) = i \<and> \<not> rq_reject (c_reqs c ! k) \<and> ph = Claimed then 1 else 0)"
proof -
  show ?thesis
    using length_filter_update [OF assms, of "\<lambda>r. rq_action r = i \<and> \<not> rq_reject r \<and> rq_phase r = Claimed"
        "(c_reqs c ! k)\<lparr>rq_phase := ph\<rparr>"]
    by (simp add: claims_def)
qed

text \<open>Every stage keeps the ids, keeps settled rows settled, and logs a run only out of a claim.\<close>

lemma serve_cases:
  assumes "serve e s r = (s', ph, rs)" and "distinct (map pa_id (pendings s))"
    and "rq_reject r \<longrightarrow> rq_phase r \<noteq> Claimed"
  shows "map pa_id (pendings s') = map pa_id (pendings s)" "\<And>i. settled i s \<Longrightarrow> settled i s'"
    "rq_reject r \<longrightarrow> ph \<noteq> Claimed"
    "(rs = [] \<and> (ph = Claimed \<longrightarrow> rq_phase r \<noteq> Claimed \<and> \<not> settled (rq_action r) s \<and> settled (rq_action r) s')) \<or>
     (rs = [rq_action r] \<and> rq_phase r = Claimed \<and> ph = Done)"
proof -
  have "map pa_id (pendings s') = map pa_id (pendings s) \<and> (\<forall>i. settled i s \<longrightarrow> settled i s') \<and>
    (rq_reject r \<longrightarrow> ph \<noteq> Claimed) \<and>
    ((rs = [] \<and> (ph = Claimed \<longrightarrow> rq_phase r \<noteq> Claimed \<and> \<not> settled (rq_action r) s \<and> settled (rq_action r) s')) \<or>
     (rs = [rq_action r] \<and> rq_phase r = Claimed \<and> ph = Done))"
  proof (cases "rq_phase r")
    case Start
    then show ?thesis using assms(1) by (auto simp: serve_def Let_def split: sum.splits)
  next
    case Done
    then show ?thesis using assms(1) by (auto simp: serve_def Let_def)
  next
    case Seen
    show ?thesis
    proof (cases "rq_reject r \<or> exec_claim s (rq_action r) = None")
      case True
      then show ?thesis using Seen assms(1)
        by (auto simp: serve_def Let_def reject_write_def map_key_upd_row
            intro: settled_upd [where j = "rq_action r" and f = "\<lambda>p. p\<lparr>pa_status := Rejected\<rparr>"] split: if_splits)
    next
      case False
      then obtain s1 where s1: "exec_claim s (rq_action r) = Some s1" by auto
      note c = exec_claim_Some [OF s1 assms(2)]
      have "s' = s1" "ph = Claimed" "rs = []" using False Seen s1 assms(1) by (auto simp: serve_def Let_def)
      moreover have "settled i s \<longrightarrow> settled i s1" for i
        using settled_upd [OF _ _ _ c(3), of i] by auto
      moreover have "map pa_id (pendings s1) = map pa_id (pendings s)"
        unfolding c(3) by (rule map_key_upd_row) simp
      ultimately show ?thesis using c False Seen by auto
    qed
  next
    case Claimed
    show ?thesis
    proof (cases "query_pending (rq_user r) (rq_action r) s")
      case None
      then show ?thesis using Claimed assms(1) by (auto simp: serve_def Let_def)
    next
      case (Some pa)
      obtain s1 res where run: "exec_run e s (rq_user r) pa = (s1, res)" by fastforce
      obtain f where f: "pendings s1 = upd_row pa_id (pa_id pa) f (pendings s)"
        "\<And>p. pa_id (f p) = pa_id p" "\<And>p. pa_status p \<noteq> Pending \<Longrightarrow> pa_status (f p) \<noteq> Pending"
        using exec_run_pendings [OF run] by metis
      have "settled i s \<longrightarrow> settled i s1" for i using settled_upd [OF f(2,3) _ f(1)] by blast
      moreover have "map pa_id (pendings s1) = map pa_id (pendings s)"
        unfolding f(1) by (rule map_key_upd_row) (rule f(2))
      ultimately show ?thesis using Claimed Some run assms(1,3) by (auto simp: serve_def Let_def)
    qed
  qed
  then show "map pa_id (pendings s') = map pa_id (pendings s)" "\<And>i. settled i s \<Longrightarrow> settled i s'"
    "rq_reject r \<longrightarrow> ph \<noteq> Claimed"
    "(rs = [] \<and> (ph = Claimed \<longrightarrow> rq_phase r \<noteq> Claimed \<and> \<not> settled (rq_action r) s \<and> settled (rq_action r) s')) \<or>
     (rs = [rq_action r] \<and> rq_phase r = Claimed \<and> ph = Done)"
    by blast+
qed

lemma conf_inv_stage:
  assumes "conf_inv c" and "k < length (c_reqs c)" and "serve e (c_sys c) (c_reqs c ! k) = (s', ph, rs)"
  shows "conf_inv \<lparr>c_sys = s', c_reqs = (c_reqs c)[k := (c_reqs c ! k)\<lparr>rq_phase := ph\<rparr>], c_runs = c_runs c @ rs\<rparr>"
    (is "conf_inv ?c'")
proof -
  let ?r = "c_reqs c ! k"
  have nc: "rq_reject ?r \<longrightarrow> rq_phase ?r \<noteq> Claimed" and d: "distinct (map pa_id (pendings (c_sys c)))"
    using assms(1,2) by (auto simp: conf_inv_def)
  note sv = serve_cases [OF assms(3) d nc]
  have "claims i ?c' \<le> 1 \<and> (claims i ?c' \<noteq> 0 \<longrightarrow> settled i s')" for i
  proof -
    have "claims i c \<le> 1" "claims i c \<noteq> 0 \<longrightarrow> settled i (c_sys c)"
      using assms(1) by (auto simp: conf_inv_def)
    with claims_stage [OF assms(2), of i s' ph rs] sv(2) [of i] sv(4) nc
    show ?thesis by (auto split: if_splits)
  qed
  moreover have "\<forall>r \<in> set (c_reqs ?c'). rq_reject r \<longrightarrow> rq_phase r \<noteq> Claimed"
    using assms(1) sv(3) set_update_subset_insert [of "c_reqs c" k] by (fastforce simp: conf_inv_def)
  ultimately show ?thesis using d sv(1) by (simp add: conf_inv_def)
qed

lemma propose_pendings:
  assumes "propose_action e mi s u a p m w = (s', res)"
  shows "pendings s' = pendings s \<or> (\<exists>pa. pendings s' = pendings s @ [pa] \<and> pa_id pa = next_key pa_id (pendings s))"
  using assms propose_Inl propose_Inr by (cases res) metis+

lemma conf_inv_step:
  assumes "conf_step c c'" and "conf_inv c"
  shows "conf_inv c'"
  using assms
proof (induction rule: conf_step.induct)
  case (stage k c e s' ph rs)
  then show ?case by (intro conf_inv_stage)
next
  case (arrive r c)
  then show ?case by (auto simp: conf_inv_def claims_def)
next
  case (propose e mi c u a p m w s' res)
  from propose_pendings [OF propose(1)] show ?case
  proof
    assume "pendings s' = pendings (c_sys c)"
    then show ?thesis using propose(2) by (simp add: conf_inv_def claims_def settled_def)
  next
    assume "\<exists>pa. pendings s' = pendings (c_sys c) @ [pa] \<and> pa_id pa = next_key pa_id (pendings (c_sys c))"
    then show ?thesis using propose(2) next_key_fresh [of pa_id "pendings (c_sys c)"]
      by (fastforce simp: conf_inv_def claims_def settled_def)
  qed
next
  case (edit e mi c i u p s' res')
  have "pendings s' = upd_row pa_id i id (pendings (c_sys c)) \<or>
    (\<exists>q. pendings s' = upd_row pa_id i (\<lambda>x. x\<lparr>pa_payload := q\<rparr>) (pendings (c_sys c)))"
    using edit(1) by (auto simp: edit_action_def Let_def upd_row_ident split: option.splits)
  then obtain f where f: "pendings s' = upd_row pa_id i f (pendings (c_sys c))"
    "\<And>p. pa_id (f p) = pa_id p" "\<And>p. pa_status (f p) = pa_status p"
  proof
    assume "pendings s' = upd_row pa_id i id (pendings (c_sys c))"
    then show thesis using that [of id] by simp
  next
    assume "\<exists>q. pendings s' = upd_row pa_id i (\<lambda>x. x\<lparr>pa_payload := q\<rparr>) (pendings (c_sys c))"
    then obtain q where "pendings s' = upd_row pa_id i (\<lambda>x. x\<lparr>pa_payload := q\<rparr>) (pendings (c_sys c))" ..
    then show thesis using that [of "\<lambda>x. x\<lparr>pa_payload := q\<rparr>"] by simp
  qed
  have "settled j (c_sys c) \<longrightarrow> settled j s'" for j using settled_upd [OF f(2) _ _ f(1)] f(3) by auto
  moreover have "map pa_id (pendings s') = map pa_id (pendings (c_sys c))"
    unfolding f(1) by (rule map_key_upd_row) (rule f(2))
  ultimately show ?case using edit(2) by (auto simp: conf_inv_def claims_def)
qed

lemma conf_inv_run: "conf_run c c' \<Longrightarrow> conf_inv c \<Longrightarrow> conf_inv c'"
  unfolding conf_run_def by (induction rule: rtranclp_induct) (auto intro: conf_inv_step)

lemma conf_inv_idle: "distinct (map pa_id (pendings s)) \<Longrightarrow> conf_inv (idle s)"
  by (simp add: conf_inv_def idle_def claims_def)

text \<open>C3: An action is run at most once, however many approvals, rejections, edits and proposals
  arrive and however their stages interleave: the claim is a conditional update.\<close>

theorem action_runs_at_most_once:
  assumes "distinct (map pa_id (pendings s))" and "conf_run (idle s) c"
  shows "count_list (c_runs c) i \<le> 1"
proof -
  have "claims i c \<le> 1" using conf_inv_run [OF assms(2) conf_inv_idle [OF assms(1)]] by (simp add: conf_inv_def)
  then show ?thesis by (simp add: claims_def)
qed

lemma query_pending_upd:
  "(\<And>p. pa_id (f p) = pa_id p) \<Longrightarrow> (\<And>p. pa_user (f p) = pa_user p) \<Longrightarrow>
   query_pending u i (upd_pending j f s) =
     (if i = j then map_option f (query_pending u i s) else query_pending u i s)"
proof -
  assume f: "\<And>p. pa_id (f p) = pa_id p" "\<And>p. pa_user (f p) = pa_user p"
  have "List.find (\<lambda>p. pa_id p = i \<and> pa_user p = u) (upd_row pa_id j f ps) =
    (if i = j then map_option f (List.find (\<lambda>p. pa_id p = i \<and> pa_user p = u) ps)
     else List.find (\<lambda>p. pa_id p = i \<and> pa_user p = u) ps)" for ps
    using f by (induction ps) auto
  then show ?thesis by (simp add: query_pending_def)
qed

lemma exec_run_status [simp]: "exec_run e s u (pa\<lparr>pa_status := x\<rparr>) = exec_run e s u pa"
proof -
  have "mark_recurring_triggered e (pa\<lparr>pa_status := x\<rparr>) p t = mark_recurring_triggered e pa p t" for p t
    by (auto simp: mark_recurring_triggered_def Let_def split: option.split prod.split recurring_kind.split)
  then show ?thesis by (auto simp: exec_run_def split: option.split prod.split sum.split rule_outcome.split)
qed

lemma exec_run_query:
  assumes "exec_run e s u pa = (s', r)" and "query_pending u (pa_id pa) s = Some x"
  shows "\<exists>y. query_pending u (pa_id pa) s' = Some y"
  using assms(1)
proof (cases rule: exec_run_cases)
  case (crashed p)
  then show ?thesis using assms(2) by simp
next
  case (failed err)
  then show ?thesis using assms(2)
      query_pending_upd [of "\<lambda>p. p\<lparr>pa_status := Failed, pa_error := Some err\<rparr>" u "pa_id pa" "pa_id pa" s]
    by (simp add: query_pending_def)
next
  case (executed p t res)
  then show ?thesis using assms(2)
      query_pending_upd [of "\<lambda>p. p\<lparr>pa_status := Executed\<rparr>" u "pa_id pa" "pa_id pa" s]
    by (simp add: query_pending_def)
qed

text \<open>The rejection is not protected the same way: for every pending action there is an
  interleaving of one approval and one rejection in which the action is run, with all its
  effects on the tables, and its row ends up rejected.\<close>

theorem rejection_can_overwrite_execution:
  assumes q: "query_pending u i s = Some pa" and p: "pa_status pa = Pending"
  shows "\<exists>c pa'. conf_run (idle s) c \<and> c_runs c = [i] \<and>
    tables (c_sys c) = tables (fst (execute_pending_action e s i u)) \<and>
    query_pending u i (c_sys c) = Some pa' \<and> pa_status pa' = Rejected"
proof -
  let ?ok = "\<lambda>ph. \<lparr>rq_user = u, rq_action = i, rq_reject = False, rq_phase = ph\<rparr>"
  let ?no = "\<lambda>ph. \<lparr>rq_user = u, rq_action = i, rq_reject = True, rq_phase = ph\<rparr>"
  let ?g = "\<lambda>p. if pa_status p = Pending then p\<lparr>pa_status := Approved\<rparr> else p"
  have check: "exec_check s i u = Inr pa" and id: "pa_id pa = i"
    using q p query_pending_Some [OF q] by (simp_all add: exec_check_Inr)
  define s1 where "s1 = upd_pending i ?g s"
  have claim: "exec_claim s i = Some s1" using exec_check_claim [OF check] by (simp add: s1_def)
  obtain s2 r where run: "exec_run e s1 u pa = (s2, r)" by fastforce
  have q1: "query_pending u i s1 = Some (pa\<lparr>pa_status := Approved\<rparr>)"
    unfolding s1_def by (subst query_pending_upd) (simp_all add: q p)
  obtain y where q2: "query_pending u i s2 = Some y"
    using exec_run_query [OF run, unfolded id, OF q1] by blast
  have q3: "query_pending u i (reject_write s2 i) = Some (y\<lparr>pa_status := Rejected\<rparr>)"
    unfolding reject_write_def by (subst query_pending_upd) (simp_all add: q2)
  define c where "c = (\<lambda>s a b l. \<lparr>c_sys = s, c_reqs = [?ok a, ?no b], c_runs = l\<rparr>)"
  have st: "conf_step (c s a b l) (c s' ph b (l @ rs))" if "serve e s (?ok a) = (s', ph, rs)" for s s' a b l ph rs
    using stage [of 0 "c s a b l" e s' ph rs] that by (simp add: c_def)
  have sn: "conf_step (c s a b l) (c s' a ph (l @ rs))" if "serve e s (?no b) = (s', ph, rs)" for s s' a b l ph rs
    using stage [of 1 "c s a b l" e s' ph rs] that by (simp add: c_def)
  have "conf_step (idle s) (idle s\<lparr>c_reqs := [?ok Start]\<rparr>)"
    using arrive [of "?ok Start" "idle s"] by (simp add: idle_def)
  moreover have "conf_step (idle s\<lparr>c_reqs := [?ok Start]\<rparr>) (c s Start Start [])"
    using arrive [of "?no Start" "idle s\<lparr>c_reqs := [?ok Start]\<rparr>"] by (simp add: idle_def c_def)
  moreover have "conf_step (c s Start Start []) (c s Seen Start [])"
    using st [of s Start s Seen "[]" Start "[]"] by (simp add: serve_def check)
  moreover have "conf_step (c s Seen Start []) (c s Seen Seen [])"
    using sn [of s Start s Seen "[]" Seen "[]"] by (simp add: serve_def check)
  moreover have "conf_step (c s Seen Seen []) (c s1 Claimed Seen [])"
    using st [of s Seen s1 Claimed "[]" Seen "[]"] by (simp add: serve_def claim)
  moreover have "conf_step (c s1 Claimed Seen []) (c s2 Done Seen [i])"
    using st [of s1 Claimed s2 Done "[i]" Seen "[]"] by (simp add: serve_def q1 run)
  moreover have "conf_step (c s2 Done Seen [i]) (c (reject_write s2 i) Done Done [i])"
    using sn [of s2 Seen "reject_write s2 i" Done "[]" Done "[i]"] by (simp add: serve_def)
  ultimately have "conf_run (idle s) (c (reject_write s2 i) Done Done [i])"
    unfolding conf_run_def by (meson converse_rtranclp_into_rtranclp rtranclp.rtrancl_refl)
  moreover have "tables (fst (execute_pending_action e s i u)) = tables s2"
    by (simp add: execute_pending_action_def check id claim run)
  ultimately show ?thesis using q3
    by (intro exI [of _ "c (reject_write s2 i) Done Done [i]"] exI [of _ "y\<lparr>pa_status := Rejected\<rparr>"])
      (simp add: c_def reject_write_def)
qed

subsection \<open>Recurring items\<close>

text \<open>Whether an item is proposed does not depend on the proposals already stored.\<close>

lemma propose_recurring_cases:
  obtains "\<And>s. tables s = t \<Longrightarrow> propose_recurring e mi u k i p ns s = s"
  | q w warn where "\<And>s. tables s = t \<Longrightarrow> propose_recurring e mi u k i p ns s = s\<lparr>pendings := pendings s @
      [\<lparr>pa_id = next_key pa_id (pendings s), pa_user = u, pa_ws = w, pa_type = Add_Transaction,
        pa_payload = Some q, pa_status = Pending, pa_error = None, pa_warning = warn,
        pa_source = Some (k, i)\<rparr>]\<rparr>"
proof (cases "check_proposal e mi t u Add_Transaction p
    \<lparr>mesaj_var = False, hesap_geciyor = False, tarih_geciyor = True, ozet_sayilari = ns\<rparr> None")
  case (Inl err)
  then show thesis using that(1) by (simp add: propose_recurring_def propose_action_def)
next
  case (Inr x)
  obtain q warn where x: "x = (q, warn)" by fastforce
  have upd: "upd_row pa_id (next_key pa_id ps) f (ps @ [pa]) = ps @ [f pa]"
    if "pa_id pa = next_key pa_id ps" for ps pa f
    using that upd_row_id [OF next_key_fresh, of pa_id ps f] by (simp add: upd_row_def)
  show thesis using that(2) [of "personal_ws_of t u" q warn] Inr x
    by (simp add: propose_recurring_def propose_action_def Let_def upd_pending_def upd)
qed

lemma tables_propose_recurring [simp]: "tables (propose_recurring e mi u k i p ns s) = tables s"
  by (auto simp: propose_recurring_def propose_action_def Let_def split: sum.split prod.split)

lemma has_pending_append [simp]:
  "has_pending u k i (ps @ qs) \<longleftrightarrow> has_pending u k i ps \<or> has_pending u k i qs"
  by (auto simp: has_pending_def)

text \<open>The two trigger functions have the same shape: an item is blocked, or proposed.\<close>

definition trigger_item :: "('r \<Rightarrow> bool) \<Rightarrow> (nat \<Rightarrow> 'r \<Rightarrow> sys \<Rightarrow> sys) \<Rightarrow> recurring_kind \<Rightarrow> ('r \<Rightarrow> nat) \<Rightarrow> nat \<Rightarrow> 'r \<Rightarrow> sys \<Rightarrow> sys" where
  "trigger_item skip offer k key u r s =
     (if skip r then s else if has_pending u k (key r) (pendings s) then s else offer u r s)"

text \<open>After one item was handled, handling it again does nothing, whatever was proposed since.\<close>

locale proposer =
  fixes skip :: "'r \<Rightarrow> bool" and offer :: "nat \<Rightarrow> 'r \<Rightarrow> sys \<Rightarrow> sys" and k :: recurring_kind
    and key :: "'r \<Rightarrow> nat" and t :: db
  assumes offer_cases: "(\<forall>s. tables s = t \<longrightarrow> offer u r s = s) \<or>
      (\<forall>s. tables s = t \<longrightarrow> tables (offer u r s) = t \<and>
         (\<exists>pa. pendings (offer u r s) = pendings s @ [pa] \<and> pa_user pa = u \<and> pa_source pa = Some (k, key r)
           \<and> pa_status pa = Pending))"
begin

definition blocked :: "nat \<Rightarrow> 'r \<Rightarrow> sys \<Rightarrow> bool" where
  "blocked u r s \<longleftrightarrow> skip r \<or> has_pending u k (key r) (pendings s) \<or> (\<forall>s. tables s = t \<longrightarrow> offer u r s = s)"

lemma step:
  assumes "tables s = t"
  shows "tables (trigger_item skip offer k key u r s) = t"
    and "\<exists>ps. pendings (trigger_item skip offer k key u r s) = pendings s @ ps"
    and "blocked u r (trigger_item skip offer k key u r s)"
  using assms offer_cases [of u r] by (auto simp: trigger_item_def blocked_def has_pending_def)

lemma blocked_more: "blocked u r s \<Longrightarrow> pendings s' = pendings s @ ps \<Longrightarrow> blocked u r s'"
  by (auto simp: blocked_def)

lemma blocked_idle: "blocked u r s \<Longrightarrow> tables s = t \<Longrightarrow> trigger_item skip offer k key u r s = s"
  by (auto simp: blocked_def trigger_item_def)

lemma fold_step:
  "tables s = t \<Longrightarrow> tables (fold (trigger_item skip offer k key u) rs s) = t \<and>
    (\<exists>ps. pendings (fold (trigger_item skip offer k key u) rs s) = pendings s @ ps) \<and>
    (\<forall>r \<in> set rs. blocked u r (fold (trigger_item skip offer k key u) rs s))"
proof (induction rs arbitrary: s)
  case (Cons r rs)
  note st = step [OF Cons.prems, of u r]
  from st(2) obtain ps where ps: "pendings (trigger_item skip offer k key u r s) = pendings s @ ps" ..
  note ih = Cons.IH [OF st(1)]
  from ih obtain qs where qs: "pendings (fold (trigger_item skip offer k key u) rs (trigger_item skip offer k key u r s)) =
      pendings (trigger_item skip offer k key u r s) @ qs" by blast
  show ?case using ih ps qs blocked_more [OF st(3) qs] by simp
qed simp

lemma fold_idle:
  "tables s = t \<Longrightarrow> \<forall>r \<in> set rs. blocked u r s \<Longrightarrow> fold (trigger_item skip offer k key u) rs s = s"
  by (induction rs) (simp_all add: blocked_idle)

lemma fold_twice:
  "tables s = t \<Longrightarrow> fold (trigger_item skip offer k key u) rs (fold (trigger_item skip offer k key u) rs s) =
     fold (trigger_item skip offer k key u) rs s"
  using fold_step fold_idle by metis

end

lemma offer_recurring:
  "(\<forall>s. tables s = t \<longrightarrow> propose_recurring e mi u k i p ns s = s) \<or>
   (\<forall>s. tables s = t \<longrightarrow> tables (propose_recurring e mi u k i p ns s) = t \<and>
      (\<exists>pa. pendings (propose_recurring e mi u k i p ns s) = pendings s @ [pa] \<and> pa_user pa = u \<and>
         pa_source pa = Some (k, i) \<and> pa_status pa = Pending))"
  by (rule propose_recurring_cases [of t e mi u k i p ns]) simp_all

interpretation inc: proposer
  "\<lambda>r. \<not> due_today (ri_day r) (bugun e) \<or> ri_last_triggered r = Some (year (bugun e), month (bugun e))"
  "\<lambda>u r. propose_recurring e mi u Rec_Income (ri_id r) (income_payload mi (bugun e) acc r)
     (para_sayilari mi (ri_name r) (ri_amount r))"
  Rec_Income ri_id t for e mi acc t
  by unfold_locales (rule offer_recurring)

interpretation exp: proposer
  "\<lambda>r. \<not> due_today (re_day r) (bugun e) \<or> re_last_triggered r = Some (year (bugun e), month (bugun e))"
  "\<lambda>u r. propose_recurring e mi u Rec_Expense (re_id r) (expense_payload mi (bugun e) r)
     (para_sayilari mi (re_name r) (re_amount r))"
  Rec_Expense re_id t for e mi t
  by unfold_locales (rule offer_recurring)

lemma trigger_income_item:
  "trigger_income e mi u acc = trigger_item
     (\<lambda>r. \<not> due_today (ri_day r) (bugun e) \<or> ri_last_triggered r = Some (year (bugun e), month (bugun e)))
     (\<lambda>u r. propose_recurring e mi u Rec_Income (ri_id r) (income_payload mi (bugun e) acc r)
        (para_sayilari mi (ri_name r) (ri_amount r))) Rec_Income ri_id u"
  by (intro ext) (simp add: trigger_income_def trigger_item_def)

lemma trigger_expense_item:
  "trigger_expense e mi u = trigger_item
     (\<lambda>r. \<not> due_today (re_day r) (bugun e) \<or> re_last_triggered r = Some (year (bugun e), month (bugun e)))
     (\<lambda>u r. propose_recurring e mi u Rec_Expense (re_id r) (expense_payload mi (bugun e) r)
        (para_sayilari mi (re_name r) (re_amount r))) Rec_Expense re_id u"
  by (intro ext) (simp add: trigger_expense_def trigger_item_def)

lemma trigger_income_fold:
  "fold (trigger_income e mi u acc) rs (fold (trigger_income e mi u acc) rs s) = fold (trigger_income e mi u acc) rs s"
  "tables (fold (trigger_income e mi u acc) rs s) = tables s"
  unfolding trigger_income_item by (rule inc.fold_twice [OF refl], rule inc.fold_step [OF refl, THEN conjunct1])

lemma trigger_expense_fold:
  "fold (trigger_expense e mi u) rs (fold (trigger_expense e mi u) rs s) = fold (trigger_expense e mi u) rs s"
  "tables (fold (trigger_expense e mi u) rs s) = tables s"
  unfolding trigger_expense_item by (rule exp.fold_twice [OF refl], rule exp.fold_step [OF refl, THEN conjunct1])

text \<open>Calling the trigger of the due incomes or of the due expenses a second time on the same
  day changes nothing: every due item is already pending, or is refused again.\<close>

theorem trigger_due_idempotent:
  shows "trigger_due_incomes e mi (trigger_due_incomes e mi s u w) u w = trigger_due_incomes e mi s u w \<and>
    trigger_due_expenses e mi (trigger_due_expenses e mi s u w) u w = trigger_due_expenses e mi s u w"
  by (cases "varsayilan_nakit_hesap u w (accounts (tables s))")
    (simp_all add: trigger_due_incomes_def trigger_due_expenses_def trigger_income_fold trigger_expense_fold)

text \<open>The triggers propose without the workspace they were called in, so the proposal is bound
  to the personal workspace: when the account lives in another workspace, approving the proposal
  always fails and writes nothing.\<close>

theorem shared_account_proposal_fails:
  assumes "personal_ws_of (tables s) u = Some pw" and "p_account_id p = Some i"
    and "\<forall>a \<in> set (accounts (tables s)). acc_id a = i \<longrightarrow> acc_ws a \<noteq> Some pw"
    and "\<not> kart_varsayilani_mi u (Some pw) (categories (tables s))
           (katla mi (case p_category p of Some c \<Rightarrow> c | None \<Rightarrow> []))"
    and "propose_action e mi s u Add_Transaction p m None = (s1, Inr pa)"
  shows "\<exists>s2 err. execute_pending_action e' s1 (pa_id pa) u = (s2, Inl err) \<and> tables s2 = tables s"
proof -
  obtain q where q: "check_proposal e mi (tables s) u Add_Transaction p m None = Inr (q, pa_warning pa)"
    "pa_payload pa = Some q" "tables s1 = tables s" "pendings s1 = pendings s @ [pa]" "pa_status pa = Pending"
    "pa_id pa = next_key pa_id (pendings s)" "pa_user pa = u" "pa_type pa = Add_Transaction" "pa_ws pa = Some pw"
    using propose_Inr [OF assms(5)] assms(1) by (smt (verit) option.simps(4))
  have "yazma_workspace_id (e\<lparr>aktif := None\<rparr>) (tables s) u None = Some pw"
    using assms(1) by (simp add: yazma_workspace_id_def)
  then have "q = p" using check_proposal_Inr [OF q(1)] assms(4)
    by (simp add: normalize_transaction_payload_def Let_def)
  have "List.find (\<lambda>p. pa_id p = pa_id pa \<and> pa_user p = u) (pendings s) = None"
    using next_key_fresh [of pa_id "pendings s"] q(6) by (force simp: find_None_prop)
  then have "query_pending u (pa_id pa) s1 = Some pa"
    using q(4,7) by (simp add: query_pending_def find_append)
  then have check: "exec_check s1 (pa_id pa) u = Inr pa" using q(5) by (simp add: exec_check_Inr)
  obtain s' where claim: "exec_claim s1 (pa_id pa) = Some s'" "tables s' = tables s1"
    using exec_check_claim [OF check] by simp
  have none: "query_account u (Some pw) i (accounts (tables s)) = None"
    using assms(3) by (auto simp: query_account_def find_None_prop scope_filter_def)
  have "i \<noteq> 0" using check_proposal_Inr [OF q(1)] assms(2) by (auto simp: dogrula_def opt_id_def)
  then have "\<exists>err. execute_add_transaction (e'\<lparr>aktif := Some pw\<rparr>) (tables s) u p = (tables s, Inl err)"
    using assms(2) none
    by (auto simp: execute_add_transaction_def find_acc_def yazma_workspace_id_def Let_def split: option.split)
  then obtain err where h: "run_handler (pa_type pa) (e'\<lparr>aktif := pa_ws pa\<rparr>) (tables s') u p = (tables s, Inl err)"
    using q(3,8,9) claim(2) by (auto simp: run_handler_def)
  obtain s2 r where run: "exec_run e' s' u pa = (s2, r)" by fastforce
  then have ex: "execute_pending_action e' s1 (pa_id pa) u = (s2, r)"
    by (simp add: execute_pending_action_def check claim(1))
  show ?thesis
    using run
  proof (cases rule: exec_run_cases)
    case (crashed p')
    then show ?thesis using ex claim(2) q(3) by auto
  next
    case (failed err')
    then show ?thesis using ex claim(2) q(3) by auto
  next
    case (executed p' t res)
    then show ?thesis using h q(2) \<open>q = p\<close> by simp
  qed
qed

subsection \<open>Witnesses\<close>

definition ex_mi :: metin_islem where
  "ex_mi = \<lparr>katla = id, slug_of = id, aciklama = (\<lambda>n _. n), para_sayilari = (\<lambda>_ x. [x])\<rparr>"

definition ex_payload :: payload where
  "ex_payload = empty_payload\<lparr>p_account_id := Some 1, p_new_balance := Some (Fin 50)\<rparr>"

definition ex_pending :: pending_action where
  "ex_pending = \<lparr>pa_id = 4, pa_user = 7, pa_ws = Some 3, pa_type = Update_Account_Balance,
     pa_payload = Some ex_payload, pa_status = Pending, pa_error = None, pa_warning = False, pa_source = None\<rparr>"

definition ex_sys :: sys where
  "ex_sys = \<lparr>tables = empty_db\<lparr>accounts := [ex_cash]\<rparr>, pendings = [ex_pending]\<rparr>"

definition ex_metin :: metin where
  "ex_metin = \<lparr>mesaj_var = True, hesap_geciyor = True, tarih_geciyor = False, ozet_sayilari = [50]\<rparr>"

lemma ex_sys_simps [simp]:
  "distinct (map pa_id (pendings ex_sys))" "query_pending 7 4 ex_sys = Some ex_pending"
  "pa_status ex_pending = Pending" "\<forall>a \<in> set (accounts (tables ex_sys)). 0 < acc_id a"
  by (simp_all add: ex_sys_def ex_pending_def query_pending_def ex_cash_def)

lemma proposal_contract_witness:
  "\<exists>pa q. snd (propose_action ex_env ex_mi ex_sys 7 Update_Account_Balance ex_payload ex_metin (Some 3)) = Inr pa \<and>
     pa_payload pa = Some q \<and> dogrula Update_Account_Balance q"
proof -
  have "check_proposal ex_env ex_mi (tables ex_sys) 7 Update_Account_Balance ex_payload ex_metin (Some 3) =
    Inr (ex_payload, False)"
    by (simp add: check_proposal_def dogrula_def ex_payload_def empty_payload_def only_fields_def req_id_def
        finans_bakiye_def fin_max_def ozet_payload_celiskisi_def para_alani_def ex_metin_def fsub_def fl_pos less_imp_le)
  then obtain s' pa where p: "propose_action ex_env ex_mi ex_sys 7 Update_Account_Balance ex_payload ex_metin (Some 3) = (s', Inr pa)"
    by (simp add: propose_action_def Let_def)
  from proposal_contract [OF ex_sys_simps(4) p] show ?thesis unfolding p by auto
qed


lemma settled_actions_stay_witness:
  "execute_pending_action ex_env (ex_sys\<lparr>pendings := [ex_pending\<lparr>pa_status := Failed\<rparr>]\<rparr>) 4 7 =
     (ex_sys\<lparr>pendings := [ex_pending\<lparr>pa_status := Failed\<rparr>]\<rparr>, Inl (Already_In Failed))"
  using settled_actions_stay [of "ex_sys\<lparr>pendings := [ex_pending\<lparr>pa_status := Failed\<rparr>]\<rparr>" 7 4
      "ex_pending\<lparr>pa_status := Failed\<rparr>" ex_env ex_mi ex_payload]
  by (simp add: query_pending_def ex_pending_def)

lemma action_runs_at_most_once_witness:
  "count_list (c_runs (idle ex_sys)) 4 \<le> 1"
  by (rule action_runs_at_most_once [OF ex_sys_simps(1)]) (simp add: conf_run_def)

lemma rejection_can_overwrite_execution_witness:
  "\<exists>c pa'. conf_run (idle ex_sys) c \<and> c_runs c = [4] \<and> query_pending 7 4 (c_sys c) = Some pa' \<and> pa_status pa' = Rejected"
  using rejection_can_overwrite_execution [OF ex_sys_simps(2,3)] by blast

definition ex_shared :: sys where
  "ex_shared = \<lparr>tables = empty_db\<lparr>accounts := [ex_cash],
     db_workspaces := [\<lparr>ws_id = 9, ws_owner = 7, ws_name = ''Kisisel'', is_personal = True\<rparr>]\<rparr>, pendings = []\<rparr>"

definition ex_salary :: payload where
  "ex_salary = income_payload ex_mi (Date 2026 9 1) 1
     \<lparr>ri_id = 2, ri_user = 7, ri_ws = Some 3, ri_name = ''maas'', ri_amount = 100, ri_day = 1, ri_active = True,
      ri_last_triggered = None\<rparr>"

lemma shared_account_proposal_fails_witness:
  "\<exists>s1 pa s2 err. propose_action ex_env ex_mi ex_shared 7 Add_Transaction ex_salary
      \<lparr>mesaj_var = False, hesap_geciyor = False, tarih_geciyor = True, ozet_sayilari = [100]\<rparr> None = (s1, Inr pa) \<and>
    execute_pending_action ex_env s1 (pa_id pa) 7 = (s2, Inl err)"
proof -
  let ?m = "\<lparr>mesaj_var = False, hesap_geciyor = False, tarih_geciyor = True, ozet_sayilari = [100]\<rparr>"
  have pw: "personal_ws_of (tables ex_shared) 7 = Some 9" by (simp add: personal_ws_of_def ex_shared_def)
  have kart: "\<not> kart_varsayilani_mi 7 (Some 9) (categories (tables ex_shared))
      (katla ex_mi (case p_category ex_salary of Some c \<Rightarrow> c | None \<Rightarrow> []))" by code_simp
  have "\<not> isl (check_proposal ex_env ex_mi (tables ex_shared) 7 Add_Transaction ex_salary ?m None)"
    by code_simp
  then obtain s1 pa where p: "propose_action ex_env ex_mi ex_shared 7 Add_Transaction ex_salary ?m None = (s1, Inr pa)"
    using propose_ok by blast
  have "p_account_id ex_salary = Some 1" by (simp add: ex_salary_def income_payload_def)
  moreover have "\<forall>a \<in> set (accounts (tables ex_shared)). acc_id a = 1 \<longrightarrow> acc_ws a \<noteq> Some 9"
    by (simp add: ex_shared_def ex_cash_def)
  ultimately show ?thesis using shared_account_proposal_fails [OF pw _ _ kart p, of 1 ex_env] p by blast
qed

end
