(* ===== verification/Debt_Strategy.thy ===== *)
theory Debt_Strategy
  imports Data_Model
begin

text \<open>
  The payoff planner: app/debt_strategy.py. Collecting the debts, the month by month simulation
  both strategies share, snowball and avalanche, consolidation, the purchase what-if and the
  minimum payment trap.

  The code computes in floats. Every function takes the rounding \<open>rd\<close> of a float operation as
  its first argument and the code is the instance \<open>rd = fl\<close> (theory Numbers); exact arithmetic,
  \<open>rd = id\<close>, is the specification the sums are compared with. The loop is bounded by
  \<open>MAX_MONTHS\<close>, so the recursion over the months left is the loop itself.
\<close>

subsection \<open>Debts\<close>

definition kurus :: rat where "kurus = fl (1/100)"

definition default_card_interest :: rat where "default_card_interest = 425/100"

definition min_card_payment_ratio :: rat where "min_card_payment_ratio = 1/4"

definition max_months :: nat where "max_months = 600"

record debt_item =
  di_id :: nat
  di_name :: string
  di_card :: bool
  di_balance :: rat
  di_rate :: rat
  di_min :: rat
  di_ratio :: rat
  di_assumed :: bool

definition asgari_oran_cozumle :: "rat option \<Rightarrow> rat \<times> bool" where
  "asgari_oran_cozumle oran = (case oran of None \<Rightarrow> (min_card_payment_ratio, True)
     | Some q \<Rightarrow> if 0 < q \<and> q \<le> 1 then (q, False) else (min_card_payment_ratio, True))"

definition gecerli_asgari_oran :: "rat option \<Rightarrow> rat" where
  "gecerli_asgari_oran oran = fst (asgari_oran_cozumle oran)"

definition debt_item_of :: "(rat \<Rightarrow> rat) \<Rightarrow> account \<Rightarrow> debt_item" where
  "debt_item_of rd a =
     (let is_kart = (acc_type a = Credit_Card);
          rate = (case interest_rate a of Some q \<Rightarrow> if q \<le> 0 then (if is_kart then default_card_interest else 0) else q
            | None \<Rightarrow> if is_kart then default_card_interest else 0);
          (oran, varsayimsal) = asgari_oran_cozumle (min_payment_ratio a);
          taban = (case statement_balance a of Some b \<Rightarrow> b | None \<Rightarrow> acc_balance a);
          loan_min = (case monthly_payment a of Some m \<Rightarrow> rd m | None \<Rightarrow> 0)
      in \<lparr>di_id = acc_id a, di_name = acc_name a, di_card = is_kart, di_balance = rd (acc_balance a),
          di_rate = rate,
          di_min = (if is_kart then max (rd (rd taban * oran)) 50
            else if 0 < loan_min then loan_min
            else (case remaining_installments a of Some n \<Rightarrow>
                if 0 < n then rd (rd (acc_balance a) / of_nat n) else rd (rd (acc_balance a) * fl (5/100))
              | None \<Rightarrow> rd (rd (acc_balance a) * fl (5/100)))),
          di_ratio = oran,
          di_assumed = (is_kart \<and> (varsayimsal \<or> statement_balance a = None))\<rparr>)"

definition collect_debts :: "(rat \<Rightarrow> rat) \<Rightarrow> nat \<Rightarrow> nat option \<Rightarrow> account list \<Rightarrow> debt_item list" where
  "collect_debts rd u w accs = map (debt_item_of rd)
     (filter (\<lambda>a. acc_in_scope u w a \<and> (acc_type a = Credit_Card \<or> acc_type a = Loan) \<and> 0 < acc_balance a) accs)"

subsection \<open>The simulation\<close>

text \<open>One month of the schedule; the dictionaries are association lists in insertion order.\<close>

record snapshot =
  sn_month :: nat
  sn_balances :: "(nat \<times> rat) list"
  sn_paid :: "(nat \<times> rat) list"
  sn_interest :: "(nat \<times> rat) list"
  sn_events :: "nat list"

text \<open>The local variables of \<open>_simulate\<close>; \<open>state\<close> is a function of the account id.\<close>

record sim =
  sm_bal :: "nat \<Rightarrow> rat"
  sm_extra :: rat
  sm_avail :: rat
  sm_interest :: rat
  sm_paid :: rat
  sm_month :: nat
  sm_last_min :: "nat \<Rightarrow> rat option"
  sm_payoff :: "(nat \<times> nat) list"
  sm_events :: "nat list"
  sm_snap_paid :: "(nat \<times> rat) list"
  sm_snap_interest :: "(nat \<times> rat) list"
  sm_schedule :: "snapshot list"

text \<open>1. Interest accrues on every open debt.\<close>

definition accrue :: "(rat \<Rightarrow> rat) \<Rightarrow> debt_item \<Rightarrow> sim \<Rightarrow> sim" where
  "accrue rd d s =
     (let b = sm_bal s (di_id d) in
      if b \<le> kurus then s
      else (let i = rd (b * rd (di_rate d / 100)) in
        s\<lparr>sm_bal := (sm_bal s)(di_id d := rd (b + i)), sm_interest := rd (sm_interest s + i),
          sm_snap_interest := dset (di_id d) i (sm_snap_interest s)\<rparr>))"

text \<open>\<open>if state[aid] <= 0.0\<close>: the balance is zeroed and the payoff month recorded once.\<close>

definition note_payoff :: "nat \<Rightarrow> sim \<Rightarrow> sim" where
  "note_payoff aid s = s\<lparr>sm_bal := (sm_bal s)(aid := 0),
     sm_payoff := (if aid \<in> fst ` set (sm_payoff s) then sm_payoff s else sm_payoff s @ [(aid, sm_month s)])\<rparr>"

text \<open>A payment that would leave less than a kurus takes the whole balance.\<close>

definition whole_if_residue :: "(rat \<Rightarrow> rat) \<Rightarrow> rat \<Rightarrow> rat \<Rightarrow> rat" where
  "whole_if_residue rd b pay = (if rd (b - pay) < kurus then b else pay)"

text \<open>2. The minimum payments, in priority order.\<close>

definition base_min :: "(rat \<Rightarrow> rat) \<Rightarrow> debt_item \<Rightarrow> rat \<Rightarrow> rat" where
  "base_min rd d b = (if di_card d then max (rd (b * di_ratio d)) 50 else di_min d)"

definition pay_min :: "(rat \<Rightarrow> rat) \<Rightarrow> debt_item list \<Rightarrow> nat \<Rightarrow> sim \<Rightarrow> sim" where
  "pay_min rd ds aid s =
     (let b = sm_bal s aid in
      if b \<le> kurus then s
      else (case find_row di_id aid ds of None \<Rightarrow> s
        | Some d \<Rightarrow>
            (let base = base_min rd d b;
                 pay = whole_if_residue rd b (min base b);
                 s1 = s\<lparr>sm_bal := (sm_bal s)(aid := rd (b - pay)), sm_paid := rd (sm_paid s + pay),
                   sm_last_min := (sm_last_min s)(aid := Some base),
                   sm_snap_paid := dset aid pay (sm_snap_paid s)\<rparr>
             in if rd (b - pay) \<le> 0 then note_payoff aid (s1\<lparr>sm_events := sm_events s1 @ [aid]\<rparr>) else s1)))"

text \<open>3. The extra money goes to the first open debt and rolls over to the next.\<close>

definition pay_one :: "(rat \<Rightarrow> rat) \<Rightarrow> nat \<Rightarrow> sim \<Rightarrow> sim" where
  "pay_one rd aid s =
     (let b = sm_bal s aid;
          pay = whole_if_residue rd b (min (sm_avail s) b);
          s1 = s\<lparr>sm_bal := (sm_bal s)(aid := rd (b - pay)), sm_avail := rd (sm_avail s - pay),
            sm_paid := rd (sm_paid s + pay),
            sm_snap_paid := dset aid (rd ((case map_of (sm_snap_paid s) aid of Some x \<Rightarrow> x | None \<Rightarrow> 0) + pay)) (sm_snap_paid s)\<rparr>
      in if rd (b - pay) \<le> 0
         then note_payoff aid (s1\<lparr>sm_events := (if aid \<in> set (sm_events s1) then sm_events s1 else sm_events s1 @ [aid])\<rparr>)
         else s1)"

fun pay_extra :: "(rat \<Rightarrow> rat) \<Rightarrow> nat list \<Rightarrow> sim \<Rightarrow> sim" where
  "pay_extra rd [] s = s"
| "pay_extra rd (aid # order) s =
     (if sm_avail s \<le> kurus then s
      else if sm_bal s aid \<le> kurus then pay_extra rd order s
      else pay_extra rd order (pay_one rd aid s))"

text \<open>4. The minimum last paid to the debts that closed is added to next month's extra.\<close>

definition rollover :: "(rat \<Rightarrow> rat) \<Rightarrow> debt_item list \<Rightarrow> nat \<Rightarrow> sim \<Rightarrow> sim" where
  "rollover rd ds aid s = s\<lparr>sm_extra := rd (sm_extra s +
     (case sm_last_min s aid of Some m \<Rightarrow> m
      | None \<Rightarrow> (case find_row di_id aid ds of Some d \<Rightarrow> di_min d | None \<Rightarrow> 0)))\<rparr>"

definition snapshot_of :: "debt_item list \<Rightarrow> sim \<Rightarrow> snapshot" where
  "snapshot_of ds s = \<lparr>sn_month = sm_month s,
     sn_balances = map (\<lambda>d. (di_id d, fround 2 (sm_bal s (di_id d)))) ds,
     sn_paid = map (\<lambda>(i, x). (i, fround 2 x)) (sm_snap_paid s),
     sn_interest = map (\<lambda>(i, x). (i, fround 2 x)) (sm_snap_interest s),
     sn_events = sm_events s\<rparr>"

definition begin_month :: "sim \<Rightarrow> sim" where
  "begin_month s = s\<lparr>sm_month := Suc (sm_month s), sm_events := [], sm_snap_paid := [], sm_snap_interest := []\<rparr>"

definition month_step :: "(rat \<Rightarrow> rat) \<Rightarrow> debt_item list \<Rightarrow> nat list \<Rightarrow> sim \<Rightarrow> sim" where
  "month_step rd ds order s =
     (let s1 = fold (accrue rd) ds (begin_month s);
          s2 = fold (pay_min rd ds) order (s1\<lparr>sm_avail := sm_extra s1\<rparr>);
          s3 = pay_extra rd order s2;
          s4 = s3\<lparr>sm_schedule := sm_schedule s3 @ [snapshot_of ds s3]\<rparr>
      in fold (rollover rd ds) (sm_events s4) s4)"

definition any_open :: "debt_item list \<Rightarrow> sim \<Rightarrow> bool" where
  "any_open ds s = list_ex (\<lambda>d. kurus < sm_bal s (di_id d)) ds"

fun sim_loop :: "(rat \<Rightarrow> rat) \<Rightarrow> debt_item list \<Rightarrow> nat list \<Rightarrow> nat \<Rightarrow> sim \<Rightarrow> sim" where
  "sim_loop rd ds order 0 s = s"
| "sim_loop rd ds order (Suc n) s = (if any_open ds s then sim_loop rd ds order n (month_step rd ds order s) else s)"

definition sim_init :: "debt_item list \<Rightarrow> rat \<Rightarrow> sim" where
  "sim_init ds ex = \<lparr>sm_bal = (\<lambda>i. case find_row di_id i ds of Some d \<Rightarrow> di_balance d | None \<Rightarrow> 0),
     sm_extra = ex, sm_avail = 0, sm_interest = 0, sm_paid = 0, sm_month = 0, sm_last_min = (\<lambda>_. None),
     sm_payoff = [], sm_events = [], sm_snap_paid = [], sm_snap_interest = [], sm_schedule = []\<rparr>"

definition sim_final :: "(rat \<Rightarrow> rat) \<Rightarrow> debt_item list \<Rightarrow> nat list \<Rightarrow> rat \<Rightarrow> sim" where
  "sim_final rd ds order ex = sim_loop rd ds order max_months (sim_init ds ex)"

record strategy_result =
  sr_order :: "nat list"
  sr_months :: nat
  sr_interest :: rat
  sr_paid :: rat
  sr_payoff_date :: "date option"
  sr_schedule :: "snapshot list"
  sr_payoff_months :: "(nat \<times> nat) list"

definition simulate_debts :: "(rat \<Rightarrow> rat) \<Rightarrow> debt_item list \<Rightarrow> nat list \<Rightarrow> rat \<Rightarrow> date \<Rightarrow> strategy_result" where
  "simulate_debts rd ds order ex today =
     (if ds = [] then \<lparr>sr_order = [], sr_months = 0, sr_interest = 0, sr_paid = 0, sr_payoff_date = None,
        sr_schedule = [], sr_payoff_months = []\<rparr>
      else (let s = sim_final rd ds order ex in
        \<lparr>sr_order = order, sr_months = sm_month s, sr_interest = fround 2 (sm_interest s),
         sr_paid = fround 2 (sm_paid s),
         sr_payoff_date = (if max_months \<le> sm_month s then None else Some (add_months today (sm_month s))),
         sr_schedule = sm_schedule s, sr_payoff_months = sm_payoff s\<rparr>))"

subsection \<open>Strategies\<close>

text \<open>\<open>sorted(debts, key=lambda d: (d.balance, d.account_id))\<close>: the stable sort by the balance of
  the list sorted by id.\<close>

definition snowball_order :: "debt_item list \<Rightarrow> debt_item list" where
  "snowball_order ds = sort_key di_balance (sort_key di_id ds)"

definition avalanche_order :: "debt_item list \<Rightarrow> debt_item list" where
  "avalanche_order ds = sort_key (\<lambda>d. - di_rate d) (sort_key di_id ds)"

definition calc_snowball :: "(rat \<Rightarrow> rat) \<Rightarrow> debt_item list \<Rightarrow> rat \<Rightarrow> date \<Rightarrow> strategy_result" where
  "calc_snowball rd ds ex today = simulate_debts rd ds (map di_id (snowball_order ds)) ex today"

definition calc_avalanche :: "(rat \<Rightarrow> rat) \<Rightarrow> debt_item list \<Rightarrow> rat \<Rightarrow> date \<Rightarrow> strategy_result" where
  "calc_avalanche rd ds ex today = simulate_debts rd ds (map di_id (avalanche_order ds)) ex today"

datatype strategy_note = No_Debts | Almost_Equal | Avalanche_Saves rat nat | Snowball_Saves rat

record comparison =
  cmp_saved :: rat
  cmp_months :: int
  cmp_note :: strategy_note
  cmp_interest_free :: "string list"
  cmp_assumed :: "string list"

definition compare_strategies :: "(rat \<Rightarrow> rat) \<Rightarrow> debt_item list \<Rightarrow> rat \<Rightarrow> date \<Rightarrow>
    (strategy_result \<times> strategy_result) option \<times> comparison" where
  "compare_strategies rd ds ex today =
     (if ds = [] then (None, \<lparr>cmp_saved = 0, cmp_months = 0, cmp_note = No_Debts, cmp_interest_free = [], cmp_assumed = []\<rparr>)
      else (let sb = calc_snowball rd ds ex today; av = calc_avalanche rd ds ex today;
                saved = rd (sr_interest sb - sr_interest av);
                diff = int (sr_months sb) - int (sr_months av)
        in (Some (sb, av),
            \<lparr>cmp_saved = fround 2 saved, cmp_months = diff,
             cmp_note = (if \<bar>saved\<bar> < 50 then Almost_Equal
               else if 0 < saved then Avalanche_Saves saved (nat \<bar>diff\<bar>) else Snowball_Saves \<bar>saved\<bar>),
             cmp_interest_free = map di_name (filter (\<lambda>d. \<not> di_card d \<and> di_rate d = 0) ds),
             cmp_assumed = map di_name (filter di_assumed ds)\<rparr>)))"

subsection \<open>Consolidation\<close>

text \<open>\<open>pw\<close> is Python's \<open>**\<close> of a float and an int, \<open>None\<close> where it overflows.\<close>

definition annuity_payment :: "(rat \<Rightarrow> rat) \<Rightarrow> (rat \<Rightarrow> nat \<Rightarrow> rat option) \<Rightarrow> rat \<Rightarrow> rat \<Rightarrow> int \<Rightarrow> rat" where
  "annuity_payment rd pw anapara oran vade =
     (if vade \<le> 0 then anapara
      else if oran \<le> 1 / 1000000 then rd (anapara / of_int vade)
      else (let r = rd (oran / 100) in
        (case pw (rd (1 + r)) (nat vade) of
           Some factor \<Rightarrow> rd (rd (rd (anapara * r) * factor) / rd (factor - 1))
         | None \<Rightarrow> rd (anapara * r))))"

text \<open>\<open>sum\<close> over the active debts, left to right from 0.\<close>

definition rsum :: "(rat \<Rightarrow> rat) \<Rightarrow> rat list \<Rightarrow> rat" where
  "rsum rd xs = foldl (\<lambda>a x. rd (a + x)) 0 xs"

record baseline =
  bl_count :: nat
  bl_total :: rat
  bl_rate :: rat
  bl_max :: rat
  bl_min :: rat

definition calculate_consolidation_baseline :: "(rat \<Rightarrow> rat) \<Rightarrow> debt_item list \<Rightarrow> baseline option" where
  "calculate_consolidation_baseline rd ds =
     (let act = filter (\<lambda>d. 0 < di_balance d) ds in
      if length act < 2 then None
      else (let toplam = rsum rd (map di_balance act);
                oran = rd (rsum rd (map (\<lambda>d. rd (di_balance d * di_rate d)) act) / toplam)
        in Some \<lparr>bl_count = length act, bl_total = fround 2 toplam, bl_rate = fround 3 oran,
             bl_max = fround 3 (Max (di_rate ` set act)), bl_min = fround 3 (Min (di_rate ` set act))\<rparr>))"

record consolidation =
  cn_base :: baseline
  cn_rate :: rat
  cn_term :: int
  cn_payment :: rat
  cn_interest :: rat
  cn_total :: rat
  cn_better :: bool

definition simulate_consolidation :: "(rat \<Rightarrow> rat) \<Rightarrow> (rat \<Rightarrow> nat \<Rightarrow> rat option) \<Rightarrow> debt_item list \<Rightarrow> rat \<Rightarrow> int \<Rightarrow>
    consolidation option" where
  "simulate_consolidation rd pw ds oran vade =
     (case calculate_consolidation_baseline rd ds of None \<Rightarrow> None
      | Some base \<Rightarrow>
          if vade \<le> 0 then None
          else (let taksit = annuity_payment rd pw (bl_total base) oran vade;
                    odeme = rd (taksit * of_int vade); faiz = rd (odeme - bl_total base)
            in Some \<lparr>cn_base = base, cn_rate = fround 3 oran, cn_term = vade, cn_payment = fround 2 taksit,
                 cn_interest = fround 2 faiz, cn_total = fround 2 odeme, cn_better = (oran < bl_rate base)\<rparr>))"

subsection \<open>What-if questions\<close>

text \<open>The amount spread over the debts by falling rate: the debts after, and what is left.\<close>

fun spread :: "(rat \<Rightarrow> rat) \<Rightarrow> debt_item list \<Rightarrow> rat \<Rightarrow> debt_item list \<times> rat" where
  "spread rd [] rest = ([], rest)"
| "spread rd (d # ds) rest =
     (let pay = min rest (di_balance d); (ds', rest') = spread rd ds (rd (rest - pay))
      in (d\<lparr>di_balance := rd (di_balance d - pay)\<rparr> # ds', rest'))"

record opportunity =
  op_amount :: rat
  op_target :: string
  op_applied :: rat
  op_base :: strategy_result
  op_with :: strategy_result
  op_saved :: rat
  op_months :: int

definition simulate_purchase_opportunity_cost :: "(rat \<Rightarrow> rat) \<Rightarrow> debt_item list \<Rightarrow> rat \<Rightarrow> date \<Rightarrow> opportunity option" where
  "simulate_purchase_opportunity_cost rd ds amount today =
     (let act = filter (\<lambda>d. 0 < di_balance d) ds in
      if act = [] \<or> amount \<le> 0 then None
      else (let base = calc_avalanche rd act 0 today;
                target = foldl (\<lambda>m d. if di_rate m < di_rate d then d else m) (hd act) (tl act);
                (reduced, rest) = spread rd (sort_key (\<lambda>d. - di_rate d) act) amount;
                applied = fround 2 (rd (amount - rest));
                w = calc_avalanche rd (filter (\<lambda>d. kurus < di_balance d) reduced) 0 today
        in Some \<lparr>op_amount = fround 2 amount, op_target = di_name target, op_applied = fround 2 applied,
             op_base = base, op_with = w, op_saved = fround 2 (rd (sr_interest base - sr_interest w)),
             op_months = int (sr_months base) - int (sr_months w)\<rparr>))"

record trap =
  tr_id :: nat
  tr_balance :: rat
  tr_rate :: rat
  tr_result :: strategy_result
  tr_never :: bool
  tr_assumed :: bool

definition trap_of :: "(rat \<Rightarrow> rat) \<Rightarrow> date \<Rightarrow> debt_item \<Rightarrow> trap" where
  "trap_of rd today c = (let r = simulate_debts rd [c] [di_id c] 0 today in
     \<lparr>tr_id = di_id c, tr_balance = fround 2 (di_balance c), tr_rate = fround 2 (di_rate c), tr_result = r,
      tr_never = (max_months \<le> sr_months r), tr_assumed = di_assumed c\<rparr>)"

definition calculate_min_payment_trap :: "(rat \<Rightarrow> rat) \<Rightarrow> debt_item list \<Rightarrow> date \<Rightarrow> (trap list \<times> rat) option" where
  "calculate_min_payment_trap rd ds today =
     (let cards = filter (\<lambda>d. di_card d \<and> 0 < di_balance d) ds in
      if cards = [] then None
      else (let kartlar = sort_key (\<lambda>k. - sr_interest (tr_result k)) (map (trap_of rd today) cards)
        in Some (kartlar, fround 2 (rsum rd (map (\<lambda>k. sr_interest (tr_result k)) kartlar)))))"

definition kalan_seri :: "(rat \<Rightarrow> rat) \<Rightarrow> strategy_result \<Rightarrow> rat list" where
  "kalan_seri rd r = map (\<lambda>m. fround 2 (rsum rd (map snd (sn_balances m)))) (sr_schedule r)"

end
