(* ===== verification/Goals.thy ===== *)
theory Goals
  imports Transactions Debt_Strategy
begin

text \<open>
  Goals: app/goal_engine.py (progress, projection, sinking funds, refresh, manual links),
  app/goal_rules.py (rules that allocate a transaction to goals) and the endpoints of
  app/routers/goals.py with the schemas of app/schemas.py.

  A goal's progress columns are a cache, written by \<open>refresh_goal\<close>. The allocation table has
  a unique constraint on (goal, transaction); deleting a goal deletes its rules and
  allocations (ORM cascade).
\<close>

subsection \<open>Tables\<close>

datatype goal_type = Debt_Freedom | Cash_Target
datatype goal_status = Active | Achieved | Paused | Abandoned
datatype strategy = Snowball | Avalanche
datatype allocation_type = Full | Percent | Fixed
datatype alloc_source = Manual | By_Rule

record goal =
  gl_id :: nat
  gl_user :: nat
  gl_ws :: "nat option"
  gl_type :: goal_type
  gl_title :: string
  gl_target :: rat
  gl_date :: "date option"
  gl_baseline :: "rat option"
  gl_status :: goal_status
  gl_current :: rat
  gl_progress :: rat
  gl_projected :: "date option"
  gl_achieved_at :: "int option"
  gl_plan :: "(strategy \<times> rat) option"

record criteria =
  cr_type :: "transaction_type option"
  cr_min :: "rat option"
  cr_max :: "rat option"
  cr_account :: "nat option"
  cr_account_types :: "account_type list option"
  cr_contains :: "string option"

record goal_rule =
  gr_id :: nat
  gr_goal :: nat
  gr_priority :: int
  gr_criteria :: criteria
  gr_kind :: allocation_type
  gr_value :: "rat option"
  gr_active :: bool

record allocation =
  al_id :: nat
  al_goal :: nat
  al_tx :: nat
  al_amount :: rat
  al_source :: alloc_source
  al_rule :: "nat option"
  al_created :: int

record gdb =
  g_db :: db
  g_goals :: "goal list"
  g_rules :: "goal_rule list"
  g_allocs :: "allocation list"

subsection \<open>Progress\<close>

definition money :: "rat \<Rightarrow> rat" where "money x = qhu 2 x"

definition is_debt_account :: "account \<Rightarrow> bool" where
  "is_debt_account a = ((acc_type a = Loan \<or> acc_type a = Credit_Card) \<and> 0 < acc_balance a)"

definition calculate_baseline_for_debt_freedom :: "nat \<Rightarrow> nat option \<Rightarrow> account list \<Rightarrow> rat" where
  "calculate_baseline_for_debt_freedom u w accs =
     money (\<Sum>a\<leftarrow>filter (\<lambda>a. acc_in_scope u w a \<and> is_debt_account a) accs. acc_balance a)"

record progress =
  pr_current :: rat
  pr_percent :: rat
  pr_projected :: "date option"

definition plan_secimi :: "goal \<Rightarrow> strategy \<times> rat" where
  "plan_secimi g = (case gl_plan g of None \<Rightarrow> (Snowball, 0) | Some (st, x) \<Rightarrow> (st, max x 0))"

definition project_debt_freedom :: "date \<Rightarrow> goal \<Rightarrow> account list \<Rightarrow> date option" where
  "project_debt_freedom today g accs =
     (let (st, ekstra) = plan_secimi g in
      case fst (compare_strategies fl (collect_debts fl (gl_user g) (gl_ws g) accs) ekstra today) of
        None \<Rightarrow> None
      | Some (sb, av) \<Rightarrow>
          (let months = sr_months (case st of Snowball \<Rightarrow> sb | Avalanche \<Rightarrow> av)
           in if months < 600 then Some (add_days today (months * 30)) else None))"

definition compute_debt_freedom :: "date \<Rightarrow> goal \<Rightarrow> account list \<Rightarrow> progress" where
  "compute_debt_freedom today g accs =
     (case gl_baseline g of None \<Rightarrow> \<lparr>pr_current = 0, pr_percent = 0, pr_projected = None\<rparr>
      | Some base \<Rightarrow>
          if base = 0 then \<lparr>pr_current = 0, pr_percent = 0, pr_projected = None\<rparr>
          else (let debt = calculate_baseline_for_debt_freedom (gl_user g) (gl_ws g) accs;
                    paid = max (base - debt) 0
            in \<lparr>pr_current = paid, pr_percent = qhe 2 (min (dmul (ddiv paid base) 100) 100),
                pr_projected = project_debt_freedom today g accs\<rparr>))"

definition alloc_sum :: "nat \<Rightarrow> allocation list \<Rightarrow> rat" where
  "alloc_sum gid als = (\<Sum>a\<leftarrow>filter (\<lambda>a. al_goal a = gid) als. al_amount a)"

text \<open>The rate of the last 90 days, over the days since the first contribution in them.\<close>

definition project_cash_completion :: "date \<Rightarrow> int \<Rightarrow> goal \<Rightarrow> rat \<Rightarrow> allocation list \<Rightarrow> date option" where
  "project_cash_completion today now g current als =
     (if gl_target g \<le> current then None
      else (let recent = filter (\<lambda>a. now - 90 * 86400 \<le> al_created a) (filter (\<lambda>a. al_goal a = gl_id g) als);
                s = money (\<Sum>a\<leftarrow>recent. al_amount a)
        in if s \<le> 0 then None
           else (let span = (if recent = [] then 90
                       else max 1 (min 90 ((now - Min (al_created ` set recent)) div 86400)));
                     days = \<lceil>ddiv (gl_target g - current) (ddiv s (of_int span))\<rceil>
                 in if 3650 < days then None else Some (add_days today (nat days)))))"

definition compute_cash_target :: "date \<Rightarrow> int \<Rightarrow> goal \<Rightarrow> allocation list \<Rightarrow> progress" where
  "compute_cash_target today now g als =
     (let current = money (alloc_sum (gl_id g) als);
          p = (if gl_target g = 0 then 0 else max (min (dmul (ddiv current (gl_target g)) 100) 100) 0)
      in \<lparr>pr_current = max current 0, pr_percent = qhe 2 p,
          pr_projected = project_cash_completion today now g current als\<rparr>)"

definition compute_progress :: "date \<Rightarrow> int \<Rightarrow> gdb \<Rightarrow> goal \<Rightarrow> progress" where
  "compute_progress today now s g = (case gl_type g of
     Debt_Freedom \<Rightarrow> compute_debt_freedom today g (accounts (g_db s))
   | Cash_Target \<Rightarrow> compute_cash_target today now g (g_allocs s))"

text \<open>The cached columns; an active goal at 100 percent is achieved.\<close>

definition refreshed :: "int \<Rightarrow> progress \<Rightarrow> goal \<Rightarrow> goal" where
  "refreshed now p g =
     (let g1 = g\<lparr>gl_current := pr_current p, gl_progress := pr_percent p, gl_projected := pr_projected p\<rparr>
      in if 100 \<le> pr_percent p \<and> gl_status g = Active
         then g1\<lparr>gl_status := Achieved, gl_achieved_at := Some now\<rparr> else g1)"

definition refresh_goal :: "date \<Rightarrow> int \<Rightarrow> nat \<Rightarrow> gdb \<Rightarrow> gdb" where
  "refresh_goal today now gid s = (case find_row gl_id gid (g_goals s) of None \<Rightarrow> s
     | Some g \<Rightarrow> s\<lparr>g_goals := upd_row gl_id gid (refreshed now (compute_progress today now s g)) (g_goals s)\<rparr>)"

record sinking =
  sk_monthly :: rat
  sk_months :: nat
  sk_late :: bool
  sk_done :: bool

definition months_until :: "date \<Rightarrow> date \<Rightarrow> int" where
  "months_until today t = (int (year t) - int (year today)) * 12 + (int (month t) - int (month today))
     - (if day t < day today then 1 else 0)"

definition sinking_fund_plan :: "rat \<Rightarrow> date option \<Rightarrow> rat \<Rightarrow> date \<Rightarrow> sinking option" where
  "sinking_fund_plan target_amount target_date current_amount today =
     (case target_date of None \<Rightarrow> None
      | Some t \<Rightarrow>
          (let remaining = money target_amount - money current_amount in
           if remaining \<le> 0 then Some \<lparr>sk_monthly = 0, sk_months = 0, sk_late = False, sk_done = True\<rparr>
           else (let m = months_until today t in
             if m \<le> 0 then Some \<lparr>sk_monthly = qhu 2 remaining, sk_months = 0, sk_late = (t < today), sk_done = False\<rparr>
             else Some \<lparr>sk_monthly = qhu 2 (ddiv remaining (of_int m)), sk_months = nat m, sk_late = False,
                    sk_done = False\<rparr>)))"

subsection \<open>Rules\<close>

text \<open>\<open>in\<close> and \<open>lower()\<close> on the description; \<open>low\<close> is \<open>str.lower\<close>.\<close>

definition matches :: "(string \<Rightarrow> string) \<Rightarrow> transaction \<Rightarrow> criteria \<Rightarrow> account list \<Rightarrow> bool" where
  "matches low t c accs =
     ((case cr_type c of None \<Rightarrow> True | Some k \<Rightarrow> tx_type t = k) \<and>
      (case cr_min c of None \<Rightarrow> True | Some x \<Rightarrow> \<not> \<bar>tx_amount t\<bar> < x) \<and>
      (case cr_max c of None \<Rightarrow> True | Some x \<Rightarrow> \<not> x < \<bar>tx_amount t\<bar>) \<and>
      (case cr_account c of None \<Rightarrow> True | Some i \<Rightarrow> tx_account t = Some i) \<and>
      (case cr_account_types c of None \<Rightarrow> True
       | Some ks \<Rightarrow> (case tx_account t of None \<Rightarrow> False
           | Some i \<Rightarrow> i \<noteq> 0 \<and> (case find_row acc_id i accs of None \<Rightarrow> False | Some a \<Rightarrow> acc_type a \<in> set ks))) \<and>
      (case cr_contains c of None \<Rightarrow> True
       | Some needle \<Rightarrow> contains (low needle) (low (case tx_description t of None \<Rightarrow> [] | Some d \<Rightarrow> d))))"

definition compute_allocation_amount :: "transaction \<Rightarrow> goal_rule \<Rightarrow> rat" where
  "compute_allocation_amount t r =
     (let sgn = (if tx_type t = Expense then -1 else 1) in
      case gr_kind r of
        Full \<Rightarrow> sgn * tx_amount t
      | Percent \<Rightarrow> (case gr_value r of None \<Rightarrow> 0 | Some v \<Rightarrow> sgn * qhu 2 (dmul (tx_amount t) (ddiv v 100)))
      | Fixed \<Rightarrow> (case gr_value r of None \<Rightarrow> 0 | Some v \<Rightarrow> sgn * v))"

text \<open>Inserting an allocation: \<open>None\<close> is the IntegrityError of the unique constraint.\<close>

definition insert_alloc :: "int \<Rightarrow> nat \<Rightarrow> nat \<Rightarrow> rat \<Rightarrow> alloc_source \<Rightarrow> nat option \<Rightarrow> gdb \<Rightarrow> gdb option" where
  "insert_alloc now gid tid amount src rid s =
     (if list_ex (\<lambda>a. al_goal a = gid \<and> al_tx a = tid) (g_allocs s) then None
      else Some (s\<lparr>g_allocs := g_allocs s @ [\<lparr>al_id = next_key al_id (g_allocs s), al_goal = gid, al_tx = tid,
             al_amount = amount, al_source = src, al_rule = rid, al_created = now\<rparr>]\<rparr>))"

definition scoped_rules :: "transaction \<Rightarrow> gdb \<Rightarrow> goal_rule list" where
  "scoped_rules t s = sort_key gr_priority (sort_key gr_id
     (filter (\<lambda>r. gr_active r \<and> (case find_row gl_id (gr_goal r) (g_goals s) of None \<Rightarrow> False
        | Some g \<Rightarrow> scope_filter (tx_user t) (tx_ws t) (gl_user g) (gl_ws g))) (g_rules s)))"

definition apply_rule :: "(string \<Rightarrow> string) \<Rightarrow> int \<Rightarrow> transaction \<Rightarrow> goal_rule \<Rightarrow> gdb \<times> nat list \<Rightarrow> gdb \<times> nat list" where
  "apply_rule low now t r = (\<lambda>(s, affected).
     case find_row gl_id (gr_goal r) (g_goals s) of None \<Rightarrow> (s, affected)
     | Some g \<Rightarrow>
         if gl_status g \<noteq> Active then (s, affected)
         else if \<not> matches low t (gr_criteria r) (accounts (g_db s)) then (s, affected)
         else if compute_allocation_amount t r = 0 then (s, affected)
         else (case insert_alloc now (gr_goal r) (tx_id t) (compute_allocation_amount t r) By_Rule (Some (gr_id r)) s of
             None \<Rightarrow> (s, affected)
           | Some s' \<Rightarrow> (s', if gr_goal r \<in> set affected then affected else affected @ [gr_goal r])))"

definition evaluate_rules_for_transaction :: "(string \<Rightarrow> string) \<Rightarrow> date \<Rightarrow> int \<Rightarrow> nat \<Rightarrow> gdb \<Rightarrow> gdb" where
  "evaluate_rules_for_transaction low today now tid s =
     (case find_row tx_id tid (transactions (g_db s)) of None \<Rightarrow> s
      | Some t \<Rightarrow>
          (let (s1, affected) = fold (apply_rule low now t) (scoped_rules t s) (s, [])
           in fold (refresh_goal today now) affected s1))"

subsection \<open>Endpoints\<close>

definition query_goal :: "nat \<Rightarrow> nat option \<Rightarrow> nat \<Rightarrow> gdb \<Rightarrow> goal option" where
  "query_goal u w i s = List.find (\<lambda>g. gl_id g = i \<and> scope_filter u w (gl_user g) (gl_ws g)) (g_goals s)"

record goal_create =
  gc_type :: goal_type
  gc_title :: string
  gc_target :: rat
  gc_date :: "date option"
  gc_plan :: "(strategy \<times> rat) option"

definition goal_create_ok :: "goal_create \<Rightarrow> bool" where
  "goal_create_ok p = (gc_title p \<noteq> [] \<and> length (gc_title p) \<le> 200 \<and> 0 < gc_target p \<and> gc_target p \<le> 10 ^ 12 \<and>
     (case gc_plan p of None \<Rightarrow> True | Some (_, x) \<Rightarrow> 0 \<le> x \<and> x \<le> 10 ^ 6))"

definition create_goal :: "date \<Rightarrow> int \<Rightarrow> gdb \<Rightarrow> nat \<Rightarrow> nat option \<Rightarrow> goal_create \<Rightarrow> gdb \<times> nat result" where
  "create_goal today now s u w p =
     (if \<not> goal_create_ok p \<or> (gc_plan p \<noteq> None \<and> gc_type p \<noteq> Debt_Freedom) then (s, Inl Unprocessable)
      else (let k = next_key gl_id (g_goals s);
                g = \<lparr>gl_id = k, gl_user = u, gl_ws = w, gl_type = gc_type p, gl_title = gc_title p,
                  gl_target = gc_target p, gl_date = gc_date p,
                  gl_baseline = (if gc_type p = Debt_Freedom
                    then Some (calculate_baseline_for_debt_freedom u w (accounts (g_db s))) else None),
                  gl_status = Active, gl_current = 0, gl_progress = 0, gl_projected = None,
                  gl_achieved_at = None, gl_plan = gc_plan p\<rparr>
            in (refresh_goal today now k (s\<lparr>g_goals := g_goals s @ [g]\<rparr>), Inr k)))"

text \<open>A PATCH body: an outer \<open>None\<close> is an absent field, \<open>Some None\<close> an explicit null.\<close>

record goal_update =
  gu_title :: "string option option"
  gu_target :: "rat option option"
  gu_date :: "date option option"
  gu_status :: "goal_status option option"
  gu_plan :: "(strategy \<times> rat) option option"

definition goal_update_ok :: "goal_update \<Rightarrow> bool" where
  "goal_update_ok p =
     ((case gu_title p of Some (Some t) \<Rightarrow> t \<noteq> [] \<and> length t \<le> 200 | _ \<Rightarrow> True) \<and>
      (case gu_target p of Some (Some x) \<Rightarrow> 0 < x | _ \<Rightarrow> True) \<and>
      (case gu_status p of Some (Some st) \<Rightarrow> st \<noteq> Achieved | _ \<Rightarrow> True) \<and>
      (case gu_plan p of Some (Some (_, x)) \<Rightarrow> 0 \<le> x \<and> x \<le> 10 ^ 6 | _ \<Rightarrow> True))"

text \<open>The assignments, and \<open>None\<close> where a null reaches a NOT NULL column.\<close>

definition set_goal_fields :: "goal_update \<Rightarrow> goal \<Rightarrow> goal option" where
  "set_goal_fields p g =
     (if gu_title p = Some None \<or> gu_target p = Some None \<or> gu_status p = Some None then None
      else Some (g\<lparr>gl_title := (case gu_title p of Some (Some t) \<Rightarrow> t | _ \<Rightarrow> gl_title g),
             gl_target := (case gu_target p of Some (Some x) \<Rightarrow> x | _ \<Rightarrow> gl_target g),
             gl_date := (case gu_date p of Some d \<Rightarrow> d | None \<Rightarrow> gl_date g),
             gl_status := (case gu_status p of Some (Some st) \<Rightarrow> st | _ \<Rightarrow> gl_status g),
             gl_plan := (case gu_plan p of Some x \<Rightarrow> x | None \<Rightarrow> gl_plan g)\<rparr>))"

definition update_goal :: "date \<Rightarrow> int \<Rightarrow> gdb \<Rightarrow> nat \<Rightarrow> nat option \<Rightarrow> nat \<Rightarrow> goal_update \<Rightarrow> gdb \<times> unit result" where
  "update_goal today now s u w i p =
     (if \<not> goal_update_ok p then (s, Inl Unprocessable)
      else (case query_goal u w i s of None \<Rightarrow> (s, Inl Not_Found)
        | Some g \<Rightarrow>
            if (\<exists>x. gu_plan p = Some (Some x)) \<and> gl_type g \<noteq> Debt_Freedom then (s, Inl Unprocessable)
            else (case set_goal_fields p g of None \<Rightarrow> (s, Inl Server_Error)
              | Some g' \<Rightarrow> (refresh_goal today now i (s\<lparr>g_goals := upd_row gl_id i (\<lambda>_. g') (g_goals s)\<rparr>), Inr ()))))"

definition delete_goal :: "gdb \<Rightarrow> nat \<Rightarrow> nat option \<Rightarrow> nat \<Rightarrow> gdb \<times> unit result" where
  "delete_goal s u w i = (case query_goal u w i s of None \<Rightarrow> (s, Inl Not_Found)
     | Some g \<Rightarrow> (s\<lparr>g_goals := del_row gl_id i (g_goals s), g_rules := filter (\<lambda>r. gr_goal r \<noteq> i) (g_rules s),
         g_allocs := filter (\<lambda>a. al_goal a \<noteq> i) (g_allocs s)\<rparr>, Inr ()))"

definition refresh_goal_endpoint :: "date \<Rightarrow> int \<Rightarrow> gdb \<Rightarrow> nat \<Rightarrow> nat option \<Rightarrow> nat \<Rightarrow> gdb \<times> unit result" where
  "refresh_goal_endpoint today now s u w i = (case query_goal u w i s of None \<Rightarrow> (s, Inl Not_Found)
     | Some g \<Rightarrow> (refresh_goal today now i s, Inr ()))"

definition link_transaction :: "date \<Rightarrow> int \<Rightarrow> nat \<Rightarrow> nat \<Rightarrow> rat \<Rightarrow> gdb \<Rightarrow> gdb option" where
  "link_transaction today now gid tid amount s =
     map_option (refresh_goal today now gid) (insert_alloc now gid tid amount Manual None s)"

definition linked_abs :: "nat \<Rightarrow> allocation list \<Rightarrow> rat" where
  "linked_abs tid als = (\<Sum>a\<leftarrow>filter (\<lambda>a. al_tx a = tid) als. \<bar>al_amount a\<bar>)"

definition create_allocation :: "date \<Rightarrow> int \<Rightarrow> gdb \<Rightarrow> nat \<Rightarrow> nat option \<Rightarrow> nat \<Rightarrow> nat \<Rightarrow> rat \<Rightarrow> gdb \<times> unit result" where
  "create_allocation today now s u w gid tid amount =
     (if amount < - (10 ^ 12) \<or> 10 ^ 12 < amount then (s, Inl Unprocessable)
      else (case query_goal u w gid s of None \<Rightarrow> (s, Inl Not_Found)
        | Some g \<Rightarrow> (case query_txn u w tid (transactions (g_db s)) of None \<Rightarrow> (s, Inl Not_Found)
          | Some t \<Rightarrow>
              if amount = 0 then (s, Inl Unprocessable)
              else if \<bar>tx_amount t\<bar> < \<bar>amount\<bar> + \<bar>linked_abs tid (g_allocs s)\<bar> then (s, Inl Unprocessable)
              else (case link_transaction today now gid tid amount s of None \<Rightarrow> (s, Inl Conflict)
                | Some s' \<Rightarrow> (s', Inr ())))))"

definition delete_allocation :: "date \<Rightarrow> int \<Rightarrow> gdb \<Rightarrow> nat \<Rightarrow> nat option \<Rightarrow> nat \<Rightarrow> gdb \<times> unit result" where
  "delete_allocation today now s u w i = (case find_row al_id i (g_allocs s) of None \<Rightarrow> (s, Inl Not_Found)
     | Some a \<Rightarrow> (case query_goal u w (al_goal a) s of None \<Rightarrow> (s, Inl Forbidden)
       | Some g \<Rightarrow> (refresh_goal today now (al_goal a) (s\<lparr>g_allocs := del_row al_id i (g_allocs s)\<rparr>), Inr ())))"

text \<open>The rule schema. Its validator runs only on a value that is present in the body.\<close>

record rule_create =
  rc_priority :: int
  rc_criteria :: criteria
  rc_kind :: allocation_type
  rc_value :: "rat option option"
  rc_active :: bool

definition rule_create_ok :: "rule_create \<Rightarrow> bool" where
  "rule_create_ok p = (case rc_value p of None \<Rightarrow> True
     | Some None \<Rightarrow> rc_kind p = Full
     | Some (Some v) \<Rightarrow> 0 \<le> v \<and> (rc_kind p = Percent \<longrightarrow> 0 < v \<and> v \<le> 100))"

definition create_rule :: "gdb \<Rightarrow> nat \<Rightarrow> nat option \<Rightarrow> nat \<Rightarrow> rule_create \<Rightarrow> gdb \<times> nat result" where
  "create_rule s u w gid p =
     (if \<not> rule_create_ok p then (s, Inl Unprocessable)
      else (case query_goal u w gid s of None \<Rightarrow> (s, Inl Not_Found)
        | Some g \<Rightarrow> (let k = next_key gr_id (g_rules s) in
            (s\<lparr>g_rules := g_rules s @ [\<lparr>gr_id = k, gr_goal = gid, gr_priority = rc_priority p,
               gr_criteria = rc_criteria p, gr_kind = rc_kind p,
               gr_value = (case rc_value p of None \<Rightarrow> None | Some v \<Rightarrow> v), gr_active = rc_active p\<rparr>]\<rparr>, Inr k))))"

record rule_update =
  ru_priority :: "int option"
  ru_criteria :: "criteria option"
  ru_kind :: "allocation_type option"
  ru_value :: "rat option option"
  ru_active :: "bool option"

definition rule_update_ok :: "rule_update \<Rightarrow> bool" where
  "rule_update_ok p = (case ru_value p of Some (Some v) \<Rightarrow> 0 \<le> v \<and> (ru_kind p = Some Percent \<longrightarrow> 0 < v \<and> v \<le> 100)
     | _ \<Rightarrow> True)"

definition update_rule :: "gdb \<Rightarrow> nat \<Rightarrow> nat option \<Rightarrow> nat \<Rightarrow> rule_update \<Rightarrow> gdb \<times> unit result" where
  "update_rule s u w i p =
     (if \<not> rule_update_ok p then (s, Inl Unprocessable)
      else (case find_row gr_id i (g_rules s) of None \<Rightarrow> (s, Inl Not_Found)
        | Some r \<Rightarrow> (case query_goal u w (gr_goal r) s of None \<Rightarrow> (s, Inl Forbidden)
          | Some g \<Rightarrow> (s\<lparr>g_rules := upd_row gr_id i (\<lambda>r. r\<lparr>
                gr_priority := (case ru_priority p of Some x \<Rightarrow> x | None \<Rightarrow> gr_priority r),
                gr_criteria := (case ru_criteria p of Some x \<Rightarrow> x | None \<Rightarrow> gr_criteria r),
                gr_kind := (case ru_kind p of Some x \<Rightarrow> x | None \<Rightarrow> gr_kind r),
                gr_value := (case ru_value p of Some x \<Rightarrow> x | None \<Rightarrow> gr_value r),
                gr_active := (case ru_active p of Some x \<Rightarrow> x | None \<Rightarrow> gr_active r)\<rparr>) (g_rules s)\<rparr>, Inr ()))))"

definition delete_rule :: "gdb \<Rightarrow> nat \<Rightarrow> nat option \<Rightarrow> nat \<Rightarrow> gdb \<times> unit result" where
  "delete_rule s u w i = (case find_row gr_id i (g_rules s) of None \<Rightarrow> (s, Inl Not_Found)
     | Some r \<Rightarrow> (case query_goal u w (gr_goal r) s of None \<Rightarrow> (s, Inl Forbidden)
       | Some g \<Rightarrow> (s\<lparr>g_rules := del_row gr_id i (g_rules s),
           g_allocs := map (\<lambda>a. if al_rule a = Some i then a\<lparr>al_rule := None\<rparr> else a) (g_allocs s)\<rparr>, Inr ())))"

end
