(* ===== verification/Goal_Laws.thy ===== *)
theory Goal_Laws
  imports Goals
begin

text \<open>
  What goals guarantee: the well-formedness of their tables over any sequence of requests, the
  cap on manual allocations, the scope of rule allocations, the installments of a sinking
  fund; and how early a goal counts as achieved and which rules the schema lets through.
\<close>

subsection \<open>Well-formed tables\<close>

definition goals_ok :: "gdb \<Rightarrow> bool" where
  "goals_ok s \<longleftrightarrow> distinct (map gl_id (g_goals s)) \<and> distinct (map al_id (g_allocs s)) \<and>
     distinct (map (\<lambda>a. (al_goal a, al_tx a)) (g_allocs s)) \<and>
     (\<forall>a \<in> set (g_allocs s). al_goal a \<in> gl_id ` set (g_goals s)) \<and>
     (\<forall>g \<in> set (g_goals s). 0 \<le> gl_progress g \<and> gl_progress g \<le> 100 \<and> 0 \<le> gl_current g)"

lemma percent_range:
  assumes "0 \<le> x" and "x \<le> 100"
  shows "0 \<le> qhe 2 x \<and> qhe 2 x \<le> 100"
proof -
  have "qhe 2 100 = 100" by code_simp
  then show ?thesis using qhe_mono [of x 100 2] assms by (simp add: qhe.r_nonneg)
qed

lemma money_nonneg: "0 \<le> x \<Longrightarrow> 0 \<le> money x"
  by (simp add: money_def qhu.r_nonneg)

lemma baseline_nonneg: "0 \<le> calculate_baseline_for_debt_freedom u w accs"
  unfolding calculate_baseline_for_debt_freedom_def
  by (intro money_nonneg sum_list_nonneg_map) (auto simp: is_debt_account_def)

lemma progress_range:
  assumes "case gl_baseline g of None \<Rightarrow> True | Some b \<Rightarrow> 0 \<le> b"
  shows "0 \<le> pr_percent (compute_progress today now s g) \<and> pr_percent (compute_progress today now s g) \<le> 100 \<and>
    0 \<le> pr_current (compute_progress today now s g)"
proof (cases "gl_type g")
  case Cash_Target
  then show ?thesis
    using percent_range [of "max (min (dmul (ddiv (money (alloc_sum (gl_id g) (g_allocs s))) (gl_target g)) 100) 100) 0"]
    by (auto simp: compute_progress_def compute_cash_target_def Let_def percent_range)
next
  case Debt_Freedom
  show ?thesis
  proof (cases "gl_baseline g")
    case None
    then show ?thesis using Debt_Freedom by (simp add: compute_progress_def compute_debt_freedom_def)
  next
    case (Some b)
    let ?p = "max (b - calculate_baseline_for_debt_freedom (gl_user g) (gl_ws g) (accounts (g_db s))) 0"
    have "0 \<le> dmul (ddiv ?p b) 100" if "b \<noteq> 0"
      unfolding dmul_def ddiv_def using assms Some that
      by (intro dctx.r_mult_nonneg dctx.r_div_nonneg) auto
    then show ?thesis using Debt_Freedom Some percent_range [of "min (dmul (ddiv ?p b) 100) 100"]
      by (auto simp: compute_progress_def compute_debt_freedom_def Let_def)
  qed
qed

text \<open>The invariant with the sign of the recorded baselines, which no request lowers.\<close>

definition goal_inv :: "gdb \<Rightarrow> bool" where
  "goal_inv s \<longleftrightarrow> goals_ok s \<and> (\<forall>g \<in> set (g_goals s). case gl_baseline g of None \<Rightarrow> True | Some b \<Rightarrow> 0 \<le> b)"

lemma refreshed_sel [simp]:
  "gl_id (refreshed now p g) = gl_id g" "gl_baseline (refreshed now p g) = gl_baseline g"
  "gl_progress (refreshed now p g) = pr_percent p" "gl_current (refreshed now p g) = pr_current p"
  "gl_user (refreshed now p g) = gl_user g" "gl_ws (refreshed now p g) = gl_ws g"
  by (simp_all add: refreshed_def Let_def)

lemma refresh_goal_sel [simp]:
  "g_allocs (refresh_goal today now i s) = g_allocs s" "g_rules (refresh_goal today now i s) = g_rules s"
  "g_db (refresh_goal today now i s) = g_db s"
  "map gl_id (g_goals (refresh_goal today now i s)) = map gl_id (g_goals s)"
  by (auto simp: refresh_goal_def map_key_upd_row split: option.split)

lemma gl_ids_refresh [simp]: "gl_id ` set (g_goals (refresh_goal today now i s)) = gl_id ` set (g_goals s)"
  using refresh_goal_sel(4) by (metis set_map)

lemma refresh_goal_inv: "goal_inv s \<Longrightarrow> goal_inv (refresh_goal today now i s)"
proof (cases "find_row gl_id i (g_goals s)")
  case None
  then show "goal_inv s \<Longrightarrow> ?thesis" by (simp add: refresh_goal_def)
next
  case (Some g)
  assume inv: "goal_inv s"
  have "(case gl_baseline h of None \<Rightarrow> True | Some b \<Rightarrow> 0 \<le> b) \<and> 0 \<le> gl_progress h \<and> gl_progress h \<le> 100 \<and> 0 \<le> gl_current h"
    if "h \<in> set (g_goals (refresh_goal today now i s))" for h
  proof -
    have g: "g \<in> set (g_goals s)" using Some by (rule find_row_Some_in)
    from that Some consider "h \<in> set (g_goals s)"
      | k where "k \<in> set (g_goals s)" "h = refreshed now (compute_progress today now s g) k"
      by (auto simp: refresh_goal_def set_upd_row split: if_splits)
    then show ?thesis
    proof cases
      case 1
      then show ?thesis using inv by (auto simp: goal_inv_def goals_ok_def)
    next
      case 2
      then show ?thesis using inv g progress_range [of g today now s] by (auto simp: goal_inv_def)
    qed
  qed
  then show ?thesis using inv by (simp add: goal_inv_def goals_ok_def)
qed

lemma insert_alloc_inv:
  assumes "goal_inv s" and "insert_alloc now gid tid x src rid s = Some s'" and "gid \<in> gl_id ` set (g_goals s)"
  shows "goal_inv s'" "g_goals s' = g_goals s" "g_db s' = g_db s" "g_rules s' = g_rules s"
proof -
  let ?a = "\<lparr>al_id = next_key al_id (g_allocs s), al_goal = gid, al_tx = tid, al_amount = x, al_source = src,
    al_rule = rid, al_created = now\<rparr>"
  have new: "(gid, tid) \<notin> (\<lambda>a. (al_goal a, al_tx a)) ` set (g_allocs s)" and s': "s' = s\<lparr>g_allocs := g_allocs s @ [?a]\<rparr>"
    using assms(2) by (auto simp: insert_alloc_def list_ex_iff split: if_splits)
  show "goal_inv s'" using assms(1,3) new next_key_fresh [of al_id "g_allocs s"]
    by (simp add: s' goal_inv_def goals_ok_def)
qed (use assms(2) in \<open>auto simp: insert_alloc_def split: if_splits\<close>)

lemma fold_refresh_inv: "goal_inv s \<Longrightarrow> goal_inv (fold (refresh_goal today now) is s)"
  by (induction "is" arbitrary: s) (auto intro: refresh_goal_inv)

lemma found_id: "find_row gl_id i gs = Some g \<Longrightarrow> i \<in> gl_id ` set gs"
  by (metis find_row_None_iff option.distinct(1))

lemma apply_rule_inv: "goal_inv (fst x) \<Longrightarrow> goal_inv (fst (apply_rule low now t r x))"
  by (cases x) (auto simp: apply_rule_def intro: insert_alloc_inv(1) found_id split: option.splits)

lemma evaluate_rules_inv: "goal_inv s \<Longrightarrow> goal_inv (evaluate_rules_for_transaction low today now tid s)"
proof -
  assume inv: "goal_inv s"
  have "goal_inv (fst x) \<Longrightarrow> goal_inv (fst (fold (apply_rule low now t) rs x))" for t rs x
    by (induction rs arbitrary: x) (simp_all add: apply_rule_inv)
  from this [of "(s, [])"] inv show ?thesis
    by (auto simp: evaluate_rules_for_transaction_def fold_refresh_inv split: option.split prod.split)
      (metis fst_conv fold_refresh_inv)
qed

lemma query_goal_Some:
  "query_goal u w i s = Some g \<Longrightarrow> g \<in> set (g_goals s) \<and> gl_id g = i \<and> scope_filter u w (gl_user g) (gl_ws g)"
  unfolding query_goal_def by (drule find_Some_prop) simp

lemma query_goal_id: "query_goal u w i s = Some g \<Longrightarrow> i \<in> gl_id ` set (g_goals s)"
  by (auto dest: query_goal_Some)

lemma set_goal_fields_keep:
  "set_goal_fields p g = Some g' \<Longrightarrow> gl_id g' = gl_id g \<and> gl_baseline g' = gl_baseline g \<and>
     gl_progress g' = gl_progress g \<and> gl_current g' = gl_current g"
  by (auto simp: set_goal_fields_def split: if_splits)

lemma goal_inv_rules [simp]: "goal_inv (s\<lparr>g_rules := x\<rparr>) = goal_inv s" "goal_inv (s\<lparr>g_db := d\<rparr>) = goal_inv s"
  by (simp_all add: goal_inv_def goals_ok_def)

lemma append_goal_inv:
  "goal_inv s \<Longrightarrow> gl_id g = next_key gl_id (g_goals s) \<Longrightarrow> gl_progress g = 0 \<Longrightarrow> gl_current g = 0 \<Longrightarrow>
   (case gl_baseline g of None \<Rightarrow> True | Some b \<Rightarrow> 0 \<le> b) \<Longrightarrow> goal_inv (s\<lparr>g_goals := g_goals s @ [g]\<rparr>)"
  using next_key_fresh [of gl_id "g_goals s"] by (auto simp: goal_inv_def goals_ok_def)

lemma create_goal_inv: "goal_inv s \<Longrightarrow> goal_inv (fst (create_goal today now s u w p))"
  using baseline_nonneg [of u w "accounts (g_db s)"]
  by (auto simp: create_goal_def Let_def intro!: refresh_goal_inv append_goal_inv)

lemma update_goal_inv: "goal_inv s \<Longrightarrow> goal_inv (fst (update_goal today now s u w i p))"
proof -
  assume inv: "goal_inv s"
  have "goal_inv (s\<lparr>g_goals := upd_row gl_id i (\<lambda>_. g') (g_goals s)\<rparr>)"
    if "query_goal u w i s = Some g" "set_goal_fields p g = Some g'" for g g'
  proof -
    note g = query_goal_Some [OF that(1)] and k = set_goal_fields_keep [OF that(2)]
    have ids: "map gl_id (upd_row gl_id i (\<lambda>_. g') (g_goals s)) = map gl_id (g_goals s)"
      using g k by (auto simp: upd_row_def)
    then have "gl_id ` set (upd_row gl_id i (\<lambda>_. g') (g_goals s)) = gl_id ` set (g_goals s)" by (metis set_map)
    then show ?thesis using inv g k ids by (auto simp: goal_inv_def goals_ok_def set_upd_row split: if_splits)
  qed
  then show ?thesis using inv
    by (auto simp: update_goal_def refresh_goal_inv split: option.split)
qed

lemma delete_goal_inv: "goal_inv s \<Longrightarrow> goal_inv (fst (delete_goal s u w i))"
  by (auto simp: delete_goal_def goal_inv_def goals_ok_def set_del_row distinct_map_filter distinct_map_del_row
      split: option.split)

lemma create_allocation_inv: "goal_inv s \<Longrightarrow> goal_inv (fst (create_allocation today now s u w gid tid x))"
  by (auto simp: create_allocation_def link_transaction_def dest!: query_goal_id
      intro!: refresh_goal_inv intro: insert_alloc_inv(1) split: option.split)

lemma delete_allocation_inv: "goal_inv s \<Longrightarrow> goal_inv (fst (delete_allocation today now s u w i))"
proof -
  assume "goal_inv s"
  then have "goal_inv (s\<lparr>g_allocs := del_row al_id i (g_allocs s)\<rparr>)"
    by (auto simp: goal_inv_def goals_ok_def set_del_row distinct_map_del_row)
  then show ?thesis using \<open>goal_inv s\<close> by (auto simp: delete_allocation_def refresh_goal_inv split: option.split)
qed

lemma unlink_rule_inv:
  assumes "goal_inv s"
  shows "goal_inv (s\<lparr>g_allocs := map (\<lambda>a. if al_rule a = Some i then a\<lparr>al_rule := None\<rparr> else a) (g_allocs s)\<rparr>)"
proof -
  define f :: "allocation \<Rightarrow> allocation" where "f = (\<lambda>a. if al_rule a = Some i then a\<lparr>al_rule := None\<rparr> else a)"
  have f [simp]: "al_id (f a) = al_id a" "al_goal (f a) = al_goal a" "al_tx (f a) = al_tx a" for a
    by (simp_all add: f_def)
  have "goal_inv (s\<lparr>g_allocs := map f (g_allocs s)\<rparr>)" using assms by (simp add: goal_inv_def goals_ok_def comp_def)
  then show ?thesis unfolding f_def .
qed

lemma rule_endpoints_inv:
  "goal_inv s \<Longrightarrow> goal_inv (fst (create_rule s u w gid rp))"
  "goal_inv s \<Longrightarrow> goal_inv (fst (update_rule s u w i up))"
  "goal_inv s \<Longrightarrow> goal_inv (fst (delete_rule s u w i))"
  using unlink_rule_inv [of "s\<lparr>g_rules := del_row gr_id i (g_rules s)\<rparr>" i]
  by (auto simp: create_rule_def update_rule_def delete_rule_def Let_def split: option.split)

inductive goal_step :: "gdb \<Rightarrow> gdb \<Rightarrow> bool" where
  "goal_step s (fst (create_goal today now s u w p))"
| "goal_step s (fst (update_goal today now s u w i up))"
| "goal_step s (fst (delete_goal s u w i))"
| "goal_step s (fst (refresh_goal_endpoint today now s u w i))"
| "goal_step s (fst (create_allocation today now s u w gid tid x))"
| "goal_step s (fst (delete_allocation today now s u w i))"
| "goal_step s (fst (create_rule s u w gid rp))"
| "goal_step s (fst (update_rule s u w i ru))"
| "goal_step s (fst (delete_rule s u w i))"
| "goal_step s (evaluate_rules_for_transaction low today now tid s)"
| "goal_step s (s\<lparr>g_db := d\<rparr>)"

lemma goal_step_inv: "goal_step s s' \<Longrightarrow> goal_inv s \<Longrightarrow> goal_inv s'"
  by (induction rule: goal_step.induct)
    (auto simp: create_goal_inv update_goal_inv delete_goal_inv create_allocation_inv delete_allocation_inv
      rule_endpoints_inv evaluate_rules_inv refresh_goal_inv refresh_goal_endpoint_def split: option.split)

text \<open>C11: Whatever requests and rule evaluations run, in any order and with any accounts and
  transactions in between, a transaction is allocated at most once to a goal, every
  allocation belongs to an existing goal, and every cached progress lies between 0 and 100 percent
  with a non-negative amount.\<close>

theorem goal_tables_well_formed:
  assumes "goal_step\<^sup>*\<^sup>* s s'" and "goal_inv s"
  shows "goals_ok s'"
proof -
  have "goal_inv s'" using assms by (induction rule: rtranclp_induct) (auto intro: goal_step_inv)
  then show ?thesis by (simp add: goal_inv_def)
qed

definition empty_gdb :: gdb where
  "empty_gdb = \<lparr>g_db = empty_db, g_goals = [], g_rules = [], g_allocs = []\<rparr>"

definition ex_goal :: goal_create where
  "ex_goal = \<lparr>gc_type = Cash_Target, gc_title = ''Tatil'', gc_target = 100000, gc_date = None, gc_plan = None\<rparr>"

lemma empty_gdb_inv: "goal_inv empty_gdb"
  by (simp add: goal_inv_def goals_ok_def empty_gdb_def)

lemma goal_tables_well_formed_witness:
  "goals_ok (fst (create_goal (Date 2026 9 1) 0 empty_gdb 7 (Some 3) ex_goal))"
  by (rule goal_tables_well_formed [OF r_into_rtranclp empty_gdb_inv]) (rule goal_step.intros)

subsection \<open>Allocations\<close>

lemma linked_abs_nonneg: "0 \<le> linked_abs tid als"
  unfolding linked_abs_def by (rule sum_list_nonneg_map) simp

lemma create_allocation_ok:
  assumes "create_allocation today now s u w gid tid x = (s', Inr ())"
  obtains g t where "query_goal u w gid s = Some g" "query_txn u w tid (transactions (g_db s)) = Some t"
    "\<bar>x\<bar> + linked_abs tid (g_allocs s) \<le> \<bar>tx_amount t\<bar>" "x \<noteq> 0"
    "g_allocs s' = g_allocs s @ [\<lparr>al_id = next_key al_id (g_allocs s), al_goal = gid, al_tx = tid, al_amount = x,
       al_source = Manual, al_rule = None, al_created = now\<rparr>]"
  using assms linked_abs_nonneg [of tid "g_allocs s"]
  by (auto simp: create_allocation_def link_transaction_def insert_alloc_def not_less split: option.splits if_splits)

text \<open>A manual allocation is accepted only for a goal and a transaction of the caller's scope, and
  afterwards everything allocated of that transaction, over all goals and in absolute value,
  is at most its amount: no transaction is counted twice by hand.\<close>

theorem manual_allocation_capped:
  assumes "create_allocation today now s u w gid tid x = (s', Inr ())"
  shows "\<exists>g t. query_goal u w gid s = Some g \<and> query_txn u w tid (transactions (g_db s)) = Some t \<and>
    linked_abs tid (g_allocs s') \<le> \<bar>tx_amount t\<bar>"
proof -
  obtain g t where *: "query_goal u w gid s = Some g" "query_txn u w tid (transactions (g_db s)) = Some t"
    "\<bar>x\<bar> + linked_abs tid (g_allocs s) \<le> \<bar>tx_amount t\<bar>" "x \<noteq> 0"
    "g_allocs s' = g_allocs s @ [\<lparr>al_id = next_key al_id (g_allocs s), al_goal = gid, al_tx = tid, al_amount = x,
       al_source = Manual, al_rule = None, al_created = now\<rparr>]"
    using create_allocation_ok [OF assms] by metis
  have "linked_abs tid (g_allocs s') = linked_abs tid (g_allocs s) + \<bar>x\<bar>" unfolding *(5) by (simp add: linked_abs_def)
  then show ?thesis using * by auto
qed

definition ex_goal_row :: goal where
  "ex_goal_row = \<lparr>gl_id = 1, gl_user = 7, gl_ws = Some 3, gl_type = Cash_Target, gl_title = ''Tatil'',
     gl_target = 100000, gl_date = None, gl_baseline = None, gl_status = Active, gl_current = 0,
     gl_progress = 0, gl_projected = None, gl_achieved_at = None, gl_plan = None\<rparr>"

definition ex_income :: "rat \<Rightarrow> transaction" where
  "ex_income x = \<lparr>tx_id = 5, tx_user = 7, tx_ws = Some 3, tx_account = None, tx_type = Income, tx_amount = x,
     tx_category = None, tx_description = None, tx_date = Date 2026 9 1, is_card_expense = False\<rparr>"

definition ex_gdb :: "rat \<Rightarrow> gdb" where
  "ex_gdb x = \<lparr>g_db = empty_db\<lparr>transactions := [ex_income x]\<rparr>, g_goals = [ex_goal_row], g_rules = [], g_allocs = []\<rparr>"

lemma manual_allocation_capped_witness:
  "linked_abs 5 (g_allocs (fst (create_allocation (Date 2026 9 1) 0 (ex_gdb 500) 7 (Some 3) 1 5 200))) \<le> 500"
proof -
  let ?r = "create_allocation (Date 2026 9 1) 0 (ex_gdb 500) 7 (Some 3) 1 5 200"
  have "snd ?r = Inr ()"
    by (simp add: create_allocation_def ex_gdb_def query_goal_def query_txn_def ex_goal_row_def ex_income_def
        scope_filter_def link_transaction_def insert_alloc_def linked_abs_def)
  then have "?r = (fst ?r, Inr ())" by (metis prod.collapse)
  from manual_allocation_capped [OF this] show ?thesis
    by (auto simp: ex_gdb_def query_txn_def ex_income_def scope_filter_def)
qed

text \<open>What one rule, and all rules, may add.\<close>

lemma apply_rule_adds:
  "\<exists>new. g_allocs (fst (apply_rule low now t r (s, af))) = g_allocs s @ new \<and>
     g_goals (fst (apply_rule low now t r (s, af))) = g_goals s \<and> g_db (fst (apply_rule low now t r (s, af))) = g_db s \<and>
     (\<forall>a \<in> set new. al_tx a = tx_id t \<and> al_source a = By_Rule \<and> al_goal a = gr_goal r \<and>
        al_amount a = compute_allocation_amount t r \<and> al_amount a \<noteq> 0 \<and> al_rule a = Some (gr_id r) \<and>
        matches low t (gr_criteria r) (accounts (g_db s)) \<and>
        (\<exists>g. find_row gl_id (gr_goal r) (g_goals s) = Some g \<and> gl_status g = Active))"
  by (auto simp: apply_rule_def insert_alloc_def split: option.split)

definition rule_made :: "(string \<Rightarrow> string) \<Rightarrow> transaction \<Rightarrow> goal_rule list \<Rightarrow> gdb \<Rightarrow> allocation \<Rightarrow> bool" where
  "rule_made low t rs s a \<longleftrightarrow> al_tx a = tx_id t \<and> al_source a = By_Rule \<and>
     (\<exists>r \<in> set rs. al_rule a = Some (gr_id r) \<and> al_goal a = gr_goal r \<and> al_amount a = compute_allocation_amount t r \<and>
        matches low t (gr_criteria r) (accounts (g_db s)) \<and>
        (\<exists>g. find_row gl_id (gr_goal r) (g_goals s) = Some g \<and> gl_status g = Active))"

lemma apply_rules_add:
  "\<exists>new. g_allocs (fst (fold (apply_rule low now t) rs (s, af))) = g_allocs s @ new \<and>
     g_goals (fst (fold (apply_rule low now t) rs (s, af))) = g_goals s \<and>
     g_db (fst (fold (apply_rule low now t) rs (s, af))) = g_db s \<and> (\<forall>a \<in> set new. rule_made low t rs s a)"
proof (induction rs arbitrary: s af)
  case (Cons r rs)
  obtain s1 af1 where s1: "apply_rule low now t r (s, af) = (s1, af1)" by fastforce
  from apply_rule_adds [of low now t r s af, unfolded s1] obtain n1 where
    n1: "g_allocs s1 = g_allocs s @ n1" "g_goals s1 = g_goals s" "g_db s1 = g_db s" "\<forall>a \<in> set n1. rule_made low t [r] s a"
    unfolding rule_made_def by auto
  from Cons.IH [of s1 af1] obtain n2 where
    n2: "g_allocs (fst (fold (apply_rule low now t) rs (s1, af1))) = g_allocs s1 @ n2"
    "g_goals (fst (fold (apply_rule low now t) rs (s1, af1))) = g_goals s1"
    "g_db (fst (fold (apply_rule low now t) rs (s1, af1))) = g_db s1" "\<forall>a \<in> set n2. rule_made low t rs s1 a"
    by auto
  have "\<forall>a \<in> set (n1 @ n2). rule_made low t (r # rs) s a"
    using n1(2,3,4) n2(4) unfolding rule_made_def by auto
  then show ?case using n1 n2 s1 by (intro exI [of _ "n1 @ n2"]) simp
qed simp

lemma fold_refresh_sel [simp]:
  "g_allocs (fold (refresh_goal today now) is s) = g_allocs s"
  by (induction "is" arbitrary: s) simp_all

text \<open>Evaluating the rules for a transaction touches no one else's goals: every allocation it adds
  is for that transaction, belongs to an active goal of the transaction's own workspace (or
  owner), and carries the amount of an active rule of that goal that the transaction matches.\<close>

theorem rule_allocations_scoped:
  assumes "find_row tx_id tid (transactions (g_db s)) = Some t"
    and "a \<in> set (g_allocs (evaluate_rules_for_transaction low today now tid s))" and "a \<notin> set (g_allocs s)"
  shows "al_tx a = tid \<and> (\<exists>r \<in> set (g_rules s). \<exists>g. find_row gl_id (al_goal a) (g_goals s) = Some g \<and>
     gr_active r \<and> gr_goal r = al_goal a \<and> gl_status g = Active \<and>
     scope_filter (tx_user t) (tx_ws t) (gl_user g) (gl_ws g) \<and>
     matches low t (gr_criteria r) (accounts (g_db s)) \<and> al_amount a = compute_allocation_amount t r)"
proof -
  obtain new where new: "g_allocs (fst (fold (apply_rule low now t) (scoped_rules t s) (s, []))) = g_allocs s @ new"
    "\<forall>a \<in> set new. rule_made low t (scoped_rules t s) s a"
    using apply_rules_add [of low now t "scoped_rules t s" s "[]"] by auto
  have "g_allocs (evaluate_rules_for_transaction low today now tid s) = g_allocs s @ new"
    using assms(1) new(1) by (auto simp: evaluate_rules_for_transaction_def split: prod.split)
  then have made: "rule_made low t (scoped_rules t s) s a" using assms(2,3) new(2) by auto
  have "tx_id t = tid" using assms(1) by (rule find_row_Some_key)
  with made show ?thesis unfolding rule_made_def
    by (auto simp: scoped_rules_def split: option.splits)
qed

definition ex_rule :: goal_rule where
  "ex_rule = \<lparr>gr_id = 1, gr_goal = 1, gr_priority = 0, gr_criteria = \<lparr>cr_type = Some Income, cr_min = None,
     cr_max = None, cr_account = None, cr_account_types = None, cr_contains = None\<rparr>,
     gr_kind = Full, gr_value = None, gr_active = True\<rparr>"

lemma rule_allocations_scoped_witness:
  "\<exists>a \<in> set (g_allocs (evaluate_rules_for_transaction (\<lambda>x. x) (Date 2026 9 1) 0 5 ((ex_gdb 500)\<lparr>g_rules := [ex_rule]\<rparr>))).
     al_tx a = 5"
proof -
  let ?s = "(ex_gdb 500)\<lparr>g_rules := [ex_rule]\<rparr>"
  have t: "find_row tx_id 5 (transactions (g_db ?s)) = Some (ex_income 500)"
    by (simp add: ex_gdb_def ex_income_def)
  let ?a = "\<lparr>al_id = 1, al_goal = 1, al_tx = 5, al_amount = 500, al_source = By_Rule, al_rule = Some 1, al_created = 0\<rparr>"
  have "g_allocs (evaluate_rules_for_transaction (\<lambda>x. x) (Date 2026 9 1) 0 5 ?s) = [?a]"
    by (simp add: evaluate_rules_for_transaction_def t)
      (simp add: scoped_rules_def ex_gdb_def ex_rule_def ex_goal_row_def ex_income_def scope_filter_def
        apply_rule_def matches_def compute_allocation_amount_def insert_alloc_def next_key_def)
  then have mem: "?a \<in> set (g_allocs (evaluate_rules_for_transaction (\<lambda>x. x) (Date 2026 9 1) 0 5 ?s))" by simp
  have "?a \<notin> set (g_allocs ?s)" by (simp add: ex_gdb_def)
  from rule_allocations_scoped [OF t mem this] mem show ?thesis by blast
qed

text \<open>The schema of a rule does not see an absent value: a percent rule without a percentage is
  accepted, and allocates nothing, ever.\<close>

lemma percent_without_value_accepted:
  "rc_kind p = Percent \<Longrightarrow> rc_value p = None \<Longrightarrow> query_goal u w gid s = Some g \<Longrightarrow>
   \<exists>s' k. create_rule s u w gid p = (s', Inr k) \<and>
     (\<exists>r. find_row gr_id k (g_rules s') = Some r \<and> (\<forall>t. compute_allocation_amount t r = 0))"
  by (simp add: create_rule_def rule_create_ok_def Let_def find_row_append compute_allocation_amount_def)

text \<open>The update checks the percentage only against a type sent along: a percent rule can be
  raised to 150, and then allocates one and a half times the transaction.\<close>

lemma percent_above_100_accepted:
  assumes "find_row gr_id i (g_rules s) = Some r" and "gr_kind r = Percent" and "query_goal u w (gr_goal r) s = Some g"
    and "tx_type t = Income" and "tx_amount t = 100"
  shows "\<exists>s' r'. update_rule s u w i \<lparr>ru_priority = None, ru_criteria = None, ru_kind = None,
      ru_value = Some (Some 150), ru_active = None\<rparr> = (s', Inr ()) \<and>
    find_row gr_id i (g_rules s') = Some r' \<and> compute_allocation_amount t r' = 150"
proof -
  have "qhu 2 (dmul 100 (ddiv 150 100)) = 150" by code_simp
  then show ?thesis using assms
    by (simp add: update_rule_def rule_update_ok_def row_simps compute_allocation_amount_def)
qed

subsection \<open>When a goal counts as achieved\<close>

lemma status_refreshed:
  "gl_status (refreshed now p g) = (if 100 \<le> pr_percent p \<and> gl_status g = Active then Achieved else gl_status g)"
  by (simp add: refreshed_def Let_def)

text \<open>A cash goal is marked achieved by a refresh only when its allocations reach at least 99.99
  percent of the target. The percentage is rounded to two places before the comparison, so the
  last hundredth of a percent may be missing.\<close>

theorem cash_goal_achieved:
  assumes "gl_type g = Cash_Target" and "0 < gl_target g" and "gl_status g = Active"
    and "gl_status (refreshed now (compute_progress today now s g) g) = Achieved"
  shows "9999/10000 * gl_target g \<le> money (alloc_sum (gl_id g) (g_allocs s))"
proof (rule ccontr)
  let ?c = "money (alloc_sum (gl_id g) (g_allocs s))"
  assume "\<not> ?thesis"
  then have "?c / gl_target g \<le> 9999/10000" using assms(2) by (simp add: field_simps)
  then have "ddiv ?c (gl_target g) \<le> dctx (9999/10000)" unfolding ddiv_def by (rule dctx.r_mono)
  moreover have "dctx (9999/10000) = 9999/10000" by code_simp
  ultimately have "dmul (ddiv ?c (gl_target g)) 100 \<le> dctx (9999/100)"
    unfolding dmul_def by (intro dctx.r_mono) simp
  moreover have "dctx (9999/100) = 9999/100" by code_simp
  ultimately have "max (min (dmul (ddiv ?c (gl_target g)) 100) 100) 0 \<le> 9999/100" by simp
  then have "qhe 2 (max (min (dmul (ddiv ?c (gl_target g)) 100) 100) 0) \<le> qhe 2 (9999/100)" by (rule qhe_mono)
  moreover have "qhe 2 (9999/100) = 9999/100" by code_simp
  ultimately have "pr_percent (compute_progress today now s g) < 100"
    using assms(1,2) by (simp add: compute_progress_def compute_cash_target_def Let_def)
  then show False using assms(3,4) by (simp add: status_refreshed)
qed

lemma near_target: "qhe 2 (max (min (dmul (ddiv (money 99996) 100000) 100) 100) 0) = 100"
  by code_simp

text \<open>It does happen: 99996 of 100000 is achieved.\<close>

lemma achieved_early:
  "gl_status (refreshed now (compute_progress today now
     ((ex_gdb 99996)\<lparr>g_allocs := [\<lparr>al_id = 1, al_goal = 1, al_tx = 5, al_amount = 99996, al_source = Manual,
        al_rule = None, al_created = 0\<rparr>]\<rparr>) ex_goal_row) ex_goal_row) = Achieved"
  using near_target
  by (simp add: status_refreshed compute_progress_def compute_cash_target_def alloc_sum_def Let_def
      ex_goal_row_def)

lemma cash_goal_achieved_witness:
  "9999/10000 * 100000 \<le> money (99996::rat)"
  using cash_goal_achieved [OF _ _ _ achieved_early [of 0 "Date 2026 9 1"]]
  by (simp add: alloc_sum_def ex_goal_row_def)

subsection \<open>Sinking funds\<close>

lemma cent_floor:
  fixes x :: rat
  assumes "0 \<le> x" and "x < 10 ^ 20"
  shows "\<bar>qhu 2 (dctx x) - x\<bar> \<le> 1/100"
proof -
  define lo where "lo = of_int \<lfloor>x * 100\<rfloor> / (100::rat)"
  define hi where "hi = of_int (\<lfloor>x * 100\<rfloor> + 1) / (100::rat)"
  have lo: "lo \<le> x" "x < lo + 1/100" "0 \<le> lo" using assms(1) by (simp_all add: lo_def) linarith+
  have hi: "hi = lo + 1/100" by (simp add: lo_def hi_def field_simps)
  have g: "on_grid 2 lo" "on_grid 2 hi"
    by (rule on_gridI [where k = "\<lfloor>x * 100\<rfloor>"], simp add: lo_def,
        rule on_gridI [where k = "\<lfloor>x * 100\<rfloor> + 1"], simp add: hi_def)
  have fixed: "qhu 2 (dctx y) = y" if "on_grid 2 y" "0 \<le> y" "y < 10 ^ 21" for y
    using dctx_grid [OF that(1)] qhu_grid [OF that(1)] that(2,3) by simp
  have "lo < 10 ^ 21" "hi < 10 ^ 21" using lo hi assms(2) by simp_all
  then have "qhu 2 (dctx lo) = lo" "qhu 2 (dctx hi) = hi" using g lo hi by (intro fixed; simp)+
  moreover have "qhu 2 (dctx lo) \<le> qhu 2 (dctx x)" "qhu 2 (dctx x) \<le> qhu 2 (dctx hi)"
    using lo hi by (intro qhu_mono dctx.r_mono; simp)+
  ultimately have "lo \<le> qhu 2 (dctx x)" "qhu 2 (dctx x) \<le> lo + 1/100" using hi by simp_all
  then show ?thesis using lo unfolding abs_le_iff by linarith
qed

text \<open>The monthly amount of a sinking fund is right: paid in every month left, it meets what is
  missing to within a cent per month; the fund is done exactly when nothing is missing, and a
  target date that is no full month away asks for everything now.\<close>

theorem sinking_fund_meets_target:
  assumes "sinking_fund_plan target (Some t) current today = Some p"
    and "money target - money current < 10 ^ 20"
  shows "(sk_done p \<longleftrightarrow> money target \<le> money current) \<and>
    (\<not> sk_done p \<and> 0 < sk_months p \<longrightarrow>
       \<bar>of_nat (sk_months p) * sk_monthly p - (money target - money current)\<bar> \<le> of_nat (sk_months p) / 100) \<and>
    (\<not> sk_done p \<and> sk_months p = 0 \<longrightarrow> sk_monthly p = money target - money current)"
proof -
  let ?r = "money target - money current" let ?m = "months_until today t"
  have grid: "on_grid 2 ?r" unfolding money_def by (intro on_grid_diff) simp_all
  consider "?r \<le> 0" | "0 < ?r" "?m \<le> 0" | "0 < ?r" "0 < ?m" by linarith
  then show ?thesis
  proof cases
    case 1
    then show ?thesis using assms(1) by (auto simp: sinking_fund_plan_def Let_def)
  next
    case 2
    then show ?thesis using assms(1) qhu_grid [OF grid] by (auto simp: sinking_fund_plan_def Let_def)
  next
    case 3
    then have p: "p = \<lparr>sk_monthly = qhu 2 (ddiv ?r (of_int ?m)), sk_months = nat ?m, sk_late = False, sk_done = False\<rparr>"
      using assms(1) by (simp add: sinking_fund_plan_def Let_def)
    have m: "1 \<le> (of_int ?m :: rat)" using 3 by linarith
    have "?r / of_int ?m \<le> ?r" using 3 m by (simp add: divide_le_eq mult_le_cancel_left1)
    then have e: "\<bar>qhu 2 (ddiv ?r (of_int ?m)) - ?r / of_int ?m\<bar> \<le> 1/100"
      unfolding ddiv_def using 3 assms(2) by (intro cent_floor) simp_all
    have "of_int ?m * qhu 2 (ddiv ?r (of_int ?m)) - ?r = of_int ?m * (qhu 2 (ddiv ?r (of_int ?m)) - ?r / of_int ?m)"
      using m by (simp add: field_simps)
    then have "\<bar>of_int ?m * qhu 2 (ddiv ?r (of_int ?m)) - ?r\<bar> =
        of_int ?m * \<bar>qhu 2 (ddiv ?r (of_int ?m)) - ?r / of_int ?m\<bar>"
      using m by (simp add: abs_mult)
    also have "\<dots> \<le> of_int ?m * (1/100)" using e m by (intro mult_left_mono) simp_all
    finally show ?thesis using 3 unfolding p by simp
  qed
qed

lemma sinking_fund_meets_target_witness:
  "\<exists>p. sinking_fund_plan 1000 (Some (Date 2026 12 1)) 100 (Date 2026 9 1) = Some p \<and>
     \<bar>of_nat (sk_months p) * sk_monthly p - 900\<bar> \<le> of_nat (sk_months p) / 100"
proof -
  have m: "money 1000 = 1000" "money 100 = 100" by code_simp+
  obtain p where p: "sinking_fund_plan 1000 (Some (Date 2026 12 1)) 100 (Date 2026 9 1) = Some p"
    "sk_months p = 3"
    by (simp add: sinking_fund_plan_def m months_until_def Let_def)
  from sinking_fund_meets_target [OF p(1)] show ?thesis using p by (simp add: m)
qed

end
