(* ===== verification/Debt_Strategy_Laws.thy ===== *)
theory Debt_Strategy_Laws
  imports Debt_Strategy "HOL-Library.Multiset"
begin

text \<open>
  What the planner of theory Debt_Strategy guarantees: a simulation that ends before its bound has
  closed every debt, no money appears or disappears in it, the extra money follows the
  priority order, that order does not depend on the order of the rows, and an annuity pays its
  loan off.
\<close>

subsection \<open>Invariants of the simulation\<close>

text \<open>A property of the local variables that every assignment of a month keeps is kept by the
  month and by the loop.\<close>

lemma fold_inv: "(\<And>x s. x \<in> set xs \<Longrightarrow> P s \<Longrightarrow> P (f x s)) \<Longrightarrow> P s \<Longrightarrow> P (fold f xs s)"
  by (induction xs arbitrary: s) auto

lemma pay_extra_inv:
  "(\<And>s aid. aid \<in> set order \<Longrightarrow> kurus < sm_avail s \<Longrightarrow> kurus < sm_bal s aid \<Longrightarrow> P s \<Longrightarrow> P (pay_one rd aid s)) \<Longrightarrow>
   P s \<Longrightarrow> P (pay_extra rd order s)"
  by (induction rd order s rule: pay_extra.induct) auto

lemma month_step_inv:
  assumes "\<And>s. P s \<Longrightarrow> P (begin_month s)"
    and "\<And>s d. d \<in> set ds \<Longrightarrow> P s \<Longrightarrow> P (accrue rd d s)"
    and "\<And>s x. P s \<Longrightarrow> P (s\<lparr>sm_avail := x\<rparr>)"
    and "\<And>s aid. aid \<in> set order \<Longrightarrow> P s \<Longrightarrow> P (pay_min rd ds aid s)"
    and "\<And>s aid. aid \<in> set order \<Longrightarrow> kurus < sm_avail s \<Longrightarrow> kurus < sm_bal s aid \<Longrightarrow> P s \<Longrightarrow> P (pay_one rd aid s)"
    and "\<And>s x. P s \<Longrightarrow> P (s\<lparr>sm_schedule := x\<rparr>)"
    and "\<And>s x. P s \<Longrightarrow> P (s\<lparr>sm_extra := x\<rparr>)"
    and "P s"
  shows "P (month_step rd ds order s)"
proof -
  have 1: "P (fold (accrue rd) ds (begin_month s))"
    by (rule fold_inv [where P = P]) (use assms(1,2,8) in auto)
  have 2: "P (fold (pay_min rd ds) order (fold (accrue rd) ds (begin_month s)\<lparr>sm_avail := x\<rparr>))" for x
    by (rule fold_inv [where P = P]) (use assms(3,4) 1 in auto)
  have 3: "P (pay_extra rd order (fold (pay_min rd ds) order (fold (accrue rd) ds (begin_month s)\<lparr>sm_avail := x\<rparr>)))" for x
    by (rule pay_extra_inv [where P = P]) (use assms(5) 2 in auto)
  have 4: "P (fold (rollover rd ds) es (t\<lparr>sm_schedule := x\<rparr>))" if "P t" for es t x
    by (rule fold_inv [where P = P]) (use assms(6,7) that in \<open>auto simp: rollover_def\<close>)
  show ?thesis unfolding month_step_def Let_def by (rule 4) (rule 3)
qed

lemma sim_loop_inv:
  "(\<And>s. P s \<Longrightarrow> any_open ds s \<Longrightarrow> P (month_step rd ds order s)) \<Longrightarrow> P s \<Longrightarrow> P (sim_loop rd ds order n s)"
  by (induction n arbitrary: s) auto

text \<open>The month counter: a month counts one, the loop stops at its bound or when nothing is open.\<close>

lemma note_payoff_sel [simp]:
  "sm_month (note_payoff aid s) = sm_month s" "sm_avail (note_payoff aid s) = sm_avail s"
  "sm_bal (note_payoff aid s) = (sm_bal s)(aid := 0)" "sm_paid (note_payoff aid s) = sm_paid s"
  "sm_interest (note_payoff aid s) = sm_interest s"
  "fst ` set (sm_payoff (note_payoff aid s)) = insert aid (fst ` set (sm_payoff s))"
  by (auto simp: note_payoff_def)

lemma sm_month_step: "sm_month (month_step rd ds order s) = Suc (sm_month s)"
proof -
  have "sm_month (fold (accrue rd) ds (begin_month s)) = Suc (sm_month s)"
    by (rule fold_inv [where P = "\<lambda>x. sm_month x = Suc (sm_month s)"]) (auto simp: accrue_def begin_month_def Let_def)
  then have "sm_month (fold (pay_min rd ds) order (fold (accrue rd) ds (begin_month s)\<lparr>sm_avail := x\<rparr>)) = Suc (sm_month s)" for x
    by (intro fold_inv [where P = "\<lambda>x. sm_month x = Suc (sm_month s)"]) (auto simp: pay_min_def Let_def split: option.split)
  then have "sm_month (pay_extra rd order (fold (pay_min rd ds) order (fold (accrue rd) ds (begin_month s)\<lparr>sm_avail := x\<rparr>))) =
      Suc (sm_month s)" for x
    by (intro pay_extra_inv [where P = "\<lambda>x. sm_month x = Suc (sm_month s)"]) (auto simp: pay_one_def Let_def)
  then show ?thesis
    unfolding month_step_def Let_def rollover_def
    by (intro fold_inv [where P = "\<lambda>x. sm_month x = Suc (sm_month s)"]) auto
qed

lemma sim_loop_months:
  "sm_month (sim_loop rd ds order n s) \<le> sm_month s + n \<and>
   (sm_month (sim_loop rd ds order n s) < sm_month s + n \<longrightarrow> \<not> any_open ds (sim_loop rd ds order n s))"
proof (induction n arbitrary: s)
  case (Suc n)
  from Suc [of "month_step rd ds order s"] show ?case by (auto simp: sm_month_step)
qed simp

lemma sim_final_months:
  "sm_month (sim_final rd ds order ex) \<le> max_months"
  "sm_month (sim_final rd ds order ex) < max_months \<Longrightarrow> \<not> any_open ds (sim_final rd ds order ex)"
  using sim_loop_months [of rd ds order max_months "sim_init ds ex"]
  by (simp_all add: sim_final_def sim_init_def)

subsection \<open>Debts close\<close>

text \<open>The arithmetic the planner needs: the kurus it compares with is a value of its own.\<close>

locale money_arith = rounding r for r +
  assumes r_kurus: "r kurus = kurus"
begin

lemma residue_cases:
  obtains "whole_if_residue r b pay = b" "r (b - whole_if_residue r b pay) = 0"
  | "whole_if_residue r b pay = pay" "kurus \<le> r (b - whole_if_residue r b pay)"
  by (cases "r (b - pay) < kurus") (auto simp: whole_if_residue_def r_zero)

text \<open>A debt that was open is open, or closed and recorded, or rests at exactly a kurus.\<close>

definition traced :: "debt_item list \<Rightarrow> sim \<Rightarrow> bool" where
  "traced ds s \<longleftrightarrow> (\<forall>d \<in> set ds. kurus < di_balance d \<longrightarrow>
     kurus \<le> sm_bal s (di_id d) \<or> (sm_bal s (di_id d) = 0 \<and> di_id d \<in> fst ` set (sm_payoff s)))"

lemma traced_upd:
  assumes "traced ds s" "kurus \<le> x \<or> x = 0 \<and> aid \<in> fst ` set (sm_payoff s')"
    "fst ` set (sm_payoff s) \<subseteq> fst ` set (sm_payoff s')" "sm_bal s' = (sm_bal s)(aid := x)"
  shows "traced ds s'"
  unfolding traced_def
proof (intro ballI impI)
  fix d assume d: "d \<in> set ds" "kurus < di_balance d"
  show "kurus \<le> sm_bal s' (di_id d) \<or> (sm_bal s' (di_id d) = 0 \<and> di_id d \<in> fst ` set (sm_payoff s'))"
  proof (cases "di_id d = aid")
    case True
    then show ?thesis using assms(2,4) by auto
  next
    case False
    then show ?thesis using assms(1,3,4) d unfolding traced_def by auto
  qed
qed

lemma traced_accrue:
  assumes "traced ds s" and "0 \<le> di_rate d"
  shows "traced ds (accrue r d s)"
proof (cases "sm_bal s (di_id d) \<le> kurus")
  case True
  then show ?thesis using assms by (simp add: accrue_def)
next
  case False
  let ?b = "sm_bal s (di_id d)" let ?i = "r (?b * r (di_rate d / 100))"
  have k: "0 \<le> kurus" unfolding kurus_def by (rule fl.r_nonneg) simp
  have "0 \<le> r (di_rate d / 100)" using assms(2) by (intro r_nonneg) simp
  then have "0 \<le> ?i" using False k by (intro r_mult_nonneg) auto
  then have ge: "kurus \<le> r (?b + ?i)" using r_mono [of kurus "?b + ?i"] r_kurus False by simp
  have "sm_bal (accrue r d s) = (sm_bal s)(di_id d := r (?b + ?i))" "sm_payoff (accrue r d s) = sm_payoff s"
    using False by (simp_all add: accrue_def Let_def)
  then show ?thesis using ge
    by (intro traced_upd [OF assms(1), where aid = "di_id d" and x = "r (?b + ?i)"]) simp_all
qed

lemma kurus_pos: "0 < kurus"
  unfolding kurus_def by (rule fl_pos) simp

lemma traced_pay_min: "traced ds s \<Longrightarrow> traced ds (pay_min r es aid s)"
proof (cases "sm_bal s aid \<le> kurus \<or> find_row di_id aid es = None")
  case True
  then show "traced ds s \<Longrightarrow> ?thesis" by (auto simp: pay_min_def Let_def)
next
  case False
  then obtain d where d: "find_row di_id aid es = Some d" by auto
  assume t: "traced ds s"
  show ?thesis
    by (rule residue_cases [of "sm_bal s aid" "min (base_min r d (sm_bal s aid)) (sm_bal s aid)"];
        rule traced_upd [OF t, where aid = aid])
      (use False d kurus_pos in \<open>auto simp: pay_min_def Let_def note_payoff_def\<close>)
qed

lemma traced_pay_one: "traced ds s \<Longrightarrow> traced ds (pay_one r aid s)"
proof -
  assume t: "traced ds s"
  show ?thesis
    by (rule residue_cases [of "sm_bal s aid" "min (sm_avail s) (sm_bal s aid)"];
        rule traced_upd [OF t, where aid = aid])
      (use kurus_pos in \<open>auto simp: pay_one_def Let_def note_payoff_def\<close>)
qed

lemma traced_final:
  assumes "distinct (map di_id ds)" and "\<forall>d \<in> set ds. 0 \<le> di_rate d"
  shows "traced ds (sim_final r ds order ex)"
  unfolding sim_final_def
proof (rule sim_loop_inv [where P = "traced ds"])
  show "traced ds (sim_init ds ex)"
    using assms(1) by (auto simp: traced_def sim_init_def find_row_distinct)
  show "traced ds (month_step r ds order s)" if "traced ds s" for s
    by (rule month_step_inv [where P = "traced ds"])
      (use that assms(2) in \<open>simp_all add: traced_accrue traced_pay_min traced_pay_one, simp_all add: traced_def begin_month_def\<close>)
qed

lemma final_closed:
  assumes "distinct (map di_id ds)" and "\<forall>d \<in> set ds. 0 \<le> di_rate d"
    and "sm_month (sim_final r ds order ex) < max_months" and "d \<in> set ds" "kurus < di_balance d"
  shows "sm_bal (sim_final r ds order ex) (di_id d) = kurus \<or>
    (sm_bal (sim_final r ds order ex) (di_id d) = 0 \<and> di_id d \<in> fst ` set (sm_payoff (sim_final r ds order ex)))"
  using traced_final [OF assms(1,2), of order ex] sim_final_months(2) [OF assms(3)] assms(4,5)
  by (force simp: traced_def any_open_def list_ex_iff)

end

lemma kurus_value: "kurus = 5764607523034235 / 576460752303423488"
  by code_simp

lemma kurus_range: "0 < kurus" "kurus < 1"
  by (simp_all add: kurus_value)

lemma kurus_fl: "fl kurus = kurus"
  unfolding kurus_value by code_simp

interpretation fl: money_arith fl
  by unfold_locales (rule kurus_fl)

interpretation exact: money_arith "\<lambda>x. x"
  by unfold_locales simp_all

definition dated :: "sim \<Rightarrow> bool" where
  "dated s \<longleftrightarrow> (\<forall>(i, m) \<in> set (sm_payoff s). m \<le> sm_month s)"

lemma dated_final: "dated (sim_final rd ds order ex)"
  unfolding sim_final_def
proof (rule sim_loop_inv [where P = dated])
  show "dated (sim_init ds ex)" by (simp add: dated_def sim_init_def)
  show "dated (month_step rd ds order s)" if "dated s" for s
    by (rule month_step_inv [where P = dated]) (use that in
      \<open>auto simp: dated_def begin_month_def accrue_def pay_min_def pay_one_def note_payoff_def Let_def split: option.split if_splits\<close>)
qed

text \<open>C28: A plan that ends before the bound of 600 months closes the debts: every debt that was open
  ends at zero with a payoff month inside the plan, or rests at exactly one kurus, the one
  balance that is neither open nor counted as paid.\<close>

theorem strategy_closes_debts:
  assumes "distinct (map di_id ds)" and "\<forall>d \<in> set ds. 0 \<le> di_rate d"
    and "sr_months (simulate_debts fl ds order ex today) < max_months"
    and "d \<in> set ds" and "kurus < di_balance d"
  shows "sm_bal (sim_final fl ds order ex) (di_id d) = kurus \<or>
    (sm_bal (sim_final fl ds order ex) (di_id d) = 0 \<and>
     (\<exists>m. (di_id d, m) \<in> set (sr_payoff_months (simulate_debts fl ds order ex today)) \<and>
        m \<le> sr_months (simulate_debts fl ds order ex today)))"
proof -
  have ne: "ds \<noteq> []" using assms(4) by auto
  then have "sm_month (sim_final fl ds order ex) < max_months"
    using assms(3) by (simp add: simulate_debts_def Let_def)
  from fl.final_closed [OF assms(1,2) this assms(4,5)] dated_final [of fl ds order ex] show ?thesis
    using ne by (auto simp: simulate_debts_def Let_def dated_def)
qed

definition ex_loan :: debt_item where
  "ex_loan = \<lparr>di_id = 1, di_name = ''Kredi'', di_card = False, di_balance = 1000, di_rate = 0, di_min = 1000,
     di_ratio = 1/4, di_assumed = False\<rparr>"

definition ex_kart_debt :: debt_item where
  "ex_kart_debt = \<lparr>di_id = 2, di_name = ''Kart'', di_card = True, di_balance = 400, di_rate = 0, di_min = 100,
     di_ratio = 1, di_assumed = False\<rparr>"

lemma strategy_closes_debts_witness:
  "sm_bal (sim_final fl [ex_loan] [1] 0) 1 = kurus \<or> sm_bal (sim_final fl [ex_loan] [1] 0) 1 = 0"
proof -
  let ?s = "month_step fl [ex_loan] [1] (sim_init [ex_loan] 0)"
  have k: "kurus < di_balance ex_loan" using kurus_range by (simp add: ex_loan_def)
  have f: "fl 1000 = 1000" by code_simp
  have s: "sm_bal ?s 1 = 0" using kurus_range f
    by (simp add: month_step_def sim_init_def begin_month_def accrue_def pay_min_def base_min_def
        whole_if_residue_def note_payoff_def rollover_def ex_loan_def Let_def not_le)
  have i: "di_id ex_loan = 1" by (simp add: ex_loan_def)
  have "any_open [ex_loan] (sim_init [ex_loan] 0)" using k by (simp add: any_open_def sim_init_def)
  moreover have "\<not> any_open [ex_loan] ?s" using s kurus_range by (simp add: any_open_def i)
  ultimately have "sim_loop fl [ex_loan] [1] (Suc (Suc 598)) (sim_init [ex_loan] 0) = ?s"
    by (simp only: sim_loop.simps if_True if_False simp_thms)
  then have "sim_final fl [ex_loan] [1] 0 = ?s" by (simp add: sim_final_def max_months_def)
  then have m: "sr_months (simulate_debts fl [ex_loan] [1] 0 (Date 2026 9 1)) < max_months"
    by (simp add: simulate_debts_def Let_def sm_month_step sim_init_def max_months_def)
  have "di_id ex_loan = 1" "0 \<le> di_rate ex_loan" by (simp_all add: ex_loan_def)
  then show ?thesis using strategy_closes_debts [OF _ _ m _ k] by force
qed

subsection \<open>No money is lost\<close>

definition total_bal :: "debt_item list \<Rightarrow> sim \<Rightarrow> rat" where
  "total_bal ds s = (\<Sum>d\<leftarrow>ds. sm_bal s (di_id d))"

lemma total_bal_upd:
  assumes "distinct (map di_id ds)" and "d \<in> set ds" and "sm_bal s' = (sm_bal s)(di_id d := x)"
  shows "total_bal ds s' = total_bal ds s - sm_bal s (di_id d) + x"
proof -
  have eq: "(\<Sum>d\<leftarrow>ds. (f(i := x)) (di_id d)) = (\<Sum>d\<leftarrow>ds. f (di_id d)) + (if i \<in> di_id ` set ds then x - f i else 0)"
    for f :: "nat \<Rightarrow> rat" and i
    using assms(1) by (induction ds) auto
  show ?thesis using eq [of "sm_bal s" "di_id d"] assms(2,3) by (simp add: total_bal_def)
qed

definition balanced :: "debt_item list \<Rightarrow> sim \<Rightarrow> bool" where
  "balanced ds s \<longleftrightarrow> sm_paid s + total_bal ds s = (\<Sum>d\<leftarrow>ds. di_balance d) + sm_interest s"

lemma balanced_accrue:
  assumes "distinct (map di_id ds)" "d \<in> set ds" "balanced ds s"
  shows "balanced ds (accrue (\<lambda>x. x) d s)"
proof (cases "sm_bal s (di_id d) \<le> kurus")
  case True
  then show ?thesis using assms(3) by (simp add: accrue_def)
next
  case False
  let ?b = "sm_bal s (di_id d)" let ?i = "?b * (di_rate d / 100)"
  have "total_bal ds (accrue (\<lambda>x. x) d s) = total_bal ds s - ?b + (?b + ?i)"
    by (rule total_bal_upd [OF assms(1,2)]) (use False in \<open>simp add: accrue_def Let_def\<close>)
  then show ?thesis using assms(3) False by (simp add: balanced_def accrue_def Let_def)
qed

lemma whole_le: "pay \<le> b \<Longrightarrow> whole_if_residue rd b pay \<le> b"
  by (simp add: whole_if_residue_def)

lemma balanced_pay:
  assumes d: "distinct (map di_id ds)" "d \<in> set ds" "balanced ds s" and pay: "pay \<le> sm_bal s (di_id d)"
    and bal: "sm_bal s' = (sm_bal s)(di_id d := (if sm_bal s (di_id d) - pay \<le> 0 then 0 else sm_bal s (di_id d) - pay))"
    and "sm_paid s' = sm_paid s + pay" "sm_interest s' = sm_interest s"
  shows "balanced ds s'"
  using total_bal_upd [OF d(1,2) bal] pay assms(3,6,7) by (simp add: balanced_def split: if_splits)

lemma balanced_pay_min:
  assumes "distinct (map di_id ds)" "aid \<in> di_id ` set ds" "balanced ds s"
  shows "balanced ds (pay_min (\<lambda>x. x) ds aid s)"
proof (cases "sm_bal s aid \<le> kurus \<or> find_row di_id aid ds = None")
  case True
  then show ?thesis using assms(3) by (auto simp: pay_min_def Let_def)
next
  case False
  then obtain d where d: "find_row di_id aid ds = Some d" by auto
  then have ds: "d \<in> set ds" "di_id d = aid" by (simp_all add: find_row_Some_in find_row_Some_key)
  let ?pay = "whole_if_residue (\<lambda>x. x) (sm_bal s aid) (min (base_min (\<lambda>x. x) d (sm_bal s aid)) (sm_bal s aid))"
  have "?pay \<le> sm_bal s aid" by (rule whole_le) simp
  then show ?thesis
    by (intro balanced_pay [OF assms(1) ds(1) assms(3), where pay = ?pay])
      (use False d ds in \<open>auto simp: pay_min_def Let_def note_payoff_def\<close>)
qed

lemma balanced_pay_one:
  assumes "distinct (map di_id ds)" "aid \<in> di_id ` set ds" "balanced ds s"
  shows "balanced ds (pay_one (\<lambda>x. x) aid s)"
proof -
  obtain d where ds: "d \<in> set ds" "di_id d = aid" using assms(2) by auto
  let ?pay = "whole_if_residue (\<lambda>x. x) (sm_bal s aid) (min (sm_avail s) (sm_bal s aid))"
  have "?pay \<le> sm_bal s aid" by (rule whole_le) simp
  then show ?thesis
    by (intro balanced_pay [OF assms(1) ds(1) assms(3), where pay = ?pay])
      (use ds in \<open>auto simp: pay_one_def Let_def note_payoff_def\<close>)
qed

text \<open>C29: In exact arithmetic the planner neither makes nor loses money: whatever the order and the
  extra payment, what was paid and what is still owed add up to the debts and their interest.\<close>

theorem strategy_conserves_money:
  assumes "distinct (map di_id ds)" and "set order \<subseteq> di_id ` set ds"
  shows "sm_paid (sim_final (\<lambda>x. x) ds order ex) + (\<Sum>d\<leftarrow>ds. sm_bal (sim_final (\<lambda>x. x) ds order ex) (di_id d)) =
    (\<Sum>d\<leftarrow>ds. di_balance d) + sm_interest (sim_final (\<lambda>x. x) ds order ex)"
proof -
  have "balanced ds (sim_final (\<lambda>x. x) ds order ex)"
    unfolding sim_final_def
  proof (rule sim_loop_inv [where P = "balanced ds"])
    have "(\<Sum>d\<leftarrow>ds. case find_row di_id (di_id d) ds of Some d \<Rightarrow> di_balance d | None \<Rightarrow> 0) = (\<Sum>d\<leftarrow>ds. di_balance d)"
      by (rule arg_cong [where f = sum_list], rule map_cong) (auto simp: find_row_distinct [OF assms(1)])
    then show "balanced ds (sim_init ds ex)" by (simp add: balanced_def total_bal_def sim_init_def)
    show "balanced ds (month_step (\<lambda>x. x) ds order s)" if "balanced ds s" for s
      by (rule month_step_inv [where P = "balanced ds"])
        (use that assms balanced_accrue balanced_pay_min balanced_pay_one in
          \<open>auto simp: balanced_def total_bal_def begin_month_def\<close>)
  qed
  then show ?thesis by (simp add: balanced_def total_bal_def)
qed

lemma strategy_conserves_money_witness:
  "sm_paid (sim_final (\<lambda>x. x) [ex_loan, ex_kart_debt] [2, 1] 100) +
     (\<Sum>d\<leftarrow>[ex_loan, ex_kart_debt]. sm_bal (sim_final (\<lambda>x. x) [ex_loan, ex_kart_debt] [2, 1] 100) (di_id d)) =
   1400 + sm_interest (sim_final (\<lambda>x. x) [ex_loan, ex_kart_debt] [2, 1] 100)"
  using strategy_conserves_money [of "[ex_loan, ex_kart_debt]" "[2, 1]" 100]
  by (simp add: ex_loan_def ex_kart_debt_def)

subsection \<open>Priority\<close>

lemma pay_one_bal: "a \<noteq> aid \<Longrightarrow> sm_bal (pay_one rd aid s) a = sm_bal s a"
  by (simp add: pay_one_def Let_def)

lemma pay_extra_frame: "a \<notin> set order \<Longrightarrow> sm_bal (pay_extra rd order s) a = sm_bal s a"
  by (induction rd order s rule: pay_extra.induct) (auto simp: pay_one_bal)

context money_arith
begin

text \<open>A payment of extra money closes the debt or exhausts the money.\<close>

lemma pay_one_done:
  "sm_bal (pay_one r aid s) aid \<le> kurus \<or> sm_avail (pay_one r aid s) \<le> kurus"
proof (cases rule: residue_cases [of "sm_bal s aid" "min (sm_avail s) (sm_bal s aid)"])
  case 1
  then show ?thesis using kurus_pos by (simp add: pay_one_def Let_def)
next
  case 2
  let ?b = "sm_bal s aid" let ?p = "min (sm_avail s) ?b"
  have "0 < r (?b - ?p)" using 2 kurus_pos by simp
  then have "?p = sm_avail s" using r_pos_arg by fastforce
  then show ?thesis using 2 kurus_pos r_zero by (simp add: pay_one_def Let_def)
qed

lemma waterfall:
  "distinct order \<Longrightarrow>
   sorted_wrt (\<lambda>a b. sm_bal (pay_extra r order s) b \<noteq> sm_bal s b \<longrightarrow> sm_bal (pay_extra r order s) a \<le> kurus) order \<and>
   (sm_avail (pay_extra r order s) \<le> kurus \<or> (\<forall>a \<in> set order. sm_bal (pay_extra r order s) a \<le> kurus))"
proof (induction order arbitrary: s)
  case (Cons aid order)
  then have new: "aid \<notin> set order" and d: "distinct order" by simp_all
  show ?case
  proof (cases "sm_avail s \<le> kurus")
    case True
    then show ?thesis by (induction order) auto
  next
    case avail: False
    show ?thesis
    proof (cases "sm_bal s aid \<le> kurus")
      case True
      then show ?thesis using avail Cons.IH [OF d, of s] pay_extra_frame [OF new, of r s] by simp
    next
      case False
      let ?s1 = "pay_one r aid s" let ?t = "pay_extra r order ?s1"
      have t: "pay_extra r (aid # order) s = ?t" using avail False by simp
      have same: "sm_bal ?s1 b = sm_bal s b" if "b \<in> set order" for b
        using that new by (metis pay_one_bal)
      have "sm_bal ?t aid = sm_bal ?s1 aid" by (rule pay_extra_frame [OF new])
      moreover have "?t = ?s1" if "sm_avail ?s1 \<le> kurus" using that by (cases order) simp_all
      moreover have "sorted_wrt (\<lambda>a b. sm_bal ?t b \<noteq> sm_bal s b \<longrightarrow> sm_bal ?t a \<le> kurus) order"
        by (rule sorted_wrt_mono_rel [OF _ Cons.IH [OF d, THEN conjunct1], of ?s1]) (simp add: same)
      ultimately show ?thesis
        unfolding t using pay_one_done [of aid s] Cons.IH [OF d, of ?s1] same by auto
    qed
  qed
qed simp

end

text \<open>The extra money follows the strategy: a debt gets some of it only when every debt before it in
  the priority order is closed, and money is left over only when all are.\<close>

theorem extra_follows_priority:
  assumes "distinct order"
  shows "sorted_wrt (\<lambda>a b. sm_bal (pay_extra fl order s) b \<noteq> sm_bal s b \<longrightarrow> sm_bal (pay_extra fl order s) a \<le> kurus) order \<and>
   (sm_avail (pay_extra fl order s) \<le> kurus \<or> (\<forall>a \<in> set order. sm_bal (pay_extra fl order s) a \<le> kurus))"
  by (rule fl.waterfall [OF assms])

lemma extra_follows_priority_witness:
  "sm_avail (pay_extra fl [2, 1] (sim_init [ex_loan, ex_kart_debt] 100)) \<le> kurus \<or>
   (\<forall>a \<in> set [2, 1]. sm_bal (pay_extra fl [2, 1] (sim_init [ex_loan, ex_kart_debt] 100)) a \<le> kurus)"
  using extra_follows_priority [of "[2, 1]" "sim_init [ex_loan, ex_kart_debt] 100"] by simp

subsection \<open>The order does not depend on the rows\<close>

lemma sorted_wrt_lex:
  fixes f :: "'a \<Rightarrow> 'b::linorder" and g :: "'a \<Rightarrow> 'c::linorder"
  assumes "sorted (map f xs)" and "\<And>k. sorted_wrt (\<lambda>a b. g a < g b) (filter (\<lambda>x. f x = k) xs)"
  shows "sorted_wrt (\<lambda>a b. f a < f b \<or> f a = f b \<and> g a < g b) xs"
  using assms
proof (induction xs)
  case (Cons x xs)
  have IH: "sorted_wrt (\<lambda>a b. f a < f b \<or> f a = f b \<and> g a < g b) xs"
  proof (rule Cons.IH)
    show "sorted (map f xs)" using Cons.prems(1) by simp
    show "sorted_wrt (\<lambda>a b. g a < g b) (filter (\<lambda>x. f x = k) xs)" for k
      using Cons.prems(2) [of k] by (simp split: if_splits)
  qed
  have "f x < f y \<or> f x = f y \<and> g x < g y" if "y \<in> set xs" for y
  proof (cases "f y = f x")
    case True
    then show ?thesis using Cons.prems(2) [of "f x"] that by auto
  next
    case False
    then show ?thesis using Cons.prems(1) that by auto
  qed
  then show ?case using IH by simp
qed simp

lemma sorted_by_id: "distinct (map di_id ds) \<Longrightarrow> sorted_wrt (\<lambda>a b. di_id a < di_id b) (sort_key di_id ds)"
proof -
  assume "distinct (map di_id ds)"
  then have "distinct (map di_id (sort_key di_id ds))"
    by (metis distinct_map distinct_sort set_sort)
  then have "sorted_wrt (<) (map di_id (sort_key di_id ds))" by (simp add: strict_sorted_iff)
  then show ?thesis by (simp add: sorted_wrt_map)
qed

lemma sort_two_keys:
  assumes "distinct (map di_id ds)"
  shows "sorted_wrt (\<lambda>a b. f a < f b \<or> f a = f b \<and> di_id a < di_id b) (sort_key f (sort_key di_id ds))"
proof (rule sorted_wrt_lex)
  show "sorted (map f (sort_key f (sort_key di_id ds)))" by simp
  show "sorted_wrt (\<lambda>a b. di_id a < di_id b) (filter (\<lambda>x. f x = k) (sort_key f (sort_key di_id ds)))" for k
    unfolding sort_key_stable by (rule sorted_wrt_filter) (rule sorted_by_id [OF assms])
qed

text \<open>Both strategies put every debt exactly once into an order that is strict in its key and the
  id (smallest balance first, highest rate first), and the order is the same whatever order
  the database returned the rows in.\<close>

theorem strategy_order:
  assumes "distinct (map di_id ds)" and "mset ds' = mset ds"
  shows "snowball_order ds' = snowball_order ds \<and> avalanche_order ds' = avalanche_order ds \<and>
    mset (snowball_order ds) = mset ds \<and> mset (avalanche_order ds) = mset ds \<and>
    sorted_wrt (\<lambda>a b. di_balance a < di_balance b \<or> di_balance a = di_balance b \<and> di_id a < di_id b) (snowball_order ds) \<and>
    sorted_wrt (\<lambda>a b. di_rate b < di_rate a \<or> di_rate a = di_rate b \<and> di_id a < di_id b) (avalanche_order ds)"
proof -
  have "set ds' = set ds" using assms(2) by (rule mset_eq_setD)
  then have "sort_key di_id ds' = sort_key di_id ds"
    using assms by (intro sort_key_inj_key_eq) (simp_all add: distinct_map)
  then show ?thesis
    using sort_two_keys [OF assms(1), of di_balance] sort_two_keys [OF assms(1), of "\<lambda>d. - di_rate d"]
    by (simp add: snowball_order_def avalanche_order_def)
qed

lemma strategy_order_witness:
  "snowball_order [ex_kart_debt, ex_loan] = snowball_order [ex_loan, ex_kart_debt]"
  using strategy_order [of "[ex_loan, ex_kart_debt]" "[ex_kart_debt, ex_loan]"]
  by (simp add: ex_loan_def ex_kart_debt_def add_mset_commute)

subsection \<open>Annuity and spreading\<close>

text \<open>What is owed after \<open>k\<close> payments of \<open>t\<close> at the monthly rate \<open>q\<close>.\<close>

fun owed :: "rat \<Rightarrow> rat \<Rightarrow> rat \<Rightarrow> nat \<Rightarrow> rat" where
  "owed p q t 0 = p"
| "owed p q t (Suc k) = owed p q t k * (1 + q) - t"

lemma owed_closed: "q \<noteq> 0 \<Longrightarrow> owed p q t k = p * (1 + q) ^ k - t * ((1 + q) ^ k - 1) / q"
proof (induction k)
  case (Suc k)
  have "(p * F - t * (F - 1) / q) * (1 + q) - t = p * (F * (1 + q)) - t * (F * (1 + q) - 1) / q" for F
    using Suc.prems by (simp add: field_simps)
  then show ?case unfolding owed.simps Suc.IH [OF Suc.prems] power_Suc2 .
qed simp

lemma owed_free: "owed p 0 t k = p - of_nat k * t"
  by (induction k) (simp_all add: algebra_simps)

text \<open>In exact arithmetic the annuity is the right one: after as many payments as the loan has
  months nothing is owed, with interest and without.\<close>

theorem annuity_pays_off:
  assumes "0 < n"
  shows "owed p (if rate \<le> 1/1000000 then 0 else rate / 100)
    (annuity_payment (\<lambda>x. x) (\<lambda>x k. Some (x ^ k)) p rate (int n)) n = 0"
proof (cases "rate \<le> 1/1000000")
  case True
  then show ?thesis using assms by (simp add: owed_free annuity_payment_def)
next
  case False
  define q where "q = rate / 100"
  have q: "0 < q" using False by (simp add: q_def)
  then have F: "1 < (1 + q) ^ n" using assms by (intro one_less_power) simp_all
  have zero: "p * F - (p * q * F / (F - 1)) * (F - 1) / q = 0" if "F \<noteq> 1" for F
    using that q by simp
  have "annuity_payment (\<lambda>x. x) (\<lambda>x k. Some (x ^ k)) p rate (int n) = p * q * (1 + q) ^ n / ((1 + q) ^ n - 1)"
    using False assms by (simp add: annuity_payment_def Let_def q_def)
  then show ?thesis using zero [of "(1 + q) ^ n"] F q False
    by (simp add: owed_closed q_def [symmetric])
qed

lemma annuity_pays_off_witness:
  "owed 1000 (4/100) (annuity_payment (\<lambda>x. x) (\<lambda>x k. Some (x ^ k)) 1000 4 (int 12)) 12 = 0"
  using annuity_pays_off [of 12 1000 4] by simp

end
