(* ===== verification/Usage_Limits.thy ===== *)
theory Usage_Limits
  imports Data_Model
begin

text \<open>
  The limits on the use of the service: the cost ledger of the language model calls
  (app/llm_cost.py), the daily quota with its reservation protocol (app/llm_quota.py) and the
  sliding window rate limiter with its two stores, process memory and database
  (app/rate_limit.py).

  The clock is a parameter. The quota's environment limit is already read as the parameter
  \<open>cap\<close>. The provider's usage numbers are data of the ledger. The masking of error messages
  and the fallback of the database limiter to memory on a database error are not modelled.
\<close>

subsection \<open>What a call costs\<close>

record fiyat =
  giris_usd_1m :: rat
  cikis_usd_1m :: rat

type_synonym price_list = "((string \<times> string) \<times> fiyat) list"

definition FIYATLAR :: price_list where
  "FIYATLAR = map (\<lambda>(p, m, i, out). ((p, m), \<lparr>giris_usd_1m = i, cikis_usd_1m = out\<rparr>))
    [(''anthropic'', ''claude-opus-5'', 5, 25), (''anthropic'', ''claude-opus-4-8'', 5, 25),
     (''anthropic'', ''claude-sonnet-5'', 3, 15), (''anthropic'', ''claude-haiku-4-5'', 1, 5),
     (''gemini'', ''gemini-2.5-flash-lite'', 1/10, 4/10), (''gemini'', ''gemini-2.5-flash'', 3/10, 25/10),
     (''gemini'', ''gemini-2.5-pro'', 125/100, 10), (''groq'', ''openai/gpt-oss-120b'', 15/100, 6/10),
     (''groq'', ''llama-3.3-70b-versatile'', 59/100, 79/100), (''groq'', ''llama-3.1-8b-instant'', 5/100, 8/100),
     (''openrouter'', ''meta-llama/llama-3.3-70b-instruct:free'', 0, 0),
     (''together'', ''meta-llama/llama-3.3-70b-instruct-turbo-free'', 0, 0)]"

text \<open>The names reach the table normalised: \<open>(x or "").strip().lower()\<close>. \<open>ollama\<close> is free
  whatever the model.\<close>

definition fiyat_bul :: "string \<Rightarrow> string \<Rightarrow> fiyat option" where
  "fiyat_bul provider model =
     (if provider = ''ollama'' then Some \<lparr>giris_usd_1m = 0, cikis_usd_1m = 0\<rparr>
      else map_of FIYATLAR (provider, model))"

definition maliyet_usd :: "string \<Rightarrow> string \<Rightarrow> nat option \<Rightarrow> nat option \<Rightarrow> rat option" where
  "maliyet_usd provider model tokens_in tokens_out =
     (case fiyat_bul provider model of
        None \<Rightarrow> None
      | Some f \<Rightarrow>
          if giris_usd_1m f = 0 \<and> cikis_usd_1m f = 0 then Some 0
          else if tokens_in = None \<and> tokens_out = None then None
          else Some (qhe 6 (dmul (ddiv (of_nat (case tokens_in of None \<Rightarrow> 0 | Some n \<Rightarrow> n)) 1000000) (giris_usd_1m f)
                          + dmul (ddiv (of_nat (case tokens_out of None \<Rightarrow> 0 | Some n \<Rightarrow> n)) 1000000) (cikis_usd_1m f))))"

subsection \<open>The call ledger\<close>

datatype call_status = Call_Success | Call_Failed
datatype amac = Koc | Premortem | Yansima

record call_log =
  cl_id :: nat
  cl_user :: nat
  cl_provider :: string
  cl_model :: string
  cl_status :: call_status
  cl_tokens_in :: "nat option"
  cl_tokens_out :: "nat option"
  cl_cost :: "rat option"
  cl_amac :: amac
  cl_duration :: "nat option"
  cl_at :: int

text \<open>One request that went out to a provider.\<close>

record cagri =
  cg_saglayici :: string
  cg_model :: "string option"
  cg_in :: "nat option"
  cg_out :: "nat option"
  cg_sure :: "nat option"

text \<open>The start of the UTC day; the clock counts seconds.\<close>

definition gun_baslangici :: "int \<Rightarrow> int" where
  "gun_baslangici now = now - now mod 86400"

definition bugunku_cagri_sayisi :: "int \<Rightarrow> nat \<Rightarrow> call_log list \<Rightarrow> nat" where
  "bugunku_cagri_sayisi now u rows = length (filter (\<lambda>r. cl_user r = u \<and> gun_baslangici now \<le> cl_at r) rows)"

definition paylasilan_cagri_sayisi :: "int \<Rightarrow> string \<Rightarrow> call_log list \<Rightarrow> nat" where
  "paylasilan_cagri_sayisi now provider rows =
     length (filter (\<lambda>r. cl_provider r = provider \<and> gun_baslangici now \<le> cl_at r) rows)"

text \<open>The environment variable as \<open>int(...)\<close> reads it: \<open>None\<close> is a \<open>ValueError\<close>.\<close>

definition kullanici_gunluk_tavan :: "int option \<Rightarrow> nat" where
  "kullanici_gunluk_tavan v = (case v of None \<Rightarrow> 80 | Some n \<Rightarrow> nat (max 0 n))"

fun sayim :: "cagri list \<Rightarrow> (string \<times> nat) list \<Rightarrow> (string \<times> nat) list" where
  "sayim [] ozet = ozet"
| "sayim (c # cs) ozet = sayim cs (dset (cg_saglayici c)
     ((case map_of ozet (cg_saglayici c) of None \<Rightarrow> 0 | Some n \<Rightarrow> n) + 1) ozet)"

definition satiri_doldur :: "cagri \<Rightarrow> amac \<Rightarrow> call_log \<Rightarrow> call_log" where
  "satiri_doldur c am r = r\<lparr>cl_provider := cg_saglayici c,
     cl_model := (case cg_model c of Some m \<Rightarrow> if m = [] then cl_model r else m | None \<Rightarrow> cl_model r),
     cl_tokens_in := cg_in c, cl_tokens_out := cg_out c,
     cl_cost := maliyet_usd (cg_saglayici c) (case cg_model c of None \<Rightarrow> [] | Some m \<Rightarrow> m) (cg_in c) (cg_out c),
     cl_duration := cg_sure c, cl_amac := am\<rparr>"

definition ek_satir :: "int \<Rightarrow> nat \<Rightarrow> amac \<Rightarrow> call_log list \<Rightarrow> cagri \<Rightarrow> call_log list" where
  "ek_satir now u am rows c = rows @ [satiri_doldur c am
     \<lparr>cl_id = next_key cl_id rows, cl_user = u, cl_provider = cg_saglayici c,
      cl_model = (case cg_model c of Some m \<Rightarrow> if m = [] then ''?'' else m | None \<Rightarrow> ''?''),
      cl_status = Call_Success, cl_tokens_in = None, cl_tokens_out = None, cl_cost = None,
      cl_amac = am, cl_duration = None, cl_at = now\<rparr>]"

text \<open>\<open>ek_cagrilari_uzlastir\<close>: the first measured request fills the reservation's row, every
  other one adds a row; the result is the number of rows added.\<close>

definition ek_cagrilari_uzlastir ::
  "int \<Rightarrow> nat \<Rightarrow> amac \<Rightarrow> cagri list \<Rightarrow> nat option \<Rightarrow> call_log list \<Rightarrow> call_log list \<times> nat" where
  "ek_cagrilari_uzlastir now u am olcum rezervasyon rows =
     (case olcum of [] \<Rightarrow> (rows, 0)
      | c # cs \<Rightarrow> (case rezervasyon of
          Some i \<Rightarrow> (fold (\<lambda>x rs. ek_satir now u am rs x) cs (upd_row cl_id i (satiri_doldur c am) rows), length cs)
        | None \<Rightarrow> (fold (\<lambda>x rs. ek_satir now u am rs x) olcum rows, length olcum)))"

subsection \<open>The reservation\<close>

text \<open>\<open>rezerve_et\<close> up to its first commit: the row of a call not made yet.\<close>

definition rezerve_yaz :: "int \<Rightarrow> nat \<Rightarrow> string \<Rightarrow> string \<Rightarrow> amac \<Rightarrow> call_log list \<Rightarrow> nat \<times> call_log list" where
  "rezerve_yaz now u provider model am rows =
     (let i = next_key cl_id rows in
      (i, rows @ [\<lparr>cl_id = i, cl_user = u, cl_provider = provider, cl_model = model,
        cl_status = Call_Failed, cl_tokens_in = None, cl_tokens_out = None, cl_cost = None,
        cl_amac = am, cl_duration = None, cl_at = now\<rparr>]))"

text \<open>The place of a row in today's queue of its user.\<close>

definition sira :: "int \<Rightarrow> nat \<Rightarrow> nat \<Rightarrow> call_log list \<Rightarrow> nat" where
  "sira now u i rows = length (filter (\<lambda>r. cl_user r = u \<and> gun_baslangici now \<le> cl_at r \<and> cl_id r \<le> i) rows)"

definition iptal_et :: "nat \<Rightarrow> call_log list \<Rightarrow> call_log list" where
  "iptal_et i rows = del_row cl_id i rows"

text \<open>The check after the commit: \<open>None\<close> when the reservation is taken back.\<close>

definition rezerve_kontrol :: "int \<Rightarrow> nat \<Rightarrow> nat \<Rightarrow> nat \<Rightarrow> call_log list \<Rightarrow> nat option \<times> call_log list" where
  "rezerve_kontrol now cap u i rows =
     (if cap \<noteq> 0 \<and> cap < sira now u i rows then (None, iptal_et i rows) else (Some i, rows))"

definition rezerve_et ::
  "int \<Rightarrow> nat \<Rightarrow> nat \<Rightarrow> string \<Rightarrow> string \<Rightarrow> amac \<Rightarrow> call_log list \<Rightarrow> nat option \<times> call_log list" where
  "rezerve_et now cap u provider model am rows =
     (case rezerve_yaz now u provider model am rows of (i, rows') \<Rightarrow> rezerve_kontrol now cap u i rows')"

definition tamamla :: "nat \<Rightarrow> string option \<Rightarrow> bool \<Rightarrow> nat option \<Rightarrow> call_log list \<Rightarrow> call_log list" where
  "tamamla i provider success duration rows = upd_row cl_id i (\<lambda>r. r\<lparr>
     cl_provider := (case provider of Some p \<Rightarrow> if p = [] then cl_provider r else p | None \<Rightarrow> cl_provider r),
     cl_status := (if success then Call_Success else Call_Failed),
     cl_duration := (case duration of None \<Rightarrow> cl_duration r | Some d \<Rightarrow> Some d)\<rparr>) rows"

text \<open>Concurrent requests: the two halves of a reservation are separate steps, and anything
  can happen in between.\<close>

record quota_state =
  qs_rows :: "call_log list"
  qs_now :: int
  qs_waiting :: "(nat \<times> nat) list"
  qs_granted :: "nat list"

inductive quota_step :: "nat \<Rightarrow> quota_state \<Rightarrow> quota_state \<Rightarrow> bool" for cap where
  Reserve: "rezerve_yaz (qs_now s) u p m am (qs_rows s) = (i, rows) \<Longrightarrow>
    quota_step cap s (s\<lparr>qs_rows := rows, qs_waiting := (i, u) # qs_waiting s\<rparr>)"
| Check: "(i, u) \<in> set (qs_waiting s) \<Longrightarrow> rezerve_kontrol (qs_now s) cap u i (qs_rows s) = (r, rows) \<Longrightarrow>
    quota_step cap s (s\<lparr>qs_rows := rows, qs_waiting := filter (\<lambda>w. fst w \<noteq> i) (qs_waiting s),
      qs_granted := (case r of None \<Rightarrow> qs_granted s | Some j \<Rightarrow> j # qs_granted s)\<rparr>)"
| Cancel: "i \<in> set (qs_granted s) \<Longrightarrow>
    quota_step cap s (s\<lparr>qs_rows := iptal_et i (qs_rows s), qs_granted := filter (\<lambda>j. j \<noteq> i) (qs_granted s)\<rparr>)"
| Reconcile: "i \<in> set (qs_granted s) \<Longrightarrow>
    ek_cagrilari_uzlastir (qs_now s) u am olcum (Some i) (qs_rows s) = (rows, n) \<Longrightarrow>
    quota_step cap s (s\<lparr>qs_rows := rows\<rparr>)"
| Complete: "i \<in> set (qs_granted s) \<Longrightarrow>
    quota_step cap s (s\<lparr>qs_rows := tamamla i p ok d (qs_rows s)\<rparr>)"
| Tick: "qs_now s \<le> t \<Longrightarrow> quota_step cap s (s\<lparr>qs_now := t\<rparr>)"

subsection \<open>The rate limiter\<close>

text \<open>\<open>(max_istek, pencere_saniye)\<close>; the environment's override is the parameter \<open>env\<close>.\<close>

definition limit_for :: "(string \<Rightarrow> (nat option \<times> nat option)) \<Rightarrow> string \<Rightarrow> nat \<times> nat" where
  "limit_for env bucket =
     (let (max_d, win_d) = (case map_of [(''login'', (5, 900)), (''register'', (3, 3600)), (''pwreset'', (3, 3600)),
            (''oauth'', (10, 60)), (''invite'', (10, 3600)), (''prices'', (30, 60)), (''actions'', (60, 60)),
            (''istemci_hata'', (30, 60))] bucket of None \<Rightarrow> (10, 60) | Some v \<Rightarrow> v)
      in (case fst (env bucket) of None \<Rightarrow> max_d | Some n \<Rightarrow> n, case snd (env bucket) of None \<Rightarrow> win_d | Some n \<Rightarrow> n))"

text \<open>\<open>client_ip\<close>: behind the trusted proxy the last non-empty part of X-Forwarded-For, the
  parts already split at the commas and stripped.\<close>

definition client_ip :: "bool \<Rightarrow> string list \<Rightarrow> string option \<Rightarrow> string" where
  "client_ip trust xff host =
     (let parcalar = filter (\<lambda>p. p \<noteq> []) xff in
      if trust \<and> parcalar \<noteq> [] then last parcalar
      else (case host of Some h \<Rightarrow> h | None \<Rightarrow> ''unknown''))"

definition limit_memory :: "nat \<Rightarrow> rat \<Rightarrow> rat \<Rightarrow> rat list \<Rightarrow> nat \<times> rat list" where
  "limit_memory max_r window now q =
     (let q' = dropWhile (\<lambda>t. window < now - t) q in
      if max_r \<le> length q' then (max_r + 1, q') else (length (q' @ [now]), q' @ [now]))"

type_synonym hit = "string \<times> rat"

definition limit_db :: "string \<Rightarrow> nat \<Rightarrow> rat \<Rightarrow> rat \<Rightarrow> hit list \<Rightarrow> nat \<times> hit list" where
  "limit_db key max_r window now hits =
     (let esik = now - window;
          hits' = filter (\<lambda>(k, t). \<not> (k = key \<and> t < esik)) hits @ [(key, now)]
      in (length (filter (\<lambda>(k, t). k = key \<and> esik \<le> t) hits'), hits'))"

record rate_state =
  rs_limit :: nat
  rs_kalan :: nat
  rs_pencere :: rat

text \<open>\<open>rate_limit\<close>: the headers and whether the request goes through; the store is a
  parameter.\<close>

definition rate_limit ::
  "(rat \<Rightarrow> 's \<Rightarrow> nat \<times> 's) \<Rightarrow> nat \<Rightarrow> rat \<Rightarrow> rat \<Rightarrow> 's \<Rightarrow> bool \<times> rate_state \<times> 's" where
  "rate_limit store max_r window now s =
     (case store now s of (sayi, s') \<Rightarrow>
       (\<not> max_r < sayi, \<lparr>rs_limit = max_r, rs_kalan = max_r - sayi, rs_pencere = window\<rparr>, s'))"

text \<open>A sequence of requests of one client, and which of them are admitted.\<close>

fun serve_all :: "(rat \<Rightarrow> 's \<Rightarrow> bool \<times> 's) \<Rightarrow> rat list \<Rightarrow> 's \<Rightarrow> bool list" where
  "serve_all step [] s = []"
| "serve_all step (t # ts) s = (case step t s of (b, s') \<Rightarrow> b # serve_all step ts s')"

definition admit_memory :: "nat \<Rightarrow> rat \<Rightarrow> rat \<Rightarrow> rat list \<Rightarrow> bool \<times> rat list" where
  "admit_memory max_r window now q =
     (case rate_limit (limit_memory max_r window) max_r window now q of (b, h, q') \<Rightarrow> (b, q'))"

definition admit_db :: "string \<Rightarrow> nat \<Rightarrow> rat \<Rightarrow> rat \<Rightarrow> hit list \<Rightarrow> bool \<times> hit list" where
  "admit_db key max_r window now hits =
     (case rate_limit (limit_db key max_r window) max_r window now hits of (b, h, hits') \<Rightarrow> (b, hits'))"

end
