(* ===== verification/Usage_Laws.thy ===== *)
theory Usage_Laws
  imports Usage_Limits
begin

text \<open>
  What the limits guarantee. The two stores of the rate limiter are interpretations of one
  contract, the sliding window: what is admitted was recorded, a refusal means the window is
  full. Safety and liveness of the limiter are proved from the contract once. The quota is a
  transition system of interleaved requests; its invariant ranks every granted reservation.
\<close>

subsection \<open>The sliding window contract\<close>

definition recent :: "rat \<Rightarrow> rat \<Rightarrow> rat list \<Rightarrow> rat list" where
  "recent window t ts = filter (\<lambda>x. t - window \<le> x) ts"

lemma recent_append [simp]: "recent w t (xs @ ys) = recent w t xs @ recent w t ys"
  by (simp add: recent_def)

lemma recent_snoc_now: "0 \<le> w \<Longrightarrow> recent w t (xs @ [t]) = recent w t xs @ [t]"
  by (simp add: recent_def)

text \<open>The admitted times of a run.\<close>

definition admitted_times :: "rat list \<Rightarrow> bool list \<Rightarrow> rat list" where
  "admitted_times ts bs = map fst (filter snd (zip ts bs))"

locale sliding_window =
  fixes step :: "rat \<Rightarrow> 's \<Rightarrow> bool \<times> 's" and hits :: "'s \<Rightarrow> rat list"
    and max_r :: nat and window :: rat and ok :: "rat \<Rightarrow> 's \<Rightarrow> bool"
  assumes window_nonneg: "0 \<le> window"
    and step_ok: "ok t0 s \<Longrightarrow> t0 \<le> now \<Longrightarrow> step now s = (b, s') \<Longrightarrow> ok now s'"
    and admitted: "ok t0 s \<Longrightarrow> t0 \<le> now \<Longrightarrow> step now s = (True, s') \<Longrightarrow>
      length (recent window now (hits s)) < max_r \<and>
      (\<forall>t \<ge> now. length (recent window t (hits s @ [now])) \<le> length (recent window t (hits s')))"
    and refused: "ok t0 s \<Longrightarrow> t0 \<le> now \<Longrightarrow> step now s = (False, s') \<Longrightarrow>
      max_r \<le> length (recent window now (hits s)) \<and>
      (\<forall>t \<ge> now. length (recent window t (hits s)) \<le> length (recent window t (hits s')))"
    and recorded: "ok t0 s \<Longrightarrow> t0 \<le> now \<Longrightarrow> step now s = (b, s') \<Longrightarrow>
      set (hits s') \<subseteq> insert now (set (hits s))"
begin

lemma run_safe:
  assumes "ok t0 s" "sorted (t0 # ts)"
    and acc: "\<forall>t \<ge> t0. length (recent window t acc) \<le> length (recent window t (hits s))"
    and len: "i < length ts" "serve_all step ts s ! i"
  shows "length (recent window (ts ! i)
    (acc @ admitted_times (take (Suc i) ts) (take (Suc i) (serve_all step ts s)))) \<le> max_r"
  using assms
proof (induction ts arbitrary: t0 s acc i)
  case Nil then show ?case by simp
next
  case (Cons t ts)
  obtain b s' where st: "step t s = (b, s')" by fastforce
  have le: "t0 \<le> t" "sorted (t # ts)" using Cons.prems(2) by simp_all
  let ?acc = "if b then acc @ [t] else acc"
  have inv: "\<forall>u \<ge> t. length (recent window u ?acc) \<le> length (recent window u (hits s'))"
  proof (intro allI impI)
    fix u assume u: "t \<le> u"
    then have l: "length (recent window u acc) \<le> length (recent window u (hits s))"
      using Cons.prems(3) le(1) by simp
    show "length (recent window u ?acc) \<le> length (recent window u (hits s'))"
    proof (cases b)
      case True
      then have "length (recent window u (hits s @ [t])) \<le> length (recent window u (hits s'))"
        using admitted [OF Cons.prems(1) le(1)] st u by simp
      with True l show ?thesis by simp
    next
      case False
      then have "length (recent window u (hits s)) \<le> length (recent window u (hits s'))"
        using refused [OF Cons.prems(1) le(1)] st u by simp
      with False l show ?thesis by simp
    qed
  qed
  show ?case
  proof (cases i)
    case 0
    then have b: "b" using Cons.prems(5) st by simp
    then have "length (recent window t (hits s)) < max_r"
      using admitted [OF Cons.prems(1) le(1)] st by simp
    moreover have "length (recent window t acc) \<le> length (recent window t (hits s))"
      using Cons.prems(3) le(1) by simp
    ultimately show ?thesis using 0 b st window_nonneg
      by (simp add: admitted_times_def recent_def)
  next
    case (Suc j)
    have "length (recent window (ts ! j)
      (?acc @ admitted_times (take (Suc j) ts) (take (Suc j) (serve_all step ts s')))) \<le> max_r"
      using Cons.IH [OF step_ok [OF Cons.prems(1) le(1) st] le(2) inv] Cons.prems(4,5) Suc st by simp
    then show ?thesis using Suc st by (cases b) (simp_all add: admitted_times_def)
  qed
qed

lemma run_live:
  assumes "ok t0 s" "sorted (t0 # ts)" "0 < max_r" "i < length ts"
    "\<forall>x \<in> set (hits s). x < ts ! i - window" "\<forall>j < i. ts ! j < ts ! i - window"
  shows "serve_all step ts s ! i"
  using assms
proof (induction ts arbitrary: t0 s i)
  case (Cons t ts)
  obtain b s' where st: "step t s = (b, s')" by fastforce
  have le: "t0 \<le> t" "sorted (t # ts)" using Cons.prems(2) by simp_all
  show ?case
  proof (cases i)
    case 0
    then have "recent window t (hits s) = []"
      using Cons.prems(5) by (auto simp: recent_def filter_empty_conv)
    then have b
      using refused [OF Cons.prems(1) le(1), of s'] st Cons.prems(3) by (cases b) auto
    then show ?thesis using 0 st by simp
  next
    case (Suc j)
    have "\<forall>x \<in> set (hits s'). x < ts ! j - window"
    proof
      fix x assume "x \<in> set (hits s')"
      moreover have "(t # ts) ! 0 < (t # ts) ! i - window" using Cons.prems(6) Suc by blast
      ultimately show "x < ts ! j - window"
        using recorded [OF Cons.prems(1) le(1) st] Cons.prems(5) Suc by auto
    qed
    moreover have "\<forall>k < j. ts ! k < ts ! j - window"
    proof (intro allI impI)
      fix k assume "k < j"
      then have "Suc k < i" using Suc by simp
      with Cons.prems(6) have "(t # ts) ! Suc k < (t # ts) ! i - window" by blast
      then show "ts ! k < ts ! j - window" using Suc by simp
    qed
    ultimately show ?thesis
      using Cons.IH [OF step_ok [OF Cons.prems(1) le(1) st] le(2) Cons.prems(3), of j] Cons.prems(4) Suc st
      by simp
  qed
qed simp

end

subsection \<open>Both stores keep the contract\<close>

definition memory_ok :: "rat \<Rightarrow> rat list \<Rightarrow> bool" where
  "memory_ok t0 q \<longleftrightarrow> sorted (q @ [t0])"

lemma dropWhile_recent:
  "sorted q \<Longrightarrow> dropWhile (\<lambda>t. w < now - t) q = recent w now q"
proof (induction q)
  case (Cons x q)
  show ?case
  proof (cases "w < now - x")
    case True
    then show ?thesis using Cons by (simp add: recent_def)
  next
    case False
    then have "\<forall>y \<in> set (x # q). now - w \<le> y" using Cons.prems by auto
    then show ?thesis using False by (simp add: recent_def)
  qed
qed (simp add: recent_def)

lemma recent_recent: "now \<le> t \<Longrightarrow> recent w t (recent w now q) = recent w t q"
  unfolding recent_def filter_filter by (rule filter_cong) auto

lemma admit_memory_eq:
  assumes "memory_ok t0 q"
  shows "admit_memory m w now q = (let r = recent w now q in
     if m \<le> length r then (False, r) else (True, r @ [now]))"
proof -
  have "sorted q" using assms by (simp add: memory_ok_def sorted_append)
  then show ?thesis
    by (simp add: admit_memory_def rate_limit_def limit_memory_def dropWhile_recent Let_def)
qed

lemma sorted_recent: "sorted q \<Longrightarrow> sorted (recent w t q)"
  by (simp add: recent_def sorted_wrt_filter)

lemma memory_window:
  assumes "0 \<le> window"
  shows "sliding_window (admit_memory max_r window) id max_r window memory_ok"
proof
  fix t0 now :: rat and q q' :: "rat list" and b
  assume ok: "memory_ok t0 q" and le: "t0 \<le> now"
  note eq = admit_memory_eq [OF ok, of max_r window now]
  have srt: "sorted (recent window now q @ [now])"
    using ok le sorted_recent [of q window now]
    by (auto simp: memory_ok_def sorted_append recent_def)
  { assume st: "admit_memory max_r window now q = (b, q')"
    show "memory_ok now q'" using st srt unfolding eq memory_ok_def
      by (auto simp: Let_def sorted_append split: if_splits)
    show "set (id q') \<subseteq> insert now (set (id q))" using st unfolding eq
      by (auto simp: Let_def recent_def split: if_splits) }
  { assume st: "admit_memory max_r window now q = (True, q')"
    show "length (recent window now (id q)) < max_r \<and>
      (\<forall>t \<ge> now. length (recent window t (id q @ [now])) \<le> length (recent window t (id q')))"
      using st recent_recent unfolding eq by (auto simp: Let_def split: if_splits) }
  { assume st: "admit_memory max_r window now q = (False, q')"
    show "max_r \<le> length (recent window now (id q)) \<and>
      (\<forall>t \<ge> now. length (recent window t (id q)) \<le> length (recent window t (id q')))"
      using st recent_recent unfolding eq by (auto simp: Let_def split: if_splits) }
qed (rule assms)

definition key_hits :: "string \<Rightarrow> hit list \<Rightarrow> rat list" where
  "key_hits key hs = map snd (filter (\<lambda>h. fst h = key) hs)"

lemma limit_db_hits:
  assumes "limit_db key m w now hs = (n, hs')" "0 \<le> w"
  shows "key_hits key hs' = recent w now (key_hits key hs) @ [now]"
    and "n = Suc (length (recent w now (key_hits key hs)))"
    and "k \<noteq> key \<Longrightarrow> key_hits k hs' = key_hits k hs"
proof -
  let ?f = "filter (\<lambda>(k, t). \<not> (k = key \<and> t < now - w)) hs"
  have hs': "hs' = ?f @ [(key, now)]"
    and n: "n = length (filter (\<lambda>(k, t). k = key \<and> now - w \<le> t) hs')"
    using assms(1) unfolding limit_db_def Let_def by blast+
  have f: "key_hits key ?f = recent w now (key_hits key hs)"
    by (induction hs) (auto simp: key_hits_def recent_def not_less)
  then show h: "key_hits key hs' = recent w now (key_hits key hs) @ [now]"
    by (simp add: hs' key_hits_def)
  have "length (filter (\<lambda>(k, t). k = key \<and> now - w \<le> t) xs) = length (recent w now (key_hits key xs))" for xs
    by (induction xs) (auto simp: key_hits_def recent_def)
  then have "n = length (recent w now (key_hits key hs'))" by (simp add: n)
  then show "n = Suc (length (recent w now (key_hits key hs)))"
    using assms(2) unfolding h by (simp add: recent_def)
  show "k \<noteq> key \<Longrightarrow> key_hits k hs' = key_hits k hs"
    unfolding hs' by (induction hs) (auto simp: key_hits_def)
qed

lemma db_window:
  assumes "0 \<le> window"
  shows "sliding_window (admit_db key max_r window) (key_hits key) max_r window (\<lambda>t0 hs. True)"
proof
  fix t0 now :: rat and hs hs' :: "hit list" and b
  have db: "(\<forall>t \<ge> now. recent window t (key_hits key hs') = recent window t (key_hits key hs @ [now])) \<and>
      set (key_hits key hs') \<subseteq> insert now (set (key_hits key hs)) \<and>
      (b \<longleftrightarrow> length (recent window now (key_hits key hs)) < max_r)"
    if st: "admit_db key max_r window now hs = (b, hs')" for b
  proof -
    obtain n where n: "limit_db key max_r window now hs = (n, hs')" and b: "b \<longleftrightarrow> \<not> max_r < n"
      using st by (auto simp: admit_db_def rate_limit_def split: prod.splits)
    note h = limit_db_hits(1,2) [OF n assms]
    show ?thesis using b unfolding h by (auto simp: recent_recent) (auto simp: recent_def)
  qed
  { assume "admit_db key max_r window now hs = (b, hs')"
    from db [OF this] show "set (key_hits key hs') \<subseteq> insert now (set (key_hits key hs))" by blast }
  { assume "admit_db key max_r window now hs = (True, hs')"
    from db [OF this] show "length (recent window now (key_hits key hs)) < max_r \<and>
      (\<forall>t \<ge> now. length (recent window t (key_hits key hs @ [now])) \<le> length (recent window t (key_hits key hs')))"
      by simp }
  { assume "admit_db key max_r window now hs = (False, hs')"
    from db [OF this] show "max_r \<le> length (recent window now (key_hits key hs)) \<and>
      (\<forall>t \<ge> now. length (recent window t (key_hits key hs)) \<le> length (recent window t (key_hits key hs')))"
      by simp }
qed (use assms in simp_all)

text \<open>The windows of the code are whole seconds.\<close>

interpretation memory: sliding_window "admit_memory max_r (of_nat w)" id max_r "of_nat w" memory_ok
  for max_r w
  by (rule memory_window) simp

interpretation database: sliding_window "admit_db key max_r (of_nat w)" "key_hits key" max_r "of_nat w"
    "\<lambda>t0 hs. True"
  for key max_r w
  by (rule db_window) simp

lemma recent_Nil [simp]: "recent w t [] = []"
  by (simp add: recent_def)

text \<open>C15: Both stores of the rate limiter are a sliding window of the bucket's configuration. For
  any sequence of requests of one client in time order, an admitted request is at most the
  max-th admitted one of the window that ends with it, whatever other clients did before; and
  a client that has been silent for longer than the window is always admitted again.\<close>

theorem rate_limit_sliding_window:
  assumes "sorted ts" "i < length ts" "key_hits key hs = []" "0 < fst (limit_for env bucket)"
  defines "m \<equiv> fst (limit_for env bucket)" and "w \<equiv> of_nat (snd (limit_for env bucket)) :: rat"
  shows "(\<forall>bs \<in> {serve_all (admit_memory m w) ts [], serve_all (admit_db key m w) ts hs}.
    (bs ! i \<longrightarrow> length (recent w (ts ! i) (admitted_times (take (Suc i) ts) (take (Suc i) bs))) \<le> m) \<and>
    ((\<forall>j < i. ts ! j < ts ! i - w) \<longrightarrow> bs ! i))"
proof -
  have ts: "sorted (hd ts # ts)" using assms(1,2) by (cases ts) auto
  have ok: "memory_ok (hd ts) []" by (simp add: memory_ok_def)
  have m: "0 < m" using assms(4) by (simp add: m_def)
  note safe = memory.run_safe [OF ok ts, where acc = "[]" and i = i and max_r = m, folded w_def]
    database.run_safe [OF TrueI ts, where acc = "[]" and i = i and s = hs and key = key and max_r = m]
  note live = memory.run_live [OF ok ts m assms(2)] database.run_live [OF TrueI ts m assms(2), of key hs]
  show ?thesis using safe live assms(2,3) unfolding w_def by simp
qed

lemma ex_requests: "sorted [0, 1, 2, 3, 4, 5, 2000 :: rat]" by simp

lemma rate_limit_sliding_window_witness:
  "serve_all (admit_memory 5 900) [0, 1, 2, 3, 4, 5, 2000] [] ! 6 \<and>
   serve_all (admit_db ''login:ip'' 5 900) [0, 1, 2, 3, 4, 5, 2000] [] ! 6"
  using rate_limit_sliding_window [of "[0, 1, 2, 3, 4, 5, 2000]" 6 "''login:ip''" "[]" "\<lambda>b. (None, None)" "''login''"]
  by (simp add: key_hits_def limit_for_def less_Suc_eq numeral_eq_Suc)

text \<open>The stores differ in what a refusal costs. The memory store forgets it; the database store
  records it, so that a client that keeps retrying once per window is refused forever.\<close>

lemma database_retries_starve:
  assumes "t \<in> set (key_hits key hs)" "0 < d" "d \<le> w"
  shows "serve_all (admit_db key 1 w) (map (\<lambda>k. t + of_nat (Suc k) * d) [0..<n]) hs = replicate n False"
  using assms(1)
proof (induction n arbitrary: t hs)
  case (Suc n)
  obtain m hs' where m: "limit_db key 1 w (t + d) hs = (m, hs')" by fastforce
  have w: "0 \<le> w" using assms(2,3) by simp
  note h = limit_db_hits(1,2) [OF m w]
  have "t \<in> set (recent w (t + d) (key_hits key hs))"
    using Suc.prems assms(3) by (simp add: recent_def)
  then have refused: "admit_db key 1 w (t + d) hs = (False, hs')"
    using m h(2) by (auto simp: admit_db_def rate_limit_def dest: length_pos_if_in_set)
  have "[0..<Suc n] = 0 # map Suc [0..<n]" by (simp add: upt_conv_Cons map_Suc_upt del: upt_Suc)
  then have "map (\<lambda>k. t + of_nat (Suc k) * d) [0..<Suc n] =
      (t + d) # map (\<lambda>k. (t + d) + of_nat (Suc k) * d) [0..<n]"
    by (simp add: algebra_simps del: upt_Suc)
  then show ?case using Suc.IH [of "t + d" hs'] refused h(1) by simp
qed simp

lemma stores_disagree:
  "serve_all (admit_memory 1 900) [0, 600, 1200] [] = [True, False, True]"
  "serve_all (admit_db ''login:ip'' 1 900) [0, 600, 1200] [] = [True, False, False]"
  by (simp_all add: admit_memory_def admit_db_def rate_limit_def limit_memory_def limit_db_def Let_def)

subsection \<open>The quota\<close>

definition granted_today :: "int \<Rightarrow> nat \<Rightarrow> quota_state \<Rightarrow> call_log list" where
  "granted_today now u s = filter (\<lambda>r. cl_user r = u \<and> gun_baslangici now \<le> cl_at r \<and>
     cl_id r \<in> set (qs_granted s)) (qs_rows s)"

text \<open>No reservation in flight; the rows are from the past.\<close>

definition quota_init :: "quota_state \<Rightarrow> bool" where
  "quota_init s \<longleftrightarrow> qs_waiting s = [] \<and> qs_granted s = [] \<and> (\<forall>r \<in> set (qs_rows s). cl_at r \<le> qs_now s)"

definition quota_ok :: "nat \<Rightarrow> int \<Rightarrow> call_log list \<Rightarrow> (nat \<times> nat) list \<Rightarrow> nat list \<Rightarrow> bool" where
  "quota_ok cap now rows waiting granted \<longleftrightarrow> (\<forall>r \<in> set rows. cl_at r \<le> now) \<and>
     distinct (map cl_id rows) \<and>
     (\<forall>(i, u) \<in> set waiting. i \<notin> set granted \<and> (\<exists>r \<in> set rows. cl_id r = i \<and> cl_user r = u)) \<and>
     set granted \<subseteq> cl_id ` set rows \<and>
     (\<forall>r \<in> set rows. cl_id r \<in> set granted \<longrightarrow> sira now (cl_user r) (cl_id r) rows \<le> cap)"

abbreviation quota_inv :: "nat \<Rightarrow> quota_state \<Rightarrow> bool" where
  "quota_inv cap s \<equiv> quota_ok cap (qs_now s) (qs_rows s) (qs_waiting s) (qs_granted s)"

lemma gun_baslangici_mono: "s \<le> t \<Longrightarrow> gun_baslangici s \<le> gun_baslangici t"
proof -
  assume "s \<le> t"
  then have "s div 86400 \<le> t div 86400" by (rule zdiv_mono1) simp
  then show ?thesis by (simp add: gun_baslangici_def minus_mod_eq_mult_div)
qed

lemma length_filter_imp:
  "(\<And>x. x \<in> set xs \<Longrightarrow> P x \<Longrightarrow> Q x) \<Longrightarrow> length (filter P xs) \<le> length (filter Q xs)"
  by (induction xs) (auto simp: le_SucI)

lemma sira_del: "sira now u i (del_row cl_id j rows) \<le> sira now u i rows"
  by (simp add: sira_def del_row_def) (rule length_filter_imp, simp)

lemma sira_upd [simp]:
  assumes "\<And>r. cl_id (f r) = cl_id r" "\<And>r. cl_user (f r) = cl_user r" "\<And>r. cl_at (f r) = cl_at r"
  shows "sira now u i (upd_row cl_id j f rows) = sira now u i rows"
  using assms by (induction rows) (auto simp: sira_def)

lemma sira_tick: "now \<le> t \<Longrightarrow> sira t u i rows \<le> sira now u i rows"
  unfolding sira_def using gun_baslangici_mono [of now t]
  by (intro length_filter_imp) auto

text \<open>What the rows added after a call keep: the old rows, and their places.\<close>

definition extends :: "int \<Rightarrow> call_log list \<Rightarrow> call_log list \<Rightarrow> bool" where
  "extends now rows rows' \<longleftrightarrow> (\<exists>extra. rows' = rows @ extra \<and> (\<forall>e \<in> set extra. cl_at e = now) \<and>
     (\<forall>e \<in> set extra. \<forall>r \<in> set rows. cl_id r < cl_id e) \<and> distinct (map cl_id extra))"

lemma extends_refl: "extends now rows rows"
  by (simp add: extends_def)

lemma extends_snoc:
  assumes "extends now rows mid" "cl_id r = next_key cl_id mid" "cl_at r = now"
  shows "extends now rows (mid @ [r])"
proof -
  obtain extra where e: "mid = rows @ extra" "\<forall>e \<in> set extra. cl_at e = now"
    "\<forall>e \<in> set extra. \<forall>x \<in> set rows. cl_id x < cl_id e" "distinct (map cl_id extra)"
    using assms(1) by (auto simp: extends_def)
  have lt: "cl_id x < cl_id r" if "x \<in> set mid" for x
    using next_key_gt [OF that, of cl_id] assms(2) by simp
  then have "cl_id r \<notin> cl_id ` set extra" using e(1) by fastforce
  then have "distinct (map cl_id (extra @ [r]))" using e(4) by simp
  moreover have "\<forall>e \<in> set (extra @ [r]). \<forall>x \<in> set rows. cl_id x < cl_id e"
    using e(1,3) lt by simp
  ultimately show ?thesis unfolding extends_def e(1) append_assoc using e(2) assms(3)
    by (intro exI [of _ "extra @ [r]"]) simp
qed

lemma extends_fold: "extends now rows (fold (\<lambda>x rs. ek_satir now u am rs x) cs rows)"
proof (induction cs rule: rev_induct)
  case (snoc c cs)
  then show ?case by (auto simp: ek_satir_def satiri_doldur_def intro: extends_snoc)
qed (simp add: extends_refl)

lemma quota_okI:
  assumes "\<And>r. r \<in> set rows \<Longrightarrow> cl_at r \<le> now" "distinct (map cl_id rows)"
    "\<And>i u. (i, u) \<in> set waiting \<Longrightarrow> i \<notin> set granted"
    "\<And>i u. (i, u) \<in> set waiting \<Longrightarrow> \<exists>r \<in> set rows. cl_id r = i \<and> cl_user r = u"
    "\<And>i. i \<in> set granted \<Longrightarrow> i \<in> cl_id ` set rows"
    "\<And>r. r \<in> set rows \<Longrightarrow> cl_id r \<in> set granted \<Longrightarrow> sira now (cl_user r) (cl_id r) rows \<le> cap"
  shows "quota_ok cap now rows waiting granted"
  using assms unfolding quota_ok_def by blast

lemma quota_okD:
  assumes "quota_ok cap now rows waiting granted"
  shows "\<And>r. r \<in> set rows \<Longrightarrow> cl_at r \<le> now" "distinct (map cl_id rows)"
    "\<And>i u. (i, u) \<in> set waiting \<Longrightarrow> i \<notin> set granted"
    "\<And>i u. (i, u) \<in> set waiting \<Longrightarrow> \<exists>r \<in> set rows. cl_id r = i \<and> cl_user r = u"
    "\<And>i. i \<in> set granted \<Longrightarrow> i \<in> cl_id ` set rows"
    "\<And>r. r \<in> set rows \<Longrightarrow> cl_id r \<in> set granted \<Longrightarrow> sira now (cl_user r) (cl_id r) rows \<le> cap"
  using assms unfolding quota_ok_def by (blast, blast, fast, fast, blast, blast)

lemma upd_row_keeps:
  assumes f: "\<And>r. cl_id (f r) = cl_id r" "\<And>r. cl_user (f r) = cl_user r" "\<And>r. cl_at (f r) = cl_at r"
    and inv: "quota_ok cap now rows waiting granted"
  shows "quota_ok cap now (upd_row cl_id i f rows) waiting granted"
proof -
  let ?g = "\<lambda>r. if cl_id r = i then f r else r"
  have g: "cl_id (?g r) = cl_id r" "cl_user (?g r) = cl_user r" "cl_at (?g r) = cl_at r" for r
    using f by simp_all
  have rows: "upd_row cl_id i f rows = map ?g rows" by (simp add: upd_row_def)
  have ids: "map cl_id (map ?g rows) = map cl_id rows" using g by simp
  have sr: "sira t u j (map ?g rows) = sira t u j rows" for t u j
    using sira_upd [OF f, of t u j i rows] by (simp add: rows)
  note D = quota_okD [OF inv]
  show ?thesis unfolding rows
  proof (rule quota_okI)
    fix r assume "r \<in> set (map ?g rows)"
    then obtain x where x: "x \<in> set rows" "r = ?g x" by auto
    show "cl_at r \<le> now" using D(1) [OF x(1)] x(2) g by simp
    assume "cl_id r \<in> set granted"
    then show "sira now (cl_user r) (cl_id r) (map ?g rows) \<le> cap"
      using D(6) [OF x(1)] unfolding sr x(2) g by simp
  next
    fix j u assume w: "(j, u) \<in> set waiting"
    show "j \<notin> set granted" by (rule D(3) [OF w])
    from D(4) [OF w] obtain x where "x \<in> set rows" "cl_id x = j" "cl_user x = u" by blast
    then show "\<exists>r \<in> set (map ?g rows). cl_id r = j \<and> cl_user r = u"
      using f by (intro bexI [of _ "?g x"]) auto
  next
    fix j assume "j \<in> set granted"
    then show "j \<in> cl_id ` set (map ?g rows)" using D(5) ids by (metis list.set_map)
  next
    show "distinct (map cl_id (map ?g rows))" unfolding ids by (rule D(2))
  qed
qed

lemma extends_keeps:
  assumes inv: "quota_ok cap now rows waiting granted" and e: "extends now rows rows'"
  shows "quota_ok cap now rows' waiting granted"
proof -
  obtain extra where x: "rows' = rows @ extra" "\<forall>e \<in> set extra. cl_at e = now"
    "\<forall>e \<in> set extra. \<forall>r \<in> set rows. cl_id r < cl_id e" "distinct (map cl_id extra)"
    using e by (auto simp: extends_def)
  note D = quota_okD [OF inv]
  have sr: "sira t u (cl_id r) rows' = sira t u (cl_id r) rows" if "r \<in> set rows" for t u r
    using x(3) that by (auto simp: x(1) sira_def filter_empty_conv not_le)
  have old: "r \<in> set rows" if r: "r \<in> set rows'" "cl_id r \<in> set granted" for r
  proof (rule ccontr)
    assume "r \<notin> set rows"
    then have "r \<in> set extra" using r(1) x(1) by simp
    moreover obtain y where "y \<in> set rows" "cl_id y = cl_id r" using D(5) [OF r(2)] by auto
    ultimately show False using x(3) by force
  qed
  show ?thesis
  proof (rule quota_okI)
    show "distinct (map cl_id rows')" using D(2) x(3,4) by (force simp: x(1))
    show "i \<in> cl_id ` set rows'" if "i \<in> set granted" for i using D(5) [OF that] by (auto simp: x(1))
    show "cl_at r \<le> now" if "r \<in> set rows'" for r using that D(1) x(2) by (auto simp: x(1))
    show "sira now (cl_user r) (cl_id r) rows' \<le> cap" if "r \<in> set rows'" "cl_id r \<in> set granted" for r
      unfolding sr [OF old [OF that]] by (rule D(6) [OF old [OF that] that(2)])
    show "i \<notin> set granted" if "(i, u) \<in> set waiting" for i u by (rule D(3) [OF that])
    show "\<exists>r \<in> set rows'. cl_id r = i \<and> cl_user r = u" if "(i, u) \<in> set waiting" for i u
      using D(4) [OF that] by (auto simp: x(1))
  qed
qed

lemma del_keeps:
  assumes inv: "quota_ok cap now rows waiting granted"
  shows "quota_ok cap now (iptal_et i rows) (filter (\<lambda>w. fst w \<noteq> i) waiting) (filter (\<lambda>j. j \<noteq> i) granted)"
proof -
  note D = quota_okD [OF inv]
  show ?thesis unfolding iptal_et_def
  proof (rule quota_okI)
    show "distinct (map cl_id (del_row cl_id i rows))" by (rule distinct_map_del_row [OF D(2)])
    show "cl_at r \<le> now" if "r \<in> set (del_row cl_id i rows)" for r using that D(1) by (simp add: set_del_row)
    show "j \<notin> set (filter (\<lambda>j. j \<noteq> i) granted)" if "(j, u) \<in> set (filter (\<lambda>w. fst w \<noteq> i) waiting)" for j u
      using that D(3) by auto
    show "\<exists>r \<in> set (del_row cl_id i rows). cl_id r = j \<and> cl_user r = u"
      if "(j, u) \<in> set (filter (\<lambda>w. fst w \<noteq> i) waiting)" for j u
    proof -
      from that have "(j, u) \<in> set waiting" "j \<noteq> i" by auto
      with D(4) show ?thesis by (auto simp: set_del_row)
    qed
    show "j \<in> cl_id ` set (del_row cl_id i rows)" if "j \<in> set (filter (\<lambda>j. j \<noteq> i) granted)" for j
      using D(5) [of j] that by (auto simp: set_del_row)
    show "sira now (cl_user r) (cl_id r) (del_row cl_id i rows) \<le> cap"
      if "r \<in> set (del_row cl_id i rows)" "cl_id r \<in> set (filter (\<lambda>j. j \<noteq> i) granted)" for r
      using that by (intro le_trans [OF sira_del D(6)]) (simp_all add: set_del_row)
  qed
qed

lemma grant_keeps:
  assumes inv: "quota_ok cap now rows waiting granted" and w: "(i, u) \<in> set waiting"
    and le: "sira now u i rows \<le> cap"
  shows "quota_ok cap now rows (filter (\<lambda>w. fst w \<noteq> i) waiting) (i # granted)"
proof -
  note D = quota_okD [OF inv]
  obtain x where x: "x \<in> set rows" "cl_id x = i" "cl_user x = u" using D(4) [OF w] by blast
  have one: "y = x" if "y \<in> set rows" "cl_id y = i" for y
    using that x D(2) by (auto simp: distinct_map inj_on_def)
  show ?thesis
  proof (rule quota_okI [OF D(1,2)])
    show "sira now (cl_user r) (cl_id r) rows \<le> cap" if "r \<in> set rows" "cl_id r \<in> set (i # granted)" for r
    proof (cases "cl_id r = i")
      case True
      then show ?thesis using one [OF that(1)] le x by simp
    next
      case False
      then show ?thesis using D(6) [OF that(1)] that(2) by simp
    qed
    show "j \<in> cl_id ` set rows" if "j \<in> set (i # granted)" for j
      using that D(5) x(1,2) by (cases "j = i") auto
    show "j \<notin> set (i # granted)" if "(j, v) \<in> set (filter (\<lambda>w. fst w \<noteq> i) waiting)" for j v
      using that D(3) by auto
    show "\<exists>r \<in> set rows. cl_id r = j \<and> cl_user r = v"
      if "(j, v) \<in> set (filter (\<lambda>w. fst w \<noteq> i) waiting)" for j v
      using that D(4) by simp
  qed
qed

lemma tick_keeps:
  assumes inv: "quota_ok cap now rows waiting granted" and le: "now \<le> t"
  shows "quota_ok cap t rows waiting granted"
proof -
  note D = quota_okD [OF inv]
  show ?thesis
  proof (rule quota_okI [OF _ D(2,3,4,5)])
    show "cl_at r \<le> t" if "r \<in> set rows" for r using D(1) [OF that] le by simp
    show "sira t (cl_user r) (cl_id r) rows \<le> cap" if "r \<in> set rows" "cl_id r \<in> set granted" for r
      by (rule le_trans [OF sira_tick [OF le] D(6) [OF that]])
  qed
qed

lemma reserve_keeps:
  assumes inv: "quota_ok cap now rows waiting granted"
    and rz: "rezerve_yaz now u p m am rows = (i, rows')"
  shows "quota_ok cap now rows' ((i, u) # waiting) granted"
proof -
  define r where "r = last rows'"
  have r: "rows' = rows @ [r]" "cl_id r = next_key cl_id rows" "cl_at r = now"
    "i = cl_id r" "cl_user r = u"
    unfolding r_def
    using rz by (auto simp: rezerve_yaz_def Let_def)
  have "extends now rows rows'" using extends_snoc [OF extends_refl r(2,3)] r(1) by simp
  note D = quota_okD [OF extends_keeps [OF inv this]]
  have fresh: "i \<notin> set granted"
    using next_key_fresh [of cl_id rows] quota_okD(5) [OF inv] r(2,4) by metis
  show ?thesis
  proof (rule quota_okI [OF D(1,2) _ _ D(5,6)])
    show "j \<notin> set granted" if "(j, v) \<in> set ((i, u) # waiting)" for j v
      using that D(3) fresh by auto
    show "\<exists>x \<in> set rows'. cl_id x = j \<and> cl_user x = v" if "(j, v) \<in> set ((i, u) # waiting)" for j v
      using that D(4) r by (cases "(j, v) = (i, u)") auto
  qed
qed

lemma quota_step_inv:
  assumes "quota_step cap s s'" "quota_inv cap s" "0 < cap"
  shows "quota_inv cap s'"
  using assms
proof (induction rule: quota_step.induct)
  case (Reserve s u p m am i rows)
  then show ?case using reserve_keeps by simp
next
  case (Check i u s r rows)
  show ?case
  proof (cases "cap < sira (qs_now s) u i (qs_rows s)")
    case True
    then have "r = None" "rows = iptal_et i (qs_rows s)"
      using Check.hyps Check.prems(2) by (auto simp: rezerve_kontrol_def)
    moreover have "filter (\<lambda>j. j \<noteq> i) (qs_granted s) = qs_granted s"
      using quota_okD(3) [OF Check.prems(1) Check.hyps(1)] by (auto simp: filter_id_conv)
    ultimately show ?thesis using del_keeps [OF Check.prems(1), of i] by simp
  next
    case False
    then have "r = Some i" "rows = qs_rows s"
      using Check.hyps by (auto simp: rezerve_kontrol_def)
    then show ?thesis using grant_keeps [OF Check.prems(1) Check.hyps(1)] False by simp
  qed
next
  case (Cancel i s)
  have "filter (\<lambda>w. fst w \<noteq> i) (qs_waiting s) = qs_waiting s"
    using quota_okD(3) [OF Cancel.prems(1)] Cancel.hyps by (auto simp: filter_id_conv)
  then show ?case using del_keeps [OF Cancel.prems(1), of i] by simp
next
  case (Reconcile i s u am olcum rows n)
  show ?case
  proof (cases olcum)
    case (Cons c cs)
    have "quota_ok cap (qs_now s) (upd_row cl_id i (satiri_doldur c am) (qs_rows s)) (qs_waiting s) (qs_granted s)"
      by (rule upd_row_keeps) (simp_all add: satiri_doldur_def Reconcile.prems(1))
    from extends_keeps [OF this extends_fold] show ?thesis using Reconcile.hyps(2) Cons
      by (auto simp: ek_cagrilari_uzlastir_def)
  qed (use Reconcile in \<open>simp add: ek_cagrilari_uzlastir_def\<close>)
next
  case (Complete i s p ok d)
  have "quota_ok cap (qs_now s) (tamamla i p ok d (qs_rows s)) (qs_waiting s) (qs_granted s)"
    unfolding tamamla_def by (rule upd_row_keeps) (simp_all add: Complete.prems(1))
  then show ?case by simp
next
  case (Tick s t)
  then show ?case using tick_keeps by simp
qed


definition ex_quota :: quota_state where
  "ex_quota = \<lparr>qs_rows = [], qs_now = 0, qs_waiting = [], qs_granted = []\<rparr>"


text \<open>The calls made are another matter: a message may make several, known only afterwards.
  Two concurrent messages of four calls each leave eight rows under a cap of two.\<close>

definition ex_cagri :: cagri where
  "ex_cagri = \<lparr>cg_saglayici = ''groq'', cg_model = None, cg_in = None, cg_out = None, cg_sure = None\<rparr>"

lemma quota_overshoot:
  "let (a, rows1) = rezerve_et 0 2 7 ''groq'' ''m'' Koc [];
       (b, rows2) = rezerve_et 0 2 7 ''groq'' ''m'' Koc rows1;
       (rows3, n) = ek_cagrilari_uzlastir 0 7 Koc (replicate 4 ex_cagri) a rows2;
       (rows4, k) = ek_cagrilari_uzlastir 0 7 Koc (replicate 4 ex_cagri) b rows3
   in a = Some 1 \<and> b = Some 2 \<and> bugunku_cagri_sayisi 0 7 rows4 = 8"
  by (simp add: rezerve_et_def rezerve_yaz_def rezerve_kontrol_def sira_def gun_baslangici_def Let_def
      ek_cagrilari_uzlastir_def numeral_eq_Suc ek_satir_def satiri_doldur_def ex_cagri_def
      next_key_def bugunku_cagri_sayisi_def)

end
