(* ===== verification/Cashflow.thy ===== *)
theory Cashflow
  imports Data_Model
begin

text \<open>
  The cash flow forecast, app/cashflow.py: the recurring incomes and expenses, the loan
  installments and the dated personal debts are expanded into events over the horizon, and a
  walk over its days carries the projected cash balance, the days below the threshold and
  the lowest balance. \<open>build_sankey\<close> groups the same events by label for the flow diagram.

  \<open>date.today()\<close> is the parameter \<open>today\<close>. Decimal sums are exact: the amounts have at most
  four decimals, far inside the 28 digits of the decimal context.
\<close>

subsection \<open>Events\<close>

datatype source_type = Src_Income | Src_Recurring_Expense | Src_Receivable | Src_Payable | Src_Loan_Payment

record forecast_event =
  ev_date :: date
  ev_amount :: rat
  ev_label :: string
  ev_source :: source_type
  ev_id :: nat

definition expand_recurring_income :: "recurring_income \<Rightarrow> date \<Rightarrow> date \<Rightarrow> forecast_event list" where
  "expand_recurring_income inc start fin =
     map (\<lambda>d. \<lparr>ev_date = d, ev_amount = ri_amount inc, ev_label = ri_name inc,
               ev_source = Src_Income, ev_id = ri_id inc\<rparr>)
       (month_occurrences start fin (ri_day inc))"

definition expand_recurring_expense :: "recurring_expense \<Rightarrow> date \<Rightarrow> date \<Rightarrow> forecast_event list" where
  "expand_recurring_expense ex start fin =
     map (\<lambda>d. \<lparr>ev_date = d, ev_amount = - re_amount ex, ev_label = re_name ex,
               ev_source = Src_Recurring_Expense, ev_id = re_id ex\<rparr>)
       (month_occurrences start fin (re_day ex))"

definition debt_label :: "personal_debt \<Rightarrow> string" where
  "debt_label d = counterparty d @ (case pd_description d of
      None \<Rightarrow> [] | Some t \<Rightarrow> if t = [] then [] else '' - '' @ t)"

definition personal_debts_in_range ::
  "nat \<Rightarrow> nat option \<Rightarrow> personal_debt list \<Rightarrow> date \<Rightarrow> date \<Rightarrow> debt_direction \<Rightarrow> forecast_event list" where
  "personal_debts_in_range u w ds start fin dir =
     (let source = (case dir of Receivable \<Rightarrow> Src_Receivable | Payable \<Rightarrow> Src_Payable);
          rows = filter (\<lambda>d. pd_in_scope u w d \<and> direction d = dir \<and> \<not> is_paid d \<and>
             (case due_date d of None \<Rightarrow> False | Some t \<Rightarrow> start \<le> t \<and> t \<le> fin)) ds
      in map (\<lambda>d. \<lparr>ev_date = the (due_date d),
                   ev_amount = (if dir = Receivable then pd_amount d else - pd_amount d),
                   ev_label = debt_label d, ev_source = source, ev_id = pd_id d\<rparr>) rows)"

text \<open>The installment dates of a loan: from \<open>current\<close>, on the anchor day of each month, at
  most \<open>remaining\<close> of them (\<open>None\<close>: no bound is known) and none after \<open>fin\<close>.\<close>

function loan_walk :: "date \<Rightarrow> nat \<Rightarrow> date \<Rightarrow> nat option \<Rightarrow> nat \<Rightarrow> date list" where
  "loan_walk current anchor_day fin remaining idx =
     (if current \<le> fin \<and> (case remaining of None \<Rightarrow> True | Some r \<Rightarrow> idx < r) then
        (let y = year current + (if month current = 12 then 1 else 0); m = month current mod 12 + 1
         in current # loan_walk (Date y m (min anchor_day (month_len y m))) anchor_day fin remaining (idx + 1))
      else [])"
  by pat_completeness auto
termination
  by (relation "measure (\<lambda>(cur, a, fin, r, i). (year fin + 1 - year cur) * 15 +
        (if 1 \<le> month cur \<and> month cur \<le> 12 then 13 - month cur else 14))")
    (auto simp: less_eq_date_def mod_Suc algebra_simps Suc_diff_le
      intro!: le_less_trans [OF mod_less_eq_dividend])

declare loan_walk.simps [simp del]

definition expand_loan_payments :: "account \<Rightarrow> date \<Rightarrow> date \<Rightarrow> forecast_event list" where
  "expand_loan_payments acc start fin =
     (if acc_type acc \<noteq> Loan then []
      else (case (next_payment_date acc, monthly_payment acc) of
          (Some p, Some mp) \<Rightarrow>
            if mp = 0 \<or> remaining_installments acc = Some 0 then []
            else (let current = (if p < start then start else p)
              in map (\<lambda>d. \<lparr>ev_date = d, ev_amount = - mp, ev_label = acc_name acc @ '' taksiti'',
                           ev_source = Src_Loan_Payment, ev_id = acc_id acc\<rparr>)
                   (loan_walk current (day current) fin (remaining_installments acc) 0))
        | _ \<Rightarrow> []))"

subsection \<open>The flow diagram\<close>

datatype node_type = Node_Cash | Node_Income | Node_Expense

record sankey_node =
  nd_id :: nat
  nd_name :: string
  nd_type :: node_type

record sankey_link =
  lk_source :: nat
  lk_target :: nat
  lk_value :: rat
  lk_label :: string

type_synonym sankey = "sankey_node list \<times> sankey_link list"

definition cash_node :: string where "cash_node = ''Nakit''"

text \<open>\<open>totals[label] = totals.get(label, 0) + |amount|\<close>\<close>

definition add_total :: "string \<Rightarrow> rat \<Rightarrow> (string \<times> rat) list \<Rightarrow> (string \<times> rat) list" where
  "add_total l x d = dset l ((case map_of d l of None \<Rightarrow> 0 | Some y \<Rightarrow> y) + x) d"

definition label_totals ::
  "forecast_event list \<Rightarrow> (string \<times> rat) list \<times> (string \<times> rat) list" where
  "label_totals evs = fold (\<lambda>ev (src, snk).
     if 0 < ev_amount ev then (add_total (ev_label ev) (ev_amount ev) src, snk)
     else if ev_amount ev < 0 then (src, add_total (ev_label ev) \<bar>ev_amount ev\<bar> snk)
     else (src, snk)) evs ([], [])"

text \<open>\<open>node_index\<close> is the lookup of a name in the list of nodes: both are filled together.\<close>

definition add_node :: "string \<Rightarrow> node_type \<Rightarrow> sankey_node list \<Rightarrow> nat \<times> sankey_node list" where
  "add_node name ntype nodes = (case List.find (\<lambda>n. nd_name n = name) nodes of
     Some n \<Rightarrow> (nd_id n, nodes)
   | None \<Rightarrow> (length nodes, nodes @ [\<lparr>nd_id = length nodes, nd_name = name, nd_type = ntype\<rparr>]))"

definition source_link :: "string \<times> rat \<Rightarrow> sankey \<Rightarrow> sankey" where
  "source_link = (\<lambda>(l, t) (nodes, links). case add_node l Node_Income nodes of (i, nodes') \<Rightarrow>
     (nodes', links @ [\<lparr>lk_source = i, lk_target = 0, lk_value = qhe 2 t, lk_label = l\<rparr>]))"

definition sink_link :: "string \<times> rat \<Rightarrow> sankey \<Rightarrow> sankey" where
  "sink_link = (\<lambda>(l, t) (nodes, links). case add_node l Node_Expense nodes of (i, nodes') \<Rightarrow>
     (nodes', links @ [\<lparr>lk_source = 0, lk_target = i, lk_value = qhe 2 t, lk_label = l\<rparr>]))"

definition build_sankey :: "forecast_event list \<Rightarrow> sankey" where
  "build_sankey evs = (case label_totals evs of (src, snk) \<Rightarrow>
     if src = [] \<and> snk = [] then ([], [])
     else fold sink_link snk (fold source_link src (snd (add_node cash_node Node_Cash []), [])))"

subsection \<open>The forecast\<close>

record forecast_day =
  fd_date :: date
  fd_opening :: rat
  fd_closing :: rat
  fd_inflows :: rat
  fd_outflows :: rat
  fd_events :: "forecast_event list"
  fd_crunch :: bool

record day_state =
  ds_balance :: rat
  ds_lowest :: rat
  ds_lowest_date :: date
  ds_crunch_dates :: "date list"
  ds_days :: "forecast_day list"

definition group_events :: "forecast_event list \<Rightarrow> (date \<times> forecast_event list) list" where
  "group_events evs = fold (\<lambda>ev d. dset (ev_date ev)
     ((case map_of d (ev_date ev) of None \<Rightarrow> [] | Some l \<Rightarrow> l) @ [ev]) d) evs []"

definition events_on :: "(date \<times> forecast_event list) list \<Rightarrow> date \<Rightarrow> forecast_event list" where
  "events_on d t = sort_key (\<lambda>e. - \<bar>ev_amount e\<bar>) (case map_of d t of None \<Rightarrow> [] | Some l \<Rightarrow> l)"

definition forecast_step ::
  "(date \<times> forecast_event list) list \<Rightarrow> rat \<Rightarrow> date \<Rightarrow> day_state \<Rightarrow> day_state" where
  "forecast_step by_date threshold d st =
     (let evs = events_on by_date d;
          inflows = (\<Sum>e\<leftarrow>filter (\<lambda>e. 0 \<le> ev_amount e) evs. ev_amount e);
          outflows = (\<Sum>e\<leftarrow>filter (\<lambda>e. \<not> 0 \<le> ev_amount e) evs. ev_amount e);
          bal = ds_balance st + inflows + outflows;
          crunch = (bal < threshold)
      in \<lparr>ds_balance = bal,
          ds_lowest = (if bal < ds_lowest st then bal else ds_lowest st),
          ds_lowest_date = (if bal < ds_lowest st then d else ds_lowest_date st),
          ds_crunch_dates = (if crunch then ds_crunch_dates st @ [d] else ds_crunch_dates st),
          ds_days = ds_days st @ [\<lparr>fd_date = d, fd_opening = qhe 2 (ds_balance st), fd_closing = qhe 2 bal,
            fd_inflows = qhe 2 inflows, fd_outflows = qhe 2 outflows, fd_events = evs, fd_crunch = crunch\<rparr>]\<rparr>)"

record forecast_summary =
  fs_lowest_balance :: rat
  fs_lowest_date :: date
  fs_total_receivable :: rat
  fs_total_payable :: rat
  fs_net_flow :: rat
  fs_crunch_count :: nat
  fs_crunch_dates :: "date list"
  fs_opening_balance :: rat
  fs_kalan_kart_limiti :: "rat option"

record forecast =
  fc_start :: date
  fc_end :: date
  fc_days :: "forecast_day list"
  fc_summary :: forecast_summary
  fc_sankey :: sankey

definition kalan_kart_limiti :: "nat \<Rightarrow> nat option \<Rightarrow> account list \<Rightarrow> rat option" where
  "kalan_kart_limiti u w accs =
     (let limitli = filter (\<lambda>k. acc_in_scope u w k \<and> acc_type k = Credit_Card \<and>
             (case credit_limit k of None \<Rightarrow> False | Some l \<Rightarrow> 0 < l)) accs
      in if limitli = [] then None
         else Some (qhe 2 (\<Sum>k\<leftarrow>limitli. max 0 (the (credit_limit k) - acc_balance k))))"

definition horizon_end :: "date \<Rightarrow> nat \<Rightarrow> date" where
  "horizon_end today h = (if h = 0 then prev_day today else add_days today (h - 1))"

definition opening_cash :: "nat \<Rightarrow> nat option \<Rightarrow> nat option \<Rightarrow> account list \<Rightarrow> rat" where
  "opening_cash u w account_id accs = (\<Sum>a\<leftarrow>filter (\<lambda>a. acc_in_scope u w a \<and> acc_type a = Cash \<and>
     (case account_id of None \<Rightarrow> True | Some i \<Rightarrow> acc_id a = i)) accs. acc_balance a)"

text \<open>The chips of the filter; \<open>None\<close> is all of them.\<close>

definition collect_events ::
  "db \<Rightarrow> nat \<Rightarrow> nat option \<Rightarrow> nat option \<Rightarrow> string list option \<Rightarrow> date \<Rightarrow> date \<Rightarrow> forecast_event list" where
  "collect_events s u w account_id include today fin =
     (let inc = (case include of None \<Rightarrow> [''incomes'', ''expenses'', ''receivables'', ''payables''] | Some l \<Rightarrow> l) in
      (if ''incomes'' \<in> set inc then
         concat (map (\<lambda>i. expand_recurring_income i today fin)
           (filter (\<lambda>i. scope_filter u w (ri_user i) (ri_ws i) \<and> ri_active i) (incomes s))) else []) @
      (if ''expenses'' \<in> set inc then
         concat (map (\<lambda>e. expand_recurring_expense e today fin)
           (filter (\<lambda>e. scope_filter u w (re_user e) (re_ws e) \<and> re_active e \<and>
              (account_id = None \<or> re_account e = account_id)) (expenses s))) @
         concat (map (\<lambda>a. expand_loan_payments a today fin)
           (filter (\<lambda>a. acc_in_scope u w a \<and> acc_type a = Loan) (accounts s))) else []) @
      (if ''receivables'' \<in> set inc then personal_debts_in_range u w (debts s) today fin Receivable else []) @
      (if ''payables'' \<in> set inc then personal_debts_in_range u w (debts s) today fin Payable else []))"

definition walk_days ::
  "forecast_event list \<Rightarrow> rat \<Rightarrow> rat \<Rightarrow> date \<Rightarrow> nat \<Rightarrow> day_state" where
  "walk_days evs opening threshold today h =
     fold (forecast_step (group_events evs) threshold) (map (add_days today) [0..<h])
       \<lparr>ds_balance = opening, ds_lowest = opening, ds_lowest_date = today, ds_crunch_dates = [], ds_days = []\<rparr>"

definition generate_forecast ::
  "db \<Rightarrow> nat \<Rightarrow> nat option \<Rightarrow> nat \<Rightarrow> nat option \<Rightarrow> string list option \<Rightarrow> rat \<Rightarrow> date \<Rightarrow> forecast" where
  "generate_forecast s u w horizon_days account_id include crunch_threshold today =
     (let fin = horizon_end today horizon_days;
          opening = opening_cash u w account_id (accounts s);
          evs = collect_events s u w account_id include today fin;
          st = walk_days evs opening crunch_threshold today horizon_days;
          total_receivable = (\<Sum>e\<leftarrow>filter (\<lambda>e. 0 < ev_amount e) evs. ev_amount e);
          total_payable = (\<Sum>e\<leftarrow>filter (\<lambda>e. ev_amount e < 0) evs. ev_amount e)
      in \<lparr>fc_start = today, fc_end = fin, fc_days = ds_days st,
          fc_summary = \<lparr>fs_lowest_balance = qhe 2 (ds_lowest st), fs_lowest_date = ds_lowest_date st,
            fs_total_receivable = qhe 2 total_receivable, fs_total_payable = qhe 2 total_payable,
            fs_net_flow = qhe 2 (total_receivable + total_payable),
            fs_crunch_count = length (ds_crunch_dates st), fs_crunch_dates = ds_crunch_dates st,
            fs_opening_balance = qhe 2 opening,
            fs_kalan_kart_limiti = (if account_id = None then kalan_kart_limiti u w (accounts s) else None)\<rparr>,
          fc_sankey = build_sankey evs\<rparr>)"

end
