(* ===== verification/Rules_Budget.thy ===== *)
theory Rules_Budget
  imports Cashflow "HOL-Library.Product_Lexorder"
begin

text \<open>
  The budget half of app/rules_engine.py: shadow accounting, the card cycle, what is due until
  the end of the month, reminders and overdue debts, the safe amounts derived from the
  forecast, the cash runway and the signed cash calendar of the month.

  Message texts are left out; an alert is its code, its severity and its amount. \<open>_scope\<close> is
  \<open>scope_filter\<close> with the active workspace as a parameter. Money is exact in sums; a quotient
  goes through the decimal context.
\<close>

subsection \<open>Shadow accounting\<close>

definition apply_shadow_accounting :: "rat \<Rightarrow> rat \<Rightarrow> rat \<Rightarrow> rat \<Rightarrow> rat" where
  "apply_shadow_accounting cash expected_income card_debt loan_payments =
     qhe 2 (cash + expected_income - card_debt - loan_payments)"

definition calculate_daily_limit :: "rat \<Rightarrow> nat \<Rightarrow> rat" where
  "calculate_daily_limit reel_butce days_remaining =
     (if days_remaining = 0 then 0 else qhe 2 (ddiv reel_butce (of_nat days_remaining)))"

definition calculate_carried_forward :: "rat \<Rightarrow> rat \<Rightarrow> rat" where
  "calculate_carried_forward daily_limit_yesterday spent = qhe 2 (daily_limit_yesterday - spent)"

definition calculate_today_target :: "rat \<Rightarrow> rat \<Rightarrow> rat" where
  "calculate_today_target daily_limit carried = qhe 2 (daily_limit + carried)"

subsection \<open>The card cycle\<close>

datatype kart_durum = Vade_Avantaji | Odeme_Dikkat | Kesim_Dikkat

record kart_stratejisi =
  ks_durum :: kart_durum
  ks_kesim_gunu :: nat
  ks_odeme_gunu :: nat
  ks_gun_to_kesim :: int
  ks_gun_to_odeme :: int
  ks_kullanim_orani :: rat
  ks_kalan_limit :: rat
  ks_mevcut_borc :: rat

text \<open>The debt and the limit arrive as floats.\<close>

definition evaluate_credit_card_strategy :: "date \<Rightarrow> nat \<Rightarrow> nat \<Rightarrow> rat \<Rightarrow> rat \<Rightarrow> kart_stratejisi" where
  "evaluate_credit_card_strategy today kesim odeme borc limit =
     (let last_day = month_len (year today) (month today);
          se = min kesim last_day; pe = min odeme last_day in
      \<lparr>ks_durum = (if se < day today then Vade_Avantaji
          else if day today \<le> pe \<and> 1 < day today then Odeme_Dikkat else Kesim_Dikkat),
       ks_kesim_gunu = se, ks_odeme_gunu = pe,
       ks_gun_to_kesim = days_between today (get_next_due_date today kesim),
       ks_gun_to_odeme = days_between today (get_next_due_date today odeme),
       ks_kullanim_orani = (if 0 < limit then fround 1 (fmul (fdiv borc limit) 100) else 0),
       ks_kalan_limit = fround 2 (fsub limit borc), ks_mevcut_borc = fround 2 borc\<rparr>)"

record kart_odeme =
  ko_tarih :: date
  ko_tutar :: rat
  ko_ekstre :: bool

definition kart_son_odeme :: "account \<Rightarrow> date \<Rightarrow> kart_odeme option" where
  "kart_son_odeme acc today =
     (case payment_day acc of
        Some pd \<Rightarrow>
          if acc_type acc \<noteq> Credit_Card \<or> pd = 0 then None
          else (let tutar = (case statement_balance acc of None \<Rightarrow> acc_balance acc | Some b \<Rightarrow> b) in
            if tutar \<le> 1/100 then None
            else Some \<lparr>ko_tarih = get_next_due_date today pd, ko_tutar = fl tutar,
                       ko_ekstre = (statement_balance acc \<noteq> None)\<rparr>)
      | None \<Rightarrow> None)"

subsection \<open>Until the end of the month\<close>

datatype odeme_tipi = Tip_Gelir | Tip_Kredi_Taksit | Tip_Kart_Odeme | Tip_Alacak

record upcoming =
  up_ad :: string
  up_tutar :: rat
  up_tarih :: date
  up_tip :: odeme_tipi

definition eom :: "date \<Rightarrow> date" where
  "eom today = Date (year today) (month today) (month_len (year today) (month today))"

definition active_incomes :: "nat \<Rightarrow> nat option \<Rightarrow> db \<Rightarrow> recurring_income list" where
  "active_incomes u w s = filter (\<lambda>i. scope_filter u w (ri_user i) (ri_ws i) \<and> ri_active i) (incomes s)"

definition active_expenses :: "nat \<Rightarrow> nat option \<Rightarrow> db \<Rightarrow> recurring_expense list" where
  "active_expenses u w s = filter (\<lambda>e. scope_filter u w (re_user e) (re_ws e) \<and> re_active e) (expenses s)"

definition scoped_accounts :: "nat \<Rightarrow> nat option \<Rightarrow> account_type \<Rightarrow> db \<Rightarrow> account list" where
  "scoped_accounts u w ty s = filter (\<lambda>a. acc_in_scope u w a \<and> acc_type a = ty) (accounts s)"

definition open_debts :: "nat \<Rightarrow> nat option \<Rightarrow> debt_direction \<Rightarrow> db \<Rightarrow> personal_debt list" where
  "open_debts u w dir s = filter (\<lambda>d. pd_in_scope u w d \<and> direction d = dir \<and> \<not> is_paid d) (debts s)"

definition due_within :: "date \<Rightarrow> date \<Rightarrow> date option \<Rightarrow> bool" where
  "due_within start fin d = (case d of None \<Rightarrow> False | Some t \<Rightarrow> start \<le> t \<and> t \<le> fin)"

definition expected_income_until_eom :: "nat \<Rightarrow> nat option \<Rightarrow> date \<Rightarrow> db \<Rightarrow> rat \<times> upcoming list" where
  "expected_income_until_eom u w today s =
     (let last_day = month_len (year today) (month today);
          items = filter (\<lambda>i. ri_last_triggered i \<noteq> Some (year today, month today) \<and>
                     day today \<le> min (ri_day i) last_day) (active_incomes u w s)
      in (qhe 2 (\<Sum>i\<leftarrow>items. ri_amount i),
          map (\<lambda>i. \<lparr>up_ad = ri_name i, up_tutar = ri_amount i,
                up_tarih = Date (year today) (month today) (min (ri_day i) last_day), up_tip = Tip_Gelir\<rparr>) items))"

definition receivables_until_eom :: "nat \<Rightarrow> nat option \<Rightarrow> date \<Rightarrow> db \<Rightarrow> rat" where
  "receivables_until_eom u w today s =
     qhe 2 (\<Sum>d\<leftarrow>filter (\<lambda>d. due_within today (eom today) (due_date d)) (open_debts u w Receivable s). pd_amount d)"

definition loan_payments_until_eom :: "nat \<Rightarrow> nat option \<Rightarrow> date \<Rightarrow> db \<Rightarrow> rat" where
  "loan_payments_until_eom u w today s =
     qhe 2 (\<Sum>a\<leftarrow>filter (\<lambda>a. due_within today (eom today) (next_payment_date a)) (scoped_accounts u w Loan s).
       (case monthly_payment a of None \<Rightarrow> 0 | Some m \<Rightarrow> m))"

definition upcoming_loan_payments :: "nat \<Rightarrow> nat option \<Rightarrow> date \<Rightarrow> db \<Rightarrow> nat \<Rightarrow> upcoming list" where
  "upcoming_loan_payments u w today s horizon_days =
     map (\<lambda>a. \<lparr>up_ad = acc_name a, up_tutar = (case monthly_payment a of None \<Rightarrow> 0 | Some m \<Rightarrow> m),
            up_tarih = the (next_payment_date a), up_tip = Tip_Kredi_Taksit\<rparr>)
       (filter (\<lambda>a. due_within today (add_days today horizon_days) (next_payment_date a)) (scoped_accounts u w Loan s))"

definition upcoming_receivables :: "nat \<Rightarrow> nat option \<Rightarrow> date \<Rightarrow> db \<Rightarrow> nat \<Rightarrow> upcoming list" where
  "upcoming_receivables u w today s horizon_days =
     sort_key up_tarih (map (\<lambda>d. \<lparr>up_ad = counterparty d, up_tutar = pd_amount d,
         up_tarih = the (due_date d), up_tip = Tip_Alacak\<rparr>)
       (filter (\<lambda>d. due_within today (add_days today horizon_days) (due_date d)) (open_debts u w Receivable s)))"

definition total_receivables :: "nat \<Rightarrow> nat option \<Rightarrow> db \<Rightarrow> rat" where
  "total_receivables u w s = qhe 2 (\<Sum>d\<leftarrow>open_debts u w Receivable s. pd_amount d)"

definition total_payables :: "nat \<Rightarrow> nat option \<Rightarrow> db \<Rightarrow> rat" where
  "total_payables u w s = qhe 2 (\<Sum>d\<leftarrow>open_debts u w Payable s. pd_amount d)"

definition upcoming_card_payments :: "nat \<Rightarrow> nat option \<Rightarrow> date \<Rightarrow> db \<Rightarrow> nat \<Rightarrow> upcoming list" where
  "upcoming_card_payments u w today s horizon_days =
     concat (map (\<lambda>k. case kart_son_odeme k today of
         Some so \<Rightarrow> if today \<le> ko_tarih so \<and> ko_tarih so \<le> add_days today horizon_days
           then [\<lparr>up_ad = acc_name k @ '' son odeme'', up_tutar = ko_tutar so, up_tarih = ko_tarih so,
                 up_tip = Tip_Kart_Odeme\<rparr>] else []
       | None \<Rightarrow> []) (scoped_accounts u w Credit_Card s))"

subsection \<open>Reminders and overdue debts\<close>

datatype reminder_type = Rem_Income | Rem_Expense | Rem_Debt | Rem_Receivable | Rem_Card

record reminder =
  rm_type :: reminder_type
  rm_source :: nat
  rm_amount :: rat
  rm_days :: int
  rm_due :: date
  rm_account :: "string option"
  rm_risk :: bool

definition reminder_window :: "date \<Rightarrow> date \<Rightarrow> bool" where
  "reminder_window today t = (0 \<le> days_between today t \<and> days_between today t \<le> 7)"

definition reminder_of :: "date \<Rightarrow> reminder_type \<Rightarrow> nat \<Rightarrow> rat \<Rightarrow> date \<Rightarrow> string option \<Rightarrow> bool \<Rightarrow> reminder list" where
  "reminder_of today ty src amt t acct risk =
     (if reminder_window today t
      then [\<lparr>rm_type = ty, rm_source = src, rm_amount = amt, rm_days = days_between today t, rm_due = t,
             rm_account = acct, rm_risk = risk\<rparr>] else [])"

definition debt_reminders :: "nat \<Rightarrow> nat option \<Rightarrow> date \<Rightarrow> debt_direction \<Rightarrow> reminder_type \<Rightarrow> db \<Rightarrow> reminder list" where
  "debt_reminders u w today dir ty s =
     concat (map (\<lambda>d. case due_date d of None \<Rightarrow> []
        | Some t \<Rightarrow> reminder_of today ty (pd_id d) (pd_amount d) t None False) (open_debts u w dir s))"

text \<open>\<open>accounts\<close> are the accounts in scope.\<close>

definition upcoming_reminders :: "nat \<Rightarrow> nat option \<Rightarrow> date \<Rightarrow> db \<Rightarrow> account list \<Rightarrow> reminder list" where
  "upcoming_reminders u w today s accs =
     (let ym = Some (year today, month today);
          inc = concat (map (\<lambda>i. reminder_of today Rem_Income (ri_id i) (ri_amount i)
                    (get_next_due_date today (ri_day i)) (Some ''Nakit hesap'') False)
                  (filter (\<lambda>i. ri_last_triggered i \<noteq> ym) (active_incomes u w s)));
          ex = concat (map (\<lambda>e.
                  (let acc = (case re_account e of None \<Rightarrow> None | Some i \<Rightarrow> find_row acc_id i accs);
                       risk = (case acc of Some a \<Rightarrow> acc_type a = Credit_Card \<and>
                           (case credit_limit a of Some l \<Rightarrow> l \<noteq> 0 \<and> l < acc_balance a + re_amount e | None \<Rightarrow> False)
                         | None \<Rightarrow> False)
                   in reminder_of today Rem_Expense (re_id e) (re_amount e) (get_next_due_date today (re_day e))
                        (map_option acc_name acc) risk))
                  (filter (\<lambda>e. re_last_triggered e \<noteq> ym) (active_expenses u w s)));
          pay = debt_reminders u w today Payable Rem_Debt s;
          rec = debt_reminders u w today Receivable Rem_Receivable s;
          cards = concat (map (\<lambda>a. case kart_son_odeme a today of None \<Rightarrow> []
                  | Some so \<Rightarrow> reminder_of today Rem_Card (acc_id a) (ko_tutar so) (ko_tarih so) (Some (acc_name a)) True) accs)
      in sort_key (\<lambda>r. (if rm_risk r then 0 else 1 :: nat, rm_days r)) (inc @ ex @ pay @ rec @ cards))"

datatype severity = Kritik | Uyari

datatype alert_code = Kart_Kullanim_Kritik | Kart_Kullanim_Yuksek | Reel_Butce_Negatif | Nakit_Dusuk
  | Yaklasan_Buyuk_Odeme | Borc_Gecikmis | Alacak_Gecikmis | Nakit_Krizi | Kategori_Asim
  | Abonelik_Zam | Kart_Asgari_Sarmal | Kart_Asgari_Tuzak | Fiyat_Bayat

record alert =
  al_seviye :: severity
  al_kod :: alert_code
  al_tutar :: "rat option"
  al_konu :: string

definition collect_overdue_debts :: "nat \<Rightarrow> nat option \<Rightarrow> date \<Rightarrow> db \<Rightarrow> alert list" where
  "collect_overdue_debts u w today s =
     map (\<lambda>d. if direction d = Payable
            then \<lparr>al_seviye = Kritik, al_kod = Borc_Gecikmis, al_tutar = Some (pd_amount d), al_konu = counterparty d\<rparr>
            else \<lparr>al_seviye = Uyari, al_kod = Alacak_Gecikmis, al_tutar = Some (pd_amount d), al_konu = counterparty d\<rparr>)
       (sort_key (\<lambda>d. the (due_date d))
         (filter (\<lambda>d. pd_in_scope u w d \<and> \<not> is_paid d \<and>
            (case due_date d of None \<Rightarrow> False | Some t \<Rightarrow> t < today)) (debts s)))"

subsection \<open>What the forecast allows\<close>

definition crunch_alert_from_summary :: "forecast_summary option \<Rightarrow> alert option" where
  "crunch_alert_from_summary summary = (case summary of None \<Rightarrow> None | Some m \<Rightarrow>
     if fs_crunch_count m = 0 then None
     else Some \<lparr>al_seviye = Kritik, al_kod = Nakit_Krizi, al_tutar = Some \<bar>fs_lowest_balance m\<bar>, al_konu = []\<rparr>)"

text \<open>The summary of the 90 day forecast of the cockpit. Its failure (\<open>None\<close>) is not modelled.\<close>

definition cashflow_forecast_summary :: "nat \<Rightarrow> nat option \<Rightarrow> date \<Rightarrow> db \<Rightarrow> nat \<Rightarrow> forecast_summary option" where
  "cashflow_forecast_summary u w today s horizon_days =
     Some (fc_summary (generate_forecast s u w horizon_days None None 0 today))"

definition detect_cashflow_crunch :: "nat \<Rightarrow> nat option \<Rightarrow> date \<Rightarrow> db \<Rightarrow> nat \<Rightarrow> alert option" where
  "detect_cashflow_crunch u w today s h = crunch_alert_from_summary (cashflow_forecast_summary u w today s h)"

definition calculate_safe_to_spend :: "forecast_summary option \<Rightarrow> rat \<Rightarrow> rat \<Rightarrow> rat" where
  "calculate_safe_to_spend summary kart_borcu buffer = (case summary of None \<Rightarrow> 0
     | Some m \<Rightarrow> qhe 2 (max 0 (fs_lowest_balance m - kart_borcu - buffer)))"

definition calculate_safe_debt_payment :: "forecast_summary option \<Rightarrow> rat \<Rightarrow> rat" where
  "calculate_safe_debt_payment summary buffer = (case summary of None \<Rightarrow> 0
     | Some m \<Rightarrow> qhe 2 (max 0 (fs_lowest_balance m - buffer)))"

datatype borc_yok = Borc_Yok | Ongoru_Yok

record senaryo =
  sn_tampon :: rat
  sn_odenebilir :: rat
  sn_varsayilan :: bool

record borc_odeme =
  bo_toplam_borc :: rat
  bo_en_dusuk :: rat
  bo_en_dusuk_tarih :: date
  bo_onerilen :: rat
  bo_senaryolar :: "senaryo list"

definition build_safe_debt_payment_scenarios ::
  "forecast_summary option \<Rightarrow> rat \<Rightarrow> rat \<Rightarrow> rat \<Rightarrow> borc_yok + borc_odeme" where
  "build_safe_debt_payment_scenarios summary default_buffer kart_borcu kredi_borcu =
     (let toplam = kart_borcu + kredi_borcu in
      case summary of
        None \<Rightarrow> Inl (if toplam \<le> 0 then Borc_Yok else Ongoru_Yok)
      | Some m \<Rightarrow>
          if toplam \<le> 0 then Inl Borc_Yok
          else (let tiers = sorted_list_of_set {0, default_buffer, 5000};
                    cap = (\<lambda>x. qhe 2 (min x toplam)) in
            Inr \<lparr>bo_toplam_borc = qhe 2 toplam, bo_en_dusuk = qhe 2 (fs_lowest_balance m),
              bo_en_dusuk_tarih = fs_lowest_date m,
              bo_onerilen = cap (calculate_safe_debt_payment summary (D_float default_buffer)),
              bo_senaryolar = map (\<lambda>t. \<lparr>sn_tampon = fround 2 t,
                  sn_odenebilir = cap (calculate_safe_debt_payment summary (D_float t)),
                  sn_varsayilan = (t = default_buffer)\<rparr>) tiers\<rparr>))"

definition spent_between :: "nat \<Rightarrow> nat option \<Rightarrow> date \<Rightarrow> date \<Rightarrow> db \<Rightarrow> rat" where
  "spent_between u w start fin s = (\<Sum>t\<leftarrow>filter (\<lambda>t. tx_in_scope u w t \<and> tx_type t = Expense \<and>
     start \<le> tx_date t \<and> tx_date t \<le> fin) (transactions s). tx_amount t)"

text \<open>\<open>int\<close> of a quotient that is not negative is its floor.\<close>

definition calculate_cash_runway :: "nat \<Rightarrow> nat option \<Rightarrow> date \<Rightarrow> db \<Rightarrow> rat \<Rightarrow> nat \<Rightarrow> nat option" where
  "calculate_cash_runway u w today s nakit window_days =
     (if nakit \<le> 0 then Some 0
      else (let spent = spent_between u w (sub_days today window_days) today s;
                loan_monthly = (\<Sum>a\<leftarrow>filter (\<lambda>a. case remaining_installments a of None \<Rightarrow> False | Some r \<Rightarrow> 0 < r)
                  (scoped_accounts u w Loan s). (case monthly_payment a of None \<Rightarrow> 0 | Some m \<Rightarrow> m));
                daily_burn = ddiv spent (of_nat window_days) + ddiv loan_monthly 30
        in if daily_burn \<le> 0 then None else Some (nat \<lfloor>ddiv nakit daily_burn\<rfloor>)))"

end
