(* ===== verification/Rules_Analysis.thy ===== *)
theory Rules_Analysis
  imports Rules_Budget Transactions "HOL-Library.List_Lexorder" "HOL-Library.Char_ord"
begin

text \<open>
  The analysis half of app/rules_engine.py: the month's aggregates and what is derived from
  them (pace, overspending, summary, series, shifts between two months), envelopes,
  subscriptions, the ageing of receivables, the interest leak, the spending patterns and the
  health score.

  The grouping SQL returns its groups in first-occurrence order here; every consumer sorts
  them. Text normalisation (\<open>tr_text.normalize\<close>) is a parameter. Narrative texts are left out.
\<close>

subsection \<open>A month's aggregates\<close>

record cat_total =
  ct_category :: string
  ct_total :: rat
  ct_count :: nat
  ct_percentage :: rat

record month_agg =
  ma_income :: rat
  ma_expense :: rat
  ma_net :: rat
  ma_count :: nat
  ma_savings :: "rat option"
  ma_cats :: "cat_total list"

definition tx_label :: "transaction \<Rightarrow> string" where
  "tx_label t = (case tx_category t of None \<Rightarrow> ''(kategorisiz)'' | Some c \<Rightarrow> c)"

definition pct1 :: "rat \<Rightarrow> rat \<Rightarrow> rat" where
  "pct1 x y = qhe 1 (dmul (ddiv x y) 100)"

definition month_aggregates :: "nat \<Rightarrow> nat option \<Rightarrow> date \<Rightarrow> date \<Rightarrow> db \<Rightarrow> month_agg" where
  "month_aggregates u w start fin s =
     (let txs = filter (\<lambda>t. tx_in_scope u w t \<and> start \<le> tx_date t \<and> tx_date t \<le> fin) (transactions s);
          inc = filter (\<lambda>t. tx_type t = Income) txs; ex = filter (\<lambda>t. tx_type t = Expense) txs;
          total_income = (\<Sum>t\<leftarrow>inc. tx_amount t); total_expense = (\<Sum>t\<leftarrow>ex. tx_amount t);
          cats = map (\<lambda>c. let g = filter (\<lambda>t. tx_label t = c) ex; total = qhe 2 (\<Sum>t\<leftarrow>g. tx_amount t)
                   in \<lparr>ct_category = c, ct_total = total, ct_count = length g,
                       ct_percentage = (if 0 < total_expense then pct1 total total_expense else 0)\<rparr>)
                 (remdups (map tx_label ex));
          net_change = total_income - total_expense
      in \<lparr>ma_income = qhe 2 total_income, ma_expense = qhe 2 total_expense, ma_net = qhe 2 net_change,
          ma_count = length inc + length ex,
          ma_savings = (if 0 < total_income then Some (pct1 net_change total_income) else None),
          ma_cats = sort_key (\<lambda>c. - ct_total c) cats\<rparr>)"

definition month_bounds :: "nat \<Rightarrow> nat \<Rightarrow> date \<times> date" where
  "month_bounds y m = (Date y m 1, Date y m (month_len y m))"

definition prev_month :: "nat \<Rightarrow> nat \<Rightarrow> nat \<times> nat" where
  "prev_month y m = (if m = 1 then (y - 1, 12) else (y, m - 1))"

definition whole_month :: "nat \<Rightarrow> nat option \<Rightarrow> nat \<times> nat \<Rightarrow> db \<Rightarrow> month_agg" where
  "whole_month u w ym s = (case month_bounds (fst ym) (snd ym) of (b, e) \<Rightarrow> month_aggregates u w b e s)"

datatype tempo = Erken | Bilinmiyor | Ustunde | Hedefte

record ay_temposu =
  at_gun :: nat
  at_ay_gunu :: nat
  at_ilerleme :: rat
  at_harcanan :: rat
  at_projeksiyon :: rat
  at_referans :: "rat option"
  at_durum :: tempo

definition projected_total :: "rat \<Rightarrow> nat \<Rightarrow> nat \<Rightarrow> rat" where
  "projected_total spent elapsed days = qhe 2 (dmul (ddiv spent (of_nat elapsed)) (of_nat days))"

definition ay_temposu_of :: "nat \<Rightarrow> nat option \<Rightarrow> date \<Rightarrow> db \<Rightarrow> ay_temposu" where
  "ay_temposu_of u w today s =
     (let harcanan = ma_expense (month_aggregates u w (Date (year today) (month today) 1) today s);
          referans = ma_expense (whole_month u w (prev_month (year today) (month today)) s);
          gecen = day today; ay_gunu = month_len (year today) (month today);
          projeksiyon = (if gecen \<noteq> 0 then projected_total harcanan gecen ay_gunu else harcanan)
      in \<lparr>at_gun = gecen, at_ay_gunu = ay_gunu,
          at_ilerleme = fround 1 (fmul (fdiv (of_nat gecen) (of_nat ay_gunu)) 100),
          at_harcanan = qhe 2 harcanan, at_projeksiyon = projeksiyon,
          at_referans = (if 0 < referans then Some (qhe 2 referans) else None),
          at_durum = (if gecen < 3 then Erken else if referans \<le> 0 then Bilinmiyor
            else if dmul referans (105/100) < projeksiyon then Ustunde else Hedefte)\<rparr>)"

subsection \<open>Envelopes and overspending\<close>

record envelope =
  en_id :: nat
  en_user :: nat
  en_ws :: "nat option"
  en_category :: string
  en_amount :: rat
  en_active :: bool

definition active_envelopes :: "nat \<Rightarrow> nat option \<Rightarrow> envelope list \<Rightarrow> envelope list" where
  "active_envelopes u w es = filter (\<lambda>e. scope_filter u w (en_user e) (en_ws e) \<and> en_active e) es"

record zarf =
  zf_category :: string
  zf_butce :: rat
  zf_harcanan :: rat
  zf_kalan :: rat
  zf_yuzde :: rat
  zf_asildi :: bool

record zarflar =
  zs_zarflar :: "zarf list"
  zs_butce :: rat
  zs_harcanan :: rat
  zs_kalan :: rat
  zs_asan :: nat

definition cat_total_of :: "string \<Rightarrow> cat_total list \<Rightarrow> rat" where
  "cat_total_of c cs = (case List.find (\<lambda>x. ct_category x = c) cs of None \<Rightarrow> 0 | Some x \<Rightarrow> ct_total x)"

definition calculate_envelopes :: "nat \<Rightarrow> nat option \<Rightarrow> date \<Rightarrow> envelope list \<Rightarrow> db \<Rightarrow> zarflar" where
  "calculate_envelopes u w today es s =
     (let envs = active_envelopes u w es;
          cats = ma_cats (month_aggregates u w (Date (year today) (month today) 1) today s);
          spent = (\<lambda>e. cat_total_of (en_category e) cats);
          zs = map (\<lambda>e. \<lparr>zf_category = en_category e, zf_butce = qhe 2 (en_amount e), zf_harcanan = qhe 2 (spent e),
                 zf_kalan = qhe 2 (en_amount e - spent e),
                 zf_yuzde = (if 0 < en_amount e then pct1 (spent e) (en_amount e) else 0),
                 zf_asildi = (en_amount e < spent e)\<rparr>) envs;
          butce = (\<Sum>e\<leftarrow>envs. en_amount e); harcanan = (\<Sum>e\<leftarrow>envs. spent e)
      in if envs = [] then \<lparr>zs_zarflar = [], zs_butce = 0, zs_harcanan = 0, zs_kalan = 0, zs_asan = 0\<rparr>
         else \<lparr>zs_zarflar = sort_key (\<lambda>z. - zf_yuzde z) zs, zs_butce = qhe 2 butce, zs_harcanan = qhe 2 harcanan,
               zs_kalan = qhe 2 (butce - harcanan), zs_asan = length (filter zf_asildi zs)\<rparr>)"

definition category_overspend_alerts ::
  "(string \<Rightarrow> string) \<Rightarrow> string list \<Rightarrow> nat \<Rightarrow> nat option \<Rightarrow> date \<Rightarrow> envelope list \<Rightarrow> db \<Rightarrow> alert list" where
  "category_overspend_alerts fold_text sistem_slugs u w today es s =
     (let days_in_month = month_len (year today) (month today); elapsed = day today in
      if elapsed < 5 then []
      else (let cur = ma_cats (month_aggregates u w (Date (year today) (month today) 1) today s);
                prev = ma_cats (whole_month u w (prev_month (year today) (month today)) s);
                envs = fold (\<lambda>e d. dset (en_category e) (en_amount e) d) (active_envelopes u w es) [];
                ref = (\<lambda>c. case map_of envs c of Some b \<Rightarrow> b | None \<Rightarrow> cat_total_of c prev);
                over = filter (\<lambda>c. 0 < ct_total c \<and> fold_text (ct_category c) \<notin> set sistem_slugs \<and>
                    0 < ref (ct_category c) \<and>
                    dmul (ref (ct_category c)) (115/100) < projected_total (ct_total c) elapsed days_in_month) cur
            in take 2 (sort_key (\<lambda>a. - the (al_tutar a)) (map (\<lambda>c. \<lparr>al_seviye = Uyari, al_kod = Kategori_Asim,
                 al_tutar = Some (projected_total (ct_total c) elapsed days_in_month), al_konu = ct_category c\<rparr>) over))))"

subsection \<open>Two months side by side\<close>

definition pct_delta :: "rat \<Rightarrow> rat \<Rightarrow> rat option" where
  "pct_delta c p = (if 0 < p then Some (pct1 (c - p) p) else None)"

datatype kayma_durum = Yeni | Kayboldu | Artti | Azaldi

record kayma =
  ky_category :: string
  ky_current :: rat
  ky_previous :: rat
  ky_delta :: rat
  ky_delta_pct :: "rat option"
  ky_durum :: kayma_durum

definition kategori_kaymalari :: "cat_total list \<Rightarrow> cat_total list \<Rightarrow> kayma list" where
  "kategori_kaymalari cur_cats prev_cats =
     (let names = remdups (map ct_category cur_cats @ map ct_category prev_cats);
          ks = concat (map (\<lambda>ad. let c = cat_total_of ad cur_cats; p = cat_total_of ad prev_cats; fark = c - p in
                 if \<bar>fark\<bar> < 1 then []
                 else [\<lparr>ky_category = ad, ky_current = qhe 2 c, ky_previous = qhe 2 p, ky_delta = qhe 2 fark,
                        ky_delta_pct = pct_delta c p,
                        ky_durum = (if p = 0 then Yeni else if c = 0 then Kayboldu else if 0 < fark then Artti else Azaldi)\<rparr>])
               names)
      in take 5 (sort_key (\<lambda>k. (- \<bar>ky_delta k\<bar>, ky_category k)) ks))"

record monthly_summary =
  ms_current :: month_agg
  ms_previous :: "nat \<times> nat"
  ms_income_delta :: "rat option"
  ms_expense_delta :: "rat option"
  ms_net_delta :: rat
  ms_kaymalar :: "kayma list"

definition generate_monthly_summary :: "nat \<Rightarrow> nat option \<Rightarrow> nat \<Rightarrow> nat \<Rightarrow> db \<Rightarrow> monthly_summary" where
  "generate_monthly_summary u w y m s =
     (let cur = whole_month u w (y, m) s; prev = whole_month u w (prev_month y m) s in
      \<lparr>ms_current = cur, ms_previous = prev_month y m,
       ms_income_delta = pct_delta (ma_income cur) (ma_income prev),
       ms_expense_delta = pct_delta (ma_expense cur) (ma_expense prev),
       ms_net_delta = qhe 2 (ma_net cur - ma_net prev),
       ms_kaymalar = kategori_kaymalari (ma_cats cur) (ma_cats prev)\<rparr>)"

text \<open>The series is built backwards and reversed.\<close>

fun month_series :: "nat \<Rightarrow> nat option \<Rightarrow> nat \<Rightarrow> nat \<times> nat \<Rightarrow> db \<Rightarrow> ((nat \<times> nat) \<times> month_agg) list" where
  "month_series u w 0 ym s = []"
| "month_series u w (Suc n) ym s =
     (ym, whole_month u w ym s) # month_series u w n (prev_month (fst ym) (snd ym)) s"

definition generate_monthly_series ::
  "nat \<Rightarrow> nat option \<Rightarrow> nat \<Rightarrow> nat \<Rightarrow> db \<Rightarrow> int \<Rightarrow> ((nat \<times> nat) \<times> month_agg) list \<times> rat option" where
  "generate_monthly_series u w y m s ay_sayisi =
     (let seri = rev (month_series u w (nat (max 1 (min ay_sayisi 24))) (y, m) s);
          dolu = concat (map (\<lambda>p. case ma_savings (snd p) of None \<Rightarrow> [] | Some r \<Rightarrow> [r]) seri)
      in (seri, if dolu = [] then None else Some (qhe 1 (ddiv (\<Sum>r\<leftarrow>dolu. r) (of_nat (length dolu))))))"

subsection \<open>Subscriptions\<close>

datatype period = Monthly | Annual

record subscription =
  sb_key :: string
  sb_period :: period
  sb_cost :: rat
  sb_count :: nat
  sb_last :: date
  sb_old :: rat
  sb_new :: rat
  sb_changed :: bool

definition day_gaps :: "date list \<Rightarrow> int list" where
  "day_gaps ds = filter (\<lambda>g. 0 < g) (map (\<lambda>(a, b). days_between a b) (zip ds (tl ds)))"

definition median_gap :: "int list \<Rightarrow> int" where
  "median_gap gs = sort gs ! (length gs div 2)"

definition subscription_of :: "string \<Rightarrow> transaction list \<Rightarrow> subscription option" where
  "subscription_of key items =
     (let gaps = day_gaps (map tx_date items); amounts = map (\<lambda>t. qhe 2 (tx_amount t)) items;
          med = median_gap gaps
      in if length items < 3 \<or> gaps = [] \<or> 2 < card (set amounts) then None
         else if 24 \<le> med \<and> med \<le> 35 then
           Some \<lparr>sb_key = key, sb_period = Monthly, sb_cost = last amounts, sb_count = length items,
                 sb_last = tx_date (last items), sb_old = hd amounts, sb_new = last amounts,
                 sb_changed = (2 \<le> card (set amounts))\<rparr>
         else if 350 \<le> med \<and> med \<le> 381 then
           Some \<lparr>sb_key = key, sb_period = Annual, sb_cost = qhe 2 (ddiv (last amounts) 12), sb_count = length items,
                 sb_last = tx_date (last items), sb_old = hd amounts, sb_new = last amounts,
                 sb_changed = (2 \<le> card (set amounts))\<rparr>
         else None)"

definition detect_subscriptions ::
  "(string \<Rightarrow> string) \<Rightarrow> nat \<Rightarrow> nat option \<Rightarrow> date \<Rightarrow> nat \<Rightarrow> db \<Rightarrow> subscription list \<times> rat" where
  "detect_subscriptions normalize_merchant u w today lookback_days s =
     (let txs = sort_key tx_date (filter (\<lambda>t. tx_in_scope u w t \<and> tx_type t = Expense \<and>
                  sub_days today lookback_days \<le> tx_date t \<and> tx_description t \<noteq> None) (transactions s));
          key = (\<lambda>t. normalize_merchant (the (tx_description t)));
          keys = filter (\<lambda>k. k \<noteq> []) (remdups (map key txs));
          subs = concat (map (\<lambda>k. case subscription_of k (filter (\<lambda>t. key t = k) txs) of
                   None \<Rightarrow> [] | Some x \<Rightarrow> [x]) keys)
      in (sort_key (\<lambda>x. - sb_cost x) subs, qhe 2 (\<Sum>x\<leftarrow>subs. sb_cost x)))"

definition subscription_price_alerts :: "subscription list \<Rightarrow> alert list" where
  "subscription_price_alerts subs = map (\<lambda>x. \<lparr>al_seviye = Uyari, al_kod = Abonelik_Zam, al_tutar = Some (sb_new x),
       al_konu = sb_key x\<rparr>)
     (filter (\<lambda>x. sb_changed x \<and> sb_old x < sb_new x \<and> 0 < sb_old x) subs)"

subsection \<open>The ageing of receivables\<close>

datatype kova = Gecikmis_60 | Gecikmis_31 | Gecikmis_1 | Vadesi_Gelmemis | Tarihsiz

record alacak_kalemi =
  ak_kim :: string
  ak_tutar :: rat
  ak_gecikme :: int
  ak_due :: "date option"

record kova_ozeti =
  ko_etiket :: kova
  ko_adet :: nat
  ko_toplam :: rat
  ko_kalemler :: "alacak_kalemi list"

record yaslandirma =
  ya_toplam :: rat
  ya_adet :: nat
  ya_gecikmis :: rat
  ya_gecikmis_adet :: nat
  ya_kovalar :: "kova_ozeti list"
  ya_en_riskli :: "alacak_kalemi list"

definition gecikme_gun :: "date \<Rightarrow> personal_debt \<Rightarrow> int" where
  "gecikme_gun today d = (case due_date d of None \<Rightarrow> 0 | Some t \<Rightarrow> days_between t today)"

definition kova_of :: "date \<Rightarrow> personal_debt \<Rightarrow> kova" where
  "kova_of today d = (case due_date d of None \<Rightarrow> Tarihsiz
     | Some t \<Rightarrow> (let g = days_between t today in
         if 1 \<le> g then (if 61 \<le> g then Gecikmis_60 else if 31 \<le> g then Gecikmis_31 else Gecikmis_1)
         else Vadesi_Gelmemis))"

definition kalem_of :: "date \<Rightarrow> personal_debt \<Rightarrow> alacak_kalemi" where
  "kalem_of today d = \<lparr>ak_kim = counterparty d, ak_tutar = qhe 2 (pd_amount d),
     ak_gecikme = gecikme_gun today d, ak_due = due_date d\<rparr>"

definition calculate_receivables_aging :: "nat \<Rightarrow> nat option \<Rightarrow> date \<Rightarrow> db \<Rightarrow> yaslandirma option" where
  "calculate_receivables_aging u w today s =
     (let ds = open_debts u w Receivable s;
          late = map (kalem_of today) (filter (\<lambda>d. 1 \<le> gecikme_gun today d) ds);
          bucket = (\<lambda>l. map (kalem_of today) (filter (\<lambda>d. kova_of today d = l) ds));
          kovalar = map (\<lambda>l. \<lparr>ko_etiket = l, ko_adet = length (bucket l),
                        ko_toplam = qhe 2 (\<Sum>k\<leftarrow>bucket l. ak_tutar k),
                        ko_kalemler = sort_key (\<lambda>k. - ak_gecikme k) (bucket l)\<rparr>)
                    (filter (\<lambda>l. bucket l \<noteq> []) [Gecikmis_60, Gecikmis_31, Gecikmis_1, Vadesi_Gelmemis, Tarihsiz])
      in if ds = [] then None
         else Some \<lparr>ya_toplam = qhe 2 (\<Sum>d\<leftarrow>ds. pd_amount d), ya_adet = length ds,
                    ya_gecikmis = qhe 2 (\<Sum>k\<leftarrow>late. ak_tutar k), ya_gecikmis_adet = length late,
                    ya_kovalar = kovalar, ya_en_riskli = take 3 (sort_key (\<lambda>k. - ak_gecikme k) late)\<rparr>)"

subsection \<open>The interest leak\<close>

definition calculate_interest_leak :: "nat \<Rightarrow> nat option \<Rightarrow> db \<Rightarrow> (string \<times> rat \<times> rat \<times> rat) list \<times> rat \<times> rat \<times> rat" where
  "calculate_interest_leak u w s =
     (let accs = filter (\<lambda>a. acc_in_scope u w a \<and> (acc_type a = Loan \<or> acc_type a = Credit_Card)) (accounts s);
          oran = (\<lambda>a. case interest_rate a of None \<Rightarrow> 0 | Some r \<Rightarrow> fl r);
          leaking = filter (\<lambda>a. 0 < acc_balance a \<and> 0 < oran a) accs;
          kalemler = map (\<lambda>a. (acc_name a, qhe 2 (acc_balance a), oran a,
                        qhe 2 (ddiv (dmul (acc_balance a) (D_float (oran a))) 100))) leaking;
          aylik = qhe 2 (\<Sum>k\<leftarrow>kalemler. snd (snd (snd k)))
      in (sort_key (\<lambda>k. - snd (snd (snd k))) kalemler, aylik, qhe 2 (aylik * 12), qhe 2 (ddiv aylik 30)))"

subsection \<open>Spending patterns\<close>

text \<open>The raw SQL filters by the user, not by \<open>_scope\<close>; the threshold and the minimum count are
  1.4 and 3.\<close>

record pattern =
  pt_category :: string
  pt_prev :: rat
  pt_curr :: rat
  pt_change :: "rat option"
  pt_anomaly :: bool

definition calculate_category_patterns ::
  "(string \<Rightarrow> string) \<Rightarrow> string list \<Rightarrow> nat \<Rightarrow> date \<Rightarrow> db \<Rightarrow> pattern list" where
  "calculate_category_patterns fold_text sistem_slugs u today s =
     (let curr_start = sub_days today 29; prev_start = sub_days today 59;
          txs = filter (\<lambda>t. tx_user t = u \<and> tx_type t = Expense \<and> prev_start \<le> tx_date t \<and> tx_date t \<le> today)
                  (transactions s);
          groups = map (\<lambda>c. (c, filter (\<lambda>t. tx_category t = c) txs)) (remdups (map tx_category txs));
          rows = filter (\<lambda>(c, g). 3 \<le> length (filter (\<lambda>t. curr_start \<le> tx_date t) g)) groups;
          totals = map (\<lambda>(c, g). (c, (\<Sum>t\<leftarrow>filter (\<lambda>t. tx_date t < curr_start) g. tx_amount t),
                   (\<Sum>t\<leftarrow>filter (\<lambda>t. curr_start \<le> tx_date t) g. tx_amount t))) rows;
          kept = filter (\<lambda>(c, p, q). case c of None \<Rightarrow> True | Some n \<Rightarrow> fold_text n \<notin> set sistem_slugs)
                   (sort_key (\<lambda>(c, p, q). - q) totals)
      in map (\<lambda>(c, p, q). \<lparr>pt_category = (case c of None \<Rightarrow> ''diger'' | Some n \<Rightarrow> if n = [] then ''diger'' else n),
           pt_prev = qhe 2 p, pt_curr = qhe 2 q, pt_change = pct_delta q p,
           pt_anomaly = (if 0 < p then dmul p (14/10) < q else 0 < q)\<rparr>) kept)"

subsection \<open>The health score\<close>

datatype seviye = Iyi | Orta | Seviye_Kritik

text \<open>The monthly interest and income are decimals, the runway is a number of days.\<close>

definition clamp100 :: "int \<Rightarrow> int" where
  "clamp100 n = max 0 (min 100 n)"

definition health_components ::
  "rat \<Rightarrow> rat \<Rightarrow> rat \<Rightarrow> rat \<Rightarrow> rat \<Rightarrow> nat option \<Rightarrow> bool \<Rightarrow> nat \<Rightarrow> bool \<Rightarrow> int list" where
  "health_components reel_butce kart_borcu kart_limit aylik_faiz aylik_gelir runway crunch_var zarf_asan zarf_var =
     [if crunch_var then 20 else if 0 \<le> reel_butce then 100 else 40] @
     (if 1 < aylik_gelir
      then [clamp100 (rhe (100 - dmul (min (ddiv aylik_faiz aylik_gelir) 10) 333))] else []) @
     (case runway of None \<Rightarrow> [] | Some r \<Rightarrow> [clamp100 (rhe (fmul (fdiv (of_nat r) 90) 100))]) @
     (if 0 < kart_limit then [clamp100 (rhe (dmul (1 - min (ddiv kart_borcu kart_limit) 1) 100))] else []) @
     (if zarf_var then [if zarf_asan = 0 then 100 else max 0 (100 - int zarf_asan * 25)] else [])"

definition calculate_health_score ::
  "rat \<Rightarrow> rat \<Rightarrow> rat \<Rightarrow> rat \<Rightarrow> rat \<Rightarrow> nat option \<Rightarrow> bool \<Rightarrow> nat \<Rightarrow> bool \<Rightarrow> int \<times> seviye" where
  "calculate_health_score reel_butce kart_borcu kart_limit aylik_faiz aylik_gelir runway crunch_var zarf_asan zarf_var =
     (let cs = health_components reel_butce kart_borcu kart_limit aylik_faiz aylik_gelir runway crunch_var zarf_asan zarf_var;
          skor = rhe (fdiv (of_int (sum_list cs)) (of_nat (length cs)))
      in (skor, if 70 \<le> skor then Iyi else if 40 \<le> skor then Orta else Seviye_Kritik))"

end
