(* ===== verification/Cash_Calendar.thy ===== *)
theory Cash_Calendar
  imports Rules_Budget "HOL-Library.Multiset"
begin

text \<open>
  The signed cash calendar of the month, \<open>calculate_nakit_takvimi\<close> of app/rules_engine.py, and
  what it promises: entries in date order, each with its direction twice, a running balance,
  the month's end and the lowest point. The accounts' own default names (Alacak, Borc) for an
  empty counterparty are left out.
\<close>

subsection \<open>The calendar\<close>

datatype kalem_tipi = Duzenli_Gelir | Duzenli_Gider | Alacak | Borc | Kredi_Taksit | Kart_Odeme

record kalem =
  km_tarih :: date
  km_ad :: string
  km_tutar :: rat
  km_giris :: bool
  km_etki :: rat
  km_tip :: kalem_tipi
  km_kaynak :: nat

text \<open>\<open>_ekle\<close>; \<open>km_kaynak\<close> is the primary key of the row the entry comes from.\<close>

definition ekle :: "date \<Rightarrow> date \<Rightarrow> string \<Rightarrow> rat \<Rightarrow> kalem_tipi \<Rightarrow> bool \<Rightarrow> nat \<Rightarrow> kalem list" where
  "ekle bugun tarih ad t tip giris src =
     (if t \<le> 0 \<or> \<not> (bugun \<le> tarih \<and> tarih \<le> eom bugun) then []
      else [\<lparr>km_tarih = tarih, km_ad = ad, km_tutar = qhe 2 t, km_giris = giris,
             km_etki = qhe 2 (if giris then t else - t), km_tip = tip, km_kaynak = src\<rparr>])"

definition in_month :: "date \<Rightarrow> nat \<Rightarrow> date" where
  "in_month bugun dm = Date (year bugun) (month bugun) (min dm (month_len (year bugun) (month bugun)))"

definition takvim_gelirleri :: "nat \<Rightarrow> nat option \<Rightarrow> date \<Rightarrow> db \<Rightarrow> kalem list" where
  "takvim_gelirleri u w bugun s = concat (map (\<lambda>i.
       ekle bugun (in_month bugun (ri_day i)) (ri_name i) (ri_amount i) Duzenli_Gelir True (ri_id i))
     (filter (\<lambda>i. ri_last_triggered i \<noteq> Some (year bugun, month bugun)) (active_incomes u w s)))"

text \<open>The recurring expenses of the month fall into three classes: unknown account, a card's,
  and cash.\<close>

definition month_expenses :: "nat \<Rightarrow> nat option \<Rightarrow> date \<Rightarrow> db \<Rightarrow> recurring_expense list" where
  "month_expenses u w bugun s =
     filter (\<lambda>e. re_last_triggered e \<noteq> Some (year bugun, month bugun)) (active_expenses u w s)"

definition card_ids :: "nat \<Rightarrow> nat option \<Rightarrow> db \<Rightarrow> nat set" where
  "card_ids u w s = acc_id ` set (scoped_accounts u w Credit_Card s)"

definition hesabi_belirsiz :: "nat \<Rightarrow> nat option \<Rightarrow> date \<Rightarrow> db \<Rightarrow> recurring_expense list" where
  "hesabi_belirsiz u w bugun s = filter (\<lambda>e. re_account e = None) (month_expenses u w bugun s)"

definition on_card :: "nat \<Rightarrow> nat option \<Rightarrow> db \<Rightarrow> recurring_expense \<Rightarrow> bool" where
  "on_card u w s e = (case re_account e of None \<Rightarrow> False | Some i \<Rightarrow> i \<in> card_ids u w s)"

definition karta_yazilacak :: "nat \<Rightarrow> nat option \<Rightarrow> date \<Rightarrow> db \<Rightarrow> recurring_expense list" where
  "karta_yazilacak u w bugun s = filter (on_card u w s) (month_expenses u w bugun s)"

definition takvim_giderleri :: "nat \<Rightarrow> nat option \<Rightarrow> date \<Rightarrow> db \<Rightarrow> kalem list" where
  "takvim_giderleri u w bugun s = concat (map (\<lambda>e.
       ekle bugun (in_month bugun (re_day e)) (re_name e) (re_amount e) Duzenli_Gider False (re_id e))
     (filter (\<lambda>e. re_account e \<noteq> None \<and> \<not> on_card u w s e) (month_expenses u w bugun s)))"

definition takvim_borclari :: "nat \<Rightarrow> nat option \<Rightarrow> date \<Rightarrow> db \<Rightarrow> kalem list" where
  "takvim_borclari u w bugun s = concat (map (\<lambda>d. case due_date d of None \<Rightarrow> []
      | Some t \<Rightarrow> ekle bugun t (counterparty d) (pd_amount d)
          (if direction d = Receivable then Alacak else Borc) (direction d = Receivable) (pd_id d))
     (filter (\<lambda>d. pd_in_scope u w d \<and> \<not> is_paid d) (debts s)))"

definition takvim_hesaplari :: "nat \<Rightarrow> nat option \<Rightarrow> date \<Rightarrow> db \<Rightarrow> kalem list" where
  "takvim_hesaplari u w bugun s = concat (map (\<lambda>a.
      if acc_type a = Loan
      then (case next_payment_date a of None \<Rightarrow> []
        | Some t \<Rightarrow> ekle bugun t (acc_name a) (case monthly_payment a of None \<Rightarrow> 0 | Some m \<Rightarrow> m)
            Kredi_Taksit False (acc_id a))
      else (case kart_son_odeme a bugun of None \<Rightarrow> []
        | Some so \<Rightarrow> ekle bugun (ko_tarih so) (acc_name a) (D_float (ko_tutar so)) Kart_Odeme False (acc_id a)))
     (filter (\<lambda>a. acc_in_scope u w a \<and> (acc_type a = Loan \<or> acc_type a = Credit_Card)) (accounts s)))"

definition yatirimda_bekleyen :: "nat \<Rightarrow> nat option \<Rightarrow> db \<Rightarrow> (string \<times> rat) list \<times> rat" where
  "yatirimda_bekleyen u w s =
     (let rows = filter (\<lambda>a. \<not> is_emanet a \<and>
            \<not> ((case fund_code a of None \<Rightarrow> False | Some c \<Rightarrow> c \<noteq> []) \<or>
               (case lot_count a of None \<Rightarrow> False | Some l \<Rightarrow> l \<noteq> 0)) \<and> 0 < acc_balance a)
          (scoped_accounts u w Investment s)
      in (map (\<lambda>a. (acc_name a, qhe 2 (acc_balance a))) rows, qhe 2 (\<Sum>a\<leftarrow>rows. acc_balance a)))"

fun running :: "rat \<Rightarrow> kalem list \<Rightarrow> rat list" where
  "running b [] = []"
| "running b (k # ks) = (b + km_etki k) # running (b + km_etki k) ks"

text \<open>The loop over the entries: balance, lowest balance and its date.\<close>

fun takvim_walk :: "rat \<Rightarrow> rat \<Rightarrow> date \<Rightarrow> kalem list \<Rightarrow> rat \<times> rat \<times> date" where
  "takvim_walk b low ld [] = (b, low, ld)"
| "takvim_walk b low ld (k # ks) =
     (let b' = b + km_etki k in
      if b' < low then takvim_walk b' b' (km_tarih k) ks else takvim_walk b' low ld ks)"

record nakit_takvimi =
  nt_baslangic :: rat
  nt_bekleyen :: rat
  nt_erisilebilir :: rat
  nt_karta :: rat
  nt_belirsiz :: rat
  nt_belirsiz_nakitse :: rat
  nt_kalemler :: "(kalem \<times> rat) list"
  nt_giris :: rat
  nt_cikis :: rat
  nt_ay_sonu :: rat
  nt_en_dusuk :: rat
  nt_en_dusuk_tarih :: date
  nt_acik_var :: bool

definition takvim_kalemleri :: "nat \<Rightarrow> nat option \<Rightarrow> date \<Rightarrow> db \<Rightarrow> kalem list" where
  "takvim_kalemleri u w bugun s = sort_key (\<lambda>k. (km_tarih k, km_giris k))
     (takvim_gelirleri u w bugun s @ takvim_giderleri u w bugun s @
      takvim_borclari u w bugun s @ takvim_hesaplari u w bugun s)"

definition calculate_nakit_takvimi :: "nat \<Rightarrow> nat option \<Rightarrow> date \<Rightarrow> db \<Rightarrow> nakit_takvimi" where
  "calculate_nakit_takvimi u w bugun s =
     (let ks = takvim_kalemleri u w bugun s;
          baslangic = (\<Sum>a\<leftarrow>scoped_accounts u w Cash s. acc_balance a);
          giris = (\<Sum>k\<leftarrow>filter km_giris ks. km_tutar k);
          cikis = (\<Sum>k\<leftarrow>filter (\<lambda>k. \<not> km_giris k) ks. km_tutar k);
          (bakiye, en_dusuk, en_dusuk_tarih) = takvim_walk baslangic baslangic bugun ks;
          bekleyen = snd (yatirimda_bekleyen u w s);
          belirsiz = (\<Sum>e\<leftarrow>hesabi_belirsiz u w bugun s. qhe 2 (re_amount e))
      in \<lparr>nt_baslangic = qhe 2 baslangic, nt_bekleyen = bekleyen, nt_erisilebilir = qhe 2 (baslangic + bekleyen),
          nt_karta = qhe 2 (\<Sum>e\<leftarrow>karta_yazilacak u w bugun s. qhe 2 (re_amount e)),
          nt_belirsiz = qhe 2 belirsiz, nt_belirsiz_nakitse = qhe 2 (bakiye - belirsiz),
          nt_kalemler = zip ks (map (qhe 2) (running baslangic ks)),
          nt_giris = qhe 2 giris, nt_cikis = qhe 2 cikis, nt_ay_sonu = qhe 2 bakiye,
          nt_en_dusuk = qhe 2 en_dusuk, nt_en_dusuk_tarih = en_dusuk_tarih, nt_acik_var = (en_dusuk < 0)\<rparr>)"

subsection \<open>What it promises\<close>

text \<open>An entry says its direction twice, in agreement, and lies in the rest of the month.\<close>

definition kalem_ok :: "date \<Rightarrow> kalem \<Rightarrow> bool" where
  "kalem_ok bugun k \<longleftrightarrow> bugun \<le> km_tarih k \<and> km_tarih k \<le> eom bugun \<and> 0 \<le> km_tutar k \<and>
     km_etki k = (if km_giris k then km_tutar k else - km_tutar k) \<and>
     (km_giris k \<longleftrightarrow> km_tip k \<in> {Duzenli_Gelir, Alacak})"

lemma qhe_zero [simp]: "qhe n 0 = 0"
  by (rule qhe_grid) (rule on_gridI [of _ 0], simp)

lemma qhe_nonneg: "0 \<le> x \<Longrightarrow> 0 \<le> qhe n x"
  using qhe_mono [of 0 x n] by simp

lemma kalem_ok_ekle:
  "k \<in> set (ekle bugun t ad x tip giris src) \<Longrightarrow> (giris \<longleftrightarrow> tip \<in> {Duzenli_Gelir, Alacak}) \<Longrightarrow> kalem_ok bugun k"
  by (auto simp: ekle_def kalem_ok_def qhe_odd qhe_nonneg split: if_splits)

lemma kalemler_ok: "k \<in> set (takvim_kalemleri u w bugun s) \<Longrightarrow> kalem_ok bugun k"
  by (auto simp: takvim_kalemleri_def takvim_gelirleri_def takvim_giderleri_def takvim_borclari_def
      takvim_hesaplari_def intro: kalem_ok_ekle split: option.splits if_splits)

lemma etki_split:
  "\<forall>k \<in> set ks. kalem_ok bugun k \<Longrightarrow>
   (\<Sum>k\<leftarrow>ks. km_etki k) = (\<Sum>k\<leftarrow>filter km_giris ks. km_tutar k) - (\<Sum>k\<leftarrow>filter (\<lambda>k. \<not> km_giris k) ks. km_tutar k)"
  by (induction ks) (auto simp: kalem_ok_def)

lemma running_nth: "i < length ks \<Longrightarrow> running b ks ! i = b + (\<Sum>k\<leftarrow>take (Suc i) ks. km_etki k)"
proof (induction ks arbitrary: b i)
  case (Cons k ks)
  then show ?case by (cases i) simp_all
qed simp

lemma length_running [simp]: "length (running b ks) = length ks"
  by (induction ks arbitrary: b) simp_all

lemma takvim_walk_spec:
  "takvim_walk b low ld ks = (b', low', ld') \<Longrightarrow>
   b' = b + (\<Sum>k\<leftarrow>ks. km_etki k) \<and> low' = Min (insert low (set (running b ks)))"
proof (induction ks arbitrary: b low ld)
  case (Cons k ks)
  let ?b = "b + km_etki k"
  have "takvim_walk ?b (min low ?b) (if ?b < low then km_tarih k else ld) ks = (b', low', ld')"
    using Cons.prems by (simp add: Let_def min_def split: if_splits)
  from Cons.IH [OF this] have "b' = ?b + (\<Sum>k\<leftarrow>ks. km_etki k)"
    "low' = Min (insert (min low ?b) (set (running ?b ks)))" by simp_all
  moreover have "Min (insert (min low ?b) S) = Min (insert low (insert ?b S))" if "finite S" for S
    using that by (cases "S = {}") (simp_all add: min.assoc)
  ultimately show ?case by simp
qed simp

lemma card_expenses_kept_out:
  assumes "k \<in> set (takvim_kalemleri u w bugun s)" "km_tip k = Duzenli_Gider"
  shows "\<exists>e \<in> set (expenses s). re_id e = km_kaynak k \<and> re_account e \<noteq> None \<and> \<not> on_card u w s e"
proof -
  have "k \<in> set (takvim_giderleri u w bugun s)"
    using assms by (auto simp: takvim_kalemleri_def takvim_gelirleri_def takvim_borclari_def
      takvim_hesaplari_def ekle_def split: option.splits if_splits)
  then show ?thesis
    by (auto simp: takvim_giderleri_def ekle_def month_expenses_def active_expenses_def split: if_splits)
qed

text \<open>The cash calendar is an exact signed ledger of the rest of the month. Its entries are in
  date order and within the month; each one's word and sign agree (money in exactly for
  incomes and receivables, magnitude never negative) and carries the balance after it; the month
  ends at the opening cash plus everything in minus everything out; a shortfall is reported
  iff some balance on the way is negative, even when the month ends positive. A recurring
  expense charged to a card, or to no account, is never counted as cash.\<close>

theorem nakit_takvimi_ledger:
  "let t = calculate_nakit_takvimi u w bugun s; ks = map fst (nt_kalemler t);
       b0 = (\<Sum>a\<leftarrow>scoped_accounts u w Cash s. acc_balance a);
       bal = (\<lambda>i. b0 + (\<Sum>k\<leftarrow>take i ks. km_etki k)) in
   ks = takvim_kalemleri u w bugun s \<and> sorted (map km_tarih ks) \<and>
   (\<forall>k \<in> set ks. kalem_ok bugun k \<and> (km_tip k = Duzenli_Gider \<longrightarrow>
      (\<exists>e \<in> set (expenses s). re_id e = km_kaynak k \<and> re_account e \<noteq> None \<and> \<not> on_card u w s e))) \<and>
   (\<forall>i < length ks. snd (nt_kalemler t ! i) = qhe 2 (bal (Suc i))) \<and>
   nt_ay_sonu t = qhe 2 (b0 + (\<Sum>k\<leftarrow>filter km_giris ks. km_tutar k) - (\<Sum>k\<leftarrow>filter (\<lambda>k. \<not> km_giris k) ks. km_tutar k)) \<and>
   nt_en_dusuk t = qhe 2 (Min (bal ` {..length ks})) \<and>
   (nt_acik_var t \<longleftrightarrow> (\<exists>i \<le> length ks. bal i < 0))"
proof -
  define ks where "ks = takvim_kalemleri u w bugun s"
  define b0 where "b0 = (\<Sum>a\<leftarrow>scoped_accounts u w Cash s. acc_balance a)"
  define bal where "bal = (\<lambda>i. b0 + (\<Sum>k\<leftarrow>take i ks. km_etki k))"
  obtain b low ld where wk: "takvim_walk b0 b0 bugun ks = (b, low, ld)" by (metis prod_cases3)
  note W = takvim_walk_spec [OF wk]
  have "set (running b0 ks) = (\<lambda>i. running b0 ks ! i) ` {..<length ks}"
    by (auto simp: set_conv_nth)
  also have "\<dots> = (\<lambda>i. bal (Suc i)) ` {..<length ks}"
    by (rule image_cong) (simp_all add: running_nth bal_def)
  finally have "insert b0 (set (running b0 ks)) = insert (bal 0) (bal ` Suc ` {..<length ks})"
    by (simp add: image_image bal_def)
  also have "\<dots> = bal ` {..length ks}"
    by (metis image_insert lessThan_Suc_atMost lessThan_Suc_eq_insert_0)
  finally have low: "low = Min (bal ` {..length ks})" using W by simp
  have neg: "low < 0 \<longleftrightarrow> (\<exists>i \<le> length ks. bal i < 0)"
    unfolding low by (auto simp: Min_less_iff)
  have ok: "\<forall>k \<in> set ks. kalem_ok bugun k" using kalemler_ok by (simp add: ks_def)
  have "sorted (map (\<lambda>k. (km_tarih k, km_giris k)) ks)" by (simp add: ks_def takvim_kalemleri_def)
  then have srt: "sorted (map km_tarih ks)" by (induction ks) (auto simp: less_eq_prod_def)
  have fields: "map fst (nt_kalemler (calculate_nakit_takvimi u w bugun s)) = ks"
    "nt_kalemler (calculate_nakit_takvimi u w bugun s) = zip ks (map (qhe 2) (running b0 ks))"
    "nt_ay_sonu (calculate_nakit_takvimi u w bugun s) = qhe 2 b"
    "nt_en_dusuk (calculate_nakit_takvimi u w bugun s) = qhe 2 low"
    "nt_acik_var (calculate_nakit_takvimi u w bugun s) \<longleftrightarrow> low < 0"
    by (simp_all add: calculate_nakit_takvimi_def Let_def ks_def [symmetric] b0_def [symmetric] wk)
  have "b = b0 + (\<Sum>k\<leftarrow>filter km_giris ks. km_tutar k) - (\<Sum>k\<leftarrow>filter (\<lambda>k. \<not> km_giris k) ks. km_tutar k)"
    using W etki_split [OF ok] by simp
  moreover have "\<forall>k \<in> set ks. km_tip k = Duzenli_Gider \<longrightarrow>
      (\<exists>e \<in> set (expenses s). re_id e = km_kaynak k \<and> re_account e \<noteq> None \<and> \<not> on_card u w s e)"
    using card_expenses_kept_out unfolding ks_def by blast
  moreover have "\<forall>i < length ks. snd (nt_kalemler (calculate_nakit_takvimi u w bugun s) ! i) = qhe 2 (bal (Suc i))"
    unfolding fields(2) by (simp add: running_nth bal_def)
  ultimately show ?thesis using fields srt ok neg low
    unfolding Let_def fields(1) b0_def [symmetric] bal_def
    by (simp add: ks_def [symmetric])
qed

text \<open>A month that ends positive and still misses a payment: 100 in cash, 300 due on the 3rd,
  500 arriving on the 5th, 80 charged to the card.\<close>

definition ex_takvim_db :: db where
  "ex_takvim_db = empty_db\<lparr>
     accounts := map (\<lambda>(i, ty, b). \<lparr>acc_id = i, acc_user = 7, acc_ws = None, acc_name = ''Hesap'', acc_type = ty,
       acc_balance = b, credit_limit = None, statement_day = None, payment_day = None, interest_rate = None,
       min_payment_ratio = None, statement_balance = None, monthly_payment = None, remaining_installments = None,
       next_payment_date = None, early_payoff_amount = None, lot_count = None, cost_per_lot = None,
       current_price = None, last_price_update = None, fund_code = None, is_emanet = False\<rparr>)
       [(1, Cash, 100), (2, Credit_Card, 0)],
     incomes := [\<lparr>ri_id = 1, ri_user = 7, ri_ws = None, ri_name = ''Maas'', ri_amount = 500, ri_day = 5,
       ri_active = True, ri_last_triggered = None\<rparr>],
     expenses := map (\<lambda>(i, x, a, d). \<lparr>re_id = i, re_user = 7, re_ws = None, re_name = ''Gider'', re_amount = x,
       re_account = Some a, re_category = None, re_day = d, re_active = True, re_last_triggered = None\<rparr>)
       [(1, 300, 1, 3), (2, 80, 2, 4)]\<rparr>"

lemma nakit_takvimi_ledger_witness:
  "let t = calculate_nakit_takvimi 7 None (Date 2026 9 2) ex_takvim_db in
   nt_acik_var t \<and> nt_ay_sonu t = qhe 2 300 \<and> map (km_etki \<circ> fst) (nt_kalemler t) = [qhe 2 (-300), qhe 2 500]"
proof -
  let ?t = "calculate_nakit_takvimi 7 None (Date 2026 9 2) ex_takvim_db"
  have g: "qhe 2 300 = 300" "qhe 2 500 = 500" "qhe 2 (- 300) = - 300"
    by (rule qhe_grid, rule on_gridI [of _ "30000"], simp) (rule qhe_grid, rule on_gridI [of _ "50000"], simp,
       rule qhe_grid, rule on_gridI [of _ "-30000"], simp)
  have ks: "takvim_kalemleri 7 None (Date 2026 9 2) ex_takvim_db =
    [\<lparr>km_tarih = Date 2026 9 3, km_ad = ''Gider'', km_tutar = 300, km_giris = False, km_etki = - 300,
      km_tip = Duzenli_Gider, km_kaynak = 1\<rparr>,
     \<lparr>km_tarih = Date 2026 9 5, km_ad = ''Maas'', km_tutar = 500, km_giris = True, km_etki = 500,
      km_tip = Duzenli_Gelir, km_kaynak = 1\<rparr>]"
    by (simp add: takvim_kalemleri_def takvim_gelirleri_def takvim_giderleri_def takvim_borclari_def
        takvim_hesaplari_def ex_takvim_db_def active_incomes_def active_expenses_def month_expenses_def
        scope_filter_def on_card_def card_ids_def scoped_accounts_def ekle_def in_month_def eom_def
        month_len_def less_eq_date_def less_eq_prod_def less_date_def kart_son_odeme_def g)
  have b0: "(\<Sum>a\<leftarrow>scoped_accounts 7 None Cash ex_takvim_db. acc_balance a) = 100"
    by (simp add: scoped_accounts_def ex_takvim_db_def scope_filter_def)
  have k: "map fst (nt_kalemler ?t) = takvim_kalemleri 7 None (Date 2026 9 2) ex_takvim_db"
    and m: "nt_ay_sonu ?t = qhe 2 300"
    using nakit_takvimi_ledger [of 7 None "Date 2026 9 2" ex_takvim_db] by (simp_all add: Let_def ks b0)
  have "nt_acik_var ?t"
    using nakit_takvimi_ledger [of 7 None "Date 2026 9 2" ex_takvim_db] unfolding Let_def b0
    by (auto simp: ks intro!: exI [of _ "1::nat"])
  moreover have "map (km_etki \<circ> fst) (nt_kalemler ?t) = map km_etki (map fst (nt_kalemler ?t))" by simp
  ultimately show ?thesis using m by (simp add: Let_def k ks g del: map_map)
qed

end
