(* ===== verification/Yield_Threshold.thy ===== *)
theory Yield_Threshold
  imports Rules_Budget
begin

text \<open>
  The yield threshold: app/vergi.py, which turns a gross yearly yield into a net monthly rate,
  and \<open>calculate_getiri_esigi\<close> of app/rules_engine.py, which asks for the gross yield that beats
  the dearest debt.

  All of vergi.py computes in floats; \<open>pw\<close> is the power of the C library, a parameter. The
  environment's overrides arrive parsed: \<open>env urun\<close> is the number, or \<open>None\<close> when it is absent or
  no number. The explanatory texts are left out.
\<close>

subsection \<open>Withholding\<close>

definition varsayilan_oranlar :: "(string \<times> rat) list" where
  "varsayilan_oranlar = [(''try_mevduat_6ay'', 175/10), (''try_para_piyasasi_fonu'', 175/10)]"

definition vade_ust_siniri :: "(string \<times> nat option) list" where
  "vade_ust_siniri = [(''try_mevduat_6ay'', Some 183), (''try_para_piyasasi_fonu'', None)]"

definition env_orani :: "(string \<Rightarrow> rat option) \<Rightarrow> string \<Rightarrow> rat option" where
  "env_orani env urun = (case env urun of None \<Rightarrow> None
     | Some oran \<Rightarrow> if 0 \<le> oran \<and> oran \<le> 100 then Some oran else None)"

definition stopaj_yuzdesi :: "(string \<Rightarrow> rat option) \<Rightarrow> string \<Rightarrow> nat option \<Rightarrow> rat option" where
  "stopaj_yuzdesi env urun vade_gun =
     (case map_of varsayilan_oranlar urun of
        None \<Rightarrow> None
      | Some oran \<Rightarrow>
          (case (vade_gun, map_of vade_ust_siniri urun) of
             (Some v, Some (Some sinir)) \<Rightarrow>
               if sinir < v then None else Some (case env_orani env urun of None \<Rightarrow> oran | Some x \<Rightarrow> x)
           | _ \<Rightarrow> Some (case env_orani env urun of None \<Rightarrow> oran | Some x \<Rightarrow> x)))"

definition stopaj_yururluk :: date where "stopaj_yururluk = Date 2026 9 1"

text \<open>\<open>STOPAJ_TAZELIK_GUN\<close> defaults to 180.\<close>

definition bayat_mi :: "date \<Rightarrow> bool" where
  "bayat_mi bugun = (180 < days_between stopaj_yururluk bugun)"

definition net_yillik :: "(string \<Rightarrow> rat option) \<Rightarrow> rat \<Rightarrow> string \<Rightarrow> nat option \<Rightarrow> rat option" where
  "net_yillik env brut urun vade_gun = (case stopaj_yuzdesi env urun vade_gun of None \<Rightarrow> None
     | Some oran \<Rightarrow> Some (fround 4 (fmul brut (fsub 1 (fdiv oran 100)))))"

definition aylik_esdeger :: "(rat \<Rightarrow> rat \<Rightarrow> rat) \<Rightarrow> rat \<Rightarrow> bool \<Rightarrow> nat \<Rightarrow> rat" where
  "aylik_esdeger pw net bilesik gun =
     (if \<not> bilesik then fround 4 (fdiv net 12)
      else fround 4 (fmul (fsub (pw (fadd 1 (fdiv (fdiv net 100) 365)) (of_nat gun)) 1) 100))"

record mevduat =
  mv_brut :: rat
  mv_stopaj :: "rat option"
  mv_net_yillik :: "rat option"
  mv_net_aylik :: "rat option"
  mv_bayat :: bool

definition mevduat_karsilastirmasi ::
  "(rat \<Rightarrow> rat \<Rightarrow> rat) \<Rightarrow> (string \<Rightarrow> rat option) \<Rightarrow> rat \<Rightarrow> date \<Rightarrow> string \<Rightarrow> nat option \<Rightarrow> mevduat" where
  "mevduat_karsilastirmasi pw env brut bugun urun vade_gun =
     (case (stopaj_yuzdesi env urun vade_gun, net_yillik env brut urun vade_gun) of
        (Some oran, Some net) \<Rightarrow> \<lparr>mv_brut = fround 4 brut, mv_stopaj = Some oran, mv_net_yillik = Some net,
          mv_net_aylik = Some (aylik_esdeger pw net True 30), mv_bayat = bayat_mi bugun\<rparr>
      | _ \<Rightarrow> \<lparr>mv_brut = fround 4 brut, mv_stopaj = None, mv_net_yillik = None, mv_net_aylik = None,
          mv_bayat = bayat_mi bugun\<rparr>)"

text \<open>The gross yearly yield that reaches a monthly threshold; the division by \<open>1 - oran / 100\<close>
  raises when the withholding is everything.\<close>

datatype vergi_hatasi = Zero_Division

definition esigi_asmak_icin_gereken_brut ::
  "(rat \<Rightarrow> rat \<Rightarrow> rat) \<Rightarrow> (string \<Rightarrow> rat option) \<Rightarrow> rat \<Rightarrow> string \<Rightarrow> nat option \<Rightarrow> vergi_hatasi + rat option" where
  "esigi_asmak_icin_gereken_brut pw env esik urun vade_gun =
     (case stopaj_yuzdesi env urun vade_gun of None \<Rightarrow> Inr None
      | Some oran \<Rightarrow>
          if esik \<le> 0 then Inr None
          else (let gunluk = fsub (pw (fadd 1 (fdiv esik 100)) (fdiv 1 30)) 1;
                    net = fmul (fmul gunluk 365) 100; pay = fsub 1 (fdiv oran 100)
            in if pay = 0 then Inl Zero_Division else Inr (Some (fround 2 (fdiv net pay)))))"

subsection \<open>The threshold of the dearest debt\<close>

record esik_kalemi =
  ek_ad :: string
  ek_oran :: rat
  ek_borc :: rat
  ek_erken :: "rat option"

record getiri_esigi =
  ge_esik :: "(rat \<times> string) option"
  ge_kalemler :: "esik_kalemi list"
  ge_oransiz :: nat
  ge_gereken :: "rat option"
  ge_stopaj :: "rat option \<times> rat option \<times> bool"

definition stopaj_ozeti :: "(string \<Rightarrow> rat option) \<Rightarrow> date \<Rightarrow> rat option \<times> rat option \<times> bool" where
  "stopaj_ozeti env bugun = (stopaj_yuzdesi env ''try_mevduat_6ay'' None,
     stopaj_yuzdesi env ''try_para_piyasasi_fonu'' None, bayat_mi bugun)"

definition float_oran :: "account \<Rightarrow> rat" where
  "float_oran a = (case interest_rate a of None \<Rightarrow> 0 | Some r \<Rightarrow> fl r)"

definition borclu_hesaplar :: "nat \<Rightarrow> nat option \<Rightarrow> db \<Rightarrow> account list" where
  "borclu_hesaplar u w s = filter (\<lambda>a. acc_in_scope u w a \<and> (acc_type a = Loan \<or> acc_type a = Credit_Card) \<and>
     0 < fl (acc_balance a)) (accounts s)"

definition calculate_getiri_esigi ::
  "(rat \<Rightarrow> rat \<Rightarrow> rat) \<Rightarrow> (string \<Rightarrow> rat option) \<Rightarrow> nat \<Rightarrow> nat option \<Rightarrow> db \<Rightarrow> date \<Rightarrow> vergi_hatasi + getiri_esigi" where
  "calculate_getiri_esigi pw env u w s bugun =
     (let accs = borclu_hesaplar u w s;
          oransiz = length (filter (\<lambda>a. float_oran a \<le> 0) accs);
          kalemler = sort_key (\<lambda>k. - ek_oran k) (map (\<lambda>a. \<lparr>ek_ad = acc_name a, ek_oran = float_oran a,
              ek_borc = qhe 2 (acc_balance a), ek_erken = map_option (qhe 2) (early_payoff_amount a)\<rparr>)
            (filter (\<lambda>a. 0 < float_oran a) accs))
      in case kalemler of
           [] \<Rightarrow> Inr \<lparr>ge_esik = None, ge_kalemler = [], ge_oransiz = oransiz, ge_gereken = None,
                  ge_stopaj = stopaj_ozeti env bugun\<rparr>
         | k # _ \<Rightarrow> (case esigi_asmak_icin_gereken_brut pw env (ek_oran k) ''try_mevduat_6ay'' None of
               Inl e \<Rightarrow> Inl e
             | Inr g \<Rightarrow> Inr \<lparr>ge_esik = Some (ek_oran k, ek_ad k), ge_kalemler = kalemler, ge_oransiz = oransiz,
                 ge_gereken = g, ge_stopaj = stopaj_ozeti env bugun\<rparr>))"

subsection \<open>What it promises\<close>

text \<open>An override out of range never lowers the withholding to zero by accident.\<close>

lemma stopaj_yuzdesi_range: "stopaj_yuzdesi env urun v = Some x \<Longrightarrow> 0 \<le> x \<and> x \<le> 100"
  by (auto simp: stopaj_yuzdesi_def env_orani_def varsayilan_oranlar_def
      split: option.splits if_splits prod.splits)

text \<open>The threshold is the dearest known rate; a debt whose rate is unknown is counted, never taken
  for one without interest.\<close>

lemma threshold_is_dearest:
  assumes "calculate_getiri_esigi pw env u w s bugun = Inr g" "a \<in> set (borclu_hesaplar u w s)" "0 < float_oran a"
  shows "\<exists>r ad. ge_esik g = Some (r, ad) \<and> float_oran a \<le> r"
proof -
  define ks where "ks = sort_key (\<lambda>k. - ek_oran k) (map (\<lambda>a. \<lparr>ek_ad = acc_name a, ek_oran = float_oran a,
      ek_borc = qhe 2 (acc_balance a), ek_erken = map_option (qhe 2) (early_payoff_amount a)\<rparr>)
    (filter (\<lambda>a. 0 < float_oran a) (borclu_hesaplar u w s)))"
  have "float_oran a \<in> ek_oran ` set ks" using assms(2,3) unfolding ks_def by force
  then obtain k where k: "k \<in> set ks" "ek_oran k = float_oran a" by auto
  then obtain k0 rest where ks: "ks = k0 # rest" by (cases ks) auto
  have "sorted (map (\<lambda>k. - ek_oran k) ks)" unfolding ks_def by simp
  then have "float_oran a \<le> ek_oran k0" using k unfolding ks by auto
  with ks show ?thesis using assms(1)
    unfolding calculate_getiri_esigi_def Let_def ks_def [symmetric] by (auto split: sum.splits)
qed

text \<open>An override of exactly 100 percent passes the range check and raises in the cockpit of every
  user who has a debt with a known rate.\<close>

lemma full_withholding_raises:
  assumes "env ''try_mevduat_6ay'' = Some 100" "a \<in> set (borclu_hesaplar u w s)" "0 < float_oran a"
  shows "calculate_getiri_esigi pw env u w s bugun = Inl Zero_Division"
proof -
  have pay: "fsub 1 (fdiv 100 100) = 0" by code_simp
  have "stopaj_yuzdesi env ''try_mevduat_6ay'' None = Some 100"
    using assms(1) by (simp add: stopaj_yuzdesi_def varsayilan_oranlar_def env_orani_def)
  then have z: "esigi_asmak_icin_gereken_brut pw env x ''try_mevduat_6ay'' None = Inl Zero_Division" if "0 < x" for x
    using that pay by (simp add: esigi_asmak_icin_gereken_brut_def Let_def)
  define ks where "ks = sort_key (\<lambda>k. - ek_oran k) (map (\<lambda>a. \<lparr>ek_ad = acc_name a, ek_oran = float_oran a,
      ek_borc = qhe 2 (acc_balance a), ek_erken = map_option (qhe 2) (early_payoff_amount a)\<rparr>)
    (filter (\<lambda>a. 0 < float_oran a) (borclu_hesaplar u w s)))"
  have "float_oran a \<in> ek_oran ` set ks" using assms(2,3) unfolding ks_def by force
  then have "ks \<noteq> []" by auto
  moreover have "\<forall>k \<in> set ks. 0 < ek_oran k" unfolding ks_def by auto
  ultimately show ?thesis
    unfolding calculate_getiri_esigi_def Let_def ks_def [symmetric] by (auto simp: neq_Nil_conv z)
qed

end
