(* ===== verification/Cockpit.thy ===== *)
theory Cockpit
  imports Rules_Analysis Cash_Calendar Yield_Threshold Actions Debt_Strategy
begin

text \<open>
  The cockpit: \<open>generate_cockpit\<close> of app/rules_engine.py composes every analysis of the rules
  engine into one snapshot; \<open>hizli_bakiye_ozeti\<close> is its cheap copy of two fields,
  \<open>recommend_next_action\<close> the decision drawn from it, and app/routers/cockpit.py keeps one net
  worth row per day. \<open>detect_alerts\<close> and the alert pipeline, the debt progress, the card
  utilisation and the attribution of a change in net worth are here as well.

  Texts are left out; a title the code searches is determined by the alert's code, the status
  sentence is its case. The summary of the subscriptions is their monthly and yearly total and
  their number. A \<open>ZeroDivisionError\<close> of the yield threshold, which the code does not catch, is
  kept as the value of that field.
\<close>

subsection \<open>Alerts\<close>

definition decimal_tutar :: "upcoming \<Rightarrow> rat" where
  "decimal_tutar p = (if up_tip p = Tip_Kart_Odeme then D_float (up_tutar p) else up_tutar p)"

definition detect_alerts :: "rat \<Rightarrow> rat \<Rightarrow> rat \<Rightarrow> rat \<Rightarrow> upcoming list \<Rightarrow> date \<Rightarrow> alert list" where
  "detect_alerts nakit kart_borcu kart_limit reel_butce payments today =
     (let kullanim = dmul (ddiv kart_borcu kart_limit) 100;
          mk = (\<lambda>sev kod konu. \<lparr>al_seviye = sev, al_kod = kod, al_tutar = None, al_konu = konu\<rparr>) in
      (if 0 < kart_limit then
         (if 95 \<le> kullanim then [mk Kritik Kart_Kullanim_Kritik []]
          else if 80 \<le> kullanim then [mk Uyari Kart_Kullanim_Yuksek []] else []) else []) @
      (if reel_butce < 0 then [mk Kritik Reel_Butce_Negatif []] else []) @
      (if nakit < 1000 then [mk Uyari Nakit_Dusuk []] else []) @
      map (\<lambda>p. mk Uyari Yaklasan_Buyuk_Odeme (up_ad p))
        (filter (\<lambda>p. (up_tip p = Tip_Kredi_Taksit \<or> up_tip p = Tip_Kart_Odeme) \<and>
           up_tarih p \<le> add_days today 7 \<and> ddiv nakit 2 < decimal_tutar p) payments))"

definition min_payment_trap_alerts :: "(trap list \<times> rat) option \<Rightarrow> alert list" where
  "min_payment_trap_alerts t = (case t of None \<Rightarrow> []
     | Some ([], _) \<Rightarrow> []
     | Some (worst # _, _) \<Rightarrow>
         if tr_never worst then [\<lparr>al_seviye = Kritik, al_kod = Kart_Asgari_Sarmal, al_tutar = Some (tr_balance worst), al_konu = []\<rparr>]
         else if 12 \<le> sr_months (tr_result worst)
         then [\<lparr>al_seviye = Uyari, al_kod = Kart_Asgari_Tuzak, al_tutar = Some (sr_interest (tr_result worst)), al_konu = []\<rparr>]
         else [])"

text \<open>Stale prices: 24 hours for the list, 72 hours and a known price for the alert.\<close>

definition stale_prices :: "int \<Rightarrow> account list \<Rightarrow> account list" where
  "stale_prices now accs = filter (\<lambda>a. acc_type a = Investment \<and> \<not> is_emanet a \<and>
     is_price_stale (last_price_update a) 24 now) accs"

definition bayat_fiyat_alerts :: "int \<Rightarrow> account list \<Rightarrow> alert list" where
  "bayat_fiyat_alerts now stale =
     (if filter (\<lambda>a. case last_price_update a of None \<Rightarrow> False | Some t \<Rightarrow> 72 * 3600 < now - t) stale = [] then []
      else [\<lparr>al_seviye = Uyari, al_kod = Fiyat_Bayat, al_tutar = None, al_konu = []\<rparr>])"

definition severity_rank :: "alert \<Rightarrow> nat" where
  "severity_rank a = (case al_seviye a of Kritik \<Rightarrow> 0 | Uyari \<Rightarrow> 1)"

text \<open>Every critical alert stays; of the warnings the first three, and the rest is counted.\<close>

definition max_uyari :: nat where "max_uyari = 3"

definition cap_alerts :: "alert list \<Rightarrow> alert list \<times> nat" where
  "cap_alerts as =
     (let srt = sort_key severity_rank as;
          kritikler = filter (\<lambda>a. al_seviye a = Kritik) srt;
          uyarilar = filter (\<lambda>a. al_seviye a \<noteq> Kritik) srt
      in (kritikler @ take max_uyari uyarilar, length uyarilar - max_uyari))"

definition merge_alerts ::
  "alert list \<Rightarrow> alert list \<Rightarrow> alert option \<Rightarrow> alert list \<Rightarrow> alert list" where
  "merge_alerts overdue base crunch rest =
     filter (\<lambda>a. al_seviye a = Kritik) overdue @ (case crunch of None \<Rightarrow> [] | Some c \<Rightarrow> [c]) @
     base @ filter (\<lambda>a. al_seviye a \<noteq> Kritik) overdue @ rest"

subsection \<open>The next action\<close>

datatype eylem_tipi = Temerrut | Kriz | Tahsilat | Firsat | Stabil

record next_action =
  na_tip :: eylem_tipi
  na_tutar :: "rat option"
  na_kim :: "string option"

definition idle_cash_action_min :: rat where "idle_cash_action_min = 500"

definition recommend_next_action ::
  "alert list \<Rightarrow> yaslandirma option \<Rightarrow> rat \<Rightarrow> rat \<Rightarrow> rat \<Rightarrow> nat option \<Rightarrow> next_action option" where
  "recommend_next_action alerts aging atanmamis kart_borcu kredi_borcu runway =
     (let kritikler = filter (\<lambda>a. al_seviye a = Kritik) alerts;
          en_riskli = (case aging of None \<Rightarrow> None
            | Some y \<Rightarrow> (case ya_en_riskli y of [] \<Rightarrow> None | k # _ \<Rightarrow> Some k)) in
      case List.find (\<lambda>a. al_kod a = Borc_Gecikmis) kritikler of
        Some a \<Rightarrow> Some \<lparr>na_tip = Temerrut, na_tutar = al_tutar a, na_kim = Some (al_konu a)\<rparr>
      | None \<Rightarrow> (case List.find (\<lambda>a. al_kod a = Nakit_Krizi) kritikler of
          Some c \<Rightarrow> (case en_riskli of
              Some k \<Rightarrow> Some \<lparr>na_tip = Kriz, na_tutar = Some (ak_tutar k), na_kim = Some (ak_kim k)\<rparr>
            | None \<Rightarrow> Some \<lparr>na_tip = Kriz, na_tutar = al_tutar c, na_kim = None\<rparr>)
        | None \<Rightarrow>
            if (case aging of None \<Rightarrow> False | Some y \<Rightarrow> 0 < ya_gecikmis_adet y) \<and> en_riskli \<noteq> None
            then Some \<lparr>na_tip = Tahsilat, na_tutar = map_option ak_tutar en_riskli, na_kim = map_option ak_kim en_riskli\<rparr>
            else if idle_cash_action_min \<le> atanmamis \<and> 0 < kart_borcu \<and>
                    (case runway of None \<Rightarrow> True | Some r \<Rightarrow> 30 \<le> r)
            then Some \<lparr>na_tip = Firsat, na_tutar = Some (qhe 2 (min atanmamis kart_borcu)), na_kim = None\<rparr>
            else if 0 < kart_borcu \<or> 0 < kredi_borcu
            then Some \<lparr>na_tip = Stabil, na_tutar = None, na_kim = None\<rparr>
            else None))"

subsection \<open>Net worth history\<close>

record nw_snapshot =
  nw_id :: nat
  nw_user :: nat
  nw_ws :: "nat option"
  nw_date :: date
  nw_seen :: rat
  nw_full :: rat
  nw_cash :: rat
  nw_card :: rat
  nw_loan :: rat
  nw_inv :: rat
  nw_recv :: rat

definition scoped_snaps :: "nat \<Rightarrow> nat option \<Rightarrow> nw_snapshot list \<Rightarrow> nw_snapshot list" where
  "scoped_snaps u w ns = sort_key nw_date (filter (\<lambda>n. scope_filter u w (nw_user n) (nw_ws n)) ns)"

definition earliest :: "nw_snapshot list \<Rightarrow> nw_snapshot option" where
  "earliest ns = (case ns of [] \<Rightarrow> None | n # _ \<Rightarrow> Some n)"

definition latest :: "nw_snapshot list \<Rightarrow> nw_snapshot option" where
  "latest ns = (if ns = [] then None else Some (last ns))"

definition debt_milestone_band :: "rat \<Rightarrow> nat" where
  "debt_milestone_band y = (if 75 \<le> y then 75 else if 50 \<le> y then 50 else if 25 \<le> y then 25 else if 10 \<le> y then 10 else 0)"

record debt_progress =
  dp_gun :: int
  dp_baslangic :: rat
  dp_odendi :: rat
  dp_yuzde :: rat
  dp_milestone :: nat
  dp_yeni :: "nat option"

definition calculate_debt_progress :: "nat \<Rightarrow> nat option \<Rightarrow> date \<Rightarrow> nw_snapshot list \<Rightarrow> rat \<Rightarrow> debt_progress option" where
  "calculate_debt_progress u w today ns guncel_borc =
     (case earliest (scoped_snaps u w ns) of None \<Rightarrow> None
      | Some e \<Rightarrow>
         (let gun = days_between (nw_date e) today; base = nw_card e + nw_loan e;
              odendi = qhe 2 (base - guncel_borc); yuzde = pct1 odendi base; band = debt_milestone_band yuzde;
              prev = latest (filter (\<lambda>n. nw_date n < today) (scoped_snaps u w ns))
          in if gun < 7 \<or> base \<le> 0 then None
             else Some \<lparr>dp_gun = gun, dp_baslangic = qhe 2 base, dp_odendi = odendi, dp_yuzde = yuzde, dp_milestone = band,
               dp_yeni = (if 0 < band then (case prev of None \<Rightarrow> None
                   | Some p \<Rightarrow> if debt_milestone_band (pct1 (base - (nw_card p + nw_loan p)) base) < band
                       then Some band else None) else None)\<rparr>))"

datatype util_band = Saglikli | Orta_Band | Yuksek | Kritik_Band

record card_utilization =
  cu_oran :: rat
  cu_band :: util_band
  cu_borc :: rat
  cu_limit :: rat
  cu_kalan :: rat
  cu_hedef :: rat
  cu_adet :: nat
  cu_degisim :: "rat option"

definition calculate_card_utilization ::
  "nat \<Rightarrow> nat option \<Rightarrow> date \<Rightarrow> nw_snapshot list \<Rightarrow> account list \<Rightarrow> card_utilization option" where
  "calculate_card_utilization u w today ns accs =
     (let cards = filter (\<lambda>a. acc_type a = Credit_Card) accs;
          limit = (\<Sum>c\<leftarrow>cards. case credit_limit c of None \<Rightarrow> 0 | Some l \<Rightarrow> l);
          borc = (\<Sum>c\<leftarrow>cards. acc_balance c); oran = pct1 borc limit
      in if cards = [] \<or> limit \<le> 0 then None
         else Some \<lparr>cu_oran = oran,
           cu_band = (if 90 \<le> oran then Kritik_Band else if 70 \<le> oran then Yuksek else if 30 \<le> oran then Orta_Band else Saglikli),
           cu_borc = qhe 2 borc, cu_limit = qhe 2 limit, cu_kalan = qhe 2 (limit - borc),
           cu_hedef = qhe 2 (ddiv (dmul limit 30) 100), cu_adet = length cards,
           cu_degisim = (case earliest (scoped_snaps u w ns) of None \<Rightarrow> None
             | Some e \<Rightarrow> if days_between (nw_date e) today < 7 then None else Some (qhe 1 (oran - pct1 (nw_card e) limit)))\<rparr>)"

record attribution =
  ar_degisim :: rat
  ar_surucular :: "(string \<times> rat) list"

definition calculate_networth_attribution ::
  "nat \<Rightarrow> nat option \<Rightarrow> date \<Rightarrow> nw_snapshot list \<Rightarrow> attribution option" where
  "calculate_networth_attribution u w today ns =
     (let snaps = scoped_snaps u w ns in
      case (latest snaps, latest (filter (\<lambda>n. nw_date n \<le> Date (year today) (month today) 1) snaps)) of
        (Some l, Some r) \<Rightarrow>
          if nw_id r = nw_id l then None
          else Some \<lparr>ar_degisim = qhe 2 (nw_full l - nw_full r),
            ar_surucular = sort_key (\<lambda>(n, k). - \<bar>k\<bar>)
              [(''Nakit'', qhe 2 (nw_cash l - nw_cash r)), (''Kart borcu odeme'', qhe 2 (nw_card r - nw_card l)),
               (''Kredi odeme'', qhe 2 (nw_loan r - nw_loan l)), (''Yatirim'', qhe 2 (nw_inv l - nw_inv r)),
               (''Alacak'', qhe 2 (nw_recv l - nw_recv r))]\<rparr>
      | _ \<Rightarrow> None)"

subsection \<open>The cockpit\<close>

record cdb =
  c_db :: db
  c_envelopes :: "envelope list"
  c_snaps :: "nw_snapshot list"

record cockpit_env =
  ce_now :: int
  ce_fold :: "string \<Rightarrow> string"
  ce_merchant :: "string \<Rightarrow> string"
  ce_buffer :: rat
  ce_pow :: "rat \<Rightarrow> rat \<Rightarrow> rat"
  ce_vergi :: "string \<Rightarrow> rat option"

subsection \<open>The rows of the accounts\<close>

datatype detay =
    Detay_Yok
  | Detay_Kart "rat option" rat
  | Detay_Kredi "rat option" "nat option" "date option" "rat option"
  | Detay_Yatirim "rat option" "rat option" "rat option" "string option" rat bool price_age

record hesap_satiri =
  hs_id :: nat
  hs_ad :: string
  hs_tip :: account_type
  hs_bakiye :: rat
  hs_emanet :: bool
  hs_detay :: detay

definition truthy :: "rat option \<Rightarrow> bool" where
  "truthy x = (case x of None \<Rightarrow> False | Some v \<Rightarrow> v \<noteq> 0)"

definition lot_value :: "account \<Rightarrow> rat" where
  "lot_value a = dmul (D_float (case lot_count a of None \<Rightarrow> 0 | Some l \<Rightarrow> l))
     (case current_price a of None \<Rightarrow> 0 | Some p \<Rightarrow> p)"

definition hesap_satiri_of :: "int \<Rightarrow> account \<Rightarrow> hesap_satiri" where
  "hesap_satiri_of now a = \<lparr>hs_id = acc_id a, hs_ad = acc_name a, hs_tip = acc_type a,
     hs_bakiye = (if acc_type a = Investment \<and> truthy (lot_count a) \<and> truthy (current_price a)
       then qhe 2 (lot_value a) else acc_balance a),
     hs_emanet = is_emanet a,
     hs_detay = (case acc_type a of
         Cash \<Rightarrow> Detay_Yok
       | Credit_Card \<Rightarrow> Detay_Kart (credit_limit a)
           (case credit_limit a of None \<Rightarrow> 0 | Some l \<Rightarrow> if l = 0 then 0 else pct1 (acc_balance a) l)
       | Loan \<Rightarrow> Detay_Kredi (monthly_payment a) (remaining_installments a) (next_payment_date a) (early_payoff_amount a)
       | Investment \<Rightarrow> Detay_Yatirim (lot_count a) (current_price a) (cost_per_lot a) (fund_code a) (qhe 2 (lot_value a))
           (is_price_stale (last_price_update a) 24 now) (get_price_age_text (last_price_update a) now))\<rparr>"

record pnl_satiri =
  pl_id :: nat
  pl_ad :: string
  pl_fon :: "string option"
  pl_pnl :: "rat \<times> rat \<times> rat \<times> rat"
  pl_bayat :: bool
  pl_yas :: price_age

definition pnl_satirlari :: "int \<Rightarrow> account list \<Rightarrow> pnl_satiri list" where
  "pnl_satirlari now accs = map (\<lambda>a. \<lparr>pl_id = acc_id a, pl_ad = acc_name a, pl_fon = fund_code a,
       pl_pnl = calculate_investment_pnl (the (lot_count a)) (the (cost_per_lot a)) (the (current_price a)),
       pl_bayat = is_price_stale (last_price_update a) 24 now, pl_yas = get_price_age_text (last_price_update a) now\<rparr>)
     (filter (\<lambda>a. acc_type a = Investment \<and> \<not> is_emanet a \<and> truthy (lot_count a) \<and> truthy (cost_per_lot a) \<and>
        truthy (current_price a)) accs)"

text \<open>\<open>_en_eski_bayat\<close>: a price never entered is the oldest; among equals the first.\<close>

definition en_eski_bayat :: "account list \<Rightarrow> account option" where
  "en_eski_bayat stale = (case sort_key (\<lambda>a. case last_price_update a of None \<Rightarrow> (0 :: nat, 0) | Some t \<Rightarrow> (1, t)) stale of
     [] \<Rightarrow> None | a # _ \<Rightarrow> Some a)"

record fiyat_tazeligi =
  ft_bayat_var :: bool
  ft_sayi :: nat
  ft_en_eski :: "price_age option"
  ft_hesaplar :: "string list"

definition fiyat_tazelik_ozeti :: "int \<Rightarrow> account list \<Rightarrow> fiyat_tazeligi" where
  "fiyat_tazelik_ozeti now stale = \<lparr>ft_bayat_var = (stale \<noteq> []), ft_sayi = length stale,
     ft_en_eski = map_option (\<lambda>a. get_price_age_text (last_price_update a) now) (en_eski_bayat stale),
     ft_hesaplar = map acc_name stale\<rparr>"

datatype statu = Reel_Butce_Negatif_Statu | Likidite_Baskisi | Siki_Donem | Normal_Donem

definition statu_of :: "rat \<Rightarrow> rat \<Rightarrow> rat \<Rightarrow> rat \<Rightarrow> statu" where
  "statu_of reel_butce nakit kart_borcu daily_limit =
     (if reel_butce < 0 then Reel_Butce_Negatif_Statu
      else if 0 < nakit \<and> 2 < ddiv kart_borcu nakit then Likidite_Baskisi
      else if daily_limit < 100 then Siki_Donem else Normal_Donem)"

text \<open>\<open>_collect_recent_transactions\<close>: the latest eight, the newest first.\<close>

definition recent_transactions :: "nat \<Rightarrow> nat option \<Rightarrow> db \<Rightarrow> nat \<Rightarrow> (date \<times> transaction_type \<times> rat \<times> string \<times> string) list" where
  "recent_transactions u w s limit = map (\<lambda>t. (tx_date t, tx_type t, qhe 2 (tx_amount t),
       (case tx_category t of Some c \<Rightarrow> if c = [] then ''(kategorisiz)'' else c | None \<Rightarrow> ''(kategorisiz)''),
       (case tx_description t of Some d \<Rightarrow> d | None \<Rightarrow> [])))
     (take limit (rev (sort_key (\<lambda>t. (tx_date t, tx_id t)) (filter (tx_in_scope u w) (transactions s)))))"

definition kart_stratejileri :: "date \<Rightarrow> account list \<Rightarrow> kart_stratejisi list" where
  "kart_stratejileri today accs = concat (map (\<lambda>a. case (statement_day a, payment_day a, credit_limit a) of
       (Some sd, Some pd, Some l) \<Rightarrow> if acc_type a = Credit_Card \<and> sd \<noteq> 0 \<and> pd \<noteq> 0 \<and> l \<noteq> 0
         then [evaluate_credit_card_strategy today sd pd (fl (acc_balance a)) (fl l)] else []
     | _ \<Rightarrow> []) accs)"

text \<open>\<open>borc_ozgurluk\<close>: months, date, interest and whether the plan never ends.\<close>

definition borc_ozgurluk :: "date \<Rightarrow> debt_item list \<Rightarrow> (nat \<times> date option \<times> rat \<times> bool) option" where
  "borc_ozgurluk today dbts = (if dbts = [] then None
     else (let av = calc_avalanche fl dbts 0 today
           in Some (sr_months av, sr_payoff_date av, sr_interest av, max_months \<le> sr_months av)))"

record butce_dokum =
  bd_nakit :: rat
  bd_gelir :: rat
  bd_kart :: rat
  bd_taksit :: rat
  bd_alacak_haric :: rat
  bd_reel :: rat
  bd_gun :: nat
  bd_limit :: rat

record cockpit =
  ck_statu :: statu
  ck_dokum :: butce_dokum
  ck_hesaplar :: "hesap_satiri list"
  ck_pnl :: "pnl_satiri list"
  ck_tazelik :: fiyat_tazeligi
  ck_son_islemler :: "(date \<times> transaction_type \<times> rat \<times> string \<times> string) list"
  ck_getiri :: "vergi_hatasi + getiri_esigi"
  ck_nakit :: rat
  ck_kart_borcu :: rat
  ck_kredi_borcu :: rat
  ck_yatirim :: rat
  ck_emanet :: rat
  ck_beklenen_gelir :: rat
  ck_reel_butce :: rat
  ck_net_deger :: rat
  ck_net_deger_tam :: rat
  ck_alacaklar :: rat
  ck_borclar :: rat
  ck_daily_limit :: rat
  ck_yarin_limit :: rat
  ck_bugun_harcanan :: rat
  ck_bugun_kalan :: rat
  ck_guvenli_harcama :: rat
  ck_guvenli_odeme :: "borc_yok + borc_odeme"
  ck_runway :: "nat option"
  ck_kart_kullanim :: "card_utilization option"
  ck_kart_stratejisi :: "kart_stratejisi list"
  ck_abonelik :: "rat \<times> rat \<times> nat"
  ck_zarflar :: zarflar
  ck_atanmamis :: rat
  ck_faiz_aylik :: rat
  ck_takvim :: nakit_takvimi
  ck_yaslanma :: "yaslandirma option"
  ck_ilerleme :: "debt_progress option"
  ck_saglik :: "int \<times> seviye"
  ck_ozgurluk :: "(nat \<times> date option \<times> rat \<times> bool) option"
  ck_asgari_tuzagi :: "(trap list \<times> rat) option"
  ck_konsolidasyon :: "baseline option"
  ck_tempo :: ay_temposu
  ck_days_remaining :: nat
  ck_upcoming_payments :: "upcoming list"
  ck_upcoming_receivables :: "upcoming list"
  ck_alerts :: "alert list"
  ck_gizli :: nat
  ck_patterns :: "pattern list"
  ck_reminders :: "reminder list"
  ck_sonraki :: "next_action option"

definition total_of :: "account_type \<Rightarrow> account list \<Rightarrow> rat" where
  "total_of ty accs = (\<Sum>a\<leftarrow>filter (\<lambda>a. acc_type a = ty) accs. acc_balance a)"

text \<open>The loop over the accounts: cash, card debt, loan debt, own and entrusted investments.\<close>

fun account_totals :: "account list \<Rightarrow> rat \<times> rat \<times> rat \<times> rat \<times> rat \<Rightarrow> rat \<times> rat \<times> rat \<times> rat \<times> rat" where
  "account_totals [] t = t"
| "account_totals (a # as) (n, k, l, y, e) = account_totals as
     (case acc_type a of Cash \<Rightarrow> (n + acc_balance a, k, l, y, e)
      | Credit_Card \<Rightarrow> (n, k + acc_balance a, l, y, e)
      | Loan \<Rightarrow> (n, k, l + acc_balance a, y, e)
      | Investment \<Rightarrow> if is_emanet a then (n, k, l, y, e + lot_value a) else (n, k, l, y + lot_value a, e))"

text \<open>All alerts of the cockpit, in the order they are concatenated; \<open>base\<close> is what \<open>detect_alerts\<close>
  returns.\<close>

definition cockpit_alerts :: "cockpit_env \<Rightarrow> nat \<Rightarrow> nat option \<Rightarrow> date \<Rightarrow> cdb \<Rightarrow> alert list \<Rightarrow> alert list" where
  "cockpit_alerts env u w today c base =
     (let s = c_db c in
      merge_alerts (collect_overdue_debts u w today s) base
        (crunch_alert_from_summary (cashflow_forecast_summary u w today s 90))
        (subscription_price_alerts (fst (detect_subscriptions (ce_merchant env) u w today 180 s)) @
         category_overspend_alerts (ce_fold env) (sistem_slug_kumesi u None (categories s)) u w today (c_envelopes c) s @
         min_payment_trap_alerts (calculate_min_payment_trap fl (collect_debts fl u w (accounts s)) today) @
         bayat_fiyat_alerts (ce_now env) (stale_prices (ce_now env) (filter (acc_in_scope u w) (accounts s)))))"

definition generate_cockpit :: "cockpit_env \<Rightarrow> nat \<Rightarrow> nat option \<Rightarrow> date \<Rightarrow> cdb \<Rightarrow> cockpit" where
  "generate_cockpit env u w today c =
     (let s = c_db c; ns = c_snaps c;
          accs = filter (acc_in_scope u w) (accounts s);
          (nakit, kart_borcu, kredi_borcu, yatirim, emanet) = account_totals accs (0, 0, 0, 0, 0);
          (recurring, upcoming_incomes) = expected_income_until_eom u w today s;
          receivables_eom = receivables_until_eom u w today s;
          loans_eom = loan_payments_until_eom u w today s;
          reel_butce = apply_shadow_accounting nakit recurring kart_borcu loans_eom;
          net_deger = qhe 2 (net_worth_seen nakit yatirim kart_borcu kredi_borcu);
          alacaklar = total_receivables u w s; borclar = total_payables u w s;
          days_remaining = get_month_remaining_days today;
          daily_limit = calculate_daily_limit reel_butce days_remaining;
          bugun = ma_expense (month_aggregates u w today today s);
          payments = sort_key up_tarih (upcoming_loan_payments u w today s 60 @ upcoming_card_payments u w today s 60 @ upcoming_incomes);
          kart_limit = (\<Sum>a\<leftarrow>filter (\<lambda>a. acc_type a = Credit_Card) accs. case credit_limit a of None \<Rightarrow> 0 | Some l \<Rightarrow> l);
          summary = cashflow_forecast_summary u w today s 90;
          (subs, abonelik) = detect_subscriptions (ce_merchant env) u w today 180 s;
          sistem = sistem_slug_kumesi u None (categories s);
          dbts = collect_debts fl u w (accounts s);
          tuzak = calculate_min_payment_trap fl dbts today;
          (alerts, gizli) = cap_alerts (cockpit_alerts env u w today c
             (detect_alerts nakit kart_borcu kart_limit reel_butce payments today));
          runway = calculate_cash_runway u w today s nakit 30;
          zarf = calculate_envelopes u w today (c_envelopes c) s;
          atanmamis = qhe 2 (nakit - (\<Sum>z\<leftarrow>zs_zarflar zarf. max 0 (zf_kalan z)));
          (leaks, faiz, _, _) = calculate_interest_leak u w s;
          aging = calculate_receivables_aging u w today s;
          gelir = (\<Sum>i\<leftarrow>active_incomes u w s. ri_amount i)
      in \<lparr>ck_statu = statu_of reel_butce nakit kart_borcu daily_limit,
          ck_dokum = \<lparr>bd_nakit = qhe 2 nakit, bd_gelir = qhe 2 recurring, bd_kart = qhe 2 kart_borcu,
            bd_taksit = qhe 2 loans_eom, bd_alacak_haric = qhe 2 receivables_eom, bd_reel = reel_butce,
            bd_gun = days_remaining, bd_limit = daily_limit\<rparr>,
          ck_hesaplar = map (hesap_satiri_of (ce_now env)) accs, ck_pnl = pnl_satirlari (ce_now env) accs,
          ck_tazelik = fiyat_tazelik_ozeti (ce_now env) (stale_prices (ce_now env) accs),
          ck_son_islemler = recent_transactions u w s 8,
          ck_getiri = calculate_getiri_esigi (ce_pow env) (ce_vergi env) u w s today,
          ck_nakit = qhe 2 nakit, ck_kart_borcu = qhe 2 kart_borcu, ck_kredi_borcu = qhe 2 kredi_borcu,
          ck_yatirim = qhe 2 yatirim, ck_emanet = qhe 2 emanet,
          ck_beklenen_gelir = qhe 2 (recurring + receivables_eom), ck_reel_butce = reel_butce,
          ck_net_deger = net_deger, ck_net_deger_tam = qhe 2 (net_worth_full net_deger alacaklar borclar),
          ck_alacaklar = alacaklar, ck_borclar = borclar, ck_daily_limit = daily_limit,
          ck_yarin_limit = (if 1 < days_remaining then qhe 2 (ddiv reel_butce (of_nat (days_remaining - 1))) else qhe 2 reel_butce),
          ck_bugun_harcanan = bugun, ck_bugun_kalan = qhe 2 (daily_limit - bugun),
          ck_guvenli_harcama = calculate_safe_to_spend summary kart_borcu 0,
          ck_guvenli_odeme = build_safe_debt_payment_scenarios summary (ce_buffer env) kart_borcu kredi_borcu,
          ck_runway = runway, ck_kart_kullanim = calculate_card_utilization u w today ns accs,
          ck_kart_stratejisi = kart_stratejileri today accs,
          ck_abonelik = (abonelik, qhe 2 (abonelik * 12), length subs), ck_zarflar = zarf, ck_atanmamis = atanmamis, ck_faiz_aylik = faiz,
          ck_takvim = calculate_nakit_takvimi u w today s, ck_yaslanma = aging,
          ck_ilerleme = calculate_debt_progress u w today ns (kart_borcu + kredi_borcu),
          ck_saglik = calculate_health_score reel_butce kart_borcu kart_limit faiz gelir runway (crunch_alert_from_summary summary \<noteq> None)
            (zs_asan zarf) (zs_zarflar zarf \<noteq> []),
          ck_ozgurluk = borc_ozgurluk today dbts,
          ck_asgari_tuzagi = tuzak, ck_konsolidasyon = calculate_consolidation_baseline fl dbts,
          ck_tempo = ay_temposu_of u w today s, ck_days_remaining = days_remaining,
          ck_upcoming_payments = payments, ck_upcoming_receivables = upcoming_receivables u w today s 90,
          ck_alerts = alerts, ck_gizli = gizli,
          ck_patterns = calculate_category_patterns (ce_fold env) sistem u today s,
          ck_reminders = upcoming_reminders u w today s accs,
          ck_sonraki = recommend_next_action alerts aging atanmamis (qhe 2 kart_borcu) (qhe 2 kredi_borcu) runway\<rparr>)"

text \<open>\<open>hizli_bakiye_ozeti\<close>: one query, cash and net worth, as floats.\<close>

fun hizli_loop :: "account list \<Rightarrow> rat \<times> rat \<times> rat \<times> rat \<Rightarrow> rat \<times> rat \<times> rat \<times> rat" where
  "hizli_loop [] t = t"
| "hizli_loop (a # as) (n, k, l, y) = hizli_loop as
     (if acc_type a = Cash then (n + acc_balance a, k, l, y)
      else if acc_type a = Credit_Card then (n, k + acc_balance a, l, y)
      else if acc_type a = Loan then (n, k, l + acc_balance a, y)
      else if acc_type a = Investment \<and> \<not> is_emanet a then (n, k, l, y + lot_value a)
      else (n, k, l, y))"

definition hizli_bakiye_ozeti :: "nat \<Rightarrow> nat option \<Rightarrow> db \<Rightarrow> rat \<times> rat" where
  "hizli_bakiye_ozeti u w s =
     (case hizli_loop (filter (acc_in_scope u w) (accounts s)) (0, 0, 0, 0) of (n, k, l, y) \<Rightarrow>
        (fl (qhe 2 n), fl (qhe 2 (net_worth_seen n y k l))))"

subsection \<open>One snapshot per day\<close>

definition snapshot_values :: "cockpit \<Rightarrow> nw_snapshot \<Rightarrow> nw_snapshot" where
  "snapshot_values ck n = n\<lparr>nw_seen := fl (ck_net_deger ck), nw_full := fl (ck_net_deger_tam ck),
     nw_cash := fl (ck_nakit ck), nw_card := fl (ck_kart_borcu ck), nw_loan := fl (ck_kredi_borcu ck),
     nw_inv := fl (ck_yatirim ck), nw_recv := fl (ck_alacaklar ck)\<rparr>"

text \<open>\<open>_ensure_today_snapshot\<close>: \<open>None\<close> is the exception the endpoint logs. The table's unique
  constraint is on user and date.\<close>

definition ensure_today_snapshot ::
  "nat \<Rightarrow> nat option \<Rightarrow> cockpit \<Rightarrow> date \<Rightarrow> nw_snapshot list \<Rightarrow> nw_snapshot list option" where
  "ensure_today_snapshot u w ck today ns =
     (case List.find (\<lambda>n. nw_date n = today \<and> scope_filter u w (nw_user n) (nw_ws n)) ns of
        Some n \<Rightarrow> Some (upd_row nw_id (nw_id n) (snapshot_values ck) ns)
      | None \<Rightarrow>
          if \<exists>n \<in> set ns. nw_user n = u \<and> nw_date n = today then None
          else Some (ns @ [snapshot_values ck \<lparr>nw_id = next_key nw_id ns, nw_user = u, nw_ws = w, nw_date = today,
            nw_seen = 0, nw_full = 0, nw_cash = 0, nw_card = 0, nw_loan = 0, nw_inv = 0, nw_recv = 0\<rparr>]))"

definition baz_snapshot :: "nat \<Rightarrow> nat option \<Rightarrow> date \<Rightarrow> nw_snapshot list \<Rightarrow> (nw_snapshot \<times> bool) option" where
  "baz_snapshot u w today ns =
     (let ay_basi = Date (year today) (month today) 1;
          q = filter (\<lambda>n. nw_date n < today) (scoped_snaps u w ns)
      in (case latest (filter (\<lambda>n. nw_date n \<le> ay_basi \<and> sub_days ay_basi 7 \<le> nw_date n) q) of
            Some n \<Rightarrow> Some (n, True)
          | None \<Rightarrow> map_option (\<lambda>n. (n, False)) (earliest q)))"

end
