(* ===== verification/Cashflow_Laws.thy ===== *)
theory Cashflow_Laws
  imports Cashflow "HOL-Library.Multiset"
begin

text \<open>
  What the forecast promises. Its abstract specification is a plain ledger: the balance of
  a day is the opening cash plus every event dated up to that day. The day walk refines it,
  and the summary (lowest balance, crunch days, totals) is that of the ledger. The loan
  expansion is the monthly expansion of the recurring items cut at the remaining
  installments. The flow diagram conserves every label's total.
\<close>

subsection \<open>The ledger\<close>

definition ledger_balance :: "rat \<Rightarrow> forecast_event list \<Rightarrow> date \<Rightarrow> rat" where
  "ledger_balance cash0 evs d = cash0 + (\<Sum>e\<leftarrow>filter (\<lambda>e. ev_date e \<le> d) evs. ev_amount e)"

text \<open>What the schemas and the calendar columns guarantee of the rows: days of the month
  start at 1, date columns hold dates.\<close>

definition dated :: "db \<Rightarrow> bool" where
  "dated s \<longleftrightarrow> (\<forall>i \<in> set (incomes s). 1 \<le> ri_day i) \<and> (\<forall>e \<in> set (expenses s). 1 \<le> re_day e) \<and>
     (\<forall>a \<in> set (accounts s). \<forall>p. next_payment_date a = Some p \<longrightarrow> valid_date p) \<and>
     (\<forall>d \<in> set (debts s). \<forall>t. due_date d = Some t \<longrightarrow> valid_date t)"

text \<open>An event that lies in a window.\<close>

definition in_window :: "date \<Rightarrow> date \<Rightarrow> forecast_event \<Rightarrow> bool" where
  "in_window start fin e \<longleftrightarrow> valid_date (ev_date e) \<and> start \<le> ev_date e \<and> ev_date e \<le> fin"

subsection \<open>The loan expansion\<close>

lemma loan_walk_take:
  "loan_walk c a fin (Some r) i = take (r - i) (loan_walk c a fin None j)"
proof (induction c a fin "Some r" i arbitrary: j rule: loan_walk.induct)
  case (1 c a fin i)
  show ?case
  proof (cases "c \<le> fin \<and> i < r")
    case True
    then have "r - i = Suc (r - (i + 1))" by arith
    then show ?thesis using True 1 [of _ _ "j + 1"]
      by (simp add: loan_walk.simps [of c] Let_def)
  next
    case False
    then show ?thesis by (auto simp: loan_walk.simps [of c])
  qed
qed

lemma loan_walk_month_walk:
  assumes "valid_date c" "on_day a c" "1 \<le> a" "start \<le> c"
  shows "loan_walk c a fin None i = month_walk (Date (year c) (month c) 1) start fin a"
  using assms
proof (induction c a fin "None :: nat option" i rule: loan_walk.induct)
  case (1 c a fin i)
  let ?f = "Date (year c) (month c) 1"
  let ?y = "year c + (if month c = 12 then 1 else 0)" and ?m = "month c mod 12 + 1"
  let ?n = "Date ?y ?m (min a (month_len ?y ?m))" and ?g = "Date ?y ?m 1"
  have f: "valid_date ?f" "?f \<le> c"
    using "1.prems"(1) first_of_month_le [OF "1.prems"(1)] by (simp_all add: valid_date_def)
  have cand: "Date (year c) (month c) (min a (month_len (year c) (month c))) = c"
    using "1.prems"(2) by (simp add: on_day_eq month_day_def)
  have g: "valid_date ?g" "month_index ?g = Suc (month_index ?f)"
    using month_walk_next [OF f(1)] by simp_all
  have n: "valid_date ?n" "month_index ?n = Suc (month_index c)" "on_day a ?n"
    using g "1.prems"(3) by (simp_all add: valid_date_def month_index_def on_day_def)
  have less: "c < ?n" "c < ?g"
    using month_index_less [of c ?n] month_index_less [of c ?g] g n "1.prems"(1)
    by (simp_all add: valid_date_def month_index_def)
  show ?case
  proof (cases "c \<le> fin")
    case True
    then have "loan_walk c a fin None i = c # loan_walk ?n a fin None (i + 1)"
      by (simp add: loan_walk.simps [of c] Let_def)
    also have "loan_walk ?n a fin None (i + 1) = month_walk ?g start fin a"
      using "1.hyps" [OF _ refl refl n(1,3) "1.prems"(3)] True less(1) "1.prems"(4) by simp
    also have "c # month_walk ?g start fin a = month_walk ?f start fin a"
      unfolding month_walk.simps [of ?f] using True f(2) "1.prems"(4) cand by (auto simp: Let_def)
    finally show ?thesis .
  next
    case False
    have "\<not> ?g \<le> fin" using False less(2) by auto
    then have "month_walk ?g start fin a = []" unfolding month_walk.simps [of ?g] by (rule if_not_P)
    then have "month_walk ?f start fin a = []"
      unfolding month_walk.simps [of ?f] using False cand by (auto simp: Let_def)
    then show ?thesis using False by (simp add: loan_walk.simps [of c])
  qed
qed

lemma loan_dates:
  assumes "acc_type acc = Loan" "next_payment_date acc = Some p" "monthly_payment acc = Some mp"
    "mp \<noteq> 0" "valid_date p" "valid_date start"
  shows "map ev_date (expand_loan_payments acc start fin) =
    (let c = max start p; dates = month_occurrences c fin (day c) in
     case remaining_installments acc of None \<Rightarrow> dates | Some r \<Rightarrow> take r dates)"
proof -
  let ?c = "max start p"
  have c: "valid_date ?c" "on_day (day ?c) ?c" "1 \<le> day ?c"
    using assms(5,6) by (auto simp: valid_date_def on_day_def max_def)
  have "(if p < start then start else p) = ?c" by (auto simp: max_def)
  then have "map ev_date (expand_loan_payments acc start fin) =
      (if remaining_installments acc = Some 0 then []
       else loan_walk ?c (day ?c) fin (remaining_installments acc) 0)"
    using assms(1-4) by (simp add: expand_loan_payments_def Let_def o_def)
  moreover have "loan_walk ?c (day ?c) fin None 0 = month_occurrences ?c fin (day ?c)"
    using loan_walk_month_walk [OF c order.refl] by (simp add: month_occurrences_def)
  ultimately show ?thesis
    using loan_walk_take [of ?c "day ?c" fin _ 0 0] by (auto simp: Let_def split: option.splits)
qed

subsection \<open>The events lie in the window\<close>

lemma in_window_income:
  "valid_date start \<Longrightarrow> 1 \<le> ri_day i \<Longrightarrow> e \<in> set (expand_recurring_income i start fin) \<Longrightarrow>
   in_window start fin e"
  by (auto simp: expand_recurring_income_def in_window_def set_month_occurrences)

lemma in_window_expense:
  "valid_date start \<Longrightarrow> 1 \<le> re_day i \<Longrightarrow> e \<in> set (expand_recurring_expense i start fin) \<Longrightarrow>
   in_window start fin e"
  by (auto simp: expand_recurring_expense_def in_window_def set_month_occurrences)

lemma in_window_debt:
  assumes "\<forall>d \<in> set ds. \<forall>t. due_date d = Some t \<longrightarrow> valid_date t"
    "e \<in> set (personal_debts_in_range u w ds start fin dir)"
  shows "in_window start fin e"
  using assms by (auto simp: personal_debts_in_range_def in_window_def Let_def split: option.splits)

lemma in_window_loan:
  assumes "valid_date start" "\<And>p. next_payment_date a = Some p \<Longrightarrow> valid_date p"
    and e: "e \<in> set (expand_loan_payments a start fin)"
  shows "in_window start fin e"
proof -
  have "acc_type a = Loan \<and> (\<exists>p mp. next_payment_date a = Some p \<and> monthly_payment a = Some mp \<and> mp \<noteq> 0)"
    using e by (cases "next_payment_date a"; cases "monthly_payment a")
      (auto simp: expand_loan_payments_def split: if_splits)
  then obtain p mp where a: "acc_type a = Loan" "next_payment_date a = Some p"
    "monthly_payment a = Some mp" "mp \<noteq> 0" by blast
  let ?c = "max start p"
  have c: "valid_date ?c" "1 \<le> day ?c" using assms(1) assms(2) [OF a(2)]
    by (auto simp: max_def valid_date_def)
  have "set (map ev_date (expand_loan_payments a start fin)) \<subseteq> set (month_occurrences ?c fin (day ?c))"
    unfolding loan_dates [OF a assms(2) [OF a(2)] assms(1)]
    by (auto simp: Let_def split: option.splits dest: in_set_takeD)
  with e have "ev_date e \<in> set (month_occurrences ?c fin (day ?c))" by auto
  then show ?thesis using c by (auto simp: set_month_occurrences in_window_def)
qed

lemma collect_events_from:
  assumes "e \<in> set (collect_events s u w k include today fin)"
  shows "(\<exists>i \<in> set (incomes s). e \<in> set (expand_recurring_income i today fin)) \<or>
    (\<exists>x \<in> set (expenses s). e \<in> set (expand_recurring_expense x today fin)) \<or>
    (\<exists>a \<in> set (accounts s). e \<in> set (expand_loan_payments a today fin)) \<or>
    (\<exists>dir. e \<in> set (personal_debts_in_range u w (debts s) today fin dir))"
proof -
  define inc where "inc = (case include of None \<Rightarrow> [''incomes'', ''expenses'', ''receivables'', ''payables''] | Some l \<Rightarrow> l)"
  define a b c d where "a = (''incomes'' \<in> set inc)" "b = (''expenses'' \<in> set inc)"
    "c = (''receivables'' \<in> set inc)" "d = (''payables'' \<in> set inc)"
  from assms show ?thesis
    unfolding collect_events_def Let_def inc_def [symmetric] a_b_c_d_def [symmetric]
    by (cases a; cases b; cases c; cases d) (simp; blast)+
qed

lemma collect_events_in_window:
  assumes "valid_date today" "dated s" "e \<in> set (collect_events s u w k include today fin)"
  shows "in_window today fin e"
  using collect_events_from [OF assms(3)]
proof (elim disjE bexE exE)
  fix i assume "i \<in> set (incomes s)" "e \<in> set (expand_recurring_income i today fin)"
  then show ?thesis using assms(2) in_window_income [OF assms(1)] unfolding dated_def by blast
next
  fix x assume "x \<in> set (expenses s)" "e \<in> set (expand_recurring_expense x today fin)"
  then show ?thesis using assms(2) in_window_expense [OF assms(1)] unfolding dated_def by blast
next
  fix a assume "a \<in> set (accounts s)" "e \<in> set (expand_loan_payments a today fin)"
  then show ?thesis using assms(2) in_window_loan [OF assms(1)] unfolding dated_def by blast
next
  fix dir assume "e \<in> set (personal_debts_in_range u w (debts s) today fin dir)"
  then show ?thesis using assms(2) in_window_debt unfolding dated_def by blast
qed

subsection \<open>The days of the horizon\<close>

lemma days_cover:
  assumes "valid_date t" "valid_date d" "t \<le> d" "d \<le> add_days t n"
  shows "\<exists>i \<le> n. d = add_days t i"
  using assms(4)
proof (induction n)
  case 0
  then show ?case using assms(3) by auto
next
  case (Suc n)
  show ?case
  proof (cases "d \<le> add_days t n")
    case True
    then show ?thesis using Suc.IH by (meson le_SucI)
  next
    case False
    then have "next_day (add_days t n) \<le> d"
      using next_day_least [OF valid_add_days [OF assms(1)] assms(2)] by simp
    then have "d = add_days t (Suc n)" using Suc.prems by (simp only: add_days_Suc_end antisym)
    then show ?thesis by blast
  qed
qed

lemma add_days_less: "valid_date t \<Longrightarrow> m < n \<Longrightarrow> add_days t m < add_days t n"
  using next_day_greater [OF valid_add_days [of t m]] add_days_mono [of t "Suc m" n]
  by (metis Suc_leI add_days_Suc_end less_le_trans)

text \<open>Events up to a day of the horizon: those up to the day before, and those of the day.\<close>

lemma upto_next_day:
  assumes "valid_date d" "valid_date t"
  shows "d \<le> next_day t \<longleftrightarrow> d \<le> t \<or> d = next_day t"
  using assms next_day_greater [of t] next_day_least [of t d] by force

subsection \<open>Grouping by date\<close>

lemma group_events_lookup:
  "(case map_of (group_events evs) t of None \<Rightarrow> [] | Some l \<Rightarrow> l) = filter (\<lambda>e. ev_date e = t) evs"
proof (induction evs rule: rev_induct)
  case (snoc e evs)
  have "group_events (evs @ [e]) = dset (ev_date e)
     ((case map_of (group_events evs) (ev_date e) of None \<Rightarrow> [] | Some l \<Rightarrow> l) @ [e]) (group_events evs)"
    by (simp add: group_events_def)
  then show ?case using snoc.IH by auto
qed (simp add: group_events_def)

lemma events_on_group: "events_on (group_events evs) t = sort_key (\<lambda>e. - \<bar>ev_amount e\<bar>) (filter (\<lambda>e. ev_date e = t) evs)"
  by (simp add: events_on_def group_events_lookup)

lemma sum_filter_split:
  fixes f :: "'a \<Rightarrow> rat"
  shows "(\<Sum>x\<leftarrow>filter P xs. f x) + (\<Sum>x\<leftarrow>filter (\<lambda>x. \<not> P x) xs. f x) = (\<Sum>x\<leftarrow>xs. f x)"
  by (induction xs) simp_all

lemma sum_events_on: "(\<Sum>e\<leftarrow>events_on (group_events evs) t. ev_amount e) =
   (\<Sum>e\<leftarrow>filter (\<lambda>e. ev_date e = t) evs. ev_amount e)"
proof -
  have "mset (map ev_amount (sort_key k xs)) = mset (map ev_amount xs)"
    for k :: "forecast_event \<Rightarrow> rat" and xs by simp
  then show ?thesis unfolding events_on_group sum_mset_sum_list [symmetric] by simp
qed

lemma ledger_balance_next:
  assumes "valid_date t" "\<forall>e \<in> set evs. valid_date (ev_date e)"
  shows "ledger_balance cash0 evs (next_day t) = ledger_balance cash0 evs t +
    (\<Sum>e\<leftarrow>filter (\<lambda>e. ev_date e = next_day t) evs. ev_amount e)"
  using assms(2)
proof (induction evs)
  case (Cons e evs)
  have "ev_date e \<le> next_day t \<longleftrightarrow> ev_date e \<le> t \<or> ev_date e = next_day t"
    using upto_next_day [OF _ assms(1)] Cons.prems by simp
  moreover have "\<not> next_day t \<le> t" using next_day_greater [OF assms(1)] by simp
  ultimately show ?case using Cons by (auto simp: ledger_balance_def)
qed (simp add: ledger_balance_def)

subsection \<open>The day walk refines the ledger\<close>

text \<open>The balance a day opens with.\<close>

definition opening_of :: "rat \<Rightarrow> forecast_event list \<Rightarrow> date \<Rightarrow> nat \<Rightarrow> rat" where
  "opening_of cash0 evs today i = (if i = 0 then cash0
     else ledger_balance cash0 evs (add_days today (i - 1)))"

lemma opening_of_next:
  assumes t: "valid_date today" and w: "\<forall>e \<in> set evs. in_window today fin e"
  shows "ledger_balance cash0 evs (add_days today i) = opening_of cash0 evs today i +
    (\<Sum>e\<leftarrow>filter (\<lambda>e. ev_date e = add_days today i) evs. ev_amount e)"
proof (cases i)
  case 0
  have "filter (\<lambda>e. ev_date e \<le> today) evs = filter (\<lambda>e. ev_date e = today) evs"
    using w by (intro filter_cong) (auto simp: in_window_def)
  then show ?thesis by (simp add: 0 ledger_balance_def opening_of_def)
next
  case (Suc n)
  have "\<forall>e \<in> set evs. valid_date (ev_date e)" using w by (simp add: in_window_def)
  from ledger_balance_next [OF valid_add_days [OF t, of n] this] show ?thesis
    by (simp add: Suc opening_of_def add_days_Suc_end del: add_days.simps(2))
qed

definition forecast_row :: "rat \<Rightarrow> forecast_event list \<Rightarrow> rat \<Rightarrow> date \<Rightarrow> nat \<Rightarrow> forecast_day" where
  "forecast_row cash0 evs threshold today i =
     (let d = add_days today i; on = filter (\<lambda>e. ev_date e = d) evs in
      \<lparr>fd_date = d, fd_opening = qhe 2 (opening_of cash0 evs today i),
       fd_closing = qhe 2 (ledger_balance cash0 evs d),
       fd_inflows = qhe 2 (\<Sum>e\<leftarrow>filter (\<lambda>e. 0 \<le> ev_amount e) on. ev_amount e),
       fd_outflows = qhe 2 (\<Sum>e\<leftarrow>filter (\<lambda>e. ev_amount e < 0) on. ev_amount e),
       fd_events = sort_key (\<lambda>e. - \<bar>ev_amount e\<bar>) on,
       fd_crunch = (ledger_balance cash0 evs d < threshold)\<rparr>)"

lemma sum_filter_sort:
  fixes xs :: "forecast_event list" and k :: "forecast_event \<Rightarrow> rat"
  shows "(\<Sum>e\<leftarrow>filter P (sort_key k xs). ev_amount e) = (\<Sum>e\<leftarrow>filter P xs. ev_amount e)"
proof -
  have "mset (map ev_amount (filter P (sort_key k xs))) = mset (map ev_amount (filter P xs))" by simp
  then show ?thesis unfolding sum_mset_sum_list [symmetric] by simp
qed

lemma forecast_step_row:
  assumes "valid_date today" "\<forall>e \<in> set evs. in_window today fin e"
    and b: "ds_balance st = opening_of cash0 evs today i"
  shows "forecast_step (group_events evs) threshold (add_days today i) st =
    (let bal = ledger_balance cash0 evs (add_days today i) in
     \<lparr>ds_balance = bal, ds_lowest = min (ds_lowest st) bal,
      ds_lowest_date = (if bal < ds_lowest st then add_days today i else ds_lowest_date st),
      ds_crunch_dates = ds_crunch_dates st @ (if bal < threshold then [add_days today i] else []),
      ds_days = ds_days st @ [forecast_row cash0 evs threshold today i]\<rparr>)"
proof -
  let ?d = "add_days today i" and ?on = "filter (\<lambda>e. ev_date e = add_days today i) evs"
  let ?in = "\<Sum>e\<leftarrow>filter (\<lambda>e. 0 \<le> ev_amount e) ?on. ev_amount e"
  let ?out = "\<Sum>e\<leftarrow>filter (\<lambda>e. \<not> 0 \<le> ev_amount e) ?on. ev_amount e"
  have "ds_balance st + ?in + ?out = ledger_balance cash0 evs ?d"
    unfolding b opening_of_next [OF assms(1,2), of cash0] add.assoc
    using sum_filter_split [where P = "\<lambda>e. 0 \<le> ev_amount e" and f = ev_amount and xs = ?on]
    by simp
  then have "ledger_balance cash0 evs ?d = opening_of cash0 evs today i + ?in + ?out"
    by (simp only: b)
  then show ?thesis
    by (simp add: forecast_step_def events_on_group sum_filter_sort Let_def forecast_row_def b
        min_def not_le)
qed

lemma walk_days_Suc: "walk_days evs cash0 threshold today (Suc h) =
   forecast_step (group_events evs) threshold (add_days today h) (walk_days evs cash0 threshold today h)"
  by (simp add: walk_days_def)

lemma walk_days_ledger:
  fixes cash0 threshold :: rat
  assumes "valid_date today" "\<forall>e \<in> set evs. in_window today fin e"
  defines "bal \<equiv> \<lambda>i. ledger_balance cash0 evs (add_days today i)"
  defines "st \<equiv> walk_days evs cash0 threshold today"
  shows "ds_balance (st h) = opening_of cash0 evs today h"
    and "ds_days (st h) = map (forecast_row cash0 evs threshold today) [0..<h]"
    and "ds_crunch_dates (st h) =
      filter (\<lambda>d. ledger_balance cash0 evs d < threshold) (map (add_days today) [0..<h])"
    and "ds_lowest (st h) = Min (insert cash0 (bal ` {..<h}))"
    and "ds_lowest (st h) = cash0 \<and> ds_lowest_date (st h) = today \<or>
      (\<exists>i < h. ds_lowest_date (st h) = add_days today i \<and> bal i = ds_lowest (st h) \<and>
         bal i < cash0 \<and> (\<forall>j < i. bal i < bal j))"
proof -
  note step = forecast_step_row [OF assms(1,2)]
  have b: "ds_balance (st h) = opening_of cash0 evs today h" for h
  proof (induction h)
    case 0 then show ?case by (simp add: st_def walk_days_def opening_of_def)
  next
    case (Suc h)
    have "ds_balance (st (Suc h)) = ledger_balance cash0 evs (add_days today h)"
      unfolding st_def walk_days_Suc using step [OF Suc.IH [unfolded st_def]] by (simp add: Let_def)
    then show ?case by (simp add: opening_of_def)
  qed
  have S: "st (Suc h) = (let x = bal h in
     \<lparr>ds_balance = x, ds_lowest = min (ds_lowest (st h)) x,
      ds_lowest_date = (if x < ds_lowest (st h) then add_days today h else ds_lowest_date (st h)),
      ds_crunch_dates = ds_crunch_dates (st h) @ (if x < threshold then [add_days today h] else []),
      ds_days = ds_days (st h) @ [forecast_row cash0 evs threshold today h]\<rparr>)" for h
    using step [OF b [unfolded st_def]] by (simp only: st_def walk_days_Suc bal_def)
  have Z: "ds_lowest (st 0) = cash0" "ds_lowest_date (st 0) = today" "ds_days (st 0) = []"
    "ds_crunch_dates (st 0) = []"
    by (simp_all add: st_def walk_days_def)
  show "ds_balance (st h) = opening_of cash0 evs today h" by (rule b)
  show "ds_days (st h) = map (forecast_row cash0 evs threshold today) [0..<h]"
    by (induction h) (simp_all add: Z S Let_def)
  show "ds_crunch_dates (st h) =
      filter (\<lambda>d. ledger_balance cash0 evs d < threshold) (map (add_days today) [0..<h])"
    by (induction h) (simp_all add: Z S Let_def bal_def)
  have low: "ds_lowest (st h) = Min (insert cash0 (bal ` {..<h}))" for h
  proof (induction h)
    case (Suc h)
    have "insert cash0 (bal ` {..<Suc h}) = insert (bal h) (insert cash0 (bal ` {..<h}))"
      by (auto simp: lessThan_Suc)
    then show ?case using Suc.IH by (simp add: S Let_def min.commute)
  qed (simp add: Z)
  show "ds_lowest (st h) = Min (insert cash0 (bal ` {..<h}))" by (rule low)
  have le: "ds_lowest (st h) \<le> cash0" "\<forall>j < h. ds_lowest (st h) \<le> bal j" for h
    unfolding low by auto
  show "ds_lowest (st h) = cash0 \<and> ds_lowest_date (st h) = today \<or>
      (\<exists>i < h. ds_lowest_date (st h) = add_days today i \<and> bal i = ds_lowest (st h) \<and>
         bal i < cash0 \<and> (\<forall>j < i. bal i < bal j))"
  proof (induction h)
    case (Suc h)
    show ?case
    proof (cases "bal h < ds_lowest (st h)")
      case True
      have "bal h < cash0" by (rule less_le_trans [OF True le(1)])
      moreover have "\<forall>j < h. bal h < bal j"
        using le(2) [of h] by (simp add: less_le_trans [OF True])
      moreover have "ds_lowest_date (st (Suc h)) = add_days today h" "ds_lowest (st (Suc h)) = bal h"
        using True by (simp_all add: S Let_def)
      ultimately show ?thesis by (intro disjI2 exI [of _ h]) simp
    next
      case False
      then have "ds_lowest_date (st (Suc h)) = ds_lowest_date (st h)"
        "ds_lowest (st (Suc h)) = ds_lowest (st h)"
        by (simp_all add: S Let_def)
      with Suc.IH show ?thesis by (metis less_SucI)
    qed
  qed (simp add: Z)
qed

subsection \<open>The flow diagram\<close>

text \<open>The total of a label's inflows, and of its outflows.\<close>

definition inflow_of :: "forecast_event list \<Rightarrow> string \<Rightarrow> rat" where
  "inflow_of evs l = (\<Sum>e\<leftarrow>filter (\<lambda>e. ev_label e = l \<and> 0 < ev_amount e) evs. ev_amount e)"

definition outflow_of :: "forecast_event list \<Rightarrow> string \<Rightarrow> rat" where
  "outflow_of evs l = (\<Sum>e\<leftarrow>filter (\<lambda>e. ev_label e = l \<and> ev_amount e < 0) evs. - ev_amount e)"

lemma add_total_lookup:
  "map_of (add_total l x d) = (map_of d)(l \<mapsto> (case map_of d l of None \<Rightarrow> 0 | Some y \<Rightarrow> y) + x)"
  by (simp add: add_total_def)

lemma set_dset: "distinct (map fst d) \<Longrightarrow> (k, v) \<in> set d \<longleftrightarrow> map_of d k = Some v"
  by simp

lemma label_totals_spec:
  assumes "label_totals evs = (src, snk)"
  shows "distinct (map fst src) \<and> distinct (map fst snk) \<and>
    map_of src = (\<lambda>l. if \<exists>e \<in> set evs. ev_label e = l \<and> 0 < ev_amount e then Some (inflow_of evs l) else None) \<and>
    map_of snk = (\<lambda>l. if \<exists>e \<in> set evs. ev_label e = l \<and> ev_amount e < 0 then Some (outflow_of evs l) else None)"
  using assms
proof (induction evs arbitrary: src snk rule: rev_induct)
  case (snoc e evs)
  obtain s0 k0 where p: "label_totals evs = (s0, k0)" by fastforce
  note IH = snoc.IH [OF p]
  have "label_totals (evs @ [e]) =
     (if 0 < ev_amount e then (add_total (ev_label e) (ev_amount e) s0, k0)
      else if ev_amount e < 0 then (s0, add_total (ev_label e) \<bar>ev_amount e\<bar> k0) else (s0, k0))"
    using p by (simp add: label_totals_def)
  then consider (pos) "0 < ev_amount e" "src = add_total (ev_label e) (ev_amount e) s0" "snk = k0"
    | (neg) "ev_amount e < 0" "src = s0" "snk = add_total (ev_label e) \<bar>ev_amount e\<bar> k0"
    | (zero) "ev_amount e = 0" "src = s0" "snk = k0"
    using snoc.prems by (auto split: if_splits)
  then show ?case
  proof cases
    case pos
    then show ?thesis using IH
      by (auto simp: add_total_lookup fun_eq_iff inflow_of_def outflow_of_def add_total_def
          distinct_keys_dset filter_empty_conv)
  next
    case neg
    then show ?thesis using IH
      by (auto simp: add_total_lookup fun_eq_iff inflow_of_def outflow_of_def add_total_def
          distinct_keys_dset filter_empty_conv)
  next
    case zero
    then show ?thesis using IH
      by (auto simp: fun_eq_iff inflow_of_def outflow_of_def)
  qed
qed (simp add: label_totals_def fun_eq_iff)

text \<open>The nodes are numbered by position, each name once, the cash node first.\<close>

definition nodes_ok :: "sankey_node list \<Rightarrow> bool" where
  "nodes_ok ns \<longleftrightarrow> map nd_id ns = [0..<length ns] \<and> distinct (map nd_name ns) \<and>
     ns \<noteq> [] \<and> nd_name (hd ns) = cash_node"

definition node_named :: "sankey_node list \<Rightarrow> nat \<Rightarrow> string \<Rightarrow> bool" where
  "node_named ns i l \<longleftrightarrow> i < length ns \<and> nd_name (ns ! i) = l"

lemma add_node_ok:
  assumes "nodes_ok ns" "add_node l t ns = (i, ns')"
  shows "nodes_ok ns' \<and> node_named ns' i l \<and> (\<exists>extra. ns' = ns @ extra)"
proof (cases "List.find (\<lambda>n. nd_name n = l) ns")
  case None
  then have "l \<notin> nd_name ` set ns" by (auto simp: find_None_prop)
  then show ?thesis using assms None by (auto simp: add_node_def nodes_ok_def node_named_def)
next
  case (Some n)
  then obtain j where j: "j < length ns" "ns ! j = n" "nd_name n = l"
    by (auto dest!: find_Some_prop simp: in_set_conv_nth)
  have "nd_id (ns ! j) = map nd_id ns ! j" using j(1) by simp
  also have "\<dots> = j" using assms(1) j(1) by (simp add: nodes_ok_def)
  finally have "nd_id n = j" using j(2) by simp
  then show ?thesis using assms Some j by (auto simp: add_node_def node_named_def)
qed

lemma node_named_append: "node_named ns i l \<Longrightarrow> node_named (ns @ extra) i l"
  by (auto simp: node_named_def nth_append)

text \<open>What a list of links says: the label of each and its rounded total, and that its ends
  are the cash node and the node of that name.\<close>

definition links_ok :: "sankey \<Rightarrow> bool" where
  "links_ok g \<longleftrightarrow> nodes_ok (fst g) \<and> (\<forall>k \<in> set (snd g).
     (lk_target k = 0 \<and> node_named (fst g) (lk_source k) (lk_label k)) \<or>
     (lk_source k = 0 \<and> node_named (fst g) (lk_target k) (lk_label k)))"

lemma link_step:
  assumes "links_ok g"
  shows "links_ok (source_link p g)" "links_ok (sink_link p g)"
proof -
  obtain l t where p: "p = (l, t)" by fastforce
  obtain ns ks where g: "g = (ns, ks)" by fastforce
  have ns: "nodes_ok ns" using assms by (simp add: g links_ok_def)
  { fix ty i ns' assume "add_node l ty ns = (i, ns')"
    from add_node_ok [OF ns this] have "nodes_ok ns'" "node_named ns' i l" "\<exists>extra. ns' = ns @ extra" by auto
    then have "nodes_ok ns' \<and> node_named ns' i l \<and> (\<forall>k \<in> set ks.
       (lk_target k = 0 \<and> node_named ns' (lk_source k) (lk_label k)) \<or>
       (lk_source k = 0 \<and> node_named ns' (lk_target k) (lk_label k)))"
      using assms node_named_append by (fastforce simp: g links_ok_def) }
  note new = this
  show "links_ok (source_link p g)"
    using new [of Node_Income] by (auto simp: p g source_link_def links_ok_def split: prod.splits)
  show "links_ok (sink_link p g)"
    using new [of Node_Expense] by (auto simp: p g sink_link_def links_ok_def split: prod.splits)
qed

lemma fold_links_ok:
  "links_ok g \<Longrightarrow> links_ok (fold source_link src g) \<and> links_ok (fold sink_link snk g)"
proof -
  have "links_ok g \<Longrightarrow> links_ok (fold source_link src g)" for g
    by (induction src arbitrary: g) (simp_all add: link_step)
  moreover have "links_ok g \<Longrightarrow> links_ok (fold sink_link snk g)" for g
    by (induction snk arbitrary: g) (simp_all add: link_step)
  ultimately show "links_ok g \<Longrightarrow> ?thesis" by blast
qed

abbreviation link_value :: "sankey_link \<Rightarrow> string \<times> rat" where
  "link_value k \<equiv> (lk_label k, lk_value k)"

lemma fold_link_values:
  "map link_value (snd (fold source_link src g)) = map link_value (snd g) @ map (map_prod id (qhe 2)) src"
  "map link_value (snd (fold sink_link snk g)) = map link_value (snd g) @ map (map_prod id (qhe 2)) snk"
proof -
  have "map link_value (snd (source_link p g)) = map link_value (snd g) @ [map_prod id (qhe 2) p]"
    "map link_value (snd (sink_link p g)) = map link_value (snd g) @ [map_prod id (qhe 2) p]" for p g
    by (auto simp: source_link_def sink_link_def split: prod.splits)
  then show "map link_value (snd (fold source_link src g)) = map link_value (snd g) @ map (map_prod id (qhe 2)) src"
    "map link_value (snd (fold sink_link snk g)) = map link_value (snd g) @ map (map_prod id (qhe 2)) snk"
    by (induction src arbitrary: g, simp_all) (induction snk arbitrary: g, simp_all)
qed

subsection \<open>The forecast\<close>

lemma horizon_end_cover:
  assumes "valid_date today" "in_window today (horizon_end today h) e" "0 < h"
  shows "ev_date e \<le> add_days today (h - 1)"
  using assms by (simp add: in_window_def horizon_end_def)

lemma in_flow_split:
  "(\<Sum>e\<leftarrow>filter (\<lambda>e. 0 < ev_amount e) evs. ev_amount e) +
   (\<Sum>e\<leftarrow>filter (\<lambda>e. ev_amount e < 0) evs. ev_amount e) = (\<Sum>e\<leftarrow>evs. ev_amount e)"
  by (induction evs) auto

lemma generate_forecast_days:
  assumes "valid_date today" "dated s"
  shows "fc_days (generate_forecast s u w h k include th today) =
    map (forecast_row (opening_cash u w k (accounts s))
          (collect_events s u w k include today (horizon_end today h)) th today) [0..<h]"
proof -
  have "\<forall>e \<in> set (collect_events s u w k include today (horizon_end today h)).
      in_window today (horizon_end today h) e"
    using collect_events_in_window [OF assms] by simp
  from walk_days_ledger(2) [OF assms(1) this] show ?thesis
    by (simp add: generate_forecast_def Let_def)
qed

text \<open>C9: The forecast table refines the plain ledger of the collected events. It has one row
  per day of the horizon, in order; row i carries the date today + i, opens with the ledger's
  balance of the day before (the opening cash on the first day), closes with the ledger's
  balance of its day, both rounded to cents, lists exactly the events of its day and is
  marked critical iff the unrounded balance is below the threshold. No event is lost or
  counted twice between the table and the summary: the last row closes at the opening cash
  plus the net flow of all events.\<close>

theorem forecast_refines_ledger:
  assumes "valid_date today" "dated s"
  shows "let evs = collect_events s u w k include today (horizon_end today h);
             cash = opening_cash u w k (accounts s);
             f = generate_forecast s u w h k include threshold today in
    length (fc_days f) = h \<and>
    (\<forall>i < h. let row = fc_days f ! i; d = add_days today i in
       fd_date row = d \<and> mset (fd_events row) = mset (filter (\<lambda>e. ev_date e = d) evs) \<and>
       fd_opening row = qhe 2 (if i = 0 then cash else ledger_balance cash evs (add_days today (i - 1))) \<and>
       fd_closing row = qhe 2 (ledger_balance cash evs d) \<and>
       (fd_crunch row \<longleftrightarrow> ledger_balance cash evs d < threshold)) \<and>
    (0 < h \<longrightarrow> fd_closing (last (fc_days f)) = qhe 2 (cash + (\<Sum>e\<leftarrow>evs. ev_amount e))) \<and>
    fs_net_flow (fc_summary f) = qhe 2 (\<Sum>e\<leftarrow>evs. ev_amount e)"
proof -
  let ?evs = "collect_events s u w k include today (horizon_end today h)"
  have w: "in_window today (horizon_end today h) e" if "e \<in> set ?evs" for e
    using collect_events_in_window [OF assms that] .
  have "filter (\<lambda>e. ev_date e \<le> add_days today (h - 1)) ?evs = ?evs" if "0 < h"
    using horizon_end_cover [OF assms(1) w that] by simp
  then show ?thesis
    using in_flow_split [of ?evs]
    by (simp add: generate_forecast_days [OF assms] Let_def forecast_row_def opening_of_def
        last_map last_upt ledger_balance_def)
      (simp add: generate_forecast_def Let_def)
qed

text \<open>The summary is that of the ledger. The lowest balance is the minimum of the opening
  cash and of the ledger's balance over the days of the horizon; its date is the first day
  that reaches it, or today when no day falls below the opening cash. The critical days are
  exactly the days whose balance is below the threshold, in order, and they are counted.\<close>

theorem forecast_summary_exact:
  assumes "valid_date today" "dated s"
  shows "let evs = collect_events s u w k include today (horizon_end today h);
             cash = opening_cash u w k (accounts s);
             bal = (\<lambda>i. ledger_balance cash evs (add_days today i));
             m = fc_summary (generate_forecast s u w h k include threshold today) in
    fs_lowest_balance m = qhe 2 (Min (insert cash (bal ` {..<h}))) \<and>
    ((\<forall>i < h. cash \<le> bal i) \<and> fs_lowest_date m = today \<or>
     (\<exists>i < h. fs_lowest_date m = add_days today i \<and> bal i < cash \<and>
        (\<forall>j < i. bal i < bal j) \<and> (\<forall>j < h. bal i \<le> bal j))) \<and>
    fs_crunch_dates m = filter (\<lambda>d. ledger_balance cash evs d < threshold) (map (add_days today) [0..<h]) \<and>
    fs_crunch_count m = length (fs_crunch_dates m)"
proof -
  define evs where "evs = collect_events s u w k include today (horizon_end today h)"
  define cash where "cash = opening_cash u w k (accounts s)"
  define bal where "bal = (\<lambda>i. ledger_balance cash evs (add_days today i))"
  define st where "st = walk_days evs cash threshold today h"
  have w: "\<forall>e \<in> set evs. in_window today (horizon_end today h) e"
    using collect_events_in_window [OF assms] by (simp add: evs_def)
  note L = walk_days_ledger [OF assms(1) w, of cash threshold h, folded st_def bal_def]
  have lowest: "ds_lowest st = cash \<and> ds_lowest_date st = today \<or>
      (\<exists>i < h. ds_lowest_date st = add_days today i \<and> bal i = ds_lowest st \<and>
         bal i < cash \<and> (\<forall>j < i. bal i < bal j))"
    unfolding bal_def by (rule L(5))
  have low: "ds_lowest st \<le> cash" "\<forall>j < h. ds_lowest st \<le> bal j"
    unfolding L(4) bal_def by (auto intro: Min_le)
  have "(\<forall>i < h. cash \<le> bal i) \<and> ds_lowest_date st = today \<or>
     (\<exists>i < h. ds_lowest_date st = add_days today i \<and> bal i < cash \<and>
        (\<forall>j < i. bal i < bal j) \<and> (\<forall>j < h. bal i \<le> bal j))"
    using lowest
  proof (elim disjE conjE exE)
    fix i assume "i < h" "ds_lowest_date st = add_days today i" "bal i = ds_lowest st"
      "bal i < cash" "\<forall>j < i. bal i < bal j"
    then show ?thesis using low(2) by (intro disjI2 exI [of _ i]) simp
  qed (use low(2) in simp)
  moreover have "ds_lowest st = Min (insert cash (bal ` {..<h}))" by (rule L(4))
  ultimately show ?thesis using L(3)
    by (simp add: generate_forecast_def Let_def evs_def [symmetric] cash_def [symmetric]
        st_def [symmetric] bal_def)
qed

text \<open>The installments of a loan are projected on the same calendar as every recurring item:
  the dates are the occurrences of the anchor day (the day of the next payment, or today
  when that date is already past) from there to the horizon, cut after the remaining
  installments when their number is known. A 31st is clamped in February and back on the 31st
  in March; a stale date consumes no installment; an unknown remainder is not zero.\<close>

theorem loan_installments:
  assumes "acc_type acc = Loan" "next_payment_date acc = Some p" "monthly_payment acc = Some mp"
    "mp \<noteq> 0" "valid_date p" "valid_date start"
  shows "map ev_date (expand_loan_payments acc start fin) =
      (let c = max start p; dates = month_occurrences c fin (day c) in
       case remaining_installments acc of None \<Rightarrow> dates | Some r \<Rightarrow> take r dates) \<and>
    (\<forall>e \<in> set (expand_loan_payments acc start fin). ev_amount e = - mp \<and> start \<le> ev_date e \<and> ev_date e \<le> fin) \<and>
    (\<forall>r. remaining_installments acc = Some r \<longrightarrow> length (expand_loan_payments acc start fin) \<le> r)"
proof (intro conjI ballI allI impI)
  show dates: "map ev_date (expand_loan_payments acc start fin) =
      (let c = max start p; dates = month_occurrences c fin (day c) in
       case remaining_installments acc of None \<Rightarrow> dates | Some r \<Rightarrow> take r dates)"
    by (rule loan_dates [OF assms])
  fix e assume e: "e \<in> set (expand_loan_payments acc start fin)"
  then show "ev_amount e = - mp" using assms
    by (auto simp: expand_loan_payments_def Let_def split: if_splits)
  have "in_window start fin e" by (rule in_window_loan [OF assms(6) _ e]) (simp add: assms)
  then show "start \<le> ev_date e" "ev_date e \<le> fin" by (simp_all add: in_window_def)
next
  fix r assume "remaining_installments acc = Some r"
  with arg_cong [OF loan_dates [OF assms], of length fin]
  show "length (expand_loan_payments acc start fin) \<le> r" by (simp add: Let_def)
qed

lemma add_total_not_Nil [simp]: "add_total l x d \<noteq> []"
  by (cases d) (auto simp: add_total_def)

text \<open>The flow diagram conserves the money. Its links are one per label with an inflow,
  carrying the rounded total of that label's inflows into the cash node, and one per label with
  an outflow, carrying the rounded total out of it; no other links exist. Nodes are numbered
  by position with distinct names, the cash node first, and every link joins the cash node
  and the node of its label.\<close>

theorem sankey_conserves:
  "let g = build_sankey evs in
    \<exists>ins outs. map (\<lambda>k. (lk_label k, lk_value k)) (snd g) = ins @ outs \<and>
      distinct (map fst ins) \<and> distinct (map fst outs) \<and>
      set ins = (\<lambda>l. (l, qhe 2 (inflow_of evs l))) ` {l. \<exists>e \<in> set evs. ev_label e = l \<and> 0 < ev_amount e} \<and>
      set outs = (\<lambda>l. (l, qhe 2 (outflow_of evs l))) ` {l. \<exists>e \<in> set evs. ev_label e = l \<and> ev_amount e < 0} \<and>
      (g = ([], []) \<or> links_ok g)"
proof -
  obtain src snk where t: "label_totals evs = (src, snk)" by fastforce
  note T = label_totals_spec [OF t]
  let ?r = "map (map_prod id (qhe 2)) :: (string \<times> rat) list \<Rightarrow> _"
  have vals: "set (?r d) = (\<lambda>l. (l, qhe 2 (f l))) ` {l. P l}"
    if d: "distinct (map fst d)" "map_of d = (\<lambda>l. if P l then Some (f l) else None)" for d P f
  proof -
    have "(a, b) \<in> set d \<longleftrightarrow> P a \<and> b = f a" for a b
      using map_of_eq_Some_iff [OF d(1), of a b] unfolding d(2) by (auto split: if_splits)
    then have "set d = (\<lambda>a. (a, f a)) ` {a. P a}" by auto
    then show ?thesis by (simp add: image_image)
  qed
  have fst: "map fst (?r d) = map fst d" for d by (simp add: o_def)
  let ?g = "build_sankey evs"
  have "map (\<lambda>k. (lk_label k, lk_value k)) (snd ?g) = ?r src @ ?r snk"
    by (simp add: build_sankey_def t fold_link_values)
  moreover have "?g = ([], []) \<or> links_ok ?g"
  proof -
    have z: "links_ok (snd (add_node cash_node Node_Cash []), [])"
      by (simp add: links_ok_def nodes_ok_def add_node_def)
    show ?thesis using fold_links_ok [OF z] fold_links_ok
      by (simp add: build_sankey_def t)
  qed
  ultimately show ?thesis unfolding Let_def
    using vals [of src, OF conjunct1 [OF T]] vals [of snk] T fst
    by (intro exI [of _ "?r src"] exI [of _ "?r snk"]) auto
qed

subsection \<open>Concrete forecasts\<close>

definition ex_loan31 :: account where
  "ex_loan31 = \<lparr>acc_id = 2, acc_user = 1, acc_ws = None, acc_name = ''Kredi'', acc_type = Loan,
     acc_balance = 9000, credit_limit = None, statement_day = None, payment_day = None,
     interest_rate = None, min_payment_ratio = None, statement_balance = None,
     monthly_payment = Some 750, remaining_installments = Some 3,
     next_payment_date = Some (Date 2026 1 31), early_payoff_amount = None, lot_count = None,
     cost_per_lot = None, current_price = None, last_price_update = None, fund_code = None, is_emanet = False\<rparr>"

definition ex_forecast_db :: db where
  "ex_forecast_db = empty_db\<lparr>accounts := [ex_loan31\<lparr>acc_id := 1, acc_type := Cash, acc_balance := 600\<rparr>, ex_loan31],
     incomes := [\<lparr>ri_id = 1, ri_user = 1, ri_ws = None, ri_name = ''Maas'', ri_amount = 2000,
       ri_day = 2, ri_active = True, ri_last_triggered = None\<rparr>]\<rparr>"

lemma ex_forecast_hyps: "valid_date (Date 2026 1 31)" "dated ex_forecast_db"
  by (simp_all add: valid_date_def month_len_def dated_def ex_forecast_db_def ex_loan31_def)

lemma ex_loan_dates: "map ev_date (expand_loan_payments ex_loan31 (Date 2026 1 31) (Date 2026 5 1)) =
    [Date 2026 1 31, Date 2026 2 28, Date 2026 3 31]"
  by (simp add: expand_loan_payments_def ex_loan31_def loan_walk.simps Let_def less_eq_date_def
      less_date_def month_len_def is_leap_def)

lemma forecast_refines_ledger_witness:
  "let f = generate_forecast ex_forecast_db 1 None 3 None None 0 (Date 2026 1 31);
       evs = collect_events ex_forecast_db 1 None None None (Date 2026 1 31) (horizon_end (Date 2026 1 31) 3) in
   length (fc_days f) = 3 \<and>
   fd_closing (last (fc_days f)) = qhe 2 (opening_cash 1 None None (accounts ex_forecast_db) + (\<Sum>e\<leftarrow>evs. ev_amount e))"
  using forecast_refines_ledger [OF ex_forecast_hyps, of 1 None None None 3 0]
  by (simp add: Let_def)

lemma forecast_summary_exact_witness:
  "let m = fc_summary (generate_forecast ex_forecast_db 1 None 3 None None 0 (Date 2026 1 31)) in
   fs_crunch_count m = length (fs_crunch_dates m)"
  using forecast_summary_exact [OF ex_forecast_hyps, of 1 None None None 3 0]
  by (simp add: Let_def)

lemma loan_installments_witness:
  "map ev_date (expand_loan_payments ex_loan31 (Date 2026 1 31) (Date 2026 5 1)) =
     [Date 2026 1 31, Date 2026 2 28, Date 2026 3 31] \<and>
   length (expand_loan_payments ex_loan31 (Date 2026 1 31) (Date 2026 5 1)) \<le> 3"
  using loan_installments [of ex_loan31 "Date 2026 1 31" 750 "Date 2026 1 31" "Date 2026 5 1"]
    ex_forecast_hyps(1) ex_loan_dates
  by (simp add: ex_loan31_def)

text \<open>A receivable and a payable with the same person, or an income named as the cash node,
  share one node: the diagram gets a cycle.\<close>

definition ex_event :: "rat \<Rightarrow> string \<Rightarrow> forecast_event" where
  "ex_event x l = \<lparr>ev_date = Date 2026 1 31, ev_amount = x, ev_label = l, ev_source = Src_Receivable, ev_id = 1\<rparr>"

lemma shared_label_makes_cycle:
  "map (\<lambda>k. (lk_source k, lk_target k)) (snd (build_sankey [ex_event 100 ''Ahmet'', ex_event (- 40) ''Ahmet''])) =
     [(1, 0), (0, 1)]"
  "map (\<lambda>k. (lk_source k, lk_target k)) (snd (build_sankey [ex_event 100 ''Nakit''])) = [(0, 0)]"
  by (simp_all add: build_sankey_def label_totals_def ex_event_def add_total_def source_link_def
      sink_link_def add_node_def cash_node_def)

end
