(* ===== verification/Budget_Laws.thy ===== *)
theory Budget_Laws
  imports Rules_Budget Cashflow_Laws
begin

text \<open>
  What the safe amounts of app/rules_engine.py guarantee against the forecast's ledger, and
  where the projections of the program disagree with each other.
\<close>

lemma ledger_balance_shift: "ledger_balance (c - x) evs d = ledger_balance c evs d - x"
  by (simp add: ledger_balance_def)

lemma on_grid_sum: "(\<And>x. x \<in> set xs \<Longrightarrow> on_grid n (f x)) \<Longrightarrow> on_grid n (\<Sum>x\<leftarrow>xs. f x)"
  by (induction xs) (simp_all add: on_grid_add on_grid_of_int [of n 0, simplified])

lemma on_grid_ledger:
  "on_grid n c \<Longrightarrow> \<forall>e \<in> set evs. on_grid n (ev_amount e) \<Longrightarrow> on_grid n (ledger_balance c evs d)"
  unfolding ledger_balance_def by (intro on_grid_add on_grid_sum) auto

lemma Min_grid:
  "finite S \<Longrightarrow> S \<noteq> {} \<Longrightarrow> \<forall>x \<in> S. on_grid n x \<Longrightarrow> on_grid n (Min S)"
  by (simp add: Min_in)

text \<open>The lowest point of the ledger over the horizon, the opening cash included.\<close>

definition lowest_point :: "rat \<Rightarrow> forecast_event list \<Rightarrow> date \<Rightarrow> nat \<Rightarrow> rat" where
  "lowest_point cash evs today h = Min (insert cash ((\<lambda>i. ledger_balance cash evs (add_days today i)) ` {..<h}))"

lemma lowest_point_le:
  "lowest_point cash evs today h \<le> cash"
  "i < h \<Longrightarrow> lowest_point cash evs today h \<le> ledger_balance cash evs (add_days today i)"
  unfolding lowest_point_def by (auto intro: Min_le)

lemma lowest_point_attained:
  "lowest_point cash evs today h = cash \<or>
   (\<exists>i < h. lowest_point cash evs today h = ledger_balance cash evs (add_days today i))"
proof -
  have "lowest_point cash evs today h \<in> insert cash ((\<lambda>i. ledger_balance cash evs (add_days today i)) ` {..<h})"
    unfolding lowest_point_def by (rule Min_in) auto
  then show ?thesis by auto
qed

lemma summary_lowest:
  assumes "valid_date today" "dated s"
  shows "\<exists>m. cashflow_forecast_summary u w today s h = Some m \<and>
    fs_lowest_balance m = qhe 2 (lowest_point (opening_cash u w None (accounts s))
      (collect_events s u w None None today (horizon_end today h)) today h)"
proof -
  have "\<forall>e \<in> set (collect_events s u w None None today (horizon_end today h)).
      in_window today (horizon_end today h) e"
    using collect_events_in_window [OF assms] by simp
  from walk_days_ledger(4) [OF assms(1) this] show ?thesis
    by (simp add: cashflow_forecast_summary_def generate_forecast_def Let_def lowest_point_def)
qed

text \<open>Spending the safe amount today is safe. Every balance the forecast projects, and the
  cash in hand, stays after the spending within one kurus of the card debt plus the buffer, and
  exactly at or above them when the amounts are whole kurus. The amount is maximal: spending
  more than it by over a kurus takes the cash in hand or some projected day below.\<close>

theorem safe_to_spend_bound:
  assumes "valid_date today" "dated s"
    and "x = calculate_safe_to_spend (cashflow_forecast_summary u w today s h) kart buffer" "0 < x"
  shows "let evs = collect_events s u w None None today (horizon_end today h);
             cash = opening_cash u w None (accounts s);
             after = (\<lambda>y. insert (cash - y) ((\<lambda>i. ledger_balance (cash - y) evs (add_days today i)) ` {..<h})) in
    (\<forall>b \<in> after x. kart + buffer - 1/100 \<le> b) \<and>
    (on_grid 2 cash \<and> (\<forall>e \<in> set evs. on_grid 2 (ev_amount e)) \<and> on_grid 2 (kart + buffer) \<longrightarrow>
       (\<forall>b \<in> after x. kart + buffer \<le> b)) \<and>
    (\<forall>y > x + 1/100. \<exists>b \<in> after y. b < kart + buffer)"
proof -
  define evs where "evs = collect_events s u w None None today (horizon_end today h)"
  define cash where "cash = opening_cash u w None (accounts s)"
  define L where "L = lowest_point cash evs today h"
  define after where "after = (\<lambda>y. insert (cash - y) ((\<lambda>i. ledger_balance (cash - y) evs (add_days today i)) ` {..<h}))"
  obtain m where m: "cashflow_forecast_summary u w today s h = Some m" "fs_lowest_balance m = qhe 2 L"
    using summary_lowest [OF assms(1,2), of u w h] unfolding L_def evs_def cash_def by blast
  have x: "x = qhe 2 (max 0 (qhe 2 L - kart - buffer))"
    using assms(3) by (simp add: calculate_safe_to_spend_def m)
  have pos: "0 < qhe 2 L - kart - buffer"
  proof (rule ccontr)
    assume "\<not> 0 < qhe 2 L - kart - buffer"
    then have "x \<le> qhe 2 0" unfolding x by (intro qhe_mono) simp
    moreover have "qhe 2 0 = 0" by (rule qhe_grid) (rule on_gridI [of _ 0], simp)
    ultimately show False using assms(4) by simp
  qed
  then have x': "x = qhe 2 (qhe 2 L - (kart + buffer))" unfolding x by (simp add: algebra_simps)
  have e: "\<bar>qhe 2 L - L\<bar> \<le> 1/200" "\<bar>x - (qhe 2 L - (kart + buffer))\<bar> \<le> 1/200"
    using qhe_error [of 2 L] qhe_error [of 2 "qhe 2 L - (kart + buffer)"] by (simp_all add: x')
  have le: "L - y \<le> b" if "b \<in> after y" for b y
    using that lowest_point_le by (auto simp: after_def L_def ledger_balance_shift)
  have at: "L - y \<in> after y" for y
    using lowest_point_attained [of cash evs today h] by (auto simp: after_def L_def ledger_balance_shift)
  have slack: "\<forall>b \<in> after x. kart + buffer - 1/100 \<le> b"
  proof
    fix b assume "b \<in> after x"
    from le [OF this] e show "kart + buffer - 1/100 \<le> b" by linarith
  qed
  have exact: "\<forall>b \<in> after x. kart + buffer \<le> b"
    if g: "on_grid 2 cash" "\<forall>e \<in> set evs. on_grid 2 (ev_amount e)" "on_grid 2 (kart + buffer)"
  proof
    fix b assume b: "b \<in> after x"
    have "on_grid 2 L" unfolding L_def lowest_point_def
      using g on_grid_ledger by (intro Min_grid) auto
    then have "x = L - (kart + buffer)" unfolding x' by (simp add: qhe_grid on_grid_diff g(3))
    with le [OF b] show "kart + buffer \<le> b" by simp
  qed
  have maximal: "\<exists>b \<in> after y. b < kart + buffer" if y: "x + 1/100 < y" for y
  proof (rule bexI [OF _ at])
    show "L - y < kart + buffer" using e y by linarith
  qed
  show ?thesis using slack exact maximal
    by (simp only: Let_def after_def evs_def cash_def) blast
qed

definition ex_safe_db :: db where
  "ex_safe_db = empty_db\<lparr>accounts := [ex_loan31\<lparr>acc_type := Cash, acc_balance := 600\<rparr>]\<rparr>"

lemma safe_to_spend_bound_witness:
  "calculate_safe_to_spend (cashflow_forecast_summary 1 None (Date 2026 1 31) ex_safe_db 5) 100 50 = 450 \<and>
   (\<exists>b \<in> insert (600 - 460) ((\<lambda>i. ledger_balance (600 - 460) (collect_events ex_safe_db 1 None None None
      (Date 2026 1 31) (horizon_end (Date 2026 1 31) 5)) (add_days (Date 2026 1 31) i)) ` {..<5}). b < 150)"
proof -
  let ?t = "Date 2026 1 31" and ?s = ex_safe_db
  have hyps: "valid_date ?t" "dated ?s"
    by (simp_all add: valid_date_def month_len_def dated_def ex_safe_db_def ex_loan31_def)
  have evs: "collect_events ?s 1 None None None ?t (horizon_end ?t 5) = []"
    by (simp add: collect_events_def ex_safe_db_def ex_loan31_def personal_debts_in_range_def)
  have cash: "opening_cash 1 None None (accounts ?s) = 600"
    by (simp add: opening_cash_def ex_safe_db_def ex_loan31_def scope_filter_def)
  have "(\<lambda>i. ledger_balance 600 [] (add_days ?t i)) ` {..<5} = {600}"
    by (simp add: ledger_balance_def image_constant_conv lessThan_empty_iff)
  then have low: "lowest_point 600 [] ?t 5 = 600" by (simp add: lowest_point_def)
  have g: "qhe 2 600 = 600" "qhe 2 450 = 450"
    by (rule qhe_grid, rule on_gridI [of _ "60000"], simp) (rule qhe_grid, rule on_gridI [of _ "45000"], simp)
  have x: "calculate_safe_to_spend (cashflow_forecast_summary 1 None ?t ?s 5) 100 50 = 450"
    using summary_lowest [OF hyps, of 1 None 5, unfolded evs cash low g]
    by (auto simp: calculate_safe_to_spend_def g)
  have "\<forall>y > 450 + 1/100. \<exists>b \<in> insert (600 - y) ((\<lambda>i. ledger_balance (600 - y) (collect_events ?s 1 None None None
      ?t (horizon_end ?t 5)) (add_days ?t i)) ` {..<5}). b < 100 + 50"
    using safe_to_spend_bound [OF hyps x [symmetric]] by (simp only: Let_def cash) simp
  from this [rule_format, of 460] x show ?thesis by simp
qed

subsection \<open>Where the projections disagree\<close>

text \<open>A recurring item posted this month is left out of every list until the month turns, also
  when its next date is within the week: no reminder on 28 January for 2 February.\<close>

lemma reminder_suppressed_across_month_end:
  assumes "ri_last_triggered i = Some (2026, 1)" "ri_day i = 2" "incomes s = [i]"
    "expenses s = []" "debts s = []"
  shows "upcoming_reminders u w (Date 2026 1 28) s [] = []"
    and "reminder_window (Date 2026 1 28) (get_next_due_date (Date 2026 1 28) (ri_day i))"
  using assms by (simp_all add: upcoming_reminders_def active_incomes_def active_expenses_def
      debt_reminders_def open_debts_def reminder_window_def get_next_due_date_def Let_def less_date_def
      month_len_def is_leap_def days_between_def ordinal_def days_before_year_def days_before_month_def upt_rec)

text \<open>The forecast counts on the posting day what is already in the cash, and charges the cash
  with an expense paid by card; the budget and the cash calendar do neither.\<close>

lemma forecast_repeats_posted_income:
  assumes "scope_filter u w (ri_user i) (ri_ws i)" "ri_active i"
    "ri_last_triggered i = Some (2026, 1)" "ri_day i = 28" "incomes s = [i]"
    "expenses s = []" "debts s = []" "accounts s = []"
  shows "map ev_date (collect_events s u w None None (Date 2026 1 28) (Date 2026 1 31)) = [Date 2026 1 28]"
    and "snd (expected_income_until_eom u w (Date 2026 1 28) s) = []"
  using assms by (simp_all add: collect_events_def expand_recurring_income_def month_occurrences_def
      month_walk.simps less_eq_date_def month_len_def personal_debts_in_range_def
      expected_income_until_eom_def active_incomes_def)

text \<open>A loan whose installments are all paid, or whose number is unknown, is read three ways:
  the forecast projects nothing for the first and everything for the second, the budget
  charges both and the runway neither.\<close>

lemma loans_read_three_ways:
  assumes "acc_in_scope u w a" "acc_type a = Loan" "next_payment_date a = Some (Date 2026 1 30)"
    "monthly_payment a = Some 750" "accounts s = [a]" "transactions s = []"
  shows "remaining_installments a = Some 0 \<Longrightarrow> expand_loan_payments a (Date 2026 1 28) (Date 2026 1 31) = []"
    and "remaining_installments a = None \<Longrightarrow>
      map ev_amount (expand_loan_payments a (Date 2026 1 28) (Date 2026 1 31)) = [- 750]"
    and "loan_payments_until_eom u w (Date 2026 1 28) s = qhe 2 750"
    and "remaining_installments a \<in> {None, Some 0} \<Longrightarrow> 0 < nakit \<Longrightarrow>
      calculate_cash_runway u w (Date 2026 1 28) s nakit 30 = None"
  using assms by (simp_all add: expand_loan_payments_def loan_walk.simps less_eq_date_def less_date_def
      month_len_def is_leap_def loan_payments_until_eom_def scoped_accounts_def due_within_def eom_def)
    (auto simp: calculate_cash_runway_def scoped_accounts_def spent_between_def ddiv_def dctx_def)

end
