(* ===== verification/Cockpit_Laws.thy ===== *)
theory Cockpit_Laws
  imports Cockpit Budget_Laws
begin

text \<open>
  The cockpit against its parts: the cheap balance summary equals the full cockpit's, the alert
  panel keeps what is critical in front and hands the next action to the oldest overdue debt,
  a projected shortage always reaches the panel, and the health score stays on its scale. The
  daily snapshot and the attribution of a change in net worth close the theory.
\<close>

subsection \<open>The cheap summary\<close>

lemma account_totals_hizli:
  "case account_totals accs (n, k, l, y, e) of (n', k', l', y', _) \<Rightarrow>
     hizli_loop accs (n, k, l, y) = (n', k', l', y')"
proof (induction accs arbitrary: n k l y e)
  case (Cons a accs)
  show ?case using Cons.IH by (cases "acc_type a") (auto split: prod.splits)
qed simp

lemma account_totals_by_type:
  "account_totals accs (n, k, l, y, e) =
     (n + total_of Cash accs, k + total_of Credit_Card accs, l + total_of Loan accs,
      y + (\<Sum>a\<leftarrow>filter (\<lambda>a. acc_type a = Investment \<and> \<not> is_emanet a) accs. lot_value a),
      e + (\<Sum>a\<leftarrow>filter (\<lambda>a. acc_type a = Investment \<and> is_emanet a) accs. lot_value a))"
proof (induction accs arbitrary: n k l y e)
  case Nil show ?case by (simp add: total_of_def)
next
  case (Cons a accs)
  show ?case
    by (cases "acc_type a"; cases "is_emanet a") (simp_all add: Cons.IH total_of_def)
qed

lemma cockpit_balances:
  fixes env u w today c
  defines "accs \<equiv> filter (acc_in_scope u w) (accounts (c_db c))"
  defines "ck \<equiv> generate_cockpit env u w today c"
  assumes "account_totals accs (0, 0, 0, 0, 0) = (n, k, l, y, e)"
  shows "ck_nakit ck = qhe 2 n" "ck_kart_borcu ck = qhe 2 k" "ck_kredi_borcu ck = qhe 2 l"
    "ck_net_deger ck = qhe 2 (net_worth_seen n y k l)"
  using assms(3) unfolding ck_def accs_def generate_cockpit_def
  by (simp_all add: Let_def split: prod.splits)

text \<open>The cheap summary the action executor reads before and after an approval equals the
  full cockpit: for every user, workspace, day and database its cash and its net worth are the
  float conversions of those two fields of the cockpit.\<close>

theorem hizli_matches_cockpit:
  "hizli_bakiye_ozeti u w (c_db c) =
     (fl (ck_nakit (generate_cockpit env u w today c)),
      fl (ck_net_deger (generate_cockpit env u w today c)))"
proof -
  obtain n k l y e where t:
    "account_totals (filter (acc_in_scope u w) (accounts (c_db c))) (0, 0, 0, 0, 0) = (n, k, l, y, e)"
    by (metis prod_cases5)
  then show ?thesis
    using account_totals_hizli [of "filter (acc_in_scope u w) (accounts (c_db c))" 0 0 0 0 0]
    by (simp add: hizli_bakiye_ozeti_def cockpit_balances [OF t])
qed

subsection \<open>The alert panel\<close>

lemma severity_kritik: "al_seviye a \<noteq> Kritik \<longleftrightarrow> al_seviye a = Uyari"
  by (cases "al_seviye a") auto

lemma filter_sort_severity:
  "filter (\<lambda>a. al_seviye a = s) (sort_key severity_rank as) = filter (\<lambda>a. al_seviye a = s) as"
proof -
  have "(\<lambda>a. al_seviye a = s) = (\<lambda>a. severity_rank a = (case s of Kritik \<Rightarrow> 0 | Uyari \<Rightarrow> 1))"
    by (rule ext, cases s) (simp_all add: severity_rank_def split: severity.splits)
  then show ?thesis by (simp add: sort_key_stable)
qed

lemma cap_alerts_filter:
  "cap_alerts as = (filter (\<lambda>a. al_seviye a = Kritik) as @ take 3 (filter (\<lambda>a. al_seviye a = Uyari) as),
     length (filter (\<lambda>a. al_seviye a = Uyari) as) - 3)"
  by (simp add: cap_alerts_def Let_def severity_kritik filter_sort_severity max_uyari_def)

definition overdue_alert :: "personal_debt \<Rightarrow> alert" where
  "overdue_alert d = \<lparr>al_seviye = Kritik, al_kod = Borc_Gecikmis, al_tutar = Some (pd_amount d), al_konu = counterparty d\<rparr>"

text \<open>The overdue payables of the scope, the oldest first.\<close>

definition late_payables :: "nat \<Rightarrow> nat option \<Rightarrow> date \<Rightarrow> db \<Rightarrow> personal_debt list" where
  "late_payables u w today s = sort_key (\<lambda>d. the (due_date d))
     (filter (\<lambda>d. direction d = Payable \<and> pd_in_scope u w d \<and> \<not> is_paid d \<and>
        (\<exists>t. due_date d = Some t \<and> t < today)) (debts s))"

lemma overdue_kritik:
  "filter (\<lambda>a. al_seviye a = Kritik) (collect_overdue_debts u w today s) =
     map overdue_alert (late_payables u w today s)"
proof -
  let ?L = "sort_key (\<lambda>d. the (due_date d)) (filter (\<lambda>d. pd_in_scope u w d \<and> \<not> is_paid d \<and>
            (case due_date d of None \<Rightarrow> False | Some t \<Rightarrow> t < today)) (debts s))"
  have "late_payables u w today s = filter (\<lambda>d. direction d = Payable) ?L"
    by (simp add: late_payables_def filter_sort) (rule arg_cong [where f = "sort_key _"],
      rule filter_cong, auto split: option.splits)
  moreover have "filter (\<lambda>a. al_seviye a = Kritik) (map (\<lambda>d. if direction d = Payable then overdue_alert d
       else \<lparr>al_seviye = Uyari, al_kod = Alacak_Gecikmis, al_tutar = Some (pd_amount d), al_konu = counterparty d\<rparr>) L) =
     map overdue_alert (filter (\<lambda>d. direction d = Payable) L)" for L
    by (induction L) (auto simp: overdue_alert_def)
  ultimately show ?thesis
    unfolding collect_overdue_debts_def overdue_alert_def by metis
qed

lemma overdue_alert_kritik [simp]:
  "filter (\<lambda>a. al_seviye a = Kritik) (map overdue_alert ds) = map overdue_alert ds"
  by (simp add: filter_id_conv overdue_alert_def)

abbreviation plain_alert :: "alert \<Rightarrow> bool" where
  "plain_alert a \<equiv> al_kod a \<noteq> Borc_Gecikmis \<and> al_kod a \<noteq> Nakit_Krizi"

lemma other_codes:
  "a \<in> set (detect_alerts n k l r ps t) \<Longrightarrow> plain_alert a"
  "a \<in> set (subscription_price_alerts subs) \<Longrightarrow> plain_alert a"
  "a \<in> set (category_overspend_alerts fold_text sl u w today es s) \<Longrightarrow> plain_alert a"
  "a \<in> set (min_payment_trap_alerts tr) \<Longrightarrow> plain_alert a"
  "a \<in> set (bayat_fiyat_alerts now st) \<Longrightarrow> plain_alert a"
  "crunch_alert_from_summary m = Some a \<Longrightarrow> al_kod a = Nakit_Krizi \<and> al_seviye a = Kritik"
  by (auto simp: detect_alerts_def Let_def subscription_price_alerts_def category_overspend_alerts_def
      min_payment_trap_alerts_def bayat_fiyat_alerts_def crunch_alert_from_summary_def dest!: in_set_takeD
      split: if_splits option.splits list.splits prod.splits)

lemma cockpit_alerts_kritik:
  fixes env u w today c
  assumes "\<forall>a \<in> set base. plain_alert a"
  obtains ks where "filter (\<lambda>a. al_seviye a = Kritik) (cockpit_alerts env u w today c base) =
      map overdue_alert (late_payables u w today (c_db c)) @
      (case crunch_alert_from_summary (cashflow_forecast_summary u w today (c_db c) 90) of
         None \<Rightarrow> [] | Some a \<Rightarrow> [a]) @ ks"
    "\<forall>a \<in> set ks. al_seviye a = Kritik \<and> plain_alert a"
    "\<forall>a \<in> set (cockpit_alerts env u w today c base). al_seviye a = Uyari \<longrightarrow> al_kod a \<noteq> Nakit_Krizi"
proof -
  let ?rest = "subscription_price_alerts (fst (detect_subscriptions (ce_merchant env) u w today 180 (c_db c))) @
      category_overspend_alerts (ce_fold env) (sistem_slug_kumesi u None (categories (c_db c))) u w today (c_envelopes c) (c_db c) @
      min_payment_trap_alerts (calculate_min_payment_trap fl (collect_debts fl u w (accounts (c_db c))) today) @
      bayat_fiyat_alerts (ce_now env) (stale_prices (ce_now env) (filter (acc_in_scope u w) (accounts (c_db c))))"
  let ?K = "filter (\<lambda>a. al_seviye a = Kritik)"
  have "?K (cockpit_alerts env u w today c base) =
      map overdue_alert (late_payables u w today (c_db c)) @
      (case crunch_alert_from_summary (cashflow_forecast_summary u w today (c_db c) 90) of
         None \<Rightarrow> [] | Some a \<Rightarrow> [a]) @ (?K base @ ?K ?rest)"
    using other_codes(6)
    by (auto simp: cockpit_alerts_def Let_def merge_alerts_def overdue_kritik filter_empty_conv split: option.split)
  moreover have rest: "\<forall>a \<in> set ?rest. plain_alert a"
    using other_codes(2-5) by fastforce
  then have "\<forall>a \<in> set (?K base @ ?K ?rest). al_seviye a = Kritik \<and> plain_alert a"
    using assms by fastforce
  moreover have "\<forall>a \<in> set (cockpit_alerts env u w today c base). al_seviye a = Uyari \<longrightarrow> al_kod a \<noteq> Nakit_Krizi"
  proof (intro ballI impI)
    fix a assume "a \<in> set (cockpit_alerts env u w today c base)" and w: "al_seviye a = Uyari"
    then have "a \<in> set (collect_overdue_debts u w today (c_db c)) \<or>
        crunch_alert_from_summary (cashflow_forecast_summary u w today (c_db c) 90) = Some a \<or>
        a \<in> set base \<or> a \<in> set ?rest"
      unfolding cockpit_alerts_def Let_def merge_alerts_def by (auto split: option.splits)
    then show "al_kod a \<noteq> Nakit_Krizi"
      using rest assms other_codes(6) w by (auto simp: collect_overdue_debts_def split: if_splits)
  qed
  ultimately show thesis by (rule that)
qed

text \<open>The recommendation depends on the critical alerts of the panel only.\<close>

lemma recommend_first_overdue:
  assumes "filter (\<lambda>a. al_seviye a = Kritik) as = overdue_alert d # ks"
  shows "recommend_next_action as ag nk kb kr rw =
    Some \<lparr>na_tip = Temerrut, na_tutar = Some (pd_amount d), na_kim = Some (counterparty d)\<rparr>"
  by (simp add: recommend_next_action_def assms Let_def) (simp add: overdue_alert_def)

lemma recommend_no_overdue:
  assumes "\<forall>a \<in> set (filter (\<lambda>a. al_seviye a = Kritik) as). al_kod a \<noteq> Borc_Gecikmis"
    and "recommend_next_action as ag nk kb kr rw = Some n"
  shows "na_tip n \<noteq> Temerrut"
    and "\<exists>a \<in> set (filter (\<lambda>a. al_seviye a = Kritik) as). al_kod a = Nakit_Krizi \<Longrightarrow> na_tip n = Kriz"
proof -
  have f: "List.find (\<lambda>a. al_kod a = Borc_Gecikmis) (filter (\<lambda>a. al_seviye a = Kritik) as) = None"
    using assms(1) by (simp add: find_None_iff find_None_iff2)
  show "na_tip n \<noteq> Temerrut"
    using assms(2) by (auto simp: recommend_next_action_def Let_def f split: option.splits if_splits list.splits)
  assume "\<exists>a \<in> set (filter (\<lambda>a. al_seviye a = Kritik) as). al_kod a = Nakit_Krizi"
  then have "List.find (\<lambda>a. al_kod a = Nakit_Krizi) (filter (\<lambda>a. al_seviye a = Kritik) as) \<noteq> None"
    by (auto simp: find_None_iff find_None_iff2)
  then show "na_tip n = Kriz"
    using assms(2) by (auto simp: recommend_next_action_def Let_def f split: option.splits list.splits)
qed

lemma recommend_crunch:
  assumes "\<exists>a \<in> set (filter (\<lambda>a. al_seviye a = Kritik) as). al_kod a = Nakit_Krizi"
  shows "\<exists>n. recommend_next_action as ag nk kb kr rw = Some n \<and> (na_tip n = Temerrut \<or> na_tip n = Kriz)"
proof -
  from assms have "List.find (\<lambda>a. al_kod a = Nakit_Krizi) (filter (\<lambda>a. al_seviye a = Kritik) as) \<noteq> None"
    by (auto simp: find_None_iff find_None_iff2)
  then show ?thesis by (auto simp: recommend_next_action_def Let_def split: option.split list.split)
qed

lemma cockpit_safe_field:
  assumes "account_totals (filter (acc_in_scope u w) (accounts (c_db c))) (0, 0, 0, 0, 0) = (n, k, l, y, e)"
  shows "ck_guvenli_harcama (generate_cockpit env u w today c) =
    calculate_safe_to_spend (cashflow_forecast_summary u w today (c_db c) 90) k 0"
  using assms unfolding generate_cockpit_def by (simp add: Let_def split: prod.splits)

lemma cockpit_panel_fields:
  fixes env u w today c
  defines "ck \<equiv> generate_cockpit env u w today c"
    and "accs \<equiv> filter (acc_in_scope u w) (accounts (c_db c))"
  assumes "account_totals accs (0, 0, 0, 0, 0) = (n, k, l, y, e)"
  defines "base \<equiv> detect_alerts n k
      (\<Sum>a\<leftarrow>filter (\<lambda>a. acc_type a = Credit_Card) accs. case credit_limit a of None \<Rightarrow> 0 | Some l \<Rightarrow> l)
      (ck_reel_butce ck) (ck_upcoming_payments ck) today"
  shows "(ck_alerts ck, ck_gizli ck) = cap_alerts (cockpit_alerts env u w today c base)"
    and "ck_sonraki ck = recommend_next_action (ck_alerts ck) (ck_yaslanma ck) (ck_atanmamis ck)
       (ck_kart_borcu ck) (ck_kredi_borcu ck) (ck_runway ck)"
  using assms(3) unfolding ck_def accs_def base_def generate_cockpit_def
  by (simp_all add: Let_def split: prod.splits)

lemma cockpit_panel_kritik:
  fixes env u w today c
  defines "ck \<equiv> generate_cockpit env u w today c" and "s \<equiv> c_db c"
  obtains ks ws hidden where
    "ck_alerts ck = map overdue_alert (late_payables u w today s) @
      (case crunch_alert_from_summary (cashflow_forecast_summary u w today s 90) of
         None \<Rightarrow> [] | Some a \<Rightarrow> [a]) @ ks @ ws"
    "\<forall>a \<in> set ks. al_seviye a = Kritik \<and> plain_alert a"
    "ws = take 3 hidden" "\<forall>a \<in> set hidden. al_seviye a = Uyari \<and> al_kod a \<noteq> Nakit_Krizi" "ck_gizli ck = length hidden - 3"
    "ck_sonraki ck = recommend_next_action (ck_alerts ck) (ck_yaslanma ck) (ck_atanmamis ck)
       (ck_kart_borcu ck) (ck_kredi_borcu ck) (ck_runway ck)"
proof -
  obtain n k l y e where t:
    "account_totals (filter (acc_in_scope u w) (accounts (c_db c))) (0, 0, 0, 0, 0) = (n, k, l, y, e)"
    by (metis prod_cases5)
  note f = cockpit_panel_fields [OF t, of env today]
  define base where "base = detect_alerts n k
      (\<Sum>a\<leftarrow>filter (\<lambda>a. acc_type a = Credit_Card) (filter (acc_in_scope u w) (accounts (c_db c))).
         case credit_limit a of None \<Rightarrow> 0 | Some l \<Rightarrow> l)
      (ck_reel_butce ck) (ck_upcoming_payments ck) today"
  define all where "all = cockpit_alerts env u w today c base"
  have "\<forall>a \<in> set base. plain_alert a" unfolding base_def using other_codes(1) by blast
  from cockpit_alerts_kritik [OF this] obtain ks where
    ks: "filter (\<lambda>a. al_seviye a = Kritik) all = map overdue_alert (late_payables u w today s) @
      (case crunch_alert_from_summary (cashflow_forecast_summary u w today s 90) of
         None \<Rightarrow> [] | Some a \<Rightarrow> [a]) @ ks"
      "\<forall>a \<in> set ks. al_seviye a = Kritik \<and> plain_alert a"
      "\<forall>a \<in> set all. al_seviye a = Uyari \<longrightarrow> al_kod a \<noteq> Nakit_Krizi"
    unfolding all_def s_def by metis
  have "(ck_alerts ck, ck_gizli ck) = cap_alerts all"
    using f(1) unfolding all_def base_def ck_def by simp
  then have "ck_alerts ck = filter (\<lambda>a. al_seviye a = Kritik) all @ take 3 (filter (\<lambda>a. al_seviye a = Uyari) all)"
    "ck_gizli ck = length (filter (\<lambda>a. al_seviye a = Uyari) all) - 3"
    by (simp_all add: cap_alerts_filter)
  then show thesis using ks f(2) unfolding ck_def [symmetric]
    by (intro that [of ks _ "filter (\<lambda>a. al_seviye a = Uyari) all"]) auto
qed

text \<open>The panel of the cockpit opens with exactly the overdue payables of the scope, the oldest
  first; after them and any projected shortage come the other critical alerts, then at most
  three warnings, and warnings are hidden only when three are shown. The recommended next action
  is the oldest overdue payable, with its amount and creditor, whenever there is one, and never
  warns of a default when there is none.\<close>

theorem panel_puts_overdue_first:
  "let ck = generate_cockpit env u w today c; late = late_payables u w today (c_db c) in
   (\<exists>ks ws. ck_alerts ck = map overdue_alert late @ ks @ ws \<and>
      (\<forall>a \<in> set ks. al_seviye a = Kritik \<and> al_kod a \<noteq> Borc_Gecikmis) \<and> (\<forall>a \<in> set ws. al_seviye a = Uyari) \<and>
      length ws \<le> 3 \<and> (0 < ck_gizli ck \<longrightarrow> length ws = 3)) \<and>
   (case late of
      [] \<Rightarrow> (\<forall>n. ck_sonraki ck = Some n \<longrightarrow> na_tip n \<noteq> Temerrut)
    | d # _ \<Rightarrow> ck_sonraki ck = Some \<lparr>na_tip = Temerrut, na_tutar = Some (pd_amount d), na_kim = Some (counterparty d)\<rparr>)"
proof -
  define ck where "ck = generate_cockpit env u w today c"
  define late where "late = late_payables u w today (c_db c)"
  define crunch where "crunch = (case crunch_alert_from_summary (cashflow_forecast_summary u w today (c_db c) 90) of
         None \<Rightarrow> [] | Some a \<Rightarrow> [a])"
  have cr: "\<forall>a \<in> set crunch. al_seviye a = Kritik \<and> al_kod a \<noteq> Borc_Gecikmis"
    unfolding crunch_def using other_codes(6) by (auto split: option.split)
  obtain ks hidden where p:
    "ck_alerts ck = map overdue_alert late @ (crunch @ ks) @ take 3 hidden"
    "\<forall>a \<in> set ks. al_seviye a = Kritik \<and> plain_alert a"
    "\<forall>a \<in> set hidden. al_seviye a = Uyari \<and> al_kod a \<noteq> Nakit_Krizi" "ck_gizli ck = length hidden - 3"
    and r: "ck_sonraki ck = recommend_next_action (ck_alerts ck) (ck_yaslanma ck) (ck_atanmamis ck)
       (ck_kart_borcu ck) (ck_kredi_borcu ck) (ck_runway ck)"
    unfolding ck_def late_def crunch_def by (rule cockpit_panel_kritik [of env u w today c]) simp
  have k: "filter (\<lambda>a. al_seviye a = Kritik) (ck_alerts ck) = map overdue_alert late @ (crunch @ ks)"
  proof -
    have "filter (\<lambda>a. al_seviye a = Kritik) (take 3 hidden) = []"
      using p(3) by (auto simp: filter_empty_conv dest!: in_set_takeD)
    moreover have "filter (\<lambda>a. al_seviye a = Kritik) (crunch @ ks) = crunch @ ks"
      using p(2) cr by (simp add: filter_id_conv)
    ultimately show ?thesis by (simp add: p(1) del: append_assoc)
  qed
  have "\<exists>ks ws. ck_alerts ck = map overdue_alert late @ ks @ ws \<and>
      (\<forall>a \<in> set ks. al_seviye a = Kritik \<and> al_kod a \<noteq> Borc_Gecikmis) \<and> (\<forall>a \<in> set ws. al_seviye a = Uyari) \<and>
      length ws \<le> 3 \<and> (0 < ck_gizli ck \<longrightarrow> length ws = 3)"
    using p cr by (intro exI [of _ "crunch @ ks"] exI [of _ "take 3 hidden"])
      (auto dest!: in_set_takeD)
  moreover have "case late of
      [] \<Rightarrow> (\<forall>n. ck_sonraki ck = Some n \<longrightarrow> na_tip n \<noteq> Temerrut)
    | d # _ \<Rightarrow> ck_sonraki ck = Some \<lparr>na_tip = Temerrut, na_tutar = Some (pd_amount d), na_kim = Some (counterparty d)\<rparr>"
  proof (cases late)
    case Nil
    have "\<forall>a \<in> set (filter (\<lambda>a. al_seviye a = Kritik) (ck_alerts ck)). al_kod a \<noteq> Borc_Gecikmis"
      unfolding k using Nil p(2) cr by auto
    from recommend_no_overdue(1) [OF this] show ?thesis using r Nil by auto
  next
    case (Cons d ds)
    then show ?thesis unfolding r using k by (auto intro!: recommend_first_overdue)
  qed
  ultimately show ?thesis unfolding ck_def late_def by (simp add: Let_def)
qed

text \<open>One payable overdue since 1 March, one due on 12 March, and no cash.\<close>

definition ex_payable :: "nat \<Rightarrow> string \<Rightarrow> rat \<Rightarrow> date \<Rightarrow> personal_debt" where
  "ex_payable i who x t = \<lparr>pd_id = i, pd_user = 7, pd_ws = None, counterparty = who, direction = Payable,
     pd_amount = x, pd_description = None, due_date = Some t, is_paid = False, paid_date = None,
     settlement_account = None\<rparr>"

definition ex_late_db :: cdb where
  "ex_late_db = \<lparr>c_db = empty_db\<lparr>debts := [ex_payable 8 ''Veli'' 300 (Date 2026 3 12), ex_payable 9 ''Ali'' 250 (Date 2026 3 3)]\<rparr>,
     c_envelopes = [], c_snaps = []\<rparr>"

definition ex_ck_env :: cockpit_env where
  "ex_ck_env = \<lparr>ce_now = 0, ce_fold = id, ce_merchant = id, ce_buffer = 0,
     ce_pow = (\<lambda>x y. x), ce_vergi = (\<lambda>_. None)\<rparr>"

lemma panel_puts_overdue_first_witness:
  "ck_sonraki (generate_cockpit ex_ck_env 7 None (Date 2026 3 9) ex_late_db) =
     Some \<lparr>na_tip = Temerrut, na_tutar = Some 250, na_kim = Some ''Ali''\<rparr>"
  using panel_puts_overdue_first [of ex_ck_env 7 None "Date 2026 3 9" ex_late_db]
  by (simp add: Let_def late_payables_def ex_late_db_def ex_payable_def scope_filter_def less_date_def)

text \<open>The lowest projected balance decides the shortage alert.\<close>

lemma crunch_summary:
  fixes today s u w
  defines "evs \<equiv> collect_events s u w None None today (horizon_end today 90)"
    and "cash \<equiv> opening_cash u w None (accounts s)"
  assumes "valid_date today" "dated s"
  shows "crunch_alert_from_summary (cashflow_forecast_summary u w today s 90) =
    (if \<exists>i < 90. ledger_balance cash evs (add_days today i) < 0
     then Some \<lparr>al_seviye = Kritik, al_kod = Nakit_Krizi,
       al_tutar = Some \<bar>qhe 2 (lowest_point cash evs today 90)\<bar>, al_konu = []\<rparr> else None)"
proof -
  have win: "\<forall>e \<in> set evs. in_window today (horizon_end today 90) e"
    unfolding evs_def using collect_events_in_window [OF assms(3,4)] by simp
  have len: "filter ((\<lambda>d. ledger_balance cash evs d < 0) \<circ> add_days today) [0..<90] = [] \<longleftrightarrow>
      \<not> (\<exists>i < 90. ledger_balance cash evs (add_days today i) < 0)"
    by (auto simp: filter_empty_conv simp del: upt_rec_numeral)
  show ?thesis
    unfolding crunch_alert_from_summary_def cashflow_forecast_summary_def generate_forecast_def Let_def
      evs_def [symmetric] cash_def [symmetric]
    using walk_days_ledger(3,4) [OF assms(3) win, of cash 0 90]
    by (simp add: len filter_map lowest_point_def del: upt_rec_numeral)
qed

text \<open>C13: A shortage the forecast's ledger projects within 90 days always reaches the user, and no
  other does: the panel shows the critical shortage alert exactly when the cash in hand and the
  scheduled events leave some day of the horizon below zero. Then the alert carries the lowest
  balance, the next action is to avert it unless a payable is overdue, and with a card debt that
  is not negative no amount is called safe to spend.\<close>

theorem projected_shortage_reaches_panel:
  assumes "valid_date today" "dated (c_db c)"
  shows "let ck = generate_cockpit env u w today c; s = c_db c;
      evs = collect_events s u w None None today (horizon_end today 90);
      cash = opening_cash u w None (accounts s) in
    ((\<exists>a \<in> set (ck_alerts ck). al_kod a = Nakit_Krizi) \<longleftrightarrow>
       (\<exists>i < 90. ledger_balance cash evs (add_days today i) < 0)) \<and>
    (\<forall>a \<in> set (ck_alerts ck). al_kod a = Nakit_Krizi \<longrightarrow>
       al_seviye a = Kritik \<and> al_tutar a = Some \<bar>qhe 2 (lowest_point cash evs today 90)\<bar> \<and>
       (\<exists>n. ck_sonraki ck = Some n \<and> na_tip n = (if late_payables u w today s = [] then Kriz else Temerrut)) \<and>
       (0 \<le> total_of Credit_Card (filter (acc_in_scope u w) (accounts s)) \<longrightarrow> ck_guvenli_harcama ck = 0))"
proof -
  define ck where "ck = generate_cockpit env u w today c"
  define s where "s = c_db c"
  define evs where "evs = collect_events s u w None None today (horizon_end today 90)"
  define cash where "cash = opening_cash u w None (accounts s)"
  let ?neg = "\<exists>i < 90. ledger_balance cash evs (add_days today i) < 0"
  let ?alert = "\<lparr>al_seviye = Kritik, al_kod = Nakit_Krizi,
       al_tutar = Some \<bar>qhe 2 (lowest_point cash evs today 90)\<bar>, al_konu = []\<rparr>"
  define late where "late = late_payables u w today s"
  have cr: "crunch_alert_from_summary (cashflow_forecast_summary u w today s 90) = (if ?neg then Some ?alert else None)"
    unfolding evs_def cash_def by (rule crunch_summary) (simp_all add: assms s_def)
  define crunch where "crunch = (case crunch_alert_from_summary (cashflow_forecast_summary u w today s 90) of
         None \<Rightarrow> [] | Some a \<Rightarrow> [a])"
  have crunch: "crunch = (if ?neg then [?alert] else [])" by (simp add: crunch_def cr)
  obtain ks hidden where p:
    "ck_alerts ck = map overdue_alert late @ crunch @ ks @ take 3 hidden"
    "\<forall>a \<in> set ks. al_seviye a = Kritik \<and> plain_alert a"
    "\<forall>a \<in> set hidden. al_seviye a = Uyari \<and> al_kod a \<noteq> Nakit_Krizi"
    and r: "ck_sonraki ck = recommend_next_action (ck_alerts ck) (ck_yaslanma ck) (ck_atanmamis ck)
       (ck_kart_borcu ck) (ck_kredi_borcu ck) (ck_runway ck)"
    unfolding ck_def late_def s_def crunch_def by (rule cockpit_panel_kritik [of env u w today c]) simp
  have only: "a = ?alert \<and> ?neg" if "a \<in> set (ck_alerts ck)" "al_kod a = Nakit_Krizi" for a
    using that p(2,3) unfolding p(1) by (auto simp: crunch overdue_alert_def dest!: in_set_takeD split: if_splits)
  have iff: "(\<exists>a \<in> set (ck_alerts ck). al_kod a = Nakit_Krizi) \<longleftrightarrow> ?neg"
  proof
    assume ?neg
    then have "?alert \<in> set (ck_alerts ck)" by (auto simp: p(1) crunch)
    then show "\<exists>a \<in> set (ck_alerts ck). al_kod a = Nakit_Krizi" by (rule bexI [rotated]) simp
  qed (use only in blast)
  have act: "\<exists>n. ck_sonraki ck = Some n \<and> na_tip n = (if late = [] then Kriz else Temerrut)" if n: ?neg
  proof (cases late)
    case Nil
    have k: "\<forall>a \<in> set (filter (\<lambda>a. al_seviye a = Kritik) (ck_alerts ck)). al_kod a \<noteq> Borc_Gecikmis"
      "\<exists>a \<in> set (filter (\<lambda>a. al_seviye a = Kritik) (ck_alerts ck)). al_kod a = Nakit_Krizi"
      using n Nil p(2,3) unfolding p(1) by (auto simp: crunch dest!: in_set_takeD)
    with recommend_crunch [OF k(2)] recommend_no_overdue [OF k(1)] show ?thesis
      unfolding r by (metis Nil)
  next
    case (Cons d ds)
    have "filter (\<lambda>a. al_seviye a = Kritik) (ck_alerts ck) = overdue_alert d #
        filter (\<lambda>a. al_seviye a = Kritik) (tl (ck_alerts ck))"
      by (simp add: p(1) Cons) (simp add: overdue_alert_def)
    from recommend_first_overdue [OF this] show ?thesis unfolding r by (simp add: Cons)
  qed
  have safe: "ck_guvenli_harcama ck = 0"
    if n: ?neg and k: "0 \<le> total_of Credit_Card (filter (acc_in_scope u w) (accounts s))"
  proof -
    obtain i where i: "i < 90" "ledger_balance cash evs (add_days today i) < 0" using n by blast
    obtain n' k l y e where t:
      "account_totals (filter (acc_in_scope u w) (accounts s)) (0, 0, 0, 0, 0) = (n', k, l, y, e)"
      by (metis prod_cases5)
    have "0 \<le> k" using t that(2) by (simp add: account_totals_by_type)
    moreover have "lowest_point cash evs today 90 < 0"
      using lowest_point_le(2) [OF i(1)] i(2) by (rule le_less_trans)
    moreover have "qhe 2 0 = 0" by (rule qhe_grid) (rule on_gridI [of _ 0], simp)
    ultimately have "qhe 2 (lowest_point cash evs today 90) - k \<le> 0"
      using qhe_mono [of "lowest_point cash evs today 90" 0 2] by simp
    moreover obtain m where "cashflow_forecast_summary u w today s 90 = Some m"
        "fs_lowest_balance m = qhe 2 (lowest_point cash evs today 90)"
      using summary_lowest [OF assms(1), of s u w 90] assms(2) unfolding evs_def cash_def s_def by blast
    ultimately show ?thesis
      using cockpit_safe_field [OF t [unfolded s_def], of env today] \<open>qhe 2 0 = 0\<close>
      by (simp add: ck_def s_def calculate_safe_to_spend_def max_def)
  qed
  have "\<forall>a \<in> set (ck_alerts ck). al_kod a = Nakit_Krizi \<longrightarrow>
       al_seviye a = Kritik \<and> al_tutar a = Some \<bar>qhe 2 (lowest_point cash evs today 90)\<bar> \<and>
       (\<exists>n. ck_sonraki ck = Some n \<and> na_tip n = (if late = [] then Kriz else Temerrut)) \<and>
       (0 \<le> total_of Credit_Card (filter (acc_in_scope u w) (accounts s)) \<longrightarrow> ck_guvenli_harcama ck = 0)"
  proof (intro ballI impI)
    fix a assume "a \<in> set (ck_alerts ck)" "al_kod a = Nakit_Krizi"
    from only [OF this] have a: "a = ?alert" and n: ?neg by simp_all
    show "al_seviye a = Kritik \<and> al_tutar a = Some \<bar>qhe 2 (lowest_point cash evs today 90)\<bar> \<and>
       (\<exists>n. ck_sonraki ck = Some n \<and> na_tip n = (if late = [] then Kriz else Temerrut)) \<and>
       (0 \<le> total_of Credit_Card (filter (acc_in_scope u w) (accounts s)) \<longrightarrow> ck_guvenli_harcama ck = 0)"
      using act [OF n] safe [OF n] by (simp add: a)
  qed
  with iff show ?thesis
    unfolding Let_def ck_def [symmetric] s_def [symmetric] evs_def [symmetric]
      cash_def [symmetric] late_def [symmetric] by (rule conjI)
qed

lemma projected_shortage_reaches_panel_witness:
  "\<exists>a \<in> set (ck_alerts (generate_cockpit ex_ck_env 7 None (Date 2026 3 9) ex_late_db)). al_kod a = Nakit_Krizi"
proof -
  let ?today = "Date 2026 3 9"
  let ?evs = "collect_events (c_db ex_late_db) 7 None None None ?today (horizon_end ?today 90)"
  have v: "valid_date ?today" "dated (c_db ex_late_db)"
    by code_simp (simp add: dated_def ex_late_db_def ex_payable_def valid_date_def month_len_def)
  have "ledger_balance 0 ?evs (add_days ?today 3) < 0" by code_simp
  moreover have "opening_cash 7 None None (accounts (c_db ex_late_db)) = 0" by code_simp
  ultimately have "\<exists>i < 90. ledger_balance (opening_cash 7 None None (accounts (c_db ex_late_db))) ?evs (add_days ?today i) < 0"
    by (intro exI [of _ 3]) simp
  then show ?thesis
    using projected_shortage_reaches_panel [OF v, of ex_ck_env 7 None] by (simp add: Let_def)
qed

subsection \<open>The health score\<close>

lemma clamp100_range: "0 \<le> clamp100 n" "clamp100 n \<le> 100"
  by (simp_all add: clamp100_def)

lemma health_components_range:
  "p \<in> set (health_components rb kb kl f g rw cr za zv) \<Longrightarrow> 0 \<le> p \<and> p \<le> 100"
  by (auto simp: health_components_def clamp100_range split: option.splits if_splits)

lemma fl_100 [simp]: "fl 100 = 100"
  by code_simp

text \<open>The score is the rounded mean of components on the scale, so it is on the scale itself; a
  projected shortage never raises it.\<close>

lemma mean_range:
  fixes cs :: "int list"
  assumes "\<forall>c \<in> set cs. 0 \<le> c \<and> c \<le> 100" "cs \<noteq> []"
  shows "0 \<le> rhe (fdiv (of_int (sum_list cs)) (of_nat (length cs)))"
    and "rhe (fdiv (of_int (sum_list cs)) (of_nat (length cs))) \<le> 100"
proof -
  have "0 \<le> sum_list cs \<and> sum_list cs \<le> 100 * int (length cs)"
    using assms(1) by (induction cs) auto
  then have "0 \<le> (of_int (sum_list cs) :: rat)" "(of_int (sum_list cs) :: rat) \<le> 100 * of_nat (length cs)"
    by (simp, metis of_int_le_iff of_int_mult of_int_numeral of_int_of_nat_eq)
  then have "0 \<le> of_int (sum_list cs) / (of_nat (length cs) :: rat)"
    "of_int (sum_list cs) / (of_nat (length cs) :: rat) \<le> 100"
    using assms(2) by (simp_all add: divide_le_eq)
  from this [THEN fl.r_mono] have f: "0 \<le> fdiv (of_int (sum_list cs)) (of_nat (length cs))"
    "fdiv (of_int (sum_list cs)) (of_nat (length cs)) \<le> 100"
    by (simp_all add: fdiv_def)
  from f(1) show "0 \<le> rhe (fdiv (of_int (sum_list cs)) (of_nat (length cs)))"
    using rhe_mono [of 0] rhe_of_int [of 0] by simp
  from f(2) show "rhe (fdiv (of_int (sum_list cs)) (of_nat (length cs))) \<le> 100"
    using rhe_mono [of _ 100] rhe_of_int [of 100] by (metis of_int_numeral)
qed

lemma health_score_range:
  fixes rb kb kl f g rw cr za zv
  defines "score \<equiv> fst (calculate_health_score rb kb kl f g rw cr za zv)"
  shows "0 \<le> score" "score \<le> 100"
proof -
  let ?cs = "health_components rb kb kl f g rw cr za zv"
  have "?cs \<noteq> []" by (simp add: health_components_def)
  moreover have "\<forall>c \<in> set ?cs. 0 \<le> c \<and> c \<le> 100" using health_components_range by blast
  moreover have "score = rhe (fdiv (of_int (sum_list ?cs)) (of_nat (length ?cs)))"
    by (simp add: score_def calculate_health_score_def Let_def)
  ultimately show "0 \<le> score" "score \<le> 100" using mean_range by metis+
qed

lemma shortage_never_raises_score:
  "fst (calculate_health_score rb kb kl f g rw True za zv) \<le>
   fst (calculate_health_score rb kb kl f g rw False za zv)"
proof -
  obtain p cs where c: "health_components rb kb kl f g rw True za zv = 20 # cs"
    "health_components rb kb kl f g rw False za zv = p # cs" "20 \<le> p"
    by (simp add: health_components_def)
  have "of_int (20 + sum_list cs) / of_nat (Suc (length cs)) \<le>
      (of_int (p + sum_list cs) / of_nat (Suc (length cs)) :: rat)"
    using c(3) by (intro divide_right_mono) simp_all
  then show ?thesis
    using c unfolding calculate_health_score_def Let_def fdiv_def
    by (simp add: rhe_mono fl.r_mono del: of_nat_Suc of_int_add)
qed

subsection \<open>The daily snapshot\<close>

definition one_per_day :: "nw_snapshot list \<Rightarrow> bool" where
  "one_per_day ns \<longleftrightarrow> distinct (map nw_id ns) \<and> distinct (map (\<lambda>n. (nw_user n, nw_date n)) ns)"

lemma snapshot_values_sel [simp]:
  "nw_id (snapshot_values ck n) = nw_id n" "nw_user (snapshot_values ck n) = nw_user n"
  "nw_ws (snapshot_values ck n) = nw_ws n" "nw_date (snapshot_values ck n) = nw_date n"
  by (simp_all add: snapshot_values_def)

text \<open>The unique key of the table does not know the workspace: once one workspace of a user has its
  row of the day, a request in another gets the exception, and that workspace has no history.\<close>

lemma second_workspace_has_no_snapshot:
  assumes "n \<in> set ns" "nw_user n = u" "nw_date n = today"
    and "\<forall>n \<in> set ns. nw_date n = today \<longrightarrow> nw_ws n \<noteq> Some w"
  shows "ensure_today_snapshot u (Some w) ck today ns = None"
proof -
  have "List.find (\<lambda>n. nw_date n = today \<and> scope_filter u (Some w) (nw_user n) (nw_ws n)) ns = None"
    using assms(4) by (auto simp: find_None_iff scope_filter_def)
  then show ?thesis using assms(1-3) by (auto simp: ensure_today_snapshot_def)
qed

text \<open>Payables enter the full net worth but are not among the drivers: a month in which only a
  personal debt was added shows a change and no driver of it.\<close>

definition ex_snap :: "nat \<Rightarrow> date \<Rightarrow> rat \<Rightarrow> nw_snapshot" where
  "ex_snap i d full = \<lparr>nw_id = i, nw_user = 7, nw_ws = None, nw_date = d, nw_seen = 1000, nw_full = full,
     nw_cash = 1000, nw_card = 0, nw_loan = 0, nw_inv = 0, nw_recv = 0\<rparr>"

lemma drivers_miss_payables:
  "map_option (\<lambda>a. (ar_degisim a, \<Sum>(n, k)\<leftarrow>ar_surucular a. k))
     (calculate_networth_attribution 7 None (Date 2026 3 9)
        [ex_snap 2 (Date 2026 3 1) 1000, ex_snap 3 (Date 2026 3 9) 400]) = Some (- 600, 0)"
  by code_simp

end
