(* ===== verification/Simulation.thy ===== *)
theory Simulation
  imports Actions Debt_Strategy
begin

text \<open>
  The what-if engine, app/simulation_engine.py: the accounts, incomes and debts in scope are copied
  into a world, an action is applied to the copy, and the world is projected forward by the
  recurring incomes, the loan installments, the minimum payments of the cards and the dated
  personal debts; the projection is compared with that of the untouched copy.

  All arithmetic is in floats: \<open>rd\<close> rounds each operation (\<open>fl\<close> for the code, the identity for exact
  arithmetic). The event log is left out. The payload is one that passed the contract of
  \<open>Actions.dogrula\<close>, so its numbers are finite; a number that is not counts as missing.
\<close>

subsection \<open>The world\<close>

record acc_snap =
  sa_id :: nat
  sa_name :: string
  sa_type :: account_type
  sa_balance :: rat
  sa_emanet :: bool
  sa_limit :: "rat option"
  sa_statement_day :: "nat option"
  sa_payment_day :: "nat option"
  sa_monthly :: "rat option"
  sa_remaining :: "nat option"
  sa_rate :: "rat option"
  sa_next :: "date option"
  sa_fund :: "string option"
  sa_lot :: "rat option"
  sa_cost :: "rat option"
  sa_price :: "rat option"

record income_snap =
  si_id :: nat
  si_name :: string
  si_amount :: rat
  si_day :: nat
  si_active :: bool

record debt_snap =
  sd_id :: nat
  sd_counterparty :: string
  sd_direction :: debt_direction
  sd_amount :: rat
  sd_due :: "date option"
  sd_paid :: "date option"

record world =
  w_as_of :: date
  w_accs :: "acc_snap list"
  w_incomes :: "income_snap list"
  w_debts :: "debt_snap list"

definition balance_sum :: "(rat \<Rightarrow> rat) \<Rightarrow> (acc_snap \<Rightarrow> bool) \<Rightarrow> world \<Rightarrow> rat" where
  "balance_sum rd P w = rsum rd (map sa_balance (filter P (w_accs w)))"

definition cash_total :: "(rat \<Rightarrow> rat) \<Rightarrow> world \<Rightarrow> rat" where
  "cash_total rd = balance_sum rd (\<lambda>a. sa_type a = Cash)"

definition card_debt_total :: "(rat \<Rightarrow> rat) \<Rightarrow> world \<Rightarrow> rat" where
  "card_debt_total rd = balance_sum rd (\<lambda>a. sa_type a = Credit_Card)"

definition loan_debt_total :: "(rat \<Rightarrow> rat) \<Rightarrow> world \<Rightarrow> rat" where
  "loan_debt_total rd = balance_sum rd (\<lambda>a. sa_type a = Loan)"

definition investment_value :: "(rat \<Rightarrow> rat) \<Rightarrow> bool \<Rightarrow> world \<Rightarrow> rat" where
  "investment_value rd include_emanet =
     balance_sum rd (\<lambda>a. sa_type a = Investment \<and> (include_emanet \<or> \<not> sa_emanet a))"

definition emanet_value :: "(rat \<Rightarrow> rat) \<Rightarrow> world \<Rightarrow> rat" where
  "emanet_value rd = balance_sum rd (\<lambda>a. sa_type a = Investment \<and> sa_emanet a)"

definition sim_net_worth :: "(rat \<Rightarrow> rat) \<Rightarrow> world \<Rightarrow> rat" where
  "sim_net_worth rd w = rd (rd (rd (cash_total rd w + investment_value rd False w) - card_debt_total rd w)
     - loan_debt_total rd w)"

subsection \<open>Loading\<close>

definition acc_snap_of :: "(rat \<Rightarrow> rat) \<Rightarrow> account \<Rightarrow> acc_snap" where
  "acc_snap_of rd a = \<lparr>sa_id = acc_id a, sa_name = acc_name a, sa_type = acc_type a, sa_balance = rd (acc_balance a),
     sa_emanet = is_emanet a, sa_limit = map_option rd (credit_limit a), sa_statement_day = statement_day a,
     sa_payment_day = payment_day a, sa_monthly = map_option rd (monthly_payment a),
     sa_remaining = remaining_installments a, sa_rate = map_option rd (interest_rate a),
     sa_next = next_payment_date a, sa_fund = fund_code a, sa_lot = map_option rd (lot_count a),
     sa_cost = map_option rd (cost_per_lot a), sa_price = map_option rd (current_price a)\<rparr>"

definition load_world :: "(rat \<Rightarrow> rat) \<Rightarrow> nat \<Rightarrow> nat option \<Rightarrow> date \<Rightarrow> db \<Rightarrow> world" where
  "load_world rd u w as_of s =
     \<lparr>w_as_of = as_of,
      w_accs = map (acc_snap_of rd) (filter (acc_in_scope u w) (accounts s)),
      w_incomes = map (\<lambda>i. \<lparr>si_id = ri_id i, si_name = ri_name i, si_amount = rd (ri_amount i),
          si_day = (if ri_day i = 0 then 1 else ri_day i), si_active = ri_active i\<rparr>)
        (filter (\<lambda>i. scope_filter u w (ri_user i) (ri_ws i)) (incomes s)),
      w_debts = map (\<lambda>d. \<lparr>sd_id = pd_id d, sd_counterparty = counterparty d, sd_direction = direction d,
          sd_amount = rd (pd_amount d), sd_due = due_date d, sd_paid = paid_date d\<rparr>)
        (filter (pd_in_scope u w) (debts s))\<rparr>"

subsection \<open>Applying an action to the copy\<close>

text \<open>The default cash account: the first by id that is not held in trust.\<close>

definition find_default_cash_account :: "world \<Rightarrow> acc_snap option" where
  "find_default_cash_account w =
     List.find (\<lambda>a. sa_type a = Cash \<and> \<not> sa_emanet a) (sort_key sa_id (w_accs w))"

definition world_acc :: "nat option \<Rightarrow> world \<Rightarrow> acc_snap option" where
  "world_acc i w = (case i of None \<Rightarrow> None | Some j \<Rightarrow> find_row sa_id j (w_accs w))"

definition upd_acc :: "nat \<Rightarrow> (acc_snap \<Rightarrow> acc_snap) \<Rightarrow> world \<Rightarrow> world" where
  "upd_acc i f w = w\<lparr>w_accs := upd_row sa_id i f (w_accs w)\<rparr>"

definition add_to :: "(rat \<Rightarrow> rat) \<Rightarrow> rat \<Rightarrow> acc_snap \<Rightarrow> acc_snap" where
  "add_to rd x a = a\<lparr>sa_balance := rd (sa_balance a + x)\<rparr>"

text \<open>\<open>if cash: cash.balance += x\<close>\<close>

definition move_cash :: "(rat \<Rightarrow> rat) \<Rightarrow> rat \<Rightarrow> world \<Rightarrow> world" where
  "move_cash rd x w = (case find_default_cash_account w of None \<Rightarrow> w
     | Some c \<Rightarrow> upd_acc (sa_id c) (add_to rd x) w)"

definition num :: "fnum option \<Rightarrow> rat option" where
  "num v = (case v of None \<Rightarrow> None | Some x \<Rightarrow> parse_finite x)"

definition or0 :: "rat option \<Rightarrow> rat" where
  "or0 v = (case v of None \<Rightarrow> 0 | Some x \<Rightarrow> x)"

datatype sim_error = Sim_No_Investment | Sim_Emanet | Sim_Bad_Lots | Sim_No_Price | Sim_No_Cash
  | Sim_Emanet_Target | Sim_No_Account | Sim_Bad_Type | Sim_No_Debt | Sim_Already_Paid
  | Sim_Unsupported | Sim_Missing_Field

text \<open>The account named by the payload, or the default one; \<open>0\<close> counts as not given.\<close>

definition target_of :: "nat option \<Rightarrow> world \<Rightarrow> acc_snap option" where
  "target_of i w = (if i = None \<or> i = Some 0 then find_default_cash_account w else world_acc i w)"

definition sim_sell :: "(rat \<Rightarrow> rat) \<Rightarrow> payload \<Rightarrow> world \<Rightarrow> sim_error + world" where
  "sim_sell rd p w =
     (case world_acc (p_investment_id p) w of None \<Rightarrow> Inl Sim_No_Investment
      | Some yat \<Rightarrow>
          if sa_emanet yat then Inl Sim_Emanet
          else (case num (p_lots_to_sell p) of None \<Rightarrow> Inl Sim_Missing_Field
            | Some lots \<Rightarrow>
                if lots \<le> 0 \<or> or0 (sa_lot yat) < lots then Inl Sim_Bad_Lots
                else (let price = (case num (p_actual_price p) of Some x \<Rightarrow> x | None \<Rightarrow> or0 (sa_price yat)) in
                  if price \<le> 0 then Inl Sim_No_Price
                  else (let gross = rd (lots * price); cost = rd (lots * or0 (sa_cost yat));
                            profit = rd (gross - cost); withholding = rd (max 0 profit * rd (175 / 1000));
                            net = rd (gross - withholding); left = rd (or0 (sa_lot yat) - lots);
                            w1 = upd_acc (sa_id yat) (\<lambda>a. a\<lparr>sa_lot := Some left, sa_price := Some price,
                              sa_balance := rd (left * price)\<rparr>) w
                    in case target_of (p_credit_to_account_id p) w1 of None \<Rightarrow> Inl Sim_No_Cash
                       | Some target \<Rightarrow>
                           if sa_emanet target then Inl Sim_Emanet_Target
                           else Inr (upd_acc (sa_id target) (add_to rd net) w1)))))"

definition sim_add_transaction :: "(rat \<Rightarrow> rat) \<Rightarrow> payload \<Rightarrow> world \<Rightarrow> sim_error + world" where
  "sim_add_transaction rd p w =
     (let given = (p_account_id p \<noteq> None \<and> p_account_id p \<noteq> Some 0) in
      case num (p_amount p) of None \<Rightarrow> Inl Sim_Missing_Field
      | Some amt \<Rightarrow> (case target_of (p_account_id p) w of None \<Rightarrow> Inl Sim_No_Account
        | Some target \<Rightarrow>
            if given \<and> sa_emanet target then Inl Sim_Emanet
            else (case txn_type_of (case p_transaction_type p of None \<Rightarrow> ''expense'' | Some t \<Rightarrow> t) of
                None \<Rightarrow> Inl Sim_Bad_Type
              | Some ttype \<Rightarrow>
                  if p_auto_update_balance p = Some True \<and> given then
                    (let card = (sa_type target = Credit_Card);
                         x = (case ttype of Income \<Rightarrow> if card then - amt else amt
                              | Expense \<Rightarrow> if card then amt else - amt | Transfer \<Rightarrow> 0)
                     in Inr (if ttype = Transfer then w else upd_acc (sa_id target) (add_to rd x) w))
                  else Inr w)))"

definition sim_update_balance :: "payload \<Rightarrow> world \<Rightarrow> sim_error + world" where
  "sim_update_balance p w =
     (case world_acc (p_account_id p) w of None \<Rightarrow> Inl Sim_No_Account
      | Some target \<Rightarrow>
          if sa_emanet target then Inl Sim_Emanet
          else (case num (p_new_balance p) of None \<Rightarrow> Inl Sim_Missing_Field
            | Some x \<Rightarrow> Inr (upd_acc (sa_id target) (\<lambda>a. a\<lparr>sa_balance := x\<rparr>) w)))"

definition settle_snap :: "(rat \<Rightarrow> rat) \<Rightarrow> debt_snap \<Rightarrow> date \<Rightarrow> world \<Rightarrow> world" where
  "settle_snap rd d t w =
     (let w' = move_cash rd (if sd_direction d = Receivable then sd_amount d else - sd_amount d) w
      in w'\<lparr>w_debts := upd_row sd_id (sd_id d) (\<lambda>d. d\<lparr>sd_paid := Some t\<rparr>) (w_debts w')\<rparr>)"

definition sim_mark_paid :: "(rat \<Rightarrow> rat) \<Rightarrow> payload \<Rightarrow> world \<Rightarrow> sim_error + world" where
  "sim_mark_paid rd p w =
     (case p_debt_id p of None \<Rightarrow> Inl Sim_No_Debt
      | Some i \<Rightarrow> (case find_row sd_id i (w_debts w) of None \<Rightarrow> Inl Sim_No_Debt
        | Some d \<Rightarrow> if sd_paid d \<noteq> None then Inl Sim_Already_Paid else Inr (settle_snap rd d (w_as_of w) w)))"

definition sim_update_price :: "(rat \<Rightarrow> rat) \<Rightarrow> payload \<Rightarrow> world \<Rightarrow> sim_error + world" where
  "sim_update_price rd p w =
     (case world_acc (p_account_id p) w of None \<Rightarrow> Inl Sim_No_Account
      | Some target \<Rightarrow> (case num (p_new_price p) of None \<Rightarrow> Inl Sim_Missing_Field
        | Some x \<Rightarrow> Inr (upd_acc (sa_id target)
            (\<lambda>a. a\<lparr>sa_price := Some x, sa_balance := rd (or0 (sa_lot a) * x)\<rparr>) w)))"

definition apply_action :: "(rat \<Rightarrow> rat) \<Rightarrow> action_type \<Rightarrow> payload \<Rightarrow> world \<Rightarrow> sim_error + world" where
  "apply_action rd ty p w = (case ty of
     Sell_Investment \<Rightarrow> sim_sell rd p w
   | Add_Transaction \<Rightarrow> sim_add_transaction rd p w
   | Update_Account_Balance \<Rightarrow> sim_update_balance p w
   | Mark_Debt_Paid \<Rightarrow> sim_mark_paid rd p w
   | Update_Fund_Price \<Rightarrow> sim_update_price rd p w
   | _ \<Rightarrow> Inl Sim_Unsupported)"

subsection \<open>The projection\<close>

text \<open>The pay days of an income in \<open>(start, fin]\<close>; the cursor starts at \<open>start\<close> and moves on to the
  first of the next month.\<close>

definition first_of_next :: "date \<Rightarrow> date" where
  "first_of_next cursor =
     (let (y, m) = (if 12 < month cursor + 1 then (year cursor + 1, 1) else (year cursor, month cursor + 1))
      in Date y m 1)"

function income_walk :: "date \<Rightarrow> date \<Rightarrow> date \<Rightarrow> nat \<Rightarrow> date list" where
  "income_walk cursor start fin dm =
     (if cursor \<le> fin then
        (let pay = Date (year cursor) (month cursor) (min dm (month_len (year cursor) (month cursor)))
         in (if start < pay \<and> pay \<le> fin then [pay] else []) @ income_walk (first_of_next cursor) start fin dm)
      else [])"
  by pat_completeness auto
termination
  by (relation "measure (\<lambda>(cur, start, fin, dm). (year fin + 1 - year cur) * 14 + (13 - month cur))")
    (auto simp: less_eq_date_def first_of_next_def)

declare income_walk.simps [simp del]

definition project_income :: "(rat \<Rightarrow> rat) \<Rightarrow> date \<Rightarrow> date \<Rightarrow> income_snap \<Rightarrow> world \<Rightarrow> world" where
  "project_income rd start fin i w =
     (if si_active i then fold (\<lambda>_. move_cash rd (si_amount i)) (income_walk start start fin (si_day i)) w else w)"

definition interest_of :: "(rat \<Rightarrow> rat) \<Rightarrow> acc_snap \<Rightarrow> rat" where
  "interest_of rd a = rd (sa_balance a * rd (or0 (sa_rate a) / 100))"

text \<open>One installment: cash, then interest first and the rest off the balance.\<close>

definition loan_step :: "(rat \<Rightarrow> rat) \<Rightarrow> rat \<Rightarrow> acc_snap \<Rightarrow> acc_snap" where
  "loan_step rd m a = a\<lparr>sa_balance := max 0 (rd (rd (sa_balance a + interest_of rd a) - m)),
     sa_remaining := (case sa_remaining a of None \<Rightarrow> None | Some r \<Rightarrow> Some (r - 1))\<rparr>"

definition project_loan :: "(rat \<Rightarrow> rat) \<Rightarrow> date \<Rightarrow> date \<Rightarrow> acc_snap \<Rightarrow> world \<Rightarrow> world" where
  "project_loan rd start fin a w =
     (if sa_type a \<noteq> Loan \<or> or0 (sa_monthly a) = 0 then w
      else fold (\<lambda>_ w. upd_acc (sa_id a) (loan_step rd (or0 (sa_monthly a))) (move_cash rd (- or0 (sa_monthly a)) w))
        (next_payment_in_window (sa_next a) start fin) w)"

text \<open>One minimum payment of a card, \<open>None\<close> when the debt is gone: the payment and the new balance.\<close>

definition card_step :: "(rat \<Rightarrow> rat) \<Rightarrow> acc_snap \<Rightarrow> (rat \<times> rat) option" where
  "card_step rd a =
     (if sa_balance a \<le> kurus then None
      else (let b = rd (sa_balance a + interest_of rd a); pay = min (max (rd (b * (1/4))) 50) b
            in Some (pay, max 0 (rd (b - pay)))))"

fun card_walk :: "(rat \<Rightarrow> rat) \<Rightarrow> nat \<Rightarrow> date list \<Rightarrow> world \<Rightarrow> world" where
  "card_walk rd i [] w = w"
| "card_walk rd i (d # ds) w =
     (case find_row sa_id i (w_accs w) of None \<Rightarrow> w
      | Some a \<Rightarrow> (case card_step rd a of None \<Rightarrow> w
        | Some (pay, b) \<Rightarrow> card_walk rd i ds (upd_acc i (\<lambda>a. a\<lparr>sa_balance := b\<rparr>) (move_cash rd (- pay) w))))"

definition project_card :: "(rat \<Rightarrow> rat) \<Rightarrow> date \<Rightarrow> date \<Rightarrow> acc_snap \<Rightarrow> world \<Rightarrow> world" where
  "project_card rd start fin a w =
     (case sa_payment_day a of
        Some pd \<Rightarrow>
          if sa_type a \<noteq> Credit_Card \<or> sa_balance a \<le> kurus \<or> pd = 0 then w
          else card_walk rd (sa_id a) (next_payment_in_window
            (Some (Date (year start) (month start) (min pd (month_len (year start) (month start))))) start fin) w
      | None \<Rightarrow> w)"

definition project_debt :: "(rat \<Rightarrow> rat) \<Rightarrow> date \<Rightarrow> date \<Rightarrow> debt_snap \<Rightarrow> world \<Rightarrow> world" where
  "project_debt rd start fin d w =
     (case (sd_paid d, sd_due d) of
        (None, Some t) \<Rightarrow> if start < t \<and> t \<le> fin then settle_snap rd d t w else w
      | _ \<Rightarrow> w)"

definition project_forward :: "(rat \<Rightarrow> rat) \<Rightarrow> nat \<Rightarrow> world \<Rightarrow> world" where
  "project_forward rd days w =
     (let start = w_as_of w; fin = add_days start days;
          w1 = fold (project_income rd start fin) (w_incomes w) w;
          w2 = fold (project_loan rd start fin) (w_accs w1) w1;
          w3 = fold (project_card rd start fin) (w_accs w2) w2;
          w4 = fold (project_debt rd start fin) (w_debts w3) w3
      in w4\<lparr>w_as_of := fin\<rparr>)"

subsection \<open>The comparison\<close>

record sim_totals =
  st_nakit :: rat
  st_kart :: rat
  st_kredi :: rat
  st_yatirim :: rat
  st_emanet :: rat
  st_net :: rat

record sim_row =
  sr_id :: nat
  sr_ad :: string
  sr_tip :: account_type
  sr_bakiye :: rat
  sr_emanet :: bool
  sr_lot :: "rat option"
  sr_fiyat :: "rat option"
  sr_kalan :: "nat option"

record sim_snapshot =
  ss_day :: nat
  ss_as_of :: date
  ss_totals :: sim_totals
  ss_rows :: "sim_row list"

definition round2 :: "(rat \<Rightarrow> rat) \<Rightarrow> rat \<Rightarrow> rat" where
  "round2 rd x = rd (qhe 2 x)"

definition snapshot_to_dict :: "(rat \<Rightarrow> rat) \<Rightarrow> nat \<Rightarrow> world \<Rightarrow> sim_snapshot" where
  "snapshot_to_dict rd label w =
     \<lparr>ss_day = label, ss_as_of = w_as_of w,
      ss_totals = \<lparr>st_nakit = round2 rd (cash_total rd w), st_kart = round2 rd (card_debt_total rd w),
        st_kredi = round2 rd (loan_debt_total rd w), st_yatirim = round2 rd (investment_value rd False w),
        st_emanet = round2 rd (emanet_value rd w), st_net = round2 rd (sim_net_worth rd w)\<rparr>,
      ss_rows = map (\<lambda>a. \<lparr>sr_id = sa_id a, sr_ad = sa_name a, sr_tip = sa_type a,
        sr_bakiye = round2 rd (sa_balance a), sr_emanet = sa_emanet a, sr_lot = sa_lot a, sr_fiyat = sa_price a,
        sr_kalan = sa_remaining a\<rparr>) (w_accs w)\<rparr>"

definition delta :: "(rat \<Rightarrow> rat) \<Rightarrow> sim_totals \<Rightarrow> sim_totals \<Rightarrow> sim_totals" where
  "delta rd b a = (let d = (\<lambda>f. round2 rd (rd (f a - f b))) in
     \<lparr>st_nakit = d st_nakit, st_kart = d st_kart, st_kredi = d st_kredi, st_yatirim = d st_yatirim,
      st_emanet = d st_emanet, st_net = d st_net\<rparr>)"

text \<open>The horizons after T+0: the world moves on from horizon to horizon, the baseline is projected
  from today in one go.\<close>

fun horizon_walk ::
  "(rat \<Rightarrow> rat) \<Rightarrow> world \<Rightarrow> nat \<Rightarrow> nat list \<Rightarrow> world \<Rightarrow> (sim_snapshot \<times> sim_totals) list" where
  "horizon_walk rd base0 last_day [] w = []"
| "horizon_walk rd base0 last_day (h # hs) w =
     (let w' = project_forward rd (h - last_day) w; snap = snapshot_to_dict rd h w';
          base = snapshot_to_dict rd h (project_forward rd h base0)
      in (snap, delta rd (ss_totals base) (ss_totals snap)) # horizon_walk rd base0 h hs w')"

record simulation =
  sm_ok :: "sim_error option"
  sm_baseline :: sim_snapshot
  sm_snapshots :: "(sim_snapshot \<times> sim_totals) list"
  sm_comparison :: "sim_totals option"

definition simulate_action ::
  "(rat \<Rightarrow> rat) \<Rightarrow> nat \<Rightarrow> nat option \<Rightarrow> db \<Rightarrow> action_type \<Rightarrow> payload \<Rightarrow> nat list \<Rightarrow> date \<Rightarrow> simulation" where
  "simulate_action rd u ws s ty p horizons today =
     (let base0 = load_world rd u ws today s; maxh = fold max horizons 0;
          baseline = snapshot_to_dict rd maxh (if 0 < maxh then project_forward rd maxh base0 else base0)
      in case apply_action rd ty p base0 of
           Inl e \<Rightarrow> \<lparr>sm_ok = Some e, sm_baseline = baseline, sm_snapshots = [], sm_comparison = None\<rparr>
         | Inr w \<Rightarrow>
             (let hs = sorted_list_of_set (set horizons);
                  snap0 = snapshot_to_dict rd 0 w; base_t0 = snapshot_to_dict rd 0 base0;
                  snaps = (if 0 \<in> set hs then [(snap0, delta rd (ss_totals base_t0) (ss_totals snap0))] else []) @
                    horizon_walk rd base0 0 (filter (\<lambda>h. h \<noteq> 0) hs) w
              in \<lparr>sm_ok = None, sm_baseline = baseline, sm_snapshots = snaps,
                  sm_comparison = map_option snd (List.find (\<lambda>x. ss_day (fst x) = 30) snaps)\<rparr>))"

end
