(* ===== verification/Simulation_Laws.thy ===== *)
theory Simulation_Laws
  imports Simulation
begin

text \<open>
  The projection of app/simulation_engine.py composes: in exact arithmetic projecting by
  \<open>m\<close> days and then by \<open>n\<close> is projecting by \<open>m + n\<close>, so the horizons the code chains agree with the
  baseline it projects in one go, when every card is due on a day all months have. The last
  section shows what the condition is for, and what the engine does to a loan that is paid off.
\<close>

subsection \<open>Days of the windows\<close>

lemma valid_first_of_next:
  "valid_date c \<Longrightarrow> valid_date (first_of_next c) \<and> day (first_of_next c) = 1"
  by (auto simp: first_of_next_def valid_date_def)

lemma income_walk_month_walk:
  assumes "valid_date c" "day c = 1 \<or> c \<le> fin"
  shows "income_walk c start fin dm = filter (\<lambda>d. start < d) (month_walk (Date (year c) (month c) 1) start fin dm)"
  using assms
proof (induction c start fin dm rule: income_walk.induct)
  case (1 c start fin dm)
  let ?f = "Date (year c) (month c) 1" and ?n = "first_of_next c"
  have n: "Date (year ?f + (if month ?f = 12 then 1 else 0)) (month ?f mod 12 + 1) 1 = ?n"
    using "1.prems"(1) by (cases "month c = 12") (simp_all add: first_of_next_def valid_date_def)
  have nn: "Date (year ?n) (month ?n) 1 = ?n" by (auto simp: first_of_next_def)
  show ?case
  proof (cases "c \<le> fin")
    case True
    let ?p = "Date (year c) (month c) (min dm (month_len (year c) (month c)))"
    from True have "?f \<le> fin" using first_of_month_le [OF "1.prems"(1)] by (rule order_trans [rotated])
    then have "month_walk ?f start fin dm = (if start \<le> ?p \<and> ?p \<le> fin then ?p # month_walk ?n start fin dm
        else month_walk ?n start fin dm)"
      unfolding month_walk.simps [of ?f] Let_def n [symmetric] by simp
    moreover have "income_walk c start fin dm =
        (if start < ?p \<and> ?p \<le> fin then [?p] else []) @ filter (\<lambda>d. start < d) (month_walk ?n start fin dm)"
      using "1.IH" [OF True refl] valid_first_of_next [OF "1.prems"(1)] True nn
      by (simp add: income_walk.simps [of c] Let_def)
    ultimately show ?thesis by auto
  next
    case False
    then have "\<not> ?f \<le> fin" using "1.prems"(2) by (metis date.collapse)
    with False show ?thesis unfolding income_walk.simps [of c] month_walk.simps [of ?f] by simp
  qed
qed

lemma income_days:
  assumes "valid_date start" "1 \<le> dm" "start \<le> fin"
  shows "set (income_walk start start fin dm) = {d. valid_date d \<and> on_day dm d \<and> start < d \<and> d \<le> fin}"
    and "distinct (income_walk start start fin dm)"
proof -
  have e: "income_walk start start fin dm = filter (\<lambda>d. start < d) (month_occurrences start fin dm)"
    using income_walk_month_walk [of start fin start dm] assms by (simp add: month_occurrences_def)
  show "set (income_walk start start fin dm) = {d. valid_date d \<and> on_day dm d \<and> start < d \<and> d \<le> fin}"
    unfolding e set_filter set_month_occurrences [OF assms(1,2)]
    by (intro set_eqI iffI) (simp_all add: order_less_imp_le)
  have "sorted_wrt (<) (income_walk start start fin dm)"
    unfolding e by (rule sorted_wrt_filter [OF sorted_month_occurrences [OF assms(1,2)]])
  then show "distinct (income_walk start start fin dm)" by (simp add: strict_sorted_iff)
qed

lemma income_walk_split:
  assumes "valid_date start" "valid_date mid" "1 \<le> dm" "start \<le> mid" "mid \<le> fin"
  shows "length (income_walk start start fin dm) =
    length (income_walk start start mid dm) + length (income_walk mid mid fin dm)"
proof -
  note A = income_days [OF assms(1,3), of fin] and B = income_days [OF assms(1,3), of mid]
    and C = income_days [OF assms(2,3), of fin]
  have fs: "start \<le> fin" using assms by simp
  have "set (income_walk start start fin dm) =
      set (income_walk start start mid dm) \<union> set (income_walk mid mid fin dm)"
    unfolding A(1) [OF fs] B(1) [OF assms(4)] C(1) [OF assms(5)]
    using assms(4,5) by (auto dest: leI)
  moreover have "set (income_walk start start mid dm) \<inter> set (income_walk mid mid fin dm) = {}"
    unfolding B(1) [OF assms(4)] C(1) [OF assms(5)] by auto
  ultimately show ?thesis
    using distinct_card [OF A(2) [OF fs]] distinct_card [OF B(2) [OF assms(4)]] distinct_card [OF C(2) [OF assms(5)]]
      card_Un_disjoint [OF List.finite_set List.finite_set] by metis
qed

text \<open>A card due on a day every month has is due on the same days whatever month the cursor
  starts in.\<close>

lemma card_days_shift:
  assumes "valid_date c" "day c \<le> 28" "valid_date mid" "month_index c \<le> month_index mid" "mid \<le> fin"
  shows "payment_walk c mid fin = payment_walk (Date (year mid) (month mid) (day c)) mid fin"
  using assms(1,2,4)
proof (induction "month_index mid - month_index c" arbitrary: c)
  case 0
  then have "month_index c = month_index mid" by simp
  then have "year c = year mid \<and> month c = month mid"
    using same_month_index [OF _ 0(2) assms(3)] by simp
  then have "c = Date (year mid) (month mid) (day c)" by (metis date.collapse)
  then show ?case by simp
next
  case (Suc k)
  have lt: "month_index c < month_index mid" using Suc(2) by simp
  then have "c < mid" using Suc(3) assms(3) by (intro month_index_less) (simp_all add: valid_date_def)
  then have c: "c \<le> fin" "\<not> mid < c" using assms(5) by auto
  have s: "month_index (cursor_step c) = Suc (month_index c)" "valid_date (cursor_step c)"
    using Suc(3) by (simp_all add: cursor_step_eq month_index_add_months valid_add_months)
  have len: "28 \<le> month_len y m" for y m by (simp add: month_len_def)
  have d: "day (cursor_step c) = day c"
    using Suc(4) le_trans [OF Suc(4) len] by (auto simp: cursor_step_def min_absorb1)
  have "payment_walk c mid fin = payment_walk (cursor_step c) mid fin"
    using c by (simp add: payment_walk.simps [of c])
  also have "\<dots> = payment_walk (Date (year mid) (month mid) (day c)) mid fin"
    using Suc(1) [of "cursor_step c"] Suc(2,4) s lt d by simp
  finally show ?case .
qed

subsection \<open>The cash account\<close>

text \<open>Which account is the default one depends on the accounts' shape only: id, type and trust.\<close>

definition shape :: "acc_snap \<Rightarrow> nat \<times> account_type \<times> bool" where
  "shape a = (sa_id a, sa_type a, sa_emanet a)"

definition cash_id :: "world \<Rightarrow> nat option" where
  "cash_id w = map_option sa_id (find_default_cash_account w)"

lemma map_insort_key: "map h (insort_key (\<lambda>x. g (h x)) x xs) = insort_key g (h x) (map h xs)"
  by (induction xs) simp_all

lemma map_sort_key: "map h (sort_key (\<lambda>x. g (h x)) xs) = sort_key g (map h xs)"
  by (induction xs) (simp_all add: map_insort_key)

lemma find_map_shape: "map_option h (List.find (\<lambda>x. P (h x)) xs) = List.find P (map h xs)"
  by (induction xs) simp_all

lemma cash_id_shape:
  "cash_id w = map_option fst (List.find (\<lambda>(i, ty, e). ty = Cash \<and> \<not> e) (sort_key fst (map shape (w_accs w))))"
proof -
  have "map shape (sort_key sa_id (w_accs w)) = sort_key fst (map shape (w_accs w))"
    using map_sort_key [of shape fst] by (simp add: shape_def)
  then have "List.find (\<lambda>(i, ty, e). ty = Cash \<and> \<not> e) (sort_key fst (map shape (w_accs w))) =
      map_option shape (find_default_cash_account w)"
    using find_map_shape [of shape "\<lambda>(i, ty, e). ty = Cash \<and> \<not> e" "sort_key sa_id (w_accs w)"]
    by (simp add: find_default_cash_account_def shape_def)
  then show ?thesis by (simp add: cash_id_def option.map_comp o_def shape_def)
qed

lemma cash_id_cong: "map shape (w_accs w') = map shape (w_accs w) \<Longrightarrow> cash_id w' = cash_id w"
  by (simp add: cash_id_shape)

lemma cash_id_is_cash:
  assumes "cash_id w = Some i" "distinct (map sa_id (w_accs w))" "a \<in> set (w_accs w)" "sa_id a = i"
  shows "sa_type a = Cash"
proof -
  from assms(1) obtain c where c: "find_default_cash_account w = Some c" "sa_id c = i"
    by (auto simp: cash_id_def)
  then have "c \<in> set (w_accs w)" "sa_type c = Cash"
    unfolding find_default_cash_account_def by (auto dest!: find_Some_prop)
  moreover from this assms(2-4) c(2) have "a = c" by (auto simp: distinct_map dest: inj_onD)
  ultimately show ?thesis by simp
qed

subsection \<open>The effect of a projection\<close>

text \<open>An effect: every account changes by \<open>f\<close>, the cash account \<open>c\<close> also by \<open>x\<close>, the debts by \<open>g\<close>.\<close>

definition effect ::
  "nat option \<Rightarrow> (acc_snap \<Rightarrow> acc_snap) \<Rightarrow> rat \<Rightarrow> (debt_snap \<Rightarrow> debt_snap) \<Rightarrow> world \<Rightarrow> world" where
  "effect c f x g w = w\<lparr>
     w_accs := map (\<lambda>a. if c = Some (sa_id a) then (f a)\<lparr>sa_balance := sa_balance (f a) + x\<rparr> else f a) (w_accs w),
     w_debts := map g (w_debts w)\<rparr>"

text \<open>The functions \<open>f\<close> that arise keep the shape of an account and leave the cash account alone.\<close>

definition quiet :: "nat option \<Rightarrow> (acc_snap \<Rightarrow> acc_snap) \<Rightarrow> bool" where
  "quiet c f \<longleftrightarrow> (\<forall>a. shape (f a) = shape a \<and> (c = Some (sa_id a) \<longrightarrow> f a = a))"

lemma quiet_id [simp]: "quiet c id" "quiet c (\<lambda>a. a)"
  by (simp_all add: quiet_def)

lemma quiet_comp: "quiet c f \<Longrightarrow> quiet c g \<Longrightarrow> quiet c (\<lambda>a. g (f a))"
  by (simp add: quiet_def)

lemma quietD: "quiet c f \<Longrightarrow> sa_id (f a) = sa_id a \<and> sa_type (f a) = sa_type a \<and> sa_emanet (f a) = sa_emanet a"
  by (simp add: quiet_def shape_def)

lemma effect_sel [simp]:
  "w_as_of (effect c f x g w) = w_as_of w" "w_incomes (effect c f x g w) = w_incomes w"
  "w_debts (effect c f x g w) = map g (w_debts w)"
  by (simp_all add: effect_def)

lemma effect_accs:
  "w_accs (effect c f x g w) =
     map (\<lambda>a. if c = Some (sa_id a) then (f a)\<lparr>sa_balance := sa_balance (f a) + x\<rparr> else f a) (w_accs w)"
  by (simp add: effect_def)

lemma shape_effect: "quiet d f \<Longrightarrow> map shape (w_accs (effect c f x g w)) = map shape (w_accs w)"
  by (auto simp: effect_def quiet_def shape_def)

lemma cash_id_effect: "quiet d f \<Longrightarrow> cash_id (effect c f x g w) = cash_id w"
  by (rule cash_id_cong [OF shape_effect])

lemma ids_shape: "map sa_id xs = map fst (map shape xs)"
  by (simp add: shape_def o_def)

lemma ids_effect: "quiet d f \<Longrightarrow> map sa_id (w_accs (effect c f x g w)) = map sa_id (w_accs w)"
  by (simp only: ids_shape shape_effect)

lemma effect_effect:
  assumes "quiet c f" "quiet c f'"
  shows "effect c f' x' g' (effect c f x g w) = effect c (\<lambda>a. f' (f a)) (x + x') (\<lambda>d. g' (g d)) w"
proof -
  have "(\<lambda>a. if c = Some (sa_id a) then (f' a)\<lparr>sa_balance := sa_balance (f' a) + x'\<rparr> else f' a)
      (if c = Some (sa_id a) then (f a)\<lparr>sa_balance := sa_balance (f a) + x\<rparr> else f a) =
    (if c = Some (sa_id a) then (f' (f a))\<lparr>sa_balance := sa_balance (f' (f a)) + (x + x')\<rparr> else f' (f a))" for a
  proof (cases "c = Some (sa_id a)")
    case True
    have "f a = a" "f' a = a" "f' (a\<lparr>sa_balance := sa_balance a + x\<rparr>) = a\<lparr>sa_balance := sa_balance a + x\<rparr>"
      using assms True by (simp_all add: quiet_def)
    with True show ?thesis by simp
  next
    case False
    with quietD [OF assms(1), of a] show ?thesis by simp
  qed
  then show ?thesis unfolding effect_def by (simp add: comp_def cong: if_cong)
qed

lemma effect_cong:
  assumes "\<And>a. a \<in> set (w_accs w) \<Longrightarrow> f a = f' a" "x = x'" "\<And>d. d \<in> set (w_debts w) \<Longrightarrow> g d = g' d"
  shows "effect c f x g w = effect c f' x' g' w"
  using assms unfolding effect_def by (simp cong: map_cong)

lemma effect_as_of: "effect c f x g (w\<lparr>w_as_of := t\<rparr>) = (effect c f x g w)\<lparr>w_as_of := t\<rparr>"
  by (simp add: effect_def)

lemma effect_none [simp]: "effect c (\<lambda>a. a) 0 (\<lambda>a. a) w = w"
proof -
  have "map (\<lambda>a. if c = Some (sa_id a) then a\<lparr>sa_balance := sa_balance a + 0\<rparr> else a) xs = xs" for xs :: "acc_snap list"
    by (induction xs) simp_all
  then show ?thesis by (simp add: effect_def)
qed

lemma move_cash_effect: "move_cash (\<lambda>a. a) x w = effect (cash_id w) (\<lambda>a. a) x (\<lambda>a. a) w"
proof (cases "find_default_cash_account w")
  case None
  then show ?thesis by (simp add: move_cash_def cash_id_def effect_def)
next
  case (Some c)
  have "(Some (sa_id c) = Some (sa_id a)) = (sa_id a = sa_id c)" for a by auto
  with Some show ?thesis
    by (simp add: move_cash_def cash_id_def effect_def upd_acc_def upd_row_def add_to_def)
qed

definition on :: "nat \<Rightarrow> (acc_snap \<Rightarrow> acc_snap) \<Rightarrow> acc_snap \<Rightarrow> acc_snap" where
  "on i h a = (if sa_id a = i then h a else a)"

lemma upd_acc_effect: "c \<noteq> Some i \<Longrightarrow> upd_acc i h w = effect c (on i h) 0 (\<lambda>a. a) w"
  by (auto simp: upd_acc_def upd_row_def effect_def on_def)

lemma quiet_on: "c \<noteq> Some i \<Longrightarrow> (\<And>a. shape (h a) = shape a) \<Longrightarrow> quiet c (on i h)"
  by (simp add: quiet_def on_def)

text \<open>The rows of \<open>xs\<close> that satisfy \<open>P\<close> are each updated by their own function.\<close>

definition by_row ::
  "(acc_snap \<Rightarrow> bool) \<Rightarrow> (acc_snap \<Rightarrow> acc_snap \<Rightarrow> acc_snap) \<Rightarrow> acc_snap list \<Rightarrow> acc_snap \<Rightarrow> acc_snap" where
  "by_row P h xs b = (case find_row sa_id (sa_id b) xs of None \<Rightarrow> b | Some a \<Rightarrow> if P a then h a b else b)"

lemma quiet_by_row:
  assumes "\<And>a b. shape (h a b) = shape b" "\<And>a. a \<in> set xs \<Longrightarrow> P a \<Longrightarrow> c \<noteq> Some (sa_id a)"
  shows "quiet c (by_row P h xs)"
proof (unfold quiet_def, intro allI conjI impI)
  fix a show "shape (by_row P h xs a) = shape a"
    using assms(1) by (simp add: by_row_def split: option.split)
  assume c: "c = Some (sa_id a)"
  have "\<not> P r" if "find_row sa_id (sa_id a) xs = Some r" for r
    using assms(2) [OF find_row_Some_in [OF that]] find_row_Some_key [OF that] c by auto
  then show "by_row P h xs a = a" by (simp add: by_row_def split: option.split)
qed

lemma fold_by_row:
  assumes step: "\<And>a w. a \<in> set xs \<Longrightarrow> P a \<Longrightarrow> cash_id w = c \<Longrightarrow> distinct (map sa_id (w_accs w)) \<Longrightarrow>
      find_row sa_id (sa_id a) (w_accs w) = Some a \<Longrightarrow> T a w = effect c (on (sa_id a) (h a)) (x a) (\<lambda>a. a) w"
    and skip: "\<And>a w. a \<in> set xs \<Longrightarrow> \<not> P a \<Longrightarrow> T a w = w"
    and h: "\<And>a b. shape (h a b) = shape b"
    and c: "\<And>a. a \<in> set xs \<Longrightarrow> P a \<Longrightarrow> c \<noteq> Some (sa_id a)"
    and "cash_id w = c" "distinct (map sa_id (w_accs w))" "distinct (map sa_id xs)"
    and "\<And>a. a \<in> set xs \<Longrightarrow> P a \<Longrightarrow> find_row sa_id (sa_id a) (w_accs w) = Some a"
  shows "fold T xs w = effect c (by_row P h xs) (\<Sum>a\<leftarrow>xs. if P a then x a else 0) (\<lambda>a. a) w"
  using assms
proof (induction xs arbitrary: w)
  case Nil
  then show ?case by (simp add: by_row_def)
next
  case (Cons a xs)
  have IH: "fold T xs w' = effect c (by_row P h xs) (\<Sum>a\<leftarrow>xs. if P a then x a else 0) (\<lambda>a. a) w'"
    if "cash_id w' = c" "distinct (map sa_id (w_accs w'))"
      "\<And>b. b \<in> set xs \<Longrightarrow> P b \<Longrightarrow> find_row sa_id (sa_id b) (w_accs w') = Some b" for w'
    by (rule Cons.IH) (use Cons.prems that in auto)
  have q: "quiet c (by_row P h xs)" by (rule quiet_by_row) (use Cons.prems in auto)
  have key: "by_row P h xs (h a b) = h a b" if "sa_id b = sa_id a" for b
  proof -
    have "sa_id (h a b) = sa_id a" using Cons.prems(3) [of a b] that by (simp add: shape_def)
    moreover have "find_row sa_id (sa_id a) xs = None" using Cons.prems(7) by (simp add: find_row_None_iff)
    ultimately show ?thesis by (simp add: by_row_def)
  qed
  show ?case
  proof (cases "P a")
    case False
    have "by_row P h (a # xs) b = by_row P h xs b" for b
      using False Cons.prems(7) find_row_None_iff [of sa_id "sa_id a" xs] by (auto simp: by_row_def)
    then show ?thesis using False Cons.prems(2) [of a] IH [of w] Cons.prems by (simp cong: effect_cong)
  next
    case True
    let ?w = "effect c (on (sa_id a) (h a)) (x a) (\<lambda>a. a) w"
    have ne: "c \<noteq> Some (sa_id a)" using Cons.prems(4) True by simp
    have qa: "quiet c (on (sa_id a) (h a))" by (rule quiet_on [OF ne Cons.prems(3)])
    have "T a w = ?w" using Cons.prems True by simp
    moreover have "fold T xs ?w = effect c (by_row P h xs) (\<Sum>a\<leftarrow>xs. if P a then x a else 0) (\<lambda>a. a) ?w"
    proof (rule IH)
      show "cash_id ?w = c" using cash_id_effect [OF qa] Cons.prems(5) by simp
      show "distinct (map sa_id (w_accs ?w))" using ids_effect [OF qa] Cons.prems(6) by simp
      fix b assume b: "b \<in> set xs" "P b"
      have nb: "sa_id b \<noteq> sa_id a" "c \<noteq> Some (sa_id b)" using b Cons.prems by (auto simp: image_iff)
      have "b \<in> set (w_accs w)" using Cons.prems(8) [of b] b find_row_Some_in by simp fast
      then have "b \<in> set (w_accs ?w)" using nb by (force simp: effect_accs on_def image_iff)
      then show "find_row sa_id (sa_id b) (w_accs ?w) = Some b"
        by (rule find_row_distinct [OF \<open>distinct (map sa_id (w_accs ?w))\<close>])
    qed
    moreover have "by_row P h xs (on (sa_id a) (h a) b) = by_row P h (a # xs) b" for b
      using True key [of b] by (auto simp: on_def by_row_def)
    ultimately show ?thesis using True effect_effect [OF qa q] by simp
  qed
qed

subsection \<open>The four passes\<close>

lemma fold_move_cash:
  "fold (\<lambda>_. move_cash (\<lambda>a. a) m) ds w = effect (cash_id w) (\<lambda>a. a) (m * of_nat (length ds)) (\<lambda>a. a) w"
proof (induction ds arbitrary: w)
  case (Cons d ds)
  have q: "quiet (cash_id w) (\<lambda>a. a)" by simp
  show ?case using Cons effect_effect [OF q q] cash_id_effect [OF q, of "cash_id w"]
    by (simp add: move_cash_effect algebra_simps)
qed simp

definition income_cash :: "date \<Rightarrow> date \<Rightarrow> income_snap \<Rightarrow> rat" where
  "income_cash s f i = (if si_active i then si_amount i * of_nat (length (income_walk s s f (si_day i))) else 0)"

lemma fold_incomes:
  "fold (project_income (\<lambda>a. a) s f) is w = effect (cash_id w) (\<lambda>a. a) (\<Sum>i\<leftarrow>is. income_cash s f i) (\<lambda>a. a) w"
proof (induction "is" arbitrary: w)
  case (Cons i "is")
  have q: "quiet (cash_id w) (\<lambda>a. a)" by simp
  have "project_income (\<lambda>a. a) s f i w = effect (cash_id w) (\<lambda>a. a) (income_cash s f i) (\<lambda>a. a) w"
    by (simp add: project_income_def income_cash_def fold_move_cash)
  then show ?case using Cons effect_effect [OF q q] cash_id_effect [OF q, of "cash_id w"] by simp
qed simp

definition loan_live :: "acc_snap \<Rightarrow> bool" where
  "loan_live a \<longleftrightarrow> sa_type a = Loan \<and> or0 (sa_monthly a) \<noteq> 0"

definition loan_run :: "date \<Rightarrow> date \<Rightarrow> acc_snap \<Rightarrow> acc_snap \<Rightarrow> acc_snap" where
  "loan_run s f a = loan_step (\<lambda>a. a) (or0 (sa_monthly a)) ^^ length (next_payment_in_window (sa_next a) s f)"

definition loan_cash :: "date \<Rightarrow> date \<Rightarrow> acc_snap \<Rightarrow> rat" where
  "loan_cash s f a = (if loan_live a then - or0 (sa_monthly a) * of_nat (length (next_payment_in_window (sa_next a) s f)) else 0)"

lemma loan_step_keeps:
  "shape (loan_step rd m a) = shape a" "sa_monthly (loan_step rd m a) = sa_monthly a"
  "sa_next (loan_step rd m a) = sa_next a" "sa_payment_day (loan_step rd m a) = sa_payment_day a"
  by (simp_all add: loan_step_def shape_def)

lemma loan_run_keeps:
  "shape (loan_run s f a b) = shape b" "sa_monthly (loan_run s f a b) = sa_monthly b"
  "sa_next (loan_run s f a b) = sa_next b" "sa_payment_day (loan_run s f a b) = sa_payment_day b"
proof -
  have "shape ((loan_step (\<lambda>a. a) m ^^ n) b) = shape b \<and> sa_monthly ((loan_step (\<lambda>a. a) m ^^ n) b) = sa_monthly b
      \<and> sa_next ((loan_step (\<lambda>a. a) m ^^ n) b) = sa_next b \<and> sa_payment_day ((loan_step (\<lambda>a. a) m ^^ n) b) = sa_payment_day b"
    for m n by (induction n) (simp_all add: loan_step_keeps)
  then show "shape (loan_run s f a b) = shape b" "sa_monthly (loan_run s f a b) = sa_monthly b"
    "sa_next (loan_run s f a b) = sa_next b" "sa_payment_day (loan_run s f a b) = sa_payment_day b"
    by (simp_all add: loan_run_def)
qed

lemma loan_effect:
  assumes "cash_id w = c" "c \<noteq> Some i"
  shows "fold (\<lambda>_ w. upd_acc i (loan_step (\<lambda>a. a) m) (move_cash (\<lambda>a. a) (- m) w)) ds w =
    effect c (on i (loan_step (\<lambda>a. a) m ^^ length ds)) (- m * of_nat (length ds)) (\<lambda>a. a) w"
  using assms(1)
proof (induction ds arbitrary: w)
  case Nil
  have "on i (\<lambda>a. a) = (\<lambda>a. a)" by (simp add: on_def fun_eq_iff)
  then show ?case by (simp add: id_def)
next
  case (Cons d ds)
  have sh: "shape ((loan_step (\<lambda>a. a) m ^^ n) a) = shape a" for n a by (induction n) (simp_all add: loan_step_keeps)
  have q: "quiet c (\<lambda>a. a)" and q1: "quiet c (on i (loan_step (\<lambda>a. a) m))"
    and qn: "quiet c (on i (loan_step (\<lambda>a. a) m ^^ length ds))"
    using assms(2) by (auto intro!: quiet_on simp: loan_step_keeps sh)
  have "upd_acc i (loan_step (\<lambda>a. a) m) (move_cash (\<lambda>a. a) (- m) w) = effect c (on i (loan_step (\<lambda>a. a) m)) (- m) (\<lambda>a. a) w"
    using Cons.prems effect_effect [OF q q1] assms(2) by (simp add: move_cash_effect upd_acc_effect)
  moreover have "on i (loan_step (\<lambda>a. a) m ^^ length ds) (on i (loan_step (\<lambda>a. a) m) a) = on i (loan_step (\<lambda>a. a) m ^^ Suc (length ds)) a" for a
    using quietD [OF q1, of a] by (simp add: on_def funpow_swap1)
  ultimately show ?case
    using Cons.IH [OF trans [OF cash_id_effect [OF q1] Cons.prems]] effect_effect [OF q1 qn]
    by (simp add: algebra_simps comp_def)
qed

lemma project_loan_effect:
  assumes "loan_live a" "cash_id w = c" "c \<noteq> Some (sa_id a)"
  shows "project_loan (\<lambda>a. a) s f a w = effect c (on (sa_id a) (loan_run s f a)) (loan_cash s f a) (\<lambda>a. a) w"
  using assms loan_effect [OF assms(2,3)] by (simp add: project_loan_def loan_live_def loan_run_def loan_cash_def)

text \<open>What \<open>n\<close> minimum payments of a card take, and the balance they leave.\<close>

fun card_run :: "nat \<Rightarrow> acc_snap \<Rightarrow> rat \<times> rat" where
  "card_run 0 a = (0, sa_balance a)"
| "card_run (Suc n) a = (case card_step (\<lambda>a. a) a of None \<Rightarrow> (0, sa_balance a)
     | Some (pay, b) \<Rightarrow> (let (p, z) = card_run n (a\<lparr>sa_balance := b\<rparr>) in (pay + p, z)))"

lemma card_run_add:
  "card_run (m + n) a = (let (p, b) = card_run m a; (q, z) = card_run n (a\<lparr>sa_balance := b\<rparr>) in (p + q, z))"
proof (induction m arbitrary: a)
  case 0
  then show ?case by (simp split: prod.split)
next
  case (Suc m)
  have stop: "card_run n a = (0, sa_balance a)" if "card_step (\<lambda>a. a) a = None"
    using that by (cases n) simp_all
  show ?case using Suc stop by (simp split: option.split prod.split add: Let_def)
qed

lemma card_run_small: "sa_balance a \<le> kurus \<Longrightarrow> card_run n a = (0, sa_balance a)"
  by (cases n) (simp_all add: card_step_def)

definition set_bal :: "rat \<Rightarrow> acc_snap \<Rightarrow> acc_snap" where
  "set_bal b a = a\<lparr>sa_balance := b\<rparr>"

lemma shape_set_bal [simp]: "shape (set_bal b a) = shape a"
  by (simp add: set_bal_def shape_def)

lemma card_walk_effect:
  assumes "c \<noteq> Some i"
    and "cash_id w = c" "distinct (map sa_id (w_accs w))" "find_row sa_id i (w_accs w) = Some a"
  shows "card_walk (\<lambda>a. a) i ds w =
    effect c (on i (set_bal (snd (card_run (length ds) a)))) (- fst (card_run (length ds) a)) (\<lambda>a. a) w"
  using assms(2-)
proof (induction ds arbitrary: w a)
  case Nil
  have "effect c (on i (set_bal (sa_balance a))) 0 (\<lambda>a. a) w = effect c (\<lambda>a. a) 0 (\<lambda>a. a) w"
    using Nil find_row_distinct [OF Nil(2)] by (intro effect_cong) (auto simp: on_def set_bal_def)
  then show ?case by simp
next
  case (Cons d ds)
  have same: "b = a" if "b \<in> set (w_accs w)" "sa_id b = i" for b
    using Cons.prems(2,3) find_row_distinct [OF Cons.prems(2) that(1)] that(2) by simp
  show ?case
  proof (cases "card_step (\<lambda>a. a) a")
    case None
    have "effect c (on i (set_bal (sa_balance a))) 0 (\<lambda>a. a) w = effect c (\<lambda>a. a) 0 (\<lambda>a. a) w"
      using same by (intro effect_cong) (auto simp: on_def set_bal_def)
    with None Cons.prems show ?thesis by simp
  next
    case (Some pb)
    obtain pay b where pb: "pb = (pay, b)" by (cases pb)
    obtain p z where pz: "card_run (length ds) (a\<lparr>sa_balance := b\<rparr>) = (p, z)" by (cases "card_run (length ds) (a\<lparr>sa_balance := b\<rparr>)")
    let ?w = "effect c (on i (set_bal b)) (- pay) (\<lambda>a. a) w"
    have q: "quiet c (\<lambda>a. a)" and qs: "quiet c (on i (set_bal y))" for y
      using assms(1) by (auto intro!: quiet_on)
    have w: "upd_acc i (\<lambda>a. a\<lparr>sa_balance := b\<rparr>) (move_cash (\<lambda>a. a) (- pay) w) = ?w"
      using Cons.prems(1) effect_effect [OF q qs] assms(1)
      by (simp add: move_cash_effect upd_acc_effect set_bal_def [abs_def])
    have dw: "distinct (map sa_id (w_accs ?w))" using ids_effect [OF qs] Cons.prems(2) by simp
    have ai: "sa_id a = i" "a \<in> set (w_accs w)"
      using Cons.prems(3) by (auto dest: find_row_Some_key find_row_Some_in)
    then have "a\<lparr>sa_balance := b\<rparr> \<in> set (w_accs ?w)"
      using assms(1) by (force simp: effect_accs on_def set_bal_def)
    then have r: "find_row sa_id i (w_accs ?w) = Some (a\<lparr>sa_balance := b\<rparr>)"
      using find_row_distinct [OF dw] ai by fastforce
    have "card_walk (\<lambda>a. a) i ds ?w = effect c (on i (set_bal z)) (- p) (\<lambda>a. a) ?w"
      using Cons.IH [OF _ dw r] cash_id_effect [OF qs] Cons.prems(1) pz by simp
    moreover have "on i (set_bal z) (on i (set_bal b) x) = on i (set_bal z) x" for x
      by (simp add: on_def set_bal_def)
    ultimately show ?thesis using Cons.prems(3) Some pb pz w effect_effect [OF qs qs] by simp
  qed
qed

definition card_days :: "date \<Rightarrow> date \<Rightarrow> nat \<Rightarrow> date list" where
  "card_days s f pd = payment_walk (Date (year s) (month s) (min pd (month_len (year s) (month s)))) s f"

definition card_live :: "acc_snap \<Rightarrow> bool" where
  "card_live a \<longleftrightarrow> sa_type a = Credit_Card \<and> kurus < sa_balance a \<and> sa_payment_day a \<noteq> None \<and> sa_payment_day a \<noteq> Some 0"

definition card_end :: "date \<Rightarrow> date \<Rightarrow> acc_snap \<Rightarrow> rat \<times> rat" where
  "card_end s f a = card_run (length (card_days s f (the (sa_payment_day a)))) a"

lemma project_card_effect:
  assumes "card_live a" "c \<noteq> Some (sa_id a)" "cash_id w = c" "distinct (map sa_id (w_accs w))"
    "find_row sa_id (sa_id a) (w_accs w) = Some a"
  shows "project_card (\<lambda>a. a) s f a w = effect c (on (sa_id a) (set_bal (snd (card_end s f a)))) (- fst (card_end s f a)) (\<lambda>a. a) w"
  using assms(1) card_walk_effect [OF assms(2-)]
  by (auto simp: project_card_def card_live_def card_end_def card_days_def next_payment_in_window_def)

lemma project_card_dead: "\<not> card_live a \<Longrightarrow> project_card (\<lambda>a. a) s f a w = w"
  by (auto simp: project_card_def card_live_def split: option.split)

lemma project_loan_dead: "\<not> loan_live a \<Longrightarrow> project_loan (\<lambda>a. a) s f a w = w"
  by (simp add: project_loan_def loan_live_def)

definition debt_due :: "date \<Rightarrow> date \<Rightarrow> debt_snap \<Rightarrow> bool" where
  "debt_due s f d \<longleftrightarrow> sd_paid d = None \<and> (case sd_due d of None \<Rightarrow> False | Some t \<Rightarrow> s < t \<and> t \<le> f)"

definition debt_cash :: "date \<Rightarrow> date \<Rightarrow> debt_snap \<Rightarrow> rat" where
  "debt_cash s f d = (if debt_due s f d then (if sd_direction d = Receivable then sd_amount d else - sd_amount d) else 0)"

definition pay_debt :: "date \<Rightarrow> date \<Rightarrow> debt_snap \<Rightarrow> debt_snap" where
  "pay_debt s f d = (if debt_due s f d then d\<lparr>sd_paid := sd_due d\<rparr> else d)"

lemma project_debt_effect:
  "project_debt (\<lambda>a. a) s f d w = effect (cash_id w) (\<lambda>a. a) (debt_cash s f d)
     (\<lambda>b. if sd_id b = sd_id d \<and> debt_due s f d then b\<lparr>sd_paid := sd_due d\<rparr> else b) w"
proof (cases "debt_due s f d")
  case True
  then show ?thesis
    by (auto simp: project_debt_def debt_due_def debt_cash_def settle_snap_def move_cash_effect effect_def
        upd_row_def Let_def split: option.splits)
next
  case False
  have "project_debt (\<lambda>a. a) s f d w = w"
    using False by (auto simp: project_debt_def debt_due_def split: option.splits)
  with False show ?thesis by (simp add: debt_cash_def)
qed

lemma fold_debts:
  assumes "distinct (map sd_id ds)"
  shows "fold (project_debt (\<lambda>a. a) s f) ds w = effect (cash_id w) (\<lambda>a. a) (\<Sum>d\<leftarrow>ds. debt_cash s f d)
     (\<lambda>b. case find_row sd_id (sd_id b) ds of None \<Rightarrow> b
        | Some d \<Rightarrow> if debt_due s f d then b\<lparr>sd_paid := sd_due d\<rparr> else b) w"
  using assms
proof (induction ds arbitrary: w)
  case (Cons d ds)
  have q: "quiet (cash_id w) (\<lambda>a. a)" by simp
  have dist: "distinct (map sd_id ds)" and none: "find_row sd_id (sd_id d) ds = None"
    using Cons.prems by (simp_all add: find_row_None_iff)
  have none: "find_row sd_id (sd_id b) ds = None" if "sd_id d = sd_id b" for b
    using none that by simp
  show ?case
    unfolding fold_Cons comp_def Cons.IH [OF dist]
    unfolding project_debt_effect cash_id_effect [OF q] effect_effect [OF q q]
    by (rule effect_cong) (auto simp: none)
qed simp

lemma fold_own_debts:
  assumes "distinct (map sd_id (w_debts w))"
  shows "fold (project_debt (\<lambda>a. a) s f) (w_debts w) w =
    effect (cash_id w) (\<lambda>a. a) (\<Sum>d\<leftarrow>w_debts w. debt_cash s f d) (pay_debt s f) w"
  unfolding fold_debts [OF assms]
  by (rule effect_cong) (simp_all add: find_row_distinct [OF assms] pay_debt_def)

lemma fold_pass:
  assumes "distinct (map sa_id (w_accs w))"
    and step: "\<And>a w c. P a \<Longrightarrow> cash_id w = c \<Longrightarrow> c \<noteq> Some (sa_id a) \<Longrightarrow> distinct (map sa_id (w_accs w)) \<Longrightarrow>
      find_row sa_id (sa_id a) (w_accs w) = Some a \<Longrightarrow> T a w = effect c (on (sa_id a) (h a)) (x a) (\<lambda>a. a) w"
    and skip: "\<And>a w. \<not> P a \<Longrightarrow> T a w = w"
    and h: "\<And>a b. shape (h a b) = shape b"
    and P: "\<And>a. P a \<Longrightarrow> sa_type a \<noteq> Cash"
  shows "fold T (w_accs w) w = effect (cash_id w) (\<lambda>b. if cash_id w \<noteq> Some (sa_id b) \<and> P b then h b b else b)
    (\<Sum>a\<leftarrow>w_accs w. if P a then x a else 0) (\<lambda>a. a) w"
proof -
  note row = find_row_distinct [OF assms(1)]
  have c: "cash_id w \<noteq> Some (sa_id a)" if "a \<in> set (w_accs w)" "P a" for a
    using cash_id_is_cash [OF _ assms(1) that(1) refl] P that(2) by blast
  have "fold T (w_accs w) w = effect (cash_id w) (by_row P h (w_accs w)) (\<Sum>a\<leftarrow>w_accs w. if P a then x a else 0) (\<lambda>a. a) w"
    by (rule fold_by_row) (use assms c row in auto)
  also have "\<dots> = effect (cash_id w) (\<lambda>b. if cash_id w \<noteq> Some (sa_id b) \<and> P b then h b b else b)
      (\<Sum>a\<leftarrow>w_accs w. if P a then x a else 0) (\<lambda>a. a) w"
    by (rule effect_cong) (auto simp: by_row_def row dest: c)
  finally show ?thesis .
qed

lemma sum_effect:
  assumes "\<And>a. a \<in> set (w_accs w) \<Longrightarrow>
    k (if c = Some (sa_id a) then (f a)\<lparr>sa_balance := sa_balance (f a) + x\<rparr> else f a) = k a"
  shows "(\<Sum>a\<leftarrow>w_accs (effect c f x g w). k a) = (\<Sum>a\<leftarrow>w_accs w. k a)"
  using assms by (simp add: effect_accs comp_def cong: map_cong)

definition loan_pass :: "nat option \<Rightarrow> date \<Rightarrow> date \<Rightarrow> acc_snap \<Rightarrow> acc_snap" where
  "loan_pass c s f b = (if c \<noteq> Some (sa_id b) \<and> loan_live b then loan_run s f b b else b)"

definition card_pass :: "nat option \<Rightarrow> date \<Rightarrow> date \<Rightarrow> acc_snap \<Rightarrow> acc_snap" where
  "card_pass c s f b = (if c \<noteq> Some (sa_id b) \<and> card_live b then set_bal (snd (card_end s f b)) b else b)"

definition card_cash :: "date \<Rightarrow> date \<Rightarrow> acc_snap \<Rightarrow> rat" where
  "card_cash s f a = (if card_live a then - fst (card_end s f a) else 0)"

lemma fold_loans:
  assumes "distinct (map sa_id (w_accs w))" "cash_id w = c"
  shows "fold (project_loan (\<lambda>a. a) s f) (w_accs w) w = effect c (loan_pass c s f) (\<Sum>a\<leftarrow>w_accs w. loan_cash s f a) (\<lambda>a. a) w"
proof -
  have "fold (project_loan (\<lambda>a. a) s f) (w_accs w) w =
      effect (cash_id w) (\<lambda>b. if cash_id w \<noteq> Some (sa_id b) \<and> loan_live b then loan_run s f b b else b)
        (\<Sum>a\<leftarrow>w_accs w. if loan_live a then loan_cash s f a else 0) (\<lambda>a. a) w"
    by (rule fold_pass [OF assms(1)])
      (auto simp: project_loan_effect project_loan_dead loan_run_keeps loan_live_def)
  moreover have "(if loan_live a then loan_cash s f a else 0) = loan_cash s f a" for a by (simp add: loan_cash_def)
  ultimately show ?thesis by (simp add: loan_pass_def [abs_def] assms(2))
qed

lemma fold_cards:
  assumes "distinct (map sa_id (w_accs w))" "cash_id w = c"
  shows "fold (project_card (\<lambda>a. a) s f) (w_accs w) w = effect c (card_pass c s f) (\<Sum>a\<leftarrow>w_accs w. card_cash s f a) (\<lambda>a. a) w"
proof -
  have "fold (project_card (\<lambda>a. a) s f) (w_accs w) w =
      effect (cash_id w) (\<lambda>b. if cash_id w \<noteq> Some (sa_id b) \<and> card_live b then set_bal (snd (card_end s f b)) b else b)
        (\<Sum>a\<leftarrow>w_accs w. if card_live a then - fst (card_end s f a) else 0) (\<lambda>a. a) w"
    by (rule fold_pass [OF assms(1)]) (auto simp: project_card_effect project_card_dead card_live_def)
  then show ?thesis by (simp add: card_pass_def [abs_def] card_cash_def [abs_def] assms(2))
qed

lemma quiet_passes: "quiet c (loan_pass c s f)" "quiet c (card_pass c s f)"
  by (simp_all add: quiet_def loan_pass_def card_pass_def loan_run_keeps)

subsection \<open>The whole projection\<close>

lemma set_ids_type:
  assumes "distinct (map sa_id (w_accs w))" "cash_id w = Some (sa_id a)" "a \<in> set (w_accs w)"
  shows "sa_type a = Cash"
  using cash_id_is_cash [OF assms(2,1,3)] by simp

text \<open>Both passes over the accounts leave a cash account alone, and neither changes what the other
  one looks at.\<close>

lemma passes_cash:
  "sa_type a = Cash \<Longrightarrow> \<not> loan_live a \<and> \<not> card_live a \<and> loan_cash s f a = 0 \<and> card_cash s f a = 0"
  by (simp add: loan_live_def card_live_def loan_cash_def card_cash_def)

lemma loan_pass_card:
  "card_cash s f (loan_pass c s' f' a) = card_cash s f a" "card_live (loan_pass c s' f' a) = card_live a"
  "sa_type (loan_pass c s' f' a) = sa_type a"
proof -
  have "sa_type (loan_run s' f' a a) = sa_type a" using loan_run_keeps(1) [of s' f' a a] by (simp add: shape_def)
  then show "card_cash s f (loan_pass c s' f' a) = card_cash s f a" "card_live (loan_pass c s' f' a) = card_live a"
    "sa_type (loan_pass c s' f' a) = sa_type a"
    by (auto simp: loan_pass_def card_cash_def card_live_def loan_live_def)
qed

definition total_cash :: "date \<Rightarrow> date \<Rightarrow> world \<Rightarrow> rat" where
  "total_cash s f w = (\<Sum>i\<leftarrow>w_incomes w. income_cash s f i) + (\<Sum>a\<leftarrow>w_accs w. loan_cash s f a) +
     (\<Sum>a\<leftarrow>w_accs w. card_cash s f a) + (\<Sum>d\<leftarrow>w_debts w. debt_cash s f d)"

definition acc_pass :: "nat option \<Rightarrow> date \<Rightarrow> date \<Rightarrow> acc_snap \<Rightarrow> acc_snap" where
  "acc_pass c s f a = card_pass c s f (loan_pass c s f a)"

lemma quiet_acc_pass: "quiet c (acc_pass c s f)"
  unfolding acc_pass_def [abs_def] by (rule quiet_comp [OF quiet_passes])

lemma project_forward_effect:
  fixes n :: nat
  assumes "distinct (map sa_id (w_accs w))" "distinct (map sd_id (w_debts w))"
  defines "s \<equiv> w_as_of w" and "f \<equiv> add_days (w_as_of w) n" and "c \<equiv> cash_id w"
  shows "project_forward (\<lambda>a. a) n w = (effect c (acc_pass c s f) (total_cash s f w) (pay_debt s f) w)\<lparr>w_as_of := f\<rparr>"
proof -
  let ?X1 = "\<Sum>i\<leftarrow>w_incomes w. income_cash s f i" and ?X2 = "\<Sum>a\<leftarrow>w_accs w. loan_cash s f a"
    and ?X3 = "\<Sum>a\<leftarrow>w_accs w. card_cash s f a" and ?X4 = "\<Sum>d\<leftarrow>w_debts w. debt_cash s f d"
  note q = quiet_id(2) [of c] and ql = quiet_passes(1) [of c s f] and qa = quiet_acc_pass [of c s f]
  define w1 where "w1 = fold (project_income (\<lambda>a. a) s f) (w_incomes w) w"
  have w1: "w1 = effect c (\<lambda>a. a) ?X1 (\<lambda>a. a) w" by (simp add: w1_def fold_incomes c_def)
  have d1: "distinct (map sa_id (w_accs w1))" "cash_id w1 = c"
    using assms(1) unfolding w1 ids_effect [OF q] cash_id_effect [OF q] by (simp_all add: c_def)
  have x2: "(\<Sum>a\<leftarrow>w_accs w1. loan_cash s f a) = ?X2"
    unfolding w1 by (rule sum_effect) (auto simp: loan_cash_def loan_live_def)
  define w2 where "w2 = fold (project_loan (\<lambda>a. a) s f) (w_accs w1) w1"
  have w2: "w2 = effect c (loan_pass c s f) (?X1 + ?X2) (\<lambda>a. a) w"
    unfolding w2_def fold_loans [OF d1] x2 unfolding w1 effect_effect [OF q ql] ..
  have d2: "distinct (map sa_id (w_accs w2))" "cash_id w2 = c"
    using assms(1) unfolding w2 ids_effect [OF ql] cash_id_effect [OF ql] by (simp_all add: c_def)
  have x3: "(\<Sum>a\<leftarrow>w_accs w2. card_cash s f a) = ?X3"
    unfolding w2
  proof (rule sum_effect)
    fix a assume a: "a \<in> set (w_accs w)"
    show "card_cash s f (if c = Some (sa_id a) then (loan_pass c s f a)
        \<lparr>sa_balance := sa_balance (loan_pass c s f a) + (?X1 + ?X2)\<rparr> else loan_pass c s f a) = card_cash s f a"
    proof (cases "c = Some (sa_id a)")
      case True
      then have "sa_type a = Cash" using set_ids_type [OF assms(1) _ a] by (simp add: c_def)
      with True show ?thesis by (simp add: passes_cash loan_pass_card)
    qed (simp add: loan_pass_card)
  qed
  define w3 where "w3 = fold (project_card (\<lambda>a. a) s f) (w_accs w2) w2"
  have w3: "w3 = effect c (acc_pass c s f) (?X1 + ?X2 + ?X3) (\<lambda>a. a) w"
    unfolding w3_def fold_cards [OF d2] x3 unfolding w2 effect_effect [OF ql quiet_passes(2)] acc_pass_def [abs_def] ..
  have d3: "distinct (map sd_id (w_debts w3))" "cash_id w3 = c" "w_debts w3 = w_debts w"
    using assms(2) unfolding w3 cash_id_effect [OF qa] by (simp_all add: c_def)
  have "fold (project_debt (\<lambda>a. a) s f) (w_debts w3) w3 = effect c (acc_pass c s f) (total_cash s f w) (pay_debt s f) w"
    unfolding fold_own_debts [OF d3(1)]
    unfolding d3(2,3) total_cash_def
    unfolding w3 effect_effect [OF qa q] ..
  moreover have "add_days s n = f" by (simp add: s_def f_def)
  ultimately show ?thesis by (simp add: project_forward_def Let_def flip: s_def w1_def w2_def w3_def)
qed

subsection \<open>Two projections in a row\<close>

lemma window_split:
  assumes "s \<le> mid" "mid \<le> f" "\<And>p. np = Some p \<Longrightarrow> valid_date p"
  shows "length (next_payment_in_window np s f) =
    length (next_payment_in_window np s mid) + length (next_payment_in_window np mid f)"
  using assms payment_walk_split [OF assms(1,2)] by (simp add: next_payment_in_window_def split: option.split)

lemma card_days_split:
  assumes "valid_date s" "valid_date mid" "s \<le> mid" "mid \<le> f" "1 \<le> pd" "pd \<le> 28"
  shows "length (card_days s f pd) = length (card_days s mid pd) + length (card_days mid f pd)"
proof -
  let ?c = "Date (year s) (month s) pd"
  have len: "min pd (month_len y m) = pd" for y m
    using assms(6) le_trans [OF assms(6) month_len_bounds(5)] by (simp add: min_absorb1)
  have v: "valid_date ?c"
    using assms(1,5) le_trans [OF assms(6) month_len_bounds(5)] by (simp add: valid_date_def)
  have "month_index ?c = month_index s" by (simp add: month_index_def)
  then have mi: "month_index ?c \<le> month_index mid" using month_index_mono [of s mid] assms(1-3) by (simp add: valid_date_def)
  have "payment_walk ?c s f = payment_walk ?c s mid @ payment_walk ?c mid f"
    by (rule payment_walk_split [OF assms(3,4) v])
  also have "payment_walk ?c mid f = payment_walk (Date (year mid) (month mid) pd) mid f"
    using card_days_shift [OF v _ assms(2) mi assms(4)] assms(6) by simp
  finally show ?thesis by (simp add: card_days_def len)
qed

text \<open>What the composition needs of a world.\<close>

definition acc_ok :: "acc_snap \<Rightarrow> bool" where
  "acc_ok a \<longleftrightarrow> (\<forall>p. sa_next a = Some p \<longrightarrow> valid_date p) \<and> (case sa_payment_day a of None \<Rightarrow> True | Some d \<Rightarrow> d \<le> 28)"

definition world_ok :: "world \<Rightarrow> bool" where
  "world_ok w \<longleftrightarrow> valid_date (w_as_of w) \<and> distinct (map sa_id (w_accs w)) \<and> distinct (map sd_id (w_debts w)) \<and>
     list_all (\<lambda>i. 1 \<le> si_day i) (w_incomes w) \<and> list_all acc_ok (w_accs w)"

lemma card_live_run:
  "sa_type a = Credit_Card \<Longrightarrow> sa_payment_day a \<noteq> None \<Longrightarrow> sa_payment_day a \<noteq> Some 0 \<Longrightarrow>
   (if card_live a then card_end s f a else (0, sa_balance a)) = card_end s f a"
  by (auto simp: card_live_def card_end_def card_run_small)

lemma loan_pass_split:
  assumes "s \<le> mid" "mid \<le> f" "acc_ok a"
  shows "loan_pass c mid f (loan_pass c s mid a) = loan_pass c s f a"
proof (cases "c \<noteq> Some (sa_id a) \<and> loan_live a")
  case True
  let ?b = "loan_run s mid a a"
  have b: "sa_id ?b = sa_id a" "loan_live ?b" "sa_monthly ?b = sa_monthly a" "sa_next ?b = sa_next a"
    using True loan_run_keeps [of s mid a a] by (auto simp: loan_live_def shape_def)
  have n: "length (next_payment_in_window (sa_next a) s f) =
      length (next_payment_in_window (sa_next a) mid f) + length (next_payment_in_window (sa_next a) s mid)"
    using window_split [OF assms(1,2), of "sa_next a"] assms(3) by (simp add: acc_ok_def)
  have "loan_run mid f ?b ?b = loan_run s f a a"
    unfolding loan_run_def [of mid] loan_run_def [of _ f] b(3,4) n funpow_add by (simp add: loan_run_def)
  then show ?thesis using True b by (simp add: loan_pass_def)
qed (auto simp: loan_pass_def)

lemma card_end_split:
  assumes "valid_date s" "valid_date mid" "s \<le> mid" "mid \<le> f" "sa_payment_day a = Some pd" "1 \<le> pd" "pd \<le> 28"
  shows "card_end s f a = (fst (card_end s mid a) + fst (card_end mid f (set_bal (snd (card_end s mid a)) a)),
    snd (card_end mid f (set_bal (snd (card_end s mid a)) a)))"
  using card_run_add [of "length (card_days s mid pd)" "length (card_days mid f pd)" a]
    card_days_split [OF assms(1-4,6,7)] assms(5)
  by (simp add: card_end_def set_bal_def Let_def split: prod.splits)

lemma card_end_dead: "\<not> card_live a \<Longrightarrow> sa_type a = Credit_Card \<Longrightarrow> sa_payment_day a = Some pd \<Longrightarrow> pd \<noteq> 0 \<Longrightarrow>
    card_end s f a = (0, sa_balance a)"
  by (simp add: card_live_def card_end_def card_run_small)

lemma card_pass_eq:
  assumes "sa_type a = Credit_Card" "sa_payment_day a = Some pd" "pd \<noteq> 0"
  shows "card_cash s f a = - fst (card_end s f a)"
    and "c \<noteq> Some (sa_id a) \<Longrightarrow> card_pass c s f a = set_bal (snd (card_end s f a)) a"
  using card_end_dead [OF _ assms] by (simp_all add: card_cash_def card_pass_def set_bal_def)

lemma set_bal_sel [simp]:
  "sa_id (set_bal b a) = sa_id a" "sa_type (set_bal b a) = sa_type a" "sa_payment_day (set_bal b a) = sa_payment_day a"
  "sa_monthly (set_bal b a) = sa_monthly a" "sa_next (set_bal b a) = sa_next a" "sa_balance (set_bal b a) = b"
  "set_bal x (set_bal b a) = set_bal x a"
  by (simp_all add: set_bal_def)

lemma card_pass_split:
  assumes v: "valid_date s" "valid_date mid" "s \<le> mid" "mid \<le> f" and "acc_ok a" "c \<noteq> Some (sa_id a)"
  shows "card_pass c mid f (card_pass c s mid a) = card_pass c s f a"
    and "card_cash s f a = card_cash s mid a + card_cash mid f (card_pass c s mid a)"
proof -
  have "card_pass c mid f (card_pass c s mid a) = card_pass c s f a \<and>
    card_cash s f a = card_cash s mid a + card_cash mid f (card_pass c s mid a)"
  proof (cases "sa_type a = Credit_Card \<and> sa_payment_day a \<noteq> None \<and> sa_payment_day a \<noteq> Some 0")
    case True
    then obtain pd where pd: "sa_payment_day a = Some pd" "sa_type a = Credit_Card" "pd \<noteq> 0" by auto
    let ?b = "set_bal (snd (card_end s mid a)) a"
    have e: "card_end s f a = (fst (card_end s mid a) + fst (card_end mid f ?b), snd (card_end mid f ?b))"
      by (rule card_end_split [OF v pd(1)]) (use pd assms(5) in \<open>auto simp: acc_ok_def\<close>)
    have b: "sa_type ?b = Credit_Card" "sa_payment_day ?b = Some pd" "c \<noteq> Some (sa_id ?b)"
      using pd assms(6) by simp_all
    show ?thesis
      unfolding card_pass_eq(2) [OF pd(2,1,3) assms(6)] card_pass_eq(1) [OF pd(2,1,3)]
        card_pass_eq(1) [OF b(1,2) pd(3)] card_pass_eq(2) [OF b(1,2) pd(3) b(3)]
      by (simp add: e)
  next
    case False
    then have "\<not> card_live a" by (auto simp: card_live_def)
    then show ?thesis by (simp add: card_pass_def card_cash_def)
  qed
  then show "card_pass c mid f (card_pass c s mid a) = card_pass c s f a"
    "card_cash s f a = card_cash s mid a + card_cash mid f (card_pass c s mid a)" by simp_all
qed

lemma acc_pass_card: "sa_type a = Credit_Card \<Longrightarrow> acc_pass c s f a = card_pass c s f a"
  by (simp add: acc_pass_def loan_pass_def loan_live_def)

lemma acc_pass_other: "sa_type a \<noteq> Credit_Card \<Longrightarrow> acc_pass c s f a = loan_pass c s f a"
  using loan_pass_card(3) [of c s f a] by (simp add: acc_pass_def card_pass_def card_live_def)

lemma acc_pass_keeps:
  "sa_id (acc_pass c s f a) = sa_id a" "sa_type (acc_pass c s f a) = sa_type a"
  "sa_monthly (acc_pass c s f a) = sa_monthly a" "sa_next (acc_pass c s f a) = sa_next a"
  "sa_payment_day (acc_pass c s f a) = sa_payment_day a"
  using quietD [OF quiet_acc_pass, of c s f a]
  by (simp_all add: acc_pass_def card_pass_def loan_pass_def loan_run_keeps)

lemma acc_pass_split:
  assumes v: "valid_date s" "valid_date mid" "s \<le> mid" "mid \<le> f" and "acc_ok a"
  shows "acc_pass c mid f (acc_pass c s mid a) = acc_pass c s f a"
proof (cases "c = Some (sa_id a)")
  case True
  then show ?thesis using quiet_acc_pass by (simp add: quiet_def)
next
  case ne: False
  show ?thesis
  proof (cases "sa_type a = Credit_Card")
    case True
    then show ?thesis using card_pass_split(1) [OF assms ne] acc_pass_keeps(2) [of c s mid a] by (simp add: acc_pass_card)
  next
    case False
    then show ?thesis using loan_pass_split [OF v(3,4) assms(5)] acc_pass_keeps(2) [of c s mid a]
      by (simp add: acc_pass_other)
  qed
qed

lemma acc_cash_split:
  assumes v: "valid_date s" "valid_date mid" "s \<le> mid" "mid \<le> f" and "acc_ok a"
    and cash: "c = Some (sa_id a) \<Longrightarrow> sa_type a = Cash"
  shows "loan_cash s f a = loan_cash s mid a + loan_cash mid f (acc_pass c s mid a)"
    and "card_cash s f a = card_cash s mid a + card_cash mid f (acc_pass c s mid a)"
proof -
  have n: "length (next_payment_in_window (sa_next a) s f) =
      length (next_payment_in_window (sa_next a) s mid) + length (next_payment_in_window (sa_next a) mid f)"
    using window_split [OF v(3,4), of "sa_next a"] assms(5) by (simp add: acc_ok_def)
  show "loan_cash s f a = loan_cash s mid a + loan_cash mid f (acc_pass c s mid a)"
    by (simp add: loan_cash_def loan_live_def acc_pass_keeps n algebra_simps)
  show "card_cash s f a = card_cash s mid a + card_cash mid f (acc_pass c s mid a)"
  proof (cases "sa_type a = Credit_Card")
    case True
    then have "c \<noteq> Some (sa_id a)" using cash by auto
    from card_pass_split(2) [OF assms(1-5) this] True show ?thesis by (simp add: acc_pass_card)
  next
    case False
    then show ?thesis using acc_pass_keeps(2) [of c s mid a] by (simp add: card_cash_def card_live_def)
  qed
qed

lemma debt_split:
  assumes "s \<le> mid" "mid \<le> f"
  shows "pay_debt mid f (pay_debt s mid d) = pay_debt s f d"
    and "debt_cash s f d = debt_cash s mid d + debt_cash mid f (pay_debt s mid d)"
  using assms by (auto simp: pay_debt_def debt_cash_def debt_due_def split: option.splits)

lemma income_split:
  assumes "valid_date s" "valid_date mid" "s \<le> mid" "mid \<le> f" "1 \<le> si_day i"
  shows "income_cash s f i = income_cash s mid i + income_cash mid f i"
  using income_walk_split [OF assms(1,2,5,3,4)] by (simp add: income_cash_def algebra_simps)

lemma total_cash_split:
  assumes ok: "world_ok w" and s: "s = w_as_of w" and v: "valid_date mid" "s \<le> mid" "mid \<le> f"
    and c: "c = cash_id w"
  shows "total_cash s f w = total_cash s mid w + total_cash mid f (effect c (acc_pass c s mid) x (pay_debt s mid) w)"
proof -
  let ?w = "effect c (acc_pass c s mid) x (pay_debt s mid) w"
  note W = ok [unfolded world_ok_def list_all_iff]
  have vs: "valid_date s" using W s by simp
  have cash: "sa_type a = Cash" if "a \<in> set (w_accs w)" "c = Some (sa_id a)" for a
    using set_ids_type [of w a] W that c by simp
  have inc: "(\<Sum>i\<leftarrow>w_incomes w. income_cash s f i) =
      (\<Sum>i\<leftarrow>w_incomes w. income_cash s mid i) + (\<Sum>i\<leftarrow>w_incomes ?w. income_cash mid f i)"
    unfolding effect_sel sum_list_addf [symmetric]
    using W by (intro arg_cong [of _ _ sum_list] map_cong refl) (simp add: income_split [OF vs v])
  have row: "k (if c = Some (sa_id a) then (acc_pass c s mid a)\<lparr>sa_balance := sa_balance (acc_pass c s mid a) + x\<rparr>
        else acc_pass c s mid a) = k (acc_pass c s mid a)"
    if "a \<in> set (w_accs w)" "\<And>b. sa_type b = Cash \<Longrightarrow> k b = 0" for k :: "acc_snap \<Rightarrow> rat" and a
  proof (cases "c = Some (sa_id a)")
    case True
    then have "sa_type (acc_pass c s mid a) = Cash" using cash [OF that(1)] by (simp add: acc_pass_keeps)
    with True show ?thesis by (simp add: that(2))
  qed simp
  have loan: "(\<Sum>a\<leftarrow>w_accs w. loan_cash s f a) =
      (\<Sum>a\<leftarrow>w_accs w. loan_cash s mid a) + (\<Sum>a\<leftarrow>w_accs ?w. loan_cash mid f a)"
    unfolding effect_accs map_map comp_def sum_list_addf [symmetric]
    using W by (intro arg_cong [of _ _ sum_list] map_cong refl)
      (simp only: row [of _ "loan_cash mid f"] passes_cash acc_cash_split(1) [OF vs v _ cash])
  have card: "(\<Sum>a\<leftarrow>w_accs w. card_cash s f a) =
      (\<Sum>a\<leftarrow>w_accs w. card_cash s mid a) + (\<Sum>a\<leftarrow>w_accs ?w. card_cash mid f a)"
    unfolding effect_accs map_map comp_def sum_list_addf [symmetric]
    using W by (intro arg_cong [of _ _ sum_list] map_cong refl)
      (simp only: row [of _ "card_cash mid f"] passes_cash acc_cash_split(2) [OF vs v _ cash])
  have debt: "(\<Sum>d\<leftarrow>w_debts w. debt_cash s f d) =
      (\<Sum>d\<leftarrow>w_debts w. debt_cash s mid d) + (\<Sum>d\<leftarrow>w_debts ?w. debt_cash mid f d)"
    by (simp add: comp_def sum_list_addf [symmetric] debt_split(2) [OF v(2,3)])
  show ?thesis unfolding total_cash_def inc loan card debt by simp
qed

lemma projection_composes:
  assumes ok: "world_ok w"
  shows "project_forward (\<lambda>a. a) n (project_forward (\<lambda>a. a) m w) = project_forward (\<lambda>a. a) (m + n) w"
proof -
  note W = ok [unfolded world_ok_def list_all_iff]
  let ?s = "w_as_of w" and ?c = "cash_id w"
  let ?mid = "add_days ?s m"
  let ?f = "add_days ?s (m + n)"
  have v: "valid_date ?mid" "?s \<le> ?mid" "?mid \<le> ?f" "add_days ?mid n = ?f"
    using W valid_add_days add_days_mono [of ?s 0 m] add_days_mono [of ?s m "m + n"] by (simp_all add: add_days_add)
  let ?F = "acc_pass ?c ?s ?mid" and ?G = "pay_debt ?s ?mid" and ?X = "total_cash ?s ?mid w"
  let ?e = "effect ?c ?F ?X ?G w"
  note q = quiet_acc_pass [of ?c ?s ?mid]
  have m: "project_forward (\<lambda>a. a) m w = ?e\<lparr>w_as_of := ?mid\<rparr>"
    using project_forward_effect [of w m] W by simp
  have "distinct (map sa_id (w_accs ?e))" using ids_effect [OF q] W by simp
  moreover have "map sd_id (w_debts ?e) = map sd_id (w_debts w)" by (simp add: pay_debt_def)
  then have "distinct (map sd_id (w_debts ?e))" using W by metis
  moreover have ce: "cash_id (?e\<lparr>w_as_of := ?mid\<rparr>) = ?c"
    using cash_id_effect [OF q, of ?c ?X ?G w] by (simp add: cash_id_def find_default_cash_account_def)
  moreover have "total_cash ?mid ?f (?e\<lparr>w_as_of := ?mid\<rparr>) = total_cash ?mid ?f ?e" by (simp add: total_cash_def)
  ultimately have "project_forward (\<lambda>a. a) n (?e\<lparr>w_as_of := ?mid\<rparr>) =
      (effect ?c (acc_pass ?c ?mid ?f) (total_cash ?mid ?f ?e) (pay_debt ?mid ?f) (?e\<lparr>w_as_of := ?mid\<rparr>))\<lparr>w_as_of := ?f\<rparr>"
    using project_forward_effect [of "?e\<lparr>w_as_of := ?mid\<rparr>" n] v(4) by simp
  also have "\<dots> = (effect ?c (\<lambda>a. acc_pass ?c ?mid ?f (?F a)) (?X + total_cash ?mid ?f ?e)
      (\<lambda>d. pay_debt ?mid ?f (?G d)) w)\<lparr>w_as_of := ?f\<rparr>"
    using effect_effect [OF q quiet_acc_pass, of ?mid ?f "total_cash ?mid ?f ?e" "pay_debt ?mid ?f" ?X ?G w]
    by (simp add: effect_as_of)
  also have "effect ?c (\<lambda>a. acc_pass ?c ?mid ?f (?F a)) (?X + total_cash ?mid ?f ?e)
      (\<lambda>d. pay_debt ?mid ?f (?G d)) w = effect ?c (acc_pass ?c ?s ?f) (total_cash ?s ?f w) (pay_debt ?s ?f) w"
    using W acc_pass_split [OF _ v(1-3)] total_cash_split [OF ok refl v(1-3) refl, of ?X]
    by (intro effect_cong) (simp_all add: debt_split(1) [OF v(2,3)])
  also have "\<dots>\<lparr>w_as_of := ?f\<rparr> = project_forward (\<lambda>a. a) (m + n) w"
    using project_forward_effect [of w "m + n"] W by simp
  finally show ?thesis unfolding m .
qed

lemma horizon_walk_from:
  assumes "world_ok w" "sorted (d # hs)" "\<And>n. project_forward (\<lambda>x. x) n w' = project_forward (\<lambda>x. x) (d + n) w"
  shows "horizon_walk (\<lambda>x. x) base0 d hs w' = map (\<lambda>h.
     let snap = snapshot_to_dict (\<lambda>x. x) h (project_forward (\<lambda>x. x) h w);
         base = snapshot_to_dict (\<lambda>x. x) h (project_forward (\<lambda>x. x) h base0)
     in (snap, delta (\<lambda>x. x) (ss_totals base) (ss_totals snap))) hs"
  using assms(2,3)
proof (induction hs arbitrary: d w')
  case (Cons h hs)
  have here: "project_forward (\<lambda>x. x) (h - d) w' = project_forward (\<lambda>x. x) h w"
    using Cons.prems by simp
  have "horizon_walk (\<lambda>x. x) base0 h hs (project_forward (\<lambda>x. x) h w) = map (\<lambda>h.
     let snap = snapshot_to_dict (\<lambda>x. x) h (project_forward (\<lambda>x. x) h w);
         base = snapshot_to_dict (\<lambda>x. x) h (project_forward (\<lambda>x. x) h base0)
     in (snap, delta (\<lambda>x. x) (ss_totals base) (ss_totals snap))) hs"
    by (rule Cons.IH) (use Cons.prems projection_composes [OF assms(1)] in auto)
  with here show ?case by (simp add: Let_def)
qed simp


definition sim_acc :: "nat \<Rightarrow> account_type \<Rightarrow> rat \<Rightarrow> acc_snap" where
  "sim_acc i ty b = \<lparr>sa_id = i, sa_name = [], sa_type = ty, sa_balance = b, sa_emanet = False, sa_limit = None,
     sa_statement_day = None, sa_payment_day = (if ty = Credit_Card then Some 15 else None),
     sa_monthly = (if ty = Loan then Some 900 else None), sa_remaining = (if ty = Loan then Some 12 else None),
     sa_rate = (if ty = Cash then None else Some 3), sa_next = (if ty = Loan then Some (Date 2026 5 31) else None),
     sa_fund = None, sa_lot = None, sa_cost = None, sa_price = None\<rparr>"

definition sim_world :: world where
  "sim_world = \<lparr>w_as_of = Date 2026 4 30, w_accs = [sim_acc 1 Cash 5000, sim_acc 2 Credit_Card 3000, sim_acc 3 Loan 9000],
     w_incomes = [\<lparr>si_id = 1, si_name = [], si_amount = 40000, si_day = 31, si_active = True\<rparr>],
     w_debts = [\<lparr>sd_id = 1, sd_counterparty = [], sd_direction = Receivable, sd_amount = 700,
       sd_due = Some (Date 2026 6 1), sd_paid = None\<rparr>]\<rparr>"


text \<open>Doing nothing changes nothing, at any horizon.\<close>

lemma idle_simulation_has_no_delta:
  assumes "world_ok w" "sorted hs" "(snap, d) \<in> set (horizon_walk (\<lambda>x. x) w 0 hs w)"
  shows "d = \<lparr>st_nakit = 0, st_kart = 0, st_kredi = 0, st_yatirim = 0, st_emanet = 0, st_net = 0\<rparr>"
proof -
  have "delta (\<lambda>x. x) t t = \<lparr>st_nakit = 0, st_kart = 0, st_kredi = 0, st_yatirim = 0, st_emanet = 0, st_net = 0\<rparr>" for t
    by (simp add: delta_def Let_def round2_def qhe_def rhe_def)
  with assms(3) show ?thesis
    by (auto simp: horizon_walk_from [OF assms(1), of 0 hs w w] assms(2) Let_def)
qed

text \<open>A card due on the 31st breaks this: chained from April 30 by 30 days at a time the code
  pays it on May 30, May 31 and June 30, in one go on May 30 and June 30.\<close>

lemma month_end_card_drifts:
  defines "s \<equiv> Date 2026 4 30"
  shows "card_days s (add_days s 90) 31 = [Date 2026 5 30, Date 2026 6 30]"
    and "card_days s (add_days s 30) 31 @ card_days (add_days s 30) (add_days s 60) 31 @
      card_days (add_days s 60) (add_days s 90) 31 = [Date 2026 5 30, Date 2026 5 31, Date 2026 6 30]"
  unfolding s_def by code_simp+

end
