(* ===== verification/Texts.thy ===== *)
theory Texts
  imports Main
begin

text \<open>
  Text as the program handles it: \<open>str\<close> methods and the shapes of the regular expressions it uses.
  A text is a list of ASCII characters; folding the Turkish letters (app/tr_text.py) is a parameter of
  the definitions that need it. A pattern \<open>\b(a|b|c)\b\<close> of the source is \<open>word_search\<close> of its
  alternatives, with what has to follow the match as an argument.
\<close>

definition code_of :: "char \<Rightarrow> nat" where "code_of c = of_char c"

definition is_alpha :: "char \<Rightarrow> bool" where
  "is_alpha c \<longleftrightarrow> 65 \<le> code_of c \<and> code_of c \<le> 90 \<or> 97 \<le> code_of c \<and> code_of c \<le> 122"

definition is_digit :: "char \<Rightarrow> bool" where
  "is_digit c \<longleftrightarrow> 48 \<le> code_of c \<and> code_of c \<le> 57"

definition is_space :: "char \<Rightarrow> bool" where
  "is_space c \<longleftrightarrow> 9 \<le> code_of c \<and> code_of c \<le> 13 \<or> 28 \<le> code_of c \<and> code_of c \<le> 32"

definition lower :: "string \<Rightarrow> string" where
  "lower = map (\<lambda>c. if 65 \<le> code_of c \<and> code_of c \<le> 90 then char_of (code_of c + 32) else c)"

definition rstrip :: "string \<Rightarrow> string" where
  "rstrip s = rev (dropWhile is_space (rev s))"

definition strip :: "string \<Rightarrow> string" where
  "strip s = rev (dropWhile is_space (rev (dropWhile is_space s)))"

definition ends_with :: "char \<Rightarrow> string \<Rightarrow> bool" where
  "ends_with c s \<longleftrightarrow> s \<noteq> [] \<and> last s = c"

text \<open>\<open>\w\<close>, and the position of a match of one of the alternatives after a word boundary.\<close>

definition word_char :: "char \<Rightarrow> bool" where
  "word_char c \<longleftrightarrow> is_alpha c \<or> is_digit c \<or> c = CHR ''_''"

definition no_word :: "string \<Rightarrow> bool" where
  "no_word r \<longleftrightarrow> r = [] \<or> \<not> word_char (hd r)"

definition alt_at :: "string list \<Rightarrow> (string \<Rightarrow> bool) \<Rightarrow> string \<Rightarrow> bool" where
  "alt_at alts follow s \<longleftrightarrow>
     list_ex (\<lambda>a. take (length a) s = a \<and> follow (drop (length a) s)) alts"

fun word_search_from :: "string list \<Rightarrow> (string \<Rightarrow> bool) \<Rightarrow> bool \<Rightarrow> string \<Rightarrow> bool" where
  "word_search_from alts follow prev [] = False"
| "word_search_from alts follow prev (c # s) =
     (\<not> prev \<and> alt_at alts follow (c # s) \<or> word_search_from alts follow (word_char c) s)"

definition word_search :: "string list \<Rightarrow> (string \<Rightarrow> bool) \<Rightarrow> string \<Rightarrow> bool" where
  "word_search alts follow s = word_search_from alts follow False s"

text \<open>A pattern without a leading \<open>\b\<close>.\<close>

fun text_search :: "string list \<Rightarrow> (string \<Rightarrow> bool) \<Rightarrow> string \<Rightarrow> bool" where
  "text_search alts follow [] = False"
| "text_search alts follow (c # s) = (alt_at alts follow (c # s) \<or> text_search alts follow s)"

text \<open>The words of a text: its maximal runs of word characters.\<close>

fun words_from :: "string \<Rightarrow> string \<Rightarrow> string list" where
  "words_from acc [] = (if acc = [] then [] else [rev acc])"
| "words_from acc (c # s) =
     (if word_char c then words_from (c # acc) s
      else (if acc = [] then [] else [rev acc]) @ words_from [] s)"

definition words :: "string \<Rightarrow> string list" where "words s = words_from [] s"

text \<open>\<open>str(n)\<close> of a non-negative integer.\<close>

definition digit_char :: "nat \<Rightarrow> char" where "digit_char d = char_of (48 + d)"

fun str_of_nat :: "nat \<Rightarrow> string" where
  "str_of_nat n = (if n < 10 then [digit_char n] else str_of_nat (n div 10) @ [digit_char (n mod 10)])"

declare str_of_nat.simps [simp del]

subsection \<open>Lemmas\<close>

lemma length_str_of_nat: "0 < length (str_of_nat n)"
  by (subst str_of_nat.simps) simp

lemma digit_char_inj: "d < 10 \<Longrightarrow> e < 10 \<Longrightarrow> digit_char d = digit_char e \<Longrightarrow> d = e"
  unfolding digit_char_def by (drule arg_cong [of _ _ "of_char :: char \<Rightarrow> nat"]) (simp add: of_char_of)

lemma str_of_nat_digit: "n < 10 \<Longrightarrow> str_of_nat n = [digit_char n]"
  by (subst str_of_nat.simps) simp

lemma str_of_nat_more: "\<not> n < 10 \<Longrightarrow> str_of_nat n = str_of_nat (n div 10) @ [digit_char (n mod 10)]"
  by (subst str_of_nat.simps) simp

lemma str_of_nat_inj: "str_of_nat m = str_of_nat n \<Longrightarrow> m = n"
proof (induction m arbitrary: n rule: less_induct)
  case (less m)
  show ?case
  proof (cases "m < 10")
    case True
    have n: "n < 10"
    proof (rule ccontr)
      assume "\<not> n < 10"
      then show False
        using less.prems str_of_nat_digit [OF True] str_of_nat_more [of n] length_str_of_nat [of "n div 10"] by simp
    qed
    then show ?thesis
      using less.prems str_of_nat_digit [OF True] str_of_nat_digit [OF n] digit_char_inj [OF True n] by simp
  next
    case False
    have n: "\<not> n < 10"
    proof
      assume "n < 10"
      then show False
        using less.prems str_of_nat_digit [of n] str_of_nat_more [OF False] length_str_of_nat [of "m div 10"] by simp
    qed
    have eq: "str_of_nat (m div 10) = str_of_nat (n div 10)" "digit_char (m mod 10) = digit_char (n mod 10)"
      using less.prems str_of_nat_more [OF False] str_of_nat_more [OF n] by simp_all
    have "m div 10 = n div 10" by (rule less.IH [OF _ eq(1)]) (use False in simp)
    moreover have "m mod 10 = n mod 10" by (rule digit_char_inj [OF _ _ eq(2)]) simp_all
    ultimately show ?thesis by (metis div_mult_mod_eq)
  qed
qed

lemma length_strip_le: "length (strip s) \<le> length s"
  by (metis (no_types, lifting) strip_def length_dropWhile_le length_rev order_trans)

end
