(* ===== verification/Auth.thy ===== *)
theory Auth
  imports Workspace_Scope Texts
begin

text \<open>
  Accounts and sessions: app/auth.py (password policy, tokens, revocation), app/routers/auth.py
  (registration, login, rotation of refresh tokens, logout, change and reset of the password,
  change of the e-mail, OAuth) and app/dependencies.py (who a request is from).

  A token is its claims: the server signs with HS256, and PyJWT decodes exactly the strings that
  were signed with the key. The payloads signed so far are kept in \<open>minted\<close>, a log and not a table,
  and decoding a payload that is not in it fails. \<open>uuid4\<close> draws a new \<open>jti\<close>: the number of the token.
  The mail of the background tasks is the log \<open>outbox\<close>. bcrypt is a parameter. Times are whole
  seconds. An e-mail address is given after \<open>lower().strip()\<close>. The rate limits of these endpoints are
  those of theory Usage_Limits: a request here is one they let pass.
\<close>

subsection \<open>The password policy\<close>

definition windows :: "nat \<Rightarrow> string \<Rightarrow> string list" where
  "windows k s = map (\<lambda>i. take k (drop i s)) [0..<Suc (length s) - k]"

text \<open>The entry with a non-ASCII letter is left out.\<close>

definition yaygin_sifreler :: "string list" where
  "yaygin_sifreler = [
    ''12345678'', ''123456789'', ''1234567890'', ''123456789a'', ''1234567'', ''12341234'',
    ''password'', ''password1'', ''password12'', ''password123'', ''passw0rd'', ''p@ssw0rd'',
    ''qwerty123'', ''qwertyui'', ''qwertyuiop'', ''qwerty12'', ''1q2w3e4r'', ''1qaz2wsx'',
    ''zaq12wsx'', ''qazwsxedc'', ''asdfghjk'', ''asdfghjkl'', ''zxcvbnm1'', ''abcd1234'',
    ''11111111'', ''00000000'', ''22222222'', ''88888888'', ''aaaaaaaa'', ''abc12345'',
    ''iloveyou'', ''iloveyou1'', ''sunshine'', ''princess'', ''football'', ''baseball'',
    ''superman'', ''batman123'', ''trustno1'', ''starwars'', ''michael1'', ''jennifer'',
    ''monkey12'', ''dragon123'', ''master123'', ''shadow12'', ''welcome1'', ''welcome123'',
    ''letmein1'', ''letmein123'', ''admin123'', ''administrator'', ''root1234'', ''toor1234'',
    ''changeme'', ''secret12'', ''computer'', ''internet'', ''whatever'', ''freedom1'',
    ''parola123'', ''parola12'', ''parola1234'', ''sifre123'', ''sifre1234'', ''sifrem123'',
    ''turkiye1'', ''turkiye123'', ''istanbul'', ''istanbul1'', ''ankara123'', ''izmir123'',
    ''galatasaray'', ''fenerbahce'', ''besiktas'', ''besiktas1'', ''trabzonspor'', ''cimbom1'',
    ''deneme123'', ''deneme1234'', ''asdasd123'', ''qweqwe123'', ''merhaba1'', ''merhaba123'',
    ''ahmet123'', ''mehmet123'', ''mustafa1'', ''fatma123'', ''ayse1234'', ''hasan123'',
    ''seninle1'', ''askim123'', ''canim123'', ''bebegim1'', ''kanka123'', ''abicim1'',
    ''banka123'', ''hesap123'', ''para1234'', ''kredi123'', ''maas1234'',
    ''12345678a'', ''a1234567'', ''1234abcd'', ''abcd12345'', ''gizli123'', ''guvenli1'']"

datatype problem = Too_Short | Too_Common | Repeated | Only_Digits | Own_Identity | Run_Of_Chars

definition or_empty :: "string option \<Rightarrow> string" where
  "or_empty v = (case v of None \<Rightarrow> [] | Some x \<Rightarrow> x)"

text \<open>The password's letters begin with those of the address's local part, or of the name.\<close>

definition own_identity :: "string \<Rightarrow> string \<Rightarrow> bool" where
  "own_identity p kaynak =
     (let parca = filter is_alpha (lower (strip (takeWhile (\<lambda>c. c \<noteq> CHR ''@'') kaynak)));
          cekirdek = filter is_alpha (lower p)
      in 3 \<le> length parca \<and> take (length parca) cekirdek = parca)"

definition password_problems :: "string \<Rightarrow> string option \<Rightarrow> string option \<Rightarrow> problem list" where
  "password_problems password email name =
     (let p = strip password in
      (if length p < 8 then [Too_Short] else []) @
      (if lower p \<in> set yaygin_sifreler then [Too_Common] else []) @
      (if p \<noteq> [] \<and> length (remdups p) \<le> 2 then [Repeated] else []) @
      (if p \<noteq> [] \<and> list_all is_digit p then [Only_Digits] else []) @
      (if own_identity p (or_empty email) \<or> own_identity p (or_empty name) then [Own_Identity] else []) @
      (if list_ex (\<lambda>dizi. list_ex (\<lambda>x. x \<in> set (windows 6 (lower p))) (windows 6 dizi))
           [''abcdefghijklmnopqrstuvwxyz'', ''0123456789'', ''qwertyuiop'', ''asdfghjkl'']
       then [Run_Of_Chars] else []))"

subsection \<open>Tables and configuration\<close>

record auth_user =
  au_id :: nat
  au_name :: string
  au_email :: "string option"
  password_hash :: "string option"
  oauth_provider :: "string option"
  oauth_sub :: "string option"
  kvkk_consent_version :: "string option"
  kvkk_consent_at :: "int option"
  au_active :: bool
  token_version :: nat
  email_verified_at :: "int option"

datatype token_type = Access | Refresh | Oauth_Exchange | Email_Verify | Pwreset | Email_Change | Oauth_State

text \<open>\<open>cl_new\<close> and \<open>cl_old\<close> are claims of the e-mail change only, which has no \<open>tv\<close>: an absent \<open>tv\<close>
  reads as 0.\<close>

record claims =
  cl_sub :: nat
  cl_type :: token_type
  cl_jti :: nat
  cl_tv :: nat
  cl_new :: string
  cl_old :: string
  cl_iat :: int
  cl_exp :: int

record auth_db =
  users :: "auth_user list"
  revoked :: "(nat \<times> int) list"
  ws_tables :: ws_state
  beta_invites :: "beta_invite list"
  minted :: "claims list"
  outbox :: "(string \<times> claims) list"

text \<open>bcrypt and the environment variables. A salt is drawn with each hash.\<close>

record auth_env =
  hashpw :: "string \<Rightarrow> nat \<Rightarrow> string"
  checkpw :: "string \<Rightarrow> string \<Rightarrow> bool"
  e_auth_on :: bool
  e_reg :: "reg_mode option"
  e_verify :: "bool option"
  e_prod :: bool
  e_smtp :: bool

definition invite_required :: "auth_env \<Rightarrow> bool" where
  "invite_required e \<longleftrightarrow> registration_mode (e_reg e) (e_prod e) = Invite_Only"

definition verification_on :: "auth_env \<Rightarrow> bool" where
  "verification_on e = email_verification_required (e_verify e) (e_reg e) (e_prod e)"

text \<open>\<open>AUTH_ENABLED\<close>, already stripped and lowered.\<close>

definition auth_enabled :: "string \<Rightarrow> bool" where
  "auth_enabled v \<longleftrightarrow> v \<notin> {''0'', ''false'', ''no'', ''off'', ''hayir'', ''kapali''}"

datatype auth_error = Bad | Unauthenticated | Denied | Missing | Taken | Invalid

datatype reply = Tokens claims claims | Generic | Dev_Token claims | Code claims | Done | Me nat

subsection \<open>Tokens\<close>

definition access_ttl :: int where "access_ttl = 30 * 60"
definition refresh_ttl :: int where "refresh_ttl = 30 * 24 * 60 * 60"

definition mint ::
  "token_type \<Rightarrow> nat \<Rightarrow> int \<Rightarrow> nat \<Rightarrow> string \<Rightarrow> string \<Rightarrow> int \<Rightarrow> auth_db \<Rightarrow> auth_db \<times> claims" where
  "mint ty sub ttl tv new_a old_a now s =
     (let c = \<lparr>cl_sub = sub, cl_type = ty, cl_jti = length (minted s), cl_tv = tv, cl_new = new_a, cl_old = old_a,
               cl_iat = now, cl_exp = now + ttl\<rparr>
      in (s\<lparr>minted := minted s @ [c]\<rparr>, c))"

definition create_token :: "token_type \<Rightarrow> nat \<Rightarrow> int \<Rightarrow> nat \<Rightarrow> int \<Rightarrow> auth_db \<Rightarrow> auth_db \<times> claims" where
  "create_token ty sub ttl tv = mint ty sub ttl tv [] []"

definition create_access_token :: "nat \<Rightarrow> nat \<Rightarrow> int \<Rightarrow> auth_db \<Rightarrow> auth_db \<times> claims" where
  "create_access_token u = create_token Access u access_ttl"

definition create_refresh_token :: "nat \<Rightarrow> nat \<Rightarrow> int \<Rightarrow> auth_db \<Rightarrow> auth_db \<times> claims" where
  "create_refresh_token u = create_token Refresh u refresh_ttl"

definition create_oauth_exchange_code :: "nat \<Rightarrow> int \<Rightarrow> auth_db \<Rightarrow> auth_db \<times> claims" where
  "create_oauth_exchange_code u = create_token Oauth_Exchange u 60 0"

definition create_email_verification_token :: "nat \<Rightarrow> int \<Rightarrow> auth_db \<Rightarrow> auth_db \<times> claims" where
  "create_email_verification_token u = create_token Email_Verify u (48 * 60 * 60) 0"

definition create_password_reset_token :: "nat \<Rightarrow> nat \<Rightarrow> int \<Rightarrow> auth_db \<Rightarrow> auth_db \<times> claims" where
  "create_password_reset_token u = create_token Pwreset u (30 * 60)"

definition create_email_change_token :: "nat \<Rightarrow> string \<Rightarrow> string \<Rightarrow> int \<Rightarrow> auth_db \<Rightarrow> auth_db \<times> claims" where
  "create_email_change_token u new_a old_a = mint Email_Change u (2 * 60 * 60) 0 new_a old_a"

definition decode_token :: "token_type \<Rightarrow> int \<Rightarrow> auth_db \<Rightarrow> claims option \<Rightarrow> claims option" where
  "decode_token expected now s tok =
     (case tok of None \<Rightarrow> None
      | Some c \<Rightarrow> if c \<notin> set (minted s) \<or> cl_exp c \<le> now \<or> now < cl_iat c \<or> cl_type c \<noteq> expected then None
                 else Some c)"

definition token_revoked :: "auth_db \<Rightarrow> nat \<Rightarrow> bool" where
  "token_revoked s j \<longleftrightarrow> j \<in> fst ` set (revoked s)"

definition revoke_jti :: "claims \<Rightarrow> auth_db \<Rightarrow> auth_db" where
  "revoke_jti c s = (if token_revoked s (cl_jti c) then s else s\<lparr>revoked := revoked s @ [(cl_jti c, cl_exp c)]\<rparr>)"

definition get_user :: "auth_db \<Rightarrow> nat \<Rightarrow> auth_user option" where
  "get_user s i = find_row au_id i (users s)"

definition user_by_email :: "auth_db \<Rightarrow> string \<Rightarrow> auth_user option" where
  "user_by_email s m = List.find (\<lambda>u. au_email u = Some m) (users s)"

definition upd_user :: "nat \<Rightarrow> (auth_user \<Rightarrow> auth_user) \<Rightarrow> auth_db \<Rightarrow> auth_db" where
  "upd_user i f s = s\<lparr>users := upd_row au_id i f (users s)\<rparr>"

definition token_version_ok :: "claims \<Rightarrow> auth_user \<Rightarrow> bool" where
  "token_version_ok c u \<longleftrightarrow> cl_tv c = token_version u"

definition has_password :: "auth_user \<Rightarrow> bool" where
  "has_password u \<longleftrightarrow> or_empty (password_hash u) \<noteq> []"

definition hash_password :: "auth_env \<Rightarrow> string \<Rightarrow> auth_db \<Rightarrow> string" where
  "hash_password e p s = hashpw e p (length (minted s))"

definition verify_password :: "auth_env \<Rightarrow> string \<Rightarrow> string option \<Rightarrow> bool" where
  "verify_password e p h = (case h of None \<Rightarrow> False | Some x \<Rightarrow> x \<noteq> [] \<and> checkpw e p x)"

definition issue_tokens :: "nat \<Rightarrow> nat \<Rightarrow> int \<Rightarrow> auth_db \<Rightarrow> auth_db \<times> (auth_error + reply)" where
  "issue_tokens u tv now s =
     (let (s1, a) = create_access_token u tv now s; (s2, r) = create_refresh_token u tv now s1
      in (s2, Inr (Tokens a r)))"

definition send :: "string \<Rightarrow> claims \<Rightarrow> auth_db \<Rightarrow> auth_db" where
  "send to c s = s\<lparr>outbox := outbox s @ [(to, c)]\<rparr>"

subsection \<open>Who a request is from\<close>

definition fallback_user :: "auth_db \<Rightarrow> auth_error + auth_user" where
  "fallback_user s = (case sort_key au_id (users s) of [] \<Rightarrow> Inl Missing | u # _ \<Rightarrow> Inr u)"

text \<open>\<open>hdr\<close>: the bearer token of the request, \<open>None\<close> when there is none.\<close>

definition get_current_user ::
  "auth_env \<Rightarrow> int \<Rightarrow> auth_db \<Rightarrow> claims option option \<Rightarrow> auth_error + auth_user" where
  "get_current_user e now s hdr =
     (case hdr of
        None \<Rightarrow> if e_auth_on e then Inl Unauthenticated else fallback_user s
      | Some tok \<Rightarrow>
          (let bad = (if e_auth_on e then Inl Unauthenticated else fallback_user s) in
           case decode_token Access now s tok of None \<Rightarrow> bad
           | Some c \<Rightarrow> (case get_user s (cl_sub c) of None \<Rightarrow> bad
             | Some u \<Rightarrow> if \<not> au_active u \<or> token_revoked s (cl_jti c) \<or> \<not> token_version_ok c u then bad
                         else Inr u)))"

subsection \<open>Registration and login\<close>

record register_in =
  ri_code :: "string option"
  ri_email :: string
  ri_password :: string
  ri_user_name :: "string option"
  ri_consent :: bool

definition guncel_surum :: string where "guncel_surum = ''v4''"

text \<open>\<open>personal_name\<close> is the display name of the personal workspace.\<close>

definition personal_name :: "string \<Rightarrow> string" where
  "personal_name nm = nm @ '' (Kisisel)''"

definition add_user :: "auth_user \<Rightarrow> auth_db \<Rightarrow> auth_db" where
  "add_user u s = s\<lparr>users := users s @ [u],
     ws_tables := fst (ensure_personal_workspace (ws_tables s) (au_id u) (personal_name (au_name u)))\<rparr>"

definition new_user_id :: "auth_db \<Rightarrow> nat" where
  "new_user_id s = next_key au_id (users s)"

text \<open>The new row, its personal workspace and the consumed invitation, in one transaction.\<close>

definition open_account :: "int \<Rightarrow> auth_user \<Rightarrow> beta_invite option \<Rightarrow> auth_db \<Rightarrow> auth_db" where
  "open_account now u davet s =
     (let s1 = add_user u s
      in case davet of None \<Rightarrow> s1
         | Some d \<Rightarrow> s1\<lparr>beta_invites := davet_kullan now (beta_invites s1) (bi_id d) (au_id u)\<rparr>)"

text \<open>The invitation an account may be opened with: \<open>None\<close> when the gate stays shut, \<open>Some None\<close> when
  there is no gate.\<close>

definition gate :: "auth_env \<Rightarrow> beta_invite option \<Rightarrow> beta_invite option option" where
  "gate e davet = (if invite_required e then map_option Some davet else Some None)"

definition registered_user :: "auth_env \<Rightarrow> int \<Rightarrow> register_in \<Rightarrow> auth_db \<Rightarrow> auth_user" where
  "registered_user e now b s = \<lparr>au_id = new_user_id s,
     au_name = (if or_empty (ri_user_name b) \<noteq> [] then or_empty (ri_user_name b)
                else takeWhile (\<lambda>c. c \<noteq> CHR ''@'') (ri_email b)),
     au_email = Some (ri_email b), password_hash = Some (hash_password e (ri_password b) s),
     oauth_provider = None, oauth_sub = None, kvkk_consent_version = Some guncel_surum,
     kvkk_consent_at = Some now, au_active = \<not> verification_on e, token_version = 0, email_verified_at = None\<rparr>"

definition password_length_ok :: "string \<Rightarrow> bool" where
  "password_length_ok p \<longleftrightarrow> 8 \<le> length p \<and> length p \<le> 72"

definition register :: "auth_env \<Rightarrow> int \<Rightarrow> register_in \<Rightarrow> auth_db \<Rightarrow> auth_db \<times> (auth_error + reply)" where
  "register e now b s =
     (if \<not> password_length_ok (ri_password b) then (s, Inl Invalid)
      else if \<not> ri_consent b then (s, Inl Invalid)
      else if password_problems (ri_password b) (Some (ri_email b)) (ri_user_name b) \<noteq> [] then (s, Inl Invalid)
      else case gate e (davet_dogrula now (beta_invites s) (or_empty (ri_code b)) (ri_email b)) of
        None \<Rightarrow> (s, Inl Denied)
      | Some davet \<Rightarrow>
          (case user_by_email s (ri_email b) of
             Some _ \<Rightarrow> if \<not> verification_on e then (s, Inl Taken) else (s, Inr Generic)
           | None \<Rightarrow>
              (let u = registered_user e now b s; s2 = open_account now u davet s
               in if verification_on e
                  then (let (s3, c) = create_email_verification_token (au_id u) now s2
                        in (if e_smtp e then send (ri_email b) c s3 else s3, Inr Generic))
                  else issue_tokens (au_id u) 0 now s2)))"

definition verify_email :: "int \<Rightarrow> claims option \<Rightarrow> auth_db \<Rightarrow> auth_db \<times> (auth_error + reply)" where
  "verify_email now tok s =
     (case decode_token Email_Verify now s tok of None \<Rightarrow> (s, Inl Bad)
      | Some c \<Rightarrow>
          if token_revoked s (cl_jti c) then (s, Inl Bad)
          else (case get_user s (cl_sub c) of None \<Rightarrow> (s, Inl Missing)
            | Some u \<Rightarrow> (revoke_jti c (upd_user (au_id u)
                (\<lambda>u. u\<lparr>email_verified_at := Some now, au_active := True\<rparr>) s), Inr Done)))"

definition login :: "auth_env \<Rightarrow> int \<Rightarrow> string \<Rightarrow> string \<Rightarrow> auth_db \<Rightarrow> auth_db \<times> (auth_error + reply)" where
  "login e now email password s =
     (case user_by_email s email of None \<Rightarrow> (s, Inl Unauthenticated)
      | Some u \<Rightarrow> if \<not> verify_password e password (password_hash u) \<or> \<not> au_active u then (s, Inl Unauthenticated)
                  else issue_tokens (au_id u) (token_version u) now s)"

subsection \<open>Rotation and logout\<close>

definition bump :: "auth_user \<Rightarrow> auth_user" where
  "bump u = u\<lparr>token_version := token_version u + 1\<rparr>"

text \<open>The checks of \<open>refresh\<close>, on the tables as they are before the old token is revoked: the user
  the new tokens are for. A token presented again drops all sessions of its user.\<close>

definition refresh_check :: "int \<Rightarrow> claims option \<Rightarrow> auth_db \<Rightarrow> auth_db \<times> (auth_error + (auth_user \<times> claims))" where
  "refresh_check now tok s =
     (case decode_token Refresh now s tok of None \<Rightarrow> (s, Inl Unauthenticated)
      | Some c \<Rightarrow>
          if token_revoked s (cl_jti c) then
            (case get_user s (cl_sub c) of None \<Rightarrow> (s, Inl Unauthenticated)
             | Some u \<Rightarrow> (upd_user (au_id u) bump s, Inl Unauthenticated))
          else (case get_user s (cl_sub c) of None \<Rightarrow> (s, Inl Unauthenticated)
            | Some u \<Rightarrow> if \<not> au_active u then (s, Inl Unauthenticated)
                        else if \<not> token_version_ok c u then (s, Inl Unauthenticated)
                        else (s, Inr (u, c))))"

text \<open>The rotation: \<open>revoke_jti\<close> commits, then the new pair is signed.\<close>

definition refresh_rotate :: "int \<Rightarrow> auth_user \<Rightarrow> claims \<Rightarrow> auth_db \<Rightarrow> auth_db \<times> (auth_error + reply)" where
  "refresh_rotate now u c s = issue_tokens (au_id u) (token_version u) now (revoke_jti c s)"

definition refresh :: "int \<Rightarrow> claims option \<Rightarrow> auth_db \<Rightarrow> auth_db \<times> (auth_error + reply)" where
  "refresh now tok s =
     (case refresh_check now tok s of (s', Inl err) \<Rightarrow> (s', Inl err)
      | (s', Inr (u, c)) \<Rightarrow> refresh_rotate now u c s')"

definition logout ::
  "int \<Rightarrow> claims option option \<Rightarrow> claims option \<Rightarrow> auth_db \<Rightarrow> auth_db \<times> (auth_error + reply)" where
  "logout now hdr tok s =
     (let s1 = (case hdr of None \<Rightarrow> s
          | Some t \<Rightarrow> (case decode_token Access now s t of None \<Rightarrow> s | Some a \<Rightarrow> revoke_jti a s))
      in (case decode_token Refresh now s1 tok of None \<Rightarrow> (s1, Inr Done)
          | Some c \<Rightarrow> (revoke_jti c s1, Inr Done)))"

subsection \<open>Passwords\<close>

text \<open>The new password passes the policy alone: address and name are not given to it here.\<close>

definition set_hash :: "auth_env \<Rightarrow> string \<Rightarrow> auth_user \<Rightarrow> auth_db \<Rightarrow> auth_db" where
  "set_hash e p u s = upd_user (au_id u) (\<lambda>u. bump (u\<lparr>password_hash := Some (hash_password e p s)\<rparr>)) s"

definition new_password_ok :: "string \<Rightarrow> bool" where
  "new_password_ok p \<longleftrightarrow> password_problems p None None = []"

definition change_password ::
  "auth_env \<Rightarrow> int \<Rightarrow> claims option option \<Rightarrow> string \<Rightarrow> string \<Rightarrow> auth_db \<Rightarrow> auth_db \<times> (auth_error + reply)" where
  "change_password e now hdr current new_p s =
     (case get_current_user e now s hdr of Inl err \<Rightarrow> (s, Inl err)
      | Inr u \<Rightarrow>
          if \<not> password_length_ok new_p then (s, Inl Invalid)
          else if \<not> has_password u then (s, Inl Bad)
          else if \<not> verify_password e current (password_hash u) then (s, Inl Unauthenticated)
          else if \<not> new_password_ok new_p then (s, Inl Invalid)
          else issue_tokens (au_id u) (token_version u + 1) now (set_hash e new_p u s))"

definition set_password ::
  "auth_env \<Rightarrow> int \<Rightarrow> claims option option \<Rightarrow> string \<Rightarrow> auth_db \<Rightarrow> auth_db \<times> (auth_error + reply)" where
  "set_password e now hdr new_p s =
     (case get_current_user e now s hdr of Inl err \<Rightarrow> (s, Inl err)
      | Inr u \<Rightarrow>
          if \<not> password_length_ok new_p then (s, Inl Invalid)
          else if has_password u then (s, Inl Bad)
          else if \<not> new_password_ok new_p then (s, Inl Invalid)
          else issue_tokens (au_id u) (token_version u + 1) now (set_hash e new_p u s))"

definition password_reset_request ::
  "auth_env \<Rightarrow> int \<Rightarrow> string \<Rightarrow> auth_db \<Rightarrow> auth_db \<times> (auth_error + reply)" where
  "password_reset_request e now email s =
     (case user_by_email s email of None \<Rightarrow> (s, Inr Generic)
      | Some u \<Rightarrow>
          (let (s1, c) = create_password_reset_token (au_id u) (token_version u) now s
           in if e_smtp e then (send email c s1, Inr Generic)
              else if e_prod e then (s1, Inr Generic)
              else (s1, Inr (Dev_Token c))))"

definition password_reset_confirm ::
  "auth_env \<Rightarrow> int \<Rightarrow> claims option \<Rightarrow> string \<Rightarrow> auth_db \<Rightarrow> auth_db \<times> (auth_error + reply)" where
  "password_reset_confirm e now tok new_p s =
     (if \<not> password_length_ok new_p then (s, Inl Invalid)
      else case decode_token Pwreset now s tok of None \<Rightarrow> (s, Inl Bad)
      | Some c \<Rightarrow>
          if token_revoked s (cl_jti c) then (s, Inl Bad)
          else (case get_user s (cl_sub c) of None \<Rightarrow> (s, Inl Missing)
            | Some u \<Rightarrow>
                if \<not> au_active u then (s, Inl Denied)
                else if \<not> token_version_ok c u then (s, Inl Bad)
                else if \<not> new_password_ok new_p then (s, Inl Invalid)
                else (revoke_jti c (set_hash e new_p u s), Inr Done)))"

subsection \<open>The e-mail address\<close>

definition change_email ::
  "auth_env \<Rightarrow> int \<Rightarrow> claims option option \<Rightarrow> string \<Rightarrow> string option \<Rightarrow> auth_db \<Rightarrow>
   auth_db \<times> (auth_error + reply)" where
  "change_email e now hdr yeni current s =
     (case get_current_user e now s hdr of Inl err \<Rightarrow> (s, Inl err)
      | Inr u \<Rightarrow>
          if has_password u \<and> or_empty current = [] then (s, Inl Invalid)
          else if has_password u \<and> \<not> verify_password e (or_empty current) (password_hash u)
          then (s, Inl Unauthenticated)
          else if yeni = or_empty (au_email u) then (s, Inl Bad)
          else if user_by_email s yeni \<noteq> None then (s, Inr Generic)
          else (let (s1, c) = create_email_change_token (au_id u) yeni (or_empty (au_email u)) now s
            in if e_smtp e then (send yeni c s1, Inr Generic)
               else if e_prod e then (s1, Inr Generic)
               else (s1, Inr (Dev_Token c))))"

definition change_email_confirm :: "int \<Rightarrow> claims option \<Rightarrow> auth_db \<Rightarrow> auth_db \<times> (auth_error + reply)" where
  "change_email_confirm now tok s =
     (case decode_token Email_Change now s tok of None \<Rightarrow> (s, Inl Bad)
      | Some c \<Rightarrow>
          if token_revoked s (cl_jti c) then (s, Inl Bad)
          else (case get_user s (cl_sub c) of None \<Rightarrow> (s, Inl Missing)
            | Some u \<Rightarrow>
                if \<not> au_active u then (s, Inl Denied)
                else if or_empty (au_email u) \<noteq> cl_old c then (s, Inl Bad)
                else if cl_new c = [] then (s, Inl Bad)
                else if list_ex (\<lambda>v. au_email v = Some (cl_new c) \<and> au_id v \<noteq> au_id u) (users s) then (s, Inl Taken)
                else (revoke_jti c (upd_user (au_id u)
                  (\<lambda>u. bump (u\<lparr>au_email := Some (cl_new c), email_verified_at := Some now\<rparr>)) s), Inr Done)))"

subsection \<open>OAuth\<close>

record oauth_info =
  oi_provider :: string
  oi_sub :: string
  oi_email :: string
  oi_name :: "string option"

definition new_state :: "int \<Rightarrow> auth_db \<Rightarrow> auth_db \<times> claims" where
  "new_state = create_token Oauth_State 0 600 0"

definition consume_state :: "int \<Rightarrow> claims option \<Rightarrow> auth_db \<Rightarrow> auth_db \<times> bool" where
  "consume_state now st s =
     (case decode_token Oauth_State now s st of None \<Rightarrow> (s, False)
      | Some c \<Rightarrow> if token_revoked s (cl_jti c) then (s, False) else (revoke_jti c s, True))"

definition oauth_login :: "bool \<Rightarrow> bool \<Rightarrow> int \<Rightarrow> auth_db \<Rightarrow> auth_db \<times> (auth_error + reply)" where
  "oauth_login supported configured now s =
     (if \<not> supported then (s, Inl Missing)
      else if \<not> configured then (s, Inl Bad)
      else (let (s1, c) = new_state now s in (s1, Inr (Code c))))"

text \<open>The account the provider's address logs in to, linked or opened when needed.\<close>

definition oauth_user :: "int \<Rightarrow> oauth_info \<Rightarrow> auth_db \<Rightarrow> auth_user" where
  "oauth_user now info s = \<lparr>au_id = new_user_id s,
     au_name = (if or_empty (oi_name info) \<noteq> [] then or_empty (oi_name info)
                else takeWhile (\<lambda>c. c \<noteq> CHR ''@'') (oi_email info)),
     au_email = Some (oi_email info), password_hash = None, oauth_provider = Some (oi_provider info),
     oauth_sub = Some (oi_sub info), kvkk_consent_version = Some guncel_surum, kvkk_consent_at = Some now,
     au_active = True, token_version = 0, email_verified_at = None\<rparr>"

definition oauth_account ::
  "auth_env \<Rightarrow> int \<Rightarrow> oauth_info \<Rightarrow> auth_db \<Rightarrow> auth_db \<times> (auth_error + nat)" where
  "oauth_account e now info s =
     (case user_by_email s (oi_email info) of
        Some u \<Rightarrow>
          if \<not> au_active u then (s, Inl Denied)
          else (if or_empty (oauth_provider u) = []
                then upd_user (au_id u)
                  (\<lambda>u. u\<lparr>oauth_provider := Some (oi_provider info), oauth_sub := Some (oi_sub info)\<rparr>) s
                else s, Inr (au_id u))
      | None \<Rightarrow>
          (case gate e (eposta_daveti_bul now (beta_invites s) (oi_email info)) of
             None \<Rightarrow> (s, Inl Denied)
           | Some davet \<Rightarrow>
               (open_account now (oauth_user now info s) davet s, Inr (au_id (oauth_user now info s)))))"

text \<open>The end of the callback: the personal workspace is made sure of and the one-time code goes into
  the redirect.\<close>

definition oauth_finish :: "int \<Rightarrow> nat \<Rightarrow> auth_db \<Rightarrow> auth_db \<times> (auth_error + reply)" where
  "oauth_finish now i s =
     (let nm = (case get_user s i of None \<Rightarrow> [] | Some u \<Rightarrow> au_name u);
          s2 = s\<lparr>ws_tables := fst (ensure_personal_workspace (ws_tables s) i (personal_name nm))\<rparr>;
          (s3, c) = create_oauth_exchange_code i now s2
      in (s3, Inr (Code c)))"

text \<open>\<open>info\<close> is what the provider answered for the code, \<open>None\<close> when the exchange failed.\<close>

definition oauth_callback ::
  "auth_env \<Rightarrow> int \<Rightarrow> claims option \<Rightarrow> oauth_info option \<Rightarrow> auth_db \<Rightarrow> auth_db \<times> (auth_error + reply)" where
  "oauth_callback e now st info s0 =
     (case consume_state now st s0 of (s, ok) \<Rightarrow>
      if \<not> ok then (s, Inl Bad)
      else case info of None \<Rightarrow> (s, Inl Bad)
      | Some row \<Rightarrow>
          (case oauth_account e now row s of
             (s1, Inl err) \<Rightarrow> (s1, Inl err)
           | (s1, Inr i) \<Rightarrow> oauth_finish now i s1))"

definition oauth_exchange :: "int \<Rightarrow> claims option \<Rightarrow> auth_db \<Rightarrow> auth_db \<times> (auth_error + reply)" where
  "oauth_exchange now tok s =
     (case decode_token Oauth_Exchange now s tok of None \<Rightarrow> (s, Inl Unauthenticated)
      | Some c \<Rightarrow>
          if token_revoked s (cl_jti c) then (s, Inl Unauthenticated)
          else (case get_user s (cl_sub c) of None \<Rightarrow> (s, Inl Unauthenticated)
            | Some u \<Rightarrow> if \<not> au_active u then (s, Inl Unauthenticated)
                        else issue_tokens (au_id u) (token_version u) now (revoke_jti c s)))"

subsection \<open>Consent\<close>

definition kvkk_consent_gerekli :: "auth_user \<Rightarrow> bool" where
  "kvkk_consent_gerekli u \<longleftrightarrow> kvkk_consent_version u \<noteq> Some guncel_surum"

definition kvkk_consent_tazele ::
  "auth_env \<Rightarrow> int \<Rightarrow> claims option option \<Rightarrow> auth_db \<Rightarrow> auth_db \<times> (auth_error + reply)" where
  "kvkk_consent_tazele e now hdr s =
     (case get_current_user e now s hdr of Inl err \<Rightarrow> (s, Inl err)
      | Inr u \<Rightarrow> (upd_user (au_id u)
          (\<lambda>u. u\<lparr>kvkk_consent_version := Some guncel_surum, kvkk_consent_at := Some now\<rparr>) s, Inr Done))"

subsection \<open>Requests\<close>

datatype auth_request =
    Rq_Register register_in
  | Rq_Verify "claims option"
  | Rq_Login string string
  | Rq_Refresh "claims option"
  | Rq_Logout "claims option option" "claims option"
  | Rq_Change_Password "claims option option" string string
  | Rq_Set_Password "claims option option" string
  | Rq_Reset_Request string
  | Rq_Reset_Confirm "claims option" string
  | Rq_Change_Email "claims option option" string "string option"
  | Rq_Change_Email_Confirm "claims option"
  | Rq_Oauth_Login bool bool
  | Rq_Oauth_Callback "claims option" "oauth_info option"
  | Rq_Oauth_Exchange "claims option"
  | Rq_Consent "claims option option"
  | Rq_Me "claims option option"

definition handle :: "auth_env \<Rightarrow> int \<Rightarrow> auth_request \<Rightarrow> auth_db \<Rightarrow> auth_db \<times> (auth_error + reply)" where
  "handle e now rq s = (case rq of
     Rq_Register b \<Rightarrow> register e now b s
   | Rq_Verify tok \<Rightarrow> verify_email now tok s
   | Rq_Login m p \<Rightarrow> login e now m p s
   | Rq_Refresh tok \<Rightarrow> refresh now tok s
   | Rq_Logout hdr tok \<Rightarrow> logout now hdr tok s
   | Rq_Change_Password hdr p q \<Rightarrow> change_password e now hdr p q s
   | Rq_Set_Password hdr q \<Rightarrow> set_password e now hdr q s
   | Rq_Reset_Request m \<Rightarrow> password_reset_request e now m s
   | Rq_Reset_Confirm tok q \<Rightarrow> password_reset_confirm e now tok q s
   | Rq_Change_Email hdr m p \<Rightarrow> change_email e now hdr m p s
   | Rq_Change_Email_Confirm tok \<Rightarrow> change_email_confirm now tok s
   | Rq_Oauth_Login a b \<Rightarrow> oauth_login a b now s
   | Rq_Oauth_Callback st info \<Rightarrow> oauth_callback e now st info s
   | Rq_Oauth_Exchange tok \<Rightarrow> oauth_exchange now tok s
   | Rq_Consent hdr \<Rightarrow> kvkk_consent_tazele e now hdr s
   | Rq_Me hdr \<Rightarrow> (case get_current_user e now s hdr of Inl err \<Rightarrow> (s, Inl err) | Inr u \<Rightarrow> (s, Inr (Me (au_id u)))))"

text \<open>Requests in any order, with time going on between them.\<close>

inductive auth_step :: "auth_env \<Rightarrow> int \<times> auth_db \<Rightarrow> int \<times> auth_db \<Rightarrow> bool" for e where
  tick: "now \<le> now' \<Longrightarrow> auth_step e (now, s) (now', s)"
| request: "handle e now rq s = (s', r) \<Longrightarrow> auth_step e (now, s) (now, s')"

definition auth_run :: "auth_env \<Rightarrow> int \<times> auth_db \<Rightarrow> int \<times> auth_db \<Rightarrow> bool" where
  "auth_run e = (auth_step e)\<^sup>*\<^sup>*"

definition empty_auth_db :: auth_db where
  "empty_auth_db = \<lparr>users = [], revoked = [], ws_tables = \<lparr>workspaces = [], memberships = []\<rparr>, beta_invites = [],
     minted = [], outbox = []\<rparr>"

end
