(* ===== verification/Auth_Laws.thy ===== *)
theory Auth_Laws
  imports Auth
begin

text \<open>
  The protocol of theory Auth: what every request keeps (\<open>auth_inv\<close>, \<open>grows\<close>), who is authenticated,
  which events drop sessions for good, that one-time tokens work once, that the closed beta's gate
  and the password policy hold for every account, and that the public endpoints do not tell whether
  an address has an account. The last section shows where the code falls short: a pending e-mail
  change survives a change of the password, a refresh token presented twice at once yields two
  pairs, and the policy on the own name is that of the registration only.
\<close>

subsection \<open>The invariant\<close>

definition has_version :: "auth_db \<Rightarrow> nat \<Rightarrow> nat \<Rightarrow> bool" where
  "has_version s i n \<longleftrightarrow> (\<exists>u \<in> set (users s). au_id u = i \<and> n \<le> token_version u)"

definition user_of :: "auth_db \<Rightarrow> claims \<Rightarrow> bool" where
  "user_of s c \<longleftrightarrow> has_version s (cl_sub c) (cl_tv c)"

definition mails_unique :: "auth_user list \<Rightarrow> bool" where
  "mails_unique us \<longleftrightarrow> (\<forall>m i j. (i, Some m) \<in> set (map (\<lambda>u. (au_id u, au_email u)) us) \<longrightarrow>
     (j, Some m) \<in> set (map (\<lambda>u. (au_id u, au_email u)) us) \<longrightarrow> i = j)"

definition auth_inv :: "auth_db \<Rightarrow> bool" where
  "auth_inv s \<longleftrightarrow> distinct (map au_id (users s)) \<and>
     mails_unique (users s) \<and>
     map cl_jti (minted s) = [0..<length (minted s)] \<and>
     (\<forall>c \<in> set (minted s). cl_type c \<noteq> Oauth_State \<longrightarrow> user_of s c)"

text \<open>What no request takes back: signed tokens, revocations, accounts and their token versions.\<close>

definition grows :: "auth_db \<Rightarrow> auth_db \<Rightarrow> bool" where
  "grows s s' \<longleftrightarrow> set (minted s) \<subseteq> set (minted s') \<and> fst ` set (revoked s) \<subseteq> fst ` set (revoked s') \<and>
     (\<forall>i n. has_version s i n \<longrightarrow> has_version s' i n)"

definition keeps :: "auth_db \<Rightarrow> auth_db \<Rightarrow> bool" where
  "keeps s s' \<longleftrightarrow> (auth_inv s \<longrightarrow> auth_inv s' \<and> grows s s')"

lemma grows_refl [simp]: "grows s s"
  by (auto simp: grows_def)

lemma grows_trans:
  assumes "grows s t" "grows t w"
  shows "grows s w"
proof -
  have "set (minted s) \<subseteq> set (minted w)"
    using assms unfolding grows_def by (elim conjE) (rule subset_trans)
  moreover have "fst ` set (revoked s) \<subseteq> fst ` set (revoked w)"
    using assms unfolding grows_def by (elim conjE) (rule subset_trans)
  moreover have "\<forall>i n. has_version s i n \<longrightarrow> has_version w i n"
    using assms by (simp add: grows_def)
  ultimately show ?thesis by (simp add: grows_def)
qed

lemma keeps_refl [simp]: "keeps s s"
  by (simp add: keeps_def)

lemma keeps_trans: "keeps s t \<Longrightarrow> keeps t w \<Longrightarrow> keeps s w"
  using grows_trans by (auto simp: keeps_def)

lemma get_user_Some: "get_user s i = Some u \<Longrightarrow> u \<in> set (users s) \<and> au_id u = i"
  by (auto simp: get_user_def dest: find_row_Some_in find_row_Some_key)

lemma get_user_in: "auth_inv s \<Longrightarrow> u \<in> set (users s) \<Longrightarrow> get_user s (au_id u) = Some u"
  by (simp add: auth_inv_def get_user_def find_row_distinct)

lemma user_by_email_Some: "user_by_email s m = Some u \<Longrightarrow> u \<in> set (users s) \<and> au_email u = Some m"
  unfolding user_by_email_def by (drule find_Some_prop) simp

lemma user_by_email_None: "user_by_email s m = None \<longleftrightarrow> (\<forall>u \<in> set (users s). au_email u \<noteq> Some m)"
  by (simp add: user_by_email_def find_None_prop)

subsection \<open>Elementary steps\<close>

lemma user_of_cong: "users s' = users s \<Longrightarrow> user_of s' = user_of s"
  by (simp add: user_of_def has_version_def fun_eq_iff)

lemma keeps_logs:
  assumes us: "users s' = users s" and r: "fst ` set (revoked s) \<subseteq> fst ` set (revoked s')"
    and m: "minted s' = minted s @ cs" "map cl_jti cs = [length (minted s)..<length (minted s) + length cs]"
    and o: "\<And>c. c \<in> set cs \<Longrightarrow> cl_type c \<noteq> Oauth_State \<Longrightarrow> user_of s c"
  shows "keeps s s'"
proof -
  have "grows s s'" using us r m(1) by (simp add: grows_def has_version_def)
  moreover have "auth_inv s'" if inv: "auth_inv s"
  proof -
    have "map cl_jti (minted s') = [0..<length (minted s')]"
      using inv m by (simp add: auth_inv_def upt_add_eq_append [of 0 _ "length cs"])
    moreover have "\<forall>c \<in> set (minted s'). cl_type c \<noteq> Oauth_State \<longrightarrow> user_of s' c"
      using inv o unfolding m(1) user_of_cong [OF us] auth_inv_def by (simp add: ball_Un)
    ultimately show ?thesis using inv us by (simp add: auth_inv_def)
  qed
  ultimately show ?thesis by (simp add: keeps_def)
qed

lemma keeps_mint:
  assumes "ty = Oauth_State \<or> has_version s i tv"
  shows "keeps s (fst (mint ty i ttl tv a b now s))"
proof -
  let ?c = "\<lparr>cl_sub = i, cl_type = ty, cl_jti = length (minted s), cl_tv = tv, cl_new = a, cl_old = b,
    cl_iat = now, cl_exp = now + ttl\<rparr>"
  have "fst (mint ty i ttl tv a b now s) = s\<lparr>minted := minted s @ [?c]\<rparr>" by (simp add: mint_def Let_def)
  moreover have "keeps s (s\<lparr>minted := minted s @ [?c]\<rparr>)"
    by (rule keeps_logs [where cs = "[?c]"]) (use assms in \<open>auto simp: user_of_def\<close>)
  ultimately show ?thesis by simp
qed

lemma keeps_revoke: "keeps s (revoke_jti c s)"
  by (rule keeps_logs [where cs = "[]"]) (auto simp: revoke_jti_def)

lemma keeps_send: "keeps s (send m c s)"
  by (rule keeps_logs [where cs = "[]"]) (auto simp: send_def)

lemma keeps_tables: "keeps s (s\<lparr>ws_tables := w\<rparr>)" "keeps s (s\<lparr>beta_invites := d\<rparr>)"
  by (rule keeps_logs [where cs = "[]"], simp_all)+

lemma has_version_upd:
  assumes f: "\<And>u. au_id (f u) = au_id u \<and> token_version u \<le> token_version (f u)" and h: "has_version s j n"
  shows "has_version (upd_user i f s) j n"
proof -
  obtain u where u: "u \<in> set (users s)" "au_id u = j" "n \<le> token_version u"
    using h by (auto simp: has_version_def)
  let ?v = "if au_id u = i then f u else u"
  have "?v \<in> set (users (upd_user i f s))" using u(1) by (auto simp: upd_user_def set_upd_row)
  moreover have "au_id ?v = j" "n \<le> token_version ?v"
    using u f [of u] by auto
  ultimately show ?thesis unfolding has_version_def by blast
qed

lemma keeps_upd_mails:
  assumes f: "\<And>u. au_id (f u) = au_id u \<and> token_version u \<le> token_version (f u)"
    and m: "mails_unique (users s) \<Longrightarrow> mails_unique (users (upd_user i f s))"
  shows "keeps s (upd_user i f s)"
proof -
  have ids: "map au_id (users (upd_user i f s)) = map au_id (users s)"
    using f by (simp add: upd_user_def map_key_upd_row)
  have min: "minted (upd_user i f s) = minted s" "revoked (upd_user i f s) = revoked s"
    by (simp_all add: upd_user_def)
  have "grows s (upd_user i f s)"
    using has_version_upd [OF f] by (simp add: grows_def min)
  moreover have "auth_inv (upd_user i f s)" if "auth_inv s"
    using that m has_version_upd [OF f] by (simp add: auth_inv_def ids min user_of_def)
  ultimately show ?thesis by (simp add: keeps_def)
qed

lemma keeps_upd:
  assumes "\<And>u. au_id (f u) = au_id u \<and> token_version u \<le> token_version (f u) \<and> au_email (f u) = au_email u"
  shows "keeps s (upd_user i f s)"
proof (rule keeps_upd_mails)
  have e: "map (\<lambda>u. (au_id u, au_email u)) (users (upd_user i f s)) = map (\<lambda>u. (au_id u, au_email u)) (users s)"
    using assms by (simp add: upd_user_def map_field_upd_row)
  show "mails_unique (users (upd_user i f s))" if "mails_unique (users s)"
    using that unfolding mails_unique_def e .
qed (use assms in simp)

lemma keeps_upd_mail:
  assumes f: "\<And>u. au_id (f u) = au_id u \<and> token_version u \<le> token_version (f u) \<and> au_email (f u) = Some m"
    and free: "\<And>v. v \<in> set (users s) \<Longrightarrow> au_email v = Some m \<Longrightarrow> au_id v = i"
  shows "keeps s (upd_user i f s)"
proof (rule keeps_upd_mails)
  assume u: "mails_unique (users s)"
  have row: "k = i \<and> m' = m \<or> (k, Some m') \<in> set (map (\<lambda>u. (au_id u, au_email u)) (users s)) \<and> k \<noteq> i"
    if "(k, Some m') \<in> set (map (\<lambda>u. (au_id u, au_email u)) (users (upd_user i f s)))" for k m'
    using that f by (auto simp: upd_user_def set_upd_row split: if_splits)
  show "mails_unique (users (upd_user i f s))"
    unfolding mails_unique_def
  proof (intro allI impI)
    fix m' j k
    assume j: "(j, Some m') \<in> set (map (\<lambda>u. (au_id u, au_email u)) (users (upd_user i f s)))"
      and k: "(k, Some m') \<in> set (map (\<lambda>u. (au_id u, au_email u)) (users (upd_user i f s)))"
    show "j = k"
      using row [OF j] row [OF k] u free unfolding mails_unique_def by auto
  qed
qed (use f in simp)

lemma keeps_add_user:
  assumes u: "au_id u = new_user_id s" "au_email u = Some m" "user_by_email s m = None"
  shows "keeps s (add_user u s)"
proof -
  have us: "users (add_user u s) = users s @ [u]" "minted (add_user u s) = minted s" "revoked (add_user u s) = revoked s"
    by (simp_all add: add_user_def)
  have new: "au_id u \<notin> au_id ` set (users s)" using next_key_fresh u(1) by (metis new_user_id_def)
  have grow: "has_version (add_user u s) i n" if "has_version s i n" for i n
    using that unfolding has_version_def us by auto
  let ?f = "\<lambda>u. (au_id u, au_email u)"
  have no: "(j, Some m) \<notin> set (map ?f (users s))" for j
    using u(3) by (auto simp: user_by_email_None)
  have "mails_unique (users s @ [u])" if q: "mails_unique (users s)"
    unfolding mails_unique_def
  proof (intro allI impI)
    fix m' j k assume "(j, Some m') \<in> set (map ?f (users s @ [u]))" "(k, Some m') \<in> set (map ?f (users s @ [u]))"
    then have jk: "j = au_id u \<and> m' = m \<or> (j, Some m') \<in> set (map ?f (users s))"
      "k = au_id u \<and> m' = m \<or> (k, Some m') \<in> set (map ?f (users s))"
      using u(2) by (simp_all add: image_Un)
    show "j = k"
    proof (cases "m' = m")
      case True
      then show ?thesis using jk no by blast
    next
      case False
      then have "(j, Some m') \<in> set (map ?f (users s))" "(k, Some m') \<in> set (map ?f (users s))" using jk by simp_all
      then show ?thesis using q unfolding mails_unique_def by blast
    qed
  qed
  then have "auth_inv (add_user u s)" if "auth_inv s"
    using that grow new by (simp add: auth_inv_def us user_of_def)
  moreover have "grows s (add_user u s)" using grow by (simp add: grows_def us)
  ultimately show ?thesis by (simp add: keeps_def)
qed

lemma get_user_upd:
  assumes "get_user s i = Some u" "au_id (f u) = au_id u" "\<And>u. au_id (f u) = au_id u"
  shows "get_user (upd_user i f s) i = Some (f u)"
  using assms by (simp add: get_user_def upd_user_def row_simps)

lemma get_user_version: "get_user s i = Some u \<Longrightarrow> tv \<le> token_version u \<Longrightarrow> has_version s i tv"
  using get_user_Some by (auto simp: has_version_def)

lemma mint_sel [simp]:
  "users (fst (mint ty i ttl tv a b now s)) = users s" "revoked (fst (mint ty i ttl tv a b now s)) = revoked s"
  "beta_invites (fst (mint ty i ttl tv a b now s)) = beta_invites s"
  by (simp_all add: mint_def Let_def)

lemma keeps_issue:
  assumes "has_version s i tv"
  shows "keeps s (fst (issue_tokens i tv now s))"
proof -
  let ?s = "fst (create_access_token i tv now s)"
  have "users ?s = users s" by (simp add: create_access_token_def create_token_def)
  then have "has_version ?s i tv" using assms by (simp add: has_version_def)
  then have "keeps s ?s" "keeps ?s (fst (create_refresh_token i tv now ?s))"
    using assms unfolding create_access_token_def create_refresh_token_def create_token_def
    by (auto intro!: keeps_mint)
  from keeps_trans [OF this] show ?thesis
    by (auto simp: issue_tokens_def Let_def split: prod.split)
qed

subsection \<open>Every request keeps the invariant\<close>

lemma has_version_revoke [simp]: "has_version (revoke_jti c s) i n = has_version s i n"
  by (simp add: has_version_def revoke_jti_def)

lemma has_version_tables [simp]:
  "has_version (s\<lparr>beta_invites := d\<rparr>) i n = has_version s i n" "has_version (s\<lparr>ws_tables := w\<rparr>) i n = has_version s i n"
  by (simp_all add: has_version_def)

lemma has_version_add [simp]: "au_id u = i \<Longrightarrow> n \<le> token_version u \<Longrightarrow> has_version (add_user u s) i n"
  by (auto simp: has_version_def add_user_def)

lemma has_version_bump:
  assumes "get_user s i = Some u" "\<And>u. au_id (f u) = au_id u" "token_version u < token_version (f u)"
  shows "has_version (upd_user i f s) i (token_version u + 1)"
proof -
  have "get_user (upd_user i f s) i = Some (f u)" using assms(1,2) by (simp add: get_user_upd)
  then show ?thesis using assms(3) get_user_version by fastforce
qed

lemma get_current_user_Inr:
  assumes "get_current_user e now s hdr = Inr u"
  shows "u \<in> set (users s)"
proof -
  have "v \<in> set (users s)" if "fallback_user s = Inr v" for v
  proof -
    have "v \<in> set (sort_key au_id (users s))"
    proof (cases "sort_key au_id (users s)")
      case (Cons w vs)
      with that show ?thesis unfolding fallback_user_def Cons by simp
    qed (use that in \<open>simp add: fallback_user_def\<close>)
    then show ?thesis by simp
  qed
  then show ?thesis
    using assms by (auto simp: get_current_user_def Let_def dest: get_user_Some split: option.splits if_splits)
qed

lemma keeps_token:
  "has_version s i tv \<Longrightarrow> keeps s (fst (create_token ty i ttl tv now s))"
  by (simp add: create_token_def keeps_mint)

lemma keeps_set_hash: "keeps s (set_hash e p u s)"
  unfolding set_hash_def by (rule keeps_upd) (simp add: bump_def)

lemma keeps_set_hash_issue:
  assumes "auth_inv s" "u \<in> set (users s)"
  shows "keeps s (fst (issue_tokens (au_id u) (token_version u + 1) now (set_hash e p u s)))"
proof (rule keeps_trans [OF keeps_set_hash keeps_issue])
  show "has_version (set_hash e p u s) (au_id u) (token_version u + 1)"
    unfolding set_hash_def
    by (rule has_version_bump [OF get_user_in [OF assms]]) (simp_all add: bump_def)
qed

lemma open_account_sel [simp]:
  "users (open_account now u d s) = users s @ [u]" "minted (open_account now u d s) = minted s"
  "revoked (open_account now u d s) = revoked s"
  by (simp_all add: open_account_def add_user_def Let_def split: option.split)

lemma keeps_open_account:
  assumes "au_id u = new_user_id s" "au_email u = Some m" "user_by_email s m = None"
  shows "keeps s (open_account now u d s)"
  using keeps_add_user [OF assms] keeps_trans [OF _ keeps_tables(2)]
  by (auto simp: open_account_def Let_def split: option.split)

lemma keeps_register: "keeps s (fst (register e now b s))"
proof -
  let ?u = "registered_user e now b s"
  have 1: "keeps s (open_account now ?u d s)" if "user_by_email s (ri_email b) = None" for d
    by (rule keeps_open_account [OF _ _ that]) (simp_all add: registered_user_def)
  have v: "has_version (open_account now ?u d s) (au_id ?u) 0" for d
    by (auto simp: has_version_def)
  have 2: "keeps (open_account now ?u d s) (fst (issue_tokens (au_id ?u) 0 now (open_account now ?u d s)))" for d
    by (rule keeps_issue [OF v])
  have 3: "keeps (open_account now ?u d s) (fst (create_email_verification_token (au_id ?u) now (open_account now ?u d s)))" for d
    unfolding create_email_verification_token_def by (rule keeps_token [OF v])
  note keep = keeps_trans [OF 1 2] keeps_trans [OF 1 3] keeps_trans [OF keeps_trans [OF 1 3] keeps_send]
  show ?thesis
    using keep by (auto simp: register_def Let_def split: option.split prod.split dest!: arg_cong [of _ _ fst])
qed

lemma keeps_verify_email: "keeps s (fst (verify_email now tok s))"
  by (auto simp: verify_email_def split: option.split intro!: keeps_trans [OF keeps_upd keeps_revoke])

lemma keeps_login: "keeps s (fst (login e now m p s))"
proof -
  have "keeps s (fst (issue_tokens (au_id u) (token_version u) now s))" if "user_by_email s m = Some u" for u
    using user_by_email_Some [OF that] by (intro keeps_issue) (auto simp: has_version_def)
  then show ?thesis by (auto simp: login_def split: option.split)
qed

lemma keeps_refresh_check: "keeps s (fst (refresh_check now tok s))"
  by (auto simp: refresh_check_def bump_def split: option.split intro!: keeps_upd)

lemma refresh_check_Inr:
  assumes "refresh_check now tok s = (s', Inr (u, c))"
  shows "s' = s \<and> tok = Some c \<and> decode_token Refresh now s tok = Some c \<and> get_user s (cl_sub c) = Some u \<and>
    \<not> token_revoked s (cl_jti c) \<and> au_active u \<and> token_version_ok c u"
  using assms by (auto simp: refresh_check_def decode_token_def split: option.splits if_splits)

lemma keeps_refresh_rotate: "has_version s (au_id u) (token_version u) \<Longrightarrow> keeps s (fst (refresh_rotate now u c s))"
  unfolding refresh_rotate_def by (rule keeps_trans [OF keeps_revoke keeps_issue]) simp

lemma keeps_refresh: "keeps s (fst (refresh now tok s))"
proof (cases "refresh_check now tok s")
  case (Pair s' r)
  show ?thesis
  proof (cases r)
    case (Inl err)
    then show ?thesis using Pair keeps_refresh_check [of s now tok] by (simp add: refresh_def)
  next
    case (Inr uc)
    obtain u c where uc: "uc = (u, c)" by (cases uc)
    then have "s' = s" "get_user s (cl_sub c) = Some u" using Pair Inr refresh_check_Inr by simp_all
    then have "has_version s (au_id u) (token_version u)" using get_user_Some get_user_version by fastforce
    then show ?thesis using Pair Inr uc \<open>s' = s\<close> keeps_refresh_rotate by (simp add: refresh_def)
  qed
qed

lemma keeps_logout: "keeps s (fst (logout now hdr tok s))"
  by (auto simp: logout_def Let_def split: option.split intro!: keeps_revoke keeps_trans [OF keeps_revoke keeps_revoke])

lemma keeps_change_password: "auth_inv s \<Longrightarrow> keeps s (fst (change_password e now hdr p q s))"
  using keeps_set_hash_issue get_current_user_Inr by (auto simp: change_password_def split: sum.split)

lemma keeps_set_password: "auth_inv s \<Longrightarrow> keeps s (fst (set_password e now hdr q s))"
  using keeps_set_hash_issue get_current_user_Inr by (auto simp: set_password_def split: sum.split)

lemma keeps_reset_request: "keeps s (fst (password_reset_request e now m s))"
proof -
  have 1: "keeps s (fst (create_password_reset_token (au_id u) (token_version u) now s))" if "user_by_email s m = Some u" for u
    unfolding create_password_reset_token_def
    by (rule keeps_token) (use user_by_email_Some [OF that] in \<open>auto simp: has_version_def\<close>)
  show ?thesis
    using 1 keeps_trans [OF 1 keeps_send]
    by (auto simp: password_reset_request_def Let_def split: option.split prod.split dest!: arg_cong [of _ _ fst])
qed

lemma keeps_reset_confirm: "keeps s (fst (password_reset_confirm e now tok q s))"
  by (auto simp: password_reset_confirm_def split: option.split intro!: keeps_trans [OF keeps_set_hash keeps_revoke])

lemma keeps_change_email: "keeps s (fst (change_email e now hdr m p s))"
proof -
  have 1: "keeps s (fst (create_email_change_token (au_id u) m (or_empty (au_email u)) now s))"
    if "get_current_user e now s hdr = Inr u" for u
    unfolding create_email_change_token_def
    by (rule keeps_mint) (use get_current_user_Inr [OF that] in \<open>auto simp: has_version_def\<close>)
  show ?thesis
    using 1 keeps_trans [OF 1 keeps_send]
    by (auto simp: change_email_def Let_def split: sum.split prod.split dest!: arg_cong [of _ _ fst])
qed

lemma keeps_change_email_confirm: "keeps s (fst (change_email_confirm now tok s))"
proof -
  have "keeps s (upd_user (au_id u) (\<lambda>u. bump (u\<lparr>au_email := Some m, email_verified_at := Some now\<rparr>)) s)"
    if "\<not> list_ex (\<lambda>v. au_email v = Some m \<and> au_id v \<noteq> au_id u) (users s)" for u m
    using that by (intro keeps_upd_mail [where m = m]) (auto simp: bump_def list_ex_iff)
  from keeps_trans [OF this keeps_revoke] show ?thesis
    by (auto simp: change_email_confirm_def split: option.split)
qed

lemma keeps_state: "keeps s (fst (new_state now s))" "keeps s (fst (consume_state now st s))"
  by (auto simp: new_state_def create_token_def consume_state_def keeps_mint keeps_revoke split: option.split)

lemma keeps_oauth_login: "keeps s (fst (oauth_login a b now s))"
  using keeps_state(1) [of s now] by (auto simp: oauth_login_def Let_def split: prod.split)

lemma keeps_oauth_account: "keeps s (fst (oauth_account e now info s))"
proof -
  have "keeps s (open_account now (oauth_user now info s) d s)" if "user_by_email s (oi_email info) = None" for d
    by (rule keeps_open_account [OF _ _ that]) (simp_all add: oauth_user_def)
  then show ?thesis
    by (auto simp: oauth_account_def split: option.split intro!: keeps_upd)
qed

lemma oauth_account_Inr:
  assumes o: "oauth_account e now info s = (s', Inr i)"
  shows "has_version s' i 0"
proof (cases "user_by_email s (oi_email info)")
  case None
  then show ?thesis using o by (auto simp: oauth_account_def has_version_def split: option.splits)
next
  case (Some u)
  have v: "has_version s (au_id u) 0" using user_by_email_Some [OF Some] by (auto simp: has_version_def)
  have "has_version (upd_user (au_id u) (\<lambda>u. u\<lparr>oauth_provider := Some (oi_provider info), oauth_sub := Some (oi_sub info)\<rparr>) s) (au_id u) 0"
    by (rule has_version_upd [OF _ v]) simp
  then show ?thesis using o Some v by (auto simp: oauth_account_def split: if_splits)
qed

lemma keeps_oauth_finish: "has_version s i 0 \<Longrightarrow> keeps s (fst (oauth_finish now i s))"
proof -
  assume v: "has_version s i 0"
  have "keeps (s\<lparr>ws_tables := w\<rparr>) (fst (create_oauth_exchange_code i now (s\<lparr>ws_tables := w\<rparr>)))" for w
    unfolding create_oauth_exchange_code_def by (rule keeps_token) (simp add: v)
  from keeps_trans [OF keeps_tables(1) this] show ?thesis
    by (auto simp: oauth_finish_def Let_def split: prod.split dest!: arg_cong [of _ _ fst])
qed

lemma keeps_oauth_callback: "keeps s (fst (oauth_callback e now st info s))"
proof -
  obtain s1 ok where cs: "consume_state now st s = (s1, ok)" by (cases "consume_state now st s")
  have k1: "keeps s s1" using keeps_state(2) [of s now st] cs by simp
  have k2: "keeps s1 (fst (case oauth_account e now row s1 of (s1, Inl err) \<Rightarrow> (s1, Inl err)
      | (s1, Inr i) \<Rightarrow> oauth_finish now i s1))" for row
  proof -
    obtain s2 r where o: "oauth_account e now row s1 = (s2, r)" by (cases "oauth_account e now row s1")
    have k: "keeps s1 s2" using keeps_oauth_account [of s1 e now row] o by simp
    show ?thesis
      using o k keeps_trans [OF k keeps_oauth_finish] oauth_account_Inr by (cases r) simp_all
  qed
  show ?thesis
    using cs k1 keeps_trans [OF k1 k2] by (simp add: oauth_callback_def split: option.split)
qed

lemma keeps_oauth_exchange: "keeps s (fst (oauth_exchange now tok s))"
proof -
  have "keeps s (fst (issue_tokens (au_id u) (token_version u) now (revoke_jti c s)))" if "get_user s i = Some u" for u c i
    using get_user_Some [OF that]
    by (intro keeps_trans [OF keeps_revoke keeps_issue]) (auto simp: has_version_def revoke_jti_def)
  then show ?thesis by (auto simp: oauth_exchange_def split: option.split)
qed

lemma keeps_consent: "keeps s (fst (kvkk_consent_tazele e now hdr s))"
  by (auto simp: kvkk_consent_tazele_def split: sum.split intro!: keeps_upd)

lemma handle_keeps: "auth_inv s \<Longrightarrow> keeps s (fst (handle e now rq s))"
  by (cases rq)
    (simp_all add: handle_def keeps_register keeps_verify_email keeps_login keeps_refresh keeps_logout
      keeps_change_password keeps_set_password keeps_reset_request keeps_reset_confirm keeps_change_email
      keeps_change_email_confirm keeps_oauth_callback keeps_oauth_exchange keeps_consent
      keeps_oauth_login split: sum.split)

lemma handle_keepsD: "handle e now rq s = (s', r) \<Longrightarrow> auth_inv s \<Longrightarrow> keeps s s'"
  using handle_keeps [of s e now rq] by simp

subsection \<open>Runs\<close>

text \<open>A deployment starts without accounts; the operator has issued some invitations.\<close>

definition fresh_db :: "beta_invite list \<Rightarrow> auth_db" where
  "fresh_db invs = empty_auth_db\<lparr>beta_invites := invs\<rparr>"

lemma auth_inv_fresh: "auth_inv (fresh_db invs)"
  by (simp add: auth_inv_def fresh_db_def empty_auth_db_def mails_unique_def)

lemma run_keeps:
  assumes "auth_run e (t, s) (t', s')"
  shows "t \<le> t' \<and> keeps s s'"
  using assms unfolding auth_run_def
proof (induction "(t', s')" arbitrary: t' s' rule: rtranclp_induct)
  case (step y)
  obtain t1 s1 where y: "y = (t1, s1)" by (cases y)
  have IH: "t \<le> t1" "keeps s s1" using step(3) y by simp_all
  have "t1 \<le> t' \<and> (auth_inv s1 \<longrightarrow> keeps s1 s')"
    using step(2) unfolding y
    by (cases rule: auth_step.cases) (auto dest: handle_keepsD)
  with IH show ?case using keeps_trans [of s s1 s'] by (auto simp: keeps_def)
qed simp

lemma run_fresh: "auth_run e (t, fresh_db invs) (t', s') \<Longrightarrow> auth_inv s'"
  using run_keeps auth_inv_fresh by (auto simp: keeps_def)

lemma run_step: "handle e now rq s = (s', r) \<Longrightarrow> auth_run e (now, s) (now, s')"
  unfolding auth_run_def by (rule r_into_rtranclp) (rule auth_step.request)

lemma run_trans: "auth_run e a b \<Longrightarrow> auth_run e b c \<Longrightarrow> auth_run e a c"
  unfolding auth_run_def by (rule rtranclp_trans)

subsection \<open>Who is authenticated\<close>

text \<open>With authentication on, a request is from user u exactly when it carries a token the
  server signed as an access token for u, within its lifetime, neither logged out nor of an older
  session version, and u is active. Nothing else authenticates.\<close>

theorem authenticated_iff:
  assumes "e_auth_on e"
  shows "get_current_user e now s hdr = Inr u \<longleftrightarrow>
    (\<exists>c. hdr = Some (Some c) \<and> c \<in> set (minted s) \<and> cl_type c = Access \<and> cl_iat c \<le> now \<and> now < cl_exp c \<and>
      \<not> token_revoked s (cl_jti c) \<and> get_user s (cl_sub c) = Some u \<and> au_active u \<and> cl_tv c = token_version u)"
  using assms
  by (auto simp: get_current_user_def decode_token_def token_version_ok_def Let_def split: option.splits if_splits)

subsection \<open>Dropped sessions\<close>

definition session_version :: "auth_db \<Rightarrow> nat \<Rightarrow> nat option" where
  "session_version s i = map_option token_version (get_user s i)"

lemma has_version_session:
  "auth_inv s \<Longrightarrow> has_version s i n \<longleftrightarrow> (\<exists>v. session_version s i = Some v \<and> n \<le> v)"
  using get_user_in get_user_Some by (fastforce simp: has_version_def session_version_def)

lemma session_grows:
  assumes "auth_inv s" "auth_inv t" "grows s t" "session_version s i = Some v" "n \<le> v"
  shows "\<exists>w. session_version t i = Some w \<and> n \<le> w"
proof -
  have "has_version s i n" using has_version_session [OF assms(1)] assms(4,5) by blast
  then have "has_version t i n" using assms(3) by (simp add: grows_def)
  then show ?thesis using has_version_session [OF assms(2)] by blast
qed

text \<open>A token of an older version than its user's is worth nothing, whatever its type.\<close>

lemma stale_token_refused:
  assumes "session_version s (cl_sub c) = Some v" "cl_tv c < v" "e_auth_on e"
  shows "get_current_user e now s (Some (Some c)) = Inl Unauthenticated"
    and "snd (refresh now (Some c) s) = Inl Unauthenticated"
    and "\<exists>err. snd (password_reset_confirm e now (Some c) p s) = Inl err"
  using assms
  by (auto simp: session_version_def get_current_user_def decode_token_def token_version_ok_def Let_def
      refresh_def refresh_check_def password_reset_confirm_def split: option.split)


lemma session_version_upd:
  "get_user s i = Some u \<Longrightarrow> (\<And>u. au_id (f u) = au_id u) \<Longrightarrow>
   session_version (upd_user i f s) i = Some (token_version (f u))"
  by (simp add: session_version_def get_user_upd)

lemma session_version_sel [simp]:
  "session_version (revoke_jti c s) = session_version s" "session_version (fst (issue_tokens i tv now s)) = session_version s"
  by (auto simp: session_version_def get_user_def revoke_jti_def issue_tokens_def create_access_token_def
      create_refresh_token_def create_token_def mint_def Let_def fun_eq_iff)


subsection \<open>One-time tokens\<close>

text \<open>The token a request spends.\<close>

fun one_time :: "auth_request \<Rightarrow> claims option" where
  "one_time (Rq_Verify tok) = tok"
| "one_time (Rq_Refresh tok) = tok"
| "one_time (Rq_Reset_Confirm tok q) = tok"
| "one_time (Rq_Change_Email_Confirm tok) = tok"
| "one_time (Rq_Oauth_Callback tok info) = tok"
| "one_time (Rq_Oauth_Exchange tok) = tok"
| "one_time _ = None"

lemma token_revoked_sel [simp]:
  "token_revoked (upd_user i f s) = token_revoked s" "token_revoked (set_hash e q u s) = token_revoked s"
  "token_revoked (fst (issue_tokens i tv now s)) = token_revoked s"
  "token_revoked (open_account now u d s) = token_revoked s" "token_revoked (s\<lparr>ws_tables := w\<rparr>) = token_revoked s"
  by (auto simp: token_revoked_def upd_user_def set_hash_def issue_tokens_def create_access_token_def
      create_refresh_token_def create_token_def mint_def Let_def fun_eq_iff)

lemma token_revoked_revoke [simp]: "token_revoked (revoke_jti c s) j \<longleftrightarrow> j = cl_jti c \<or> token_revoked s j"
  by (auto simp: token_revoked_def revoke_jti_def)

lemma oauth_account_revoked: "token_revoked (fst (oauth_account e now info s)) = token_revoked s"
  by (simp add: oauth_account_def split: option.split)

lemma oauth_finish_revoked: "token_revoked (fst (oauth_finish now i s)) = token_revoked s"
  by (auto simp: oauth_finish_def Let_def create_oauth_exchange_code_def create_token_def mint_def token_revoked_def fun_eq_iff)

lemma spent:
  assumes "one_time rq = Some c" "handle e now rq s = (s1, Inr r)"
  shows "token_revoked s1 (cl_jti c)"
proof (cases rq)
  case (Rq_Refresh tok)
  then show ?thesis using assms
    by (auto simp: handle_def refresh_def refresh_check_def refresh_rotate_def decode_token_def
        split: option.splits if_splits prod.splits sum.splits dest!: arg_cong [of _ _ fst])
next
  case (Rq_Oauth_Callback tok info)
  with assms obtain i row s' where "oauth_account e now row (revoke_jti c s) = (s', Inr i)"
      "oauth_finish now i s' = (s1, Inr r)"
    by (auto simp: handle_def oauth_callback_def consume_state_def decode_token_def
        split: option.splits if_splits prod.splits sum.splits)
  then have "s1 = fst (oauth_finish now i (fst (oauth_account e now row (revoke_jti c s))))" by simp
  then show ?thesis by (simp add: oauth_account_revoked oauth_finish_revoked)
qed (use assms in \<open>auto simp: handle_def verify_email_def password_reset_confirm_def change_email_confirm_def
      oauth_exchange_def decode_token_def split: option.splits if_splits dest!: arg_cong [of _ _ fst]\<close>)

lemma spent_refused:
  assumes "one_time rq = Some c" "token_revoked s (cl_jti c)"
  shows "\<exists>err. snd (handle e now rq s) = Inl err"
proof (cases rq)
  case (Rq_Refresh tok)
  then show ?thesis using assms
    by (auto simp: handle_def refresh_def refresh_check_def decode_token_def split: option.split)
qed (use assms in \<open>auto simp: handle_def verify_email_def password_reset_confirm_def change_email_confirm_def
      oauth_exchange_def oauth_callback_def consume_state_def decode_token_def split: option.split\<close>)

text \<open>C7: A verification link, a refresh token, a reset link, an e-mail change link, an OAuth state and
  an OAuth code each work once: after a request that spent it succeeded, no request that presents
  it again does, whatever happens in between.\<close>

theorem one_time_tokens:
  assumes "auth_run e (t, fresh_db invs) (now, s)" "one_time rq = Some c" "handle e now rq s = (s1, Inr r)"
    and "auth_run e (now, s1) (now', s2)" "one_time rq' = Some c"
  shows "\<exists>err. snd (handle e now' rq' s2) = Inl err"
proof (rule spent_refused [OF assms(5)])
  have "auth_inv s1" using run_fresh [OF assms(1)] handle_keepsD [OF assms(3)] by (simp add: keeps_def)
  then have "grows s1 s2" using run_keeps [OF assms(4)] by (simp add: keeps_def)
  then show "token_revoked s2 (cl_jti c)"
    using spent [OF assms(2,3)] by (auto simp: grows_def token_revoked_def)
qed

subsection \<open>What the public endpoints tell\<close>

lemma register_answer:
  assumes "verification_on e" "\<not> invite_required e"
  shows "snd (register e now b s) =
    (if \<not> password_length_ok (ri_password b) \<or> \<not> ri_consent b \<or>
        password_problems (ri_password b) (Some (ri_email b)) (ri_user_name b) \<noteq> []
     then Inl Invalid else Inr Generic)"
  using assms by (simp add: register_def gate_def Let_def split: option.split prod.split)

lemma reset_request_answer:
  "e_smtp e \<or> e_prod e \<Longrightarrow> snd (password_reset_request e now m s) = Inr Generic"
  by (auto simp: password_reset_request_def Let_def split: option.split prod.split)

lemma change_email_answer:
  assumes "e_smtp e \<or> e_prod e"
  shows "snd (change_email e now hdr m p s) =
    (case get_current_user e now s hdr of Inl err \<Rightarrow> Inl err
     | Inr u \<Rightarrow>
         if has_password u \<and> or_empty p = [] then Inl Invalid
         else if has_password u \<and> \<not> verify_password e (or_empty p) (password_hash u) then Inl Unauthenticated
         else if m = or_empty (au_email u) then Inl Bad else Inr Generic)"
  using assms by (cases "get_current_user e now s hdr") (auto simp: change_email_def Let_def split: prod.split)


subsection \<open>The gate of the closed beta\<close>

text \<open>What opening an account changes, and nothing else does.\<close>

definition roster :: "auth_db \<Rightarrow> nat list \<times> beta_invite list" where
  "roster s = (map au_id (users s), beta_invites s)"

lemma roster_upd [simp]: "(\<And>u. au_id (f u) = au_id u) \<Longrightarrow> roster (upd_user i f s) = roster s"
  by (simp add: roster_def upd_user_def map_key_upd_row)

lemma roster_sel [simp]:
  "roster (revoke_jti c s) = roster s" "roster (send m c s) = roster s" "roster (s\<lparr>ws_tables := w\<rparr>) = roster s"
  "roster (fst (mint ty i ttl tv a b now s)) = roster s" "roster (fst (issue_tokens i tv now s)) = roster s"
  "roster (set_hash e p u s) = roster s"
  by (simp_all add: roster_def revoke_jti_def send_def set_hash_def bump_def upd_user_def map_key_upd_row
      issue_tokens_def create_access_token_def create_refresh_token_def create_token_def mint_def Let_def)

lemmas token_kinds = create_email_verification_token_def create_password_reset_token_def
  create_email_change_token_def create_oauth_exchange_code_def create_token_def new_state_def

lemma roster_of_fst: "f s = (s', x) \<Longrightarrow> roster (fst (f s)) = roster s \<Longrightarrow> roster s' = roster s"
  by simp

text \<open>An account is opened with an invitation that was there, unused, when one is required.\<close>

definition opens :: "auth_env \<Rightarrow> int \<Rightarrow> auth_db \<Rightarrow> auth_db \<Rightarrow> bool" where
  "opens e now s s' \<longleftrightarrow> roster s' = roster s \<or>
     (\<exists>u d. roster s' = roster (open_account now u d s) \<and> au_id u = new_user_id s \<and>
        (invite_required e \<longrightarrow> (\<exists>x. d = Some x \<and> x \<in> set (beta_invites s) \<and> used_at x = None)))"

lemma gate_Some:
  assumes "gate e x = Some d" "\<And>y. x = Some y \<Longrightarrow> y \<in> set invs \<and> used_at y = None"
  shows "invite_required e \<longrightarrow> (\<exists>y. d = Some y \<and> y \<in> set invs \<and> used_at y = None)"
  using assms by (auto simp: gate_def split: if_splits)

lemma eposta_daveti_unused: "eposta_daveti_bul t invs m = Some d \<Longrightarrow> d \<in> set invs \<and> used_at d = None"
  by (auto simp: eposta_daveti_bul_def split: if_splits dest!: find_Some_prop)

lemma davet_unused: "davet_dogrula t invs code m = Some d \<Longrightarrow> d \<in> set invs \<and> used_at d = None"
  using davet_dogrula_Some by blast

lemma opens_refl [simp]: "roster s' = roster s \<Longrightarrow> opens e now s s'"
  by (simp add: opens_def)

lemma opensI:
  assumes "roster s' = roster (open_account now u d s)" "au_id u = new_user_id s" "gate e x = Some d"
    and "\<And>y. x = Some y \<Longrightarrow> y \<in> set (beta_invites s) \<and> used_at y = None"
  shows "opens e now s s'"
proof -
  have "invite_required e \<longrightarrow> (\<exists>y. d = Some y \<and> y \<in> set (beta_invites s) \<and> used_at y = None)"
    by (rule gate_Some [OF assms(3)]) (rule assms(4))
  then show ?thesis using assms(1,2) unfolding opens_def by blast
qed

lemma opens_register: "opens e now s (fst (register e now b s))"
proof -
  let ?u = "registered_user e now b s" and ?d = "davet_dogrula now (beta_invites s) (or_empty (ri_code b)) (ri_email b)"
  have g: "opens e now s s'" if "gate e ?d = Some d" "roster s' = roster (open_account now ?u d s)" for s' d
    by (rule opensI [OF that(2) _ that(1)]) (simp_all add: registered_user_def davet_unused)
  have "roster (fst (create_email_verification_token i now t)) = roster t" for i t by (simp add: token_kinds)
  then have "gate e ?d = Some d \<Longrightarrow> opens e now s (fst (create_email_verification_token (au_id ?u) now (open_account now ?u d s)))"
    "gate e ?d = Some d \<Longrightarrow> opens e now s (send m c (fst (create_email_verification_token (au_id ?u) now (open_account now ?u d s))))"
    "gate e ?d = Some d \<Longrightarrow> opens e now s (fst (issue_tokens (au_id ?u) 0 now (open_account now ?u d s)))" for d m c
    by (simp_all add: g)
  then show ?thesis
    by (auto simp: register_def Let_def simp del: opens_refl intro: opens_refl
        split: option.split prod.split dest!: arg_cong [of _ _ fst])
qed

lemma opens_account: "opens e now s (fst (oauth_account e now info s))"
proof -
  have "opens e now s (open_account now (oauth_user now info s) d s)"
    if "gate e (eposta_daveti_bul now (beta_invites s) (oi_email info)) = Some d" for d
    by (rule opensI [OF refl _ that]) (simp_all add: oauth_user_def eposta_daveti_unused)
  then show ?thesis by (auto simp: oauth_account_def split: option.split)
qed

lemma opens_cong: "roster s' = roster s \<Longrightarrow> roster t' = roster t \<Longrightarrow> opens e now s t \<Longrightarrow> opens e now s' t'"
proof -
  assume r: "roster s' = roster s" "roster t' = roster t" and o: "opens e now s t"
  have "new_user_id s' = new_user_id s" using r(1) by (simp add: roster_def new_user_id_def next_key_def)
  moreover have "roster (open_account now u d s') = roster (open_account now u d s)" for u d
    using r(1) by (simp add: roster_def open_account_def add_user_def Let_def split: option.split)
  ultimately show ?thesis using o r unfolding opens_def by (simp add: roster_def)
qed

lemma opens_callback: "opens e now s (fst (oauth_callback e now st info s))"
proof -
  obtain s1 ok where cs: "consume_state now st s = (s1, ok)" by (cases "consume_state now st s")
  have r1: "roster s1 = roster s"
    using cs by (auto simp: consume_state_def split: option.splits if_splits)
  have fin: "roster (fst (oauth_finish now i t)) = roster t" for i t
    by (auto simp: oauth_finish_def Let_def token_kinds split: prod.split dest!: arg_cong [of _ _ fst])
  have "opens e now s (fst (case oauth_account e now row s1 of (s2, Inl err) \<Rightarrow> (s2, Inl err)
      | (s2, Inr i) \<Rightarrow> oauth_finish now i s2))" for row
  proof -
    obtain s2 r where o: "oauth_account e now row s1 = (s2, r)" by (cases "oauth_account e now row s1")
    have "opens e now s1 s2" using opens_account [of e now s1 row] o by simp
    then have "opens e now s t" if "roster t = roster s2" for t using opens_cong [OF r1 [symmetric] that] by simp
    then show ?thesis using o fin by (cases r) simp_all
  qed
  then show ?thesis using cs r1 by (auto simp: oauth_callback_def split: option.split)
qed

lemma opens_handle: "opens e now s (fst (handle e now rq s))"
proof (cases rq)
  case (Rq_Refresh tok)
  then show ?thesis
    by (auto simp: handle_def refresh_def refresh_check_def refresh_rotate_def bump_def split: option.split)
qed (auto simp: handle_def opens_register opens_callback verify_email_def login_def logout_def change_password_def
    set_password_def password_reset_request_def password_reset_confirm_def change_email_def change_email_confirm_def
    oauth_login_def oauth_exchange_def kvkk_consent_tazele_def token_kinds bump_def Let_def
    split: option.split sum.split prod.split dest!: arg_cong [of _ _ fst])

definition gate_ok :: "nat list \<times> beta_invite list \<Rightarrow> bool" where
  "gate_ok r \<longleftrightarrow> (case r of (ids, invs) \<Rightarrow> distinct (map bi_id invs) \<and>
     (\<forall>i \<in> set ids. \<exists>d \<in> set invs. used_by d = Some i \<and> used_at d \<noteq> None))"

lemma gate_ok_open:
  assumes ok: "gate_ok (roster s)" and x: "x \<in> set (beta_invites s)" "used_at x = None"
  shows "gate_ok (roster (open_account now u (Some x) s))"
proof -
  let ?f = "\<lambda>d. d\<lparr>used_at := Some now, used_by := Some (au_id u)\<rparr>"
  let ?invs = "upd_row bi_id (bi_id x) ?f (beta_invites s)"
  have r: "roster (open_account now u (Some x) s) = (map au_id (users s) @ [au_id u], ?invs)"
    by (simp add: roster_def open_account_def add_user_def davet_kullan_def)
  have d: "distinct (map bi_id (beta_invites s))" using ok by (simp add: gate_ok_def roster_def)
  have "\<exists>d \<in> set ?invs. used_by d = Some i \<and> used_at d \<noteq> None" if "i \<in> au_id ` set (users s)" for i
  proof -
    obtain y where y: "y \<in> set (beta_invites s)" "used_by y = Some i" "used_at y \<noteq> None"
      using ok \<open>i \<in> _\<close> by (auto simp: gate_ok_def roster_def)
    have "bi_id y \<noteq> bi_id x"
    proof
      assume e: "bi_id y = bi_id x"
      have "find_row bi_id (bi_id x) (beta_invites s) = Some y"
        using find_row_distinct [OF d y(1)] unfolding e .
      from trans [OF sym [OF find_row_distinct [OF d x(1)]] this] have "x = y" by (rule option.inject [THEN iffD1])
      then show False using x(2) y(3) by simp
    qed
    then have "y = (if bi_id y = bi_id x then ?f y else y)" by simp
    then have "y \<in> set ?invs" using y(1) unfolding set_upd_row by (rule image_eqI)
    with y(2,3) show ?thesis by blast
  qed
  moreover have "?f x \<in> set ?invs" using x(1) by (auto simp: set_upd_row)
  then have "\<exists>d \<in> set ?invs. used_by d = Some (au_id u) \<and> used_at d \<noteq> None" by force
  moreover have "distinct (map bi_id ?invs)" using d by (simp add: map_key_upd_row)
  ultimately show ?thesis unfolding gate_ok_def r by simp
qed

lemma invitations_kept: "opens e now s s' \<Longrightarrow> length (beta_invites s') = length (beta_invites s)"
  by (auto simp: opens_def roster_def open_account_def add_user_def davet_kullan_def Let_def split: option.splits)

lemma gate_ok_opens: "invite_required e \<Longrightarrow> gate_ok (roster s) \<Longrightarrow> opens e now s s' \<Longrightarrow> gate_ok (roster s')"
  using gate_ok_open by (auto simp: opens_def)

lemma gate_ok_run:
  assumes "auth_run e (t, s) (t', s')" "invite_required e" "gate_ok (roster s)"
  shows "gate_ok (roster s') \<and> length (beta_invites s') = length (beta_invites s)"
  using assms(1) unfolding auth_run_def
proof (induction "(t', s')" arbitrary: t' s' rule: rtranclp_induct)
  case (step y)
  obtain t1 s1 where y: "y = (t1, s1)" by (cases y)
  have IH: "gate_ok (roster s1) \<and> length (beta_invites s1) = length (beta_invites s)" using step(3) y by simp
  have "opens e t1 s1 s'"
    using step(2) opens_handle unfolding y by (cases rule: auth_step.cases) (auto dest!: arg_cong [of _ _ fst])
  then show ?case using IH gate_ok_opens [OF assms(2)] invitations_kept by metis
qed (use assms(3) in simp)

text \<open>C16: The closed beta is closed. With registration by invitation every account, opened with a
  password or through OAuth, has consumed an invitation of its own, so there are never more
  accounts than invitations.\<close>

theorem closed_beta:
  assumes "invite_required e" "distinct (map bi_id invs)" "auth_run e (t, fresh_db invs) (now, s)"
  shows "list_all (\<lambda>u. list_ex (\<lambda>d. used_by d = Some (au_id u) \<and> used_at d \<noteq> None) (beta_invites s)) (users s) \<and>
    length (users s) \<le> length invs"
proof -
  have "gate_ok (roster (fresh_db invs))"
    using assms(2) by (simp add: gate_ok_def roster_def fresh_db_def empty_auth_db_def)
  from gate_ok_run [OF assms(3,1) this]
  have ok: "gate_ok (roster s)" and n: "length (beta_invites s) = length invs"
    by (simp_all add: fresh_db_def empty_auth_db_def)
  have "Some ` set (map au_id (users s)) \<subseteq> used_by ` set (beta_invites s)"
    using ok by (force simp: gate_ok_def roster_def)
  then have "card (Some ` set (map au_id (users s))) \<le> card (used_by ` set (beta_invites s))"
    by (rule card_mono [rotated]) simp
  also have "\<dots> \<le> length (beta_invites s)" using card_image_le [of "set (beta_invites s)" used_by] card_length le_trans by blast
  finally have "length (users s) \<le> length invs"
    using run_fresh [OF assms(3)] n distinct_card [of "map au_id (users s)"]
    by (simp add: card_image auth_inv_def del: set_map)
  with ok show ?thesis by (auto simp: gate_ok_def roster_def list_all_iff list_ex_iff)
qed

subsection \<open>The password policy of every account\<close>

definition good_hash :: "auth_env \<Rightarrow> string option \<Rightarrow> bool" where
  "good_hash e h \<longleftrightarrow> h = None \<or> (\<exists>p n. h = Some (hashpw e p n) \<and> password_length_ok p \<and> password_problems p None None = [])"

definition policy :: "auth_env \<Rightarrow> auth_db \<Rightarrow> bool" where
  "policy e s \<longleftrightarrow> (\<forall>u \<in> set (users s). good_hash e (password_hash u))"

lemma policy_upd: "policy e s \<Longrightarrow> (\<And>u. good_hash e (password_hash u) \<Longrightarrow> good_hash e (password_hash (f u))) \<Longrightarrow> policy e (upd_user i f s)"
  by (auto simp: policy_def upd_user_def set_upd_row)

lemma policy_sel [simp]:
  "policy e (revoke_jti c s) = policy e s" "policy e (send m c s) = policy e s" "policy e (s\<lparr>ws_tables := w\<rparr>) = policy e s"
  "policy e (fst (mint ty i ttl tv a b now s)) = policy e s" "policy e (fst (issue_tokens i tv now s)) = policy e s"
  by (simp_all add: policy_def revoke_jti_def send_def issue_tokens_def create_access_token_def
      create_refresh_token_def create_token_def mint_def Let_def)

lemma policy_open: "policy e s \<Longrightarrow> good_hash e (password_hash u) \<Longrightarrow> policy e (open_account now u d s)"
  by (auto simp: policy_def)

text \<open>A password without problems for an identity has none without one.\<close>

lemma password_problems_mono: "password_problems p m n = [] \<Longrightarrow> password_problems p None None = []"
  by (auto simp: password_problems_def own_identity_def or_empty_def strip_def lower_def Let_def split: if_splits)

lemma policy_set_hash:
  "policy e s \<Longrightarrow> password_length_ok q \<Longrightarrow> new_password_ok q \<Longrightarrow> policy e (set_hash e q u s)"
  unfolding set_hash_def
  by (rule policy_upd) (auto simp: bump_def good_hash_def hash_password_def new_password_ok_def)

lemma good_registered:
  "password_length_ok (ri_password b) \<Longrightarrow> password_problems (ri_password b) m n = [] \<Longrightarrow>
   good_hash e (password_hash (registered_user e now b s))"
  using password_problems_mono by (auto simp: good_hash_def registered_user_def hash_password_def)

lemma policy_register: "policy e s \<Longrightarrow> policy e (fst (register e now b s))"
  by (auto simp: register_def Let_def token_kinds policy_open good_registered
      split: option.split prod.split dest!: arg_cong [of _ _ fst])

lemma policy_callback: "policy e s \<Longrightarrow> policy e (fst (oauth_callback e now st info s))"
proof -
  assume p: "policy e s"
  obtain s1 ok where cs: "consume_state now st s = (s1, ok)" by (cases "consume_state now st s")
  have p1: "policy e s1" using cs p by (auto simp: consume_state_def split: option.splits if_splits)
  have "policy e (fst (case oauth_account e now row s1 of (s2, Inl err) \<Rightarrow> (s2, Inl err)
      | (s2, Inr i) \<Rightarrow> oauth_finish now i s2))" for row
  proof -
    obtain s2 r where o: "oauth_account e now row s1 = (s2, r)" by (cases "oauth_account e now row s1")
    have "policy e (fst (oauth_account e now row s1))"
      using p1 by (auto simp: oauth_account_def oauth_user_def good_hash_def split: option.split intro!: policy_upd policy_open)
    then have "policy e s2" using o by simp
    moreover have "policy e (fst (oauth_finish now i t)) = policy e t" for i t
      by (auto simp: oauth_finish_def Let_def token_kinds split: prod.split dest!: arg_cong [of _ _ fst])
    ultimately show ?thesis using o by (cases r) simp_all
  qed
  then show ?thesis using cs p1 by (auto simp: oauth_callback_def split: option.split)
qed

lemma policy_handle: "policy e s \<Longrightarrow> policy e (fst (handle e now rq s))"
proof (cases rq)
  case (Rq_Refresh tok)
  assume "policy e s"
  with Rq_Refresh show ?thesis
    by (auto simp: handle_def refresh_def refresh_check_def refresh_rotate_def bump_def intro!: policy_upd split: option.split)
qed (auto simp: handle_def policy_register policy_callback verify_email_def login_def logout_def change_password_def
    set_password_def password_reset_request_def password_reset_confirm_def change_email_def change_email_confirm_def
    oauth_login_def oauth_exchange_def kvkk_consent_tazele_def token_kinds bump_def Let_def policy_set_hash
    intro!: policy_upd
    split: option.split sum.split prod.split dest!: arg_cong [of _ _ fst])

text \<open>No account ever has a password outside the policy: every stored hash is that of a password of
  8 to 72 characters that is not common, not only digits, not a repetition and without an
  alphabetic or keyboard run.\<close>

theorem passwords_follow_policy:
  assumes "auth_run e (t, fresh_db invs) (now, s)" "u \<in> set (users s)" "password_hash u = Some h"
  shows "\<exists>p salt. h = hashpw e p salt \<and> password_length_ok p \<and> password_problems p None None = []"
proof -
  have "policy e s"
    using assms(1) unfolding auth_run_def
  proof (induction "(now, s)" arbitrary: now s rule: rtranclp_induct)
    case base
    then show ?case by (simp add: policy_def fresh_db_def empty_auth_db_def)
  next
    case (step y)
    obtain t1 s1 where y: "y = (t1, s1)" by (cases y)
    have "policy e s1" using step(3) y by simp
    with step(2) show ?case
      unfolding y by (cases rule: auth_step.cases) (auto dest: policy_handle dest!: arg_cong [of _ _ fst])
  qed
  then have "good_hash e (Some h)" using assms(2,3) unfolding policy_def by metis
  then show ?thesis by (auto simp: good_hash_def)
qed

subsection \<open>An example run\<close>

definition ex_auth :: auth_env where
  "ex_auth = \<lparr>hashpw = \<lambda>p n. p, checkpw = \<lambda>p h. p = h, e_auth_on = True, e_reg = Some Invite_Only,
     e_verify = Some False, e_prod = True, e_smtp = True\<rparr>"

definition ex_invites :: "beta_invite list" where
  "ex_invites = [\<lparr>bi_id = 1, bi_code = ''KOD'', bi_email = Some ''ali@x.com'', used_at = None, expires_at = None,
     used_by = None\<rparr>]"

definition ex_register :: register_in where
  "ex_register = \<lparr>ri_code = Some ''KOD'', ri_email = ''ali@x.com'', ri_password = ''Vadi-Tepe9'',
     ri_user_name = None, ri_consent = True\<rparr>"

definition ex_token :: "token_type \<Rightarrow> nat \<Rightarrow> int \<Rightarrow> int \<Rightarrow> claims" where
  "ex_token ty j now ttl = \<lparr>cl_sub = 1, cl_type = ty, cl_jti = j, cl_tv = 0, cl_new = [], cl_old = [], cl_iat = now,
     cl_exp = now + ttl\<rparr>"

text \<open>Ali registers, asks for a reset link and uses it.\<close>

definition ex_s1 :: auth_db where "ex_s1 = fst (handle ex_auth 0 (Rq_Register ex_register) (fresh_db ex_invites))"
definition ex_s2 :: auth_db where "ex_s2 = fst (handle ex_auth 0 (Rq_Reset_Request ''ali@x.com'') ex_s1)"
definition ex_reset :: auth_request where "ex_reset = Rq_Reset_Confirm (Some (ex_token Pwreset 2 0 1800)) ''Baska-Dag7''"
definition ex_s3 :: auth_db where "ex_s3 = fst (handle ex_auth 0 ex_reset ex_s2)"

lemma ex_handle: "handle e now rq s = (fst (handle e now rq s), snd (handle e now rq s))"
  by simp

lemma ex_run: "auth_run ex_auth (0, fresh_db ex_invites) (0, ex_s2)"
  unfolding ex_s2_def ex_s1_def by (rule run_trans [OF run_step [OF ex_handle] run_step [OF ex_handle]])

lemma ex_reset_ok: "handle ex_auth 0 ex_reset ex_s2 = (ex_s3, Inr Done)"
proof -
  have "snd (handle ex_auth 0 ex_reset ex_s2) = Inr Done" by code_simp
  then show ?thesis using ex_handle [of ex_auth 0 ex_reset ex_s2] by (simp add: ex_s3_def)
qed

lemma authenticated_iff_witness:
  "get_current_user ex_auth 0 ex_s2 (Some (Some (ex_token Access 0 0 1800))) = Inr (hd (users ex_s2))"
proof (rule authenticated_iff [THEN iffD2])
  let ?c = "ex_token Access 0 0 1800"
  have "?c \<in> set (minted ex_s2) \<and> cl_type ?c = Access \<and> cl_iat ?c \<le> 0 \<and> 0 < cl_exp ?c \<and>
      \<not> token_revoked ex_s2 (cl_jti ?c) \<and> get_user ex_s2 (cl_sub ?c) = Some (hd (users ex_s2)) \<and>
      au_active (hd (users ex_s2)) \<and> cl_tv ?c = token_version (hd (users ex_s2))"
    by code_simp
  then show "\<exists>c. Some (Some ?c) = Some (Some c) \<and> c \<in> set (minted ex_s2) \<and> cl_type c = Access \<and> cl_iat c \<le> 0 \<and>
      0 < cl_exp c \<and> \<not> token_revoked ex_s2 (cl_jti c) \<and> get_user ex_s2 (cl_sub c) = Some (hd (users ex_s2)) \<and>
      au_active (hd (users ex_s2)) \<and> cl_tv c = token_version (hd (users ex_s2))"
    by blast
qed (simp add: ex_auth_def)



lemma one_time_tokens_witness: "\<exists>err. snd (handle ex_auth 0 ex_reset ex_s3) = Inl err"
  by (rule one_time_tokens [OF ex_run _ ex_reset_ok]) (simp_all add: ex_reset_def auth_run_def)

lemma closed_beta_witness:
  "list_all (\<lambda>u. list_ex (\<lambda>d. used_by d = Some (au_id u) \<and> used_at d \<noteq> None) (beta_invites ex_s2)) (users ex_s2) \<and>
   length (users ex_s2) \<le> length ex_invites"
  by (rule closed_beta [OF _ _ ex_run])
    (simp_all add: invite_required_def registration_mode_def ex_auth_def ex_invites_def)

lemma passwords_follow_policy_witness:
  "\<exists>p salt. ''Vadi-Tepe9'' = hashpw ex_auth p salt \<and> password_length_ok p \<and> password_problems p None None = []"
proof (rule passwords_follow_policy [OF ex_run])
  show "hd (users ex_s2) \<in> set (users ex_s2)" by code_simp
  show "password_hash (hd (users ex_s2)) = Some ''Vadi-Tepe9''" by code_simp
qed


subsection \<open>Where the code falls short\<close>

text \<open>A pending change of the e-mail is not bound to the session version: asked for before the password
  is changed, its link still takes the account over afterwards.\<close>

definition ex_s4 :: auth_db where
  "ex_s4 = fst (handle ex_auth 0 (Rq_Change_Email (Some (Some (ex_token Access 0 0 1800))) ''eve@x.com''
     (Some ''Vadi-Tepe9'')) ex_s2)"

definition ex_link :: claims where
  "ex_link = \<lparr>cl_sub = 1, cl_type = Email_Change, cl_jti = 3, cl_tv = 0, cl_new = ''eve@x.com'', cl_old = ''ali@x.com'',
     cl_iat = 0, cl_exp = 7200\<rparr>"

lemma email_change_survives_reset:
  "let s5 = fst (handle ex_auth 60 ex_reset ex_s4); (s6, r) = handle ex_auth 120 (Rq_Change_Email_Confirm (Some ex_link)) s5
   in map token_version (users s5) = [1] \<and> r = Inr Done \<and> map au_email (users s6) = [Some ''eve@x.com'']"
  by code_simp

text \<open>Two requests with the same refresh token that both pass the checks before either commits both get
  a pair: \<open>revoke_jti\<close> is silent about a token that is revoked already.\<close>

lemma refresh_race:
  assumes "refresh_check now tok s = (s, Inr (u, c))"
  shows "\<exists>s1 s2 a r a' r'. refresh_rotate now u c s = (s1, Inr (Tokens a r)) \<and>
    refresh_rotate now u c s1 = (s2, Inr (Tokens a' r')) \<and> session_version s2 (au_id u) = session_version s (au_id u)"
  by (simp add: refresh_rotate_def issue_tokens_def create_access_token_def create_refresh_token_def create_token_def
      mint_def Let_def session_version_def get_user_def revoke_jti_def)

text \<open>A password refused at the registration of an account is accepted when the account sets it later.\<close>

lemma own_name_accepted_later:
  "password_problems ''ali98761'' (Some ''ali@x.com'') None = [Own_Identity]" "new_password_ok ''ali98761''"
  by code_simp+

end
