(* ===== verification/Records.thy ===== *)
theory Records
  imports Actions Rules_Analysis
begin

text \<open>
  The ledger records a user keeps by hand: app/routers/accounts.py, incomes.py, expenses.py,
  categories.py, envelopes.py, wishlist.py and checkpoints.py, without the triggers of the
  recurring items (theory Action_Executor). A request is already authenticated and its active
  workspace resolved: \<open>u\<close> and \<open>w\<close>. In a patch the outer option says whether the field was
  sent and the inner one whether it was null. A null for a NOT NULL column and a broken unique
  or foreign key abort the transaction. The response is validated after the commit, by the same
  constraints as the request. Notes, display names and creation times carry no logic and are left out.
\<close>

subsection \<open>Patches and field checks\<close>

definition put :: "'a option \<Rightarrow> ('a \<Rightarrow> 'r \<Rightarrow> 'r) \<Rightarrow> 'r \<Rightarrow> 'r" where
  "put v f r = (case v of None \<Rightarrow> r | Some x \<Rightarrow> f x r)"

definition put_some :: "'a option option \<Rightarrow> ('a \<Rightarrow> 'r \<Rightarrow> 'r) \<Rightarrow> 'r \<Rightarrow> 'r" where
  "put_some v f r = (case v of Some (Some x) \<Rightarrow> f x r | _ \<Rightarrow> r)"

definition opt_ok :: "('a \<Rightarrow> bool) \<Rightarrow> 'a option \<Rightarrow> bool" where
  "opt_ok P v = (case v of None \<Rightarrow> True | Some x \<Rightarrow> P x)"

definition oran_ok :: "rat \<Rightarrow> bool" where "oran_ok x \<longleftrightarrow> 0 \<le> x \<and> x \<le> fin_max"
definition bakiye_ok :: "rat \<Rightarrow> bool" where "bakiye_ok x \<longleftrightarrow> - fin_max \<le> x \<and> x \<le> fin_max"
definition tutar_ok :: "rat \<Rightarrow> bool" where "tutar_ok x \<longleftrightarrow> 0 < x \<and> x \<le> fin_max"
definition day_ok :: "nat \<Rightarrow> bool" where "day_ok d \<longleftrightarrow> 1 \<le> d \<and> d \<le> 31"
definition name_ok :: "nat \<Rightarrow> string \<Rightarrow> bool" where "name_ok n s \<longleftrightarrow> 1 \<le> length s \<and> length s \<le> n"

text \<open>A list endpoint: one row the response model refuses fails the whole answer.\<close>

definition serve_list :: "('r \<Rightarrow> bool) \<Rightarrow> 'r list \<Rightarrow> 'r list result" where
  "serve_list out_ok rows = (if list_all out_ok rows then Inr rows else Inl Server_Error)"

definition serve_row :: "('r \<Rightarrow> bool) \<Rightarrow> 'r \<Rightarrow> ('r \<Rightarrow> nat) \<Rightarrow> nat result" where
  "serve_row out_ok r key = (if out_ok r then Inr (key r) else Inl Server_Error)"

subsection \<open>Tables\<close>

datatype wish_status = W_Pending | W_Bought | W_Dismissed

record wish =
  wi_id :: nat
  wi_user :: nat
  wi_ws :: "nat option"
  wi_item :: string
  wi_amount :: rat
  wi_status :: wish_status
  wi_created :: int
  wi_resolved :: "int option"

record books =
  bk_db :: db
  bk_envelopes :: "envelope list"
  bk_wishes :: "wish list"

text \<open>The foreign keys to \<open>accounts.id\<close>.\<close>

definition refers :: "account list \<Rightarrow> nat option \<Rightarrow> bool" where
  "refers accs i = (case i of None \<Rightarrow> True | Some j \<Rightarrow> j \<in> acc_id ` set accs)"

definition refs_ok :: "db \<Rightarrow> bool" where
  "refs_ok d \<longleftrightarrow> list_all (\<lambda>t. refers (accounts d) (tx_account t)) (transactions d) \<and>
     list_all (\<lambda>r. refers (accounts d) (settlement_account r)) (debts d) \<and>
     list_all (\<lambda>r. refers (accounts d) (re_account r)) (expenses d)"

subsection \<open>Accounts\<close>

record account_in =
  ai_name :: string
  ai_type :: account_type
  ai_balance :: rat
  ai_credit_limit :: "rat option"
  ai_statement_day :: "nat option"
  ai_payment_day :: "nat option"
  ai_statement_balance :: "rat option"
  ai_min_payment_ratio :: "rat option"
  ai_interest_rate :: "rat option"
  ai_monthly_payment :: "rat option"
  ai_remaining :: "nat option"
  ai_early_payoff :: "rat option"
  ai_next_payment :: "date option"
  ai_fund_code :: "string option"
  ai_lot_count :: "rat option"
  ai_cost_per_lot :: "rat option"
  ai_current_price :: "rat option"
  ai_emanet :: bool

text \<open>The row of a new account, before the balance of an investment is computed.\<close>

definition account_row :: "account_in \<Rightarrow> nat \<Rightarrow> nat \<Rightarrow> nat option \<Rightarrow> account" where
  "account_row p i u w = \<lparr>acc_id = i, acc_user = u, acc_ws = w, acc_name = ai_name p, acc_type = ai_type p,
     acc_balance = ai_balance p, credit_limit = ai_credit_limit p, statement_day = ai_statement_day p,
     payment_day = ai_payment_day p, interest_rate = ai_interest_rate p, min_payment_ratio = ai_min_payment_ratio p,
     statement_balance = ai_statement_balance p, monthly_payment = ai_monthly_payment p,
     remaining_installments = ai_remaining p, next_payment_date = ai_next_payment p,
     early_payoff_amount = ai_early_payoff p, lot_count = ai_lot_count p, cost_per_lot = ai_cost_per_lot p,
     current_price = ai_current_price p, last_price_update = None, fund_code = ai_fund_code p,
     is_emanet = ai_emanet p\<rparr>"

text \<open>\<open>AccountBase\<close>, of the request as of the response.\<close>

definition account_ok :: "account \<Rightarrow> bool" where
  "account_ok a \<longleftrightarrow> name_ok 100 (acc_name a) \<and> bakiye_ok (acc_balance a) \<and> opt_ok oran_ok (credit_limit a) \<and>
     opt_ok day_ok (statement_day a) \<and> opt_ok day_ok (payment_day a) \<and> opt_ok bakiye_ok (statement_balance a) \<and>
     opt_ok (\<lambda>x. 0 \<le> x \<and> x \<le> 1) (min_payment_ratio a) \<and> opt_ok oran_ok (interest_rate a) \<and>
     opt_ok oran_ok (monthly_payment a) \<and> opt_ok oran_ok (early_payoff_amount a) \<and>
     opt_ok (\<lambda>s. length s \<le> 20) (fund_code a) \<and> opt_ok oran_ok (lot_count a) \<and>
     opt_ok oran_ok (cost_per_lot a) \<and> opt_ok oran_ok (current_price a)"

definition lots_worth :: "account \<Rightarrow> rat option" where
  "lots_worth a = (case (lot_count a, current_price a) of (Some l, Some x) \<Rightarrow> Some (fmul l (fl x)) | _ \<Rightarrow> None)"

definition create_account :: "int \<Rightarrow> books \<Rightarrow> nat \<Rightarrow> nat option \<Rightarrow> account_in \<Rightarrow> books \<times> nat result" where
  "create_account now s u w p =
     (let d = bk_db s; row = account_row p (next_key acc_id (accounts d)) u w in
      if \<not> account_ok row then (s, Inl Unprocessable)
      else (let row1 = (case lots_worth row of
                  Some b \<Rightarrow> if acc_type row = Investment then row\<lparr>acc_balance := b\<rparr> else row | None \<Rightarrow> row);
                row2 = (if current_price row1 \<noteq> None then row1\<lparr>last_price_update := Some now\<rparr> else row1)
            in (s\<lparr>bk_db := d\<lparr>accounts := accounts d @ [row2]\<rparr>\<rparr>, serve_row account_ok row2 acc_id)))"

record account_patch =
  ap_name :: "string option option"
  ap_balance :: "rat option option"
  ap_credit_limit :: "rat option option"
  ap_statement_day :: "nat option option"
  ap_payment_day :: "nat option option"
  ap_statement_balance :: "rat option option"
  ap_min_payment_ratio :: "rat option option"
  ap_interest_rate :: "rat option option"
  ap_monthly_payment :: "rat option option"
  ap_remaining :: "nat option option"
  ap_early_payoff :: "rat option option"
  ap_next_payment :: "date option option"
  ap_fund_code :: "string option option"
  ap_lot_count :: "rat option option"
  ap_cost_per_lot :: "rat option option"
  ap_current_price :: "rat option option"
  ap_emanet :: "bool option option"

definition account_patch_ok :: "account_patch \<Rightarrow> bool" where
  "account_patch_ok p \<longleftrightarrow> opt_ok (opt_ok (name_ok 100)) (ap_name p) \<and> opt_ok (opt_ok bakiye_ok) (ap_balance p) \<and>
     opt_ok (opt_ok oran_ok) (ap_credit_limit p) \<and> opt_ok (opt_ok day_ok) (ap_statement_day p) \<and>
     opt_ok (opt_ok day_ok) (ap_payment_day p) \<and> opt_ok (opt_ok bakiye_ok) (ap_statement_balance p) \<and>
     opt_ok (opt_ok (\<lambda>x. 0 \<le> x \<and> x \<le> 1)) (ap_min_payment_ratio p) \<and> opt_ok (opt_ok oran_ok) (ap_interest_rate p) \<and>
     opt_ok (opt_ok oran_ok) (ap_monthly_payment p) \<and> opt_ok (opt_ok oran_ok) (ap_early_payoff p) \<and>
     opt_ok (opt_ok (\<lambda>s. length s \<le> 20)) (ap_fund_code p) \<and> opt_ok (opt_ok oran_ok) (ap_lot_count p) \<and>
     opt_ok (opt_ok oran_ok) (ap_cost_per_lot p) \<and> opt_ok (opt_ok oran_ok) (ap_current_price p)"

text \<open>The NOT NULL columns a patch can reach.\<close>

definition account_nulls :: "account_patch \<Rightarrow> bool" where
  "account_nulls p \<longleftrightarrow> ap_name p = Some None \<or> ap_balance p = Some None \<or> ap_emanet p = Some None"

definition account_fields :: "account_patch \<Rightarrow> account \<Rightarrow> account" where
  "account_fields p = put_some (ap_name p) (\<lambda>x a. a\<lparr>acc_name := x\<rparr>) \<circ> put_some (ap_balance p) (\<lambda>x a. a\<lparr>acc_balance := x\<rparr>) \<circ>
     put (ap_credit_limit p) (\<lambda>x a. a\<lparr>credit_limit := x\<rparr>) \<circ> put (ap_statement_day p) (\<lambda>x a. a\<lparr>statement_day := x\<rparr>) \<circ>
     put (ap_payment_day p) (\<lambda>x a. a\<lparr>payment_day := x\<rparr>) \<circ> put (ap_statement_balance p) (\<lambda>x a. a\<lparr>statement_balance := x\<rparr>) \<circ>
     put (ap_min_payment_ratio p) (\<lambda>x a. a\<lparr>min_payment_ratio := x\<rparr>) \<circ> put (ap_interest_rate p) (\<lambda>x a. a\<lparr>interest_rate := x\<rparr>) \<circ>
     put (ap_monthly_payment p) (\<lambda>x a. a\<lparr>monthly_payment := x\<rparr>) \<circ> put (ap_remaining p) (\<lambda>x a. a\<lparr>remaining_installments := x\<rparr>) \<circ>
     put (ap_early_payoff p) (\<lambda>x a. a\<lparr>early_payoff_amount := x\<rparr>) \<circ> put (ap_next_payment p) (\<lambda>x a. a\<lparr>next_payment_date := x\<rparr>) \<circ>
     put (ap_fund_code p) (\<lambda>x a. a\<lparr>fund_code := x\<rparr>) \<circ> put (ap_lot_count p) (\<lambda>x a. a\<lparr>lot_count := x\<rparr>) \<circ>
     put (ap_cost_per_lot p) (\<lambda>x a. a\<lparr>cost_per_lot := x\<rparr>) \<circ> put (ap_current_price p) (\<lambda>x a. a\<lparr>current_price := x\<rparr>) \<circ>
     put_some (ap_emanet p) (\<lambda>x a. a\<lparr>is_emanet := x\<rparr>)"

text \<open>\<open>AKILLI BAKIYE\<close>: the balance of an investment follows its lots and its price, unless it was sent.\<close>

definition smart_balance :: "account_patch \<Rightarrow> account \<Rightarrow> account" where
  "smart_balance p a = (case lots_worth a of None \<Rightarrow> a
     | Some b \<Rightarrow> if acc_type a = Investment \<and> ap_balance p = None \<and> (ap_lot_count p \<noteq> None \<or> ap_current_price p \<noteq> None)
                 then a\<lparr>acc_balance := b\<rparr> else a)"

definition account_patched :: "int \<Rightarrow> account_patch \<Rightarrow> account \<Rightarrow> account" where
  "account_patched now p a =
     (let a1 = smart_balance p (account_fields p a)
      in if ap_current_price p \<noteq> None then a1\<lparr>last_price_update := Some now\<rparr> else a1)"

definition update_account ::
  "int \<Rightarrow> books \<Rightarrow> nat \<Rightarrow> nat option \<Rightarrow> nat \<Rightarrow> account_patch \<Rightarrow> books \<times> nat result" where
  "update_account now s u w i p =
     (let d = bk_db s in
      if \<not> account_patch_ok p then (s, Inl Unprocessable)
      else case query_account u w i (accounts d) of None \<Rightarrow> (s, Inl Not_Found)
      | Some a \<Rightarrow> if account_nulls p then (s, Inl Server_Error)
                  else (s\<lparr>bk_db := d\<lparr>accounts := upd_row acc_id (acc_id a) (account_patched now p) (accounts d)\<rparr>\<rparr>,
                        serve_row account_ok (account_patched now p a) acc_id))"

text \<open>The children counted, and the foreign key that only the database knows of.\<close>

definition delete_account :: "books \<Rightarrow> nat \<Rightarrow> nat option \<Rightarrow> nat \<Rightarrow> books \<times> nat result" where
  "delete_account s u w i =
     (let d = bk_db s in
      case query_account u w i (accounts d) of None \<Rightarrow> (s, Inl Not_Found)
      | Some a \<Rightarrow>
          if is_emanet a then (s, Inl Forbidden)
          else if list_ex (\<lambda>t. tx_account t = Some i) (transactions d) \<or> list_ex (\<lambda>e. re_account e = Some i) (expenses d)
          then (s, Inl Conflict)
          else if list_ex (\<lambda>r. settlement_account r = Some i) (debts d) then (s, Inl Conflict)
          else (s\<lparr>bk_db := d\<lparr>accounts := del_row acc_id i (accounts d)\<rparr>\<rparr>, Inr i))"

definition type_order :: "account_type \<Rightarrow> nat" where
  "type_order t = (case t of Cash \<Rightarrow> 0 | Credit_Card \<Rightarrow> 1 | Investment \<Rightarrow> 2 | Loan \<Rightarrow> 3)"

definition list_accounts :: "books \<Rightarrow> nat \<Rightarrow> nat option \<Rightarrow> account_type option \<Rightarrow> nat \<Rightarrow> account list result" where
  "list_accounts s u w t limit = serve_list account_ok (take limit (sort_key (\<lambda>a. type_order (acc_type a)) (sort_key acc_id
     (filter (\<lambda>a. acc_in_scope u w a \<and> opt_ok (\<lambda>x. acc_type a = x) t) (accounts (bk_db s))))))"

subsection \<open>Recurring incomes\<close>

record income_in =
  ii_name :: string
  ii_amount :: rat
  ii_day :: nat
  ii_active :: bool

definition income_ok :: "recurring_income \<Rightarrow> bool" where
  "income_ok r \<longleftrightarrow> name_ok 100 (ri_name r) \<and> tutar_ok (ri_amount r) \<and> day_ok (ri_day r)"

definition query_income :: "nat \<Rightarrow> nat option \<Rightarrow> nat \<Rightarrow> recurring_income list \<Rightarrow> recurring_income option" where
  "query_income u w i rs = List.find (\<lambda>r. ri_id r = i \<and> scope_filter u w (ri_user r) (ri_ws r)) rs"

definition create_income :: "books \<Rightarrow> nat \<Rightarrow> nat option \<Rightarrow> income_in \<Rightarrow> books \<times> nat result" where
  "create_income s u w p =
     (let d = bk_db s; row = \<lparr>ri_id = next_key ri_id (incomes d), ri_user = u, ri_ws = w, ri_name = ii_name p,
            ri_amount = ii_amount p, ri_day = ii_day p, ri_active = ii_active p, ri_last_triggered = None\<rparr>
      in if \<not> income_ok row then (s, Inl Unprocessable)
         else (s\<lparr>bk_db := d\<lparr>incomes := incomes d @ [row]\<rparr>\<rparr>, serve_row income_ok row ri_id))"

record income_patch =
  ip_name :: "string option option"
  ip_amount :: "rat option option"
  ip_day :: "nat option option"
  ip_active :: "bool option option"

definition income_patch_ok :: "income_patch \<Rightarrow> bool" where
  "income_patch_ok p \<longleftrightarrow> opt_ok (opt_ok (name_ok 100)) (ip_name p) \<and> opt_ok (opt_ok tutar_ok) (ip_amount p) \<and>
     opt_ok (opt_ok day_ok) (ip_day p)"

definition income_nulls :: "income_patch \<Rightarrow> bool" where
  "income_nulls p \<longleftrightarrow> ip_name p = Some None \<or> ip_amount p = Some None \<or> ip_day p = Some None \<or> ip_active p = Some None"

definition income_patched :: "income_patch \<Rightarrow> recurring_income \<Rightarrow> recurring_income" where
  "income_patched p = put_some (ip_name p) (\<lambda>x r. r\<lparr>ri_name := x\<rparr>) \<circ> put_some (ip_amount p) (\<lambda>x r. r\<lparr>ri_amount := x\<rparr>) \<circ>
     put_some (ip_day p) (\<lambda>x r. r\<lparr>ri_day := x\<rparr>) \<circ> put_some (ip_active p) (\<lambda>x r. r\<lparr>ri_active := x\<rparr>)"

definition update_income :: "books \<Rightarrow> nat \<Rightarrow> nat option \<Rightarrow> nat \<Rightarrow> income_patch \<Rightarrow> books \<times> nat result" where
  "update_income s u w i p =
     (let d = bk_db s in
      if \<not> income_patch_ok p then (s, Inl Unprocessable)
      else case query_income u w i (incomes d) of None \<Rightarrow> (s, Inl Not_Found)
      | Some r \<Rightarrow> if income_nulls p then (s, Inl Server_Error)
                  else (s\<lparr>bk_db := d\<lparr>incomes := upd_row ri_id (ri_id r) (income_patched p) (incomes d)\<rparr>\<rparr>,
                        serve_row income_ok (income_patched p r) ri_id))"

definition delete_income :: "books \<Rightarrow> nat \<Rightarrow> nat option \<Rightarrow> nat \<Rightarrow> books \<times> nat result" where
  "delete_income s u w i =
     (let d = bk_db s in
      case query_income u w i (incomes d) of None \<Rightarrow> (s, Inl Not_Found)
      | Some r \<Rightarrow> (s\<lparr>bk_db := d\<lparr>incomes := del_row ri_id i (incomes d)\<rparr>\<rparr>, Inr i))"

definition list_incomes :: "books \<Rightarrow> nat \<Rightarrow> nat option \<Rightarrow> bool \<Rightarrow> recurring_income list result" where
  "list_incomes s u w active_only = serve_list income_ok (sort_key ri_day (sort_key ri_id
     (filter (\<lambda>r. scope_filter u w (ri_user r) (ri_ws r) \<and> (active_only \<longrightarrow> ri_active r)) (incomes (bk_db s)))))"

subsection \<open>Recurring expenses\<close>

record expense_in =
  ei_name :: string
  ei_amount :: rat
  ei_account :: nat
  ei_category :: "string option"
  ei_day :: nat
  ei_active :: bool

text \<open>The response has \<open>account_id: int\<close>; the column is nullable.\<close>

definition expense_ok :: "recurring_expense \<Rightarrow> bool" where
  "expense_ok r \<longleftrightarrow> name_ok 100 (re_name r) \<and> tutar_ok (re_amount r) \<and> day_ok (re_day r) \<and>
     opt_ok (\<lambda>c. length c \<le> 50) (re_category r) \<and> re_account r \<noteq> None"

definition query_expense :: "nat \<Rightarrow> nat option \<Rightarrow> nat \<Rightarrow> recurring_expense list \<Rightarrow> recurring_expense option" where
  "query_expense u w i rs = List.find (\<lambda>r. re_id r = i \<and> scope_filter u w (re_user r) (re_ws r)) rs"

definition create_expense :: "books \<Rightarrow> nat \<Rightarrow> nat option \<Rightarrow> expense_in \<Rightarrow> books \<times> nat result" where
  "create_expense s u w p =
     (let d = bk_db s; row = \<lparr>re_id = next_key re_id (expenses d), re_user = u, re_ws = w, re_name = ei_name p,
            re_amount = ei_amount p, re_account = Some (ei_account p), re_category = ei_category p,
            re_day = ei_day p, re_active = ei_active p, re_last_triggered = None\<rparr>
      in if \<not> expense_ok row then (s, Inl Unprocessable)
         else case query_account u w (ei_account p) (accounts d) of None \<Rightarrow> (s, Inl Not_Found)
         | Some _ \<Rightarrow> (s\<lparr>bk_db := d\<lparr>expenses := expenses d @ [row]\<rparr>\<rparr>, serve_row expense_ok row re_id))"

record expense_patch =
  ep_name :: "string option option"
  ep_amount :: "rat option option"
  ep_account :: "nat option option"
  ep_category :: "string option option"
  ep_day :: "nat option option"
  ep_active :: "bool option option"

definition expense_patch_ok :: "expense_patch \<Rightarrow> bool" where
  "expense_patch_ok p \<longleftrightarrow> opt_ok (opt_ok (name_ok 100)) (ep_name p) \<and> opt_ok (opt_ok tutar_ok) (ep_amount p) \<and>
     opt_ok (opt_ok day_ok) (ep_day p) \<and> opt_ok (opt_ok (\<lambda>c. length c \<le> 50)) (ep_category p)"

definition expense_nulls :: "expense_patch \<Rightarrow> bool" where
  "expense_nulls p \<longleftrightarrow> ep_name p = Some None \<or> ep_amount p = Some None \<or> ep_day p = Some None \<or> ep_active p = Some None"

definition expense_patched :: "expense_patch \<Rightarrow> recurring_expense \<Rightarrow> recurring_expense" where
  "expense_patched p = put_some (ep_name p) (\<lambda>x r. r\<lparr>re_name := x\<rparr>) \<circ> put_some (ep_amount p) (\<lambda>x r. r\<lparr>re_amount := x\<rparr>) \<circ>
     put (ep_account p) (\<lambda>x r. r\<lparr>re_account := x\<rparr>) \<circ> put (ep_category p) (\<lambda>x r. r\<lparr>re_category := x\<rparr>) \<circ>
     put_some (ep_day p) (\<lambda>x r. r\<lparr>re_day := x\<rparr>) \<circ> put_some (ep_active p) (\<lambda>x r. r\<lparr>re_active := x\<rparr>)"

definition update_expense :: "books \<Rightarrow> nat \<Rightarrow> nat option \<Rightarrow> nat \<Rightarrow> expense_patch \<Rightarrow> books \<times> nat result" where
  "update_expense s u w i p =
     (let d = bk_db s in
      if \<not> expense_patch_ok p then (s, Inl Unprocessable)
      else case query_expense u w i (expenses d) of None \<Rightarrow> (s, Inl Not_Found)
      | Some r \<Rightarrow>
          if (case ep_account p of Some (Some j) \<Rightarrow> query_account u w j (accounts d) = None | _ \<Rightarrow> False)
          then (s, Inl Not_Found)
          else if expense_nulls p then (s, Inl Server_Error)
          else (s\<lparr>bk_db := d\<lparr>expenses := upd_row re_id (re_id r) (expense_patched p) (expenses d)\<rparr>\<rparr>,
                serve_row expense_ok (expense_patched p r) re_id))"

definition delete_expense :: "books \<Rightarrow> nat \<Rightarrow> nat option \<Rightarrow> nat \<Rightarrow> books \<times> nat result" where
  "delete_expense s u w i =
     (let d = bk_db s in
      case query_expense u w i (expenses d) of None \<Rightarrow> (s, Inl Not_Found)
      | Some r \<Rightarrow> (s\<lparr>bk_db := d\<lparr>expenses := del_row re_id i (expenses d)\<rparr>\<rparr>, Inr i))"

definition list_expenses :: "books \<Rightarrow> nat \<Rightarrow> nat option \<Rightarrow> bool \<Rightarrow> recurring_expense list result" where
  "list_expenses s u w active_only = serve_list expense_ok (sort_key re_day (sort_key re_id
     (filter (\<lambda>r. scope_filter u w (re_user r) (re_ws r) \<and> (active_only \<longrightarrow> re_active r)) (expenses (bk_db s)))))"

subsection \<open>Envelopes\<close>

text \<open>\<open>uq_envelope_user_category\<close>: one envelope per user and category, in whatever workspace.\<close>

definition envelope_taken :: "nat \<Rightarrow> string \<Rightarrow> envelope list \<Rightarrow> bool" where
  "envelope_taken u c es = list_ex (\<lambda>e. en_user e = u \<and> en_category e = c) es"

definition query_envelope :: "nat \<Rightarrow> nat option \<Rightarrow> nat \<Rightarrow> envelope list \<Rightarrow> envelope option" where
  "query_envelope u w i es = List.find (\<lambda>e. en_id e = i \<and> scope_filter u w (en_user e) (en_ws e)) es"

definition envelope_of :: "nat \<Rightarrow> nat option \<Rightarrow> string \<Rightarrow> envelope list \<Rightarrow> envelope option" where
  "envelope_of u w c es = List.find (\<lambda>e. scope_filter u w (en_user e) (en_ws e) \<and> en_category e = c) es"

definition create_envelope :: "books \<Rightarrow> nat \<Rightarrow> nat option \<Rightarrow> string \<Rightarrow> rat \<Rightarrow> books \<times> nat result" where
  "create_envelope s u w c amount =
     (if \<not> name_ok 50 c \<or> amount \<le> 0 then (s, Inl Unprocessable)
      else case envelope_of u w c (bk_envelopes s) of Some _ \<Rightarrow> (s, Inl Conflict)
      | None \<Rightarrow>
          if envelope_taken u c (bk_envelopes s) then (s, Inl Server_Error)
          else (let k = next_key en_id (bk_envelopes s) in
            (s\<lparr>bk_envelopes := bk_envelopes s @
               [\<lparr>en_id = k, en_user = u, en_ws = w, en_category = c, en_amount = amount, en_active = True\<rparr>]\<rparr>, Inr k)))"

record envelope_patch =
  np_amount :: "rat option option"
  np_active :: "bool option option"

definition envelope_patched :: "envelope_patch \<Rightarrow> envelope \<Rightarrow> envelope" where
  "envelope_patched p = put_some (np_amount p) (\<lambda>x e. e\<lparr>en_amount := x\<rparr>) \<circ> put_some (np_active p) (\<lambda>x e. e\<lparr>en_active := x\<rparr>)"

definition update_envelope :: "books \<Rightarrow> nat \<Rightarrow> nat option \<Rightarrow> nat \<Rightarrow> envelope_patch \<Rightarrow> books \<times> nat result" where
  "update_envelope s u w i p =
     (if \<not> opt_ok (opt_ok (\<lambda>x. 0 < x)) (np_amount p) then (s, Inl Unprocessable)
      else case query_envelope u w i (bk_envelopes s) of None \<Rightarrow> (s, Inl Not_Found)
      | Some e \<Rightarrow> if np_amount p = Some None \<or> np_active p = Some None then (s, Inl Server_Error)
                  else (s\<lparr>bk_envelopes := upd_row en_id (en_id e) (envelope_patched p) (bk_envelopes s)\<rparr>, Inr i))"

definition delete_envelope :: "books \<Rightarrow> nat \<Rightarrow> nat option \<Rightarrow> nat \<Rightarrow> books \<times> nat result" where
  "delete_envelope s u w i =
     (case query_envelope u w i (bk_envelopes s) of None \<Rightarrow> (s, Inl Not_Found)
      | Some e \<Rightarrow> (s\<lparr>bk_envelopes := del_row en_id i (bk_envelopes s)\<rparr>, Inr i))"

subsection \<open>Wishes\<close>

definition review_after :: int where "review_after = 24 * 60 * 60"

definition wish_ready :: "int \<Rightarrow> wish \<Rightarrow> bool" where
  "wish_ready now x \<longleftrightarrow> review_after \<le> now - wi_created x"

definition query_wish :: "nat \<Rightarrow> nat option \<Rightarrow> nat \<Rightarrow> wish list \<Rightarrow> wish option" where
  "query_wish u w i xs = List.find (\<lambda>x. wi_id x = i \<and> scope_filter u w (wi_user x) (wi_ws x)) xs"

definition list_wishlist :: "int \<Rightarrow> books \<Rightarrow> nat \<Rightarrow> nat option \<Rightarrow> (wish \<times> bool) list \<times> nat" where
  "list_wishlist now s u w =
     (let rows = sort_key wi_created (filter (\<lambda>x. scope_filter u w (wi_user x) (wi_ws x) \<and> wi_status x = W_Pending) (bk_wishes s))
      in (map (\<lambda>x. (x, wish_ready now x)) rows, length (filter (wish_ready now) rows)))"

definition add_wishlist :: "int \<Rightarrow> books \<Rightarrow> nat \<Rightarrow> nat option \<Rightarrow> string \<Rightarrow> rat \<Rightarrow> books \<times> nat result" where
  "add_wishlist now s u w item amount =
     (if \<not> name_ok 200 item \<or> amount \<le> 0 then (s, Inl Unprocessable)
      else (let k = next_key wi_id (bk_wishes s) in
        (s\<lparr>bk_wishes := bk_wishes s @ [\<lparr>wi_id = k, wi_user = u, wi_ws = w, wi_item = item, wi_amount = amount,
            wi_status = W_Pending, wi_created = now, wi_resolved = None\<rparr>]\<rparr>, Inr k)))"

definition wish_resolved :: "int \<Rightarrow> wish_status \<Rightarrow> wish \<Rightarrow> wish" where
  "wish_resolved now st x = x\<lparr>wi_status := st, wi_resolved := Some now\<rparr>"

definition resolve_wishlist :: "int \<Rightarrow> books \<Rightarrow> nat \<Rightarrow> nat option \<Rightarrow> nat \<Rightarrow> wish_status \<Rightarrow> books \<times> nat result" where
  "resolve_wishlist now s u w i st =
     (if st = W_Pending then (s, Inl Unprocessable)
      else case query_wish u w i (bk_wishes s) of None \<Rightarrow> (s, Inl Not_Found)
      | Some x \<Rightarrow>
          if wi_status x \<noteq> W_Pending then (s, Inl Conflict)
          else (s\<lparr>bk_wishes := upd_row wi_id (wi_id x) (wish_resolved now st) (bk_wishes s)\<rparr>, Inr i))"

subsection \<open>Checkpoints\<close>

definition positive_number :: "jval \<Rightarrow> bool" where
  "positive_number v = (case v of J_Int n \<Rightarrow> 0 < n | J_Float x \<Rightarrow> 0 < x | _ \<Rightarrow> False)"

text \<open>The rule is of a known type and has its parameter, a positive number.\<close>

definition kural_tutarli :: "string option \<Rightarrow> rule_params option \<Rightarrow> bool" where
  "kural_tutarli t q = (case t of None \<Rightarrow> True
     | Some k \<Rightarrow> k \<in> {''min_cash_floor'', ''account_untouchable'', ''max_single_expense''} \<and>
         (case q of None \<Rightarrow> False
          | Some p \<Rightarrow> (case (if k = ''account_untouchable'' then rp_account p else rp_amount p) of
              None \<Rightarrow> False | Some v \<Rightarrow> positive_number v)))"

record checkpoint_in =
  ci_title :: string
  ci_description :: string
  ci_type :: checkpoint_type
  ci_priority :: int
  ci_active :: bool
  ci_rule_type :: "string option"
  ci_rule_params :: "rule_params option"

definition checkpoint_ok :: "master_checkpoint \<Rightarrow> bool" where
  "checkpoint_ok c \<longleftrightarrow> name_ok 200 (cp_title c) \<and> name_ok 2000 (cp_description c) \<and> 1 \<le> cp_priority c \<and>
     cp_priority c \<le> 3 \<and> kural_tutarli (cp_rule_type c) (cp_rule_params c)"

definition query_checkpoint :: "nat \<Rightarrow> nat option \<Rightarrow> nat \<Rightarrow> master_checkpoint list \<Rightarrow> master_checkpoint option" where
  "query_checkpoint u w i cs = List.find (\<lambda>c. cp_id c = i \<and> scope_filter u w (cp_user c) (cp_ws c)) cs"

definition create_checkpoint :: "books \<Rightarrow> nat \<Rightarrow> nat option \<Rightarrow> checkpoint_in \<Rightarrow> books \<times> nat result" where
  "create_checkpoint s u w p =
     (let d = bk_db s; row = \<lparr>cp_id = next_key cp_id (checkpoints d), cp_user = u, cp_ws = w, cp_title = ci_title p,
            cp_description = ci_description p, cp_type = ci_type p, cp_priority = ci_priority p,
            cp_active = ci_active p, cp_system = False, cp_rule_type = ci_rule_type p, cp_rule_params = ci_rule_params p\<rparr>
      in if \<not> checkpoint_ok row then (s, Inl Unprocessable)
         else (s\<lparr>bk_db := d\<lparr>checkpoints := checkpoints d @ [row]\<rparr>\<rparr>, serve_row checkpoint_ok row cp_id))"

record checkpoint_patch =
  kp_title :: "string option option"
  kp_description :: "string option option"
  kp_type :: "checkpoint_type option option"
  kp_priority :: "int option option"
  kp_active :: "bool option option"
  kp_rule_type :: "string option option"
  kp_rule_params :: "rule_params option option"

definition checkpoint_patch_ok :: "checkpoint_patch \<Rightarrow> bool" where
  "checkpoint_patch_ok p \<longleftrightarrow> opt_ok (opt_ok (name_ok 200)) (kp_title p) \<and>
     opt_ok (opt_ok (\<lambda>s. 1 \<le> length s)) (kp_description p) \<and> opt_ok (opt_ok (\<lambda>n. 1 \<le> n \<and> n \<le> 3)) (kp_priority p)"

definition checkpoint_nulls :: "checkpoint_patch \<Rightarrow> bool" where
  "checkpoint_nulls p \<longleftrightarrow> kp_title p = Some None \<or> kp_description p = Some None \<or> kp_type p = Some None \<or>
     kp_priority p = Some None \<or> kp_active p = Some None"

definition checkpoint_patched :: "checkpoint_patch \<Rightarrow> master_checkpoint \<Rightarrow> master_checkpoint" where
  "checkpoint_patched p = put_some (kp_title p) (\<lambda>x c. c\<lparr>cp_title := x\<rparr>) \<circ>
     put_some (kp_description p) (\<lambda>x c. c\<lparr>cp_description := x\<rparr>) \<circ> put_some (kp_type p) (\<lambda>x c. c\<lparr>cp_type := x\<rparr>) \<circ>
     put_some (kp_priority p) (\<lambda>x c. c\<lparr>cp_priority := x\<rparr>) \<circ> put_some (kp_active p) (\<lambda>x c. c\<lparr>cp_active := x\<rparr>) \<circ>
     put (kp_rule_type p) (\<lambda>x c. c\<lparr>cp_rule_type := x\<rparr>) \<circ> put (kp_rule_params p) (\<lambda>x c. c\<lparr>cp_rule_params := x\<rparr>)"

definition red_line_1 :: "master_checkpoint \<Rightarrow> bool" where
  "red_line_1 c \<longleftrightarrow> cp_priority c = 1 \<and> cp_type c = Red_Line"

definition update_checkpoint :: "books \<Rightarrow> nat \<Rightarrow> nat option \<Rightarrow> nat \<Rightarrow> checkpoint_patch \<Rightarrow> books \<times> nat result" where
  "update_checkpoint s u w i p =
     (let d = bk_db s in
      if \<not> checkpoint_patch_ok p then (s, Inl Unprocessable)
      else case query_checkpoint u w i (checkpoints d) of None \<Rightarrow> (s, Inl Not_Found)
      | Some c \<Rightarrow>
          if red_line_1 c \<and> (kp_priority p \<noteq> None \<or> kp_type p \<noteq> None) then (s, Inl Forbidden)
          else if checkpoint_nulls p then (s, Inl Server_Error)
          else (s\<lparr>bk_db := d\<lparr>checkpoints := upd_row cp_id (cp_id c) (checkpoint_patched p) (checkpoints d)\<rparr>\<rparr>,
                serve_row checkpoint_ok (checkpoint_patched p c) cp_id))"

definition cp_protected :: "master_checkpoint \<Rightarrow> bool" where
  "cp_protected c \<longleftrightarrow> cp_system c \<or> red_line_1 c"

definition delete_checkpoint :: "books \<Rightarrow> nat \<Rightarrow> nat option \<Rightarrow> nat \<Rightarrow> bool \<Rightarrow> books \<times> nat result" where
  "delete_checkpoint s u w i hard =
     (let d = bk_db s in
      case query_checkpoint u w i (checkpoints d) of None \<Rightarrow> (s, Inl Not_Found)
      | Some c \<Rightarrow>
          if hard \<and> cp_protected c then (s, Inl Forbidden)
          else if hard then (s\<lparr>bk_db := d\<lparr>checkpoints := del_row cp_id i (checkpoints d)\<rparr>\<rparr>, Inr i)
          else (s\<lparr>bk_db := d\<lparr>checkpoints := upd_row cp_id (cp_id c) (\<lambda>c. c\<lparr>cp_active := False\<rparr>) (checkpoints d)\<rparr>\<rparr>, Inr i))"

definition list_checkpoints ::
  "books \<Rightarrow> nat \<Rightarrow> nat option \<Rightarrow> bool \<Rightarrow> checkpoint_type option \<Rightarrow> master_checkpoint list result" where
  "list_checkpoints s u w active_only t = serve_list checkpoint_ok (sort_key cp_priority (sort_key cp_id
     (filter (\<lambda>c. scope_filter u w (cp_user c) (cp_ws c) \<and> (active_only \<longrightarrow> cp_active c) \<and> opt_ok (\<lambda>x. cp_type c = x) t)
        (checkpoints (bk_db s)))))"

subsection \<open>Categories\<close>

text \<open>\<open>katlama\<close> is \<open>normalize(...).strip()\<close> of app/tr_text.py, which folds the Turkish letters.\<close>

definition cat_in_scope :: "nat \<Rightarrow> nat option \<Rightarrow> category \<Rightarrow> bool" where
  "cat_in_scope u w c = scope_filter u w (cat_user c) (cat_ws c)"

definition bul :: "nat \<Rightarrow> nat option \<Rightarrow> nat \<Rightarrow> category list \<Rightarrow> category option" where
  "bul u w i cs = List.find (\<lambda>c. cat_id c = i \<and> cat_in_scope u w c) cs"

definition category_of :: "nat \<Rightarrow> nat option \<Rightarrow> string \<Rightarrow> category list \<Rightarrow> category option" where
  "category_of u w sl cs = List.find (\<lambda>c. cat_in_scope u w c \<and> slug c = sl) cs"

definition kullanim_sayisi :: "string \<Rightarrow> nat \<Rightarrow> nat option \<Rightarrow> transaction list \<Rightarrow> nat" where
  "kullanim_sayisi sl u w ts = length (filter (\<lambda>t. tx_in_scope u w t \<and> tx_category t = Some sl) ts)"

definition list_categories :: "books \<Rightarrow> nat \<Rightarrow> nat option \<Rightarrow> bool \<Rightarrow> category list" where
  "list_categories s u w tumu = filter (\<lambda>c. cat_in_scope u w c \<and> (tumu \<or> \<not> gizli c)) (categories (bk_db s))"

definition create_category ::
  "(string \<Rightarrow> string) \<Rightarrow> books \<Rightarrow> nat \<Rightarrow> nat option \<Rightarrow> string \<Rightarrow> bool \<Rightarrow> books \<times> nat result" where
  "create_category katlama s u w ad kart =
     (let d = bk_db s; sl = katlama ad in
      if \<not> name_ok 50 ad \<or> sl = [] then (s, Inl Unprocessable)
      else case category_of u w sl (categories d) of
        Some c \<Rightarrow>
          if gizli c
          then (s\<lparr>bk_db := d\<lparr>categories := upd_row cat_id (cat_id c) (\<lambda>c. c\<lparr>gizli := False, kart_varsayilani := kart\<rparr>)
                 (categories d)\<rparr>\<rparr>, Inr (cat_id c))
          else (s, Inl Conflict)
      | None \<Rightarrow>
          (let k = next_key cat_id (categories d) in
           (s\<lparr>bk_db := d\<lparr>categories := categories d @ [\<lparr>cat_id = k, cat_user = u, cat_ws = w, slug = sl,
                kart_varsayilani = kart, sistem = False, gizli = False\<rparr>]\<rparr>\<rparr>, Inr k)))"

record category_patch =
  kt_ad :: "string option option"
  kt_kart :: "bool option option"
  kt_gizli :: "bool option option"

definition category_patched :: "category_patch \<Rightarrow> category \<Rightarrow> category" where
  "category_patched p = put_some (kt_kart p) (\<lambda>x c. c\<lparr>kart_varsayilani := x\<rparr>) \<circ> put_some (kt_gizli p) (\<lambda>x c. c\<lparr>gizli := x\<rparr>)"

definition update_category :: "books \<Rightarrow> nat \<Rightarrow> nat option \<Rightarrow> nat \<Rightarrow> category_patch \<Rightarrow> books \<times> nat result" where
  "update_category s u w i p =
     (let d = bk_db s in
      if \<not> opt_ok (opt_ok (name_ok 50)) (kt_ad p) then (s, Inl Unprocessable)
      else case bul u w i (categories d) of None \<Rightarrow> (s, Inl Not_Found)
      | Some c \<Rightarrow>
          if sistem c \<and> (kt_ad p \<noteq> None \<or> kt_kart p \<noteq> None) then (s, Inl Conflict)
          else if kt_ad p = Some None \<or> kt_kart p = Some None \<or> kt_gizli p = Some None then (s, Inl Server_Error)
          else (s\<lparr>bk_db := d\<lparr>categories := upd_row cat_id (cat_id c) (category_patched p) (categories d)\<rparr>\<rparr>, Inr i))"

text \<open>The transactions of the scope move to the target; so does the envelope, unless the target has one.\<close>

definition move_tx :: "nat \<Rightarrow> nat option \<Rightarrow> string \<Rightarrow> string \<Rightarrow> transaction list \<Rightarrow> transaction list" where
  "move_tx u w src dst = map (\<lambda>t. if tx_in_scope u w t \<and> tx_category t = Some src then t\<lparr>tx_category := Some dst\<rparr> else t)"

text \<open>\<open>None\<close> when the unique key of the envelopes refuses the move.\<close>

definition move_envelope :: "nat \<Rightarrow> nat option \<Rightarrow> string \<Rightarrow> string \<Rightarrow> envelope list \<Rightarrow> envelope list option" where
  "move_envelope u w src dst es =
     (case envelope_of u w src es of None \<Rightarrow> Some es
      | Some e \<Rightarrow>
          if envelope_of u w dst es \<noteq> None then Some (del_row en_id (en_id e) es)
          else if envelope_taken (en_user e) dst es then None
          else Some (upd_row en_id (en_id e) (\<lambda>e. e\<lparr>en_category := dst\<rparr>) es))"

definition delete_category ::
  "(string \<Rightarrow> string) \<Rightarrow> books \<Rightarrow> nat \<Rightarrow> nat option \<Rightarrow> nat \<Rightarrow> string option \<Rightarrow> books \<times> nat result" where
  "delete_category katlama s u w i hedef =
     (let d = bk_db s in
      case bul u w i (categories d) of None \<Rightarrow> (s, Inl Not_Found)
      | Some c \<Rightarrow>
          if sistem c then (s, Inl Conflict)
          else (let rest = del_row cat_id i (categories d) in
            if kullanim_sayisi (slug c) u w (transactions d) = 0
            then (s\<lparr>bk_db := d\<lparr>categories := rest\<rparr>\<rparr>, Inr i)
            else case hedef of None \<Rightarrow> (s, Inl Conflict)
            | Some h \<Rightarrow>
                if h = [] then (s, Inl Conflict)
                else if katlama h = slug c then (s, Inl Unprocessable)
                else (case category_of u w (katlama h) (categories d) of None \<Rightarrow> (s, Inl Not_Found)
                  | Some _ \<Rightarrow>
                      (case move_envelope u w (slug c) (katlama h) (bk_envelopes s) of None \<Rightarrow> (s, Inl Server_Error)
                       | Some es \<Rightarrow>
                           (s\<lparr>bk_db := d\<lparr>transactions := move_tx u w (slug c) (katlama h) (transactions d),
                                categories := rest\<rparr>, bk_envelopes := es\<rparr>, Inr i)))))"

subsection \<open>Requests\<close>

datatype record_request =
    Add_Account account_in
  | Edit_Account nat account_patch
  | Drop_Account nat
  | Add_Income income_in
  | Edit_Income nat income_patch
  | Drop_Income nat
  | Add_Expense expense_in
  | Edit_Expense nat expense_patch
  | Drop_Expense nat
  | Add_Envelope string rat
  | Edit_Envelope nat envelope_patch
  | Drop_Envelope nat
  | Add_Wish string rat
  | Resolve_Wish nat wish_status
  | Add_Checkpoint checkpoint_in
  | Edit_Checkpoint nat checkpoint_patch
  | Drop_Checkpoint nat bool
  | Add_Category string bool
  | Edit_Category nat category_patch
  | Drop_Category nat "string option"

definition serve_record ::
  "(string \<Rightarrow> string) \<Rightarrow> int \<Rightarrow> books \<Rightarrow> nat \<Rightarrow> nat option \<Rightarrow> record_request \<Rightarrow> books \<times> nat result" where
  "serve_record katlama now s u w rq = (case rq of
     Add_Account p \<Rightarrow> create_account now s u w p
   | Edit_Account i p \<Rightarrow> update_account now s u w i p
   | Drop_Account i \<Rightarrow> delete_account s u w i
   | Add_Income p \<Rightarrow> create_income s u w p
   | Edit_Income i p \<Rightarrow> update_income s u w i p
   | Drop_Income i \<Rightarrow> delete_income s u w i
   | Add_Expense p \<Rightarrow> create_expense s u w p
   | Edit_Expense i p \<Rightarrow> update_expense s u w i p
   | Drop_Expense i \<Rightarrow> delete_expense s u w i
   | Add_Envelope c x \<Rightarrow> create_envelope s u w c x
   | Edit_Envelope i p \<Rightarrow> update_envelope s u w i p
   | Drop_Envelope i \<Rightarrow> delete_envelope s u w i
   | Add_Wish t x \<Rightarrow> add_wishlist now s u w t x
   | Resolve_Wish i st \<Rightarrow> resolve_wishlist now s u w i st
   | Add_Checkpoint p \<Rightarrow> create_checkpoint s u w p
   | Edit_Checkpoint i p \<Rightarrow> update_checkpoint s u w i p
   | Drop_Checkpoint i hard \<Rightarrow> delete_checkpoint s u w i hard
   | Add_Category ad kart \<Rightarrow> create_category katlama s u w ad kart
   | Edit_Category i p \<Rightarrow> update_category s u w i p
   | Drop_Category i h \<Rightarrow> delete_category katlama s u w i h)"

text \<open>Requests of any users in any workspaces.\<close>

inductive record_step :: "(string \<Rightarrow> string) \<Rightarrow> books \<Rightarrow> books \<Rightarrow> bool" for katlama where
  serve: "serve_record katlama now s u w rq = (s', r) \<Longrightarrow> record_step katlama s s'"

definition record_run :: "(string \<Rightarrow> string) \<Rightarrow> books \<Rightarrow> books \<Rightarrow> bool" where
  "record_run katlama = (record_step katlama)\<^sup>*\<^sup>*"

end
