(* ===== verification/Account_Deletion.thy ===== *)
theory Account_Deletion
  imports Auth Transactions Debts Records
begin

text \<open>
  The right to erasure: app/kvkk.py (\<open>purge_user_data\<close>) and \<open>delete_me\<close> of app/routers/auth.py. The
  rows of the user are deleted children first, the workspaces the user owns are handed over to
  another member or deleted with their rows, the invitation loses its personal fields, and the
  user's row goes last. The tables are those of the records \<open>db\<close>, \<open>ws_state\<close> and \<open>auth_db\<close>; the other
  tables with a \<open>user_id\<close> are deleted the same way. Foreign keys are enforced: a row that would point
  to a deleted account makes the whole transaction fail.
\<close>

subsection \<open>The purge\<close>

definition delete_rows :: "(nat \<Rightarrow> nat option \<Rightarrow> bool) \<Rightarrow> db \<Rightarrow> db" where
  "delete_rows P d = d\<lparr>
     accounts := filter (\<lambda>r. \<not> P (acc_user r) (acc_ws r)) (accounts d),
     transactions := filter (\<lambda>r. \<not> P (tx_user r) (tx_ws r)) (transactions d),
     debts := filter (\<lambda>r. \<not> P (pd_user r) (pd_ws r)) (debts d),
     incomes := filter (\<lambda>r. \<not> P (ri_user r) (ri_ws r)) (incomes d),
     expenses := filter (\<lambda>r. \<not> P (re_user r) (re_ws r)) (expenses d),
     categories := filter (\<lambda>r. \<not> P (cat_user r) (cat_ws r)) (categories d),
     checkpoints := filter (\<lambda>r. \<not> P (cp_user r) (cp_ws r)) (checkpoints d)\<rparr>"

text \<open>The new owner of a workspace: the oldest editor, else the oldest member.\<close>

definition successor :: "nat \<Rightarrow> workspace \<Rightarrow> ws_state \<Rightarrow> membership option" where
  "successor u w s =
     (let diger = sort_key mb_id (filter (\<lambda>m. mb_ws m = ws_id w \<and> mb_user m \<noteq> u) (memberships s))
      in case diger of [] \<Rightarrow> None
         | m # _ \<Rightarrow> (case List.find (\<lambda>m. mb_role m = Editor) diger of Some e \<Rightarrow> Some e | None \<Rightarrow> Some m))"

definition hand_over :: "nat \<Rightarrow> workspace \<Rightarrow> ws_state \<Rightarrow> ws_state" where
  "hand_over u w s = (case successor u w s of None \<Rightarrow> s
     | Some m \<Rightarrow> s\<lparr>workspaces := upd_row ws_id (ws_id w) (\<lambda>w. w\<lparr>ws_owner := mb_user m\<rparr>) (workspaces s),
         memberships := upd_row mb_id (mb_id m) (\<lambda>m. m\<lparr>mb_role := Owner\<rparr>) (memberships s)\<rparr>)"

definition owned_by :: "nat \<Rightarrow> ws_state \<Rightarrow> workspace list" where
  "owned_by u s = filter (\<lambda>w. ws_owner w = u) (workspaces s)"

definition leave_all :: "nat \<Rightarrow> ws_state \<Rightarrow> ws_state" where
  "leave_all u s = s\<lparr>memberships := filter (\<lambda>m. mb_user m \<noteq> u) (memberships s)\<rparr>"

text \<open>\<open>ws_ids\<close>: the workspaces nobody else is a member of.\<close>

definition left_empty :: "nat \<Rightarrow> ws_state \<Rightarrow> nat list" where
  "left_empty u s = map ws_id (filter (\<lambda>w. successor u w s = None) (owned_by u s))"

definition purge_workspaces :: "nat \<Rightarrow> ws_state \<Rightarrow> ws_state" where
  "purge_workspaces u s0 =
     (let s = leave_all u s0; gone = left_empty u s; s2 = fold (hand_over u) (owned_by u s) s
      in s2\<lparr>workspaces := filter (\<lambda>w. ws_id w \<notin> set gone) (workspaces s2),
            memberships := filter (\<lambda>m. mb_ws m \<notin> set gone) (memberships s2)\<rparr>)"

definition anonimlestir :: "nat \<Rightarrow> beta_invite list \<Rightarrow> beta_invite list" where
  "anonimlestir u = map (\<lambda>d. if used_by d = Some u then d\<lparr>bi_email := None, used_by := None\<rparr> else d)"

definition purge_user_data :: "nat \<Rightarrow> auth_db \<Rightarrow> db \<Rightarrow> (auth_db \<times> db) option" where
  "purge_user_data u a d =
     (let d1 = delete_rows (\<lambda>r_user r_ws. r_user = u) d;
          gone = left_empty u (leave_all u (ws_tables a));
          d2 = delete_rows (\<lambda>r_user r_ws. \<exists>w \<in> set gone. r_ws = Some w) d1
      in if \<not> refs_ok d1 \<or> \<not> refs_ok d2 then None
         else Some (a\<lparr>ws_tables := purge_workspaces u (ws_tables a), beta_invites := anonimlestir u (beta_invites a)\<rparr>, d2))"

definition delete_user_row :: "nat \<Rightarrow> auth_db \<Rightarrow> auth_db" where
  "delete_user_row u a = a\<lparr>users := del_row au_id u (users a)\<rparr>"

text \<open>\<open>Inl Taken\<close> stands for the \<open>IntegrityError\<close> of a foreign key; everything is rolled back.\<close>

definition delete_me ::
  "auth_env \<Rightarrow> int \<Rightarrow> claims option option \<Rightarrow> auth_db \<times> db \<Rightarrow> (auth_db \<times> db) \<times> (auth_error + reply)" where
  "delete_me e now hdr ad =
     (case get_current_user e now (fst ad) hdr of Inl err \<Rightarrow> (ad, Inl err)
      | Inr u \<Rightarrow> (case purge_user_data (au_id u) (fst ad) (snd ad) of None \<Rightarrow> (ad, Inl Taken)
        | Some (a, d) \<Rightarrow> ((delete_user_row (au_id u) a, d), Inr Done)))"

subsection \<open>Handing over\<close>

lemma successor_Some:
  assumes "successor u w s = Some m"
  shows "m \<in> set (memberships s) \<and> mb_ws m = ws_id w \<and> mb_user m \<noteq> u"
proof -
  let ?d = "sort_key mb_id (filter (\<lambda>m. mb_ws m = ws_id w \<and> mb_user m \<noteq> u) (memberships s))"
  have "m \<in> set ?d"
  proof (cases "List.find (\<lambda>m. mb_role m = Editor) ?d")
    case None
    with assms show ?thesis by (cases ?d) (simp_all add: successor_def Let_def del: set_sort)
  next
    case (Some e)
    with assms have "e = m" by (cases ?d) (simp_all add: successor_def Let_def)
    with find_Some_prop [OF Some] show ?thesis by blast
  qed
  then show ?thesis by simp
qed

lemma successor_None: "successor u w s = None \<longleftrightarrow> (\<forall>m \<in> set (memberships s). mb_ws m = ws_id w \<longrightarrow> mb_user m = u)"
proof -
  let ?d = "sort_key mb_id (filter (\<lambda>m. mb_ws m = ws_id w \<and> mb_user m \<noteq> u) (memberships s))"
  have "successor u w s = None \<longleftrightarrow> ?d = []"
    by (cases ?d) (simp_all add: successor_def Let_def split: option.split)
  also have "\<dots> \<longleftrightarrow> set ?d = {}" by (simp only: set_empty)
  also have "\<dots> \<longleftrightarrow> (\<forall>m \<in> set (memberships s). mb_ws m = ws_id w \<longrightarrow> mb_user m = u)" by auto
  finally show ?thesis .
qed

text \<open>The invariant while the user's workspaces are being handed over.\<close>

definition parting :: "nat \<Rightarrow> ws_state \<Rightarrow> bool" where
  "parting u s \<longleftrightarrow> distinct (map ws_id (workspaces s)) \<and> distinct (map mb_id (memberships s)) \<and>
     distinct (map (\<lambda>m. (mb_ws m, mb_user m)) (memberships s)) \<and>
     (\<forall>m \<in> set (memberships s). mb_user m \<noteq> u \<and> mb_ws m \<in> ws_id ` set (workspaces s)) \<and>
     (\<forall>w \<in> set (workspaces s). ws_owner w \<noteq> u \<longrightarrow> (\<exists>m \<in> set (memberships s).
        mb_ws m = ws_id w \<and> mb_user m = ws_owner w \<and> mb_role m = Owner)) \<and>
     (\<forall>w \<in> set (workspaces s). \<forall>m \<in> set (memberships s).
        mb_ws m = ws_id w \<and> mb_role m = Owner \<longrightarrow> mb_user m = ws_owner w)"

lemma partingD:
  assumes "parting u s"
  shows "distinct (map ws_id (workspaces s))" "distinct (map mb_id (memberships s))"
    "distinct (map (\<lambda>m. (mb_ws m, mb_user m)) (memberships s))"
    "\<forall>m \<in> set (memberships s). mb_user m \<noteq> u \<and> mb_ws m \<in> ws_id ` set (workspaces s)"
    "w \<in> set (workspaces s) \<Longrightarrow> ws_owner w \<noteq> u \<Longrightarrow> \<exists>m \<in> set (memberships s).
        mb_ws m = ws_id w \<and> mb_user m = ws_owner w \<and> mb_role m = Owner"
    "w \<in> set (workspaces s) \<Longrightarrow> m \<in> set (memberships s) \<Longrightarrow> mb_ws m = ws_id w \<Longrightarrow> mb_role m = Owner \<Longrightarrow>
        mb_user m = ws_owner w"
  using assms unfolding parting_def by simp_all

lemma parting_leave:
  assumes "ws_inv s"
  shows "parting u (leave_all u s)"
proof -
  note I = assms [unfolded ws_inv_def]
  have O: "\<forall>w \<in> set (workspaces s). \<exists>m \<in> set (memberships s). mb_ws m = ws_id w \<and> mb_user m = ws_owner w \<and> mb_role m = Owner"
    using I by simp
  have own: "\<exists>m \<in> set (filter (\<lambda>m. mb_user m \<noteq> u) (memberships s)). mb_ws m = ws_id w \<and> mb_user m = ws_owner w \<and> mb_role m = Owner"
    if w: "w \<in> set (workspaces s)" "ws_owner w \<noteq> u" for w
  proof -
    obtain m where "m \<in> set (memberships s)" "mb_ws m = ws_id w" "mb_user m = ws_owner w" "mb_role m = Owner"
      using bspec [OF O w(1)] by blast
    then show ?thesis using w(2) by (intro bexI [of _ m]) simp_all
  qed
  have sel: "workspaces (leave_all u s) = workspaces s" "memberships (leave_all u s) = filter (\<lambda>m. mb_user m \<noteq> u) (memberships s)"
    by (simp_all add: leave_all_def)
  show ?thesis unfolding parting_def sel
  proof (intro conjI ballI impI)
    fix w assume "w \<in> set (workspaces s)" "ws_owner w \<noteq> u"
    then show "\<exists>m \<in> set (filter (\<lambda>m. mb_user m \<noteq> u) (memberships s)). mb_ws m = ws_id w \<and> mb_user m = ws_owner w \<and> mb_role m = Owner"
      by (rule own)
  qed (use I in \<open>simp_all add: distinct_map_filter\<close>)
qed

lemma parting_hand_over:
  assumes p: "parting u s" and w: "w \<in> set (workspaces s)" "ws_owner w = u" and m: "successor u w s = Some m"
  shows "parting u (hand_over u w s)"
proof -
  note D = partingD [OF p] and M = successor_Some [OF m]
  let ?W = "\<lambda>x. if ws_id x = ws_id w then x\<lparr>ws_owner := mb_user m\<rparr> else x"
    and ?M = "\<lambda>x. if mb_id x = mb_id m then x\<lparr>mb_role := Owner\<rparr> else x"
  let ?t = "hand_over u w s"
  have wt: "set (workspaces ?t) = ?W ` set (workspaces s)" and mt: "set (memberships ?t) = ?M ` set (memberships s)"
    using m by (simp_all add: hand_over_def set_upd_row)
  have keys: "map ws_id (workspaces ?t) = map ws_id (workspaces s)" "map mb_id (memberships ?t) = map mb_id (memberships s)"
    "map (\<lambda>m. (mb_ws m, mb_user m)) (memberships ?t) = map (\<lambda>m. (mb_ws m, mb_user m)) (memberships s)"
    using m by (simp_all add: hand_over_def map_key_upd_row map_field_upd_row)
  have same_w: "x = w" if "x \<in> set (workspaces s)" "ws_id x = ws_id w" for x
    using find_row_distinct [OF D(1) that(1)] find_row_distinct [OF D(1) w(1)] unfolding that(2) by simp
  have same_m: "x = m" if "x \<in> set (memberships s)" "mb_id x = mb_id m" for x
    using find_row_distinct [OF D(2) that(1)] find_row_distinct [OF D(2) conjunct1 [OF M]] unfolding that(2) by simp
  have 1: "\<forall>x \<in> set (memberships ?t). mb_user x \<noteq> u \<and> mb_ws x \<in> ws_id ` set (workspaces ?t)"
  proof -
    have "ws_id ` set (workspaces ?t) = ws_id ` set (workspaces s)" by (metis keys(1) set_map)
    then show ?thesis using D(4) unfolding mt by auto
  qed
  have 2: "\<exists>x \<in> set (memberships ?t). mb_ws x = ws_id v \<and> mb_user x = ws_owner v \<and> mb_role x = Owner"
    if v: "v \<in> set (workspaces ?t)" "ws_owner v \<noteq> u" for v
  proof -
    obtain v0 where v0: "v0 \<in> set (workspaces s)" "v = ?W v0" using v(1) wt by auto
    show ?thesis
    proof (cases "ws_id v0 = ws_id w")
      case True
      have "?M m \<in> set (memberships ?t)" using M unfolding mt by blast
      then show ?thesis using True v0(2) M by (intro bexI [of _ "?M m"]) simp_all
    next
      case False
      then have "ws_owner v0 \<noteq> u" using v0(2) v(2) by simp
      from D(5) [OF v0(1) this] obtain x
        where x: "x \<in> set (memberships s)" "mb_ws x = ws_id v0" "mb_user x = ws_owner v0" "mb_role x = Owner" by blast
      then have "?M x \<in> set (memberships ?t)" unfolding mt by blast
      then show ?thesis using x False v0(2) by (intro bexI [of _ "?M x"]) simp_all
    qed
  qed
  have 3: "mb_user y = ws_owner v" if v: "v \<in> set (workspaces ?t)" and y: "y \<in> set (memberships ?t)" "mb_ws y = ws_id v" "mb_role y = Owner" for v y
  proof -
    obtain v0 where v0: "v0 \<in> set (workspaces s)" "v = ?W v0" using v wt by auto
    obtain y0 where y0: "y0 \<in> set (memberships s)" "y = ?M y0" using y(1) mt by auto
    show ?thesis
    proof (cases "y0 = m")
      case True
      have "mb_ws y = mb_ws m" using True y0(2) by simp
      moreover have "ws_id v = ws_id v0" using v0(2) by simp
      ultimately have "ws_id v0 = ws_id w" using y(2) M by argo
      then show ?thesis using True y0(2) v0(2) by simp
    next
      case False
      then have "mb_id y0 \<noteq> mb_id m" using same_m y0(1) by blast
      then have "y = y0" using y0(2) by simp
      have "ws_id (?W v0) = ws_id v0" by simp
      then have ids: "mb_ws y0 = ws_id v0" "mb_role y0 = Owner" using y(2,3) v0(2) unfolding \<open>y = y0\<close> by simp_all
      have o: "mb_user y0 = ws_owner v0" by (rule D(6) [OF v0(1) y0(1) ids])
      have "v0 \<noteq> w" using o bspec [OF D(4) y0(1)] w(2) by auto
      then have "ws_id v0 \<noteq> ws_id w" using same_w v0(1) by blast
      then show ?thesis using o v0(2) \<open>y = y0\<close> by simp
    qed
  qed
  show ?thesis unfolding parting_def keys
  proof (intro conjI D(1-3) 1 ballI impI)
    fix v assume "v \<in> set (workspaces ?t)" "ws_owner v \<noteq> u"
    then show "\<exists>x \<in> set (memberships ?t). mb_ws x = ws_id v \<and> mb_user x = ws_owner v \<and> mb_role x = Owner" by (rule 2)
  next
    fix v y assume "v \<in> set (workspaces ?t)" "y \<in> set (memberships ?t)" "mb_ws y = ws_id v \<and> mb_role y = Owner"
    then show "mb_user y = ws_owner v" using 3 by simp
  qed
qed

lemma hand_over_keys:
  "map ws_id (workspaces (hand_over u w s)) = map ws_id (workspaces s)"
  "map (\<lambda>m. (mb_id m, mb_ws m, mb_user m)) (memberships (hand_over u w s)) = map (\<lambda>m. (mb_id m, mb_ws m, mb_user m)) (memberships s)"
  by (simp_all add: hand_over_def map_key_upd_row map_field_upd_row split: option.split)

lemma set_hand_over:
  assumes "v \<in> set (workspaces (hand_over u w s))" "ws_id v \<noteq> ws_id w"
  shows "v \<in> set (workspaces s)"
  using assms by (auto simp: hand_over_def set_upd_row split: option.splits if_splits)

lemma hand_over_other:
  assumes "v \<in> set (workspaces s)" "ws_id v \<noteq> ws_id w"
  shows "v \<in> set (workspaces (hand_over u w s))"
  using assms by (cases "successor u w s") (auto simp: hand_over_def set_upd_row image_iff)

lemma successor_hand_over: "successor u v (hand_over u w s) = None \<longleftrightarrow> successor u v s = None"
proof -
  have "(\<lambda>m. (mb_ws m, mb_user m)) ` set (memberships (hand_over u w s)) = (\<lambda>m. (mb_ws m, mb_user m)) ` set (memberships s)"
    (is "?f ` ?A = ?f ` ?B")
    using arg_cong [OF hand_over_keys(2) [of u w s], of "\<lambda>xs. set (map snd xs)"] by (simp add: image_image)
  then have "(\<forall>p \<in> ?f ` ?A. fst p = ws_id v \<longrightarrow> snd p = u) \<longleftrightarrow> (\<forall>p \<in> ?f ` ?B. fst p = ws_id v \<longrightarrow> snd p = u)" by simp
  then show ?thesis by (simp add: successor_None)
qed

lemma parting_step:
  assumes "parting u s" "w \<in> set (workspaces s)" "ws_owner w = u"
  shows "parting u (hand_over u w s)"
  using assms by (cases "successor u w s") (simp_all add: parting_hand_over, simp add: hand_over_def)

lemma hand_over_owner:
  assumes "parting u s" "w \<in> set (workspaces s)" "successor u w s \<noteq> None"
    and v: "v \<in> set (workspaces (hand_over u w s))" "ws_id v = ws_id w"
  shows "ws_owner v \<noteq> u"
proof -
  from assms obtain m where m: "successor u w s = Some m" by blast
  with v have "ws_owner v = mb_user m" by (auto simp: hand_over_def set_upd_row split: if_splits)
  then show ?thesis using successor_Some [OF m] by simp
qed

text \<open>Handing over all of them: what the user still owns afterwards has no members.\<close>

lemma parting_fold:
  assumes "parting u s" "set ws \<subseteq> {w \<in> set (workspaces s). ws_owner w = u}" "distinct (map ws_id ws)"
    and "\<forall>v \<in> set (workspaces s). ws_owner v = u \<longrightarrow> ws_id v \<in> ws_id ` set ws \<or> successor u v s = None"
  shows "parting u (fold (hand_over u) ws s) \<and>
    (\<forall>v \<in> set (workspaces (fold (hand_over u) ws s)). ws_owner v = u \<longrightarrow> successor u v s = None)"
  using assms
proof (induction ws arbitrary: s)
  case Nil
  then show ?case by simp
next
  case (Cons w ws)
  let ?t = "hand_over u w s"
  have w: "w \<in> set (workspaces s)" "ws_owner w = u" using Cons.prems(2) by simp_all
  have p: "parting u ?t" by (rule parting_step [OF Cons.prems(1) w])
  have "x \<in> set (workspaces ?t) \<and> ws_owner x = u" if "x \<in> set ws" for x
  proof -
    have "x \<in> set (workspaces s)" "ws_owner x = u" using that Cons.prems(2) by auto
    moreover have "ws_id x \<noteq> ws_id w" using imageI [OF that, of ws_id] Cons.prems(3) by auto
    ultimately show ?thesis using hand_over_other by blast
  qed
  then have sub: "set ws \<subseteq> {w \<in> set (workspaces ?t). ws_owner w = u}" by blast
  have d: "distinct (map ws_id ws)" using Cons.prems(3) by simp
  have left: "ws_id v \<in> ws_id ` set ws \<or> successor u v ?t = None" if v: "v \<in> set (workspaces ?t)" "ws_owner v = u" for v
  proof (cases "ws_id v = ws_id w")
    case True
    then have "successor u w s = None" using hand_over_owner [OF Cons.prems(1) w(1)] v by blast
    then have "successor u v s = None" using True by (simp add: successor_None)
    then show ?thesis by (simp add: successor_hand_over)
  next
    case False
    then have "v \<in> set (workspaces s)" using set_hand_over v(1) by blast
    then have "ws_id v \<in> ws_id ` set (w # ws) \<or> successor u v s = None" by (rule mp [OF bspec [OF Cons.prems(4)] v(2)])
    then show ?thesis using False by (simp add: successor_hand_over)
  qed
  have "parting u (fold (hand_over u) ws ?t) \<and>
    (\<forall>v \<in> set (workspaces (fold (hand_over u) ws ?t)). ws_owner v = u \<longrightarrow> successor u v ?t = None)"
    by (rule Cons.IH [OF p sub d]) (intro ballI impI left)
  then show ?case by (simp add: successor_hand_over)
qed

lemma role_kept_hand_over:
  assumes "m \<in> set (memberships s)"
  shows "\<exists>m' \<in> set (memberships (hand_over u w s)).
    mb_ws m' = mb_ws m \<and> mb_user m' = mb_user m \<and> mb_role m \<le> mb_role m'"
proof (cases "successor u w s")
  case None
  then show ?thesis using assms by (auto simp: hand_over_def)
next
  case (Some x)
  let ?m = "if mb_id m = mb_id x then m\<lparr>mb_role := Owner\<rparr> else m"
  have "?m \<in> set (memberships (hand_over u w s))" using assms Some by (auto simp: hand_over_def set_upd_row)
  moreover have "mb_role m \<le> mb_role ?m" by (cases "mb_role m") (simp_all add: less_eq_workspace_role_def role_rank_def)
  ultimately show ?thesis by (intro bexI [of _ ?m]) simp_all
qed

lemma role_kept_fold:
  assumes "m \<in> set (memberships s)"
  shows "\<exists>m' \<in> set (memberships (fold (hand_over u) ws s)).
    mb_ws m' = mb_ws m \<and> mb_user m' = mb_user m \<and> mb_role m \<le> mb_role m'"
  using assms
proof (induction ws arbitrary: s m)
  case Nil
  then show ?case by auto
next
  case (Cons w ws)
  obtain x where x: "x \<in> set (memberships (hand_over u w s))" "mb_ws x = mb_ws m" "mb_user x = mb_user m" "mb_role m \<le> mb_role x"
    using role_kept_hand_over [OF Cons.prems] by blast
  obtain y where "y \<in> set (memberships (fold (hand_over u) ws (hand_over u w s)))"
    "mb_ws y = mb_ws x" "mb_user y = mb_user x" "mb_role x \<le> mb_role y"
    using Cons.IH [OF x(1)] by blast
  then show ?case using x by (intro bexI [of _ y]) auto
qed

lemma fold_hand_over_ids:
  "map ws_id (workspaces (fold (hand_over u) ws s)) = map ws_id (workspaces s)"
  "map (\<lambda>m. (mb_id m, mb_ws m, mb_user m)) (memberships (fold (hand_over u) ws s)) =
   map (\<lambda>m. (mb_id m, mb_ws m, mb_user m)) (memberships s)"
  by (induction ws arbitrary: s) (simp_all add: hand_over_keys)

lemma left_empty_iff:
  "i \<in> set (left_empty u s) \<longleftrightarrow> (\<exists>w \<in> set (workspaces s). ws_id w = i \<and> ws_owner w = u \<and> successor u w s = None)"
  by (auto simp: left_empty_def owned_by_def)

lemma purge_parting:
  fixes u :: nat and s0 :: ws_state
  assumes "ws_inv s0"
  defines "s \<equiv> leave_all u s0"
  shows "parting u (fold (hand_over u) (owned_by u s) s)"
    and "v \<in> set (workspaces (fold (hand_over u) (owned_by u s) s)) \<Longrightarrow> ws_owner v = u \<Longrightarrow> ws_id v \<in> set (left_empty u s)"
proof -
  let ?t = "fold (hand_over u) (owned_by u s) s"
  have p: "parting u s" unfolding s_def by (rule parting_leave [OF assms(1)])
  have d: "distinct (map ws_id (owned_by u s))"
    unfolding owned_by_def using partingD(1) [OF p] by (simp add: distinct_map_filter)
  have all: "parting u ?t \<and> (\<forall>v \<in> set (workspaces ?t). ws_owner v = u \<longrightarrow> successor u v s = None)"
    by (rule parting_fold [OF p _ d]) (auto simp: owned_by_def)
  then show "parting u ?t" by blast
  show "ws_id v \<in> set (left_empty u s)" if v: "v \<in> set (workspaces ?t)" "ws_owner v = u"
  proof -
    have n: "successor u v s = None" by (rule mp [OF bspec [OF conjunct2 [OF all] v(1)] v(2)])
    have "ws_id ` set (workspaces ?t) = ws_id ` set (workspaces s)"
      using arg_cong [OF fold_hand_over_ids(1) [of u "owned_by u s" s], of set] by simp
    then have "ws_id v \<in> ws_id ` set (workspaces s)" using imageI [OF v(1), of ws_id] by simp
    then obtain x where x: "x \<in> set (workspaces s)" "ws_id x = ws_id v" by auto
    have nx: "successor u x s = None" using n x(2) by (simp add: successor_None)
    have "ws_owner x = u"
    proof (rule ccontr)
      assume "ws_owner x \<noteq> u"
      from partingD(5) [OF p x(1) this] obtain m where m: "m \<in> set (memberships s)" "mb_ws m = ws_id x" by blast
      then have "mb_user m = u" using nx by (simp add: successor_None)
      then show False using bspec [OF partingD(4) [OF p] m(1)] by simp
    qed
    then show ?thesis using x nx by (auto simp: left_empty_iff)
  qed
qed

lemma purge_rows:
  "set (workspaces (purge_workspaces u s0)) = {w \<in> set (workspaces (fold (hand_over u) (owned_by u (leave_all u s0)) (leave_all u s0))).
     ws_id w \<notin> set (left_empty u (leave_all u s0))}"
  "set (memberships (purge_workspaces u s0)) = {m \<in> set (memberships (fold (hand_over u) (owned_by u (leave_all u s0)) (leave_all u s0))).
     mb_ws m \<notin> set (left_empty u (leave_all u s0))}"
  by (simp_all add: purge_workspaces_def Let_def)

lemma purge_owner:
  assumes "ws_inv s" "w \<in> set (workspaces (purge_workspaces u s))"
  shows "ws_owner w \<noteq> u"
  using assms(2) purge_parting(2) [OF assms(1)] unfolding purge_rows by blast

lemma left_empty_no_member:
  assumes "ws_inv s" and m: "m \<in> set (memberships (fold (hand_over u) (owned_by u (leave_all u s)) (leave_all u s)))"
  shows "mb_ws m \<notin> set (left_empty u (leave_all u s))"
proof
  assume "mb_ws m \<in> set (left_empty u (leave_all u s))"
  then obtain w where w: "ws_id w = mb_ws m" "successor u w (leave_all u s) = None" by (auto simp: left_empty_iff)
  have "(mb_id m, mb_ws m, mb_user m) \<in> (\<lambda>m. (mb_id m, mb_ws m, mb_user m)) ` set (memberships (leave_all u s))"
    using imageI [OF m, of "\<lambda>m. (mb_id m, mb_ws m, mb_user m)"]
      arg_cong [OF fold_hand_over_ids(2) [of u "owned_by u (leave_all u s)" "leave_all u s"], of set] by simp
  then obtain x where x: "x \<in> set (memberships (leave_all u s))" "mb_ws x = mb_ws m" by auto
  then have "mb_user x = u" using w by (simp add: successor_None)
  then show False using bspec [OF partingD(4) [OF parting_leave [OF assms(1)]] x(1)] by simp
qed

lemma purge_inv:
  assumes "ws_inv s"
  shows "ws_inv (purge_workspaces u s)"
proof -
  let ?s = "leave_all u s"
  let ?t = "fold (hand_over u) (owned_by u ?s) ?s" and ?p = "purge_workspaces u s"
  note D = partingD [OF purge_parting(1) [OF assms, of u]]
  have mem: "set (memberships ?p) = set (memberships ?t)"
    unfolding purge_rows using left_empty_no_member [OF assms, of _ u] by blast
  have ws: "w \<in> set (workspaces ?p) \<Longrightarrow> w \<in> set (workspaces ?t)" for w unfolding purge_rows by simp
  show ?thesis unfolding ws_inv_def
  proof (intro conjI ballI impI)
    show "distinct (map ws_id (workspaces ?p))" "distinct (map mb_id (memberships ?p))"
      "distinct (map (\<lambda>m. (mb_ws m, mb_user m)) (memberships ?p))"
      using D(1-3) by (simp_all add: purge_workspaces_def Let_def distinct_map_filter)
  next
    fix m assume "m \<in> set (memberships ?p)"
    then have m: "m \<in> set (memberships ?t)" using mem by simp
    then obtain w where "w \<in> set (workspaces ?t)" "mb_ws m = ws_id w" using bspec [OF D(4) m] by auto
    then show "mb_ws m \<in> ws_id ` set (workspaces ?p)"
      using left_empty_no_member [OF assms m] unfolding purge_rows by auto
  next
    fix w assume "w \<in> set (workspaces ?p)"
    then show "\<exists>m \<in> set (memberships ?p). mb_ws m = ws_id w \<and> mb_user m = ws_owner w \<and> mb_role m = Owner"
      unfolding mem by (intro D(5) ws purge_owner [OF assms])
  next
    fix w m assume "w \<in> set (workspaces ?p)" "m \<in> set (memberships ?p)" "mb_ws m = ws_id w \<and> mb_role m = Owner"
    then show "mb_user m = ws_owner w" using D(6) [OF ws, of w m] unfolding mem by simp
  qed
qed

lemma purge_members:
  assumes "ws_inv s"
  shows "\<forall>m \<in> set (memberships (purge_workspaces u s)). mb_user m \<noteq> u"
    and "m \<in> set (memberships s) \<Longrightarrow> mb_user m \<noteq> u \<Longrightarrow> \<exists>m' \<in> set (memberships (purge_workspaces u s)).
      mb_ws m' = mb_ws m \<and> mb_user m' = mb_user m \<and> mb_role m \<le> mb_role m'"
proof -
  let ?s = "leave_all u s"
  let ?t = "fold (hand_over u) (owned_by u ?s) ?s"
  show "\<forall>m \<in> set (memberships (purge_workspaces u s)). mb_user m \<noteq> u"
    using partingD(4) [OF purge_parting(1) [OF assms, of u]] unfolding purge_rows by blast
  assume "m \<in> set (memberships s)" "mb_user m \<noteq> u"
  then have "m \<in> set (memberships ?s)" by (simp add: leave_all_def)
  from role_kept_fold [OF this, of u "owned_by u ?s"] obtain m' where
    m': "m' \<in> set (memberships ?t)" "mb_ws m' = mb_ws m" "mb_user m' = mb_user m" "mb_role m \<le> mb_role m'" by blast
  moreover have "m' \<in> set (memberships (purge_workspaces u s))"
    unfolding purge_rows using m'(1) left_empty_no_member [OF assms m'(1)] by blast
  ultimately show "\<exists>m' \<in> set (memberships (purge_workspaces u s)).
      mb_ws m' = mb_ws m \<and> mb_user m' = mb_user m \<and> mb_role m \<le> mb_role m'" by blast
qed

subsection \<open>Erasure\<close>

lemma delete_rows_set:
  "set (accounts (delete_rows P d)) = {r \<in> set (accounts d). \<not> P (acc_user r) (acc_ws r)}"
  "set (transactions (delete_rows P d)) = {r \<in> set (transactions d). \<not> P (tx_user r) (tx_ws r)}"
  "set (debts (delete_rows P d)) = {r \<in> set (debts d). \<not> P (pd_user r) (pd_ws r)}"
  "set (incomes (delete_rows P d)) = {r \<in> set (incomes d). \<not> P (ri_user r) (ri_ws r)}"
  "set (expenses (delete_rows P d)) = {r \<in> set (expenses d). \<not> P (re_user r) (re_ws r)}"
  "set (categories (delete_rows P d)) = {r \<in> set (categories d). \<not> P (cat_user r) (cat_ws r)}"
  by (simp_all add: delete_rows_def)

text \<open>The rows of the user in the tables of \<open>db\<close>.\<close>

definition holds_data :: "nat \<Rightarrow> db \<Rightarrow> bool" where
  "holds_data u d \<longleftrightarrow> u \<in> acc_user ` set (accounts d) \<or> u \<in> tx_user ` set (transactions d) \<or>
     u \<in> pd_user ` set (debts d) \<or> u \<in> ri_user ` set (incomes d) \<or> u \<in> re_user ` set (expenses d) \<or>
     u \<in> cat_user ` set (categories d)"

lemma holds_data_deleted: "\<not> holds_data u (delete_rows P (delete_rows (\<lambda>r_user r_ws. r_user = u) d))"
  unfolding holds_data_def delete_rows_set by blast

lemma left_empty_others:
  assumes "i \<in> set (left_empty u (leave_all u s))" "m \<in> set (memberships s)" "mb_user m \<noteq> u"
  shows "mb_ws m \<noteq> i"
proof
  assume "mb_ws m = i"
  moreover from assms(1) obtain w where "ws_id w = i" "successor u w (leave_all u s) = None" by (auto simp: left_empty_iff)
  moreover have "m \<in> set (memberships (leave_all u s))" using assms(2,3) by (simp add: leave_all_def)
  ultimately show False using assms(3) by (simp add: successor_None)
qed

lemma kept_row:
  assumes "m \<in> set (memberships s)" "mb_user m \<noteq> u" "r_ws = Some (mb_ws m)"
  shows "\<not> (\<exists>w \<in> set (left_empty u (leave_all u s)). r_ws = Some w)"
  using left_empty_others [OF _ assms(1,2)] assms(3) by blast

lemma delete_me_Inr:
  assumes "delete_me e now hdr (a, d) = ((a', d'), Inr r)"
  obtains u where "get_current_user e now a hdr = Inr u"
    "a' = delete_user_row (au_id u) (a\<lparr>ws_tables := purge_workspaces (au_id u) (ws_tables a),
       beta_invites := anonimlestir (au_id u) (beta_invites a)\<rparr>)"
    "d' = delete_rows (\<lambda>r_user r_ws. \<exists>w \<in> set (left_empty (au_id u) (leave_all (au_id u) (ws_tables a))). r_ws = Some w)
       (delete_rows (\<lambda>r_user r_ws. r_user = au_id u) d)" "refs_ok d'"
  using assms by (auto simp: delete_me_def purge_user_data_def Let_def split: sum.splits option.splits if_splits)


subsection \<open>Examples\<close>

definition ex_member :: "nat \<Rightarrow> auth_user" where
  "ex_member i = \<lparr>au_id = i, au_name = ''A'', au_email = Some (replicate i CHR ''a''), password_hash = Some ''x'',
     oauth_provider = None, oauth_sub = None, kvkk_consent_version = None, kvkk_consent_at = None,
     au_active = True, token_version = 0, email_verified_at = None\<rparr>"

definition ex_access :: "nat \<Rightarrow> claims" where
  "ex_access i = \<lparr>cl_sub = i, cl_type = Access, cl_jti = i, cl_tv = 0, cl_new = [], cl_old = [], cl_iat = 0,
     cl_exp = 1800\<rparr>"

definition ex_env_auth :: auth_env where
  "ex_env_auth = \<lparr>hashpw = \<lambda>p n. p, checkpw = \<lambda>p h. p = h, e_auth_on = True, e_reg = Some Open_Registration,
     e_verify = Some False, e_prod = True, e_smtp = True\<rparr>"

text \<open>User 7 owns the workspace 3, shared with user 8, who has opened the workspace 5 for others to join; both
  have a personal workspace.\<close>

definition ex_auth_db :: auth_db where
  "ex_auth_db = \<lparr>users = [ex_member 7, ex_member 8], revoked = [],
     ws_tables = \<lparr>workspaces = [\<lparr>ws_id = 3, ws_owner = 7, ws_name = [], is_personal = False\<rparr>,
         \<lparr>ws_id = 4, ws_owner = 7, ws_name = [], is_personal = True\<rparr>,
         \<lparr>ws_id = 5, ws_owner = 8, ws_name = [], is_personal = False\<rparr>,
         \<lparr>ws_id = 6, ws_owner = 8, ws_name = [], is_personal = True\<rparr>],
       memberships = [\<lparr>mb_id = 1, mb_ws = 3, mb_user = 7, mb_role = Owner\<rparr>,
         \<lparr>mb_id = 2, mb_ws = 3, mb_user = 8, mb_role = Viewer\<rparr>,
         \<lparr>mb_id = 3, mb_ws = 4, mb_user = 7, mb_role = Owner\<rparr>,
         \<lparr>mb_id = 4, mb_ws = 5, mb_user = 8, mb_role = Owner\<rparr>,
         \<lparr>mb_id = 5, mb_ws = 6, mb_user = 8, mb_role = Owner\<rparr>]\<rparr>,
     beta_invites = [], minted = [ex_access 7, ex_access 8], outbox = []\<rparr>"

definition ex_shared_tx :: "nat \<Rightarrow> nat option \<Rightarrow> transaction" where
  "ex_shared_tx u acc = \<lparr>tx_id = u, tx_user = u, tx_ws = Some 3, tx_account = acc, tx_type = Expense, tx_amount = 10,
     tx_category = None, tx_description = None, tx_date = Date 2026 9 1, is_card_expense = False\<rparr>"

definition ex_shared_db :: "nat option \<Rightarrow> db" where
  "ex_shared_db acc = empty_db\<lparr>accounts := [ex_cash, ex_cash\<lparr>acc_id := 2, acc_user := 8\<rparr>],
     transactions := [ex_shared_tx 7 (Some 1), ex_shared_tx 8 acc]\<rparr>"

definition ex_delete :: "nat option \<Rightarrow> (auth_db \<times> db) \<times> (auth_error + reply)" where
  "ex_delete acc = delete_me ex_env_auth 60 (Some (Some (ex_access 7))) (ex_auth_db, ex_shared_db acc)"


text \<open>The workspace went to its other member.\<close>

lemma erasure_hands_over:
  "map (\<lambda>w. (ws_id w, ws_owner w)) (workspaces (ws_tables (fst (fst (ex_delete (Some 2)))))) = [(3, 8), (5, 8), (6, 8)]"
  "map (\<lambda>m. (mb_ws m, mb_user m, mb_role m)) (memberships (ws_tables (fst (fst (ex_delete (Some 2)))))) =
     [(3, 8, Owner), (5, 8, Owner), (6, 8, Owner)]"
  by code_simp+

text \<open>When the other member has spent from the user's account in the shared workspace, the account cannot be
  deleted: the foreign key of that transaction refuses it, and with it the whole request.\<close>

lemma delete_me_Inl: "snd (delete_me e now hdr ad) = Inl err \<Longrightarrow> fst (delete_me e now hdr ad) = ad"
  by (simp add: delete_me_def split: sum.splits option.splits prod.splits)

lemma deletion_blocked_by_member:
  "snd (ex_delete (Some 1)) = Inl Taken" "fst (ex_delete (Some 1)) = (ex_auth_db, ex_shared_db (Some 1))"
proof -
  show "snd (ex_delete (Some 1)) = Inl Taken" by code_simp
  then show "fst (ex_delete (Some 1)) = (ex_auth_db, ex_shared_db (Some 1))" unfolding ex_delete_def by (rule delete_me_Inl)
qed

text \<open>Ids are handed out as the largest one plus one, and \<open>delete_me\<close> revokes no token: after user 8 has
  deleted the account, the next person to register gets the id 8, and the access token issued before
  the deletion reads the new person's account.\<close>

definition ex_newcomer :: register_in where
  "ex_newcomer = \<lparr>ri_code = None, ri_email = ''can@x.com'', ri_password = ''Vadi-Tepe9'', ri_user_name = None,
     ri_consent = True\<rparr>"

definition ex_after_8 :: auth_db where
  "ex_after_8 = fst (register ex_env_auth 120 ex_newcomer
     (fst (fst (delete_me ex_env_auth 60 (Some (Some (ex_access 8))) (ex_auth_db, empty_db)))))"

lemma recycled_user_id:
  "(case get_current_user ex_env_auth 180 ex_after_8 (Some (Some (ex_access 8))) of Inl _ \<Rightarrow> None | Inr u \<Rightarrow> au_email u) =
     Some ''can@x.com''"
  by code_simp

text \<open>The same for workspaces: an invitation to the deleted shared workspace 5 lets its holder join the personal
  workspace of the newcomer.\<close>

lemma recycled_workspace_id:
  "map is_personal (filter (\<lambda>w. ws_id w = 5) (workspaces (ws_tables ex_after_8))) = [True] \<and>
   snd (join_workspace (ws_tables ex_after_8) 7 (Some ''aaaaaaa'')
        (Some \<lparr>inv_ws = 5, inv_email = ''aaaaaaa'', inv_role = Editor\<rparr>)) = Inr \<lparr>jo_ws = 5, jo_role = Editor, joined = True\<rparr>"
  by code_simp

end
