(* ===== verification/Records_Laws.thy ===== *)
theory Records_Laws
  imports Records Action_Protocol
begin

text \<open>
  What the record endpoints promise: no request reaches a row outside the caller's scope, the keys
  and references of the tables hold over any requests, protected checkpoints stay, a deleted
  category hands its transactions on, and a refused request changes nothing. The locale
  \<open>scoped_table\<close> is the contract of a table whose rows have a key, an owner and a workspace, and
  whose edits touch none of the three; it is interpreted on the seven tables.
\<close>

subsection \<open>Tables of scoped rows\<close>

definition outside :: "('r \<Rightarrow> nat) \<Rightarrow> ('r \<Rightarrow> nat option) \<Rightarrow> nat \<Rightarrow> nat option \<Rightarrow> 'r list \<Rightarrow> 'r list" where
  "outside ow wk u w = filter (\<lambda>r. \<not> scope_filter u w (ow r) (wk r))"

lemma scope_filter_own [simp]: "scope_filter u w u w"
  by (simp add: scope_filter_def split: option.split)

locale scoped_table =
  fixes key :: "'r \<Rightarrow> nat" and ow :: "'r \<Rightarrow> nat" and wk :: "'r \<Rightarrow> nat option" and edits :: "('r \<Rightarrow> 'r) set"
  assumes edit_key: "f \<in> edits \<Longrightarrow> key (f r) = key r"
    and edit_ow: "f \<in> edits \<Longrightarrow> ow (f r) = ow r"
    and edit_wk: "f \<in> edits \<Longrightarrow> wk (f r) = wk r"
begin

lemma found:
  "List.find (\<lambda>r. key r = i \<and> scope_filter u w (ow r) (wk r)) rs = Some r \<Longrightarrow>
   r \<in> set rs \<and> key r = i \<and> scope_filter u w (ow r) (wk r)"
  by (drule find_Some_prop) simp

lemma others_in_scope:
  assumes "distinct (map key rs)" "r \<in> set rs" "scope_filter u w (ow r) (wk r)" "x \<in> set rs" "key x = key r"
  shows "scope_filter u w (ow x) (wk x)"
  using find_row_distinct [OF assms(1,2)] find_row_distinct [OF assms(1,4)] assms(3,5) by simp

lemma outside_upd:
  assumes "f \<in> edits" "distinct (map key rs)" "r \<in> set rs" "scope_filter u w (ow r) (wk r)"
  shows "outside ow wk u w (upd_row key (key r) f rs) = outside ow wk u w rs"
proof -
  have "filter (\<lambda>r. \<not> scope_filter u w (ow r) (wk r)) (map (\<lambda>x. if key x = k then f x else x) xs) =
      filter (\<lambda>r. \<not> scope_filter u w (ow r) (wk r)) xs"
    if "\<forall>x \<in> set xs. key x = k \<longrightarrow> scope_filter u w (ow x) (wk x)" for xs k
    using that edit_ow [OF assms(1)] edit_wk [OF assms(1)] by (induction xs) auto
  then show ?thesis using others_in_scope [OF assms(2-4)] by (simp add: outside_def upd_row_def)
qed

lemma outside_del:
  assumes "distinct (map key rs)" "r \<in> set rs" "scope_filter u w (ow r) (wk r)"
  shows "outside ow wk u w (del_row key (key r) rs) = outside ow wk u w rs"
  unfolding outside_def del_row_def filter_filter
  using others_in_scope [OF assms] by (intro filter_cong refl) blast

lemma outside_add: "scope_filter u w (ow r) (wk r) \<Longrightarrow> outside ow wk u w (rs @ [r]) = outside ow wk u w rs"
  by (simp add: outside_def)

lemma keys_upd: "f \<in> edits \<Longrightarrow> map key (upd_row key i f rs) = map key rs"
  by (rule map_key_upd_row) (rule edit_key)

lemma keys_add: "distinct (map key rs) \<Longrightarrow> key r = next_key key rs \<Longrightarrow> distinct (map key (rs @ [r]))"
  using next_key_fresh [of key rs] by simp

end

lemma put_keeps: "(\<And>x r. g (f x r) = g r) \<Longrightarrow> g (put v f r) = g r"
  by (simp add: put_def split: option.split)

lemma put_some_keeps: "(\<And>x r. g (f x r) = g r) \<Longrightarrow> g (put_some v f r) = g r"
  by (simp add: put_some_def split: option.split)

lemma put_some_None [simp]: "put_some None f r = r"
  by (simp add: put_some_def)

lemma account_patched_sel [simp]:
  "acc_id (account_patched now p a) = acc_id a" "acc_user (account_patched now p a) = acc_user a"
  "acc_ws (account_patched now p a) = acc_ws a"
proof -
  have *: "g (account_patched now p a) = g a"
    if "\<And>x a. g (a\<lparr>acc_name := x\<rparr>) = g a" "\<And>x a. g (a\<lparr>acc_balance := x\<rparr>) = g a" "\<And>x a. g (a\<lparr>credit_limit := x\<rparr>) = g a"
      "\<And>x a. g (a\<lparr>statement_day := x\<rparr>) = g a" "\<And>x a. g (a\<lparr>payment_day := x\<rparr>) = g a" "\<And>x a. g (a\<lparr>statement_balance := x\<rparr>) = g a"
      "\<And>x a. g (a\<lparr>min_payment_ratio := x\<rparr>) = g a" "\<And>x a. g (a\<lparr>interest_rate := x\<rparr>) = g a" "\<And>x a. g (a\<lparr>monthly_payment := x\<rparr>) = g a"
      "\<And>x a. g (a\<lparr>remaining_installments := x\<rparr>) = g a" "\<And>x a. g (a\<lparr>early_payoff_amount := x\<rparr>) = g a"
      "\<And>x a. g (a\<lparr>next_payment_date := x\<rparr>) = g a" "\<And>x a. g (a\<lparr>fund_code := x\<rparr>) = g a" "\<And>x a. g (a\<lparr>lot_count := x\<rparr>) = g a"
      "\<And>x a. g (a\<lparr>cost_per_lot := x\<rparr>) = g a" "\<And>x a. g (a\<lparr>current_price := x\<rparr>) = g a" "\<And>x a. g (a\<lparr>is_emanet := x\<rparr>) = g a"
      "\<And>x a. g (a\<lparr>last_price_update := x\<rparr>) = g a" for g :: "account \<Rightarrow> 'b"
  proof -
    have f: "g (account_fields p a) = g a"
      unfolding account_fields_def comp_def
      by (simp add: that put_keeps [where g = g] put_some_keeps [where g = g])
    have "g (smart_balance p x) = g x" for x by (simp add: smart_balance_def that split: option.split)
    then show ?thesis using f by (simp add: account_patched_def Let_def that)
  qed
  show "acc_id (account_patched now p a) = acc_id a" "acc_user (account_patched now p a) = acc_user a"
    "acc_ws (account_patched now p a) = acc_ws a" by (rule *; simp)+
qed

lemma income_patched_sel [simp]:
  "ri_id (income_patched p r) = ri_id r" "ri_user (income_patched p r) = ri_user r" "ri_ws (income_patched p r) = ri_ws r"
  by (simp_all add: income_patched_def put_some_keeps [where g = ri_id] put_some_keeps [where g = ri_user]
      put_some_keeps [where g = ri_ws])

lemma expense_patched_sel [simp]:
  "re_id (expense_patched p r) = re_id r" "re_user (expense_patched p r) = re_user r" "re_ws (expense_patched p r) = re_ws r"
  "re_account (expense_patched p r) = (case ep_account p of None \<Rightarrow> re_account r | Some x \<Rightarrow> x)"
  by (simp_all add: expense_patched_def put_some_keeps [where g = re_id] put_some_keeps [where g = re_user]
      put_some_keeps [where g = re_ws] put_keeps [where g = re_id] put_keeps [where g = re_user] put_keeps [where g = re_ws]
      put_some_keeps [where g = re_account] put_keeps [where g = re_account] put_def split: option.split)

lemma envelope_patched_sel [simp]:
  "en_id (envelope_patched p r) = en_id r" "en_user (envelope_patched p r) = en_user r"
  "en_ws (envelope_patched p r) = en_ws r" "en_category (envelope_patched p r) = en_category r"
  by (simp_all add: envelope_patched_def put_some_keeps [where g = en_id] put_some_keeps [where g = en_user]
      put_some_keeps [where g = en_ws] put_some_keeps [where g = en_category])

lemma category_patched_sel [simp]:
  "cat_id (category_patched p r) = cat_id r" "cat_user (category_patched p r) = cat_user r"
  "cat_ws (category_patched p r) = cat_ws r" "slug (category_patched p r) = slug r"
  by (simp_all add: category_patched_def put_some_keeps [where g = cat_id] put_some_keeps [where g = cat_user]
      put_some_keeps [where g = cat_ws] put_some_keeps [where g = slug])

lemma checkpoint_patched_sel [simp]:
  "cp_id (checkpoint_patched p r) = cp_id r" "cp_user (checkpoint_patched p r) = cp_user r"
  "cp_ws (checkpoint_patched p r) = cp_ws r" "cp_system (checkpoint_patched p r) = cp_system r"
  by (simp_all add: checkpoint_patched_def put_some_keeps [where g = cp_id] put_some_keeps [where g = cp_user]
      put_some_keeps [where g = cp_ws] put_some_keeps [where g = cp_system] put_keeps [where g = cp_id]
      put_keeps [where g = cp_user] put_keeps [where g = cp_ws] put_keeps [where g = cp_system])

lemma wish_resolved_sel [simp]:
  "wi_id (wish_resolved now st x) = wi_id x" "wi_user (wish_resolved now st x) = wi_user x"
  "wi_ws (wish_resolved now st x) = wi_ws x"
  by (simp_all add: wish_resolved_def)

interpretation accs: scoped_table acc_id acc_user acc_ws "{f. \<exists>now p. f = account_patched now p}"
  by unfold_locales auto

interpretation incs: scoped_table ri_id ri_user ri_ws "range income_patched"
  by unfold_locales auto

interpretation exps: scoped_table re_id re_user re_ws "range expense_patched"
  by unfold_locales auto

interpretation envs: scoped_table en_id en_user en_ws "range envelope_patched \<union> {f. \<exists>c. f = (\<lambda>e. e\<lparr>en_category := c\<rparr>)}"
  by unfold_locales auto

interpretation wishes: scoped_table wi_id wi_user wi_ws "{f. \<exists>now st. f = wish_resolved now st}"
  by unfold_locales auto

interpretation chks: scoped_table cp_id cp_user cp_ws "range checkpoint_patched \<union> {\<lambda>c. c\<lparr>cp_active := False\<rparr>}"
  by unfold_locales auto

interpretation cats: scoped_table cat_id cat_user cat_ws
  "range category_patched \<union> {f. \<exists>k. f = (\<lambda>c. c\<lparr>gizli := False, kart_varsayilani := k\<rparr>)}"
  by unfold_locales auto

subsection \<open>Scope\<close>

definition keys_ok :: "books \<Rightarrow> bool" where
  "keys_ok s \<longleftrightarrow> (let d = bk_db s in distinct (map acc_id (accounts d)) \<and> distinct (map ri_id (incomes d)) \<and>
     distinct (map re_id (expenses d)) \<and> distinct (map cat_id (categories d)) \<and> distinct (map cp_id (checkpoints d)) \<and>
     distinct (map en_id (bk_envelopes s)) \<and> distinct (map wi_id (bk_wishes s)))"

lemma keys_okD:
  assumes "keys_ok s"
  shows "distinct (map acc_id (accounts (bk_db s)))" "distinct (map ri_id (incomes (bk_db s)))"
    "distinct (map re_id (expenses (bk_db s)))" "distinct (map cat_id (categories (bk_db s)))"
    "distinct (map cp_id (checkpoints (bk_db s)))" "distinct (map en_id (bk_envelopes s))" "distinct (map wi_id (bk_wishes s))"
  using assms by (simp_all add: keys_ok_def Let_def)

text \<open>Everything outside the scope \<open>(u, w)\<close>, table by table, and the tables that have no record endpoint here.\<close>

definition beyond where
  "beyond u w s = (let d = bk_db s in
     (outside acc_user acc_ws u w (accounts d), outside tx_user tx_ws u w (transactions d), debts d,
      outside ri_user ri_ws u w (incomes d), outside re_user re_ws u w (expenses d),
      outside cat_user cat_ws u w (categories d), outside cp_user cp_ws u w (checkpoints d), db_workspaces d,
      outside en_user en_ws u w (bk_envelopes s), outside wi_user wi_ws u w (bk_wishes s)))"

lemma account_scope:
  assumes "keys_ok s"
  shows "beyond u w (fst (create_account now s u w p)) = beyond u w s"
    "beyond u w (fst (update_account now s u w i q)) = beyond u w s"
    "beyond u w (fst (delete_account s u w i)) = beyond u w s"
proof -
  note K = keys_okD(1) [OF assms]
  show "beyond u w (fst (create_account now s u w p)) = beyond u w s"
    by (auto simp: create_account_def beyond_def Let_def account_row_def accs.outside_add split: option.split)
  show "beyond u w (fst (update_account now s u w i q)) = beyond u w s"
    by (auto simp: update_account_def beyond_def Let_def query_account_def
        dest!: accs.found intro: accs.outside_upd [OF _ K] split: option.split)
  show "beyond u w (fst (delete_account s u w i)) = beyond u w s"
    by (auto simp: delete_account_def beyond_def Let_def query_account_def
        dest!: accs.found intro: accs.outside_del [OF K] split: option.split)
qed

lemma income_scope:
  assumes "keys_ok s"
  shows "beyond u w (fst (create_income s u w p)) = beyond u w s"
    "beyond u w (fst (update_income s u w i q)) = beyond u w s"
    "beyond u w (fst (delete_income s u w i)) = beyond u w s"
proof -
  note K = keys_okD(2) [OF assms]
  show "beyond u w (fst (create_income s u w p)) = beyond u w s"
    by (auto simp: create_income_def beyond_def Let_def incs.outside_add)
  show "beyond u w (fst (update_income s u w i q)) = beyond u w s"
    by (auto simp: update_income_def beyond_def Let_def query_income_def
        dest!: incs.found intro: incs.outside_upd [OF _ K] split: option.split)
  show "beyond u w (fst (delete_income s u w i)) = beyond u w s"
    by (auto simp: delete_income_def beyond_def Let_def query_income_def
        dest!: incs.found intro: incs.outside_del [OF K] split: option.split)
qed

lemma expense_scope:
  assumes "keys_ok s"
  shows "beyond u w (fst (create_expense s u w p)) = beyond u w s"
    "beyond u w (fst (update_expense s u w i q)) = beyond u w s"
    "beyond u w (fst (delete_expense s u w i)) = beyond u w s"
proof -
  note K = keys_okD(3) [OF assms]
  show "beyond u w (fst (create_expense s u w p)) = beyond u w s"
    by (auto simp: create_expense_def beyond_def Let_def exps.outside_add split: option.split)
  show "beyond u w (fst (update_expense s u w i q)) = beyond u w s"
    by (auto simp: update_expense_def beyond_def Let_def query_expense_def
        dest!: exps.found intro: exps.outside_upd [OF _ K] split: option.split)
  show "beyond u w (fst (delete_expense s u w i)) = beyond u w s"
    by (auto simp: delete_expense_def beyond_def Let_def query_expense_def
        dest!: exps.found intro: exps.outside_del [OF K] split: option.split)
qed

lemma envelope_scope:
  assumes "keys_ok s"
  shows "beyond u w (fst (create_envelope s u w c x)) = beyond u w s"
    "beyond u w (fst (update_envelope s u w i q)) = beyond u w s"
    "beyond u w (fst (delete_envelope s u w i)) = beyond u w s"
proof -
  note K = keys_okD(6) [OF assms]
  show "beyond u w (fst (create_envelope s u w c x)) = beyond u w s"
    by (auto simp: create_envelope_def beyond_def Let_def envs.outside_add split: option.split)
  show "beyond u w (fst (update_envelope s u w i q)) = beyond u w s"
    by (auto simp: update_envelope_def beyond_def Let_def query_envelope_def
        dest!: envs.found intro: envs.outside_upd [OF _ K] split: option.split)
  show "beyond u w (fst (delete_envelope s u w i)) = beyond u w s"
    by (auto simp: delete_envelope_def beyond_def Let_def query_envelope_def
        dest!: envs.found intro: envs.outside_del [OF K] split: option.split)
qed

lemma wish_scope:
  assumes "keys_ok s"
  shows "beyond u w (fst (add_wishlist now s u w t x)) = beyond u w s"
    "beyond u w (fst (resolve_wishlist now s u w i st)) = beyond u w s"
proof -
  note K = keys_okD(7) [OF assms]
  show "beyond u w (fst (add_wishlist now s u w t x)) = beyond u w s"
    by (auto simp: add_wishlist_def beyond_def Let_def wishes.outside_add)
  show "beyond u w (fst (resolve_wishlist now s u w i st)) = beyond u w s"
    by (auto simp: resolve_wishlist_def beyond_def Let_def query_wish_def
        dest!: wishes.found intro: wishes.outside_upd [OF _ K] split: option.split)
qed

lemma checkpoint_scope:
  assumes "keys_ok s"
  shows "beyond u w (fst (create_checkpoint s u w p)) = beyond u w s"
    "beyond u w (fst (update_checkpoint s u w i q)) = beyond u w s"
    "beyond u w (fst (delete_checkpoint s u w i hard)) = beyond u w s"
proof -
  note K = keys_okD(5) [OF assms]
  show "beyond u w (fst (create_checkpoint s u w p)) = beyond u w s"
    by (auto simp: create_checkpoint_def beyond_def Let_def chks.outside_add)
  show "beyond u w (fst (update_checkpoint s u w i q)) = beyond u w s"
    by (auto simp: update_checkpoint_def beyond_def Let_def query_checkpoint_def
        dest!: chks.found intro: chks.outside_upd [OF _ K] split: option.split)
  show "beyond u w (fst (delete_checkpoint s u w i hard)) = beyond u w s"
    by (auto simp: delete_checkpoint_def beyond_def Let_def query_checkpoint_def
        dest!: chks.found intro: chks.outside_upd [OF _ K] chks.outside_del [OF K] split: option.split)
qed

lemma outside_move_tx: "outside tx_user tx_ws u w (move_tx u w src dst ts) = outside tx_user tx_ws u w ts"
  by (induction ts) (auto simp: outside_def move_tx_def)

lemma outside_move_envelope:
  assumes "distinct (map en_id es)" "move_envelope u w src dst es = Some es'"
  shows "outside en_user en_ws u w es' = outside en_user en_ws u w es"
proof (cases "envelope_of u w src es")
  case None
  then show ?thesis using assms(2) by (simp add: move_envelope_def)
next
  case (Some e)
  then have e: "e \<in> set es" "scope_filter u w (en_user e) (en_ws e)"
    using find_Some_prop [of _ es e] by (auto simp: envelope_of_def)
  show ?thesis
    using assms(2) Some envs.outside_del [OF assms(1) e] envs.outside_upd [OF _ assms(1) e, of "\<lambda>e. e\<lparr>en_category := dst\<rparr>"]
    by (auto simp: move_envelope_def split: if_splits)
qed

lemma category_scope:
  assumes "keys_ok s"
  shows "beyond u w (fst (create_category katlama s u w ad kart)) = beyond u w s"
    "beyond u w (fst (update_category s u w i q)) = beyond u w s"
    "beyond u w (fst (delete_category katlama s u w i h)) = beyond u w s"
proof -
  note K = keys_okD(4) [OF assms]
  have of: "c \<in> set (categories (bk_db s)) \<and> scope_filter u w (cat_user c) (cat_ws c)"
    if "category_of u w sl (categories (bk_db s)) = Some c" for sl c
    using find_Some_prop [OF that [unfolded category_of_def]] by (simp add: cat_in_scope_def)
  have gone: "outside cat_user cat_ws u w (del_row cat_id i (categories (bk_db s))) =
      outside cat_user cat_ws u w (categories (bk_db s))"
    if "bul u w i (categories (bk_db s)) = Some c" for c
    using cats.found [OF that [unfolded bul_def cat_in_scope_def]] cats.outside_del [OF K, of c u w] by auto
  show "beyond u w (fst (create_category katlama s u w ad kart)) = beyond u w s"
    by (auto simp: create_category_def beyond_def Let_def cats.outside_add
        dest!: of intro!: cats.outside_upd [OF _ K] split: option.split)
  show "beyond u w (fst (update_category s u w i q)) = beyond u w s"
    by (auto simp: update_category_def beyond_def Let_def bul_def cat_in_scope_def
        dest!: cats.found intro: cats.outside_upd [OF _ K] split: option.split)
  show "beyond u w (fst (delete_category katlama s u w i h)) = beyond u w s"
    using gone outside_move_envelope [OF keys_okD(6) [OF assms]]
    by (auto simp: delete_category_def beyond_def Let_def outside_move_tx split: option.split)
qed

text \<open>C30: Isolation. Whatever a caller asks of the record endpoints, every row outside the caller's scope -
  the active workspace, or the caller's own rows when there is none - is the same afterwards, in every table:
  no row of another workspace is changed or deleted, and none is moved or added there.\<close>

theorem records_isolated:
  assumes "keys_ok s" "serve_record katlama now s u w rq = (s', r)"
  shows "beyond u w s' = beyond u w s"
proof -
  have "beyond u w (fst (serve_record katlama now s u w rq)) = beyond u w s"
    using account_scope [OF assms(1)] income_scope [OF assms(1)] expense_scope [OF assms(1)] envelope_scope [OF assms(1)]
      wish_scope [OF assms(1)] checkpoint_scope [OF assms(1)] category_scope [OF assms(1)]
    by (cases rq) (simp_all add: serve_record_def)
  then show ?thesis using assms(2) by simp
qed

subsection \<open>The tables stay well formed\<close>

text \<open>A category belongs to a workspace, or to a user who has none.\<close>

definition shelf :: "category \<Rightarrow> (nat + nat) \<times> string" where
  "shelf c = ((case cat_ws c of Some w \<Rightarrow> Inl w | None \<Rightarrow> Inr (cat_user c)), slug c)"

definition books_inv :: "books \<Rightarrow> bool" where
  "books_inv s \<longleftrightarrow> keys_ok s \<and> refs_ok (bk_db s) \<and> distinct (map shelf (categories (bk_db s))) \<and>
     distinct (map (\<lambda>e. (en_user e, en_category e)) (bk_envelopes s))"

lemma shelf_in_scope:
  assumes "shelf c = (case w of Some x \<Rightarrow> Inl x | None \<Rightarrow> Inr u, sl)"
  shows "cat_in_scope u w c \<and> slug c = sl"
  using assms by (auto simp: shelf_def cat_in_scope_def scope_filter_def split: option.splits)

lemma keys_ok_account:
  assumes "keys_ok s"
  shows "keys_ok (fst (create_account now s u w p))" "keys_ok (fst (update_account now s u w i q))"
    "keys_ok (fst (delete_account s u w i))"
  using assms keys_okD(1) [OF assms] next_key_fresh [of acc_id "accounts (bk_db s)"]
  by (auto simp: create_account_def update_account_def delete_account_def keys_ok_def Let_def account_row_def
      map_key_upd_row distinct_map_del_row split: option.split)

lemma keys_ok_income:
  assumes "keys_ok s"
  shows "keys_ok (fst (create_income s u w p))" "keys_ok (fst (update_income s u w i q))"
    "keys_ok (fst (delete_income s u w i))"
  using assms keys_okD(2) [OF assms] next_key_fresh [of ri_id "incomes (bk_db s)"]
  by (auto simp: create_income_def update_income_def delete_income_def keys_ok_def Let_def
      map_key_upd_row distinct_map_del_row split: option.split)

lemma keys_ok_expense:
  assumes "keys_ok s"
  shows "keys_ok (fst (create_expense s u w p))" "keys_ok (fst (update_expense s u w i q))"
    "keys_ok (fst (delete_expense s u w i))"
  using assms keys_okD(3) [OF assms] next_key_fresh [of re_id "expenses (bk_db s)"]
  by (auto simp: create_expense_def update_expense_def delete_expense_def keys_ok_def Let_def
      map_key_upd_row distinct_map_del_row split: option.split)

lemma keys_ok_wish:
  assumes "keys_ok s"
  shows "keys_ok (fst (add_wishlist now s u w t x))" "keys_ok (fst (resolve_wishlist now s u w i st))"
  using assms keys_okD(7) [OF assms] next_key_fresh [of wi_id "bk_wishes s"]
  by (auto simp: add_wishlist_def resolve_wishlist_def keys_ok_def Let_def map_key_upd_row split: option.split)

lemma keys_ok_checkpoint:
  assumes "keys_ok s"
  shows "keys_ok (fst (create_checkpoint s u w p))" "keys_ok (fst (update_checkpoint s u w i q))"
    "keys_ok (fst (delete_checkpoint s u w i hard))"
  using assms keys_okD(5) [OF assms] next_key_fresh [of cp_id "checkpoints (bk_db s)"]
  by (auto simp: create_checkpoint_def update_checkpoint_def delete_checkpoint_def keys_ok_def Let_def
      map_key_upd_row distinct_map_del_row split: option.split)

text \<open>The envelopes: ids and the unique key of user and category.\<close>

definition envelopes_ok :: "envelope list \<Rightarrow> bool" where
  "envelopes_ok es \<longleftrightarrow> distinct (map en_id es) \<and> distinct (map (\<lambda>e. (en_user e, en_category e)) es)"

lemma distinct_map_update:
  assumes "distinct (map g rs)" "distinct (map key rs)" "r \<in> set rs" "g (f r) \<notin> g ` set rs"
  shows "distinct (map g (upd_row key (key r) f rs))"
  using assms
proof (induction rs)
  case (Cons x rs)
  show ?case
  proof (cases "key x = key r")
    case True
    then have "x = r" using Cons.prems(2,3) by (auto simp: image_iff)
    moreover have "upd_row key (key r) f rs = rs" using Cons.prems(2) True by (intro upd_row_id) auto
    ultimately show ?thesis using Cons.prems by auto
  next
    case False
    then have r: "r \<in> set rs" using Cons.prems(3) by auto
    have "g x \<notin> g ` set (upd_row key (key r) f rs)"
    proof
      assume "g x \<in> g ` set (upd_row key (key r) f rs)"
      then obtain y where y: "y \<in> set rs" "g x = g (if key y = key r then f y else y)" by (auto simp: set_upd_row)
      show False
      proof (cases "key y = key r")
        case True
        have "inj_on key (set rs)" using Cons.prems(2) by (simp add: distinct_map)
        then have "y = r" using inj_onD [OF _ True y(1) r] by blast
        then have "g x = g (f r)" using y(2) by simp
        then show False using Cons.prems(4) by (metis imageI list.set_intros(1))
      next
        case False
        then have "g x \<in> g ` set rs" using y imageI [OF y(1), of g] by simp
        then show False using Cons.prems(1) by simp
      qed
    qed
    moreover have "distinct (map g (upd_row key (key r) f rs))" by (rule Cons.IH) (use Cons.prems r in simp_all)
    ultimately show ?thesis using False by simp
  qed
qed simp

lemma envelopes_ok_move:
  assumes "envelopes_ok es" "move_envelope u w src dst es = Some es'"
  shows "envelopes_ok es'"
proof (cases "envelope_of u w src es")
  case None
  then show ?thesis using assms by (simp add: move_envelope_def)
next
  case (Some e)
  then have e: "e \<in> set es" using find_Some_prop [of _ es e] by (auto simp: envelope_of_def)
  have d: "distinct (map en_id es)" "distinct (map (\<lambda>e. (en_user e, en_category e)) es)"
    using assms(1) by (simp_all add: envelopes_ok_def)
  show ?thesis
  proof (cases "envelope_of u w dst es = None")
    case False
    then show ?thesis using assms Some by (auto simp: move_envelope_def envelopes_ok_def distinct_map_del_row)
  next
    case True
    then have t: "\<not> envelope_taken (en_user e) dst es" "es' = upd_row en_id (en_id e) (\<lambda>e. e\<lparr>en_category := dst\<rparr>) es"
      using assms(2) Some by (auto simp: move_envelope_def split: if_splits)
    have "(en_user e, dst) \<notin> (\<lambda>e. (en_user e, en_category e)) ` set es"
      using t(1) by (auto simp: envelope_taken_def list_ex_iff)
    then have "distinct (map (\<lambda>e. (en_user e, en_category e)) es')"
      unfolding t(2) by (intro distinct_map_update [OF d(2,1) e]) simp
    moreover have "distinct (map en_id es')" unfolding t(2) using d(1) by (simp add: map_key_upd_row)
    ultimately show ?thesis by (simp add: envelopes_ok_def)
  qed
qed

lemma envelopes_ok_request:
  assumes "envelopes_ok (bk_envelopes s)"
  shows "envelopes_ok (bk_envelopes (fst (create_envelope s u w c x)))"
    "envelopes_ok (bk_envelopes (fst (update_envelope s u w i q)))"
    "envelopes_ok (bk_envelopes (fst (delete_envelope s u w i)))"
proof -
  note D = assms [unfolded envelopes_ok_def]
  show "envelopes_ok (bk_envelopes (fst (create_envelope s u w c x)))"
    using D next_key_fresh [of en_id "bk_envelopes s"]
    by (auto simp: create_envelope_def envelopes_ok_def Let_def envelope_taken_def list_ex_iff split: option.split)
  show "envelopes_ok (bk_envelopes (fst (update_envelope s u w i q)))"
    using D by (auto simp: update_envelope_def envelopes_ok_def map_key_upd_row map_field_upd_row split: option.split)
  show "envelopes_ok (bk_envelopes (fst (delete_envelope s u w i)))"
    using D by (auto simp: delete_envelope_def envelopes_ok_def distinct_map_del_row split: option.split)
qed

text \<open>References: new accounts and expenses whose account exists keep them whole.\<close>

lemma refers_mono: "refers accs x \<Longrightarrow> acc_id ` set accs \<subseteq> acc_id ` set accs' \<Longrightarrow> refers accs' x"
  by (auto simp: refers_def split: option.splits)

lemma refs_ok_accounts:
  "refs_ok d \<Longrightarrow> acc_id ` set (accounts d) \<subseteq> acc_id ` set accs \<Longrightarrow> refs_ok (d\<lparr>accounts := accs\<rparr>)"
  using refers_mono [of "accounts d" _ accs] by (simp add: refs_ok_def list_all_iff)

lemma refs_ok_expenses:
  "refs_ok d \<Longrightarrow> (\<And>e. e \<in> set es \<Longrightarrow> e \<in> set (expenses d) \<or> refers (accounts d) (re_account e)) \<Longrightarrow>
   refs_ok (d\<lparr>expenses := es\<rparr>)"
  by (auto simp: refs_ok_def list_all_iff)

lemma account_ids_upd: "acc_id ` set (upd_row acc_id i (account_patched now q) rs) = acc_id ` set rs"
  using arg_cong [OF map_key_upd_row [of acc_id "account_patched now q" i rs], of set] by simp

lemma refs_account:
  assumes "refs_ok (bk_db s)"
  shows "refs_ok (bk_db (fst (create_account now s u w p)))" "refs_ok (bk_db (fst (update_account now s u w i q)))"
    "refs_ok (bk_db (fst (delete_account s u w i)))"
proof -
  have "refs_ok ((bk_db s)\<lparr>accounts := accounts (bk_db s) @ [row]\<rparr>)" for row
    by (rule refs_ok_accounts [OF assms]) auto
  then show "refs_ok (bk_db (fst (create_account now s u w p)))" using assms by (simp add: create_account_def Let_def)
  have "refs_ok ((bk_db s)\<lparr>accounts := upd_row acc_id j (account_patched now q) (accounts (bk_db s))\<rparr>)" for j
    by (rule refs_ok_accounts [OF assms]) (simp add: account_ids_upd)
  then show "refs_ok (bk_db (fst (update_account now s u w i q)))"
    using assms by (simp add: update_account_def Let_def split: option.split)
  show "refs_ok (bk_db (fst (delete_account s u w i)))"
  proof (cases "fst (delete_account s u w i) = s")
    case False
    then have none: "\<not> list_ex (\<lambda>t. tx_account t = Some i) (transactions (bk_db s))"
      "\<not> list_ex (\<lambda>e. re_account e = Some i) (expenses (bk_db s))"
      "\<not> list_ex (\<lambda>r. settlement_account r = Some i) (debts (bk_db s))"
      and eq: "bk_db (fst (delete_account s u w i)) = (bk_db s)\<lparr>accounts := del_row acc_id i (accounts (bk_db s))\<rparr>"
      by (auto simp: delete_account_def Let_def split: option.splits if_splits)
    have "refers (del_row acc_id i accs) x" if "refers accs x" "x \<noteq> Some i" for accs x
      using that by (auto simp: refers_def set_del_row split: option.splits)
    then show ?thesis using assms none unfolding eq by (simp add: refs_ok_def list_all_iff list_ex_iff)
  qed (use assms in simp)
qed

lemma refs_income:
  assumes "refs_ok (bk_db s)"
  shows "refs_ok (bk_db (fst (create_income s u w p)))" "refs_ok (bk_db (fst (update_income s u w i q)))"
    "refs_ok (bk_db (fst (delete_income s u w i)))"
  using assms
  by (simp_all add: create_income_def update_income_def delete_income_def Let_def refs_ok_def split: option.split)

lemma refs_checkpoint:
  assumes "refs_ok (bk_db s)"
  shows "refs_ok (bk_db (fst (create_checkpoint s u w p)))" "refs_ok (bk_db (fst (update_checkpoint s u w i q)))"
    "refs_ok (bk_db (fst (delete_checkpoint s u w i hard)))"
  using assms
  by (simp_all add: create_checkpoint_def update_checkpoint_def delete_checkpoint_def Let_def refs_ok_def split: option.split)

lemma refs_expense:
  assumes "refs_ok (bk_db s)"
  shows "refs_ok (bk_db (fst (create_expense s u w p)))" "refs_ok (bk_db (fst (update_expense s u w i q)))"
    "refs_ok (bk_db (fst (delete_expense s u w i)))"
proof -
  have acc: "refers (accounts (bk_db s)) (Some j)" if "query_account u w j (accounts (bk_db s)) \<noteq> None" for j
    using that query_account_Some by (fastforce simp: refers_def)
  have "refs_ok ((bk_db s)\<lparr>expenses := expenses (bk_db s) @ [row]\<rparr>)" if "refers (accounts (bk_db s)) (re_account row)" for row
    by (rule refs_ok_expenses [OF assms]) (use that in auto)
  then show "refs_ok (bk_db (fst (create_expense s u w p)))"
    using assms acc by (simp add: create_expense_def Let_def split: option.split)
  have "refs_ok ((bk_db s)\<lparr>expenses := del_row re_id i (expenses (bk_db s))\<rparr>)"
    by (rule refs_ok_expenses [OF assms]) (simp add: set_del_row)
  then show "refs_ok (bk_db (fst (delete_expense s u w i)))"
    using assms by (simp add: delete_expense_def Let_def split: option.split)
  show "refs_ok (bk_db (fst (update_expense s u w i q)))"
  proof (cases "fst (update_expense s u w i q) = s")
    case False
    then obtain r where f: "query_expense u w i (expenses (bk_db s)) = Some r"
      by (auto simp: update_expense_def Let_def split: option.splits if_splits)
    have r: "bk_db (fst (update_expense s u w i q)) =
        (bk_db s)\<lparr>expenses := upd_row re_id (re_id r) (expense_patched q) (expenses (bk_db s))\<rparr>"
      using False f by (auto simp: update_expense_def Let_def split: if_splits)
    have a: "\<And>j. ep_account q = Some (Some j) \<Longrightarrow> query_account u w j (accounts (bk_db s)) \<noteq> None"
      using False f by (auto simp: update_expense_def Let_def split: if_splits)
    show ?thesis unfolding r
    proof (rule refs_ok_expenses [OF assms])
      fix e assume "e \<in> set (upd_row re_id (re_id r) (expense_patched q) (expenses (bk_db s)))"
      then obtain x where x: "x \<in> set (expenses (bk_db s))" "e = (if re_id x = re_id r then expense_patched q x else x)"
        by (auto simp: set_upd_row)
      have "refers (accounts (bk_db s)) (re_account x)" using assms x(1) by (simp add: refs_ok_def list_all_iff)
      moreover have "refers (accounts (bk_db s)) None" by (simp add: refers_def)
      moreover have "refers (accounts (bk_db s)) y" if "ep_account q = Some y" for y
        using that acc [OF a] \<open>refers (accounts (bk_db s)) None\<close> by (cases y) simp_all
      ultimately show "e \<in> set (expenses (bk_db s)) \<or> refers (accounts (bk_db s)) (re_account e)"
        using x by (cases "ep_account q") (simp_all split: if_splits)
    qed
  qed (use assms in simp)
qed

lemma request_elsewhere:
  "bk_db (fst (create_envelope s u w c x)) = bk_db s" "bk_db (fst (update_envelope s u w i q)) = bk_db s"
  "bk_db (fst (delete_envelope s u w i)) = bk_db s" "bk_db (fst (add_wishlist now s u w t x)) = bk_db s"
  "bk_db (fst (resolve_wishlist now s u w i st)) = bk_db s"
  by (simp_all add: create_envelope_def update_envelope_def delete_envelope_def add_wishlist_def resolve_wishlist_def
      Let_def split: option.split)

text \<open>Categories: one per shelf and slug.\<close>

lemma shelves_request:
  assumes "distinct (map shelf (categories (bk_db s)))"
  shows "distinct (map shelf (categories (bk_db (fst (create_category katlama s u w ad kart)))))"
    "distinct (map shelf (categories (bk_db (fst (update_category s u w i q)))))"
    "distinct (map shelf (categories (bk_db (fst (delete_category katlama s u w i h)))))"
proof -
  have same: "shelf (category_patched q c) = shelf c" "shelf (c\<lparr>gizli := x, kart_varsayilani := k\<rparr>) = shelf c" for c x k
    by (simp_all add: shelf_def split: option.split)
  have new: "shelf \<lparr>cat_id = k, cat_user = u, cat_ws = w, slug = sl, kart_varsayilani = a, sistem = b, gizli = g\<rparr>
      \<notin> shelf ` set (categories (bk_db s))" if "category_of u w sl (categories (bk_db s)) = None" for k sl a b g
  proof
    assume "shelf \<lparr>cat_id = k, cat_user = u, cat_ws = w, slug = sl, kart_varsayilani = a, sistem = b, gizli = g\<rparr>
      \<in> shelf ` set (categories (bk_db s))"
    moreover have "shelf \<lparr>cat_id = k, cat_user = u, cat_ws = w, slug = sl, kart_varsayilani = a, sistem = b, gizli = g\<rparr> =
        (case w of Some x \<Rightarrow> Inl x | None \<Rightarrow> Inr u, sl)" by (simp add: shelf_def split: option.split)
    ultimately obtain c where c: "c \<in> set (categories (bk_db s))" "shelf c = (case w of Some x \<Rightarrow> Inl x | None \<Rightarrow> Inr u, sl)"
      by (metis imageE)
    then show False using shelf_in_scope [OF c(2)] that by (auto simp: category_of_def find_None_prop)
  qed
  show "distinct (map shelf (categories (bk_db (fst (create_category katlama s u w ad kart)))))"
    using assms new by (simp add: create_category_def Let_def map_field_upd_row same split: option.split)
  show "distinct (map shelf (categories (bk_db (fst (update_category s u w i q)))))"
    using assms by (simp add: update_category_def Let_def map_field_upd_row same split: option.split)
  show "distinct (map shelf (categories (bk_db (fst (delete_category katlama s u w i h)))))"
    using assms by (simp add: delete_category_def Let_def distinct_map_del_row split: option.split)
qed

lemma categories_elsewhere:
  "categories (bk_db (fst (create_account now s u w p1))) = categories (bk_db s)"
  "categories (bk_db (fst (update_account now s u w i p2))) = categories (bk_db s)"
  "categories (bk_db (fst (delete_account s u w i))) = categories (bk_db s)"
  "categories (bk_db (fst (create_income s u w p3))) = categories (bk_db s)"
  "categories (bk_db (fst (update_income s u w i p4))) = categories (bk_db s)"
  "categories (bk_db (fst (delete_income s u w i))) = categories (bk_db s)"
  "categories (bk_db (fst (create_expense s u w p5))) = categories (bk_db s)"
  "categories (bk_db (fst (update_expense s u w i p6))) = categories (bk_db s)"
  "categories (bk_db (fst (delete_expense s u w i))) = categories (bk_db s)"
  "categories (bk_db (fst (create_checkpoint s u w p7))) = categories (bk_db s)"
  "categories (bk_db (fst (update_checkpoint s u w i p8))) = categories (bk_db s)"
  "categories (bk_db (fst (delete_checkpoint s u w i hard))) = categories (bk_db s)"
  by (simp_all add: create_account_def update_account_def delete_account_def create_income_def update_income_def
      delete_income_def create_expense_def update_expense_def delete_expense_def create_checkpoint_def
      update_checkpoint_def delete_checkpoint_def Let_def split: option.split)

lemma envelopes_elsewhere:
  "bk_envelopes (fst (create_account now s u w p1)) = bk_envelopes s"
  "bk_envelopes (fst (update_account now s u w i p2)) = bk_envelopes s"
  "bk_envelopes (fst (delete_account s u w i)) = bk_envelopes s"
  "bk_envelopes (fst (create_income s u w p3)) = bk_envelopes s"
  "bk_envelopes (fst (update_income s u w i p4)) = bk_envelopes s"
  "bk_envelopes (fst (delete_income s u w i)) = bk_envelopes s"
  "bk_envelopes (fst (create_expense s u w p5)) = bk_envelopes s"
  "bk_envelopes (fst (update_expense s u w i p6)) = bk_envelopes s"
  "bk_envelopes (fst (delete_expense s u w i)) = bk_envelopes s"
  "bk_envelopes (fst (create_checkpoint s u w p7)) = bk_envelopes s"
  "bk_envelopes (fst (update_checkpoint s u w i p8)) = bk_envelopes s"
  "bk_envelopes (fst (delete_checkpoint s u w i hard)) = bk_envelopes s"
  "bk_envelopes (fst (add_wishlist now s u w t x)) = bk_envelopes s"
  "bk_envelopes (fst (resolve_wishlist now s u w i st)) = bk_envelopes s"
  "bk_envelopes (fst (create_category katlama s u w ad kart)) = bk_envelopes s"
  "bk_envelopes (fst (update_category s u w i p9)) = bk_envelopes s"
  by (simp_all add: create_account_def update_account_def delete_account_def create_income_def update_income_def
      delete_income_def create_expense_def update_expense_def delete_expense_def create_checkpoint_def
      update_checkpoint_def delete_checkpoint_def add_wishlist_def resolve_wishlist_def create_category_def
      update_category_def Let_def split: option.split)

lemma keys_ok_category:
  assumes "keys_ok s" "envelopes_ok (bk_envelopes s)"
  shows "keys_ok (fst (create_category katlama s u w ad kart))" "keys_ok (fst (update_category s u w i q))"
    "keys_ok (fst (delete_category katlama s u w i h))"
proof -
  show "keys_ok (fst (create_category katlama s u w ad kart))" "keys_ok (fst (update_category s u w i q))"
    using assms next_key_fresh [of cat_id "categories (bk_db s)"]
    by (auto simp: create_category_def update_category_def keys_ok_def Let_def map_key_upd_row split: option.split)
  show "keys_ok (fst (delete_category katlama s u w i h))"
    using assms(1) envelopes_ok_move [OF assms(2)]
    by (auto simp: delete_category_def keys_ok_def Let_def distinct_map_del_row envelopes_ok_def split: option.split)
qed

lemma envelopes_ok_delete_category:
  "envelopes_ok (bk_envelopes s) \<Longrightarrow> envelopes_ok (bk_envelopes (fst (delete_category katlama s u w i h)))"
  using envelopes_ok_move by (auto simp: delete_category_def Let_def split: option.split)

lemma keys_ok_envelope:
  assumes "keys_ok s" "envelopes_ok (bk_envelopes s)"
  shows "keys_ok (fst (create_envelope s u w c x))" "keys_ok (fst (update_envelope s u w i q))"
    "keys_ok (fst (delete_envelope s u w i))"
  using assms(1) envelopes_ok_request [OF assms(2)]
  by (simp_all add: keys_ok_def Let_def request_elsewhere envelopes_ok_def create_envelope_def update_envelope_def
      delete_envelope_def split: option.splits if_splits)

lemma refs_category:
  assumes "refs_ok (bk_db s)"
  shows "refs_ok (bk_db (fst (create_category katlama s u w ad kart)))" "refs_ok (bk_db (fst (update_category s u w i q)))"
    "refs_ok (bk_db (fst (delete_category katlama s u w i h)))"
proof -
  show "refs_ok (bk_db (fst (create_category katlama s u w ad kart)))" "refs_ok (bk_db (fst (update_category s u w i q)))"
    using assms by (simp_all add: create_category_def update_category_def Let_def refs_ok_def split: option.split)
  have "list_all (\<lambda>t. refers accs (tx_account t)) (move_tx u w src dst ts) = list_all (\<lambda>t. refers accs (tx_account t)) ts"
    for accs src dst ts by (induction ts) (simp_all add: move_tx_def)
  then show "refs_ok (bk_db (fst (delete_category katlama s u w i h)))"
    using assms by (simp add: delete_category_def Let_def refs_ok_def split: option.split)
qed

lemma books_inv_iff:
  "books_inv s \<longleftrightarrow> keys_ok s \<and> refs_ok (bk_db s) \<and> distinct (map shelf (categories (bk_db s))) \<and> envelopes_ok (bk_envelopes s)"
  by (auto simp: books_inv_def envelopes_ok_def keys_ok_def Let_def)

lemma books_inv_serve:
  assumes "books_inv s"
  shows "books_inv (fst (serve_record katlama now s u w rq))"
proof -
  have K: "keys_ok s" and R: "refs_ok (bk_db s)" and C: "distinct (map shelf (categories (bk_db s)))"
    and E: "envelopes_ok (bk_envelopes s)"
    using assms by (simp_all add: books_inv_iff)
  note keys = keys_ok_account [OF K] keys_ok_income [OF K] keys_ok_expense [OF K] keys_ok_wish [OF K]
    keys_ok_checkpoint [OF K] keys_ok_category [OF K E] keys_ok_envelope [OF K E]
  note refs = refs_account [OF R] refs_income [OF R] refs_expense [OF R] refs_checkpoint [OF R] refs_category [OF R]
  show ?thesis
    unfolding books_inv_iff
    by (cases rq; simp add: serve_record_def keys refs R C E request_elsewhere categories_elsewhere envelopes_elsewhere
        envelopes_ok_request [OF E] envelopes_ok_delete_category [OF E] shelves_request [OF C])
qed

text \<open>C31: Over any requests of any users the tables stay well formed: primary keys are unique, every
  transaction, expense and settlement refers to an account that exists, no workspace has two categories of one
  slug, and no user two envelopes of one category.\<close>

theorem records_well_formed:
  assumes "books_inv s" "record_run katlama s s'"
  shows "books_inv s'"
  using assms(2,1) unfolding record_run_def
proof (induction rule: rtranclp_induct)
  case (step y z)
  from step.hyps(2) show ?case
  proof cases
    case (serve now u w rq r)
    then show ?thesis using books_inv_serve [OF step.IH [OF step.prems], of katlama now u w rq] by simp
  qed
qed simp

subsection \<open>Protected checkpoints\<close>

lemma checkpoints_elsewhere:
  "checkpoints (bk_db (fst (create_account now s u w p1))) = checkpoints (bk_db s)"
  "checkpoints (bk_db (fst (update_account now s u w i p2))) = checkpoints (bk_db s)"
  "checkpoints (bk_db (fst (delete_account s u w i))) = checkpoints (bk_db s)"
  "checkpoints (bk_db (fst (create_income s u w p3))) = checkpoints (bk_db s)"
  "checkpoints (bk_db (fst (update_income s u w i p4))) = checkpoints (bk_db s)"
  "checkpoints (bk_db (fst (delete_income s u w i))) = checkpoints (bk_db s)"
  "checkpoints (bk_db (fst (create_expense s u w p5))) = checkpoints (bk_db s)"
  "checkpoints (bk_db (fst (update_expense s u w i p6))) = checkpoints (bk_db s)"
  "checkpoints (bk_db (fst (delete_expense s u w i))) = checkpoints (bk_db s)"
  "checkpoints (bk_db (fst (create_category katlama s u w ad kart))) = checkpoints (bk_db s)"
  "checkpoints (bk_db (fst (update_category s u w i p9))) = checkpoints (bk_db s)"
  "checkpoints (bk_db (fst (delete_category katlama s u w i h))) = checkpoints (bk_db s)"
  by (simp_all add: create_account_def update_account_def delete_account_def create_income_def update_income_def
      delete_income_def create_expense_def update_expense_def delete_expense_def create_category_def
      update_category_def delete_category_def Let_def split: option.split)

lemma checkpoint_patched_rank:
  "kp_priority p = None \<Longrightarrow> kp_type p = None \<Longrightarrow> red_line_1 (checkpoint_patched p c) = red_line_1 c"
  by (simp add: red_line_1_def checkpoint_patched_def put_some_keeps [where g = cp_priority] put_some_keeps [where g = cp_type]
      put_keeps [where g = cp_priority] put_keeps [where g = cp_type])

text \<open>What a checkpoint request does to the row \<open>c\<close>.\<close>

lemma protected_request:
  assumes K: "distinct (map cp_id (checkpoints (bk_db s)))" and c: "c \<in> set (checkpoints (bk_db s))" "cp_protected c"
  shows "\<exists>c' \<in> set (checkpoints (bk_db (fst (create_checkpoint s u w p)))). cp_id c' = cp_id c \<and> cp_protected c'"
    "\<exists>c' \<in> set (checkpoints (bk_db (fst (update_checkpoint s u w i q)))). cp_id c' = cp_id c \<and> cp_protected c'"
    "\<exists>c' \<in> set (checkpoints (bk_db (fst (delete_checkpoint s u w i hard)))). cp_id c' = cp_id c \<and> cp_protected c'"
proof -
  have stay: "\<exists>c' \<in> set (upd_row cp_id j f (checkpoints (bk_db s))). cp_id c' = cp_id c \<and> cp_protected c'"
    if "cp_id (f c) = cp_id c" "cp_id c = j \<Longrightarrow> cp_protected (f c)" for f j
    using c that by (cases "cp_id c = j") (auto simp: set_upd_row intro: rev_bexI)
  have same: "x = c" if "query_checkpoint u w i (checkpoints (bk_db s)) = Some x" "cp_id x = cp_id c \<or> cp_id c = i" for x
    using find_Some_prop [OF that(1) [unfolded query_checkpoint_def]] that(2) c(1) K
    by (auto simp: distinct_map dest: inj_onD)
  show "\<exists>c' \<in> set (checkpoints (bk_db (fst (create_checkpoint s u w p)))). cp_id c' = cp_id c \<and> cp_protected c'"
    using c by (auto simp: create_checkpoint_def Let_def)
  show "\<exists>c' \<in> set (checkpoints (bk_db (fst (update_checkpoint s u w i q)))). cp_id c' = cp_id c \<and> cp_protected c'"
  proof (cases "fst (update_checkpoint s u w i q) = s")
    case False
    then obtain x where x: "query_checkpoint u w i (checkpoints (bk_db s)) = Some x"
      by (auto simp: update_checkpoint_def Let_def split: option.splits if_splits)
    then have eq: "checkpoints (bk_db (fst (update_checkpoint s u w i q))) =
        upd_row cp_id (cp_id x) (checkpoint_patched q) (checkpoints (bk_db s))"
      and n: "red_line_1 x \<Longrightarrow> kp_priority q = None \<and> kp_type q = None"
      using False by (auto simp: update_checkpoint_def Let_def split: if_splits)
    show ?thesis unfolding eq
    proof (rule stay)
      assume "cp_id c = cp_id x"
      then have "x = c" using same [OF x] by simp
      then show "cp_protected (checkpoint_patched q c)" using n c(2) checkpoint_patched_rank
        by (auto simp: cp_protected_def)
    qed simp
  qed (use c in auto)
  show "\<exists>c' \<in> set (checkpoints (bk_db (fst (delete_checkpoint s u w i hard)))). cp_id c' = cp_id c \<and> cp_protected c'"
  proof (cases "query_checkpoint u w i (checkpoints (bk_db s))")
    case None
    then show ?thesis using c by (auto simp: delete_checkpoint_def Let_def)
  next
    case (Some x)
    have soft: "\<exists>c' \<in> set (upd_row cp_id (cp_id x) (\<lambda>c. c\<lparr>cp_active := False\<rparr>) (checkpoints (bk_db s))).
        cp_id c' = cp_id c \<and> cp_protected c'"
      by (rule stay) (use c(2) in \<open>simp_all add: cp_protected_def red_line_1_def\<close>)
    have "cp_protected x" if "cp_id c = i" using same [OF Some] that c(2) by blast
    then show ?thesis using Some soft c by (auto simp: delete_checkpoint_def Let_def set_del_row)
  qed
qed

text \<open>A system checkpoint or a priority-one red line cannot be got rid of: over any requests of any users it
  stays in the table and stays protected; it can only be deactivated or reworded.\<close>

theorem protected_checkpoints_stay:
  assumes "books_inv s" "record_run katlama s s'" "c \<in> set (checkpoints (bk_db s))" "cp_protected c"
  shows "\<exists>c' \<in> set (checkpoints (bk_db s')). cp_id c' = cp_id c \<and> cp_protected c'"
proof -
  have "books_inv s' \<and> (\<exists>c' \<in> set (checkpoints (bk_db s')). cp_id c' = cp_id c \<and> cp_protected c')"
    using assms(2) unfolding record_run_def
  proof (induction rule: rtranclp_induct)
    case base
    then show ?case using assms(1,3,4) by blast
  next
    case (step y z)
    from step.hyps(2) show ?case
    proof cases
      case (serve now u w rq r)
      then have z: "z = fst (serve_record katlama now y u w rq)" by simp
      from step.IH obtain x where x: "x \<in> set (checkpoints (bk_db y))" "cp_id x = cp_id c" "cp_protected x" by blast
      have K: "distinct (map cp_id (checkpoints (bk_db y)))" using step.IH by (simp add: books_inv_def keys_ok_def Let_def)
      have "\<exists>c' \<in> set (checkpoints (bk_db z)). cp_id c' = cp_id x \<and> cp_protected c'"
        unfolding z using protected_request [OF K x(1,3)] x(1,3)
        by (cases rq) (auto simp: serve_record_def checkpoints_elsewhere request_elsewhere)
      then show ?thesis using books_inv_serve [of y] step.IH z x(2) by auto
    qed
  qed
  then show ?thesis by blast
qed

subsection \<open>Deleting a category\<close>

definition spent :: "nat \<Rightarrow> nat option \<Rightarrow> string \<Rightarrow> transaction list \<Rightarrow> rat" where
  "spent u w x ts = (\<Sum>t\<leftarrow>filter (\<lambda>t. tx_in_scope u w t \<and> tx_category t = Some x) ts. tx_amount t)"

lemma spent_move_tx:
  "src \<noteq> dst \<Longrightarrow> x \<noteq> src \<Longrightarrow>
   spent u w x (move_tx u w src dst ts) = spent u w x ts + (if x = dst then spent u w src ts else 0)"
proof (induction ts)
  case (Cons t ts)
  have "spent u w y (t' # ts') = (if tx_in_scope u w t' \<and> tx_category t' = Some y then tx_amount t' else 0) + spent u w y ts'"
    for y t' ts' by (simp add: spent_def)
  moreover have "move_tx u w src dst (t # ts) =
      (if tx_in_scope u w t \<and> tx_category t = Some src then t\<lparr>tx_category := Some dst\<rparr> else t) # move_tx u w src dst ts"
    by (simp add: move_tx_def)
  ultimately show ?case using Cons by simp
qed (simp add: spent_def move_tx_def)

lemma move_tx_gone:
  "src \<noteq> dst \<Longrightarrow> \<forall>t \<in> set (move_tx u w src dst ts). \<not> (tx_in_scope u w t \<and> tx_category t = Some src)"
  by (auto simp: move_tx_def)

lemma move_tx_rest: "map (\<lambda>t. t\<lparr>tx_category := None\<rparr>) (move_tx u w src dst ts) = map (\<lambda>t. t\<lparr>tx_category := None\<rparr>) ts"
  by (simp add: move_tx_def)

lemma unused_category:
  assumes "kullanim_sayisi sl u w ts = 0"
  shows "\<forall>t \<in> set ts. \<not> (tx_in_scope u w t \<and> tx_category t = Some sl)" "spent u w sl ts = 0"
  using assms by (simp_all add: kullanim_sayisi_def spent_def filter_empty_conv)


subsection \<open>Refusals\<close>

text \<open>The rows of a scope can be put into a response.\<close>

definition servable :: "nat \<Rightarrow> nat option \<Rightarrow> books \<Rightarrow> bool" where
  "servable u w s \<longleftrightarrow> (\<forall>a \<in> set (accounts (bk_db s)). acc_in_scope u w a \<longrightarrow> account_ok a) \<and>
     (\<forall>r \<in> set (incomes (bk_db s)). scope_filter u w (ri_user r) (ri_ws r) \<longrightarrow> income_ok r) \<and>
     (\<forall>r \<in> set (expenses (bk_db s)). scope_filter u w (re_user r) (re_ws r) \<longrightarrow> expense_ok r) \<and>
     (\<forall>c \<in> set (checkpoints (bk_db s)). scope_filter u w (cp_user c) (cp_ws c) \<longrightarrow> checkpoint_ok c)"

lemma upd_row_in: "r \<in> set rs \<Longrightarrow> f r \<in> set (upd_row key (key r) f rs)"
  by (auto simp: set_upd_row)

lemma account_refused:
  "create_account now s u w p = (s', Inl err) \<Longrightarrow> s' = s \<or> err = Server_Error \<and> \<not> servable u w s'"
  "update_account now s u w i q = (s', Inl err) \<Longrightarrow> s' = s \<or> err = Server_Error \<and> \<not> servable u w s'"
  "delete_account s u w i = (s', Inl err) \<Longrightarrow> s' = s"
proof -
  show "s' = s \<or> err = Server_Error \<and> \<not> servable u w s'" if "create_account now s u w p = (s', Inl err)"
    using that by (auto simp: create_account_def serve_row_def servable_def Let_def account_row_def split: if_splits option.splits)
  show "s' = s \<or> err = Server_Error \<and> \<not> servable u w s'" if e: "update_account now s u w i q = (s', Inl err)"
  proof (cases "s' = s")
    case False
    then obtain a where a: "query_account u w i (accounts (bk_db s)) = Some a" "\<not> account_ok (account_patched now q a)"
      "err = Server_Error" "accounts (bk_db s') = upd_row acc_id (acc_id a) (account_patched now q) (accounts (bk_db s))"
      using e by (auto simp: update_account_def serve_row_def Let_def split: option.splits if_splits)
    then have "account_patched now q a \<in> set (accounts (bk_db s'))" "acc_in_scope u w (account_patched now q a)"
      using query_account_Some [OF a(1)] upd_row_in [of a _ "account_patched now q" acc_id] by simp_all
    then show ?thesis using a(2,3) by (auto simp: servable_def)
  qed simp
  show "s' = s" if "delete_account s u w i = (s', Inl err)"
    using that by (auto simp: delete_account_def Let_def split: option.splits if_splits)
qed

lemma income_refused:
  "create_income s u w p = (s', Inl err) \<Longrightarrow> s' = s"
  "update_income s u w i q = (s', Inl err) \<Longrightarrow> s' = s \<or> err = Server_Error \<and> \<not> servable u w s'"
  "delete_income s u w i = (s', Inl err) \<Longrightarrow> s' = s"
proof -
  show "s' = s" if "create_income s u w p = (s', Inl err)"
    using that by (auto simp: create_income_def serve_row_def Let_def split: if_splits)
  show "s' = s \<or> err = Server_Error \<and> \<not> servable u w s'" if e: "update_income s u w i q = (s', Inl err)"
  proof (cases "s' = s")
    case False
    then obtain a where a: "query_income u w i (incomes (bk_db s)) = Some a" "\<not> income_ok (income_patched q a)"
      "err = Server_Error" "incomes (bk_db s') = upd_row ri_id (ri_id a) (income_patched q) (incomes (bk_db s))"
      using e by (auto simp: update_income_def serve_row_def Let_def split: option.splits if_splits)
    then have "income_patched q a \<in> set (incomes (bk_db s'))"
        "scope_filter u w (ri_user (income_patched q a)) (ri_ws (income_patched q a))"
      using incs.found [OF a(1) [unfolded query_income_def]] upd_row_in [of a _ "income_patched q" ri_id] by simp_all
    then show ?thesis using a(2,3) by (auto simp: servable_def)
  qed simp
  show "s' = s" if "delete_income s u w i = (s', Inl err)"
    using that by (auto simp: delete_income_def Let_def split: option.splits)
qed

lemma expense_refused:
  "create_expense s u w p = (s', Inl err) \<Longrightarrow> s' = s"
  "update_expense s u w i q = (s', Inl err) \<Longrightarrow> s' = s \<or> err = Server_Error \<and> \<not> servable u w s'"
  "delete_expense s u w i = (s', Inl err) \<Longrightarrow> s' = s"
proof -
  show "s' = s" if "create_expense s u w p = (s', Inl err)"
    using that by (auto simp: create_expense_def serve_row_def Let_def split: if_splits option.splits)
  show "s' = s \<or> err = Server_Error \<and> \<not> servable u w s'" if e: "update_expense s u w i q = (s', Inl err)"
  proof (cases "s' = s")
    case False
    then obtain a where f: "query_expense u w i (expenses (bk_db s)) = Some a"
      using e by (auto simp: update_expense_def Let_def split: option.splits if_splits)
    then have a: "\<not> expense_ok (expense_patched q a)" "err = Server_Error"
      "expenses (bk_db s') = upd_row re_id (re_id a) (expense_patched q) (expenses (bk_db s))"
      using e False by (auto simp: update_expense_def serve_row_def Let_def split: if_splits)
    then have "expense_patched q a \<in> set (expenses (bk_db s'))"
        "scope_filter u w (re_user (expense_patched q a)) (re_ws (expense_patched q a))"
      using exps.found [OF f [unfolded query_expense_def]] upd_row_in [of a _ "expense_patched q" re_id] by simp_all
    then show ?thesis using a(1,2) by (auto simp: servable_def)
  qed simp
  show "s' = s" if "delete_expense s u w i = (s', Inl err)"
    using that by (auto simp: delete_expense_def Let_def split: option.splits)
qed

lemma checkpoint_refused:
  "create_checkpoint s u w p = (s', Inl err) \<Longrightarrow> s' = s"
  "update_checkpoint s u w i q = (s', Inl err) \<Longrightarrow> s' = s \<or> err = Server_Error \<and> \<not> servable u w s'"
  "delete_checkpoint s u w i hard = (s', Inl err) \<Longrightarrow> s' = s"
proof -
  show "s' = s" if "create_checkpoint s u w p = (s', Inl err)"
    using that by (auto simp: create_checkpoint_def serve_row_def Let_def split: if_splits)
  show "s' = s \<or> err = Server_Error \<and> \<not> servable u w s'" if e: "update_checkpoint s u w i q = (s', Inl err)"
  proof (cases "s' = s")
    case False
    then obtain a where a: "query_checkpoint u w i (checkpoints (bk_db s)) = Some a" "\<not> checkpoint_ok (checkpoint_patched q a)"
      "err = Server_Error" "checkpoints (bk_db s') = upd_row cp_id (cp_id a) (checkpoint_patched q) (checkpoints (bk_db s))"
      using e by (auto simp: update_checkpoint_def serve_row_def Let_def split: option.splits if_splits)
    then have "checkpoint_patched q a \<in> set (checkpoints (bk_db s'))"
        "scope_filter u w (cp_user (checkpoint_patched q a)) (cp_ws (checkpoint_patched q a))"
      using chks.found [OF a(1) [unfolded query_checkpoint_def]] upd_row_in [of a _ "checkpoint_patched q" cp_id] by simp_all
    then show ?thesis using a(2,3) by (auto simp: servable_def)
  qed simp
  show "s' = s" if "delete_checkpoint s u w i hard = (s', Inl err)"
    using that by (auto simp: delete_checkpoint_def Let_def split: option.splits if_splits)
qed

lemma other_refused:
  "create_envelope s u w c x = (s', Inl err) \<Longrightarrow> s' = s" "update_envelope s u w i p1 = (s', Inl err) \<Longrightarrow> s' = s"
  "delete_envelope s u w i = (s', Inl err) \<Longrightarrow> s' = s" "add_wishlist now s u w t x = (s', Inl err) \<Longrightarrow> s' = s"
  "resolve_wishlist now s u w i st = (s', Inl err) \<Longrightarrow> s' = s" "create_category katlama s u w ad kart = (s', Inl err) \<Longrightarrow> s' = s"
  "update_category s u w i p2 = (s', Inl err) \<Longrightarrow> s' = s" "delete_category katlama s u w i h = (s', Inl err) \<Longrightarrow> s' = s"
  by (auto simp: create_envelope_def update_envelope_def delete_envelope_def add_wishlist_def resolve_wishlist_def
      create_category_def update_category_def delete_category_def Let_def split: option.splits if_splits)

text \<open>C33: A refused request changes nothing, with one exception: the status 500 of a response that cannot be
  built, when the row was stored and a row of the scope can no longer be served.\<close>

theorem records_refusals:
  assumes "serve_record katlama now s u w rq = (s', Inl err)"
  shows "s' = s \<or> err = Server_Error \<and> \<not> servable u w s'"
  using assms
  by (cases rq) (auto simp: serve_record_def dest: account_refused income_refused expense_refused checkpoint_refused other_refused)

subsection \<open>Examples\<close>

definition ex_red_line :: master_checkpoint where
  "ex_red_line = \<lparr>cp_id = 1, cp_user = 7, cp_ws = Some 3, cp_title = ''MC1'', cp_description = ''emanet'',
     cp_type = Red_Line, cp_priority = 1, cp_active = True, cp_system = False, cp_rule_type = None, cp_rule_params = None\<rparr>"

definition ex_cat :: "nat \<Rightarrow> string \<Rightarrow> category" where
  "ex_cat i sl = \<lparr>cat_id = i, cat_user = 7, cat_ws = Some 3, slug = sl, kart_varsayilani = False, sistem = False,
     gizli = False\<rparr>"

definition ex_spending :: "nat \<Rightarrow> string \<Rightarrow> transaction" where
  "ex_spending i sl = \<lparr>tx_id = i, tx_user = 7, tx_ws = Some 3, tx_account = Some 1, tx_type = Expense, tx_amount = 10,
     tx_category = Some sl, tx_description = None, tx_date = Date 2026 9 1, is_card_expense = False\<rparr>"

definition ex_env_row :: "nat \<Rightarrow> nat option \<Rightarrow> string \<Rightarrow> envelope" where
  "ex_env_row i w c = \<lparr>en_id = i, en_user = 7, en_ws = w, en_category = c, en_amount = 100, en_active = True\<rparr>"

definition ex_fixed :: recurring_expense where
  "ex_fixed = \<lparr>re_id = 1, re_user = 7, re_ws = Some 3, re_name = ''kira'', re_amount = 50, re_account = Some 1,
     re_category = None, re_day = 5, re_active = True, re_last_triggered = None\<rparr>"

text \<open>User 7 in the workspace 3, and an envelope of the same user in the workspace 4.\<close>

definition ex_books :: books where
  "ex_books = \<lparr>bk_db = empty_db\<lparr>accounts := [ex_cash, ex_cash\<lparr>acc_id := 2, acc_name := ''E'', is_emanet := True\<rparr>],
       transactions := [ex_spending 1 ''kahve'', ex_spending 2 ''yemek''], expenses := [ex_fixed],
       categories := [ex_cat 1 ''kahve'', ex_cat 2 ''yemek'', ex_cat 3 ''oyun''], checkpoints := [ex_red_line]\<rparr>,
     bk_envelopes = [ex_env_row 1 (Some 3) ''oyun'', ex_env_row 2 (Some 4) ''yemek''], bk_wishes = []\<rparr>"

lemma ex_books_inv: "books_inv ex_books"
  by (simp add: books_inv_def keys_ok_def Let_def refs_ok_def refers_def ex_books_def ex_cash_def ex_cat_def ex_env_row_def
      shelf_def ex_spending_def ex_fixed_def)

definition no_account_patch :: account_patch where
  "no_account_patch = \<lparr>ap_name = None, ap_balance = None, ap_credit_limit = None, ap_statement_day = None, ap_payment_day = None,
     ap_statement_balance = None, ap_min_payment_ratio = None, ap_interest_rate = None, ap_monthly_payment = None,
     ap_remaining = None, ap_early_payoff = None, ap_next_payment = None, ap_fund_code = None, ap_lot_count = None,
     ap_cost_per_lot = None, ap_current_price = None, ap_emanet = None\<rparr>"

definition no_expense_patch :: expense_patch where
  "no_expense_patch = \<lparr>ep_name = None, ep_amount = None, ep_account = None, ep_category = None, ep_day = None, ep_active = None\<rparr>"

definition no_checkpoint_patch :: checkpoint_patch where
  "no_checkpoint_patch = \<lparr>kp_title = None, kp_description = None, kp_type = None, kp_priority = None, kp_active = None,
     kp_rule_type = None, kp_rule_params = None\<rparr>"

lemma record_run_one: "record_run katlama s (fst (serve_record katlama now s u w rq))"
proof -
  have "record_step katlama s (fst (serve_record katlama now s u w rq))"
    by (rule record_step.serve [of _ now s u w rq _ "snd (serve_record katlama now s u w rq)"]) simp
  then show ?thesis unfolding record_run_def by (rule r_into_rtranclp)
qed

lemma records_isolated_witness:
  "beyond 7 (Some 3) (fst (serve_record id 0 ex_books 7 (Some 3) (Drop_Category 1 (Some ''yemek'')))) = beyond 7 (Some 3) ex_books"
  by (rule records_isolated [OF _ prod.collapse [symmetric]]) (use ex_books_inv in \<open>simp add: books_inv_def\<close>)

lemma records_well_formed_witness:
  "books_inv (fst (serve_record id 0 ex_books 7 (Some 3) (Drop_Category 1 (Some ''yemek''))))"
  by (rule records_well_formed [OF ex_books_inv record_run_one])

lemma protected_checkpoints_stay_witness:
  "\<exists>c' \<in> set (checkpoints (bk_db (fst (serve_record id 0 ex_books 7 (Some 3) (Drop_Checkpoint 1 True))))).
     cp_id c' = 1 \<and> cp_protected c'"
proof -
  have "record_run id ex_books (fst (serve_record id 0 ex_books 7 (Some 3) (Drop_Checkpoint 1 True)))"
    by (rule record_run_one)
  from protected_checkpoints_stay [OF ex_books_inv this, of ex_red_line] show ?thesis
    by (simp add: ex_books_def ex_red_line_def cp_protected_def red_line_1_def)
qed


lemma records_refusals_witness:
  "fst (serve_record id 0 ex_books 7 (Some 3) (Drop_Account 2)) = ex_books"
proof -
  have r: "snd (serve_record id 0 ex_books 7 (Some 3) (Drop_Account 2)) = Inl Forbidden" by code_simp
  then have "serve_record id 0 ex_books 7 (Some 3) (Drop_Account 2) =
      (fst (serve_record id 0 ex_books 7 (Some 3) (Drop_Account 2)), Inl Forbidden)" by (simp add: prod_eq_iff)
  from records_refusals [OF this] show ?thesis by simp
qed

text \<open>An emanet account that cannot be deleted loses the flag to a patch and is deleted then.\<close>

lemma emanet_deleted_in_two_steps:
  "let s1 = fst (update_account 0 ex_books 7 (Some 3) 2 (no_account_patch\<lparr>ap_emanet := Some (Some False)\<rparr>))
   in snd (delete_account ex_books 7 (Some 3) 2) = Inl Forbidden \<and> snd (delete_account s1 7 (Some 3) 2) = Inr 2"
  by code_simp

text \<open>A null account is accepted for an expense and stored, but the response model has no null: the
  request answers 500, and so does the list of the expenses from then on.\<close>

lemma null_account_breaks_listing:
  "let (s1, r) = update_expense ex_books 7 (Some 3) 1 (no_expense_patch\<lparr>ep_account := Some None\<rparr>)
   in r = Inl Server_Error \<and> map re_account (expenses (bk_db s1)) = [None] \<and>
      list_expenses s1 7 (Some 3) False = Inl Server_Error"
  by code_simp

text \<open>An update does not check the rule of a checkpoint as its creation does. A rule without its parameter is
  stored and the list of checkpoints fails; and with an amount of null every approval in the workspace raises.\<close>

definition ex_bad_rule :: checkpoint_patch where
  "ex_bad_rule = no_checkpoint_patch\<lparr>kp_rule_type := Some (Some ''max_single_expense''),
     kp_rule_params := Some (Some \<lparr>rp_amount = Some J_Else, rp_account = None\<rparr>)\<rparr>"

lemma unchecked_rule_breaks_listing:
  "let (s1, r) = update_checkpoint ex_books 7 (Some 3) 1 ex_bad_rule
   in r = Inl Server_Error \<and> list_checkpoints s1 7 (Some 3) True None = Inl Server_Error"
  by code_simp

lemma unchecked_rule_blocks_approvals:
  "let d = bk_db (fst (update_checkpoint ex_books 7 (Some 3) 1 ex_bad_rule)); s = \<lparr>tables = d, pendings = [ex_pending]\<rparr>;
       (s', r) = execute_pending_action ex_env s (pa_id ex_pending) 7
   in r = Inl Crashed \<and> map pa_status (pendings s') = [Approved]"
  by code_simp

text \<open>One envelope per user and category: the second workspace of a user cannot have it.\<close>

lemma envelope_in_second_workspace:
  "snd (create_envelope ex_books 7 (Some 5) ''oyun'' 100) = Inl Server_Error"
  by code_simp

text \<open>A category without transactions is deleted, its envelope stays; one with transactions cannot be merged
  into a category for which the user has an envelope elsewhere.\<close>

lemma category_deletion_and_envelopes:
  "map en_category (bk_envelopes (fst (delete_category id ex_books 7 (Some 3) 3 None))) = [''oyun'', ''yemek'']"
  "snd (delete_category id (ex_books\<lparr>bk_envelopes := [ex_env_row 1 (Some 3) ''kahve'', ex_env_row 2 (Some 4) ''yemek'']\<rparr>)
     7 (Some 3) 1 (Some ''yemek'')) = Inl Server_Error"
  by code_simp+

end
