(* ===== verification/Insights.thy ===== *)
theory Insights
  imports Texts Action_Executor Cockpit
begin

text \<open>
  What the coach remembers of a user: app/coach_insights.py (the table of insights, its nine extractors
  and the block written into the prompt), app/insight_schema.py and \<open>save_insight_action\<close> of
  app/coach.py (what the model itself asks to remember).

  The tables the extractors read are the record \<open>history\<close>; their clock is \<open>clock\<close>, with the UTC date
  and the local hour of a UTC time. The wording of a title is kept where it is the key of a row; the text
  of an insight is kept as the figures it states. Ratios are rationals: a quotient of two counts and a
  threshold with two decimals compare as their doubles do. The folding of Turkish letters and the
  expressions that recognise a red line are the parameters \<open>text_rules\<close>. The figures an extractor returns
  for the log are left out.
\<close>

subsection \<open>The table\<close>

datatype insight_type =
    Action_Rejection_Pattern | Category_Account_Preference | Explicit_Red_Line | Breakthrough | Setback
  | Mc_Reference_Frequency | Question_Typology | Decision_Rhythm | Kullanici_Beyani

datatype basis = Data_Grounded | Mc_Rule | Pattern_Grounded | User_Stated

datatype source_ref = Action_History nat | Coach_Memory nat | K2_Batch int | K2_Category string | K2_Confidence string

datatype insight_text =
    Rhythm_Text nat nat string
  | Mc_Used_Text nat nat nat
  | Mc_Unused_Text nat
  | Oars_Text nat nat nat
  | Preference_Text string nat nat nat
  | Rejection_Text string nat nat
  | Change_Text rat rat nat
  | Red_Line_Text string string
  | Implied_Text string "string list" string
  | Said string

text \<open>\<open>in_refs\<close> is \<open>None\<close> where the column is empty or holds the figures as a dictionary, not a list.\<close>

record insight =
  in_id :: nat
  in_user :: nat
  in_type :: "insight_type option"
  in_title :: "string option"
  in_text :: insight_text
  in_basis :: "basis option"
  in_refs :: "source_ref list option"
  in_evidence :: nat
  in_counter :: nat
  in_evidence_at :: "int option"
  in_counter_at :: "int option"
  in_status :: insight_status
  in_activated :: "int option"
  in_seen :: "int option"
  in_archived :: "int option"
  in_priority :: nat
  in_dedup :: "string option"
  in_category :: "string option"
  in_onem :: string
  in_expires :: "date option"

datatype coach_role = Role_User | Role_Assistant | Role_Tool

record stored_call =
  sc_id :: "string option"
  sc_name :: "string option"

text \<open>\<open>cm_calls\<close> is the JSON of the tool calls, \<open>Some None\<close> where it does not parse; \<open>cm_actions\<close> the ids of the
  proposals, \<open>None\<close> where the column is empty or does not parse.\<close>

record coach_memory =
  cm_id :: nat
  cm_user :: nat
  cm_role :: coach_role
  cm_content :: string
  cm_calls :: "stored_call list option option"
  cm_call_id :: "string option"
  cm_actions :: "nat list option"
  cm_time :: int

record action_log =
  al_id :: nat
  al_user :: nat
  al_applied :: int
  al_success :: bool

text \<open>A pending action comes with its creation time.\<close>

record history =
  hi_db :: db
  hi_actions :: "action_log list"
  hi_memories :: "coach_memory list"
  hi_pendings :: "(pending_action \<times> int) list"
  hi_snaps :: "nw_snapshot list"

record clock =
  simdi :: int
  bugun :: date
  yerel_saat :: "int \<Rightarrow> nat"

datatype erl_category = Mutlak_Red | Niyet_Beyani | Vaat | Kesin_Red | Acik_Sinir

record text_rules =
  tr_normalize :: "string \<Rightarrow> string"
  erl_search :: "erl_category \<Rightarrow> string \<Rightarrow> (nat \<times> nat) option"
  erl_financial :: "string \<Rightarrow> bool"

definition day_s :: int where "day_s = 86400"

definition is_key :: "nat \<Rightarrow> insight_type \<Rightarrow> string \<Rightarrow> insight \<Rightarrow> bool" where
  "is_key u ty title r \<longleftrightarrow> in_user r = u \<and> in_type r = Some ty \<and> in_title r = Some title"

definition upd_key :: "nat \<Rightarrow> insight_type \<Rightarrow> string \<Rightarrow> (insight \<Rightarrow> insight) \<Rightarrow> insight list \<Rightarrow> insight list" where
  "upd_key u ty title f t = map (\<lambda>r. if is_key u ty title r then f r else r) t"

definition new_insight :: "nat \<Rightarrow> int \<Rightarrow> nat \<Rightarrow> insight_type \<Rightarrow> string \<Rightarrow> insight_text \<Rightarrow> basis \<Rightarrow> source_ref list option \<Rightarrow>
    nat \<Rightarrow> nat \<Rightarrow> insight" where
  "new_insight i now u ty title txt b refs evidence priority =
     \<lparr>in_id = i, in_user = u, in_type = Some ty, in_title = Some title, in_text = txt, in_basis = Some b,
      in_refs = refs, in_evidence = evidence, in_counter = 0, in_evidence_at = None, in_counter_at = None,
      in_status = St_Active, in_activated = Some now, in_seen = Some now, in_archived = None,
      in_priority = priority, in_dedup = None, in_category = None, in_onem = ''normal'', in_expires = None\<rparr>"

definition check_and_invalidate :: "int \<Rightarrow> nat \<Rightarrow> insight_type \<Rightarrow> string \<Rightarrow> insight list \<Rightarrow> insight list" where
  "check_and_invalidate now u ty title t = upd_key u ty title (\<lambda>r.
     if in_status r = St_Active \<and> 3 \<le> in_counter r \<and> in_evidence r \<le> 2 * in_counter r
     then r\<lparr>in_status := St_Invalidated, in_archived := Some now\<rparr> else r) t"

text \<open>\<open>INSERT ... ON CONFLICT DO UPDATE\<close>: the status and the basis of an existing row stay.\<close>

definition save_or_update_insight :: "int \<Rightarrow> nat \<Rightarrow> insight_type \<Rightarrow> string \<Rightarrow> insight_text \<Rightarrow> basis \<Rightarrow> source_ref list \<Rightarrow>
    bool \<Rightarrow> nat \<Rightarrow> insight list \<Rightarrow> insight list" where
  "save_or_update_insight now u ty title txt b refs supporting priority t =
     (let ev = (if supporting then 1 else 0); co = (if supporting then 0 else 1);
          t1 = (if list_ex (is_key u ty title) t
            then upd_key u ty title (\<lambda>r. r\<lparr>in_text := txt, in_evidence := in_evidence r + ev,
                   in_counter := in_counter r + co,
                   in_evidence_at := (if supporting then Some now else in_evidence_at r),
                   in_counter_at := (if supporting then in_counter_at r else Some now),
                   in_seen := Some now, in_refs := Some refs, in_priority := priority\<rparr>) t
            else t @ [(new_insight (next_key in_id t) now u ty title txt b (Some refs) ev priority)
                        \<lparr>in_counter := co, in_evidence_at := (if supporting then Some now else None),
                         in_counter_at := (if supporting then None else Some now)\<rparr>])
      in check_and_invalidate now u ty title t1)"

definition upsert_insight_absolute :: "int \<Rightarrow> nat \<Rightarrow> insight_type \<Rightarrow> string \<Rightarrow> insight_text \<Rightarrow> basis \<Rightarrow> nat \<Rightarrow> nat \<Rightarrow>
    insight_status \<Rightarrow> insight list \<Rightarrow> insight list" where
  "upsert_insight_absolute now u ty title txt b evidence priority st t =
     (if list_ex (is_key u ty title) t
      then upd_key u ty title (\<lambda>r. r\<lparr>in_text := txt, in_evidence := evidence, in_refs := None, in_seen := Some now,
             in_evidence_at := (if 0 < evidence then Some now else in_evidence_at r),
             in_priority := priority, in_status := st\<rparr>) t
      else t @ [(new_insight (next_key in_id t) now u ty title txt b None evidence priority)
                  \<lparr>in_evidence_at := (if 0 < evidence then Some now else None), in_status := st\<rparr>])"

definition sweep_insights_dormant :: "int \<Rightarrow> nat \<Rightarrow> insight_type \<Rightarrow> string list \<Rightarrow> insight list \<Rightarrow> insight list" where
  "sweep_insights_dormant now u ty titles t = map (\<lambda>r.
     if in_user r = u \<and> in_type r = Some ty \<and> in_status r = St_Active \<and> in_title r \<notin> Some ` set titles
     then r\<lparr>in_status := St_Dormant, in_seen := Some now, in_priority := 1\<rparr> else r) t"

text \<open>The dormant sweep most extractors end with after they wrote what they found.\<close>

record finding =
  fi_title :: string
  fi_text :: insight_text
  fi_evidence :: nat
  fi_priority :: nat

definition write_findings :: "int \<Rightarrow> nat \<Rightarrow> insight_type \<Rightarrow> basis \<Rightarrow> insight_status \<Rightarrow> finding list \<Rightarrow> insight list \<Rightarrow> insight list" where
  "write_findings now u ty b st fs t = fold (\<lambda>f.
     upsert_insight_absolute now u ty (fi_title f) (fi_text f) b (fi_evidence f) (fi_priority f) st) fs t"

subsection \<open>Rhythm of decisions\<close>

definition time_slots :: "(string \<times> nat \<times> nat) list" where
  "time_slots = [(''gece'', 0, 6), (''sabah'', 6, 12), (''ogle'', 12, 18), (''aksam'', 18, 24)]"

definition classify_hour_to_slot :: "nat \<Rightarrow> string" where
  "classify_hour_to_slot h =
     (case List.find (\<lambda>(s, a, b). a \<le> h \<and> h < b) time_slots of Some (s, _) \<Rightarrow> s | None \<Rightarrow> ''gece'')"

text \<open>\<open>max(xs, key=f)\<close>: the first of the largest.\<close>

fun max_by :: "('a \<Rightarrow> nat) \<Rightarrow> 'a \<Rightarrow> 'a list \<Rightarrow> 'a" where
  "max_by f x [] = x"
| "max_by f x (y # ys) = max_by f (if f x < f y then y else x) ys"

definition recent_actions :: "clock \<Rightarrow> nat \<Rightarrow> history \<Rightarrow> action_log list" where
  "recent_actions c u h = filter (\<lambda>a. al_user a = u \<and> simdi c - 30 * day_s \<le> al_applied a \<and> al_success a) (hi_actions h)"

definition slot_of :: "clock \<Rightarrow> action_log \<Rightarrow> string" where
  "slot_of c a = classify_hour_to_slot (yerel_saat c (al_applied a))"

definition rhythm_title :: "string \<Rightarrow> string" where
  "rhythm_title s = ''Buyuk kararlarin cogu '' @ s @ '' dilminde''"

definition extract_decision_rhythm :: "clock \<Rightarrow> nat \<Rightarrow> history \<Rightarrow> insight list \<Rightarrow> insight list" where
  "extract_decision_rhythm c u h t =
     (let as = recent_actions c u h; total = length as;
          count = (\<lambda>s. length (filter (\<lambda>a. slot_of c a = s) as));
          s = max_by count ''gece'' [''sabah'', ''ogle'', ''aksam'']
      in if total < 5 then t
         else if rat_of_nat (count s) / rat_of_nat total < 2 / 5
              then sweep_insights_dormant (simdi c) u Decision_Rhythm [] t
         else sweep_insights_dormant (simdi c) u Decision_Rhythm [rhythm_title s]
                (save_or_update_insight (simdi c) u Decision_Rhythm (rhythm_title s)
                   (Rhythm_Text total (count s) s) Pattern_Grounded
                   (map (\<lambda>a. Action_History (al_id a)) (take 10 (filter (\<lambda>a. slot_of c a = s) as))) True 4 t))"

subsection \<open>References to the rules\<close>

definition assistant_messages :: "clock \<Rightarrow> nat \<Rightarrow> history \<Rightarrow> coach_memory list" where
  "assistant_messages c u h =
     filter (\<lambda>m. cm_user m = u \<and> cm_role m = Role_Assistant \<and> simdi c - 30 * day_s \<le> cm_time m) (hi_memories h)"

text \<open>\<open>\bMC([1-8])\b\<close>: the words \<open>MC1\<close> to \<open>MC8\<close>.\<close>

definition mc_name :: "nat \<Rightarrow> string" where "mc_name n = ''MC'' @ str_of_nat n"

definition mc_count :: "coach_memory list \<Rightarrow> nat \<Rightarrow> nat" where
  "mc_count ms n = sum_list (map (\<lambda>m. length (filter (\<lambda>w. w = mc_name n) (words (cm_content m)))) ms)"

definition mc_ranked :: "coach_memory list \<Rightarrow> nat list" where
  "mc_ranked ms = sort_key (\<lambda>n. - int (mc_count ms n)) [1..<9]"

definition mc_used_title :: "nat \<Rightarrow> string" where
  "mc_used_title n = mc_name n @ '' sik referans verilen kural''"

definition mc_unused_title :: "nat \<Rightarrow> string" where
  "mc_unused_title n = mc_name n @ '' hic kullanilmayan kural''"

definition mc_dominant :: "coach_memory list \<Rightarrow> finding list" where
  "mc_dominant ms = map (\<lambda>(n, rank). \<lparr>fi_title = mc_used_title n, fi_text = Mc_Used_Text n (mc_count ms n) rank,
       fi_evidence = mc_count ms n, fi_priority = 10\<rparr>)
     (filter (\<lambda>(n, rank). mc_count ms n \<noteq> 0) (zip (take 3 (mc_ranked ms)) [1..<4]))"

definition mc_silent :: "coach_memory list \<Rightarrow> finding list" where
  "mc_silent ms = map (\<lambda>n. \<lparr>fi_title = mc_unused_title n, fi_text = Mc_Unused_Text n, fi_evidence = 0, fi_priority = 1\<rparr>)
     (filter (\<lambda>n. mc_count ms n = 0) [1..<9])"

definition extract_mc_reference_frequency :: "clock \<Rightarrow> nat \<Rightarrow> history \<Rightarrow> insight list \<Rightarrow> insight list" where
  "extract_mc_reference_frequency c u h t =
     (let ms = assistant_messages c u h; ty = Mc_Reference_Frequency in
      if length ms < 10 then t
      else sweep_insights_dormant (simdi c) u ty (map fi_title (mc_dominant ms))
             (write_findings (simdi c) u ty Pattern_Grounded St_Dormant (mc_silent ms)
               (write_findings (simdi c) u ty Pattern_Grounded St_Active (mc_dominant ms) t)))"

subsection \<open>Kinds of questions\<close>

definition qt_open :: "string \<Rightarrow> bool" where
  "qt_open = word_search [''ne'', ''nasil'', ''hangi'', ''niye'', ''neden'', ''nerede'', ''nereye'', ''nereden'', ''kim'',
     ''kac'', ''ne kadar'', ''anlat'', ''tarif et'', ''aciklayabilir misin'', ''ne dusunuyorsun'', ''nelerdir''] no_word"

text \<open>\<open>\b\??$\<close> with \<open>re.MULTILINE\<close>.\<close>

definition line_end :: "string \<Rightarrow> bool" where
  "line_end r \<longleftrightarrow> r = [] \<or> hd r = CHR 0x0A"

definition question_end :: "string \<Rightarrow> bool" where
  "question_end r \<longleftrightarrow> no_word r \<and> (line_end r \<or> hd r = CHR ''?'' \<and> line_end (tl r))"

definition qt_closed :: "string \<Rightarrow> bool" where
  "qt_closed = word_search [''mi'', ''mu'', ''misin'', ''musun'', ''misiniz'', ''musunuz'', ''var mi'', ''olur mu'',
     ''degil mi'', ''olmuyor mu'', ''oldu mu'', ''yapar misin'', ''dogru mu''] question_end"

definition qt_reflection :: "string \<Rightarrow> bool" where
  "qt_reflection = word_search [''gibi gorunuyor'', ''sanki'', ''demek ki'', ''anliyorum'', ''hissediyorsun'',
     ''hissediyorsunuz'', ''fark ediyorum'', ''sezdigim'', ''sezdigin'', ''yani sen'', ''yani siz'', ''ozetle'',
     ''genel olarak''] no_word"

text \<open>\<open>re.split((?<=[.!?;])\s+, text)\<close>; \<open>cur\<close> is the sentence so far, reversed.\<close>

function split_from :: "string \<Rightarrow> string \<Rightarrow> string list" where
  "split_from cur [] = [rev cur]"
| "split_from cur (c # s) =
     (if is_space c \<and> cur \<noteq> [] \<and> hd cur \<in> set ''.!?;'' then rev cur # split_from [] (dropWhile is_space s)
      else split_from (c # cur) s)"
  by pat_completeness auto
termination
  by (relation "measure (\<lambda>(cur, s). length s)") (auto simp: le_imp_less_Suc length_dropWhile_le)

definition split_into_sentences :: "string \<Rightarrow> string list" where
  "split_into_sentences s = filter (\<lambda>p. p \<noteq> []) (map strip (split_from [] s))"

datatype sentence_class = Open_Q | Closed_Q | Reflection | Other

definition classify_sentence :: "(string \<Rightarrow> string) \<Rightarrow> string \<Rightarrow> sentence_class" where
  "classify_sentence fold_tr s =
     (let k = fold_tr s in
      if ends_with CHR ''?'' s \<or> qt_closed k then (if qt_open k then Open_Q else Closed_Q)
      else if qt_reflection k then Reflection else Other)"

definition count_class :: "(string \<Rightarrow> string) \<Rightarrow> coach_memory list \<Rightarrow> sentence_class \<Rightarrow> nat" where
  "count_class fold_tr ms k = length (filter (\<lambda>s. classify_sentence fold_tr s = k)
     (concat (map (\<lambda>m. split_into_sentences (cm_content m)) ms)))"

definition oars_low_data :: string where "oars_low_data = ''Yetersiz veri - OARS metrikleri''"
definition oars_low_open :: string where "oars_low_open = ''Dusuk acik soru orani''"
definition oars_low_rq :: string where "oars_low_rq = ''Dusuk reflection-soru orani''"
definition oars_healthy :: string where "oars_healthy = ''OARS dengesi saglikli''"

definition oars_states :: "nat \<Rightarrow> nat \<Rightarrow> nat \<Rightarrow> (string \<times> bool \<times> nat \<times> nat) list" where
  "oars_states op cl re =
     (let q = op + cl;
          low_open = rat_of_nat op / rat_of_nat q < 2 / 5; low_rq = rat_of_nat re / rat_of_nat q < 1 / 2;
          healthy = (\<not> low_open \<and> \<not> low_rq)
      in if q < 30
         then [(oars_low_data, True, q, 1), (oars_low_open, False, 0, 1), (oars_low_rq, False, 0, 1), (oars_healthy, False, 0, 1)]
         else [(oars_low_data, False, 0, 1), (oars_low_open, low_open, if low_open then cl else 0, 10),
               (oars_low_rq, low_rq, if low_rq then q else 0, 10), (oars_healthy, healthy, if healthy then q else 0, 5)])"

definition extract_question_typology :: "text_rules \<Rightarrow> clock \<Rightarrow> nat \<Rightarrow> history \<Rightarrow> insight list \<Rightarrow> insight list" where
  "extract_question_typology tr c u h t =
     (let ms = assistant_messages c u h; n = count_class (tr_normalize tr) ms in
      fold (\<lambda>(title, active, evidence, priority).
          upsert_insight_absolute (simdi c) u Question_Typology title (Oars_Text (n Open_Q) (n Closed_Q) (n Reflection))
            Data_Grounded evidence priority (if active then St_Active else St_Dormant))
        (oars_states (n Open_Q) (n Closed_Q) (n Reflection)) t)"

subsection \<open>Accounts preferred for a category, and rejected actions\<close>

definition preference_rows :: "clock \<Rightarrow> nat \<Rightarrow> nat option \<Rightarrow> history \<Rightarrow> (string \<times> nat) list" where
  "preference_rows c u w h = concat (map (\<lambda>x.
     if scope_filter u w (tx_user x) (tx_ws x) \<and> tx_type x = Expense \<and> sub_days (bugun c) 90 \<le> tx_date x
     then (case (tx_category x, tx_account x) of (Some k, Some a) \<Rightarrow> [(k, a)] | _ \<Rightarrow> []) else [])
     (transactions (hi_db h)))"

text \<open>\<open>GROUP BY\<close> leaves the order of the groups open; the first row of a group decides here.\<close>

definition category_findings :: "(string \<times> nat) list \<Rightarrow> finding list" where
  "category_findings rows = concat (map (\<lambda>k.
     let as = map snd (filter (\<lambda>r. fst r = k) rows); total = length as;
         count = (\<lambda>a. length (filter (\<lambda>x. x = a) as)); ids = remdups as;
         top = max_by count (hd ids) (tl ids)
     in if total < 5 \<or> rat_of_nat (count top) / rat_of_nat total < 7 / 10 then []
        else [\<lparr>fi_title = ''Kategori tercihi: '' @ k, fi_text = Preference_Text k top (count top) total,
               fi_evidence = count top, fi_priority = 8\<rparr>])
     (remdups (map fst rows)))"

definition extract_category_account_preference :: "clock \<Rightarrow> nat \<Rightarrow> nat option \<Rightarrow> history \<Rightarrow> insight list \<Rightarrow> insight list" where
  "extract_category_account_preference c u w h t =
     (let fs = category_findings (preference_rows c u w h); ty = Category_Account_Preference in
      sweep_insights_dormant (simdi c) u ty (map fi_title fs)
        (write_findings (simdi c) u ty Data_Grounded St_Active fs t))"

definition action_name :: "action_type \<Rightarrow> string" where
  "action_name a = (case a of Update_Account_Balance \<Rightarrow> ''update_account_balance'' | Add_Transaction \<Rightarrow> ''add_transaction''
     | Mark_Debt_Paid \<Rightarrow> ''mark_debt_paid'' | Pay_Credit_Card \<Rightarrow> ''pay_credit_card''
     | Sell_Investment \<Rightarrow> ''sell_investment'' | Update_Fund_Price \<Rightarrow> ''update_fund_price''
     | Add_Master_Checkpoint \<Rightarrow> ''add_master_checkpoint'')"

definition resolved_actions :: "clock \<Rightarrow> nat \<Rightarrow> nat option \<Rightarrow> history \<Rightarrow> pending_action list" where
  "resolved_actions c u w h = map fst (filter (\<lambda>(p, made). scope_filter u w (pa_user p) (pa_ws p) \<and>
     simdi c - 90 * day_s \<le> made \<and> pa_status p \<in> {Rejected, Executed}) (hi_pendings h))"

definition rejection_findings :: "pending_action list \<Rightarrow> finding list" where
  "rejection_findings ps = concat (map (\<lambda>k.
     let rejected = length (filter (\<lambda>p. pa_type p = k \<and> pa_status p = Rejected) ps);
         executed = length (filter (\<lambda>p. pa_type p = k \<and> pa_status p = Executed) ps); total = rejected + executed
     in if total < 5 \<or> rat_of_nat rejected / rat_of_nat total < 1 / 2 then []
        else [\<lparr>fi_title = ''Aksiyon ret pateni: '' @ action_name k, fi_text = Rejection_Text (action_name k) rejected executed,
               fi_evidence = rejected, fi_priority = 9\<rparr>])
     (remdups (map pa_type ps)))"

definition extract_action_rejection_pattern :: "clock \<Rightarrow> nat \<Rightarrow> nat option \<Rightarrow> history \<Rightarrow> insight list \<Rightarrow> insight list" where
  "extract_action_rejection_pattern c u w h t =
     (let fs = rejection_findings (resolved_actions c u w h); ty = Action_Rejection_Pattern in
      sweep_insights_dormant (simdi c) u ty (map fi_title fs)
        (write_findings (simdi c) u ty Data_Grounded St_Active fs t))"

subsection \<open>Breakthroughs and setbacks\<close>

text \<open>
  \<open>getattr(s, attr) or 0.0\<close> is a float where the column is zero and a Decimal everywhere else, and Python
  adds no float to a Decimal: such a sum raises \<open>TypeError\<close>, which \<open>extractor_telemetry\<close> swallows.
\<close>

datatype py_num = Dec rat | Flo rat

definition or_float_zero :: "rat \<Rightarrow> py_num" where
  "or_float_zero x = (if x = 0 then Flo 0 else Dec x)"

fun py_add :: "py_num \<Rightarrow> py_num \<Rightarrow> py_num option" where
  "py_add (Dec x) (Dec y) = Some (Dec (dctx (x + y)))"
| "py_add (Flo x) (Flo y) = Some (Flo (fl (x + y)))"
| "py_add _ _ = None"

fun py_sub :: "py_num \<Rightarrow> py_num \<Rightarrow> rat option" where
  "py_sub (Dec x) (Dec y) = Some (dctx (x - y))"
| "py_sub (Flo x) (Flo y) = Some (fl (x - y))"
| "py_sub _ _ = None"

fun py_div :: "py_num \<Rightarrow> nat \<Rightarrow> py_num" where
  "py_div (Dec x) n = Dec (ddiv x (rat_of_nat n))"
| "py_div (Flo x) n = Flo (fl (x / rat_of_nat n))"

text \<open>\<open>sum\<close> starts with the integer 0, which both types take.\<close>

fun py_sum :: "py_num list \<Rightarrow> py_num option" where
  "py_sum [] = Some (Flo 0)"
| "py_sum (x # xs) = fold (\<lambda>y a. Option.bind a (\<lambda>s. py_add s y)) xs (Some x)"

definition avg :: "(nw_snapshot \<Rightarrow> rat) \<Rightarrow> nw_snapshot list \<Rightarrow> py_num option" where
  "avg attr snaps = map_option (\<lambda>s. py_div s (length snaps)) (py_sum (map (\<lambda>s. or_float_zero (attr s)) snaps))"

definition recent_snaps :: "clock \<Rightarrow> nat \<Rightarrow> nat option \<Rightarrow> history \<Rightarrow> nw_snapshot list" where
  "recent_snaps c u w h = filter (\<lambda>n. scope_filter u w (nw_user n) (nw_ws n) \<and> sub_days (bugun c) 30 \<le> nw_date n) (hi_snaps h)"

definition baseline_snaps :: "clock \<Rightarrow> nat \<Rightarrow> nat option \<Rightarrow> history \<Rightarrow> nw_snapshot list" where
  "baseline_snaps c u w h = filter (\<lambda>n. scope_filter u w (nw_user n) (nw_ws n) \<and> sub_days (bugun c) 120 \<le> nw_date n \<and>
     nw_date n < sub_days (bugun c) 30) (hi_snaps h)"

definition enough_snaps :: "clock \<Rightarrow> nat \<Rightarrow> nat option \<Rightarrow> history \<Rightarrow> bool" where
  "enough_snaps c u w h \<longleftrightarrow> 20 \<le> length (recent_snaps c u w h) \<and> 60 \<le> length (baseline_snaps c u w h)"

text \<open>The four metrics, each the recent and the baseline average.\<close>

definition metric :: "(nw_snapshot \<Rightarrow> rat) \<Rightarrow> clock \<Rightarrow> nat \<Rightarrow> nat option \<Rightarrow> history \<Rightarrow> (py_num \<times> py_num) option" where
  "metric attr c u w h = (case (avg attr (recent_snaps c u w h), avg attr (baseline_snaps c u w h)) of
     (Some r, Some b) \<Rightarrow> Some (r, b) | _ \<Rightarrow> None)"

definition metrics :: "clock \<Rightarrow> nat \<Rightarrow> nat option \<Rightarrow> history \<Rightarrow> (py_num \<times> py_num) list option" where
  "metrics c u w h = those (map (\<lambda>attr. metric attr c u w h) [nw_full, nw_card, nw_loan, nw_inv])"

fun py_val :: "py_num \<Rightarrow> rat" where
  "py_val (Dec x) = x"
| "py_val (Flo x) = x"

text \<open>A component: its title, whether growth counts (debts count when they shrink) and its threshold. A
  setback measures the opposite direction.\<close>

definition bt_components :: "(string \<times> bool \<times> rat) list" where
  "bt_components = [(''Kutlanacak ilerleme: Net deger iyilesmesi'', True, 5000),
     (''Kutlanacak ilerleme: Kart borcu azalmasi'', False, 2000),
     (''Kutlanacak ilerleme: Kredi borcu azalmasi'', False, 2000),
     (''Kutlanacak ilerleme: Yatirim buyumesi'', True, 3000)]"

definition st_components :: "(string \<times> bool \<times> rat) list" where
  "st_components = [(''Dikkat: Net deger kotulesmesi'', False, 3000),
     (''Dikkat: Kart borcu artisi'', True, 1500),
     (''Dikkat: Kredi borcu artisi'', True, 1500),
     (''Dikkat: Yatirim deger kaybi'', False, 2500)]"

definition change_of :: "bool \<Rightarrow> py_num \<times> py_num \<Rightarrow> rat option" where
  "change_of growth m = (if growth then py_sub (fst m) (snd m) else py_sub (snd m) (fst m))"

text \<open>\<open>int(delta / 1000)\<close>, at least 1; the threshold is a float, which compares with either type.\<close>

definition change_finding :: "(string \<times> bool \<times> rat) \<Rightarrow> py_num \<times> py_num \<Rightarrow> finding list option" where
  "change_finding k m = (case k of (title, growth, threshold) \<Rightarrow> map_option (\<lambda>d.
     if threshold \<le> d then [\<lparr>fi_title = title, fi_text = Change_Text (py_val (fst m)) (py_val (snd m)) 0,
         fi_evidence = max 1 (nat \<lfloor>ddiv d 1000\<rfloor>), fi_priority = 7\<rparr>]
     else []) (change_of growth m))"

definition change_findings :: "(string \<times> bool \<times> rat) list \<Rightarrow> clock \<Rightarrow> nat \<Rightarrow> nat option \<Rightarrow> history \<Rightarrow> finding list option" where
  "change_findings ks c u w h = Option.bind (metrics c u w h)
     (\<lambda>ms. map_option concat (those (map2 change_finding ks ms)))"

definition extract_breakthrough :: "clock \<Rightarrow> nat \<Rightarrow> nat option \<Rightarrow> history \<Rightarrow> insight list \<Rightarrow> insight list" where
  "extract_breakthrough c u w h t =
     (if \<not> enough_snaps c u w h then sweep_insights_dormant (simdi c) u Breakthrough [] t
      else (case change_findings bt_components c u w h of None \<Rightarrow> t
        | Some fs \<Rightarrow> sweep_insights_dormant (simdi c) u Breakthrough (map fi_title fs)
            (write_findings (simdi c) u Breakthrough Data_Grounded St_Active fs t)))"

definition compound :: "finding list \<Rightarrow> finding list" where
  "compound fs = (if 2 \<le> length fs then map (\<lambda>f. f\<lparr>fi_priority := 9, fi_text := (case fi_text f of
      Change_Text r b _ \<Rightarrow> Change_Text r b (length fs) | x \<Rightarrow> x)\<rparr>) fs else fs)"

definition extract_setback :: "clock \<Rightarrow> nat \<Rightarrow> nat option \<Rightarrow> history \<Rightarrow> insight list \<Rightarrow> insight list" where
  "extract_setback c u w h t =
     (if \<not> enough_snaps c u w h then sweep_insights_dormant (simdi c) u Setback [] t
      else (case change_findings st_components c u w h of None \<Rightarrow> t
        | Some fs \<Rightarrow> sweep_insights_dormant (simdi c) u Setback (map fi_title fs)
            (write_findings (simdi c) u Setback Data_Grounded St_Active (compound fs) t)))"

subsection \<open>Red lines\<close>

definition erl_name :: "erl_category \<Rightarrow> string" where
  "erl_name k = (case k of Mutlak_Red \<Rightarrow> ''mutlak_red'' | Niyet_Beyani \<Rightarrow> ''niyet_beyani'' | Vaat \<Rightarrow> ''vaat''
     | Kesin_Red \<Rightarrow> ''kesin_red'' | Acik_Sinir \<Rightarrow> ''acik_sinir'')"

definition erl_patterns :: "erl_category list" where
  "erl_patterns = [Mutlak_Red, Niyet_Beyani, Vaat, Kesin_Red, Acik_Sinir]"

definition erl_anchor_required :: "erl_category \<Rightarrow> bool" where
  "erl_anchor_required k \<longleftrightarrow> k \<in> {Mutlak_Red, Niyet_Beyani, Kesin_Red}"

definition erl_excerpt :: "nat \<times> nat \<Rightarrow> string \<Rightarrow> string" where
  "erl_excerpt m s = (let e = strip (take (min (length s) (snd m + 20) - (fst m - 10)) (drop (fst m - 10) s)) in
     if 80 < length e then rstrip (take 80 e) @ ''...'' else e)"

definition cut_title :: "string \<Rightarrow> string" where
  "cut_title s = (if 200 < length s then take 197 s @ ''...'' else s)"

definition erl_title :: "erl_category \<Rightarrow> string \<Rightarrow> string" where
  "erl_title k e = cut_title (''Kirmizi cizgi ['' @ erl_name k @ '']: '' @ e)"

definition user_messages :: "clock \<Rightarrow> nat \<Rightarrow> history \<Rightarrow> coach_memory list" where
  "user_messages c u h = sort_key cm_time
     (filter (\<lambda>m. cm_user m = u \<and> cm_role m = Role_User \<and> simdi c - 90 * day_s \<le> cm_time m) (hi_memories h))"

text \<open>The state of the scan: the table and \<open>existing_refs_map\<close>, the references by title.\<close>

type_synonym erl_state = "insight list \<times> (string \<Rightarrow> source_ref list option)"

definition refs_map :: "nat \<Rightarrow> insight list \<Rightarrow> string \<Rightarrow> source_ref list option" where
  "refs_map u t title = Option.bind (List.find (is_key u Explicit_Red_Line title) t) in_refs"

definition erl_write :: "int \<Rightarrow> nat \<Rightarrow> nat \<Rightarrow> erl_category \<Rightarrow> string \<Rightarrow> erl_state \<Rightarrow> erl_state" where
  "erl_write now u msg k e st = (case st of (t, refs) \<Rightarrow>
     let title = erl_title k e; old = (case refs title of None \<Rightarrow> [] | Some rs \<Rightarrow> rs) in
     if Coach_Memory msg \<in> set old then st
     else (let all = old @ [Coach_Memory msg]; kept = drop (length all - 50) all in
       (save_or_update_insight now u Explicit_Red_Line title (Red_Line_Text (erl_name k) e) Data_Grounded kept True 15 t,
        refs(title := Some kept))))"

definition erl_try :: "text_rules \<Rightarrow> int \<Rightarrow> nat \<Rightarrow> nat \<Rightarrow> string \<Rightarrow> erl_category \<Rightarrow> erl_state \<Rightarrow> erl_state" where
  "erl_try tr now u msg s k st = (case erl_search tr k s of None \<Rightarrow> st
     | Some m \<Rightarrow> if erl_anchor_required k \<and> \<not> erl_financial tr s then st
                 else erl_write now u msg k (erl_excerpt m s) st)"

definition erl_message :: "text_rules \<Rightarrow> int \<Rightarrow> nat \<Rightarrow> coach_memory \<Rightarrow> erl_state \<Rightarrow> erl_state" where
  "erl_message tr now u m st = (let s = strip (cm_content m) in
     if s = [] \<or> 200 < length s \<or> ends_with CHR ''?'' s then st
     else fold (erl_try tr now u (cm_id m) s) erl_patterns st)"

definition extract_explicit_red_line_k1 :: "text_rules \<Rightarrow> clock \<Rightarrow> nat \<Rightarrow> history \<Rightarrow> insight list \<Rightarrow> insight list" where
  "extract_explicit_red_line_k1 tr c u h t =
     fst (fold (erl_message tr (simdi c) u) (user_messages c u h) (t, refs_map u t))"

text \<open>What the model answered to the red lines of the last day: nothing, an error, text without a valid
  JSON object, or the list \<open>patterns\<close>. Of a JSON value the code tells a text and a list of values apart
  from the rest.\<close>

datatype json = J_Str string | J_List "json list" | J_Other

record k2_pattern =
  k2_category :: json
  k2_description :: json
  k2_quotes :: json
  k2_confidence :: json

datatype k2_answer = Provider_Unavailable | Llm_Error | Invalid_Json | K2_Patterns "k2_pattern list"

text \<open>The valid patterns, cleaned: category, description, quotes, confidence.\<close>

definition k2_quote_list :: "json \<Rightarrow> string list" where
  "k2_quote_list j = (case j of J_List js \<Rightarrow>
      concat (map (\<lambda>q. case q of J_Str s \<Rightarrow> if strip s = [] then [] else [s] | _ \<Rightarrow> []) js) | _ \<Rightarrow> [])"

definition k2_valid :: "k2_pattern \<Rightarrow> (string \<times> string \<times> string list \<times> string) list" where
  "k2_valid p = (case (k2_category p, k2_description p, k2_confidence p) of
     (J_Str cat, J_Str des, J_Str conf) \<Rightarrow>
        if strip cat = [] \<or> strip des = [] \<or> conf \<notin> {''medium'', ''high''} \<or> k2_quote_list (k2_quotes p) = [] then []
        else [(take 50 (strip cat), take 300 (strip des), take 5 (k2_quote_list (k2_quotes p)), conf)]
   | _ \<Rightarrow> [])"

definition k1_insights :: "clock \<Rightarrow> nat \<Rightarrow> insight list \<Rightarrow> insight list" where
  "k1_insights c u t = filter (\<lambda>r. in_user r = u \<and> in_type r = Some Explicit_Red_Line \<and> in_basis r = Some Data_Grounded \<and>
     in_status r = St_Active \<and> ((case in_seen r of None \<Rightarrow> False | Some x \<Rightarrow> simdi c - day_s \<le> x) \<or>
       (case in_activated r of None \<Rightarrow> False | Some x \<Rightarrow> simdi c - day_s \<le> x))) t"

definition k2_title :: "string \<Rightarrow> string" where
  "k2_title cat = cut_title (''Ima edilen kirmizi cizgi ['' @ cat @ '']'')"

definition k2_write :: "int \<Rightarrow> nat \<Rightarrow> string \<times> string \<times> string list \<times> string \<Rightarrow> insight list \<Rightarrow> insight list" where
  "k2_write now u p t = (case p of (cat, des, quotes, conf) \<Rightarrow>
     save_or_update_insight now u Explicit_Red_Line (k2_title cat) (Implied_Text des quotes conf) Pattern_Grounded
       [K2_Batch now, K2_Category cat, K2_Confidence conf] True 12 t)"

definition extract_explicit_red_line_k2 :: "(insight list \<Rightarrow> k2_answer) \<Rightarrow> clock \<Rightarrow> nat \<Rightarrow> insight list \<Rightarrow> insight list" where
  "extract_explicit_red_line_k2 llm c u t =
     (let k1 = k1_insights c u t in
      if k1 = [] then t
      else (case llm k1 of K2_Patterns ps \<Rightarrow> fold (k2_write (simdi c) u) (concat (map k2_valid ps)) t | _ \<Rightarrow> t))"

end
