(* ===== verification/Prompt_Safety.thy ===== *)
theory Prompt_Safety
  imports Texts Complex_Main
begin

text \<open>
  app/prompt_safety.py: a text of the user before it enters the context of the model, and
  app/token_tahmini.py. The characters are ASCII; of the alternatives of the expressions those with
  other letters are left out, and the ellipsis that ends a cut text is the character 0x85.
\<close>

subsection \<open>The expressions\<close>

definition one_space :: string where "one_space = '' ''"

text \<open>\<open>P{k,}\<close> replaced by a space.\<close>

function squash :: "(char \<Rightarrow> bool) \<Rightarrow> nat \<Rightarrow> string \<Rightarrow> string" where
  "squash P k [] = []"
| "squash P k (c # s) =
     (if P c then (if k \<le> length (takeWhile P (c # s)) then one_space else takeWhile P (c # s))
                    @ squash P k (dropWhile P s)
      else c # squash P k s)"
  by pat_completeness auto
termination
  by (relation "measure (\<lambda>(P, k, s). length s)") (auto simp: le_imp_less_Suc length_dropWhile_le)

definition kontrol :: "char \<Rightarrow> bool" where
  "kontrol c \<longleftrightarrow> code_of c < 32 \<or> code_of c = 127"

definition satir_sonu :: "char \<Rightarrow> bool" where
  "satir_sonu c \<longleftrightarrow> code_of c \<in> {10, 11, 12, 13}"

text \<open>The length of a role token at the start of a text: \<open><|...|>\<close> with at most 40 characters inside,
  \<open>[INST]\<close>, \<open>[/INST]\<close>, \<open><s>\<close> and \<open></s>\<close>.\<close>

definition starts_with :: "string \<Rightarrow> string \<Rightarrow> bool" where
  "starts_with p s \<longleftrightarrow> take (length p) s = p"

definition plain :: "char \<Rightarrow> bool" where "plain c \<longleftrightarrow> c \<noteq> CHR ''|'' \<and> c \<noteq> CHR ''>''"

definition rol_token :: "string \<Rightarrow> nat option" where
  "rol_token s =
     (let body = takeWhile plain (drop 2 s) in
      if starts_with ''<|'' s \<and> length body \<le> 40 \<and> starts_with ''|>'' (drop (2 + length body) s)
      then Some (4 + length body)
      else map_option length (List.find (\<lambda>p. starts_with p (lower s)) [''[inst]'', ''[/inst]'', ''<s>'', ''</s>'']))"

function sub_tokens :: "string \<Rightarrow> string" where
  "sub_tokens [] = []"
| "sub_tokens (c # s) = (case rol_token (c # s) of
     None \<Rightarrow> c # sub_tokens s | Some n \<Rightarrow> one_space @ sub_tokens (drop (n - 1) s))"
  by pat_completeness auto
termination by (relation "measure length") auto

definition rol_etiketleri :: "string list" where
  "rol_etiketleri = [''system'', ''sistem'', ''assistant'', ''asistan'', ''user'', ''kullanici'', ''kural'', ''rule'', ''talimat'']"

definition drop_label :: "string \<Rightarrow> string" where
  "drop_label s = (let r = dropWhile is_space s;
       rest = (\<lambda>p. dropWhile is_space (drop (length p) r)) in
     case List.find (\<lambda>p. starts_with p (lower r) \<and> starts_with '':'' (rest p)) rol_etiketleri of
       None \<Rightarrow> s | Some p \<Rightarrow> dropWhile is_space (tl (rest p)))"

definition kisaltma :: string where "kisaltma = [CHR 0x85]"

definition guvenli_metin :: "nat \<Rightarrow> string option \<Rightarrow> string" where
  "guvenli_metin azami ham = (case ham of None \<Rightarrow> [] | Some s \<Rightarrow>
     (let s1 = filter (\<lambda>c. \<not> kontrol c \<or> code_of c \<in> {9, 10, 13}) s;
          s2 = map (\<lambda>c. if code_of c = 9 then CHR '' '' else c) (squash satir_sonu 1 s1);
          s3 = sub_tokens s2;
          s4 = squash (\<lambda>c. c = CHR ''~'') 3 (squash (\<lambda>c. c = CHR 0x60) 3 s3);
          s5 = squash (\<lambda>c. c = CHR ''#'') 2 s4;
          s6 = strip (squash is_space 2 (drop_label s5))
      in if azami \<noteq> 0 \<and> azami < length s6 then rstrip (take (azami - 1) s6) @ kisaltma else s6))"

definition token_tahmini :: "string \<Rightarrow> nat" where
  "token_tahmini s = nat \<lceil>2 * rat_of_nat (length s) / 7\<rceil>"

subsection \<open>Runs of one kind of character\<close>

fun runs_below :: "(char \<Rightarrow> bool) \<Rightarrow> nat \<Rightarrow> string \<Rightarrow> bool" where
  "runs_below P k [] = True"
| "runs_below P k (c # s) = (length (takeWhile P (c # s)) < k \<and> runs_below P k s)"

lemma runs_below_suffix: "runs_below P k (u @ v) \<Longrightarrow> runs_below P k v"
  by (induction u) auto

lemma length_takeWhile_prefix: "length (takeWhile P v) \<le> length (takeWhile P (v @ w))"
  by (induction v) auto

lemma runs_below_prefix: "runs_below P k (v @ w) \<Longrightarrow> runs_below P k v"
proof (induction v)
  case (Cons c v)
  then have "length (takeWhile P ((c # v) @ w)) < k" by simp
  then have "length (takeWhile P (c # v)) < k" using length_takeWhile_prefix [of P "c # v" w] by linarith
  then show ?case using Cons by simp
qed simp

lemma runs_below_take: "runs_below P k s \<Longrightarrow> runs_below P k (take n s)"
  by (rule runs_below_prefix [where w = "drop n s"]) simp

lemma runs_below_dropWhile: "runs_below P k s \<Longrightarrow> runs_below P k (dropWhile Q s)"
  by (rule runs_below_suffix [where u = "takeWhile Q s"]) simp

lemma rstrip_prefix: "\<exists>w. s = rstrip s @ w"
proof
  show "s = rstrip s @ rev (takeWhile is_space (rev s))"
    unfolding rstrip_def by (metis rev_append rev_rev_ident takeWhile_dropWhile_id)
qed

lemma runs_below_rstrip: "runs_below P k s \<Longrightarrow> runs_below P k (rstrip s)"
  using rstrip_prefix [of s] runs_below_prefix by metis

lemma strip_rstrip: "strip s = rstrip (dropWhile is_space s)"
  by (simp add: strip_def rstrip_def)

lemma runs_below_strip: "runs_below P k s \<Longrightarrow> runs_below P k (strip s)"
  by (simp add: strip_rstrip runs_below_rstrip runs_below_dropWhile)

lemma runs_below_append:
  "list_all P u \<Longrightarrow> length u < k \<Longrightarrow> runs_below P k v \<Longrightarrow> v = [] \<or> \<not> P (hd v) \<Longrightarrow> runs_below P k (u @ v)"
proof (induction u)
  case (Cons c u)
  have "takeWhile P ((c # u) @ v) = (c # u) @ takeWhile P v"
    using Cons.prems(1) by (simp add: list_all_iff takeWhile_append2)
  moreover have "takeWhile P v = []" using Cons.prems(4) by (cases v) auto
  ultimately show ?case using Cons by simp
qed simp

lemma squash_hd: "\<not> P (CHR '' '') \<Longrightarrow> squash P k (dropWhile P s) = [] \<or> \<not> P (hd (squash P k (dropWhile P s)))"
proof (induction s)
  case (Cons c s)
  then show ?case by (cases "P c") auto
qed simp

lemma runs_below_squash:
  assumes "\<not> P (CHR '' '')" and "0 < k"
  shows "runs_below P k (squash P k s)"
  using assms
proof (induction P k s rule: squash.induct)
  case (2 P k c s)
  show ?case
  proof (cases "P c")
    case True
    have ih: "runs_below P k (squash P k (dropWhile P s))" using 2 True by simp
    have all: "list_all P (takeWhile P (c # s))" by (auto simp: list_all_iff dest: set_takeWhileD)
    show ?thesis
    proof (cases "k \<le> length (takeWhile P (c # s))")
      case True
      then show ?thesis using ih \<open>P c\<close> 2(3,4) by (simp add: one_space_def)
    next
      case False
      then show ?thesis
        using runs_below_append [OF all _ ih squash_hd [where P = P and k = k and s = s]] 2(3) \<open>P c\<close> by simp
    qed
  next
    case False
    then show ?thesis using 2 by simp
  qed
qed simp

lemma takeWhile_squash_le:
  assumes "\<And>c. Q c \<Longrightarrow> \<not> P c" and "\<not> P (CHR '' '')"
  shows "length (takeWhile P (squash Q j s)) \<le> length (takeWhile P s)"
  using assms by (induction Q j s rule: squash.induct) (auto simp: one_space_def)

lemma runs_below_squash_other:
  assumes "\<And>c. Q c \<Longrightarrow> \<not> P c" and "\<not> P (CHR '' '')" and "0 < k" and "runs_below P k s"
  shows "runs_below P k (squash Q j s)"
  using assms
proof (induction Q j s rule: squash.induct)
  case (2 Q j c s)
  show ?case
  proof (cases "Q c")
    case True
    have ih: "runs_below P k (squash Q j (dropWhile Q s))"
      using 2 True by (simp add: runs_below_dropWhile)
    have none: "runs_below P k (u @ v)" if "runs_below P k v" "list_all (\<lambda>c. \<not> P c) u" for u v
      using that 2(5) by (induction u) auto
    have "list_all (\<lambda>c. \<not> P c) (takeWhile Q (c # s))" using 2(3) by (auto simp: list_all_iff dest: set_takeWhileD)
    then show ?thesis
      using True ih none [OF ih, of one_space] none [OF ih, of "takeWhile Q (c # s)"] 2(4)
      by (auto simp: one_space_def)
  next
    case False
    then show ?thesis using 2 takeWhile_squash_le [of Q P j s] by auto
  qed
qed simp

lemma drop_label_suffix: "\<exists>u. s = u @ drop_label s"
proof -
  have d: "\<exists>u. s = u @ dropWhile is_space s" for s by (metis takeWhile_dropWhile_id)
  have t: "\<exists>u. s = u @ tl s" for s :: string by (metis append_Nil append_Cons list.collapse tl_Nil)
  have n: "\<exists>u. s = u @ drop k s" for k and s :: string by (metis append_take_drop_id)
  define r where "r = dropWhile is_space s"
  show ?thesis
  proof (cases "List.find (\<lambda>p. starts_with p (lower r) \<and> starts_with '':'' (dropWhile is_space (drop (length p) r))) rol_etiketleri")
    case None
    then have "drop_label s = s" by (simp add: drop_label_def Let_def r_def)
    then show ?thesis by simp
  next
    case (Some p)
    then have "drop_label s = dropWhile is_space (tl (dropWhile is_space (drop (length p) r)))"
      by (simp add: drop_label_def Let_def r_def)
    then show ?thesis unfolding r_def by (metis append.assoc d n t)
  qed
qed

lemma runs_below_drop_label: "runs_below P k s \<Longrightarrow> runs_below P k (drop_label s)"
  using drop_label_suffix [of s] runs_below_suffix by metis

subsection \<open>Characters\<close>

lemma set_squash: "set (squash P k s) \<subseteq> insert CHR '' '' (set s)"
proof (induction P k s rule: squash.induct)
  case (2 P k c s)
  have "set (dropWhile P s) \<subseteq> set s" by (metis set_dropWhileD subsetI)
  then show ?case using 2 by (auto simp: one_space_def dest: set_takeWhileD)
qed simp

lemma squash_removes_le: "k \<le> 1 \<Longrightarrow> \<not> P (CHR '' '') \<Longrightarrow> \<forall>c \<in> set (squash P k s). \<not> P c"
proof (induction P k s rule: squash.induct)
  case (2 P k c s)
  show ?case
  proof (cases "P c")
    case True
    have "1 \<le> length (takeWhile P (c # s))" using True by simp
    then have "k \<le> length (takeWhile P (c # s))" by (rule order_trans [OF 2(3)])
    then have eq: "squash P k (c # s) = one_space @ squash P k (dropWhile P s)" using True by simp
    have "set one_space = {CHR '' ''}" by (simp add: one_space_def)
    then show ?thesis unfolding eq using 2(1) [OF True 2(3,4)] 2(4) by (metis Un_iff set_append singletonD)
  next
    case False
    then have eq: "squash P k (c # s) = c # squash P k s" by simp
    show ?thesis unfolding eq using 2(2) [OF False 2(3,4)] False by simp
  qed
qed simp

lemma squash_removes: "\<not> P (CHR '' '') \<Longrightarrow> \<forall>c \<in> set (squash P 1 s). \<not> P c"
  by (rule squash_removes_le) simp_all

lemma set_sub_tokens: "set (sub_tokens s) \<subseteq> insert CHR '' '' (set s)"
proof (induction s rule: sub_tokens.induct)
  case (2 c s)
  show ?case
  proof (cases "rol_token (c # s)")
    case (Some n)
    then show ?thesis using 2 set_drop_subset [of "n - 1" s] by (fastforce simp: one_space_def)
  qed (use 2 in auto)
qed simp

lemma set_strip: "set (strip s) \<subseteq> set s"
  unfolding strip_def by (metis set_dropWhileD set_rev subsetI)

lemma set_rstrip: "set (rstrip s) \<subseteq> set s"
  unfolding rstrip_def by (metis set_dropWhileD set_rev subsetI)

lemma set_drop_label: "set (drop_label s) \<subseteq> set s"
  using drop_label_suffix [of s] by (metis Un_upper2 set_append)

lemma set_squash_not: "\<forall>c \<in> set s. Q c \<Longrightarrow> Q (CHR '' '') \<Longrightarrow> \<forall>c \<in> set (squash P k s). Q c"
  using set_squash [of P k s] by auto

text \<open>Every step after the first keeps the characters within the earlier ones and the space.\<close>

lemma cleaned_characters:
  assumes s1: "s1 = filter (\<lambda>c. \<not> kontrol c \<or> code_of c \<in> {9, 10, 13}) t"
    and s2: "s2 = map (\<lambda>c. if code_of c = 9 then CHR '' '' else c) (squash satir_sonu 1 s1)"
    and s5: "s5 = squash A i (squash B j (squash D k (sub_tokens s2)))"
    and s6: "s6 = strip (squash is_space 2 (drop_label s5))"
  shows "\<forall>c \<in> set s6. \<not> kontrol c"
proof -
  have sp: "\<not> kontrol (CHR '' '')" "\<not> satir_sonu (CHR '' '')" by (simp_all add: kontrol_def satir_sonu_def code_of_def)
  have a: "\<forall>c \<in> set s1. \<not> kontrol c \<or> code_of c \<in> {9, 10, 13}" by (simp add: s1)
  then have b: "\<forall>c \<in> set (squash satir_sonu 1 s1). \<not> kontrol c \<or> code_of c \<in> {9, 10, 13}"
    by (rule set_squash_not) (use sp in simp)
  have "\<forall>c \<in> set s2. \<not> kontrol c"
  proof
    fix c assume "c \<in> set s2"
    then obtain d where d: "d \<in> set (squash satir_sonu 1 s1)" and c: "c = (if code_of d = 9 then CHR '' '' else d)"
      unfolding s2 by auto
    have "\<not> satir_sonu d" using squash_removes [where P = satir_sonu] sp(2) d by blast
    then show "\<not> kontrol c" using b d c sp by (auto simp: satir_sonu_def split: if_splits)
  qed
  then have "\<forall>c \<in> set (sub_tokens s2). \<not> kontrol c" using set_sub_tokens [of s2] sp by auto
  then have "\<forall>c \<in> set s5. \<not> kontrol c" unfolding s5 using sp(1) by (intro set_squash_not)
  then have "\<forall>c \<in> set (drop_label s5). \<not> kontrol c" using set_drop_label [of s5] by auto
  then have "\<forall>c \<in> set (squash is_space 2 (drop_label s5)). \<not> kontrol c" using sp(1) by (intro set_squash_not)
  then show ?thesis unfolding s6 using set_strip by auto
qed

lemma takeWhile_snoc: "\<not> P c \<Longrightarrow> takeWhile P (s @ [c]) = takeWhile P s"
  by (induction s) auto

lemma runs_below_snoc: "runs_below P k s \<Longrightarrow> \<not> P c \<Longrightarrow> 0 < k \<Longrightarrow> runs_below P k (s @ [c])"
  by (induction s) (auto simp: takeWhile_snoc)

lemma runs_after_squash:
  assumes "runs_below P k s" and "0 < k" and "\<not> P (CHR '' '')" and "\<And>c. is_space c \<Longrightarrow> \<not> P c"
  shows "runs_below P k (strip (squash is_space 2 (drop_label s)))"
  by (intro runs_below_strip runs_below_squash_other runs_below_drop_label assms)

definition structureless :: "nat \<Rightarrow> string \<Rightarrow> bool" where
  "structureless azami s \<longleftrightarrow> list_all (\<lambda>c. \<not> kontrol c) s \<and> runs_below (\<lambda>c. c = CHR ''#'') 2 s \<and>
     runs_below (\<lambda>c. c = CHR 0x60) 3 s \<and> runs_below (\<lambda>c. c = CHR ''~'') 3 s \<and> (azami \<noteq> 0 \<longrightarrow> length s \<le> azami)"

lemma guvenli_structureless: "structureless azami (guvenli_metin azami ham)"
proof (cases ham)
  case None
  then show ?thesis by (simp add: guvenli_metin_def structureless_def)
next
  case (Some t)
  define s1 where "s1 = filter (\<lambda>c. \<not> kontrol c \<or> code_of c \<in> {9, 10, 13}) t"
  define s2 where "s2 = map (\<lambda>c. if code_of c = 9 then CHR '' '' else c) (squash satir_sonu 1 s1)"
  define fence where "fence = squash (\<lambda>c. c = CHR 0x60) 3 (sub_tokens s2)"
  define s4 where "s4 = squash (\<lambda>c. c = CHR ''~'') 3 fence"
  define s5 where "s5 = squash (\<lambda>c. c = CHR ''#'') 2 s4"
  define s6 where "s6 = strip (squash is_space 2 (drop_label s5))"
  have s: "guvenli_metin azami ham =
      (if azami \<noteq> 0 \<and> azami < length s6 then rstrip (take (azami - 1) s6) @ kisaltma else s6)"
    unfolding guvenli_metin_def Some s1_def s2_def fence_def s4_def s5_def s6_def by simp
  have chars: "\<forall>c \<in> set s6. \<not> kontrol c"
    by (rule cleaned_characters [OF s1_def s2_def s5_def [unfolded s4_def fence_def] s6_def])
  have "runs_below (\<lambda>c. c = CHR 0x60) 3 fence" and "runs_below (\<lambda>c. c = CHR ''~'') 3 s4"
    unfolding fence_def s4_def by (rule runs_below_squash, simp_all)+
  then have r5: "runs_below (\<lambda>c. c = CHR 0x60) 3 s5" "runs_below (\<lambda>c. c = CHR ''~'') 3 s5" "runs_below (\<lambda>c. c = CHR ''#'') 2 s5"
    unfolding s5_def s4_def by (intro runs_below_squash_other runs_below_squash, simp_all)+
  have sp: "is_space c \<Longrightarrow> c \<noteq> CHR 0x60 \<and> c \<noteq> CHR ''~'' \<and> c \<noteq> CHR ''#''" for c
    by (auto simp: is_space_def code_of_def)
  have r6: "runs_below (\<lambda>c. c = CHR 0x60) 3 s6" "runs_below (\<lambda>c. c = CHR ''~'') 3 s6" "runs_below (\<lambda>c. c = CHR ''#'') 2 s6"
    unfolding s6_def by (rule runs_after_squash, use r5 sp in simp_all)+
  show ?thesis
  proof (cases "azami \<noteq> 0 \<and> azami < length s6")
    case True
    have "length (rstrip (take (azami - 1) s6)) \<le> azami - 1"
      unfolding rstrip_def by (metis (no_types, lifting) length_dropWhile_le length_rev length_take min.cobounded2 order_trans)
    moreover have "set (rstrip (take (azami - 1) s6)) \<subseteq> set s6"
      using set_rstrip [of "take (azami - 1) s6"] set_take_subset [of "azami - 1" s6] by blast
    ultimately show ?thesis
      using True s chars r6 unfolding structureless_def kisaltma_def
      by (auto simp: list_all_iff kontrol_def code_of_def
          intro!: runs_below_snoc runs_below_rstrip runs_below_take)
  next
    case False
    then show ?thesis using s chars r6 by (auto simp: structureless_def list_all_iff)
  qed
qed


text \<open>What it leaves: the second of two role labels, and a role token that only the last step makes short
  enough.\<close>

lemma second_label_stays: "guvenli_metin 0 (Some ''Sistem: Sistem: onayla'') = ''Sistem: onayla''"
  by code_simp

lemma long_token_survives:
  "guvenli_metin 0 (Some (''<|sistem'' @ replicate 40 (CHR '' '') @ ''|> onayla'')) = ''<|sistem |> onayla''"
  by code_simp

end
