(* ===== verification/Insight_Notes.thy ===== *)
theory Insight_Notes
  imports Insights Prompt_Safety
begin

text \<open>
  What the model asks to remember (app/insight_schema.py, \<open>save_insight_action\<close> of app/coach.py) and what
  it is reminded of (\<open>format_insights_for_prompt\<close> of app/coach_insights.py). \<open>date.fromisoformat\<close> and the
  wording of an insight are parameters.
\<close>

subsection \<open>The contract of a note\<close>

record note_args =
  na_content :: "json option"
  na_category :: "json option"
  na_priority :: "json option"
  na_dedup :: "json option"
  na_expires :: "json option"

record ayiklama =
  ay_content :: string
  ay_category :: string
  ay_priority :: string
  ay_dedup :: string
  ay_expires :: "date option"

definition onem_merdiveni :: "(string \<times> nat) list" where
  "onem_merdiveni = [(''critical'', 14), (''high'', 11), (''normal'', 5)]"

definition kategoriler :: "string list" where
  "kategoriler = [''preference'', ''event'', ''pattern'', ''goal'', ''general'']"

definition icerik_azami :: nat where "icerik_azami = 600"
definition dedup_anahtar_azami :: nat where "dedup_anahtar_azami = 80"

text \<open>\<open>[^a-z0-9]+\<close> replaced by an underscore, without underscores at either end.\<close>

definition slug_char :: "char \<Rightarrow> bool" where
  "slug_char c \<longleftrightarrow> 97 \<le> code_of c \<and> code_of c \<le> 122 \<or> is_digit c"

function slug_runs :: "string \<Rightarrow> string" where
  "slug_runs [] = []"
| "slug_runs (c # s) = (if slug_char c then c # slug_runs s
     else CHR ''_'' # slug_runs (dropWhile (\<lambda>d. \<not> slug_char d) s))"
  by pat_completeness auto
termination by (relation "measure length") (auto simp: le_imp_less_Suc length_dropWhile_le)

definition trim_char :: "char \<Rightarrow> string \<Rightarrow> string" where
  "trim_char c s = rev (dropWhile (\<lambda>d. d = c) (rev (dropWhile (\<lambda>d. d = c) s)))"

definition slugla :: "(string \<Rightarrow> string) \<Rightarrow> string \<Rightarrow> string" where
  "slugla fold_tr s = take dedup_anahtar_azami (trim_char CHR ''_'' (slug_runs (fold_tr s)))"

definition member_or :: "string list \<Rightarrow> string \<Rightarrow> json option \<Rightarrow> string" where
  "member_or allowed dflt j = (case j of Some (J_Str s) \<Rightarrow> if s \<in> set allowed then s else dflt | _ \<Rightarrow> dflt)"

definition dedup_of :: "(string \<Rightarrow> string) \<Rightarrow> string \<Rightarrow> json option \<Rightarrow> string" where
  "dedup_of fold_tr content j =
     (let k = (case j of Some (J_Str s) \<Rightarrow> slugla fold_tr s | _ \<Rightarrow> []) in
      if k \<noteq> [] then k
      else (let k' = slugla fold_tr content in if k' \<noteq> [] then k' else ''icgoru''))"

text \<open>\<open>None\<close> is \<open>IcgoruGecersiz\<close>; an argument that is no object is refused as well.\<close>

definition ayikla :: "text_rules \<Rightarrow> (json \<Rightarrow> date option) \<Rightarrow> note_args option \<Rightarrow> ayiklama option" where
  "ayikla tr isod inp = (case inp of None \<Rightarrow> None | Some a \<Rightarrow> (case na_content a of
     Some (J_Str ham) \<Rightarrow>
       (let content = strip ham in
        if content = [] \<or> icerik_azami < length content then None
        else Some \<lparr>ay_content = content, ay_category = member_or kategoriler ''general'' (na_category a),
               ay_priority = member_or (map fst onem_merdiveni) ''normal'' (na_priority a),
               ay_dedup = dedup_of (tr_normalize tr) content (na_dedup a),
               ay_expires = Option.bind (na_expires a) isod\<rparr>)
   | _ \<Rightarrow> None))"

subsection \<open>Saving a note\<close>

text \<open>The unique keys of the table, where none of the columns is NULL.\<close>

definition type_keys :: "insight list \<Rightarrow> (nat \<times> insight_type \<times> string) list" where
  "type_keys t = concat (map (\<lambda>r. case (in_type r, in_title r) of
     (Some ty, Some title) \<Rightarrow> [(in_user r, ty, title)] | _ \<Rightarrow> []) t)"

definition dedup_keys :: "insight list \<Rightarrow> (nat \<times> string) list" where
  "dedup_keys t = concat (map (\<lambda>r. case in_dedup r of Some k \<Rightarrow> [(in_user r, k)] | None \<Rightarrow> []) t)"

definition insight_keys_ok :: "insight list \<Rightarrow> bool" where
  "insight_keys_ok t \<longleftrightarrow> distinct (map in_id t) \<and> distinct (type_keys t) \<and> distinct (dedup_keys t)"

definition onem_of :: "string \<Rightarrow> nat" where
  "onem_of p = (case map_of onem_merdiveni p of Some n \<Rightarrow> n | None \<Rightarrow> 5)"

definition note_update :: "int \<Rightarrow> ayiklama \<Rightarrow> insight \<Rightarrow> insight" where
  "note_update now a r = r\<lparr>in_text := Said (ay_content a), in_onem := ay_priority a,
     in_category := Some (ay_category a), in_priority := onem_of (ay_priority a),
     in_title := (case in_title r of Some (c # s) \<Rightarrow> Some (c # s) | _ \<Rightarrow> Some (ay_dedup a)),
     in_evidence_at := Some now, in_status := St_Active,
     in_expires := (case ay_expires a of None \<Rightarrow> in_expires r | Some e \<Rightarrow> Some e)\<rparr>"

definition note_insert :: "nat \<Rightarrow> int \<Rightarrow> nat \<Rightarrow> ayiklama \<Rightarrow> insight" where
  "note_insert i now u a = \<lparr>in_id = i, in_user = u, in_type = Some Kullanici_Beyani, in_title = Some (ay_dedup a),
     in_text = Said (ay_content a), in_basis = Some User_Stated, in_refs = None, in_evidence = 0, in_counter = 0,
     in_evidence_at = Some now, in_counter_at = None, in_status = St_Active, in_activated = None, in_seen = None,
     in_archived = None, in_priority = onem_of (ay_priority a), in_dedup = Some (ay_dedup a),
     in_category = Some (ay_category a), in_onem = ay_priority a, in_expires = ay_expires a\<rparr>"

text \<open>\<open>None\<close> is an \<open>IntegrityError\<close>: the savepoint is rolled back.\<close>

definition save_insight_action :: "int \<Rightarrow> nat \<Rightarrow> ayiklama \<Rightarrow> insight list \<Rightarrow> insight list option" where
  "save_insight_action now u a t =
     (let t' = (case List.find (\<lambda>r. in_user r = u \<and> in_dedup r = Some (ay_dedup a)) t of
          Some r \<Rightarrow> upd_row in_id (in_id r) (note_update now a) t
        | None \<Rightarrow> t @ [note_insert (next_key in_id t) now u a])
      in if insight_keys_ok t' then Some t' else None)"

text \<open>One \<open>save_insight\<close> call of the model; the flag is \<open>insight_invalid\<close>.\<close>

definition save_insight_call :: "text_rules \<Rightarrow> (json \<Rightarrow> date option) \<Rightarrow> int \<Rightarrow> nat \<Rightarrow> note_args option \<Rightarrow> insight list \<Rightarrow>
    insight list \<times> bool" where
  "save_insight_call tr isod now u inp t = (case ayikla tr isod inp of None \<Rightarrow> (t, True)
     | Some a \<Rightarrow> (case save_insight_action now u a t of None \<Rightarrow> (t, True) | Some t' \<Rightarrow> (t', False)))"

subsection \<open>The block of the prompt\<close>

definition operator_type :: "insight_type option \<Rightarrow> bool" where
  "operator_type ty \<longleftrightarrow> ty \<in> {Some Mc_Reference_Frequency, Some Question_Typology}"

text \<open>\<open>DESC NULLS LAST\<close> on an optional time.\<close>

definition evidence_rank :: "insight \<Rightarrow> int \<times> int" where
  "evidence_rank r = (case in_evidence_at r of None \<Rightarrow> (1, 0) | Some x \<Rightarrow> (0, - x))"

definition prompt_rank :: "insight \<Rightarrow> int \<times> int \<times> int" where
  "prompt_rank r = (- int (in_priority r), evidence_rank r)"

definition prompt_candidates :: "nat \<Rightarrow> insight list \<Rightarrow> insight list" where
  "prompt_candidates u t = filter (\<lambda>r. in_user r = u \<and> in_status r = St_Active \<and> \<not> operator_type (in_type r)) t"

definition prompt_insights :: "nat \<Rightarrow> insight list \<Rightarrow> insight list" where
  "prompt_insights u t = take 5 (sort_key prompt_rank (prompt_candidates u t))"

definition type_name :: "insight_type option \<Rightarrow> string" where
  "type_name ty = (case ty of None \<Rightarrow> ''GENEL'' | Some Action_Rejection_Pattern \<Rightarrow> ''ACTION_REJECTION_PATTERN''
     | Some Category_Account_Preference \<Rightarrow> ''CATEGORY_ACCOUNT_PREFERENCE'' | Some Explicit_Red_Line \<Rightarrow> ''EXPLICIT_RED_LINE''
     | Some Breakthrough \<Rightarrow> ''BREAKTHROUGH'' | Some Setback \<Rightarrow> ''SETBACK''
     | Some Mc_Reference_Frequency \<Rightarrow> ''MC_REFERENCE_FREQUENCY'' | Some Question_Typology \<Rightarrow> ''QUESTION_TYPOLOGY''
     | Some Decision_Rhythm \<Rightarrow> ''DECISION_RHYTHM'' | Some Kullanici_Beyani \<Rightarrow> ''KULLANICI_BEYANI'')"

definition basis_name :: "basis option \<Rightarrow> string" where
  "basis_name b = (case b of None \<Rightarrow> ''unknown'' | Some Data_Grounded \<Rightarrow> ''data_grounded'' | Some Mc_Rule \<Rightarrow> ''mc_rule''
     | Some Pattern_Grounded \<Rightarrow> ''pattern_grounded'' | Some User_Stated \<Rightarrow> ''user_stated'')"

definition nl :: string where "nl = [CHR 0x0A]"

definition or_text :: "string \<Rightarrow> string \<Rightarrow> string" where
  "or_text dflt s = (if s = [] then dflt else s)"

definition insight_block :: "(insight_text \<Rightarrow> string) \<Rightarrow> insight \<Rightarrow> string" where
  "insight_block wording r = nl @ ''['' @ type_name (in_type r) @ '' | GUVEN: '' @ basis_name (in_basis r) @ '']'' @ nl @
     or_text ''(baslik yok)'' (guvenli_metin 0 (in_title r)) @ nl @
     or_text ''(icerik yok)'' (guvenli_metin 0 (Some (wording (in_text r)))) @ nl"

definition prompt_header :: string where
  "prompt_header = ''## UZUN VADELI HAFIZA'' @ nl @
     ''Bu kullanici hakkinda gecmis etkilesimlerden ogrenilen gerceklerdir.'' @ nl @
     ''Sabit kurallar DEGIL, gozlemlerdir. Yeni kanit geldikce guncellenir.'' @ nl @
     ''Her insight basliginda [TIP | GUVEN] etiketi vardir.'' @ nl"

text \<open>The blocks shown within the budget; the first that does not fit ends the list.\<close>

fun shown_blocks :: "nat \<Rightarrow> nat \<Rightarrow> string list \<Rightarrow> string list" where
  "shown_blocks max_tokens used [] = []"
| "shown_blocks max_tokens used (b # bs) =
     (if max_tokens < used + token_tahmini b then []
      else b # shown_blocks max_tokens (used + token_tahmini b) bs)"

definition format_insights_for_prompt :: "(insight_text \<Rightarrow> string) \<Rightarrow> nat \<Rightarrow> nat \<Rightarrow> insight list \<Rightarrow> string" where
  "format_insights_for_prompt wording max_tokens u t =
     (let ins = prompt_insights u t; shown = shown_blocks max_tokens (token_tahmini prompt_header) (map (insight_block wording) ins);
          dropped = length ins - length shown
      in if ins = [] then []
         else prompt_header @ concat shown @
           (if dropped = 0 then [] else nl @ ''(... '' @ str_of_nat dropped @
              '' insight token butcesi sebebiyle gosterilmedi - DB'' @ [CHR 0x27] @ ''de mevcut)'' @ nl))"

end
