(* ===== verification/Scheduler.thy ===== *)
theory Scheduler
  imports Insight_Notes Auth
begin

text \<open>
  app/scheduler.py: the extractors behind one dispatcher, the nightly batches over all users, the extractors
  an event triggers, the retention rules, the record of the runs and the jobs a start-up catches up on. The
  jobs that only call out (prices, backup, smoke tests) are named with their period, their bodies are not
  modelled. A job's outcome is a parameter.
\<close>

subsection \<open>Running extractors\<close>

record batch_env =
  be_rules :: text_rules
  be_clock :: clock
  be_history :: history
  be_llm :: "insight list \<Rightarrow> k2_answer"
  be_breaks :: "nat \<Rightarrow> string \<Rightarrow> bool"

definition run_extractor :: "batch_env \<Rightarrow> nat option \<Rightarrow> string \<Rightarrow> nat \<Rightarrow> insight list \<Rightarrow> insight list" where
  "run_extractor e w name u t =
     (let c = be_clock e; h = be_history e; tr = be_rules e in
      if name = ''breakthrough'' then extract_breakthrough c u w h t
      else if name = ''setback'' then extract_setback c u w h t
      else if name = ''mc_reference_frequency'' then extract_mc_reference_frequency c u h t
      else if name = ''question_typology'' then extract_question_typology tr c u h t
      else if name = ''category_account_preference'' then extract_category_account_preference c u w h t
      else if name = ''explicit_red_line_k1'' then extract_explicit_red_line_k1 tr c u h t
      else if name = ''explicit_red_line_k2'' then extract_explicit_red_line_k2 (be_llm e) c u t
      else if name = ''decision_rhythm'' then extract_decision_rhythm c u h t
      else if name = ''action_rejection_pattern'' then extract_action_rejection_pattern c u w h t
      else t)"

text \<open>
  The session of a batch: a flush the database refuses leaves it waiting for a rollback, and every later
  query raises. \<open>extractor_telemetry\<close> swallows both, so the handler of \<open>run_extractor\<close> that rolls back never
  sees them. \<open>be_breaks\<close> says which extractors the database refuses.
\<close>

datatype session = Clean | Needs_Rollback

definition guarded_extractor :: "batch_env \<Rightarrow> nat option \<Rightarrow> nat \<Rightarrow> string \<Rightarrow> session \<times> insight list \<Rightarrow> session \<times> insight list" where
  "guarded_extractor e w u name st = (case st of
     (Needs_Rollback, t) \<Rightarrow> (Needs_Rollback, t)
   | (Clean, t) \<Rightarrow> if be_breaks e u name then (Needs_Rollback, t) else (Clean, run_extractor e w name u t))"

definition nightly_batch_extractors :: "string list" where
  "nightly_batch_extractors = [''breakthrough'', ''setback'', ''mc_reference_frequency'', ''question_typology'',
     ''category_account_preference'']"

definition event_after_user_message :: "string list" where
  "event_after_user_message = [''explicit_red_line_k1'', ''decision_rhythm'']"

definition personal_workspace_id :: "workspace list \<Rightarrow> nat \<Rightarrow> nat option" where
  "personal_workspace_id wss u =
     (case sort_key ws_id (filter (\<lambda>x. ws_owner x = u \<and> is_personal x) wss) of [] \<Rightarrow> None | x # _ \<Rightarrow> Some (ws_id x))"

definition run_periodic_batch_for_user :: "batch_env \<Rightarrow> workspace list \<Rightarrow> nat \<Rightarrow> insight list \<Rightarrow> insight list" where
  "run_periodic_batch_for_user e wss u t =
     snd (fold (guarded_extractor e (personal_workspace_id wss u) u) nightly_batch_extractors (Clean, t))"

definition run_k2_batch_for_user :: "batch_env \<Rightarrow> workspace list \<Rightarrow> nat \<Rightarrow> insight list \<Rightarrow> insight list" where
  "run_k2_batch_for_user e wss u t =
     snd (guarded_extractor e (personal_workspace_id wss u) u ''explicit_red_line_k2'' (Clean, t))"

text \<open>One session per user.\<close>

definition nightly_batch_job :: "batch_env \<Rightarrow> workspace list \<Rightarrow> nat list \<Rightarrow> insight list \<Rightarrow> insight list" where
  "nightly_batch_job e wss us t = fold (run_periodic_batch_for_user e wss) us t"

definition k2_batch_job :: "batch_env \<Rightarrow> workspace list \<Rightarrow> nat list \<Rightarrow> insight list \<Rightarrow> insight list" where
  "k2_batch_job e wss us t = fold (run_k2_batch_for_user e wss) us t"

definition trigger_after_user_message :: "batch_env \<Rightarrow> nat option \<Rightarrow> nat \<Rightarrow> insight list \<Rightarrow> insight list" where
  "trigger_after_user_message e w u t =
     snd (fold (guarded_extractor e w u) event_after_user_message (Clean, t))"

definition trigger_after_action_resolution :: "batch_env \<Rightarrow> nat option \<Rightarrow> nat \<Rightarrow> insight list \<Rightarrow> insight list" where
  "trigger_after_action_resolution e w u t =
     snd (guarded_extractor e w u ''action_rejection_pattern'' (Clean, t))"

subsection \<open>Retention\<close>

text \<open>A table is the list of its rows' times; the revoked tokens are the table of theory Auth. A row without
  a time is kept.\<close>

record logs =
  lg_traces :: "(nat \<times> int option) list"
  lg_calls :: "(nat \<times> int) list"
  lg_runs :: "(nat \<times> int) list"
  lg_auth :: auth_db
  lg_audit :: "(nat \<times> int option) list"

definition saklama_kurallari :: "(string \<times> int) list" where
  "saklama_kurallari = [(''reasoning_traces'', 90), (''api_call_log'', 90), (''scheduler_runs'', 90),
     (''revoked_tokens'', 0), (''audit_log'', 365)]"

definition saklama_gun :: "string \<Rightarrow> int" where
  "saklama_gun tablo = (case map_of saklama_kurallari tablo of Some n \<Rightarrow> n | None \<Rightarrow> 0)"

definition kept_since :: "int \<Rightarrow> ('a \<times> int) list \<Rightarrow> ('a \<times> int) list" where
  "kept_since esik rows = filter (\<lambda>(_, x). \<not> x < esik) rows"

definition kept_opt_since :: "int \<Rightarrow> ('a \<times> int option) list \<Rightarrow> ('a \<times> int option) list" where
  "kept_opt_since esik rows = filter (\<lambda>(_, x). case x of None \<Rightarrow> True | Some v \<Rightarrow> \<not> v < esik) rows"

definition prune_revoked :: "int \<Rightarrow> auth_db \<Rightarrow> auth_db" where
  "prune_revoked esik s = s\<lparr>revoked := kept_since esik (revoked s)\<rparr>"

definition saklama_uygula :: "int \<Rightarrow> logs \<Rightarrow> logs" where
  "saklama_uygula now l =
     (let esik = (\<lambda>tablo. now - saklama_gun tablo * day_s) in
      \<lparr>lg_traces = kept_opt_since (esik ''reasoning_traces'') (lg_traces l),
       lg_calls = kept_since (esik ''api_call_log'') (lg_calls l),
       lg_runs = kept_since (esik ''scheduler_runs'') (lg_runs l),
       lg_auth = prune_revoked (esik ''revoked_tokens'') (lg_auth l),
       lg_audit = kept_opt_since (esik ''audit_log'') (lg_audit l)\<rparr>)"

subsection \<open>The record of the runs\<close>

record run_row =
  sr_id :: nat
  sr_job :: string
  sr_started :: int
  sr_finished :: "int option"
  sr_ok :: "bool option"

definition kayit_basla :: "int \<Rightarrow> string \<Rightarrow> run_row list \<Rightarrow> run_row list \<times> nat" where
  "kayit_basla now job rs = (let i = next_key sr_id rs in
     (rs @ [\<lparr>sr_id = i, sr_job = job, sr_started = now, sr_finished = None, sr_ok = None\<rparr>], i))"

definition newest_of :: "string \<Rightarrow> run_row list \<Rightarrow> run_row list" where
  "newest_of job rs = take 50 (rev (sort_key sr_id (filter (\<lambda>r. sr_job r = job) rs)))"

definition kayit_bitir :: "int \<Rightarrow> nat \<Rightarrow> bool \<Rightarrow> run_row list \<Rightarrow> run_row list" where
  "kayit_bitir now i ok rs = (case find_row sr_id i rs of None \<Rightarrow> rs
     | Some k \<Rightarrow>
        (let rs1 = upd_row sr_id i (\<lambda>r. r\<lparr>sr_finished := Some now, sr_ok := Some ok\<rparr>) rs;
             tut = map sr_id (newest_of (sr_job k) rs1)
         in filter (\<lambda>r. sr_job r = sr_job k \<longrightarrow> sr_id r \<in> set tut) rs1))"

definition izlenen_is :: "int \<Rightarrow> int \<Rightarrow> bool \<Rightarrow> string \<Rightarrow> run_row list \<Rightarrow> run_row list" where
  "izlenen_is now bitis ok job rs = (let (rs1, i) = kayit_basla now job rs in kayit_bitir bitis i ok rs1)"

definition planli_isler :: "bool \<Rightarrow> (string \<times> int) list" where
  "planli_isler sqlite = [(''fetch_investment_prices'', 24), (''nightly_batch'', 24)] @
     (if sqlite then [(''sqlite_backup'', 24)] else []) @
     [(''k2_batch'', 24), (''nightly_trace_cleanup'', 24), (''weekly_smoke_test'', 168)]"

definition ok_times :: "string \<Rightarrow> run_row list \<Rightarrow> int list" where
  "ok_times job rs = concat (map (\<lambda>r. case sr_finished r of Some x \<Rightarrow> [x] | None \<Rightarrow> [])
     (filter (\<lambda>r. sr_job r = job \<and> sr_ok r = Some True) rs))"

definition gecikti :: "int \<Rightarrow> string \<times> int \<Rightarrow> run_row list \<Rightarrow> bool" where
  "gecikti now plan rs = (case ok_times (fst plan) rs of [] \<Rightarrow> True
     | x # xs \<Rightarrow> snd plan * 3600 < now - foldr max xs x)"

text \<open>The overdue jobs run one after the other; a failing one does not stop the next. \<open>sonuc\<close> gives the end
  and the outcome of a job.\<close>

definition kacirilan_isleri_telafi_et :: "bool \<Rightarrow> int \<Rightarrow> (string \<Rightarrow> int \<times> bool) \<Rightarrow> run_row list \<Rightarrow> run_row list" where
  "kacirilan_isleri_telafi_et sqlite now sonuc rs =
     fold (\<lambda>p rs. izlenen_is now (fst (sonuc (fst p))) (snd (sonuc (fst p))) (fst p) rs)
       (filter (\<lambda>p. gecikti now p rs) (planli_isler sqlite)) rs"

end
