(* ===== verification/Insight_Laws.thy ===== *)
theory Insight_Laws
  imports Scheduler
begin

text \<open>
  The table of insights: what every extractor and every note keeps (\<open>tidy\<close>), that an extractor leaves active
  exactly what it finds, when the two snapshot extractors work at all, that they never contradict each other,
  that a red line counts once, and what the prompt is given.
\<close>

named_theorems tidy_rules \<open>writers of the table of insights that are tidy\<close>

subsection \<open>What a writer keeps\<close>

definition others :: "nat \<Rightarrow> insight list \<Rightarrow> insight list" where
  "others u t = filter (\<lambda>r. in_user r \<noteq> u) t"

text \<open>The unique keys hold again, and the rows of every other user are as they were.\<close>

definition tidy :: "nat \<Rightarrow> insight list \<Rightarrow> insight list \<Rightarrow> bool" where
  "tidy u t t' \<longleftrightarrow> (insight_keys_ok t \<longrightarrow> insight_keys_ok t') \<and> others u t' = others u t"

lemma tidy_refl [tidy_rules]: "tidy u t t"
  by (simp add: tidy_def)

lemma tidy_trans: "tidy u t1 t2 \<Longrightarrow> tidy u t2 t3 \<Longrightarrow> tidy u t1 t3"
  by (simp add: tidy_def)

lemma tidy_fold: "(\<And>x t. x \<in> set xs \<Longrightarrow> tidy u t (f x t)) \<Longrightarrow> tidy u t (fold f xs t)"
proof (induction xs arbitrary: t)
  case (Cons x xs)
  have "tidy u t (f x t)" and "tidy u (f x t) (fold f xs (f x t))" using Cons by simp_all
  then show ?case by (auto intro: tidy_trans)
qed (simp add: tidy_refl)

text \<open>A change of the user's rows that leaves their keys alone.\<close>

definition same_keys :: "insight \<Rightarrow> insight \<Rightarrow> bool" where
  "same_keys r s \<longleftrightarrow> in_id s = in_id r \<and> in_user s = in_user r \<and> in_type s = in_type r \<and> in_title s = in_title r \<and>
     in_dedup s = in_dedup r"

lemma type_keys_Cons [simp]:
  "type_keys (r # t) = (case (in_type r, in_title r) of (Some ty, Some x) \<Rightarrow> [(in_user r, ty, x)] | _ \<Rightarrow> []) @ type_keys t"
  by (simp add: type_keys_def)

lemma dedup_keys_Cons [simp]:
  "dedup_keys (r # t) = (case in_dedup r of Some k \<Rightarrow> [(in_user r, k)] | None \<Rightarrow> []) @ dedup_keys t"
  by (simp add: dedup_keys_def)

lemma keys_Nil [simp]: "type_keys [] = []" "dedup_keys [] = []"
  by (simp_all add: type_keys_def dedup_keys_def)

lemma keys_append [simp]:
  "type_keys (t @ t') = type_keys t @ type_keys t'" "dedup_keys (t @ t') = dedup_keys t @ dedup_keys t'"
  by (simp_all add: type_keys_def dedup_keys_def)

lemma keys_map:
  assumes "\<And>r. same_keys r (g r)"
  shows "map in_id (map g t) = map in_id t" "type_keys (map g t) = type_keys t" "dedup_keys (map g t) = dedup_keys t"
proof -
  have k: "in_id (g r) = in_id r" "in_user (g r) = in_user r" "in_type (g r) = in_type r"
    "in_title (g r) = in_title r" "in_dedup (g r) = in_dedup r" for r
    using assms [of r] by (simp_all add: same_keys_def)
  show "map in_id (map g t) = map in_id t" by (simp add: k)
  show "type_keys (map g t) = type_keys t" by (induction t) (auto simp: k split: option.split)
  show "dedup_keys (map g t) = dedup_keys t" by (induction t) (auto simp: k split: option.split)
qed

lemma tidy_map:
  assumes "\<And>r. same_keys r (g r)" and "\<And>r. in_user r \<noteq> u \<Longrightarrow> g r = r"
  shows "tidy u t (map g t)"
proof -
  have "others u (map g t) = others u t"
    using assms by (induction t) (auto simp: others_def same_keys_def)
  then show ?thesis unfolding tidy_def insight_keys_ok_def keys_map [OF assms(1)] by simp
qed

lemma tidy_upd_key [tidy_rules]:
  "(\<And>r. same_keys r (f r)) \<Longrightarrow> tidy u t (upd_key u ty title f t)"
  unfolding upd_key_def by (rule tidy_map) (auto simp: is_key_def same_keys_def)

lemma tidy_check [tidy_rules]: "tidy u t (check_and_invalidate now u ty title t)"
  unfolding check_and_invalidate_def by (rule tidy_upd_key) (simp add: same_keys_def)

lemma tidy_sweep [tidy_rules]: "tidy u t (sweep_insights_dormant now u ty titles t)"
  unfolding sweep_insights_dormant_def by (rule tidy_map) (simp_all add: same_keys_def)

lemma type_keys_iff: "(u, ty, x) \<in> set (type_keys t) \<longleftrightarrow> list_ex (is_key u ty x) t"
  by (induction t) (auto simp: is_key_def split: option.splits)

lemma tidy_new:
  assumes "\<not> list_ex (is_key u ty x) t" and "in_id r = next_key in_id t" and "in_user r = u" and "in_type r = Some ty"
    and "in_title r = Some x" and "in_dedup r = None"
  shows "tidy u t (t @ [r])"
  unfolding tidy_def insight_keys_ok_def
  using assms next_key_fresh [of in_id t] type_keys_iff [of u ty x t] by (auto simp: others_def)

lemma tidy_upsert [tidy_rules]: "tidy u t (upsert_insight_absolute now u ty x txt b ev p st t)"
proof (cases "list_ex (is_key u ty x) t")
  case True
  then show ?thesis unfolding upsert_insight_absolute_def by (simp add: tidy_upd_key same_keys_def)
next
  case False
  then show ?thesis unfolding upsert_insight_absolute_def by (simp add: tidy_new [OF False] new_insight_def)
qed

lemma tidy_save [tidy_rules]: "tidy u t (save_or_update_insight now u ty x txt b refs yes p t)"
proof (cases "list_ex (is_key u ty x) t")
  case True
  then show ?thesis unfolding save_or_update_insight_def
    by (simp add: Let_def tidy_trans [OF tidy_upd_key tidy_check] same_keys_def)
next
  case False
  then show ?thesis unfolding save_or_update_insight_def
    by (simp add: Let_def tidy_trans [OF tidy_new [OF False] tidy_check] new_insight_def)
qed

lemma tidy_write [tidy_rules]: "tidy u t (write_findings now u ty b st fs t)"
  unfolding write_findings_def by (rule tidy_fold) (rule tidy_upsert)


subsection \<open>Every extractor and every note is tidy\<close>

lemma tidy_fold_fst:
  "(\<And>x st. x \<in> set xs \<Longrightarrow> tidy u (fst st) (fst (f x st))) \<Longrightarrow> tidy u (fst st) (fst (fold f xs st))"
proof (induction xs arbitrary: st)
  case (Cons x xs)
  have "tidy u (fst st) (fst (f x st))" and "tidy u (fst (f x st)) (fst (fold f xs (f x st)))" using Cons by simp_all
  then show ?case by (auto intro: tidy_trans)
qed (simp add: tidy_refl)

lemma tidy_then_sweep: "tidy u t t' \<Longrightarrow> tidy u t (sweep_insights_dormant now u ty titles t')"
  by (rule tidy_trans [OF _ tidy_sweep])

lemma tidy_rhythm: "tidy u t (extract_decision_rhythm c u h t)"
  unfolding extract_decision_rhythm_def by (simp only: Let_def tidy_refl tidy_sweep tidy_then_sweep tidy_save simp_thms split: if_split)

lemma tidy_mc: "tidy u t (extract_mc_reference_frequency c u h t)"
proof (cases "length (assistant_messages c u h) < 10")
  case True
  then show ?thesis by (simp add: extract_mc_reference_frequency_def tidy_refl)
next
  case False
  then show ?thesis unfolding extract_mc_reference_frequency_def Let_def if_not_P [OF False]
    by (intro tidy_then_sweep tidy_trans [OF tidy_write tidy_write])
qed

lemma tidy_qt: "tidy u t (extract_question_typology tr c u h t)"
  unfolding extract_question_typology_def Let_def by (rule tidy_fold) (simp add: case_prod_beta tidy_upsert)

lemma tidy_cap: "tidy u t (extract_category_account_preference c u w h t)"
  unfolding extract_category_account_preference_def Let_def by (intro tidy_then_sweep tidy_write)

lemma tidy_arp: "tidy u t (extract_action_rejection_pattern c u w h t)"
  unfolding extract_action_rejection_pattern_def Let_def by (intro tidy_then_sweep tidy_write)

lemma tidy_bt: "tidy u t (extract_breakthrough c u w h t)"
  unfolding extract_breakthrough_def by (auto split: option.split intro!: tidy_then_sweep tidy_write tidy_refl)

lemma tidy_st: "tidy u t (extract_setback c u w h t)"
  unfolding extract_setback_def by (auto split: option.split intro!: tidy_then_sweep tidy_write tidy_refl)

lemma tidy_erl_write: "tidy u (fst st) (fst (erl_write now u m k e st))"
  unfolding erl_write_def Let_def by (auto split: prod.split intro: tidy_save tidy_refl)

lemma tidy_erl_try: "tidy u (fst st) (fst (erl_try tr now u m s k st))"
  unfolding erl_try_def by (auto split: option.split intro: tidy_erl_write tidy_refl)

lemma tidy_erl_message: "tidy u (fst st) (fst (erl_message tr now u m st))"
  unfolding erl_message_def Let_def by (auto intro!: tidy_fold_fst tidy_erl_try tidy_refl)

lemma tidy_k1: "tidy u t (extract_explicit_red_line_k1 tr c u h t)"
  unfolding extract_explicit_red_line_k1_def
  using tidy_fold_fst [of "user_messages c u h" u "erl_message tr (simdi c) u" "(t, refs_map u t)"] tidy_erl_message
  by simp

lemma tidy_k2: "tidy u t (extract_explicit_red_line_k2 llm c u t)"
proof -
  have "tidy u t (k2_write (simdi c) u p t)" for p t
    by (cases p) (simp add: k2_write_def tidy_save)
  then have "tidy u t (fold (k2_write (simdi c) u) ps t)" for ps by (intro tidy_fold)
  then show ?thesis unfolding extract_explicit_red_line_k2_def Let_def
    by (simp add: tidy_refl split: k2_answer.split)
qed

lemma tidy_run_extractor: "tidy u t (run_extractor e w name u t)"
  unfolding run_extractor_def Let_def
  by (simp add: tidy_bt tidy_st tidy_mc tidy_qt tidy_cap tidy_k1 tidy_k2 tidy_rhythm tidy_arp tidy_refl split: if_split)

lemma find_in_user: "List.find (\<lambda>r. in_user r = u \<and> in_dedup r = Some k) t = Some r \<Longrightarrow> in_user r = u"
  by (auto dest: find_Some_prop)

lemma others_upd_row:
  assumes "in_user r = u" and "r \<in> set t" and "distinct (map in_id t)" and "\<And>x. in_user (f x) = in_user x"
  shows "others u (upd_row in_id (in_id r) f t) = others u t"
proof -
  have "x = r" if "x \<in> set t" "in_id x = in_id r" for x
    using that assms(2,3) by (metis find_row_distinct option.inject)
  then have "in_user x = u" if "x \<in> set t" "in_id x = in_id r" for x using that assms(1) by blast
  then show ?thesis unfolding others_def upd_row_def using assms(4) by (induction t) auto
qed

lemma save_insight_action_tidy:
  assumes "save_insight_action now u a t = Some t'" and "insight_keys_ok t"
  shows "insight_keys_ok t' \<and> others u t' = others u t"
proof (cases "List.find (\<lambda>r. in_user r = u \<and> in_dedup r = Some (ay_dedup a)) t")
  case None
  then show ?thesis using assms(1) unfolding save_insight_action_def
    by (auto simp: Let_def others_def note_insert_def split: if_splits)
next
  case (Some r)
  have r: "r \<in> set t" "in_user r = u" using find_Some_prop [OF Some] by simp_all
  have "others u (upd_row in_id (in_id r) (note_update now a) t) = others u t"
    by (rule others_upd_row [OF r(2,1)]) (use assms(2) in \<open>simp_all add: insight_keys_ok_def note_update_def\<close>)
  then show ?thesis using assms(1) Some unfolding save_insight_action_def by (auto simp: Let_def split: if_splits)
qed

subsection \<open>Any history of the table\<close>

datatype insight_op = Extract batch_env "nat option" string | Note text_rules "json \<Rightarrow> date option" int "note_args option"

definition insight_step :: "nat \<times> insight_op \<Rightarrow> insight list \<Rightarrow> insight list" where
  "insight_step x t = (case snd x of
     Extract e w name \<Rightarrow> run_extractor e w name (fst x) t
   | Note tr isod now inp \<Rightarrow> fst (save_insight_call tr isod now (fst x) inp t))"

lemma insight_step_tidy:
  assumes "insight_keys_ok t"
  shows "insight_keys_ok (insight_step (u, p) t) \<and> others u (insight_step (u, p) t) = others u t"
proof (cases p)
  case (Extract e w name)
  then show ?thesis using tidy_run_extractor [of u t e w name] assms by (simp add: insight_step_def tidy_def)
next
  case (Note tr isod now inp)
  show ?thesis
    using save_insight_action_tidy [where now = now and u = u and t = t] assms
    unfolding insight_step_def save_insight_call_def Note by (auto split: option.split)
qed

lemma others_mine:
  assumes "v \<noteq> u" and "others u t' = others u t"
  shows "filter (\<lambda>r. in_user r = v) t' = filter (\<lambda>r. in_user r = v) t"
proof -
  have "filter (\<lambda>r. in_user r = v) s = filter (\<lambda>r. in_user r = v) (others u s)" for s
    using assms(1) unfolding others_def by (induction s) auto
  then show ?thesis using assms(2) by metis
qed

text \<open>C19: Over any sequence of extractor runs and notes of the model, for any users and with whatever data and
  answers, the table keeps one row per key, per (user, type, title) and per (user, dedup key), and the rows
  of a user none of them ran for stay as they were.\<close>

theorem insights_unique_and_private:
  assumes "insight_keys_ok t"
  shows "insight_keys_ok (fold insight_step xs t) \<and>
    (v \<notin> fst ` set xs \<longrightarrow> filter (\<lambda>r. in_user r = v) (fold insight_step xs t) = filter (\<lambda>r. in_user r = v) t)"
  using assms
proof (induction xs arbitrary: t)
  case (Cons x xs)
  obtain u p where x: "x = (u, p)" by (cases x)
  have step: "insight_keys_ok (insight_step x t)" "others u (insight_step x t) = others u t"
    using insight_step_tidy [OF Cons.prems] x by simp_all
  show ?case using Cons.IH [OF step(1)] others_mine [OF _ step(2), of v] x by auto
qed simp

subsection \<open>What an extractor leaves active\<close>

definition act :: "nat \<Rightarrow> insight_type \<Rightarrow> string option \<Rightarrow> insight \<Rightarrow> bool" where
  "act u ty y r \<longleftrightarrow> in_user r = u \<and> in_type r = Some ty \<and> in_status r = St_Active \<and> in_title r = y"

definition active_titles :: "nat \<Rightarrow> insight_type \<Rightarrow> insight list \<Rightarrow> string option set" where
  "active_titles u ty t = in_title ` {r \<in> set t. in_user r = u \<and> in_type r = Some ty \<and> in_status r = St_Active}"

lemma active_titles_iff: "y \<in> active_titles u ty t \<longleftrightarrow> (\<exists>r \<in> set t. act u ty y r)"
  unfolding active_titles_def act_def by auto

lemma bex_map: "(\<exists>r \<in> set (map g t). P r) \<longleftrightarrow> (\<exists>r \<in> set t. P (g r))"
  by simp

lemma act_sweep_row:
  "act u ty y (if in_user r = u \<and> in_type r = Some ty \<and> in_status r = St_Active \<and> in_title r \<notin> T
     then r\<lparr>in_status := St_Dormant, in_seen := s, in_priority := p\<rparr> else r) \<longleftrightarrow> act u ty y r \<and> y \<in> T"
  unfolding act_def by (cases "in_title r \<in> T") auto

lemma active_sweep:
  "active_titles u ty (sweep_insights_dormant now u ty titles t) = active_titles u ty t \<inter> Some ` set titles"
proof (rule set_eqI)
  fix y
  show "y \<in> active_titles u ty (sweep_insights_dormant now u ty titles t) \<longleftrightarrow> y \<in> active_titles u ty t \<inter> Some ` set titles"
    unfolding Int_iff active_titles_iff sweep_insights_dormant_def bex_map act_sweep_row by blast
qed

text \<open>An upsert decides the status of its own title and of no other.\<close>

lemma act_upd_row:
  assumes "same_keys r (f r)" and "in_status (f r) = st"
  shows "act u ty y (if is_key u ty x r then f r else r) \<longleftrightarrow>
    (if y = Some x then is_key u ty x r \<and> st = St_Active else act u ty y r)"
  using assms unfolding act_def is_key_def same_keys_def by (cases "is_key u ty x r") (auto simp: is_key_def)

lemma active_upd_key:
  assumes "\<And>r. same_keys r (f r)" and "\<And>r. in_status (f r) = st" and "list_ex (is_key u ty x) t"
  shows "active_titles u ty (upd_key u ty x f t) =
    (if st = St_Active then insert (Some x) (active_titles u ty t) else active_titles u ty t - {Some x})"
proof (rule set_eqI)
  fix y
  have "y \<in> active_titles u ty (upd_key u ty x f t) \<longleftrightarrow>
      (if y = Some x then st = St_Active else y \<in> active_titles u ty t)"
    unfolding active_titles_iff upd_key_def bex_map act_upd_row [of _ f st, OF assms(1,2)]
    using assms(3) by (auto simp: list_ex_iff)
  then show "y \<in> active_titles u ty (upd_key u ty x f t) \<longleftrightarrow>
      y \<in> (if st = St_Active then insert (Some x) (active_titles u ty t) else active_titles u ty t - {Some x})"
    by auto
qed

lemma active_append:
  "active_titles u ty (t @ [r]) = active_titles u ty t \<union> (if act u ty (in_title r) r then {in_title r} else {})"
  unfolding active_titles_def act_def by auto

lemma active_upsert:
  "active_titles u ty (upsert_insight_absolute now u ty x txt b ev p st t) =
     (if st = St_Active then insert (Some x) (active_titles u ty t) else active_titles u ty t - {Some x})"
proof (cases "list_ex (is_key u ty x) t")
  case True
  show ?thesis unfolding upsert_insight_absolute_def if_P [OF True]
    by (rule active_upd_key [OF _ _ True]) (simp_all add: same_keys_def)
next
  case False
  then have "Some x \<notin> active_titles u ty t"
    unfolding active_titles_iff list_ex_iff act_def is_key_def by blast
  then show ?thesis unfolding upsert_insight_absolute_def if_not_P [OF False] active_append
    by (auto simp: new_insight_def act_def)
qed

lemma active_write:
  "active_titles u ty (write_findings now u ty b st fs t) =
     (if st = St_Active then active_titles u ty t \<union> Some ` fi_title ` set fs
      else active_titles u ty t - Some ` fi_title ` set fs)"
proof (induction fs arbitrary: t)
  case (Cons f fs)
  have eq: "write_findings now u ty b st (f # fs) t = write_findings now u ty b st fs
      (upsert_insight_absolute now u ty (fi_title f) (fi_text f) b (fi_evidence f) (fi_priority f) st t)"
    by (simp add: write_findings_def)
  show ?case unfolding eq Cons.IH active_upsert by auto
qed (simp add: write_findings_def)

lemma active_report:
  "active_titles u ty (sweep_insights_dormant now u ty (map fi_title fs) (write_findings now u ty b St_Active fs t)) =
     Some ` fi_title ` set fs"
  by (auto simp: active_sweep active_write)

text \<open>Titles of used and of unused rules differ.\<close>

lemma mc_titles_differ: "n < 10 \<Longrightarrow> m < 10 \<Longrightarrow> mc_used_title n \<noteq> mc_unused_title m"
proof
  assume "n < 10" "m < 10" and "mc_used_title n = mc_unused_title m"
  then have "drop 3 (mc_used_title n) = drop 3 (mc_unused_title m)" by simp
  then show False using \<open>n < 10\<close> \<open>m < 10\<close>
    by (simp add: mc_used_title_def mc_unused_title_def mc_name_def str_of_nat_digit)
qed

lemma mc_ranked_set: "n \<in> set (mc_ranked ms) \<Longrightarrow> n < 10"
  by (simp add: mc_ranked_def)

lemma mc_dominant_range: "f \<in> set (mc_dominant ms) \<Longrightarrow> \<exists>n < 10. fi_title f = mc_used_title n"
  unfolding mc_dominant_def by (auto dest!: set_zip_leftD in_set_takeD mc_ranked_set)

lemma mc_silent_range: "f \<in> set (mc_silent ms) \<Longrightarrow> \<exists>n < 10. fi_title f = mc_unused_title n"
proof -
  assume "f \<in> set (mc_silent ms)"
  then obtain n where "n < 9" "fi_title f = mc_unused_title n" unfolding mc_silent_def by auto
  then show ?thesis by (intro exI [of _ n]) simp
qed

lemma active_mc:
  assumes "\<not> length (assistant_messages c u h) < 10"
  shows "active_titles u Mc_Reference_Frequency (extract_mc_reference_frequency c u h t) =
    Some ` fi_title ` set (mc_dominant (assistant_messages c u h))"
proof -
  let ?d = "Some ` fi_title ` set (mc_dominant (assistant_messages c u h))"
  let ?s = "Some ` fi_title ` set (mc_silent (assistant_messages c u h))"
  have "?d \<inter> ?s = {}"
    using mc_dominant_range mc_silent_range mc_titles_differ by (fastforce simp: image_iff)
  then show ?thesis unfolding extract_mc_reference_frequency_def Let_def if_not_P [OF assms] active_sweep active_write
    by auto
qed

lemma oars_titles: "map fst (oars_states a b d) = [oars_low_data, oars_low_open, oars_low_rq, oars_healthy]"
  by (simp add: oars_states_def Let_def)

lemma active_fold_states:
  assumes "distinct (map fst xs)"
  shows "active_titles u ty (fold (\<lambda>(x, a, ev, p). upsert_insight_absolute now u ty x txt b ev p
      (if a then St_Active else St_Dormant)) xs t) =
    (active_titles u ty t - Some ` fst ` set xs) \<union> Some ` fst ` set (filter (fst \<circ> snd) xs)"
  using assms
proof (induction xs arbitrary: t)
  case (Cons x xs)
  obtain y a ev p where x: "x = (y, a, ev, p)" by (cases x) auto
  have new: "y \<notin> fst ` set xs" "distinct (map fst xs)" using Cons.prems x by auto
  then have new': "y \<notin> fst ` set (filter (fst \<circ> snd) xs)" by auto
  show ?case
    unfolding x fold.simps comp_def prod.case Cons.IH [OF new(2), unfolded comp_def] active_upsert
    using new new' by (auto simp: comp_def)
qed simp


subsection \<open>When the averages exist\<close>

fun is_dec :: "py_num \<Rightarrow> bool" where
  "is_dec (Dec _) = True"
| "is_dec (Flo _) = False"

lemma is_dec_or_float [simp]: "is_dec (or_float_zero x) \<longleftrightarrow> x \<noteq> 0"
  by (simp add: or_float_zero_def)

lemma is_dec_div [simp]: "is_dec (py_div x n) = is_dec x"
  by (cases x) simp_all

lemma py_add_some: "py_add x y = None \<longleftrightarrow> is_dec x \<noteq> is_dec y"
  by (cases x; cases y) simp_all

lemma py_add_kind: "py_add x y = Some z \<Longrightarrow> is_dec z = is_dec x"
  by (cases x; cases y) auto

lemma py_sub_none: "py_sub x y = None \<longleftrightarrow> is_dec x \<noteq> is_dec y"
  by (cases x; cases y) simp_all

lemma fold_bind_None: "fold (\<lambda>y a. Option.bind a (\<lambda>s. py_add s y)) xs None = None"
  by (induction xs) simp_all

lemma py_sum_fold:
  "case fold (\<lambda>y a. Option.bind a (\<lambda>s. py_add s y)) xs (Some x) of
     None \<Rightarrow> \<exists>y \<in> set xs. is_dec y \<noteq> is_dec x
   | Some z \<Rightarrow> is_dec z = is_dec x \<and> (\<forall>y \<in> set xs. is_dec y = is_dec x)"
proof (induction xs arbitrary: x)
  case (Cons y ys)
  show ?case
  proof (cases "py_add x y")
    case None
    then have "is_dec y \<noteq> is_dec x" using py_add_some [of x y] by auto
    then show ?thesis using None by (simp add: fold_bind_None)
  next
    case (Some z)
    then have "is_dec z = is_dec x" "is_dec y = is_dec x" using py_add_kind [OF Some] py_add_some [of x y] by auto
    then show ?thesis using Cons [of z] Some by (auto split: option.splits)
  qed
qed simp

lemma avg_kind:
  assumes "snaps \<noteq> []"
  shows "case avg attr snaps of
     None \<Rightarrow> (\<exists>s \<in> set snaps. attr s = 0) \<and> (\<exists>s \<in> set snaps. attr s \<noteq> 0)
   | Some a \<Rightarrow> (\<forall>s \<in> set snaps. (attr s \<noteq> 0) = is_dec a)"
proof -
  obtain s ss where snaps: "snaps = s # ss" using assms by (cases snaps) auto
  let ?k = "\<lambda>s. or_float_zero (attr s)"
  have "case py_sum (map ?k snaps) of None \<Rightarrow> \<exists>y \<in> set ss. is_dec (?k y) \<noteq> is_dec (?k s)
      | Some z \<Rightarrow> is_dec z = is_dec (?k s) \<and> (\<forall>y \<in> set ss. is_dec (?k y) = is_dec (?k s))"
    using py_sum_fold [of "map ?k ss" "?k s"] unfolding snaps by (simp del: is_dec_or_float split: option.splits)
  moreover have "(\<exists>y \<in> set ss. (attr y \<noteq> 0) \<noteq> (attr s \<noteq> 0)) \<Longrightarrow> (\<exists>y \<in> set snaps. attr y = 0) \<and> (\<exists>y \<in> set snaps. attr y \<noteq> 0)"
    unfolding snaps by (cases "attr s = 0") auto
  ultimately show ?thesis unfolding avg_def by (simp add: snaps split: option.splits)
qed

text \<open>A metric is uniform when it is zero on every snapshot of the two windows, or on none.\<close>

definition uniform :: "(nw_snapshot \<Rightarrow> rat) \<Rightarrow> nw_snapshot list \<Rightarrow> bool" where
  "uniform attr snaps \<longleftrightarrow> list_all (\<lambda>s. attr s = 0) snaps \<or> list_all (\<lambda>s. attr s \<noteq> 0) snaps"

definition metric_ok :: "(py_num \<times> py_num) option \<Rightarrow> bool" where
  "metric_ok m = (case m of None \<Rightarrow> False | Some (r, b) \<Rightarrow> is_dec r = is_dec b)"

lemma metric_uniform:
  assumes "recent_snaps c u w h \<noteq> []" and "baseline_snaps c u w h \<noteq> []"
  shows "metric_ok (metric attr c u w h) \<longleftrightarrow> uniform attr (recent_snaps c u w h @ baseline_snaps c u w h)"
proof -
  note r = avg_kind [OF assms(1), of attr] and b = avg_kind [OF assms(2), of attr]
  obtain r0 where r0: "r0 \<in> set (recent_snaps c u w h)" using assms(1) by (cases "recent_snaps c u w h") auto
  obtain b0 where b0: "b0 \<in> set (baseline_snaps c u w h)" using assms(2) by (cases "baseline_snaps c u w h") auto
  show ?thesis
  proof (cases "avg attr (recent_snaps c u w h)")
    case None
    then show ?thesis using r unfolding metric_ok_def metric_def uniform_def list_all_iff by auto
  next
    case (Some x)
    then have x: "\<forall>s \<in> set (recent_snaps c u w h). (attr s \<noteq> 0) = is_dec x" using r by simp
    show ?thesis
    proof (cases "avg attr (baseline_snaps c u w h)")
      case None
      then show ?thesis using b unfolding metric_ok_def metric_def uniform_def list_all_iff by (auto split: option.split)
    next
      case (Some y)
      then have y: "\<forall>s \<in> set (baseline_snaps c u w h). (attr s \<noteq> 0) = is_dec y" using b by simp
      have "metric attr c u w h = Some (x, y)"
        using \<open>avg attr (recent_snaps c u w h) = Some x\<close> Some by (simp add: metric_def)
      then show ?thesis using x y r0 b0 unfolding metric_ok_def uniform_def list_all_iff by auto
    qed
  qed
qed

lemma those_None_iff: "those xs = None \<longleftrightarrow> None \<in> set xs"
  by (induction xs) (auto split: option.splits)

lemma change_finding_None: "change_finding k m = None \<longleftrightarrow> is_dec (fst m) \<noteq> is_dec (snd m)"
  by (cases k) (auto simp: change_finding_def change_of_def py_sub_none)

lemma change_finding_Some: "change_finding k m = Some fs \<Longrightarrow> is_dec (fst m) = is_dec (snd m)"
  using change_finding_None [of k m] by auto

lemma change_findings_None:
  assumes "length ks = 4"
  shows "change_findings ks c u w h = None \<longleftrightarrow>
    \<not> list_all (\<lambda>attr. metric_ok (metric attr c u w h)) [nw_full, nw_card, nw_loan, nw_inv]"
proof -
  obtain k1 k2 k3 k4 where ks: "ks = [k1, k2, k3, k4]" using assms by (auto simp: length_Suc_conv eval_nat_numeral)
  show ?thesis
    unfolding change_findings_def metrics_def ks
    by (cases "metric nw_full c u w h"; cases "metric nw_card c u w h"; cases "metric nw_loan c u w h";
        cases "metric nw_inv c u w h")
      (auto simp: metric_ok_def those_None_iff change_finding_None dest!: change_finding_Some split: option.splits prod.splits)
qed

lemma component_counts: "length bt_components = 4" "length st_components = 4"
  by (simp_all add: bt_components_def st_components_def)

lemma enough_nonempty: "enough_snaps c u w h \<Longrightarrow> recent_snaps c u w h \<noteq> [] \<and> baseline_snaps c u w h \<noteq> []"
  unfolding enough_snaps_def by auto


subsection \<open>Breakthroughs against setbacks\<close>

lemma act_other_type:
  assumes "ty \<noteq> ty'" and "same_keys r (f r)"
  shows "act u ty' y (if is_key v ty x r then f r else r) = act u ty' y r"
  using assms unfolding act_def is_key_def same_keys_def by auto

lemma active_upsert_other:
  assumes "ty \<noteq> ty'"
  shows "active_titles u ty' (upsert_insight_absolute now v ty x txt b ev p st t) = active_titles u ty' t"
proof (rule set_eqI)
  fix y
  show "y \<in> active_titles u ty' (upsert_insight_absolute now v ty x txt b ev p st t) \<longleftrightarrow> y \<in> active_titles u ty' t"
  proof (cases "list_ex (is_key v ty x) t")
    case True
    show ?thesis unfolding upsert_insight_absolute_def if_P [OF True] active_titles_iff upd_key_def bex_map
      by (subst act_other_type [OF assms]) (simp_all add: same_keys_def)
  next
    case False
    show ?thesis unfolding upsert_insight_absolute_def if_not_P [OF False] active_titles_iff
      using assms by (auto simp: act_def new_insight_def)
  qed
qed

lemma active_write_other:
  "ty \<noteq> ty' \<Longrightarrow> active_titles u ty' (write_findings now v ty b st fs t) = active_titles u ty' t"
  unfolding write_findings_def by (induction fs arbitrary: t) (simp_all add: active_upsert_other)

lemma active_sweep_other:
  assumes "ty \<noteq> ty'"
  shows "active_titles u ty' (sweep_insights_dormant now v ty titles t) = active_titles u ty' t"
proof (rule set_eqI)
  fix y
  have "act u ty' y (if in_user r = v \<and> in_type r = Some ty \<and> in_status r = St_Active \<and> in_title r \<notin> Some ` set titles
     then r\<lparr>in_status := St_Dormant, in_seen := Some now, in_priority := 1\<rparr> else r) = act u ty' y r" for r
    using assms unfolding act_def by auto
  then show "y \<in> active_titles u ty' (sweep_insights_dormant now v ty titles t) \<longleftrightarrow> y \<in> active_titles u ty' t"
    unfolding active_titles_iff sweep_insights_dormant_def bex_map by (simp only:)
qed

lemma setback_keeps_breakthroughs:
  "active_titles u Breakthrough (extract_setback c u w h t) = active_titles u Breakthrough t"
  unfolding extract_setback_def by (simp add: active_sweep_other active_write_other split: option.split)

lemma found_component:
  assumes "those (map2 change_finding ks ms) = Some fss" and "distinct (map fst ks)"
    and "(k, m) \<in> set (zip ks ms)" and "fst k \<in> fi_title ` set (concat fss)"
  shows "\<exists>d. change_of (fst (snd k)) m = Some d \<and> snd (snd k) \<le> d"
  using assms
proof (induction ks arbitrary: ms fss)
  case (Cons k' ks)
  obtain m' ms' where ms: "ms = m' # ms'" using Cons.prems(3) by (cases ms) auto
  obtain f fs where f: "change_finding k' m' = Some f" and fs: "those (map2 change_finding ks ms') = Some fs"
    and fss: "fss = f # fs"
    using Cons.prems(1) unfolding ms by (auto split: option.splits)
  have title: "fi_title x = fst k'" if "x \<in> set f" for x
    using f that unfolding change_finding_def by (auto split: prod.splits if_splits)
  have later: "fi_title x \<in> fst ` set ks" if "x \<in> set (concat fs)" for x
    using fs that
  proof (induction ks arbitrary: ms' fs)
    case (Cons a as)
    then show ?case
      by (cases ms') (auto split: option.splits simp: change_finding_def split: prod.splits if_splits, force+)
  qed simp
  show ?case
  proof (cases "fst k = fst k'")
    case True
    have "(k, m) \<notin> set (zip ks ms')"
    proof
      assume "(k, m) \<in> set (zip ks ms')"
      then have "fst k \<in> fst ` set ks" using set_zip_leftD by (metis image_eqI)
      then show False using True Cons.prems(2) by auto
    qed
    then have "k = k'" "m = m'" using Cons.prems(3) unfolding ms by auto
    moreover have "f \<noteq> []"
    proof
      assume "f = []"
      then obtain z where z: "z \<in> set (concat fs)" "fst k = fi_title z" using Cons.prems(4) unfolding fss by auto
      have "fst k \<in> fst ` set ks" unfolding z(2) by (rule later [OF z(1)])
      then show False using True Cons.prems(2) by auto
    qed
    ultimately show ?thesis using f unfolding change_finding_def by (auto split: prod.splits if_splits)
  next
    case False
    then have "(k, m) \<in> set (zip ks ms')" using Cons.prems(3) unfolding ms by auto
    moreover have "fst k \<in> fi_title ` set (concat fs)"
      using Cons.prems(4) False title unfolding fss by auto
    ultimately show ?thesis using Cons.IH [OF fs] Cons.prems(2) by simp
  qed
qed simp

lemma opposite_changes:
  assumes "change_of g m = Some d" and "change_of (\<not> g) m = Some e"
  shows "e = - d"
proof -
  obtain a b where m: "m = (a, b)" by (cases m)
  have "py_sub y x = Some e \<Longrightarrow> py_sub x y = Some d \<Longrightarrow> e = - d" for x y
    using fl.r_odd [of "py_val x - py_val y"] dctx.r_odd [of "py_val x - py_val y"] by (cases x; cases y) auto
  then show ?thesis using assms unfolding m change_of_def by (cases g) auto
qed

definition opposed :: "(string \<times> string) list" where
  "opposed = zip (map fst bt_components) (map fst st_components)"

definition contradictory :: "nat \<Rightarrow> insight list \<Rightarrow> bool" where
  "contradictory u t \<longleftrightarrow> list_ex (\<lambda>(x, y). list_ex (act u Breakthrough (Some x)) t \<and> list_ex (act u Setback (Some y)) t) opposed"

lemma contradictory_iff:
  "contradictory u t \<longleftrightarrow> (\<exists>(x, y) \<in> set opposed. Some x \<in> active_titles u Breakthrough t \<and> Some y \<in> active_titles u Setback t)"
  unfolding contradictory_def active_titles_iff list_ex_iff ..

lemma breakthrough_keeps_setbacks:
  "active_titles u Setback (extract_breakthrough c u w h t) = active_titles u Setback t"
  unfolding extract_breakthrough_def by (simp add: active_sweep_other active_write_other split: option.split)

lemma components_opposed:
  "(x, y) \<in> set opposed \<Longrightarrow> length ms = 4 \<Longrightarrow>
   \<exists>g b e m. ((x, g, b), m) \<in> set (zip bt_components ms) \<and> ((y, \<not> g, e), m) \<in> set (zip st_components ms) \<and> 0 < b \<and> 0 < e"
  unfolding opposed_def bt_components_def st_components_def by (auto simp: length_Suc_conv eval_nat_numeral)

lemma component_titles: "distinct (map fst bt_components)" "distinct (map fst st_components)"
  by (simp_all add: bt_components_def st_components_def)

lemma length_those: "those xs = Some ys \<Longrightarrow> length ys = length xs"
  by (induction xs arbitrary: ys) (auto split: option.splits)


subsection \<open>A red line counts once\<close>

text \<open>The map of the scan and the column of the table agree.\<close>

lemma find_map_key:
  assumes "\<And>r. same_keys r (f r)"
  shows "List.find (is_key u ty x) (map f t) = map_option f (List.find (is_key u ty x) t)"
  using assms by (induction t) (auto simp: is_key_def same_keys_def)

lemma find_key_other:
  assumes "x \<noteq> y" and "\<And>r. same_keys r (f r)"
  shows "List.find (is_key u ty y) (upd_key u ty x f t) = List.find (is_key u ty y) t"
  using assms unfolding upd_key_def by (induction t) (auto simp: is_key_def same_keys_def)

lemma find_key_same:
  assumes "\<And>r. same_keys r (f r)"
  shows "List.find (is_key u ty x) (upd_key u ty x f t) = map_option f (List.find (is_key u ty x) t)"
  using assms unfolding upd_key_def by (induction t) (auto simp: is_key_def same_keys_def)

lemma find_none_key: "\<not> list_ex P t \<Longrightarrow> List.find P t = None"
  by (simp add: find_None_prop list_ex_iff)

lemma refs_check: "refs_map u (check_and_invalidate now u Explicit_Red_Line x t) y = refs_map u t y"
proof -
  let ?f = "\<lambda>r. if in_status r = St_Active \<and> 3 \<le> in_counter r \<and> in_evidence r \<le> 2 * in_counter r
     then r\<lparr>in_status := St_Invalidated, in_archived := Some now\<rparr> else r"
  have k: "same_keys r (?f r)" and f: "in_refs (?f r) = in_refs r" for r by (simp_all add: same_keys_def)
  show ?thesis
  proof (cases "x = y")
    case True
    show ?thesis unfolding True refs_map_def check_and_invalidate_def find_key_same [OF k]
      by (cases "List.find (is_key u Explicit_Red_Line y) t") (simp_all add: f)
  next
    case False
    show ?thesis unfolding refs_map_def check_and_invalidate_def find_key_other [OF False k] ..
  qed
qed

lemma refs_save:
  "refs_map u (save_or_update_insight now u Explicit_Red_Line x txt b refs yes p t) = (refs_map u t)(x := Some refs)"
proof
  fix y
  show "refs_map u (save_or_update_insight now u Explicit_Red_Line x txt b refs yes p t) y = ((refs_map u t)(x := Some refs)) y"
  proof (cases "list_ex (is_key u Explicit_Red_Line x) t")
    case True
    then obtain r where r: "List.find (is_key u Explicit_Red_Line x) t = Some r"
      by (metis find_None_prop list_ex_iff option.exhaust)
    let ?f = "\<lambda>r. r\<lparr>in_text := txt, in_evidence := in_evidence r + (if yes then 1 else 0),
                   in_counter := in_counter r + (if yes then 0 else 1),
                   in_evidence_at := (if yes then Some now else in_evidence_at r),
                   in_counter_at := (if yes then in_counter_at r else Some now),
                   in_seen := Some now, in_refs := Some refs, in_priority := p\<rparr>"
    have k: "same_keys r (?f r)" for r by (simp add: same_keys_def)
    have "refs_map u (upd_key u Explicit_Red_Line x ?f t) y = ((refs_map u t)(x := Some refs)) y"
    proof (cases "x = y")
      case True
      show ?thesis unfolding True refs_map_def find_key_same [OF k] using r True by simp
    next
      case False
      show ?thesis unfolding refs_map_def find_key_other [OF False k] using False by simp
    qed
    then show ?thesis unfolding save_or_update_insight_def Let_def if_P [OF True] refs_check .
  next
    case False
    then show ?thesis unfolding save_or_update_insight_def Let_def if_not_P [OF False] refs_check
      by (auto simp: refs_map_def find_append find_none_key new_insight_def is_key_def split: option.split)
  qed
qed

definition agrees :: "nat \<Rightarrow> erl_state \<Rightarrow> bool" where
  "agrees u st \<longleftrightarrow> snd st = refs_map u (fst st)"

text \<open>The references are to messages already read, each once.\<close>

definition read_once :: "nat list \<Rightarrow> erl_state \<Rightarrow> bool" where
  "read_once ids st \<longleftrightarrow> (\<forall>x rs. snd st x = Some rs \<longrightarrow> distinct rs \<and> set rs \<subseteq> Coach_Memory ` set ids)"

text \<open>\<open>counted u tr m st\<close>: every red line of the message is in the references of its title.\<close>

definition counted :: "text_rules \<Rightarrow> coach_memory \<Rightarrow> erl_category list \<Rightarrow> erl_state \<Rightarrow> bool" where
  "counted tr m ks st \<longleftrightarrow> (let s = strip (cm_content m) in \<forall>k \<in> set ks. \<forall>mt. erl_search tr k s = Some mt \<longrightarrow>
     erl_anchor_required k \<and> \<not> erl_financial tr s \<or>
     (\<exists>rs. snd st (erl_title k (erl_excerpt mt s)) = Some rs \<and> Coach_Memory (cm_id m) \<in> set rs))"

definition more_refs :: "erl_state \<Rightarrow> erl_state \<Rightarrow> bool" where
  "more_refs st st' \<longleftrightarrow> (\<forall>x rs. snd st x = Some rs \<longrightarrow> (\<exists>rs'. snd st' x = Some rs' \<and> set rs \<subseteq> set rs'))"

lemma more_refs_refl: "more_refs st st"
  by (simp add: more_refs_def)

lemma more_refs_trans: "more_refs a b \<Longrightarrow> more_refs b c \<Longrightarrow> more_refs a c"
  unfolding more_refs_def by (meson subset_trans)

lemma counted_more: "counted tr m ks st \<Longrightarrow> more_refs st st' \<Longrightarrow> counted tr m ks st'"
  unfolding counted_def more_refs_def Let_def by (meson subsetD)

lemma length_refs:
  assumes "distinct rs" and "set rs \<subseteq> Coach_Memory ` set ids"
  shows "length rs \<le> length ids"
proof -
  have "length rs = card (set rs)" using assms(1) by (simp add: distinct_card)
  also have "\<dots> \<le> card (Coach_Memory ` set ids)" using assms(2) by (intro card_mono) auto
  also have "\<dots> \<le> card (set ids)" by (rule card_image_le) simp
  also have "\<dots> \<le> length ids" by (rule card_length)
  finally show ?thesis .
qed

lemma erl_write_step:
  assumes "agrees u st" and "read_once ids st" and "m \<in> set ids" and "length ids \<le> 50"
  shows "agrees u (erl_write now u m k e st) \<and> read_once ids (erl_write now u m k e st) \<and>
    more_refs st (erl_write now u m k e st) \<and>
    (\<exists>rs. snd (erl_write now u m k e st) (erl_title k e) = Some rs \<and> Coach_Memory m \<in> set rs)"
proof -
  obtain t refs where st: "st = (t, refs)" by (cases st)
  define old where "old = (case refs (erl_title k e) of None \<Rightarrow> [] | Some rs \<Rightarrow> rs)"
  have old: "distinct old" "set old \<subseteq> Coach_Memory ` set ids"
    using assms(2) unfolding read_once_def st old_def by (cases "refs (erl_title k e)"; simp)+
  show ?thesis
  proof (cases "Coach_Memory m \<in> set old")
    case True
    then have "erl_write now u m k e st = st"
      unfolding erl_write_def st Let_def prod.case old_def [symmetric] by (rule if_P)
    moreover have "\<exists>rs. refs (erl_title k e) = Some rs \<and> Coach_Memory m \<in> set rs"
      using True unfolding old_def by (cases "refs (erl_title k e)") simp_all
    ultimately show ?thesis using assms(1,2) more_refs_refl by (simp only: st snd_conv simp_thms)
  next
    case False
    let ?all = "old @ [Coach_Memory m]"
    have all: "distinct ?all" "set ?all \<subseteq> Coach_Memory ` set ids" using old False assms(3) by auto
    have "length ?all \<le> length ids" by (rule length_refs [OF all])
    then have nodrop: "length ?all - 50 = 0" using assms(4) by simp
    have w: "erl_write now u m k e st = (save_or_update_insight now u Explicit_Red_Line (erl_title k e)
        (Red_Line_Text (erl_name k) e) Data_Grounded ?all True 15 t, refs(erl_title k e := Some ?all))"
      unfolding erl_write_def st Let_def prod.case old_def [symmetric] if_not_P [OF False] nodrop drop_0 ..
    have "agrees u (erl_write now u m k e st)"
      using assms(1) unfolding w unfolding st agrees_def fst_conv snd_conv refs_save by simp
    moreover have "read_once ids (erl_write now u m k e st)"
      using assms(2) all unfolding w unfolding st read_once_def by auto
    moreover have "more_refs st (erl_write now u m k e st)"
      unfolding w unfolding st more_refs_def old_def by auto
    ultimately show ?thesis unfolding w by auto
  qed
qed

lemma erl_try_step:
  assumes "agrees u st" and "read_once ids st" and "cm_id m \<in> set ids" and "length ids \<le> 50"
  shows "agrees u (erl_try tr now u (cm_id m) (strip (cm_content m)) k st) \<and>
    read_once ids (erl_try tr now u (cm_id m) (strip (cm_content m)) k st) \<and>
    more_refs st (erl_try tr now u (cm_id m) (strip (cm_content m)) k st) \<and>
    counted tr m [k] (erl_try tr now u (cm_id m) (strip (cm_content m)) k st)"
  using erl_write_step [OF assms] assms(1,2) more_refs_refl
  unfolding erl_try_def counted_def Let_def by (auto split: option.split)

lemma erl_tries_step:
  assumes "agrees u st" and "read_once ids st" and "cm_id m \<in> set ids" and "length ids \<le> 50"
  shows "let st' = fold (erl_try tr now u (cm_id m) (strip (cm_content m))) ks st in
    agrees u st' \<and> read_once ids st' \<and> more_refs st st' \<and> counted tr m ks st'"
  using assms(1,2)
proof (induction ks arbitrary: st)
  case Nil
  then show ?case by (simp add: more_refs_refl counted_def)
next
  case (Cons k ks)
  let ?st = "erl_try tr now u (cm_id m) (strip (cm_content m)) k st"
  have one: "agrees u ?st" "read_once ids ?st" "more_refs st ?st" "counted tr m [k] ?st"
    using erl_try_step [OF Cons.prems assms(3,4)] by blast+
  have rest: "let st' = fold (erl_try tr now u (cm_id m) (strip (cm_content m))) ks ?st in
    agrees u st' \<and> read_once ids st' \<and> more_refs ?st st' \<and> counted tr m ks st'"
    by (rule Cons.IH [OF one(1,2)])
  then have more: "more_refs ?st (fold (erl_try tr now u (cm_id m) (strip (cm_content m))) ks ?st)"
    by (simp add: Let_def)
  show ?case
    using rest counted_more [OF one(4) more] more_refs_trans [OF one(3) more]
    by (simp add: Let_def counted_def)
qed

definition scanned :: "text_rules \<Rightarrow> coach_memory \<Rightarrow> erl_state \<Rightarrow> bool" where
  "scanned tr m st \<longleftrightarrow> (let s = strip (cm_content m) in
     s = [] \<or> 200 < length s \<or> ends_with CHR ''?'' s \<or> counted tr m erl_patterns st)"

lemma erl_message_step:
  assumes "agrees u st" and "read_once ids st" and "cm_id m \<in> set ids" and "length ids \<le> 50"
  shows "agrees u (erl_message tr now u m st) \<and> read_once ids (erl_message tr now u m st) \<and>
    more_refs st (erl_message tr now u m st) \<and> scanned tr m (erl_message tr now u m st)"
  using erl_tries_step [OF assms, of tr now erl_patterns] assms(1,2) more_refs_refl
  unfolding erl_message_def scanned_def Let_def by auto

lemma scanned_more: "scanned tr m st \<Longrightarrow> more_refs st st' \<Longrightarrow> scanned tr m st'"
  unfolding scanned_def Let_def by (auto intro: counted_more)

lemma erl_messages_step:
  assumes "agrees u st" and "read_once ids st" and "cm_id ` set ms \<subseteq> set ids" and "length ids \<le> 50"
  shows "agrees u (fold (erl_message tr now u) ms st) \<and> more_refs st (fold (erl_message tr now u) ms st) \<and>
    (\<forall>m \<in> set ms. scanned tr m (fold (erl_message tr now u) ms st))"
  using assms(1,2,3)
proof (induction ms arbitrary: st)
  case Nil
  then show ?case by (simp add: more_refs_refl)
next
  case (Cons m ms)
  let ?st = "erl_message tr now u m st"
  have one: "agrees u ?st" "read_once ids ?st" "more_refs st ?st" "scanned tr m ?st"
    using erl_message_step [OF Cons.prems(1,2) _ assms(4), of m tr now] Cons.prems(3) by auto
  have rest: "agrees u (fold (erl_message tr now u) ms ?st)" "more_refs ?st (fold (erl_message tr now u) ms ?st)"
    "\<forall>m \<in> set ms. scanned tr m (fold (erl_message tr now u) ms ?st)"
    using Cons.IH [OF one(1,2)] Cons.prems(3) by auto
  show ?case using rest more_refs_trans [OF one(3) rest(2)] scanned_more [OF one(4) rest(2)] by simp
qed

text \<open>Read a second time, a message changes nothing.\<close>

lemma counted_same: "counted tr m [k] st \<Longrightarrow> erl_try tr now u (cm_id m) (strip (cm_content m)) k st = st"
  unfolding counted_def erl_try_def erl_write_def Let_def
  by (cases st; cases "erl_search tr k (strip (cm_content m))") auto

lemma counted_again: "counted tr m ks st \<Longrightarrow> fold (erl_try tr now u (cm_id m) (strip (cm_content m))) ks st = st"
proof (induction ks)
  case (Cons k ks)
  have "counted tr m [k] st" and rest: "counted tr m ks st"
    using Cons.prems unfolding counted_def Let_def by simp_all
  then have "erl_try tr now u (cm_id m) (strip (cm_content m)) k st = st" by (simp only: counted_same)
  then show ?case using Cons.IH [OF rest] by simp
qed simp

lemma scanned_again: "scanned tr m st \<Longrightarrow> erl_message tr now u m st = st"
  unfolding scanned_def erl_message_def Let_def by (auto simp: counted_again)

lemma all_scanned_again: "(\<forall>m \<in> set ms. scanned tr m st) \<Longrightarrow> fold (erl_message tr now u) ms st = st"
  by (induction ms) (simp_all add: scanned_again)

text \<open>The references the table holds already are to messages of the window.\<close>

definition refs_within :: "nat list \<Rightarrow> nat \<Rightarrow> insight list \<Rightarrow> bool" where
  "refs_within ids u t \<longleftrightarrow> list_all (\<lambda>r. in_user r \<noteq> u \<or> in_type r \<noteq> Some Explicit_Red_Line \<or>
     (case in_refs r of None \<Rightarrow> True | Some rs \<Rightarrow> distinct rs \<and> set rs \<subseteq> set (map Coach_Memory ids))) t"

lemma refs_within_read: "refs_within ids u t \<Longrightarrow> read_once ids (t, refs_map u t)"
  unfolding read_once_def
proof (intro allI impI)
  fix x rs assume w: "refs_within ids u t" and "snd (t, refs_map u t) x = Some rs"
  then obtain r where "List.find (is_key u Explicit_Red_Line x) t = Some r" and rs: "in_refs r = Some rs"
    by (auto simp: refs_map_def bind_eq_Some_conv)
  then have "r \<in> set t" "in_user r = u" "in_type r = Some Explicit_Red_Line"
    using find_Some_prop [of "is_key u Explicit_Red_Line x" t r] by (auto simp: is_key_def)
  then show "distinct rs \<and> set rs \<subseteq> Coach_Memory ` set ids"
    using w rs unfolding refs_within_def list_all_iff by fastforce
qed

lemma later_messages: "simdi c \<le> simdi c' \<Longrightarrow> set (user_messages c' u h) \<subseteq> set (user_messages c u h)"
  unfolding user_messages_def by auto


subsection \<open>The block of the prompt\<close>

lemma shown_prefix: "take (length (shown_blocks k used bs)) bs = shown_blocks k used bs"
  by (induction bs arbitrary: used) auto

lemma shown_fits: "shown_blocks k used bs \<noteq> [] \<Longrightarrow> used + sum_list (map token_tahmini (shown_blocks k used bs)) \<le> k"
proof (induction bs arbitrary: used)
  case (Cons b bs)
  then have fits: "\<not> k < used + token_tahmini b" by (auto split: if_splits)
  show ?case
  proof (cases "shown_blocks k (used + token_tahmini b) bs = []")
    case True
    then show ?thesis using fits by simp
  next
    case False
    show ?thesis using Cons.IH [OF False] fits by simp
  qed
qed simp

lemma shown_maximal:
  assumes "length (shown_blocks k used bs) < length bs"
  shows "k < used + sum_list (map token_tahmini (take (Suc (length (shown_blocks k used bs))) bs))"
  using assms
proof (induction bs arbitrary: used)
  case (Cons b bs)
  then show ?case using Cons.IH [of "used + token_tahmini b"] by (auto simp: add.assoc split: if_splits)
qed simp

lemma no_newline:
  assumes "\<forall>c \<in> set s. \<not> kontrol c"
  shows "CHR 0x0A \<notin> set s"
proof
  assume "CHR 0x0A \<in> set s"
  moreover have "kontrol (CHR 0x0A)" by (simp add: kontrol_def code_of_def)
  ultimately show False using assms by blast
qed

lemma guvenli_no_newline: "CHR 0x0A \<notin> set (guvenli_metin k s)"
  by (rule no_newline) (use guvenli_structureless [of k s] in \<open>simp add: structureless_def list_all_iff\<close>)

lemma type_name_no_newline: "CHR 0x0A \<notin> set (type_name ty)"
  unfolding type_name_def by (simp split: option.split insight_type.split)

lemma basis_name_no_newline: "CHR 0x0A \<notin> set (basis_name b)"
  unfolding basis_name_def by (simp split: option.split basis.split)

lemma count_no_newline: "CHR 0x0A \<notin> set s \<Longrightarrow> count_list s (CHR 0x0A) = 0"
  by (simp add: count_list_0_iff)

lemma block_lines: "count_list (insight_block wording r) (CHR 0x0A) = 4"
proof -
  have t: "count_list (or_text d (guvenli_metin k x)) (CHR 0x0A) = count_list d (CHR 0x0A) \<or>
      count_list (or_text d (guvenli_metin k x)) (CHR 0x0A) = 0" for d k x
    using guvenli_no_newline [of k x] by (auto simp: or_text_def count_list_0_iff)
  have "count_list (or_text ''(baslik yok)'' (guvenli_metin 0 x)) (CHR 0x0A) = 0"
    "count_list (or_text ''(icerik yok)'' (guvenli_metin 0 x)) (CHR 0x0A) = 0" for x
    using t [of "''(baslik yok)''" 0 x] t [of "''(icerik yok)''" 0 x] by simp_all
  then show ?thesis unfolding insight_block_def nl_def
    by (simp add: count_no_newline type_name_no_newline basis_name_no_newline)
qed

lemma best_taken:
  fixes f :: "'a \<Rightarrow> 'b :: linorder"
  assumes "x \<in> set (take n (sort_key f xs))" and "y \<in> set xs" and "y \<notin> set (take n (sort_key f xs))"
  shows "f x \<le> f y"
proof -
  let ?ys = "sort_key f xs"
  have "set (take n ?ys) \<union> set (drop n ?ys) = set ?ys" unfolding set_append [symmetric] append_take_drop_id ..
  then have "y \<in> set (drop n ?ys)" using assms(2,3) by auto
  moreover have "sorted (map f (take n ?ys @ drop n ?ys))" by simp
  ultimately show ?thesis using assms(1) unfolding map_append sorted_append by auto
qed

lemma sorted_best: "sorted (map f (take n (sort_key f xs)))"
  unfolding take_map [symmetric] by (rule sorted_wrt_take) simp

lemma best_first:
  fixes f :: "'a \<Rightarrow> 'b :: linorder"
  shows "list_all (\<lambda>y. y \<in> set (take n (sort_key f xs)) \<or> list_all (\<lambda>x. f x \<le> f y) (take n (sort_key f xs))) xs"
  unfolding list_all_iff
proof
  fix y assume y: "y \<in> set xs"
  show "y \<in> set (take n (sort_key f xs)) \<or> (\<forall>x \<in> set (take n (sort_key f xs)). f x \<le> f y)"
  proof (cases "y \<in> set (take n (sort_key f xs))")
    case False
    then show ?thesis using y by (intro disjI2 ballI) (rule best_taken)
  qed (rule disjI1)
qed

definition shown_insights :: "(insight_text \<Rightarrow> string) \<Rightarrow> nat \<Rightarrow> nat \<Rightarrow> insight list \<Rightarrow> insight list" where
  "shown_insights wording k u t = (let ins = prompt_insights u t in
     take (length (shown_blocks k (token_tahmini prompt_header) (map (insight_block wording) ins))) ins)"

lemma shown_insights_blocks:
  "map (insight_block wording) (shown_insights wording k u t) =
     shown_blocks k (token_tahmini prompt_header) (map (insight_block wording) (prompt_insights u t))"
  unfolding shown_insights_def Let_def take_map [symmetric] by (rule shown_prefix)

lemma shown_budget:
  "shown_insights wording k u t = [] \<or>
   token_tahmini prompt_header + (\<Sum>r\<leftarrow>shown_insights wording k u t. token_tahmini (insight_block wording r)) \<le> k"
proof (cases "shown_insights wording k u t = []")
  case False
  then have "map (insight_block wording) (shown_insights wording k u t) \<noteq> []" by (simp only: map_is_Nil_conv not_False_eq_True)
  then show ?thesis
    unfolding shown_insights_blocks
    using shown_fits [of k "token_tahmini prompt_header" "map (insight_block wording) (prompt_insights u t)"]
    by (simp only: shown_insights_blocks [symmetric] map_map comp_def simp_thms)
qed (rule disjI1)

lemma shown_full:
  "length (prompt_insights u t) \<le> length (shown_insights wording k u t) \<or>
   k < token_tahmini prompt_header + (\<Sum>r\<leftarrow>take (Suc (length (shown_insights wording k u t))) (prompt_insights u t).
        token_tahmini (insight_block wording r))"
proof (cases "length (prompt_insights u t) \<le> length (shown_insights wording k u t)")
  case False
  let ?blocks = "shown_blocks k (token_tahmini prompt_header) (map (insight_block wording) (prompt_insights u t))"
  have len: "length ?blocks = length (shown_insights wording k u t)"
    unfolding shown_insights_blocks [symmetric] by (rule length_map)
  have "length ?blocks < length (map (insight_block wording) (prompt_insights u t))"
    unfolding len length_map using False by (rule not_le_imp_less)
  from shown_maximal [OF this] show ?thesis unfolding len take_map map_map comp_def by (rule disjI2)
qed (rule disjI1)


subsection \<open>Concrete runs\<close>

definition ex_clock :: clock where
  "ex_clock = \<lparr>simdi = 10000000, bugun = Date 2026 4 1, yerel_saat = (\<lambda>x. nat (x div 3600) mod 24)\<rparr>"

definition ex_said :: "nat \<Rightarrow> nat \<Rightarrow> string \<Rightarrow> coach_memory" where
  "ex_said i u s = \<lparr>cm_id = i, cm_user = u, cm_role = Role_User, cm_content = s, cm_calls = None, cm_call_id = None, cm_actions = None,
     cm_time = 9000000 + int i\<rparr>"

definition ex_recorded :: "nat \<Rightarrow> date \<Rightarrow> rat \<Rightarrow> nw_snapshot" where
  "ex_recorded i d full = \<lparr>nw_id = i, nw_user = 1, nw_ws = None, nw_date = d, nw_seen = 1000, nw_full = full,
     nw_cash = 1000, nw_card = 0, nw_loan = 0, nw_inv = 0, nw_recv = 0\<rparr>"

definition ex_history :: history where
  "ex_history = \<lparr>hi_db = empty_db, hi_actions = [], hi_memories = [ex_said 1 1 ''Asla kredi cekmem'', ex_said 2 2 ''Selam'',
       ex_said 3 1 ''Asla borca girmem''], hi_pendings = [],
     hi_snaps = replicate 20 (ex_recorded 2 (Date 2026 3 20) 9000) @ replicate 60 (ex_recorded 1 (Date 2026 1 20) 1000)\<rparr>"

definition ex_rules :: text_rules where
  "ex_rules = \<lparr>tr_normalize = (\<lambda>s. s), erl_search = (\<lambda>k s. if k = Kesin_Red \<and> take 4 s = ''Asla'' then Some (0, 4) else None),
     erl_financial = (\<lambda>s. True)\<rparr>"

definition ex_batch :: batch_env where
  "ex_batch = \<lparr>be_rules = ex_rules, be_clock = ex_clock, be_history = ex_history, be_llm = (\<lambda>_. Provider_Unavailable),
     be_breaks = (\<lambda>_ _. False)\<rparr>"

definition ex_foreign :: "insight list" where
  "ex_foreign = save_or_update_insight 5 3 Explicit_Red_Line ''Kural'' (Said ''Kural'') User_Stated [] True 9 []"

definition ex_note :: note_args where
  "ex_note = \<lparr>na_content = Some (J_Str ''Kirayi ayin besinde oder''), na_category = None, na_priority = Some (J_Str ''high''),
     na_dedup = None, na_expires = None\<rparr>"

definition ex_steps :: "(nat \<times> insight_op) list" where
  "ex_steps = [(1, Extract ex_batch None ''explicit_red_line_k1''), (1, Note ex_rules (\<lambda>_. None) 6 (Some ex_note)),
     (2, Extract ex_batch None ''decision_rhythm'')]"

lemma insights_unique_and_private_witness:
  "insight_keys_ok (fold insight_step ex_steps ex_foreign) \<and>
   filter (\<lambda>r. in_user r = 3) (fold insight_step ex_steps ex_foreign) = filter (\<lambda>r. in_user r = 3) ex_foreign"
proof -
  have "insight_keys_ok ex_foreign" by code_simp
  from insights_unique_and_private [OF this, of ex_steps 3] show ?thesis by (simp add: ex_steps_def)
qed

text \<open>The net worth grew by 8000: a warning of an earlier run is to go.\<close>

definition ex_warned :: "insight list" where
  "ex_warned = save_or_update_insight 5 1 Setback ''Dikkat: Net deger kotulesmesi'' (Change_Text 1 2 0) Data_Grounded [] True 7 []"



subsection \<open>Observations\<close>

text \<open>A rhythm the user returns to is counted again but stays dormant.\<close>

lemma rhythm_stays_dormant:
  "filter (is_key u Decision_Rhythm title) (save_or_update_insight now u Decision_Rhythm title txt b refs True p
     [r\<lparr>in_user := u, in_type := Some Decision_Rhythm, in_title := Some title, in_status := St_Dormant\<rparr>]) \<noteq> [] \<and>
   list_all (\<lambda>x. in_status x \<noteq> St_Active) (save_or_update_insight now u Decision_Rhythm title txt b refs True p
     [r\<lparr>in_user := u, in_type := Some Decision_Rhythm, in_title := Some title, in_status := St_Dormant\<rparr>])"
  by (simp add: save_or_update_insight_def check_and_invalidate_def upd_key_def is_key_def Let_def)

text \<open>After a flush the database refuses, the other extractors of the user's batch do nothing.\<close>

lemma silent_after_break: "snd (fold (guarded_extractor e w u) xs (Needs_Rollback, t)) = t"
  by (induction xs) (simp_all add: guarded_extractor_def)

lemma broken_batch_silent:
  assumes "be_breaks e u ''breakthrough''"
  shows "run_periodic_batch_for_user e wss u t = t"
  using assms silent_after_break
  by (simp add: run_periodic_batch_for_user_def nightly_batch_extractors_def guarded_extractor_def)

text \<open>A note past its date is still shown.\<close>

lemma expired_note_shown:
  "prompt_insights 1 [(note_insert 1 5 1 (ay\<lparr>ay_expires := Some (Date 2020 1 1)\<rparr>))] =
     [note_insert 1 5 1 (ay\<lparr>ay_expires := Some (Date 2020 1 1)\<rparr>)]"
  by (simp add: prompt_insights_def prompt_candidates_def note_insert_def operator_type_def)

end
