(* ===== verification/Scheduler_Laws.thy ===== *)
theory Scheduler_Laws
  imports Scheduler Auth_Laws
begin

text \<open>
  What the jobs of app/scheduler.py keep: the clean-up of revoked tokens cannot be observed through any request,
  the record of the runs stays short, and a start-up runs exactly the jobs that are overdue.
\<close>

subsection \<open>Revocations that no longer matter\<close>

text \<open>The two states differ in their revocations alone, and only in those of tokens expired at \<open>n\<close>.\<close>

definition same_live :: "int \<Rightarrow> auth_db \<Rightarrow> auth_db \<Rightarrow> bool" where
  "same_live n s s' \<longleftrightarrow> users s' = users s \<and> minted s' = minted s \<and> ws_tables s' = ws_tables s \<and>
     beta_invites s' = beta_invites s \<and> outbox s' = outbox s \<and>
     (\<forall>c \<in> set (minted s). cl_jti c < length (minted s)) \<and>
     (\<forall>c \<in> set (minted s). n < cl_exp c \<longrightarrow> token_revoked s' (cl_jti c) = token_revoked s (cl_jti c)) \<and>
     (\<forall>j. length (minted s) \<le> j \<longrightarrow> \<not> token_revoked s j \<and> \<not> token_revoked s' j)"

definition same_reply :: "int \<Rightarrow> auth_db \<times> 'a \<Rightarrow> auth_db \<times> 'a \<Rightarrow> bool" where
  "same_reply n p q \<longleftrightarrow> same_live n (fst p) (fst q) \<and> snd p = snd q"

named_theorems alike \<open>operations that keep two states alike\<close>

lemma same_live_sel:
  assumes "same_live n s s'"
  shows "users s' = users s" "minted s' = minted s" "ws_tables s' = ws_tables s" "beta_invites s' = beta_invites s"
    "outbox s' = outbox s"
  using assms unfolding same_live_def by simp_all

lemma same_live_lookup:
  assumes "same_live n s s'"
  shows "decode_token ty t s' tok = decode_token ty t s tok" "get_user s' i = get_user s i"
    "user_by_email s' m = user_by_email s m" "hash_password e p s' = hash_password e p s"
    "new_user_id s' = new_user_id s" "fallback_user s' = fallback_user s"
  using same_live_sel [OF assms]
  by (simp_all add: decode_token_def get_user_def user_by_email_def hash_password_def new_user_id_def fallback_user_def
      cong: option.case_cong)

lemma same_live_revoked:
  assumes "same_live n s s'" and "n \<le> t" and "decode_token ty t s tok = Some c"
  shows "token_revoked s' (cl_jti c) = token_revoked s (cl_jti c)"
proof -
  have "c \<in> set (minted s)" "t < cl_exp c" using assms(3) by (auto simp: decode_token_def split: option.splits if_splits)
  then show ?thesis using assms(1,2) by (auto simp: same_live_def)
qed

lemma same_live_later: "same_live n s s' \<Longrightarrow> n \<le> t \<Longrightarrow> same_live t s s'"
  unfolding same_live_def by auto

lemma same_reply_pair [alike]: "same_live n s s' \<Longrightarrow> same_reply n (s, r) (s', r)"
  by (simp add: same_reply_def)

lemma same_upd_user [alike]: "same_live n s s' \<Longrightarrow> same_live n (upd_user i f s) (upd_user i f s')"
  unfolding same_live_def upd_user_def token_revoked_def by simp

lemma same_set_hash [alike]: "same_live n s s' \<Longrightarrow> same_live n (set_hash e p u s) (set_hash e p u s')"
  unfolding set_hash_def by (simp add: same_live_lookup same_upd_user)

lemma same_send [alike]: "same_live n s s' \<Longrightarrow> same_live n (send m c s) (send m c s')"
  unfolding same_live_def send_def token_revoked_def by simp

lemma same_ws_tables [alike]: "same_live n s s' \<Longrightarrow> same_live n (s\<lparr>ws_tables := w\<rparr>) (s'\<lparr>ws_tables := w\<rparr>)"
  unfolding same_live_def token_revoked_def by simp

lemma same_add_user [alike]: "same_live n s s' \<Longrightarrow> same_live n (add_user u s) (add_user u s')"
  unfolding same_live_def add_user_def token_revoked_def by simp

lemma same_open_account [alike]: "same_live n s s' \<Longrightarrow> same_live n (open_account t u d s) (open_account t u d s')"
  using same_add_user [of n s s' u] unfolding same_live_def open_account_def Let_def token_revoked_def
  by (simp split: option.split)

lemma same_mint [alike]:
  assumes "same_live n s s'"
  shows "same_reply n (mint ty i ttl tv a b t s) (mint ty i ttl tv a b t s')"
proof -
  have l: "length (minted s') = length (minted s)" using same_live_sel [OF assms] by simp
  have "\<not> token_revoked s (length (minted s))" "\<not> token_revoked s' (length (minted s))"
    using assms unfolding same_live_def by blast+
  then show ?thesis using assms unfolding mint_def Let_def same_reply_def same_live_def l token_revoked_def
    by (auto simp: less_Suc_eq)
qed

lemmas token_makers = create_token_def create_access_token_def create_refresh_token_def create_oauth_exchange_code_def
  create_email_verification_token_def create_password_reset_token_def create_email_change_token_def new_state_def

lemma same_replyD: "same_reply n (s, r) (s', r') \<Longrightarrow> same_live n s s' \<and> r' = r"
  by (simp add: same_reply_def)

lemma same_case_mint [alike]:
  assumes "same_live n s s'" and "\<And>w w' c. same_live n w w' \<Longrightarrow> same_reply n (f w c) (g w' c)"
  shows "same_reply n (case mint ty i ttl tv a b t s of (w, c) \<Rightarrow> f w c) (case mint ty i ttl tv a b t s' of (w, c) \<Rightarrow> g w c)"
  using same_mint [OF assms(1), of ty i ttl tv a b t] assms(2)
  by (cases "mint ty i ttl tv a b t s"; cases "mint ty i ttl tv a b t s'") (auto dest: same_replyD)

lemma same_issue_tokens [alike]:
  assumes "same_live n s s'"
  shows "same_reply n (issue_tokens i tv t s) (issue_tokens i tv t s')"
  unfolding issue_tokens_def token_makers Let_def
  using assms by (intro alike)

lemma decoded_minted: "decode_token ty t s tok = Some c \<Longrightarrow> c \<in> set (minted s)"
  by (auto simp: decode_token_def split: option.splits if_splits)

lemma minted_kept: "minted (upd_user i f s) = minted s" "minted (set_hash e p u s) = minted s" "minted (revoke_jti c s) = minted s"
  by (simp_all add: upd_user_def set_hash_def revoke_jti_def)

lemma same_revoke [alike]:
  assumes "same_live n s s'" and "c \<in> set (minted s)"
  shows "same_live n (revoke_jti c s) (revoke_jti c s')"
proof -
  have "cl_jti c < length (minted s)" using assms by (auto simp: same_live_def)
  then have "\<forall>j. length (minted s) \<le> j \<longrightarrow> \<not> token_revoked (revoke_jti c s) j \<and> \<not> token_revoked (revoke_jti c s') j"
    using assms(1) unfolding same_live_def by auto
  moreover have "users (revoke_jti c w) = users w" "minted (revoke_jti c w) = minted w"
    "ws_tables (revoke_jti c w) = ws_tables w" "beta_invites (revoke_jti c w) = beta_invites w"
    "outbox (revoke_jti c w) = outbox w" for w by (simp_all add: revoke_jti_def)
  ultimately show ?thesis using assms(1) unfolding same_live_def by simp
qed

lemma same_get_current_user:
  assumes "same_live n s s'" and "n \<le> t"
  shows "get_current_user e t s' hdr = get_current_user e t s hdr"
  using same_live_lookup [OF assms(1)] same_live_revoked [OF assms]
  unfolding get_current_user_def Let_def by (simp split: option.split)

lemma same_case_option [alike]:
  "(x = None \<Longrightarrow> same_reply n f g) \<Longrightarrow> (\<And>y. x = Some y \<Longrightarrow> same_reply n (f' y) (g' y)) \<Longrightarrow>
   same_reply n (case x of None \<Rightarrow> f | Some y \<Rightarrow> f' y) (case x of None \<Rightarrow> g | Some y \<Rightarrow> g' y)"
  by (cases x) simp_all

lemma same_case_sum [alike]:
  "(\<And>a. x = Inl a \<Longrightarrow> same_reply n (f a) (g a)) \<Longrightarrow> (\<And>b. x = Inr b \<Longrightarrow> same_reply n (f' b) (g' b)) \<Longrightarrow>
   same_reply n (case x of Inl a \<Rightarrow> f a | Inr b \<Rightarrow> f' b) (case x of Inl a \<Rightarrow> g a | Inr b \<Rightarrow> g' b)"
  by (cases x) simp_all

lemma same_if [alike]:
  "(P \<Longrightarrow> same_reply n a b) \<Longrightarrow> (\<not> P \<Longrightarrow> same_reply n c d) \<Longrightarrow> same_reply n (if P then a else c) (if P then b else d)"
  by simp

lemma same_if_live [alike]:
  "(P \<Longrightarrow> same_live n a b) \<Longrightarrow> (\<not> P \<Longrightarrow> same_live n c d) \<Longrightarrow> same_live n (if P then a else c) (if P then b else d)"
  by simp

text \<open>A token that decodes is asked for in the list of revocations: both states answer the same.\<close>

lemma same_if_revoked [alike]:
  assumes "same_live n s s'" and "n \<le> t" and "decode_token ty t s tok = Some c"
    and "token_revoked s (cl_jti c) \<Longrightarrow> same_reply n a b" and "\<not> token_revoked s (cl_jti c) \<Longrightarrow> same_reply n x y"
  shows "same_reply n (if token_revoked s (cl_jti c) then a else x) (if token_revoked s' (cl_jti c) then b else y)"
  using assms(4,5) by (simp add: same_live_revoked [OF assms(1-3)])

lemmas same_rules = same_live_lookup same_get_current_user minted_kept decoded_minted

lemma same_verify_email [alike]:
  "same_live n s s' \<Longrightarrow> n \<le> t \<Longrightarrow> same_reply n (verify_email t tok s) (verify_email t tok s')"
  unfolding verify_email_def by (auto simp: same_rules intro!: alike)

lemma same_register [alike]:
  "same_live n s s' \<Longrightarrow> same_reply n (register e t b s) (register e t b s')"
proof -
  assume s: "same_live n s s'"
  have u: "registered_user e t b s' = registered_user e t b s"
    unfolding registered_user_def by (simp add: same_live_lookup [OF s])
  show ?thesis using s
    unfolding register_def Let_def u token_makers same_live_lookup [OF s] same_live_sel [OF s]
    by (intro alike; simp add: alike)
qed

lemma same_login [alike]: "same_live n s s' \<Longrightarrow> same_reply n (login e t m p s) (login e t m p s')"
  unfolding login_def by (auto simp: same_rules intro!: alike)

lemma same_change_password [alike]:
  "same_live n s s' \<Longrightarrow> n \<le> t \<Longrightarrow> same_reply n (change_password e t hdr p q s) (change_password e t hdr p q s')"
  unfolding change_password_def by (auto simp: same_rules intro!: alike)

lemma same_set_password [alike]:
  "same_live n s s' \<Longrightarrow> n \<le> t \<Longrightarrow> same_reply n (set_password e t hdr q s) (set_password e t hdr q s')"
  unfolding set_password_def by (auto simp: same_rules intro!: alike)

lemma same_reset_confirm [alike]:
  "same_live n s s' \<Longrightarrow> n \<le> t \<Longrightarrow> same_reply n (password_reset_confirm e t tok q s) (password_reset_confirm e t tok q s')"
  unfolding password_reset_confirm_def by (auto simp: same_rules intro!: alike)

lemma same_email_confirm [alike]:
  "same_live n s s' \<Longrightarrow> n \<le> t \<Longrightarrow> same_reply n (change_email_confirm t tok s) (change_email_confirm t tok s')"
  unfolding change_email_confirm_def by (auto simp: same_rules same_live_sel intro!: alike)

lemma same_exchange [alike]:
  "same_live n s s' \<Longrightarrow> n \<le> t \<Longrightarrow> same_reply n (oauth_exchange t tok s) (oauth_exchange t tok s')"
  unfolding oauth_exchange_def by (auto simp: same_rules intro!: alike)

lemma same_consent [alike]:
  "same_live n s s' \<Longrightarrow> n \<le> t \<Longrightarrow> same_reply n (kvkk_consent_tazele e t hdr s) (kvkk_consent_tazele e t hdr s')"
  unfolding kvkk_consent_tazele_def by (auto simp: same_rules intro!: alike)

lemma same_reset_request [alike]:
  "same_live n s s' \<Longrightarrow> same_reply n (password_reset_request e t m s) (password_reset_request e t m s')"
  unfolding password_reset_request_def Let_def token_makers by (auto simp: same_rules intro!: alike)

lemma same_change_email [alike]:
  "same_live n s s' \<Longrightarrow> n \<le> t \<Longrightarrow> same_reply n (change_email e t hdr m p s) (change_email e t hdr m p s')"
  unfolding change_email_def Let_def token_makers by (auto simp: same_rules intro!: alike)

lemma same_oauth_login [alike]:
  "same_live n s s' \<Longrightarrow> same_reply n (oauth_login a b t s) (oauth_login a b t s')"
  unfolding oauth_login_def Let_def token_makers by (auto intro!: alike)

lemma same_case_result [alike]:
  assumes "same_reply n p q" and "\<And>w w' err. same_live n w w' \<Longrightarrow> same_reply n (f w err) (g w' err)"
    and "\<And>w w' x. same_live n w w' \<Longrightarrow> q = (w', Inr x) \<Longrightarrow> p = (w, Inr x) \<Longrightarrow> same_reply n (f' w x) (g' w' x)"
  shows "same_reply n (case p of (w, Inl err) \<Rightarrow> f w err | (w, Inr x) \<Rightarrow> f' w x)
    (case q of (w, Inl err) \<Rightarrow> g w err | (w, Inr x) \<Rightarrow> g' w x)"
  using assms by (cases p; cases q; cases "snd p") (auto simp: same_reply_def)

lemma same_refresh_check [alike]:
  "same_live n s s' \<Longrightarrow> n \<le> t \<Longrightarrow> same_reply n (refresh_check t tok s) (refresh_check t tok s')"
  unfolding refresh_check_def by (auto simp: same_rules intro!: alike)

lemma refresh_check_minted: "refresh_check t tok s = (w, Inr (u, c)) \<Longrightarrow> c \<in> set (minted w)"
  by (auto simp: refresh_check_def dest: decoded_minted split: option.splits if_splits)

lemma same_refresh [alike]:
  assumes "same_live n s s'" and "n \<le> t"
  shows "same_reply n (refresh t tok s) (refresh t tok s')"
  unfolding refresh_def refresh_rotate_def
  by (rule same_case_result [OF same_refresh_check [OF assms]])
    (auto dest: refresh_check_minted intro!: alike)

lemma same_logout [alike]:
  assumes "same_live n s s'" and "n \<le> t"
  shows "same_reply n (logout t hdr tok s) (logout t hdr tok s')"
proof -
  define f where "f = (\<lambda>s. case hdr of None \<Rightarrow> s
     | Some x \<Rightarrow> (case decode_token Access t s x of None \<Rightarrow> s | Some a \<Rightarrow> revoke_jti a s))"
  have "same_live n (f s) (f s')" using assms unfolding f_def
    by (auto simp: same_rules intro!: same_revoke split: option.split)
  moreover have "logout t hdr tok x = (case decode_token Refresh t (f x) tok of None \<Rightarrow> (f x, Inr Done)
      | Some c \<Rightarrow> (revoke_jti c (f x), Inr Done))" for x
    unfolding logout_def f_def Let_def ..
  ultimately show ?thesis by (auto simp: same_rules intro!: alike)
qed

lemma same_oauth_account [alike]:
  "same_live n s s' \<Longrightarrow> same_reply n (oauth_account e t info s) (oauth_account e t info s')"
  unfolding oauth_account_def oauth_user_def
  by (auto simp: same_rules same_live_sel intro!: alike)

lemma same_oauth_finish [alike]:
  "same_live n s s' \<Longrightarrow> same_reply n (oauth_finish t i s) (oauth_finish t i s')"
  unfolding oauth_finish_def Let_def token_makers by (auto simp: same_rules same_live_sel intro!: alike)

lemma same_consume_state [alike]:
  "same_live n s s' \<Longrightarrow> n \<le> t \<Longrightarrow> same_reply n (consume_state t st s) (consume_state t st s')"
  unfolding consume_state_def by (auto simp: same_rules intro!: alike)

lemma same_oauth_callback [alike]:
  assumes "same_live n s s'" and "n \<le> t"
  shows "same_reply n (oauth_callback e t st info s) (oauth_callback e t st info s')"
  using same_consume_state [OF assms, of st] unfolding oauth_callback_def
  by (cases "consume_state t st s"; cases "consume_state t st s'") (auto dest!: same_replyD intro!: alike)

text \<open>Every request is answered alike.\<close>

lemma same_handle:
  assumes "same_live n s s'" and "n \<le> t"
  shows "same_reply n (handle e t rq s) (handle e t rq s')"
proof (cases rq)
  case (Rq_Me hdr)
  then show ?thesis using assms unfolding handle_def by (auto simp: same_rules intro!: alike)
qed (use assms in \<open>simp add: handle_def alike\<close>)+

subsection \<open>Where revocations come from\<close>

text \<open>Tokens are numbered, and a revocation names a signed token with its end.\<close>

definition dated :: "auth_db \<Rightarrow> bool" where
  "dated s \<longleftrightarrow> map cl_jti (minted s) = [0..<length (minted s)] \<and>
     (\<forall>(j, x) \<in> set (revoked s). \<exists>c \<in> set (minted s). cl_jti c = j \<and> cl_exp c = x)"

definition dated_reply :: "auth_db \<times> 'a \<Rightarrow> bool" where
  "dated_reply p \<longleftrightarrow> dated (fst p)"

named_theorems dating \<open>operations that keep revocations dated\<close>

lemma dated_pair [dating]: "dated s \<Longrightarrow> dated_reply (s, r)"
  by (simp add: dated_reply_def)

lemma dated_same: "dated s \<Longrightarrow> minted s' = minted s \<Longrightarrow> revoked s' = revoked s \<Longrightarrow> dated s'"
  unfolding dated_def by simp

lemma dated_kept [dating]:
  "dated s \<Longrightarrow> dated (upd_user i f s)" "dated s \<Longrightarrow> dated (set_hash e p u s)" "dated s \<Longrightarrow> dated (send m c s)"
  "dated s \<Longrightarrow> dated (s\<lparr>ws_tables := w\<rparr>)" "dated s \<Longrightarrow> dated (open_account t v d s)"
  by (erule dated_same; simp add: upd_user_def set_hash_def send_def open_account_def add_user_def Let_def split: option.split)+

lemma dated_revoke [dating]: "dated s \<Longrightarrow> c \<in> set (minted s) \<Longrightarrow> dated (revoke_jti c s)"
  unfolding dated_def revoke_jti_def by auto

lemma dated_mint [dating]: "dated s \<Longrightarrow> dated_reply (mint ty i ttl tv a b t s)"
  unfolding dated_def dated_reply_def mint_def Let_def by auto

lemma dated_case_mint [dating]:
  assumes "dated s" and "\<And>w c. dated w \<Longrightarrow> dated_reply (f w c)"
  shows "dated_reply (case mint ty i ttl tv a b t s of (w, c) \<Rightarrow> f w c)"
  using dated_mint [OF assms(1), of ty i ttl tv a b t] assms(2)
  by (cases "mint ty i ttl tv a b t s") (simp add: dated_reply_def)

lemma dated_if [dating]: "(P \<Longrightarrow> dated_reply a) \<Longrightarrow> (\<not> P \<Longrightarrow> dated_reply b) \<Longrightarrow> dated_reply (if P then a else b)"
  "(P \<Longrightarrow> dated v) \<Longrightarrow> (\<not> P \<Longrightarrow> dated w) \<Longrightarrow> dated (if P then v else w)"
  by simp_all

lemma dated_case_option [dating]:
  "(x = None \<Longrightarrow> dated_reply f) \<Longrightarrow> (\<And>y. x = Some y \<Longrightarrow> dated_reply (f' y)) \<Longrightarrow>
   dated_reply (case x of None \<Rightarrow> f | Some y \<Rightarrow> f' y)"
  "(x = None \<Longrightarrow> dated v) \<Longrightarrow> (\<And>y. x = Some y \<Longrightarrow> dated (v' y)) \<Longrightarrow> dated (case x of None \<Rightarrow> v | Some y \<Rightarrow> v' y)"
  by (cases x; simp)+

lemma dated_case_sum [dating]:
  "(\<And>a. x = Inl a \<Longrightarrow> dated_reply (f a)) \<Longrightarrow> (\<And>b. x = Inr b \<Longrightarrow> dated_reply (f' b)) \<Longrightarrow>
   dated_reply (case x of Inl a \<Rightarrow> f a | Inr b \<Rightarrow> f' b)"
  by (cases x) simp_all

lemma dated_case_result [dating]:
  assumes "dated_reply p" and "\<And>w err. dated w \<Longrightarrow> dated_reply (f w err)"
    and "\<And>w x. dated w \<Longrightarrow> p = (w, Inr x) \<Longrightarrow> dated_reply (f' w x)"
  shows "dated_reply (case p of (w, Inl err) \<Rightarrow> f w err | (w, Inr x) \<Rightarrow> f' w x)"
  using assms by (cases p; cases "snd p") (auto simp: dated_reply_def)

lemma dated_tokens [dating]: "dated s \<Longrightarrow> dated_reply (issue_tokens i tv t s)"
  unfolding issue_tokens_def token_makers Let_def by (intro dating)

lemma dated_passwords [dating]:
  assumes "dated s"
  shows "dated_reply (change_password e t hdr p q s)" "dated_reply (set_password e t hdr q s)"
    "dated_reply (password_reset_request e t m s)" "dated_reply (password_reset_confirm e t tok q s)"
    "dated_reply (login e t m p s)" "dated_reply (register e t b s)"
  using assms unfolding change_password_def set_password_def password_reset_request_def password_reset_confirm_def
    login_def register_def Let_def token_makers
  by (auto simp: minted_kept decoded_minted intro!: dating)

lemma dated_mails [dating]:
  assumes "dated s"
  shows "dated_reply (verify_email t tok s)" "dated_reply (change_email e t hdr m mp s)"
    "dated_reply (change_email_confirm t tok s)" "dated_reply (kvkk_consent_tazele e t hdr s)"
  using assms unfolding verify_email_def change_email_def change_email_confirm_def kvkk_consent_tazele_def Let_def token_makers
  by (auto simp: minted_kept decoded_minted intro!: dating)

lemma dated_refresh [dating]: "dated s \<Longrightarrow> dated_reply (refresh t tok s)"
proof -
  assume "dated s"
  then have "dated_reply (refresh_check t tok s)" unfolding refresh_check_def by (auto intro!: dating)
  then show ?thesis unfolding refresh_def refresh_rotate_def
    by (rule dated_case_result) (auto dest: refresh_check_minted intro!: dating)
qed

lemma dated_logout [dating]: "dated s \<Longrightarrow> dated_reply (logout t hdr tok s)"
  unfolding logout_def Let_def by (intro dating) (auto dest: decoded_minted intro!: dating split: option.split)

lemma dated_oauth [dating]:
  assumes "dated s"
  shows "dated_reply (oauth_login a b t s)" "dated_reply (oauth_exchange t tok s)"
    "dated_reply (oauth_account e t info s)" "dated_reply (oauth_finish t i s)" "dated_reply (consume_state t tok s)"
  using assms unfolding oauth_login_def oauth_exchange_def oauth_account_def oauth_finish_def consume_state_def Let_def token_makers
  by (auto simp: minted_kept decoded_minted intro!: dating)

lemma dated_callback [dating]:
  assumes "dated s"
  shows "dated_reply (oauth_callback e t st info s)"
proof (cases "consume_state t st s")
  case (Pair w ok)
  then have "dated w" using dated_oauth(5) [OF assms, of t st] by (simp add: dated_reply_def)
  then show ?thesis unfolding oauth_callback_def Pair prod.case by (intro dating) (auto intro!: dating)
qed

lemma dated_handle: "dated s \<Longrightarrow> dated (fst (handle e t rq s))"
proof -
  assume s: "dated s"
  have "dated_reply (handle e t rq s)"
  proof (cases rq)
    case (Rq_Me hdr)
    then show ?thesis using s unfolding handle_def by (auto intro!: dating)
  qed (use s in \<open>simp add: handle_def dating\<close>)+
  then show ?thesis by (simp add: dated_reply_def)
qed

lemma dated_step: "auth_step e p q \<Longrightarrow> dated (snd p) \<Longrightarrow> dated (snd q)"
proof (induction rule: auth_step.induct)
  case (request now rq s s' r)
  then show ?case using dated_handle [of s e now rq] by simp
qed simp

lemma dated_run: "auth_run e p q \<Longrightarrow> dated (snd p) \<Longrightarrow> dated (snd q)"
  unfolding auth_run_def by (induction rule: rtranclp_induct) (auto dest: dated_step)

lemma dated_fresh: "dated (fresh_db invs)"
  by (simp add: dated_def fresh_db_def empty_auth_db_def)

subsection \<open>Retention\<close>

lemma prune_same_live:
  assumes "dated s" and "m \<le> n"
  shows "same_live n s (prune_revoked m s)"
proof -
  have dist: "distinct (map cl_jti (minted s))" using assms(1) unfolding dated_def by simp
  have small: "cl_jti c < length (minted s)" if "c \<in> set (minted s)" for c
  proof -
    have "cl_jti c \<in> set (map cl_jti (minted s))" using that by simp
    then show ?thesis using assms(1) unfolding dated_def by simp
  qed
  have "token_revoked (prune_revoked m s) (cl_jti c)" if c: "c \<in> set (minted s)" "n < cl_exp c" "token_revoked s (cl_jti c)" for c
  proof -
    obtain x where x: "(cl_jti c, x) \<in> set (revoked s)" using c(3) by (auto simp: token_revoked_def)
    then obtain d where d: "d \<in> set (minted s)" "cl_jti d = cl_jti c" "cl_exp d = x"
      using assms(1) unfolding dated_def by auto
    then have "d = c" using dist c(1) by (auto simp: distinct_map dest: inj_onD)
    then have "(cl_jti c, x) \<in> set (kept_since m (revoked s))" using x d(3) c(2) assms(2) by (auto simp: kept_since_def)
    then show ?thesis unfolding token_revoked_def prune_revoked_def by force
  qed
  moreover have "token_revoked s j" if "token_revoked (prune_revoked m s) j" for j
    using that by (auto simp: token_revoked_def prune_revoked_def kept_since_def)
  moreover have "\<not> token_revoked s j" if "length (minted s) \<le> j" for j
  proof
    assume "token_revoked s j"
    then obtain c where "c \<in> set (minted s)" "cl_jti c = j"
      using assms(1) unfolding dated_def token_revoked_def by fastforce
    then show False using small that by fastforce
  qed
  ultimately show ?thesis using small unfolding same_live_def by (auto simp: prune_revoked_def)
qed

text \<open>The replies to requests at given times.\<close>

fun serve :: "auth_env \<Rightarrow> (int \<times> auth_request) list \<Rightarrow> auth_db \<Rightarrow> (auth_error + reply) list" where
  "serve e [] s = []"
| "serve e ((t, rq) # xs) s = snd (handle e t rq s) # serve e xs (fst (handle e t rq s))"

lemma same_serve: "same_live n s s' \<Longrightarrow> list_all (\<lambda>(t, _). n \<le> t) xs \<Longrightarrow> serve e xs s' = serve e xs s"
proof (induction xs arbitrary: s s')
  case (Cons x xs)
  obtain t rq where x: "x = (t, rq)" by (cases x)
  have "same_reply n (handle e t rq s) (handle e t rq s')" using same_handle Cons.prems x by auto
  then show ?case using Cons x by (simp add: same_reply_def)
qed simp


definition ex_logs :: logs where
  "ex_logs = \<lparr>lg_traces = [(1, None), (2, Some 0)], lg_calls = [], lg_runs = [(1, 5)], lg_auth = ex_s3, lg_audit = []\<rparr>"


subsection \<open>The record of the runs\<close>

abbreviation rows_of :: "string \<Rightarrow> run_row list \<Rightarrow> run_row list" where
  "rows_of job rs \<equiv> filter (\<lambda>r. sr_job r = job) rs"

definition finished_row :: "run_row list \<Rightarrow> int \<Rightarrow> int \<Rightarrow> bool \<Rightarrow> string \<Rightarrow> run_row" where
  "finished_row rs now b ok job = \<lparr>sr_id = next_key sr_id rs, sr_job = job, sr_started = now, sr_finished = Some b, sr_ok = Some ok\<rparr>"

definition all_runs :: "run_row list \<Rightarrow> int \<Rightarrow> int \<Rightarrow> bool \<Rightarrow> string \<Rightarrow> run_row list" where
  "all_runs rs now b ok job = rs @ [finished_row rs now b ok job]"

lemma izlenen_rows:
  "izlenen_is now b ok job rs =
    filter (\<lambda>r. sr_job r = job \<longrightarrow> sr_id r \<in> set (map sr_id (newest_of job (all_runs rs now b ok job)))) (all_runs rs now b ok job)"
proof -
  let ?i = "next_key sr_id rs" and ?new = "\<lparr>sr_id = next_key sr_id rs, sr_job = job, sr_started = now, sr_finished = None, sr_ok = None\<rparr>"
  have new: "?i \<notin> sr_id ` set rs" by (rule next_key_fresh)
  then have "find_row sr_id ?i rs = None" by (simp only: find_row_None_iff not_False_eq_True)
  then have "find_row sr_id ?i (rs @ [?new]) = Some ?new" by (simp add: find_row_append)
  moreover have "upd_row sr_id ?i (\<lambda>r. r\<lparr>sr_finished := Some b, sr_ok := Some ok\<rparr>) rs = rs"
    using new by (rule upd_row_id)
  then have "upd_row sr_id ?i (\<lambda>r. r\<lparr>sr_finished := Some b, sr_ok := Some ok\<rparr>) (rs @ [?new]) = all_runs rs now b ok job"
    by (simp add: upd_row_def all_runs_def finished_row_def)
  ultimately show ?thesis unfolding izlenen_is_def kayit_basla_def kayit_bitir_def Let_def by simp
qed

lemma other_job_rows: "j \<noteq> job \<Longrightarrow> rows_of j (izlenen_is now b ok job rs) = rows_of j rs"
proof -
  assume "j \<noteq> job"
  then have "filter (\<lambda>r. sr_job r = j) (filter (\<lambda>r. sr_job r = job \<longrightarrow> P r) xs) = filter (\<lambda>r. sr_job r = j) xs" for P xs
    by (induction xs) auto
  then show ?thesis unfolding izlenen_rows all_runs_def finished_row_def using \<open>j \<noteq> job\<close> by simp
qed

lemma distinct_runs: "distinct (map sr_id rs) \<Longrightarrow> distinct (map sr_id (all_runs rs now b ok job))"
  using next_key_fresh [of sr_id rs] by (auto simp: all_runs_def finished_row_def)

lemma distinct_filter_ids: "distinct (map sr_id xs) \<Longrightarrow> distinct (map sr_id (filter P xs))"
  by (simp add: distinct_map_filter)

lemma distinct_izlenen: "distinct (map sr_id rs) \<Longrightarrow> distinct (map sr_id (izlenen_is now b ok job rs))"
  unfolding izlenen_rows by (intro distinct_filter_ids distinct_runs)

text \<open>What is left of the job's rows are the newest.\<close>

lemma job_rows:
  assumes "distinct (map sr_id rs)"
  shows "set (rows_of job (izlenen_is now b ok job rs)) = set (newest_of job (all_runs rs now b ok job))"
proof -
  let ?all = "all_runs rs now b ok job" and ?new = "newest_of job (all_runs rs now b ok job)"
  have inj: "inj_on sr_id (set ?all)" using distinct_runs [OF assms] by (simp add: distinct_map)
  have sub: "set ?new \<subseteq> set ?all" "\<forall>r \<in> set ?new. sr_job r = job"
    unfolding newest_of_def by (auto dest: in_set_takeD)
  have "sr_id r \<in> sr_id ` set ?new \<longleftrightarrow> r \<in> set ?new" if "r \<in> set ?all" for r
    using inj that sub(1) by (meson imageI inj_on_image_mem_iff)
  then show ?thesis using sub unfolding izlenen_rows by auto
qed

lemma job_rows_bounded:
  assumes "distinct (map sr_id rs)"
  shows "length (rows_of job (izlenen_is now b ok job rs)) \<le> 50"
proof -
  have "distinct (rows_of job (izlenen_is now b ok job rs))"
    using distinct_izlenen [OF assms] by (simp add: distinct_map)
  then have "length (rows_of job (izlenen_is now b ok job rs)) = card (set (newest_of job (all_runs rs now b ok job)))"
    using job_rows [OF assms] by (metis distinct_card)
  also have "\<dots> \<le> length (newest_of job (all_runs rs now b ok job))" by (rule card_length)
  also have "\<dots> \<le> 50" by (simp add: newest_of_def)
  finally show ?thesis .
qed

lemma newest_largest: 
  assumes "x \<in> set xs" and "\<forall>y \<in> set xs. f y \<le> f x" and "distinct (map f xs)" and "0 < n"
  shows "x \<in> set (take n (rev (sort_key f xs)))"
proof -
  let ?ys = "sort_key f xs"
  have ne: "?ys \<noteq> []" using assms(1) by (metis length_pos_if_in_set length_sort less_numeral_extra(3) list.size(3))
  have "sorted (map f ?ys)" by simp
  moreover obtain i where i: "i < length ?ys" "?ys ! i = x" using assms(1) by (metis in_set_conv_nth set_sort)
  ultimately have "f x \<le> f (last ?ys)"
    using ne by (simp add: last_conv_nth sorted_iff_nth_mono)
      (metis Suc_pred diff_Suc_less i length_greater_0_conv length_sort less_Suc_eq_le nth_map)
  moreover have "last ?ys \<in> set xs" using ne by (metis last_in_set set_sort)
  ultimately have "last ?ys = x" using assms by (metis antisym distinct_map inj_onD)
  then have "hd (rev ?ys) = x" using ne by (simp add: hd_rev)
  then show ?thesis using ne assms(4) by (cases "rev ?ys"; cases n) auto
qed

lemma new_row_kept:
  assumes "distinct (map sr_id rs)"
  shows "finished_row rs now b ok job \<in> set (rows_of job (izlenen_is now b ok job rs))"
proof -
  let ?all = "all_runs rs now b ok job" and ?r = "finished_row rs now b ok job"
  have "\<forall>y \<in> set (rows_of job ?all). sr_id y \<le> sr_id ?r"
    using next_key_gt [of _ rs sr_id] by (fastforce simp: all_runs_def finished_row_def)
  moreover have "?r \<in> set (rows_of job ?all)" by (simp add: all_runs_def finished_row_def)
  moreover have "distinct (map sr_id (rows_of job ?all))" by (rule distinct_filter_ids [OF distinct_runs [OF assms]])
  ultimately have "?r \<in> set (newest_of job ?all)" unfolding newest_of_def by (intro newest_largest) simp_all
  then show ?thesis unfolding job_rows [OF assms] .
qed

lemma job_rows_sub:
  assumes "distinct (map sr_id rs)"
  shows "set (rows_of job (izlenen_is now b ok job rs)) \<subseteq> insert (finished_row rs now b ok job) (set (rows_of job rs))"
  unfolding job_rows [OF assms] newest_of_def by (auto simp: all_runs_def dest: in_set_takeD)

lemma ok_times_set:
  "set (ok_times job rs) = {x. \<exists>r \<in> set (rows_of job rs). sr_ok r = Some True \<and> sr_finished r = Some x}"
  unfolding ok_times_def by (force split: option.splits)

text \<open>A job is late when every recorded success ended before its period.\<close>

lemma gecikti_iff: "gecikti now p rs \<longleftrightarrow> (\<forall>x \<in> set (ok_times (fst p) rs). x < now - snd p * 3600)"
proof (cases "ok_times (fst p) rs")
  case (Cons x xs)
  have "foldr max xs x < m \<longleftrightarrow> x < m \<and> (\<forall>y \<in> set xs. y < m)" for m
    by (induction xs) auto
  note max = this [of "now - snd p * 3600"]
  have "gecikti now p rs \<longleftrightarrow> foldr max xs x < now - snd p * 3600" using Cons by (auto simp: gecikti_def)
  then show ?thesis using max Cons by simp
qed (simp add: gecikti_def)

lemma ok_times_other: "j \<noteq> job \<Longrightarrow> set (ok_times j (izlenen_is now b ok job rs)) = set (ok_times j rs)"
  unfolding ok_times_set other_job_rows ..

lemma gecikti_after:
  assumes "distinct (map sr_id rs)" and "now - snd p * 3600 \<le> b"
  shows "gecikti now p (izlenen_is now b ok (fst p) rs) \<longleftrightarrow> \<not> ok \<and> gecikti now p (izlenen_is now b ok (fst p) rs)"
    and "gecikti now p rs \<Longrightarrow> gecikti now p (izlenen_is now b ok (fst p) rs) \<longleftrightarrow> \<not> ok"
proof -
  let ?rs = "izlenen_is now b ok (fst p) rs"
  have "b \<in> set (ok_times (fst p) ?rs)" if ok using new_row_kept [OF assms(1), of now b ok "fst p"] that
    unfolding ok_times_set by (force simp: finished_row_def)
  then show 1: "gecikti now p ?rs \<longleftrightarrow> \<not> ok \<and> gecikti now p ?rs" using assms(2) unfolding gecikti_iff by force
  assume late: "gecikti now p rs"
  have "set (ok_times (fst p) ?rs) \<subseteq> set (ok_times (fst p) rs)" if "\<not> ok"
    using job_rows_sub [OF assms(1), of "fst p" now b ok] that unfolding ok_times_set by (auto simp: finished_row_def)
  then show "gecikti now p ?rs \<longleftrightarrow> \<not> ok" using 1 late unfolding gecikti_iff by blast
qed

lemma gecikti_other: "fst p \<noteq> job \<Longrightarrow> gecikti now p (izlenen_is now b ok job rs) = gecikti now p rs"
  unfolding gecikti_iff by (simp add: ok_times_other)

definition run_plan :: "int \<Rightarrow> (string \<Rightarrow> int \<times> bool) \<Rightarrow> string \<times> int \<Rightarrow> run_row list \<Rightarrow> run_row list" where
  "run_plan now sonuc p rs = izlenen_is now (fst (sonuc (fst p))) (snd (sonuc (fst p))) (fst p) rs"

lemma catch_up_fold:
  assumes "distinct (map fst ps)" and "distinct (map sr_id rs)"
  shows "distinct (map sr_id (fold (run_plan now sonuc) ps rs)) \<and>
    (\<forall>j. j \<notin> fst ` set ps \<longrightarrow> rows_of j (fold (run_plan now sonuc) ps rs) = rows_of j rs) \<and>
    (\<forall>p \<in> set ps. \<exists>w. distinct (map sr_id w) \<and> rows_of (fst p) w = rows_of (fst p) rs \<and>
       rows_of (fst p) (fold (run_plan now sonuc) ps rs) = rows_of (fst p) (run_plan now sonuc p w))"
  using assms
proof (induction ps arbitrary: rs)
  case (Cons p ps)
  let ?rs = "run_plan now sonuc p rs"
  have d: "distinct (map sr_id ?rs)" unfolding run_plan_def by (rule distinct_izlenen [OF Cons.prems(2)])
  have IH: "distinct (map sr_id (fold (run_plan now sonuc) ps ?rs))"
    "\<And>j. j \<notin> fst ` set ps \<Longrightarrow> rows_of j (fold (run_plan now sonuc) ps ?rs) = rows_of j ?rs"
    "\<And>q. q \<in> set ps \<Longrightarrow> \<exists>w. distinct (map sr_id w) \<and> rows_of (fst q) w = rows_of (fst q) ?rs \<and>
       rows_of (fst q) (fold (run_plan now sonuc) ps ?rs) = rows_of (fst q) (run_plan now sonuc q w)"
    using Cons.IH [OF _ d] Cons.prems(1) by auto
  have other: "rows_of j ?rs = rows_of j rs" if "j \<noteq> fst p" for j
    unfolding run_plan_def using that by (rule other_job_rows)
  have "\<exists>w. distinct (map sr_id w) \<and> rows_of (fst q) w = rows_of (fst q) rs \<and>
       rows_of (fst q) (fold (run_plan now sonuc) ps ?rs) = rows_of (fst q) (run_plan now sonuc q w)" if "q \<in> set (p # ps)" for q
  proof (cases "q = p")
    case True
    then show ?thesis using IH(2) [of "fst p"] Cons.prems by auto
  next
    case False
    then have "q \<in> set ps" using that by simp
    moreover have "fst q \<noteq> fst p" using imageI [OF calculation, of fst] Cons.prems(1) by (auto simp only: distinct.simps list.map set_map)
    ultimately have q: "q \<in> set ps" "fst q \<noteq> fst p" by blast+
    show ?thesis using IH(3) [OF q(1)] other [OF q(2)] by auto
  qed
  then show ?case using IH(1,2) other by simp
qed simp

lemma gecikti_rows: "rows_of (fst p) w = rows_of (fst p) rs \<Longrightarrow> gecikti now p w = gecikti now p rs"
  unfolding gecikti_iff ok_times_set by simp

text \<open>C40: A start-up runs exactly the jobs that are late. Afterwards a job is late only if it was and its run
  failed; the others keep their records, and a job that ran has at most its 50 newest records, this run's among
  them: a failing job does not keep the next from running.\<close>

theorem catch_up_runs_late_jobs:
  assumes "distinct (map sr_id rs)" and "\<And>j. now \<le> fst (sonuc j)" and "p \<in> set (planli_isler sqlite)"
  defines "rs' \<equiv> kacirilan_isleri_telafi_et sqlite now sonuc rs"
  shows "(gecikti now p rs' \<longleftrightarrow> gecikti now p rs \<and> \<not> snd (sonuc (fst p))) \<and>
    (if gecikti now p rs
     then length (rows_of (fst p) rs') \<le> 50 \<and>
       list_ex (\<lambda>r. sr_started r = now \<and> sr_finished r = Some (fst (sonuc (fst p))) \<and> sr_ok r = Some (snd (sonuc (fst p)))) (rows_of (fst p) rs')
     else rows_of (fst p) rs' = rows_of (fst p) rs)"
proof -
  let ?ps = "filter (\<lambda>p. gecikti now p rs) (planli_isler sqlite)"
  have names: "distinct (map fst (planli_isler sqlite))" by (simp add: planli_isler_def)
  then have d: "distinct (map fst ?ps)" by (simp add: distinct_map_filter)
  have eq: "rs' = fold (run_plan now sonuc) ?ps rs"
    unfolding rs'_def kacirilan_isleri_telafi_et_def run_plan_def ..
  note step = catch_up_fold [OF d assms(1), of now sonuc, folded eq]
  have period: "0 \<le> snd p" using assms(3) by (auto simp: planli_isler_def split: if_splits)
  show ?thesis
  proof (cases "gecikti now p rs")
    case True
    then have "p \<in> set ?ps" using assms(3) by simp
    then obtain w where w: "distinct (map sr_id w)" "rows_of (fst p) w = rows_of (fst p) rs"
        "rows_of (fst p) rs' = rows_of (fst p) (run_plan now sonuc p w)"
      using step by blast
    have late: "gecikti now p w" using True gecikti_rows [OF w(2)] by simp
    have "gecikti now p rs' \<longleftrightarrow> \<not> snd (sonuc (fst p))"
      unfolding gecikti_rows [OF w(3)] run_plan_def
      by (rule gecikti_after(2) [OF w(1) _ late]) (use assms(2) [of "fst p"] period in linarith)
    moreover have "length (rows_of (fst p) rs') \<le> 50"
      unfolding w(3) run_plan_def by (rule job_rows_bounded [OF w(1)])
    moreover have "list_ex (\<lambda>r. sr_started r = now \<and> sr_finished r = Some (fst (sonuc (fst p))) \<and> sr_ok r = Some (snd (sonuc (fst p)))) (rows_of (fst p) rs')"
      unfolding w(3) run_plan_def list_ex_iff by (rule bexI [OF _ new_row_kept [OF w(1)]]) (simp add: finished_row_def)
    ultimately show ?thesis using True by simp
  next
    case False
    have "fst p \<notin> fst ` set ?ps"
    proof
      assume "fst p \<in> fst ` set ?ps"
      then obtain q where "q \<in> set (planli_isler sqlite)" "gecikti now q rs" "fst q = fst p" by auto
      then have "q = p" using names assms(3) by (auto simp: distinct_map dest: inj_onD)
      then show False using False \<open>gecikti now q rs\<close> by simp
    qed
    then have same: "rows_of (fst p) rs' = rows_of (fst p) rs" using step by blast
    then show ?thesis using False gecikti_rows [OF same, of now] by simp
  qed
qed

lemma catch_up_runs_late_jobs_witness:
  "\<not> gecikti 100000 (''nightly_batch'', 24) (kacirilan_isleri_telafi_et True 100000 (\<lambda>j. (100005, j = ''nightly_batch'')) []) \<and>
   gecikti 100000 (''nightly_batch'', 24) [] \<and>
   gecikti 100000 (''k2_batch'', 24) (kacirilan_isleri_telafi_et True 100000 (\<lambda>j. (100005, j = ''nightly_batch'')) [])"
proof -
  have "gecikti 100000 (''nightly_batch'', 24) []" "gecikti 100000 (''k2_batch'', 24) []"
    by (simp_all add: gecikti_def ok_times_def)
  moreover have "(''nightly_batch'', 24) \<in> set (planli_isler True)" "(''k2_batch'', 24) \<in> set (planli_isler True)"
    by (simp_all add: planli_isler_def)
  ultimately show ?thesis
    using catch_up_runs_late_jobs [of "[]" 100000 "\<lambda>j. (100005, j = ''nightly_batch'')"] by simp
qed

end
