(* ===== verification/Providers.thy ===== *)
theory Providers
  imports Insight_Notes Usage_Limits
begin

text \<open>
  The language model providers: the classes of their errors (app/provider_errors.py, app/llm_hata.py), retries,
  the fallback chain and its circuit breaker, what the environment configures, and the shape in which a history
  is sent to each kind of provider (app/coach.py). What a provider answers is the parameter \<open>llm\<close>; the waiting
  time an error states is data of the error. The texts of the prompt are left out: of a prompt the model knows
  whether it holds the tool mechanics.
\<close>

subsection \<open>Errors\<close>

datatype alan = Alan_Yok | Alan_Int int | Alan_Str string

record hata =
  ht_alanlar :: "alan list"
  ht_metin :: string
  ht_bos :: bool
  ht_bekle :: "rat option"

datatype sinif = Kota | Gecici | Istek_Cok_Buyuk | Kalici

definition contains :: "string list \<Rightarrow> string \<Rightarrow> bool" where
  "contains alts = text_search alts (\<lambda>_. True)"

text \<open>\<open>.{0,k}w\<close>.\<close>

fun near :: "string \<Rightarrow> nat \<Rightarrow> string \<Rightarrow> bool" where
  "near w 0 s \<longleftrightarrow> take (length w) s = w"
| "near w (Suc k) s \<longleftrightarrow> take (length w) s = w \<or> (case s of [] \<Rightarrow> False | c # r \<Rightarrow> c \<noteq> CHR 0x0A \<and> near w k r)"

definition cok_buyuk_deseni :: "string \<Rightarrow> bool" where
  "cok_buyuk_deseni s \<longleftrightarrow> contains [''request too large'', ''reduce your message size'', ''too large for model'',
     ''context length exceeded'', ''maximum context length'', ''string too long'',
     ''exceeds the maximum number of tokens'', ''input is too long'', ''prompt is too long''] (lower s) \<or>
   text_search [''token count ''] (near ''exceeds'' 40) (lower s)"

definition kota_deseni :: "string \<Rightarrow> bool" where
  "kota_deseni s \<longleftrightarrow> contains [''resource_exhausted'', ''quota exceeded'', ''exceeded your current quota'',
     ''credit balance is too low'', ''credit balance too low'', ''insufficient_quota'', ''rate limit'',
     ''too many requests'', ''billing limit'', ''billing hard limit''] (lower s)"

definition gecici_deseni :: "string \<Rightarrow> bool" where
  "gecici_deseni s \<longleftrightarrow> word_search [''unavailable'', ''timeout'', ''time out'', ''timedout'', ''timed out''] no_word (lower s) \<or>
     contains [''overloaded'', ''service unavailable'', ''timeout'', ''temporarily'', ''try again later'',
       ''connection reset'', ''connection aborted'', ''connection error''] (lower s)"

definition digit_val :: "char \<Rightarrow> nat" where "digit_val c = code_of c - 48"

text \<open>\<open>(\d{3})\b\<close>.\<close>

definition uc_hane :: "string \<Rightarrow> nat option" where
  "uc_hane s = (case s of a # b # c # r \<Rightarrow>
       if is_digit a \<and> is_digit b \<and> is_digit c \<and> no_word r
       then Some (100 * digit_val a + 10 * digit_val b + digit_val c) else None
     | _ \<Rightarrow> None)"

definition prefixed :: "string \<Rightarrow> string \<Rightarrow> string option" where
  "prefixed w s = (if take (length w) s = w then Some (drop (length w) s) else None)"

definition skip_one :: "char list \<Rightarrow> string \<Rightarrow> string" where
  "skip_one cs s = (case s of c # r \<Rightarrow> if c \<in> set cs then r else s | [] \<Rightarrow> [])"

text \<open>The three alternatives of \<open>_KOD_DESENI\<close>, on a text in lower case.\<close>

definition kod_basta :: "string \<Rightarrow> nat option" where
  "kod_basta s = (let t = dropWhile is_space s in
     case prefixed ''http'' t of Some r \<Rightarrow> uc_hane (dropWhile is_space r) | None \<Rightarrow> uc_hane t)"

definition kod_error :: "string \<Rightarrow> nat option" where
  "kod_error s = (case prefixed ''error code'' s of None \<Rightarrow> None
     | Some r \<Rightarrow> (case r of c # r' \<Rightarrow> if c \<in> {CHR '':'', CHR ''=''} then uc_hane (dropWhile is_space r') else None
        | [] \<Rightarrow> None))"

definition kod_code :: "string \<Rightarrow> nat option" where
  "kod_code s = (let q = [CHR 0x22, CHR 0x27] in case prefixed ''code'' (skip_one q s) of None \<Rightarrow> None
     | Some r \<Rightarrow> (case dropWhile is_space (skip_one q r) of
          c # r' \<Rightarrow> if c \<in> {CHR '':'', CHR ''=''} then uc_hane (dropWhile is_space r') else None
        | [] \<Rightarrow> None))"

definition first_some :: "'a option \<Rightarrow> 'a option \<Rightarrow> 'a option" where
  "first_some x y = (case x of None \<Rightarrow> y | Some _ \<Rightarrow> x)"

fun kod_icinde :: "string \<Rightarrow> nat option" where
  "kod_icinde [] = None"
| "kod_icinde (c # s) = first_some (kod_error (c # s)) (first_some (kod_code (c # s)) (kod_icinde s))"

definition kod_deseni :: "string \<Rightarrow> nat option" where
  "kod_deseni s = first_some (kod_basta (lower s)) (kod_icinde (lower s))"

fun digits_val :: "nat \<Rightarrow> string \<Rightarrow> nat" where
  "digits_val n [] = n"
| "digits_val n (c # s) = digits_val (10 * n + digit_val c) s"

definition alan_kodu :: "alan \<Rightarrow> nat option" where
  "alan_kodu a = (case a of Alan_Yok \<Rightarrow> None
     | Alan_Int n \<Rightarrow> if 100 \<le> n \<and> n \<le> 599 then Some (nat n) else None
     | Alan_Str s \<Rightarrow> if s \<noteq> [] \<and> list_all is_digit s \<and> 100 \<le> digits_val 0 s \<and> digits_val 0 s \<le> 599
                     then Some (digits_val 0 s) else None)"

definition durum_kodu :: "hata \<Rightarrow> nat option" where
  "durum_kodu h = first_some (foldr (\<lambda>a r. first_some (alan_kodu a) r) (ht_alanlar h) None) (kod_deseni (ht_metin h))"

definition gecici_kodlar :: "nat list" where "gecici_kodlar = [500, 502, 503, 504, 529]"

definition siniflandir :: "hata \<Rightarrow> sinif" where
  "siniflandir h = (let kod = durum_kodu h in
     if kod = Some 413 \<or> cok_buyuk_deseni (ht_metin h) then Istek_Cok_Buyuk
     else if kod \<in> {Some 429, Some 402} \<or> kota_deseni (ht_metin h) then Kota
     else if kod \<in> set (map Some gecici_kodlar) \<or> gecici_deseni (ht_metin h) then Gecici
     else Kalici)"

definition is_quota_exceeded :: "hata \<Rightarrow> bool" where "is_quota_exceeded h \<longleftrightarrow> siniflandir h = Kota"
definition is_retryable_error :: "hata \<Rightarrow> bool" where "is_retryable_error h \<longleftrightarrow> siniflandir h = Gecici"
definition is_request_too_large :: "hata \<Rightarrow> bool" where "is_request_too_large h \<longleftrightarrow> siniflandir h = Istek_Cok_Buyuk"

text \<open>What the user is told of an error; \<open>None\<close> is \<open>bilinmeyen\<close>.\<close>

definition hata_sinifi :: "hata \<Rightarrow> sinif option" where
  "hata_sinifi h = (if siniflandir h = Kalici \<and> durum_kodu h = None then None else Some (siniflandir h))"

subsection \<open>Retries\<close>

definition bekleme_tavani :: "nat \<Rightarrow> rat" where
  "bekleme_tavani attempt = min 30 (2 ^ (attempt - 1))"

text \<open>\<open>LLM_RETRY_AFTER_TAVAN_SN\<close> as \<open>float(...)\<close> reads it.\<close>

definition retry_after_tavani_sn :: "rat option \<Rightarrow> rat" where
  "retry_after_tavani_sn v = (case v of None \<Rightarrow> 5 | Some x \<Rightarrow> max 0 x)"

text \<open>After a failed attempt that was not the last: \<open>None\<close> raises, \<open>Some w\<close> waits at most \<open>w\<close> seconds and tries again.\<close>

definition tekrar_karari :: "rat \<Rightarrow> nat \<Rightarrow> hata \<Rightarrow> rat option" where
  "tekrar_karari tavan attempt h =
     (if is_quota_exceeded h
      then (case ht_bekle h of None \<Rightarrow> None | Some b \<Rightarrow> if b \<le> tavan then Some b else None)
      else if ht_bos h then None
      else if \<not> is_retryable_error h then None
      else Some (bekleme_tavani attempt))"

text \<open>The number left counts the attempts after this one. The result comes with the waits.\<close>

fun dene :: "rat \<Rightarrow> ('s \<Rightarrow> 's \<times> (hata + 'r)) \<Rightarrow> nat \<Rightarrow> nat \<Rightarrow> 's \<Rightarrow> ('s \<times> (hata + 'r)) \<times> rat list" where
  "dene tavan raw 0 attempt s = (raw s, [])"
| "dene tavan raw (Suc left) attempt s = (case raw s of
     (s', Inr r) \<Rightarrow> ((s', Inr r), [])
   | (s', Inl h) \<Rightarrow> (case tekrar_karari tavan attempt h of None \<Rightarrow> ((s', Inl h), [])
      | Some w \<Rightarrow> (case dene tavan raw left (attempt + 1) s' of (res, ws) \<Rightarrow> (res, w # ws))))"

definition call_with_retry :: "rat \<Rightarrow> ('s \<Rightarrow> 's \<times> (hata + 'r)) \<Rightarrow> 's \<Rightarrow> ('s \<times> (hata + 'r)) \<times> rat list" where
  "call_with_retry tavan raw s = dene tavan raw 2 1 s"

subsection \<open>The history as a provider reads it\<close>

record msg =
  mg_role :: coach_role
  mg_content :: string
  mg_calls :: "stored_call list option option"
  mg_call_id :: "string option"

text \<open>\<open>tc.get("id", "")\<close> and \<open>tc.get("id", f"call_{i}")\<close>.\<close>

definition call_id :: "nat \<Rightarrow> stored_call \<Rightarrow> string" where
  "call_id i c = (case sc_id c of Some x \<Rightarrow> x | None \<Rightarrow> ''call_'' @ str_of_nat i)"

definition named_calls :: "stored_call list \<Rightarrow> (string \<times> string) list" where
  "named_calls cs = concat (map (\<lambda>(i, c). case sc_name c of Some (k # ks) \<Rightarrow> [(call_id i c, k # ks)] | _ \<Rightarrow> [])
     (zip [0..<length cs] cs))"

definition parsed_calls :: "msg \<Rightarrow> stored_call list" where
  "parsed_calls m = (case mg_calls m of Some (Some cs) \<Rightarrow> cs | _ \<Rightarrow> [])"

definition valid_tc_ids :: "msg list \<Rightarrow> string list" where
  "valid_tc_ids ms = concat (map (\<lambda>m. if mg_role m = Role_Assistant
     then map (\<lambda>c. case sc_id c of Some x \<Rightarrow> x | None \<Rightarrow> []) (parsed_calls m) else []) ms)"

datatype oai_msg = Oai_Tool string string | Oai_Assistant string "(string \<times> string) list" | Oai_Text coach_role string

definition to_openai_messages :: "msg list \<Rightarrow> oai_msg list" where
  "to_openai_messages ms = concat (map (\<lambda>m. case mg_role m of
       Role_Tool \<Rightarrow> (case mg_call_id m of None \<Rightarrow> []
         | Some i \<Rightarrow> if i \<in> set (valid_tc_ids ms) then [Oai_Tool i (mg_content m)] else [])
     | Role_Assistant \<Rightarrow> (case mg_calls m of None \<Rightarrow> [Oai_Text Role_Assistant (mg_content m)]
         | Some _ \<Rightarrow> [Oai_Assistant (mg_content m) (named_calls (parsed_calls m))])
     | Role_User \<Rightarrow> [Oai_Text Role_User (mg_content m)]) ms)"

datatype block = Text_Block string | Tool_Use string string
datatype ant_msg = Ant_Result string string | Ant_Blocks "block list" | Ant_Text coach_role string

definition or_bos :: "string \<Rightarrow> string" where
  "or_bos s = (if s = [] then ''(bos)'' else s)"

definition to_anthropic_messages :: "msg list \<Rightarrow> ant_msg list" where
  "to_anthropic_messages ms = concat (map (\<lambda>m. case mg_role m of
       Role_Tool \<Rightarrow> [Ant_Result (case mg_call_id m of None \<Rightarrow> [] | Some i \<Rightarrow> i) (or_bos (mg_content m))]
     | Role_Assistant \<Rightarrow> (case mg_calls m of
           None \<Rightarrow> if mg_content m = [] then [] else [Ant_Text Role_Assistant (mg_content m)]
         | Some _ \<Rightarrow> (let bs = (if mg_content m = [] then [] else [Text_Block (mg_content m)]) @
               map (\<lambda>(i, n). Tool_Use i n) (named_calls (parsed_calls m))
             in [Ant_Blocks (if bs = [] then [Text_Block (or_bos (mg_content m))] else bs)]))
     | Role_User \<Rightarrow> if mg_content m = [] then [] else [Ant_Text Role_User (mg_content m)]) ms)"

text \<open>The text after the first \<open>summary=\<close>.\<close>

fun after_mark :: "string \<Rightarrow> string \<Rightarrow> string option" where
  "after_mark w [] = None"
| "after_mark w (c # s) = (case prefixed w (c # s) of Some r \<Rightarrow> Some r | None \<Rightarrow> after_mark w s)"

definition gemini_placeholder :: "msg list \<Rightarrow> string" where
  "gemini_placeholder later = (case List.find (\<lambda>n. mg_role n = Role_Tool) later of
       None \<Rightarrow> ''[aksiyon hazirlandi]''
     | Some n \<Rightarrow> (let part = (case after_mark ''summary='' (mg_content n) of Some r \<Rightarrow> strip r | None \<Rightarrow> mg_content n)
         in if part = [] then ''[aksiyon hazirlandi]'' else ''['' @ part @ '']''))"

fun to_gemini_contents :: "msg list \<Rightarrow> (bool \<times> string) list" where
  "to_gemini_contents [] = []"
| "to_gemini_contents (m # ms) =
     (if mg_role m = Role_Tool then []
      else (let text = (if mg_content m = [] \<and> mg_calls m \<noteq> None then gemini_placeholder ms else mg_content m)
            in [(mg_role m = Role_User, if text = [] then ''[aksiyon hazirlandi]'' else text)])) @ to_gemini_contents ms"

subsection \<open>A call\<close>

datatype saglayici = Gemini | Groq | Anthropic | Cerebras | OpenRouter | Together | DeepInfra | Ollama

definition NAME :: "saglayici \<Rightarrow> string" where
  "NAME s = (case s of Gemini \<Rightarrow> ''Gemini'' | Groq \<Rightarrow> ''Groq'' | Anthropic \<Rightarrow> ''Anthropic'' | Cerebras \<Rightarrow> ''Cerebras''
     | OpenRouter \<Rightarrow> ''OpenRouter'' | Together \<Rightarrow> ''Together'' | DeepInfra \<Rightarrow> ''DeepInfra'' | Ollama \<Rightarrow> ''Ollama'')"

definition DEFAULT_MODEL :: "saglayici \<Rightarrow> string" where
  "DEFAULT_MODEL s = (case s of Gemini \<Rightarrow> ''gemini-2.5-flash-lite'' | Groq \<Rightarrow> ''openai/gpt-oss-120b''
     | Anthropic \<Rightarrow> ''claude-opus-4-8'' | Cerebras \<Rightarrow> ''gpt-oss-120b'' | OpenRouter \<Rightarrow> ''nex-agi/nex-n2.5-mini:free''
     | Together \<Rightarrow> ''meta-llama/Llama-3.3-70B-Instruct-Turbo-Free'' | DeepInfra \<Rightarrow> ''meta-llama/Llama-3.3-70B-Instruct''
     | Ollama \<Rightarrow> ''qwen2.5:7b-instruct'')"

record provider =
  pv_kind :: saglayici
  pv_model :: string

datatype tool = Tool_Propose | Tool_Insight

record llm_request =
  lq_mekanik :: bool
  lq_messages :: "msg list"
  lq_tools :: "tool list"

datatype wire = W_OpenAI "oai_msg list" | W_Anthropic "ant_msg list" | W_Gemini "(bool \<times> string) list"

definition wire_of :: "saglayici \<Rightarrow> msg list \<Rightarrow> wire" where
  "wire_of s ms = (case s of Gemini \<Rightarrow> W_Gemini (to_gemini_contents ms)
     | Anthropic \<Rightarrow> W_Anthropic (to_anthropic_messages ms)
     | _ \<Rightarrow> W_OpenAI (to_openai_messages ms))"

text \<open>The arguments of a proposal: the action type, \<open>None\<close> where it is unknown, its payload and the numbers and
  the date of its summary; \<open>None\<close> where a field is missing.\<close>

record propose_args =
  pr_type :: "action_type option"
  pr_payload :: "payload option"
  pr_sayilar :: "rat list"
  pr_tarih :: bool
  pr_summary :: string

datatype tool_call = Call_Propose "propose_args option" | Call_Insight "note_args option" | Call_Other

record raw_response =
  rr_texts :: "string list"
  rr_calls :: "tool_call list"
  rr_reason :: "string option"
  rr_in :: "nat option"
  rr_out :: "nat option"

record llm_response =
  lr_text :: string
  lr_calls :: "tool_call list"
  lr_in :: "nat option"
  lr_out :: "nat option"
  lr_provider :: "string option"
  lr_model :: string
  lr_kesildi :: bool

definition kesildi_mi :: "string option \<Rightarrow> bool" where
  "kesildi_mi r \<longleftrightarrow> r \<in> {Some ''max_tokens'', Some ''length'', Some ''MAX_TOKENS''}"

text \<open>\<open>LLM_MAX_TOKENS\<close> as \<open>int(...)\<close> reads it.\<close>

definition llm_max_tokens :: "int option \<Rightarrow> int" where
  "llm_max_tokens v = (case v of None \<Rightarrow> 4096 | Some n \<Rightarrow> max 256 (min 32000 n))"

definition llm_timeout_saniye :: "rat option \<Rightarrow> rat" where
  "llm_timeout_saniye v = (case v of None \<Rightarrow> 60 | Some x \<Rightarrow> max 1 x)"

fun join_with :: "string \<Rightarrow> string list \<Rightarrow> string" where
  "join_with sep [] = []"
| "join_with sep [x] = x"
| "join_with sep (x # y # xs) = x @ sep @ join_with sep (y # xs)"

definition gemini_fallback_reasons :: "string list" where
  "gemini_fallback_reasons = [''MALFORMED_FUNCTION_CALL'', ''SAFETY'', ''RECITATION'', ''OTHER'', ''BLOCKLIST'',
     ''PROHIBITED_CONTENT'', ''SPII'']"

definition empty_response_error :: "string \<Rightarrow> string \<Rightarrow> string \<Rightarrow> hata" where
  "empty_response_error name reason detail = \<lparr>ht_alanlar = [],
     ht_metin = name @ '' bos/bozuk cevap (finish_reason='' @ reason @ ''): '' @ detail, ht_bos = True, ht_bekle = None\<rparr>"

definition read_response :: "provider \<Rightarrow> raw_response \<Rightarrow> hata + llm_response" where
  "read_response p r =
     (let text = strip (join_with nl (rr_texts r));
          reason = (case rr_reason r of None \<Rightarrow> ''UNKNOWN'' | Some x \<Rightarrow> x);
          resp = \<lparr>lr_text = text, lr_calls = rr_calls r, lr_in = rr_in r, lr_out = rr_out r,
            lr_provider = Some (lower (NAME (pv_kind p))), lr_model = pv_model p, lr_kesildi = kesildi_mi (rr_reason r)\<rparr>
      in if pv_kind p \<noteq> Gemini then Inr resp
         else if reason \<in> set gemini_fallback_reasons
         then Inl (empty_response_error ''Gemini'' reason (''text_len='' @ str_of_nat (length text) @
                '', tool_calls='' @ str_of_nat (length (rr_calls r))))
         else if text = [] \<and> rr_calls r = []
         then Inl (empty_response_error ''Gemini'' reason ''hem text hem tool_calls bos'')
         else Inr resp)"

text \<open>The process: the calls measured for the quota, and what the chain remembers.\<close>

record llm_state =
  ls_calls :: "cagri list"
  ls_oversized :: "string list"
  ls_last :: "string option"
  ls_fallbacks :: nat

type_synonym llm = "saglayici \<Rightarrow> nat \<Rightarrow> bool \<Rightarrow> wire \<Rightarrow> tool list \<Rightarrow> hata + raw_response"

text \<open>\<open>_raw_chat\<close> with the hook of \<open>__init_subclass__\<close>: a request that went out is measured, answered or not.\<close>

definition raw_chat :: "llm \<Rightarrow> provider \<Rightarrow> llm_request \<Rightarrow> llm_state \<Rightarrow> llm_state \<times> (hata + llm_response)" where
  "raw_chat f p rq st =
     (let ad = lower (NAME (pv_kind p));
          ans = (case f (pv_kind p) (length (ls_calls st)) (lq_mekanik rq) (wire_of (pv_kind p) (lq_messages rq)) (lq_tools rq) of
              Inl h \<Rightarrow> Inl h | Inr r \<Rightarrow> read_response p r)
      in (st\<lparr>ls_calls := ls_calls st @ [case ans of
            Inl h \<Rightarrow> \<lparr>cg_saglayici = ad, cg_model = Some (pv_model p), cg_in = None, cg_out = None, cg_sure = None\<rparr>
          | Inr r \<Rightarrow> \<lparr>cg_saglayici = ad, cg_model = Some (lr_model r), cg_in = lr_in r, cg_out = lr_out r, cg_sure = None\<rparr>]\<rparr>,
          ans))"

definition provider_chat :: "llm \<Rightarrow> rat \<Rightarrow> provider \<Rightarrow> llm_request \<Rightarrow> llm_state \<Rightarrow> llm_state \<times> (hata + llm_response)" where
  "provider_chat f tavan p rq st = fst (call_with_retry tavan (raw_chat f p rq) st)"

subsection \<open>The chain\<close>

datatype motor = Tek provider | Zincir "provider list"

definition adaylar :: "provider list \<Rightarrow> llm_state \<Rightarrow> provider list" where
  "adaylar ps st = (let cs = filter (\<lambda>p. NAME (pv_kind p) \<notin> set (ls_oversized st)) ps in if cs = [] then ps else cs)"

definition after_failure :: "provider \<Rightarrow> hata \<Rightarrow> llm_state \<Rightarrow> llm_state" where
  "after_failure p h st =
     (if is_request_too_large h \<and> NAME (pv_kind p) \<notin> set (ls_oversized st)
      then st\<lparr>ls_oversized := NAME (pv_kind p) # ls_oversized st\<rparr> else st)"

definition after_success :: "nat \<Rightarrow> provider \<Rightarrow> llm_state \<Rightarrow> llm_state" where
  "after_success i p st = st\<lparr>ls_last := Some (NAME (pv_kind p)),
     ls_fallbacks := (if 0 < i then ls_fallbacks st + 1 else ls_fallbacks st)\<rparr>"

text \<open>Every error but the last one goes on to the next provider. A chain is never empty.\<close>

fun zincir_dene :: "(provider \<Rightarrow> llm_state \<Rightarrow> llm_state \<times> (hata + llm_response)) \<Rightarrow> nat \<Rightarrow> provider list \<Rightarrow> hata \<Rightarrow> llm_state \<Rightarrow>
    llm_state \<times> (hata + llm_response)" where
  "zincir_dene chat i [] last_exc st = (st, Inl last_exc)"
| "zincir_dene chat i (p # ps) last_exc st = (case chat p st of
     (st', Inr r) \<Rightarrow> (after_success i p st', Inr (r\<lparr>lr_provider := Some (lower (NAME (pv_kind p)))\<rparr>))
   | (st', Inl h) \<Rightarrow> zincir_dene chat (i + 1) ps h (after_failure p h st'))"

definition no_error :: hata where
  "no_error = \<lparr>ht_alanlar = [], ht_metin = [], ht_bos = False, ht_bekle = None\<rparr>"

definition motor_chat :: "llm \<Rightarrow> rat \<Rightarrow> motor \<Rightarrow> llm_request \<Rightarrow> llm_state \<Rightarrow> llm_state \<times> (hata + llm_response)" where
  "motor_chat f tavan m rq st = (case m of
     Tek p \<Rightarrow> provider_chat f tavan p rq st
   | Zincir ps \<Rightarrow> zincir_dene (\<lambda>p. provider_chat f tavan p rq) 0 (adaylar ps st) no_error st)"

subsection \<open>Configuration\<close>

definition getenv :: "(string \<Rightarrow> string option) \<Rightarrow> string \<Rightarrow> string \<Rightarrow> string" where
  "getenv env ad dflt = (case env ad of None \<Rightarrow> dflt | Some v \<Rightarrow> v)"

definition onek :: "saglayici \<Rightarrow> string" where
  "onek s = (case s of Gemini \<Rightarrow> ''GEMINI'' | Groq \<Rightarrow> ''GROQ'' | Anthropic \<Rightarrow> ''ANTHROPIC'' | Cerebras \<Rightarrow> ''CEREBRAS''
     | OpenRouter \<Rightarrow> ''OPENROUTER'' | Together \<Rightarrow> ''TOGETHER'' | DeepInfra \<Rightarrow> ''DEEPINFRA'' | Ollama \<Rightarrow> ''OLLAMA'')"

definition gecerli_model :: "string \<Rightarrow> string option" where
  "gecerli_model ham = (let v = strip ham in case v of [] \<Rightarrow> None
     | c # r \<Rightarrow> if (is_alpha c \<or> is_digit c) \<and> length r \<le> 99 \<and>
          list_all (\<lambda>d. is_alpha d \<or> is_digit d \<or> d \<in> set ''._:@/+-'') r then Some v else None)"

definition saglayici_modeli :: "(string \<Rightarrow> string option) \<Rightarrow> saglayici \<Rightarrow> string option" where
  "saglayici_modeli env s = (case gecerli_model (getenv env (onek s @ ''_MODEL'') []) of Some m \<Rightarrow> Some m
     | None \<Rightarrow> if lower (strip (getenv env ''LLM_PROVIDER'' ''gemini'')) = lower (onek s)
               then gecerli_model (getenv env ''LLM_MODEL'' []) else None)"

definition build_keyed :: "(string \<Rightarrow> string option) \<Rightarrow> saglayici \<Rightarrow> provider option" where
  "build_keyed env s = (if strip (getenv env (onek s @ ''_API_KEY'') []) = [] then None
     else Some \<lparr>pv_kind = s, pv_model = (case saglayici_modeli env s of Some m \<Rightarrow> m | None \<Rightarrow> DEFAULT_MODEL s)\<rparr>)"

definition ollama_provider :: "(string \<Rightarrow> string option) \<Rightarrow> provider" where
  "ollama_provider env = \<lparr>pv_kind = Ollama, pv_model = (let m = strip (getenv env ''OLLAMA_MODEL'' []) in
     if m = [] then DEFAULT_MODEL Ollama else m)\<rparr>"

definition build_ollama :: "(string \<Rightarrow> string option) \<Rightarrow> provider option" where
  "build_ollama env = (if lower (strip (getenv env ''OLLAMA_ENABLED'' [])) \<in> {''1'', ''true'', ''yes'', ''on''} \<or>
       strip (getenv env ''OLLAMA_BASE_URL'' []) \<noteq> [] \<or> strip (getenv env ''OLLAMA_MODEL'' []) \<noteq> []
     then Some (ollama_provider env) else None)"

definition saglayici_kuruculari :: "(string \<times> saglayici) list" where
  "saglayici_kuruculari = [(''gemini'', Gemini), (''anthropic'', Anthropic), (''groq'', Groq), (''cerebras'', Cerebras),
     (''openrouter'', OpenRouter), (''together'', Together), (''deepinfra'', DeepInfra)]"

definition zincir_sirasi :: "saglayici list" where
  "zincir_sirasi = [Gemini, OpenRouter, Cerebras, Together, DeepInfra, Groq]"

datatype build_error = Anahtar_Yok | Zincir_Bos | Bilinmeyen_Saglayici

definition option_list :: "'a option \<Rightarrow> 'a list" where
  "option_list x = (case x of None \<Rightarrow> [] | Some y \<Rightarrow> [y])"

definition build_provider :: "(string \<Rightarrow> string option) \<Rightarrow> build_error + motor" where
  "build_provider env =
     (let ad = strip (lower (getenv env ''LLM_PROVIDER'' ''gemini'')) in
      case map_of saglayici_kuruculari ad of
        Some s \<Rightarrow> (case build_keyed env s of None \<Rightarrow> Inl Anahtar_Yok | Some p \<Rightarrow> Inr (Tek p))
      | None \<Rightarrow>
         if ad = ''ollama'' then Inr (Tek (ollama_provider env))
         else if ad = ''fallback''
         then (case concat (map (\<lambda>s. option_list (build_keyed env s)) zincir_sirasi) @ option_list (build_ollama env) of
             [] \<Rightarrow> Inl Zincir_Bos
           | [p] \<Rightarrow> Inr (Tek p)
           | p # q # ps \<Rightarrow> Inr (Zincir (p # q # ps)))
         else Inl Bilinmeyen_Saglayici)"

subsection \<open>The history that is sent\<close>

definition truncate_long_message :: "string \<Rightarrow> coach_role \<Rightarrow> string" where
  "truncate_long_message content role =
     (if role \<noteq> Role_Assistant \<or> length content \<le> 1500 then content
      else take 1000 content @ nl @ nl @ ''[... onceki rapor uzun, ortasi ozetlendi ...]'' @ nl @ nl @
        drop (length content - 300) content)"

definition total_chars :: "msg list \<Rightarrow> nat" where
  "total_chars ms = sum_list (map (\<lambda>m. length (mg_content m)) ms)"

definition yetim :: "msg \<Rightarrow> bool" where
  "yetim m \<longleftrightarrow> mg_role m = Role_Tool \<or> (case mg_call_id m of Some (c # s) \<Rightarrow> True | _ \<Rightarrow> False)"

function trim_history_to_size :: "msg list \<Rightarrow> msg list" where
  "trim_history_to_size [] = []"
| "trim_history_to_size [m] = [m]"
| "trim_history_to_size (m # n # ms) = (if total_chars (m # n # ms) \<le> 6000 then m # n # ms
     else trim_history_to_size (dropWhile yetim (n # ms)))"
  by pat_completeness auto
termination
  by (relation "measure length") (auto simp: le_imp_less_Suc length_dropWhile_le less_Suc_eq_le intro: le_trans [OF length_dropWhile_le])

definition history_rows :: "nat \<Rightarrow> coach_memory list \<Rightarrow> coach_memory list" where
  "history_rows u ms = (let rows = sort_key cm_time (filter (\<lambda>m. cm_user m = u) ms) in drop (length rows - 6) rows)"

definition msg_of :: "coach_memory \<Rightarrow> msg" where
  "msg_of m = \<lparr>mg_role = cm_role m, mg_content = truncate_long_message (cm_content m) (cm_role m),
     mg_calls = cm_calls m, mg_call_id = cm_call_id m\<rparr>"

definition load_history :: "nat \<Rightarrow> coach_memory list \<Rightarrow> msg list" where
  "load_history u ms = trim_history_to_size (map msg_of (history_rows u ms))"

end
