(* ===== verification/Coach_Text.thy ===== *)
theory Coach_Text
  imports Providers
begin

text \<open>
  What the coach makes of a message and of an answer: the intent of a message (app/intent_rules.py), the
  refusals of a proposal (app/action_errors.py), and the cleaning of an answer before it reaches the user
  (\<open>_postprocess_report\<close>, \<open>_build_smart_reply\<close> of app/coach.py, \<open>dolgu_temizle\<close> of app/uslup_kurallari.py). The folding of
  Turkish letters and the expressions with Turkish letters in them are parameters. A sentence the program itself
  adds is a constructor: what is proved does not depend on its wording.
\<close>

subsection \<open>The intent of a message\<close>

record mesaj_niyeti =
  ny_soru :: bool
  ny_gerceklesmis :: bool
  ny_gelecek :: bool
  ny_sunulsun :: bool

definition soru_ekleri :: "string list" where
  "soru_ekleri = concat (map (\<lambda>m. map (\<lambda>e. m @ e) [''sin'', ''siniz'', ''sun'', ''sunuz'', ''yim'', ''yiz'', ''yum'', ''yuz'',
     ''dir'', ''dur'', ''ydi'', ''ydu'', '''']) [''mi'', ''mu''])"

definition soru_sozcukleri :: "string list" where
  "soru_sozcukleri = [''ne'', ''neden'', ''nicin'', ''niye'', ''nasil'', ''kac'', ''hangi'', ''kim'', ''kime'', ''kimin'',
     ''kimden'', ''nerede'', ''nereden'', ''nereye'', ''nere'', ''ne zaman'', ''ne kadar'']"

definition soru_govdeleri :: "string list" where
  "soru_govdeleri = [''oner'', ''tavsiye'', ''analiz'', ''incele'', ''stratej'', ''degerlendir'', ''ozetle'', ''ozetli'',
     ''yorumla'', ''karsilastir'', ''kiyasla'', ''goster'', ''hesapla'', ''listele'', ''sirala'', ''acikla'', ''anlat'',
     ''plan'', ''durum'', ''yoksa'', ''ne yap'', ''tahmin et'']"

definition soru_mu :: "string \<Rightarrow> bool" where
  "soru_mu k \<longleftrightarrow> CHR ''?'' \<in> set k \<or> word_search soru_ekleri no_word k \<or> word_search soru_sozcukleri no_word k \<or>
     word_search soru_govdeleri (\<lambda>_. True) k"

text \<open>The closing \<open>\b\<close> of the source stands after the stems \<open>kaydett\<close> and \<open>tahsil ett\<close> too.\<close>

definition gerceklesmis_fiilleri :: "string list" where
  "gerceklesmis_fiilleri = [''yaptim'', ''yaptik'', ''ettim'', ''ettik'', ''sattim'', ''sattik'', ''aldim'', ''aldik'',
     ''odedim'', ''odedik'', ''kapattim'', ''kapattik'', ''harcadim'', ''harcadik'', ''girdim'', ''girdik'', ''yatirdim'',
     ''yatirdik'', ''cektim'', ''cektik'', ''verdim'', ''verdik'', ''gonderdim'', ''gonderdik'', ''tasidim'', ''tasidik'',
     ''kaydett'', ''tahsil ett'', ''geldi'', ''gecti'', ''yatirdi'', ''yatti'', ''odendi'']"

definition gerceklesmis_mi :: "string \<Rightarrow> bool" where
  "gerceklesmis_mi = word_search gerceklesmis_fiilleri no_word"

definition gelecek_donem :: "string \<Rightarrow> bool" where
  "gelecek_donem r \<longleftrightarrow> r \<noteq> [] \<and> is_space (hd r) \<and>
     alt_at [''hafta'', ''ay'', ''yil'', ''sene''] (\<lambda>_. True) (dropWhile is_space r)"

definition gelecek_mi :: "string \<Rightarrow> bool" where
  "gelecek_mi k \<longleftrightarrow> contains [''acagim'', ''ecegim'', ''acagiz'', ''ecegiz'', ''acaksin'', ''eceksin'', ''planliyorum'',
     ''dusunuyorum'', ''niyetinde'', ''planim var'', ''dusunuyoruz'', ''yarin'', ''onumuzdeki'', ''ileride'', ''ilerde''] k \<or>
     text_search [''acak'', ''ecek''] no_word k \<or> text_search [''gelecek''] gelecek_donem k"

definition niyet_cikar :: "(string \<Rightarrow> string) \<Rightarrow> string \<Rightarrow> mesaj_niyeti" where
  "niyet_cikar fold_tr mesaj = (let k = fold_tr mesaj; soru = soru_mu k; ger = gerceklesmis_mi k; gel = gelecek_mi k in
     \<lparr>ny_soru = soru, ny_gerceklesmis = ger, ny_gelecek = gel,
      ny_sunulsun = (if ger then True else if soru then False else if gel then False else True)\<rparr>)"

definition selam_sozlugu :: "string list" where
  "selam_sozlugu = [''merhaba'', ''selam'', ''selamlar'', ''slm'', ''mrb'', ''hey'', ''hi'', ''hello'', ''gunaydin'',
     ''iyi gunler'', ''iyi aksamlar'', ''iyi geceler'', ''hosca kal'', ''hoscakal'', ''gorusuruz'', ''bay bay'',
     ''tesekkurler'', ''tesekkur ederim'', ''sagol'', ''sag ol'', ''cok tesekkurler'', ''eyvallah'', ''tamam'', ''tamamdir'',
     ''ok'', ''okey'', ''nasilsin'', ''naber'', ''ne haber'', ''iyiyim'', ''kolay gelsin'', ''rica ederim'']"

definition selam_char :: "char \<Rightarrow> bool" where
  "selam_char c \<longleftrightarrow> 97 \<le> code_of c \<and> code_of c \<le> 122 \<or> is_digit c \<or> c = CHR '' ''"

definition selamlasma_mi :: "(string \<Rightarrow> string) \<Rightarrow> string \<Rightarrow> bool" where
  "selamlasma_mi fold_tr mesaj =
     (let parcalar = words (map (\<lambda>c. if selam_char c then c else CHR '' '') (fold_tr mesaj)) in
      parcalar \<noteq> [] \<and> length parcalar \<le> 4 \<and>
      (join_with '' '' parcalar \<in> set selam_sozlugu \<or> list_all (\<lambda>p. p \<in> set selam_sozlugu) parcalar))"

subsection \<open>Refusals\<close>

datatype red = Red_Hesap | Red_Tarih | Red_Bilinmeyen | Red_Celiski | Red_Payload

text \<open>\<open>(oncelik, kod)\<close> in order.\<close>

definition red_sirasi :: "red \<Rightarrow> nat \<times> string" where
  "red_sirasi r = (case r of Red_Hesap \<Rightarrow> (10, ''HESAP_BELIRSIZ'') | Red_Tarih \<Rightarrow> (20, ''TARIH_BELIRSIZ'')
     | Red_Bilinmeyen \<Rightarrow> (30, ''BILINMEYEN_AKSIYON'') | Red_Celiski \<Rightarrow> (30, ''OZET_PAYLOAD_CELISKISI'')
     | Red_Payload \<Rightarrow> (30, ''PAYLOAD_GECERSIZ''))"

definition kullanicidan_bilgi_ister :: "red \<Rightarrow> bool" where
  "kullanicidan_bilgi_ister r \<longleftrightarrow> r \<in> {Red_Hesap, Red_Tarih}"

definition red_rank :: "red \<Rightarrow> nat" where
  "red_rank r = (case r of Red_Hesap \<Rightarrow> 0 | Red_Tarih \<Rightarrow> 1 | Red_Bilinmeyen \<Rightarrow> 2 | Red_Celiski \<Rightarrow> 3 | Red_Payload \<Rightarrow> 4)"

definition en_oncelikli :: "red list \<Rightarrow> red option" where
  "en_oncelikli rs = (case sort_key red_rank rs of [] \<Rightarrow> None | r # _ \<Rightarrow> Some r)"

definition red_of :: "propose_error \<Rightarrow> red" where
  "red_of err = (case err of Payload_Gecersiz \<Rightarrow> Red_Payload | Ozet_Celiskisi \<Rightarrow> Red_Celiski
     | Hesap_Belirsiz \<Rightarrow> Red_Hesap | Tarih_Belirsiz \<Rightarrow> Red_Tarih)"

text \<open>\<open>tool_argumani\<close> and the first checks of \<open>propose_action\<close>: the type, then the shape of the payload.\<close>

definition tool_argumani :: "propose_args option \<Rightarrow> red + (action_type \<times> payload \<times> propose_args)" where
  "tool_argumani inp = (case inp of None \<Rightarrow> Inl Red_Payload
     | Some a \<Rightarrow> (case pr_type a of None \<Rightarrow> Inl Red_Bilinmeyen
        | Some ty \<Rightarrow> (case pr_payload a of None \<Rightarrow> Inl Red_Payload | Some p \<Rightarrow> Inr (ty, p, a))))"

subsection \<open>Lines and sentences\<close>

fun splitlines_from :: "string \<Rightarrow> string \<Rightarrow> string list" where
  "splitlines_from acc [] = (if acc = [] then [] else [rev acc])"
| "splitlines_from acc (c # s) =
     (if code_of c \<in> {10, 11, 12, 13, 28, 29, 30}
      then rev acc # splitlines_from [] (if code_of c = 13 \<and> take 1 s = nl then drop 1 s else s)
      else splitlines_from (c # acc) s)"

definition splitlines :: "string \<Rightarrow> string list" where "splitlines s = splitlines_from [] s"

text \<open>\<open>re.split(r'(?<=[.!?])\s+', s)\<close>.\<close>

function cumleler_from :: "string \<Rightarrow> string \<Rightarrow> string list" where
  "cumleler_from acc [] = [rev acc]"
| "cumleler_from acc (c # s) =
     (if is_space c \<and> acc \<noteq> [] \<and> hd acc \<in> set ''.!?'' then rev acc # cumleler_from [] (dropWhile is_space s)
      else cumleler_from (c # acc) s)"
  by pat_completeness auto
termination by (relation "measure (\<lambda>(_, s). length s)") (auto simp: le_imp_less_Suc length_dropWhile_le)

definition cumleler :: "string \<Rightarrow> string list" where "cumleler s = cumleler_from [] s"

subsection \<open>The answer\<close>

text \<open>\<open>ru_fold\<close> is \<open>tr_text.normalize\<close>, \<open>ru_yc\<close> and \<open>ru_istek\<close> recognise the heading of a new checkpoint and the wish
  for one, \<open>ru_niyet\<close> is \<open>sahte_niyet_iddiasi_var\<close>, \<open>ru_koseli\<close> a text without its claims in brackets (\<open>None\<close> where it has none),
  \<open>ru_dolgu\<close> a sentence some deletable rule of style matches, \<open>ru_siz\<close> is \<open>siz_hitabi_onar\<close> and \<open>ru_isaret\<close> a text without its
  confidence marks.\<close>

record reply_rules =
  ru_fold :: "string \<Rightarrow> string"
  ru_yc :: "string \<Rightarrow> bool"
  ru_istek :: "string \<Rightarrow> bool"
  ru_niyet :: "string \<Rightarrow> bool"
  ru_koseli :: "string \<Rightarrow> string option"
  ru_dolgu :: "string \<Rightarrow> bool"
  ru_siz :: "string \<Rightarrow> string"
  ru_isaret :: "string \<Rightarrow> string"

datatype reply_body =
    Metin string
  | Onay_Yok_Istek
  | Hazirlanamadi
  | Red_Cumlesi red
  | Tek_Kart
  | Cok_Kart nat
  | Bos_Cevap
  | Koc_Dustu "sinif option"

datatype reply_note = Onay_Yok_Notu | Hesap_Sorusu | Kayit_Yok_Notu | Icgoru_Notu

record coach_reply =
  rp_body :: reply_body
  rp_notes :: "reply_note list"

definition emanet_kasa_text :: "string \<Rightarrow> bool" where
  "emanet_kasa_text s = (case prefixed ''emanet'' s of None \<Rightarrow> False
     | Some r \<Rightarrow> prefixed ''kasa'' (dropWhile is_space r) \<noteq> None)"

definition emanet_header :: "string \<Rightarrow> bool" where
  "emanet_header l = (let t = dropWhile (\<lambda>c. is_space c \<or> c \<in> set ''[#*>-'') l in
     emanet_kasa_text t \<or>
     (t \<noteq> [] \<and> is_digit (hd t) \<and>
      emanet_kasa_text (dropWhile is_space (skip_one ''.):'' (dropWhile is_space (dropWhile is_digit t))))))"

definition section_boundary :: "string \<Rightarrow> bool" where
  "section_boundary l = (let t = dropWhile is_space l; k = length (takeWhile (\<lambda>c. c = CHR ''#'') t); r = drop k t in
     take 1 t = ''['' \<or> (1 \<le> k \<and> k \<le> 4 \<and> r \<noteq> [] \<and> is_space (hd r)))"

definition emanet_body :: "reply_rules \<Rightarrow> string \<Rightarrow> bool" where
  "emanet_body ru l \<longleftrightarrow> strip l \<noteq> [] \<and> \<not> section_boundary l \<and> \<not> ru_yc ru (strip l)"

definition yc_body :: "string \<Rightarrow> bool" where
  "yc_body l \<longleftrightarrow> strip l \<noteq> [] \<and> take 1 (strip l) \<noteq> ''[''"

function bolum_temizle :: "reply_rules \<Rightarrow> bool \<Rightarrow> bool \<Rightarrow> string list \<Rightarrow> string list" where
  "bolum_temizle ru emanet_sifir istek [] = []"
| "bolum_temizle ru emanet_sifir istek (l # ls) =
     (if emanet_header (ru_fold ru l) \<and> emanet_sifir
      then bolum_temizle ru emanet_sifir istek (dropWhile (emanet_body ru) ls)
      else if ru_yc ru l
      then (if istek then l # takeWhile yc_body ls else []) @ bolum_temizle ru emanet_sifir istek (dropWhile yc_body ls)
      else l # bolum_temizle ru emanet_sifir istek ls)"
  by pat_completeness auto
termination by (relation "measure (\<lambda>(_, _, _, ls). length ls)") (auto simp: le_imp_less_Suc length_dropWhile_le)

definition sahte_tamamlama_iddiasi_var :: "(string \<Rightarrow> string) \<Rightarrow> string \<Rightarrow> bool" where
  "sahte_tamamlama_iddiasi_var fold_tr s = word_search [''kaydettim'', ''isledim'', ''isleme aldim'', ''ekledim'',
     ''guncelledim'', ''hesabina gecirdim'', ''kayit altina aldim'', ''kayda gecirdim'', ''not olarak girdim'',
     ''sisteme yazdim'', ''hallettim'', ''dustum''] no_word (fold_tr s)"

text \<open>The lines of a text of several lines, the sentences of a line, for which a predicate does not hold.\<close>

definition without :: "(string \<Rightarrow> bool) \<Rightarrow> bool \<Rightarrow> string \<Rightarrow> string" where
  "without P cok_satir s = (if cok_satir then strip (join_with nl (filter (\<lambda>l. \<not> P l) (splitlines s)))
     else strip (join_with '' '' (filter (\<lambda>c. \<not> P c) (cumleler s))))"

definition niyet_temizle :: "reply_rules \<Rightarrow> bool \<Rightarrow> string \<Rightarrow> coach_reply" where
  "niyet_temizle ru kayit_var s =
     (if kayit_var \<or> \<not> ru_niyet ru s then \<lparr>rp_body = Metin s, rp_notes = []\<rparr>
      else (let kalan = without (ru_niyet ru) (CHR 0x0A \<in> set s) s in
        if kalan = [] then \<lparr>rp_body = Onay_Yok_Istek, rp_notes = []\<rparr>
        else \<lparr>rp_body = Metin kalan, rp_notes = [Onay_Yok_Notu]\<rparr>))"

text \<open>The claims of a completed record go; the flag tells whether there was one.\<close>

definition iddia_temizle :: "reply_rules \<Rightarrow> bool \<Rightarrow> string \<Rightarrow> string \<times> bool" where
  "iddia_temizle ru not_var s =
     (let (s1, f1) = (case ru_koseli ru s of None \<Rightarrow> (s, False) | Some t \<Rightarrow> (strip t, True));
          sahte = sahte_tamamlama_iddiasi_var (ru_fold ru)
      in if sahte s1 then (without sahte (not_var \<or> CHR 0x0A \<in> set s1) s1, True) else (s1, f1))"

definition tamamlama_temizle :: "reply_rules \<Rightarrow> mesaj_niyeti \<Rightarrow> coach_reply \<Rightarrow> coach_reply" where
  "tamamlama_temizle ru ny r =
     (let (body, fake) = (case rp_body r of
            Metin s \<Rightarrow> (case iddia_temizle ru (rp_notes r \<noteq> []) s of (t, f) \<Rightarrow> (Metin t, f))
          | b \<Rightarrow> (b, False));
          onay_notu = (rp_body r = Onay_Yok_Istek \<or> rp_notes r \<noteq> [])
      in if fake then \<lparr>rp_body = body, rp_notes = rp_notes r @ [Hesap_Sorusu]\<rparr>
         else if ny_gerceklesmis ny \<and> \<not> ny_soru ny \<and> \<not> onay_notu then \<lparr>rp_body = body, rp_notes = rp_notes r @ [Kayit_Yok_Notu]\<rparr>
         else \<lparr>rp_body = body, rp_notes = rp_notes r\<rparr>)"

text \<open>\<open>dolgu_temizle\<close>: a text of nothing but filler stays, unless a note follows it.\<close>

definition dolgusuz_satir :: "reply_rules \<Rightarrow> string \<Rightarrow> string list" where
  "dolgusuz_satir ru l = (if strip l = [] then [l]
     else (case filter (\<lambda>c. \<not> ru_dolgu ru c) (cumleler l) of [] \<Rightarrow> [] | cs \<Rightarrow> [strip (join_with '' '' cs)]))"

definition dolgu_temizle :: "reply_rules \<Rightarrow> bool \<Rightarrow> string \<Rightarrow> string" where
  "dolgu_temizle ru not_var s =
     (if strip s = [] then s
      else (let temiz = strip (join_with nl (concat (map (dolgusuz_satir ru) (splitlines s)))) in
        if temiz = [] \<and> \<not> not_var then s else temiz))"

definition uslup :: "reply_rules \<Rightarrow> coach_reply \<Rightarrow> coach_reply" where
  "uslup ru r = (case rp_body r of Metin s \<Rightarrow> r\<lparr>rp_body := Metin (ru_siz ru (dolgu_temizle ru (rp_notes r \<noteq> []) s))\<rparr> | _ \<Rightarrow> r)"

text \<open>\<open>emanet_sifir\<close>: there is a cockpit and its emanet account is empty.\<close>

definition postprocess_report :: "reply_rules \<Rightarrow> bool \<Rightarrow> string \<Rightarrow> bool \<Rightarrow> bool \<Rightarrow> reply_body \<Rightarrow> coach_reply" where
  "postprocess_report ru emanet_sifir user_message aksiyon_var bekleyen_var body =
     (if body = Metin [] then \<lparr>rp_body = body, rp_notes = []\<rparr>
      else (let r1 = (case body of
              Metin s \<Rightarrow> niyet_temizle ru (aksiyon_var \<or> bekleyen_var)
                (strip (join_with nl (bolum_temizle ru emanet_sifir (ru_istek ru user_message) (splitlines s))))
            | b \<Rightarrow> \<lparr>rp_body = b, rp_notes = []\<rparr>);
            r2 = (if aksiyon_var then r1 else tamamlama_temizle ru (niyet_cikar (ru_fold ru) user_message) r1)
        in uslup ru r2))"

text \<open>\<open>cleaned.split("\n")\<close> without the blank lines.\<close>

definition strip_confidence_marker :: "reply_rules \<Rightarrow> coach_reply \<Rightarrow> coach_reply" where
  "strip_confidence_marker ru r = (case rp_body r of
     Metin s \<Rightarrow> r\<lparr>rp_body := Metin (if s = [] then [] else
       strip (join_with nl (filter (\<lambda>l. strip l \<noteq> []) (splitlines (ru_isaret ru s)))))\<rparr>
   | _ \<Rightarrow> r)"

definition build_smart_reply :: "nat \<Rightarrow> coach_reply \<Rightarrow> coach_reply" where
  "build_smart_reply n r = (case rp_body r of
     Metin s \<Rightarrow> if strip s \<noteq> [] \<or> rp_notes r \<noteq> [] then r
       else if n = 1 then r\<lparr>rp_body := Tek_Kart\<rparr>
       else if 1 < n then r\<lparr>rp_body := Cok_Kart n\<rparr>
       else r\<lparr>rp_body := Bos_Cevap\<rparr>
   | _ \<Rightarrow> r)"

text \<open>From the text of the model to the reply.\<close>

definition final_reply :: "reply_rules \<Rightarrow> bool \<Rightarrow> string \<Rightarrow> bool \<Rightarrow> nat \<Rightarrow> red list \<Rightarrow> bool \<Rightarrow> reply_body \<Rightarrow> coach_reply \<times> coach_reply" where
  "final_reply ru emanet_sifir user_message bekleyen_var n redler insight_invalid body =
     (let r1 = strip_confidence_marker ru (postprocess_report ru emanet_sifir user_message (0 < n) bekleyen_var body);
          r2 = (case en_oncelikli redler of Some red \<Rightarrow> if n = 0 then \<lparr>rp_body = Red_Cumlesi red, rp_notes = []\<rparr> else r1 | None \<Rightarrow> r1);
          r3 = (if insight_invalid then r2\<lparr>rp_notes := rp_notes r2 @ [Icgoru_Notu]\<rparr> else r2)
      in (r3, build_smart_reply n r3))"

end
