(* ===== verification/Coach_Turn.thy ===== *)
theory Coach_Turn
  imports Coach_Text Scheduler
begin

text \<open>
  One turn of the conversation, \<open>CoachEngine.chat\<close> of app/coach.py, from the history it loads to the rows it
  saves, and the endpoints of app/routers/coach.py with their quota. The cockpit a turn shows the model, the
  grounding of amounts, the confidence and the reasoning trace are not modelled: none of them changes the reply
  or a table of the model. The fixed texts of the prompt are parameters.
\<close>

subsection \<open>The state of a turn\<close>

record coach_db =
  cd_sys :: sys
  cd_insights :: "insight list"
  cd_memories :: "coach_memory list"
  cd_llm :: llm_state

text \<open>\<open>te_hesap\<close> tells whether a message names an account, \<open>te_vakit\<close> gives the time a row is inserted at,
  \<open>te_yaz\<close> the wording of a reply; \<open>te_olay\<close> is the environment of the extractors but for the history.\<close>

record turn_env =
  te_llm :: llm
  te_tavan :: rat
  te_motor :: motor
  te_env :: env
  te_mi :: metin_islem
  te_hesap :: "string \<Rightarrow> bool"
  te_ru :: reply_rules
  te_isod :: "json \<Rightarrow> date option"
  te_olay :: batch_env
  te_vakit :: "nat \<Rightarrow> int"
  te_yaz :: "coach_reply \<Rightarrow> string"
  te_plan_talimati :: string
  te_plan_basi :: string
  te_nudge_propose :: "red list \<Rightarrow> string"
  te_nudge_soru :: string

definition user_msg :: "string \<Rightarrow> msg" where
  "user_msg s = \<lparr>mg_role = Role_User, mg_content = s, mg_calls = None, mg_call_id = None\<rparr>"

definition ask :: "turn_env \<Rightarrow> llm_request \<Rightarrow> coach_db \<Rightarrow> coach_db \<times> (hata + llm_response)" where
  "ask e rq cd = (case motor_chat (te_llm e) (te_tavan e) (te_motor e) rq (cd_llm cd) of (st, r) \<Rightarrow> (cd\<lparr>cd_llm := st\<rparr>, r))"

text \<open>\<open>_save_message\<close>.\<close>

definition save_message :: "turn_env \<Rightarrow> nat \<Rightarrow> coach_role \<Rightarrow> string \<Rightarrow> stored_call list option option \<Rightarrow> string option \<Rightarrow>
    nat list option \<Rightarrow> coach_db \<Rightarrow> coach_db" where
  "save_message e u role content calls cid acts cd =
     (let i = next_key cm_id (cd_memories cd) in
      cd\<lparr>cd_memories := cd_memories cd @ [\<lparr>cm_id = i, cm_user = u, cm_role = role, cm_content = content, cm_calls = calls,
         cm_call_id = cid, cm_actions = acts, cm_time = te_vakit e i\<rparr>]\<rparr>)"

subsection \<open>The plan and the main call\<close>

definition araclar :: "bool \<Rightarrow> bool \<Rightarrow> tool list" where
  "araclar selam offer = (if selam then [] else if offer then [Tool_Propose, Tool_Insight] else [Tool_Insight])"

definition plan_asamasi :: "turn_env \<Rightarrow> bool \<Rightarrow> bool \<Rightarrow> msg list \<Rightarrow> coach_db \<Rightarrow> coach_db \<times> msg list" where
  "plan_asamasi e planla offer messages cd =
     (if \<not> planla then (cd, messages)
      else (case ask e \<lparr>lq_mekanik = offer, lq_messages = messages @ [user_msg (te_plan_talimati e)], lq_tools = []\<rparr> cd of
          (cd', Inl _) \<Rightarrow> (cd', messages)
        | (cd', Inr r) \<Rightarrow> (cd', if strip (lr_text r) = [] then messages
            else messages @ [user_msg (te_plan_basi e @ strip (lr_text r))])))"

subsection \<open>The tool calls\<close>

text \<open>\<open>_propose_tek_cagri\<close>. A proposal is kept with the text of its summary.\<close>

definition propose_tek_cagri :: "turn_env \<Rightarrow> nat \<Rightarrow> nat option \<Rightarrow> string \<Rightarrow> propose_args option \<Rightarrow> coach_db \<Rightarrow>
    coach_db \<times> (red + (pending_action \<times> string))" where
  "propose_tek_cagri e u w user_message inp cd = (case tool_argumani inp of
     Inl r \<Rightarrow> (cd, Inl r)
   | Inr (ty, p, a) \<Rightarrow>
      (case propose_action (te_env e) (te_mi e) (cd_sys cd) u ty p
          \<lparr>mesaj_var = (user_message \<noteq> []), hesap_geciyor = te_hesap e user_message, tarih_geciyor = pr_tarih a,
           ozet_sayilari = pr_sayilar a\<rparr> w of
         (s, Inl err) \<Rightarrow> (cd\<lparr>cd_sys := s\<rparr>, Inl (red_of err))
       | (s, Inr pa) \<Rightarrow> (cd\<lparr>cd_sys := s\<rparr>, Inr (pa, pr_summary a))))"

record tool_state =
  ts_cd :: coach_db
  ts_actions :: "(pending_action \<times> string) list"
  ts_redler :: "red list"
  ts_insight_invalid :: bool

definition arac_isle :: "turn_env \<Rightarrow> nat \<Rightarrow> nat option \<Rightarrow> string \<Rightarrow> tool_call \<Rightarrow> tool_state \<Rightarrow> tool_state" where
  "arac_isle e u w user_message c ts = (case c of
     Call_Insight inp \<Rightarrow>
       (case save_insight_call (be_rules (te_olay e)) (te_isod e) (simdi (be_clock (te_olay e))) u inp (cd_insights (ts_cd ts)) of
          (t, bad) \<Rightarrow> ts\<lparr>ts_cd := (ts_cd ts)\<lparr>cd_insights := t\<rparr>, ts_insight_invalid := ts_insight_invalid ts \<or> bad\<rparr>)
   | Call_Propose inp \<Rightarrow>
       (case propose_tek_cagri e u w user_message inp (ts_cd ts) of
          (cd, Inl r) \<Rightarrow> ts\<lparr>ts_cd := cd, ts_redler := ts_redler ts @ [r]\<rparr>
        | (cd, Inr a) \<Rightarrow> ts\<lparr>ts_cd := cd, ts_actions := ts_actions ts @ [a]\<rparr>)
   | Call_Other \<Rightarrow> ts)"

text \<open>The retry takes the proposals alone.\<close>

definition oneri_isle :: "turn_env \<Rightarrow> nat \<Rightarrow> nat option \<Rightarrow> string \<Rightarrow> tool_call \<Rightarrow> tool_state \<Rightarrow> tool_state" where
  "oneri_isle e u w user_message c ts = (case c of Call_Propose _ \<Rightarrow> arac_isle e u w user_message c ts | _ \<Rightarrow> ts)"

subsection \<open>The retry\<close>

definition bos_ya_da_sahte :: "turn_env \<Rightarrow> string \<Rightarrow> bool" where
  "bos_ya_da_sahte e text \<longleftrightarrow> strip text = [] \<or> ru_niyet (te_ru e) text"

definition oneri_tekrari :: "turn_env \<Rightarrow> nat \<Rightarrow> nat option \<Rightarrow> string \<Rightarrow> tool list \<Rightarrow> msg list \<Rightarrow> llm_response \<Rightarrow> tool_state \<Rightarrow>
    tool_state \<times> reply_body \<times> string option" where
  "oneri_tekrari e u w user_message tools messages resp ts =
     (case ask e \<lparr>lq_mekanik = True, lq_messages = messages @ [user_msg (te_nudge_propose e (ts_redler ts))], lq_tools = tools\<rparr> (ts_cd ts) of
        (cd, Inl _) \<Rightarrow> (ts\<lparr>ts_cd := cd\<rparr>, Metin (lr_text resp), lr_provider resp)
      | (cd, Inr r) \<Rightarrow>
          (let ts' = fold (oneri_isle e u w user_message) (lr_calls r) (ts\<lparr>ts_cd := cd\<rparr>) in
           if ts_actions ts' \<noteq> [] then (ts', Metin (lr_text r), lr_provider r)
           else if ts_redler ts' = [] \<and> bos_ya_da_sahte e (lr_text resp) then (ts', Hazirlanamadi, lr_provider resp)
           else (ts', Metin (lr_text resp), lr_provider resp)))"

definition soru_tekrari :: "turn_env \<Rightarrow> bool \<Rightarrow> msg list \<Rightarrow> llm_response \<Rightarrow> tool_state \<Rightarrow>
    tool_state \<times> reply_body \<times> string option" where
  "soru_tekrari e offer messages resp ts =
     (case ask e \<lparr>lq_mekanik = offer, lq_messages = messages @ [user_msg (te_nudge_soru e)], lq_tools = []\<rparr> (ts_cd ts) of
        (cd, Inl _) \<Rightarrow> (ts\<lparr>ts_cd := cd\<rparr>, Metin (lr_text resp), lr_provider resp)
      | (cd, Inr r) \<Rightarrow> (ts\<lparr>ts_cd := cd\<rparr>, Metin (if strip (lr_text r) \<noteq> [] then lr_text r else lr_text resp), lr_provider resp))"

definition tekrar_asamasi :: "turn_env \<Rightarrow> nat \<Rightarrow> nat option \<Rightarrow> string \<Rightarrow> mesaj_niyeti \<Rightarrow> bool \<Rightarrow> tool list \<Rightarrow> msg list \<Rightarrow>
    llm_response \<Rightarrow> tool_state \<Rightarrow> tool_state \<times> reply_body \<times> string option" where
  "tekrar_asamasi e u w user_message ny offer tools messages resp ts =
     (if ts_actions ts = [] \<and> \<not> list_ex kullanicidan_bilgi_ister (ts_redler ts) \<and> offer \<and>
         (bos_ya_da_sahte e (lr_text resp) \<or> ny_gerceklesmis ny)
      then oneri_tekrari e u w user_message tools messages resp ts
      else if ny_soru ny \<and> strip (lr_text resp) = [] then soru_tekrari e offer messages resp ts
      else (ts, Metin (lr_text resp), lr_provider resp))"

subsection \<open>The turn\<close>

definition pending_var :: "nat \<Rightarrow> nat option \<Rightarrow> sys \<Rightarrow> bool" where
  "pending_var u w s \<longleftrightarrow> list_ex (\<lambda>p. scope_filter u w (pa_user p) (pa_ws p) \<and> pa_status p = Pending) (pendings s)"

definition emanet_sifir :: "nat \<Rightarrow> nat option \<Rightarrow> db \<Rightarrow> bool" where
  "emanet_sifir u w s = (case account_totals (filter (acc_in_scope u w) (accounts s)) (0, 0, 0, 0, 0) of
     (_, _, _, _, emanet) \<Rightarrow> qhe 2 emanet = 0)"

text \<open>The extractors read the tables as they are then. A flush the database refuses leaves the session waiting for
  a rollback: the next save of the turn raises.\<close>

definition olay_tetikle :: "turn_env \<Rightarrow> nat option \<Rightarrow> nat \<Rightarrow> coach_db \<Rightarrow> session \<times> coach_db" where
  "olay_tetikle e w u cd =
     (let b = (te_olay e)\<lparr>be_history := (be_history (te_olay e))\<lparr>hi_db := tables (cd_sys cd), hi_memories := cd_memories cd\<rparr>\<rparr>
      in case fold (guarded_extractor b w u) event_after_user_message (Clean, cd_insights cd) of
        (ses, t) \<Rightarrow> (ses, cd\<lparr>cd_insights := t\<rparr>))"

definition call_name :: "nat \<Rightarrow> string" where
  "call_name i = ''call_'' @ str_of_nat i"

definition tool_row :: "turn_env \<Rightarrow> nat \<Rightarrow> pending_action \<times> string \<Rightarrow> coach_db \<Rightarrow> coach_db" where
  "tool_row e u a = save_message e u Role_Tool (''action_id='' @ str_of_nat (pa_id (fst a)) @ '', status=pending, summary='' @ snd a)
     None (Some (call_name (pa_id (fst a)))) None"

definition save_answer :: "turn_env \<Rightarrow> nat \<Rightarrow> (pending_action \<times> string) list \<Rightarrow> coach_reply \<Rightarrow> coach_reply \<Rightarrow> coach_db \<Rightarrow> coach_db" where
  "save_answer e u acts clean reply cd =
     (if acts = [] then save_message e u Role_Assistant (te_yaz e reply) None None None cd
      else fold (tool_row e u) acts
        (save_message e u Role_Assistant (te_yaz e clean)
           (Some (Some (map (\<lambda>a. \<lparr>sc_id = Some (call_name (pa_id (fst a))), sc_name = Some ''propose_action''\<rparr>) acts))) None
           (Some (map (\<lambda>a. pa_id (fst a)) acts)) cd))"

record turn_result =
  tr_reply :: coach_reply
  tr_actions :: "(pending_action \<times> string) list"
  tr_memory :: "nat option"
  tr_down :: bool
  tr_provider :: "string option"

definition last_assistant :: "nat \<Rightarrow> coach_memory list \<Rightarrow> nat option" where
  "last_assistant u ms = (case rev (sort_key cm_time (filter (\<lambda>m. cm_user m = u \<and> cm_role m = Role_Assistant) ms)) of
     [] \<Rightarrow> None | m # _ \<Rightarrow> Some (cm_id m))"

text \<open>From the answer of the main call on; \<open>None\<close> is an exception.\<close>

definition chat_sonu :: "turn_env \<Rightarrow> nat \<Rightarrow> nat option \<Rightarrow> string \<Rightarrow> bool \<Rightarrow> mesaj_niyeti \<Rightarrow> bool \<Rightarrow> tool list \<Rightarrow> msg list \<Rightarrow>
    llm_response \<Rightarrow> coach_db \<Rightarrow> coach_db \<times> turn_result option" where
  "chat_sonu e u w user_message kokpit ny offer tools messages resp cd =
     (let ts0 = fold (arac_isle e u w user_message) (lr_calls resp)
            \<lparr>ts_cd = cd, ts_actions = [], ts_redler = [], ts_insight_invalid = False\<rparr>;
          (ts, body, prov) = tekrar_asamasi e u w user_message ny offer tools messages resp ts0;
          acts = ts_actions ts; s = cd_sys (ts_cd ts);
          bekleyen = (acts \<noteq> [] \<or> pending_var u w s);
          (clean, reply) = final_reply (te_ru e) (kokpit \<and> emanet_sifir u w (tables s)) user_message bekleyen (length acts)
            (ts_redler ts) (ts_insight_invalid ts) body;
          (ses, cd1) = olay_tetikle e w u (save_message e u Role_User user_message None None None (ts_cd ts))
      in if ses = Needs_Rollback then (cd1, None)
         else (let cd2 = save_answer e u acts clean reply cd1 in
           (cd2, Some \<lparr>tr_reply = reply, tr_actions = acts, tr_memory = last_assistant u (cd_memories cd2), tr_down = False,
             tr_provider = prov\<rparr>)))"

definition chat :: "turn_env \<Rightarrow> nat \<Rightarrow> nat option \<Rightarrow> string \<Rightarrow> bool \<Rightarrow> coach_db \<Rightarrow> coach_db \<times> turn_result option" where
  "chat e u w user_message kokpit cd =
     (let messages = load_history u (cd_memories cd) @ [user_msg user_message];
          ny = niyet_cikar (ru_fold (te_ru e)) user_message;
          selam = selamlasma_mi (ru_fold (te_ru e)) user_message;
          offer = (ny_sunulsun ny \<and> \<not> selam);
          tools = araclar selam offer;
          (cd1, messages1) = plan_asamasi e (kokpit \<and> \<not> ny_gerceklesmis ny) offer messages cd
      in (case ask e \<lparr>lq_mekanik = offer, lq_messages = messages1, lq_tools = tools\<rparr> cd1 of
          (cd2, Inl h) \<Rightarrow> (cd2, Some \<lparr>tr_reply = \<lparr>rp_body = Koc_Dustu (hata_sinifi h), rp_notes = []\<rparr>, tr_actions = [],
              tr_memory = None, tr_down = True, tr_provider = None\<rparr>)
        | (cd2, Inr resp) \<Rightarrow> chat_sonu e u w user_message kokpit ny offer tools messages1 resp cd2))"

definition reset_history :: "nat \<Rightarrow> coach_db \<Rightarrow> coach_db \<times> nat" where
  "reset_history u cd = (cd\<lparr>cd_insights := filter (\<lambda>r. in_user r \<noteq> u) (cd_insights cd),
      cd_memories := filter (\<lambda>m. cm_user m \<noteq> u) (cd_memories cd)\<rparr>,
    length (filter (\<lambda>m. cm_user m = u) (cd_memories cd)))"

end
