(* ===== verification/Coach_Routes.thy ===== *)
theory Coach_Routes
  imports Coach_Turn
begin

text \<open>
  The endpoints of app/routers/coach.py: a message with its limits, its reservation and the reconciliation of the
  ledger (theory Usage_Limits), the history, the usage badge and the reset. The endpoint of the reasoning trace
  is not modelled. Environment variables come as \<open>int(...)\<close> reads them; whether a slot of app/capacity.py is
  free is a parameter.
\<close>

record route_env =
  rt_turn :: turn_env
  rt_now :: int
  rt_tavan :: "int option"
  rt_gemini :: "int option"
  rt_openrouter :: "int option"
  rt_slot :: bool
  rt_sure :: nat

definition gunluk_limit :: "int option \<Rightarrow> nat \<Rightarrow> nat" where
  "gunluk_limit v olculen = (case v of None \<Rightarrow> olculen | Some n \<Rightarrow> nat (max 0 n))"

definition provider_daily_limits :: "route_env \<Rightarrow> (string \<times> nat) list" where
  "provider_daily_limits e = filter (\<lambda>(_, n). n \<noteq> 0)
     [(''gemini'', gunluk_limit (rt_gemini e) 20), (''openrouter'', gunluk_limit (rt_openrouter e) 50)]"

definition daily_constrained_provider :: "string \<Rightarrow> string" where
  "daily_constrained_provider p = (if p \<in> {''fallback'', ''gemini''} then ''gemini'' else p)"

definition muhasebe_saglayici_adi :: "motor \<Rightarrow> string" where
  "muhasebe_saglayici_adi m = (case m of Zincir _ \<Rightarrow> ''fallback'' | Tek p \<Rightarrow> lower (NAME (pv_kind p)))"

definition motor_model :: "motor \<Rightarrow> string" where
  "motor_model m = (case m of Tek p \<Rightarrow> pv_model p
     | Zincir [] \<Rightarrow> []
     | Zincir (p # ps) \<Rightarrow> pv_model p @ '' (fallback: '' @ str_of_nat (length ps) @ '' ek provider)'')"

definition alternatif_saglayici_var :: "motor \<Rightarrow> bool" where
  "alternatif_saglayici_var m = (case m of Zincir ps \<Rightarrow> 1 < length ps | Tek _ \<Rightarrow> False)"

record usage_info =
  us_today :: nat
  us_limit :: nat
  us_pct :: rat
  us_warn :: bool
  us_block :: bool
  us_user_today :: nat
  us_user_limit :: nat

definition build_usage_info :: "route_env \<Rightarrow> nat \<Rightarrow> string \<Rightarrow> bool \<Rightarrow> call_log list \<Rightarrow> usage_info" where
  "build_usage_info e u provider alternatif rows =
     (let target = daily_constrained_provider provider; n = paylasilan_cagri_sayisi (rt_now e) target rows;
          mine = bugunku_cagri_sayisi (rt_now e) u rows; cap = kullanici_gunluk_tavan (rt_tavan e)
      in case map_of (provider_daily_limits e) target of
          None \<Rightarrow> \<lparr>us_today = n, us_limit = 0, us_pct = 0, us_warn = False, us_block = False, us_user_today = mine, us_user_limit = cap\<rparr>
        | Some limit \<Rightarrow> (let pct = fround 1 (fmul (fdiv (of_nat n) (of_nat limit)) 100) in
            \<lparr>us_today = n, us_limit = limit, us_pct = pct, us_warn = (80 \<le> pct), us_block = (100 \<le> pct \<and> \<not> alternatif),
             us_user_today = mine, us_user_limit = cap\<rparr>))"

datatype chat_error = Mesaj_Gecersiz | Kisisel_Tavan | Gunluk_Kapasite | Slot_Yok | Kota_Dolu

record chat_response =
  cr_reply :: coach_reply
  cr_actions :: "(pending_action \<times> string) list"
  cr_memory :: "nat option"
  cr_down :: bool
  cr_usage :: usage_info

definition failed_turn :: turn_result where
  "failed_turn = \<lparr>tr_reply = \<lparr>rp_body = Koc_Dustu None, rp_notes = []\<rparr>, tr_actions = [], tr_memory = None, tr_down = True, tr_provider = None\<rparr>"

text \<open>The turn under its reservation \<open>i\<close>, and the ledger after it.\<close>

definition chat_under :: "route_env \<Rightarrow> nat \<Rightarrow> nat option \<Rightarrow> string \<Rightarrow> bool \<Rightarrow> nat \<Rightarrow> string \<Rightarrow> call_log list \<Rightarrow> coach_db \<Rightarrow>
    (call_log list \<times> coach_db) \<times> turn_result" where
  "chat_under e u w message kokpit i provider rows cd =
     (let (cd', res) = chat (rt_turn e) u w message kokpit cd;
          olcum = drop (length (ls_calls (cd_llm cd))) (ls_calls (cd_llm cd'));
          result = (case res of None \<Rightarrow> failed_turn | Some r \<Rightarrow> r);
          logged = (case tr_provider result of Some (c # s) \<Rightarrow> c # s | _ \<Rightarrow> provider);
          rows1 = tamamla i (Some logged) (res \<noteq> None) (Some (rt_sure e)) rows
      in ((fst (ek_cagrilari_uzlastir (rt_now e) u Koc olcum (Some i) rows1), cd'), result))"

definition chat_endpoint :: "route_env \<Rightarrow> nat \<Rightarrow> nat option \<Rightarrow> string \<Rightarrow> bool \<Rightarrow> call_log list \<times> coach_db \<Rightarrow>
    (call_log list \<times> coach_db) \<times> (chat_error + chat_response)" where
  "chat_endpoint e u w message kokpit st = (case st of (rows, cd) \<Rightarrow>
     (let m = te_motor (rt_turn e); provider = muhasebe_saglayici_adi m; yedek = alternatif_saglayici_var m;
          pre = build_usage_info e u provider yedek rows; cap = kullanici_gunluk_tavan (rt_tavan e)
      in if message = [] \<or> 4000 < length message then (st, Inl Mesaj_Gecersiz)
         else if cap \<noteq> 0 \<and> cap \<le> us_user_today pre then (st, Inl Kisisel_Tavan)
         else if us_block pre then (st, Inl Gunluk_Kapasite)
         else if \<not> rt_slot e then (st, Inl Slot_Yok)
         else (case rezerve_et (rt_now e) cap u provider (motor_model m) Koc rows of
             (None, rows1) \<Rightarrow> ((rows1, cd), Inl Kota_Dolu)
           | (Some i, rows1) \<Rightarrow>
              (case chat_under e u w message kokpit i provider rows1 cd of
                 ((rows2, cd'), r) \<Rightarrow> ((rows2, cd'), Inr \<lparr>cr_reply = tr_reply r, cr_actions = tr_actions r,
                    cr_memory = tr_memory r, cr_down = tr_down r, cr_usage = build_usage_info e u provider yedek rows2\<rparr>)))))"

text \<open>A row of the history with the proposals it refers to; \<open>None\<close> as content is the fixed sentence about a prepared
  action.\<close>

record history_item =
  hs_id :: nat
  hs_role :: coach_role
  hs_content :: "string option"
  hs_time :: int
  hs_actions :: "pending_action list"

definition memory_to_history_item :: "(nat \<Rightarrow> pending_action option) \<Rightarrow> coach_memory \<Rightarrow> history_item list" where
  "memory_to_history_item pa_map m =
     (if cm_role m = Role_Tool then []
      else [\<lparr>hs_id = cm_id m, hs_role = cm_role m,
        hs_content = (if cm_role m = Role_Assistant \<and> cm_content m = [] \<and> cm_calls m \<noteq> None then None else Some (cm_content m)),
        hs_time = cm_time m,
        hs_actions = concat (map (\<lambda>i. option_list (pa_map i)) (case cm_actions m of None \<Rightarrow> [] | Some is \<Rightarrow> is))\<rparr>])"

definition get_history :: "nat \<Rightarrow> nat \<Rightarrow> coach_db \<Rightarrow> history_item list option" where
  "get_history limit u cd =
     (if limit < 1 \<or> 500 < limit then None
      else (let rows = sort_key cm_time (filter (\<lambda>m. cm_user m = u) (cd_memories cd)); items = drop (length rows - limit) rows;
            pa_map = (\<lambda>i. List.find (\<lambda>p. pa_id p = i \<and> pa_user p = u) (pendings (cd_sys cd)))
        in Some (concat (map (memory_to_history_item pa_map) items))))"

text \<open>The badge: where no provider can be built, the label is what the environment names.\<close>

definition get_usage :: "route_env \<Rightarrow> (string \<Rightarrow> string option) \<Rightarrow> nat \<Rightarrow> call_log list \<Rightarrow> usage_info" where
  "get_usage e env u rows = (case build_provider env of
     Inr m \<Rightarrow> build_usage_info e u (muhasebe_saglayici_adi m) (alternatif_saglayici_var m) rows
   | Inl _ \<Rightarrow> (let v = getenv env ''LLM_PROVIDER'' []; ad = lower (strip (if v = [] then ''yapilandirilmamis'' else v))
       in build_usage_info e u ad (ad = ''fallback'') rows))"

end
