(* ===== verification/Coach_Laws.thy ===== *)
theory Coach_Laws
  imports Coach_Routes Insight_Laws Action_Protocol Usage_Laws
begin

text \<open>
  The laws of the conversation: a turn proposes and remembers but moves no money, it makes a bounded number of
  requests which the ledger of the quota counts one by one, the chain answers with its first working provider,
  and the reply never passes over that nothing was recorded.
\<close>

subsection \<open>Requests\<close>

definition saglayici_sayisi :: "motor \<Rightarrow> nat" where
  "saglayici_sayisi m = (case m of Tek _ \<Rightarrow> 1 | Zincir ps \<Rightarrow> length ps)"

text \<open>The log of the requests grows by at least \<open>a\<close> and at most \<open>b\<close> of them.\<close>

definition requests :: "nat \<Rightarrow> nat \<Rightarrow> llm_state \<Rightarrow> llm_state \<Rightarrow> bool" where
  "requests a b st st' \<longleftrightarrow> (\<exists>cs. ls_calls st' = ls_calls st @ cs \<and> a \<le> length cs \<and> length cs \<le> b)"

lemma requests_refl: "requests 0 b st st"
  by (simp add: requests_def)

lemma requests_trans:
  "requests a b st1 st2 \<Longrightarrow> requests c d st2 st3 \<Longrightarrow> a' \<le> a + c \<Longrightarrow> b + d \<le> b' \<Longrightarrow> requests a' b' st1 st3"
  by (fastforce simp: requests_def)

lemma requests_weaken: "requests a b st st' \<Longrightarrow> a' \<le> a \<Longrightarrow> b \<le> b' \<Longrightarrow> requests a' b' st st'"
  by (fastforce simp: requests_def)

lemma requests_calls: "ls_calls st2 = ls_calls st1 \<Longrightarrow> requests a b st st1 \<Longrightarrow> requests a b st st2"
  by (simp add: requests_def)

lemma requests_raw: "requests 1 1 st (fst (raw_chat f p rq st))"
  by (simp add: requests_def raw_chat_def Let_def)

lemma requests_dene:
  assumes "\<And>s. requests 1 1 s (fst (raw s))"
  shows "requests 1 (Suc n) s (fst (fst (dene tavan raw n a s)))"
proof (induction n arbitrary: a s)
  case 0
  show ?case using assms [of s] by simp
next
  case (Suc n)
  obtain s' res where r: "raw s = (s', res)" by fastforce
  have one: "requests 1 1 s s'" using assms [of s] r by simp
  have done1: "requests 1 (Suc (Suc n)) s s'" by (rule requests_weaken [OF one]) simp_all
  show ?case
  proof (cases res)
    case (Inr x)
    then show ?thesis using r done1 by simp
  next
    case (Inl h)
    show ?thesis
    proof (cases "tekrar_karari tavan a h")
      case None
      then show ?thesis using r Inl done1 by simp
    next
      case (Some w)
      have "requests 1 (Suc (Suc n)) s (fst (fst (dene tavan raw n (a + 1) s')))"
        by (rule requests_trans [OF one Suc.IH]) simp_all
      then show ?thesis using r Inl Some by (simp add: case_prod_beta)
    qed
  qed
qed

lemma requests_provider: "requests 1 3 st (fst (provider_chat f tavan p rq st))"
proof -
  have "requests 1 (Suc 2) st (fst (fst (dene tavan (raw_chat f p rq) 2 1 st)))"
    by (rule requests_dene) (rule requests_raw)
  then show ?thesis by (simp add: provider_chat_def call_with_retry_def numeral_3_eq_3 numeral_2_eq_2)
qed

lemma after_calls [simp]: "ls_calls (after_failure p h st) = ls_calls st" "ls_calls (after_success i p st) = ls_calls st"
  by (simp_all add: after_failure_def after_success_def)

lemma requests_zincir:
  assumes "\<And>p s. requests 1 3 s (fst (cht p s))"
  shows "requests (if ps = [] then 0 else 1) (3 * length ps) s (fst (zincir_dene cht i ps last_exc s))"
proof (induction ps arbitrary: i last_exc s)
  case Nil
  show ?case by (simp add: requests_refl)
next
  case (Cons p ps)
  obtain s' res where r: "cht p s = (s', res)" by fastforce
  have one: "requests 1 3 s s'" using assms [of s p] r by simp
  show ?case
  proof (cases res)
    case (Inr x)
    have "requests 1 (3 * length (p # ps)) s (after_success i p s')"
      by (rule requests_calls [OF _ requests_weaken [OF one]]) simp_all
    then show ?thesis using r Inr by simp
  next
    case (Inl h)
    have "requests 1 (3 * length (p # ps)) s (fst (zincir_dene cht (i + 1) ps h (after_failure p h s')))"
      by (rule requests_trans [OF requests_calls [OF _ one] Cons.IH]) simp_all
    then show ?thesis using r Inl by simp
  qed
qed

lemma adaylar_length: "length (adaylar ps st) \<le> length ps"
  by (simp add: adaylar_def Let_def)

lemma adaylar_Nil: "adaylar ps st = [] \<longleftrightarrow> ps = []"
  by (auto simp: adaylar_def Let_def)

lemma requests_motor:
  "requests (min 1 (saglayici_sayisi m)) (3 * saglayici_sayisi m) st (fst (motor_chat f tavan m rq st))"
proof (cases m)
  case (Tek p)
  then show ?thesis using requests_provider by (simp add: motor_chat_def saglayici_sayisi_def)
next
  case (Zincir ps)
  have "requests (if adaylar ps st = [] then 0 else 1) (3 * length (adaylar ps st)) st
      (fst (zincir_dene (\<lambda>p. provider_chat f tavan p rq) 0 (adaylar ps st) no_error st))"
    by (rule requests_zincir) (rule requests_provider)
  then have "requests (min 1 (length ps)) (3 * length ps) st
      (fst (zincir_dene (\<lambda>p. provider_chat f tavan p rq) 0 (adaylar ps st) no_error st))"
    by (rule requests_weaken) (use adaylar_length [of ps st] in \<open>auto simp: adaylar_Nil min_def\<close>)
  then show ?thesis by (simp add: motor_chat_def Zincir saglayici_sayisi_def)
qed

subsection \<open>What a turn may change\<close>

definition fresh_proposal :: "nat \<Rightarrow> pending_action \<Rightarrow> bool" where
  "fresh_proposal u p \<longleftrightarrow> pa_user p = u \<and> pa_status p = Pending \<and>
     (case pa_payload p of None \<Rightarrow> False | Some q \<Rightarrow> dogrula (pa_type p) q)"

definition account_ids_positive :: "db \<Rightarrow> bool" where
  "account_ids_positive s \<longleftrightarrow> list_all (\<lambda>a. 0 < acc_id a) (accounts s)"

definition other_memories :: "nat \<Rightarrow> coach_memory list \<Rightarrow> coach_memory list" where
  "other_memories u ms = filter (\<lambda>m. cm_user m \<noteq> u) ms"

definition sound :: "coach_db \<Rightarrow> bool" where
  "sound cd \<longleftrightarrow> account_ids_positive (tables (cd_sys cd)) \<and> insight_keys_ok (cd_insights cd)"

text \<open>From \<open>cd\<close> to \<open>cd'\<close> the user \<open>u\<close> made the proposals \<open>new\<close>.\<close>

definition turn_frame :: "nat \<Rightarrow> pending_action list \<Rightarrow> coach_db \<Rightarrow> coach_db \<Rightarrow> bool" where
  "turn_frame u new cd cd' \<longleftrightarrow> sound cd' \<and> tables (cd_sys cd') = tables (cd_sys cd) \<and>
     pendings (cd_sys cd') = pendings (cd_sys cd) @ new \<and> list_all (fresh_proposal u) new \<and>
     others u (cd_insights cd') = others u (cd_insights cd) \<and>
     other_memories u (cd_memories cd') = other_memories u (cd_memories cd)"

lemma frame_refl: "sound cd \<Longrightarrow> turn_frame u [] cd cd"
  by (simp add: turn_frame_def)

lemma frame_trans: "turn_frame u xs cd1 cd2 \<Longrightarrow> turn_frame u ys cd2 cd3 \<Longrightarrow> turn_frame u (xs @ ys) cd1 cd3"
  by (simp add: turn_frame_def)

lemma frame_sound: "turn_frame u xs cd cd' \<Longrightarrow> sound cd'"
  by (simp add: turn_frame_def)

lemma frame_then: "turn_frame u xs cd1 cd2 \<Longrightarrow> turn_frame u [] cd2 cd3 \<Longrightarrow> turn_frame u xs cd1 cd3"
  using frame_trans [of u xs cd1 cd2 "[]" cd3] by simp

lemma frame_llm: "sound cd \<Longrightarrow> turn_frame u [] cd (cd\<lparr>cd_llm := st\<rparr>)"
  by (simp add: turn_frame_def sound_def)

lemma ask_frame: "sound cd \<Longrightarrow> turn_frame u [] cd (fst (ask e rq cd))"
  by (simp add: ask_def frame_llm split: prod.split)

lemma ask_requests:
  "requests (min 1 (saglayici_sayisi (te_motor e))) (3 * saglayici_sayisi (te_motor e)) (cd_llm cd) (cd_llm (fst (ask e rq cd)))"
  using requests_motor [of "te_motor e" "cd_llm cd" "te_llm e" "te_tavan e" rq] by (simp add: ask_def case_prod_beta)

lemma save_message_frame: "sound cd \<Longrightarrow> turn_frame u [] cd (save_message e u role c calls cid acts cd)"
  by (simp add: turn_frame_def sound_def save_message_def Let_def other_memories_def)

lemma insights_frame:
  assumes "sound cd" and "insight_keys_ok t" and "others u t = others u (cd_insights cd)"
  shows "turn_frame u [] cd (cd\<lparr>cd_insights := t\<rparr>)"
  using assms by (simp add: turn_frame_def sound_def)

lemma note_frame:
  assumes "sound cd"
  shows "turn_frame u [] cd (cd\<lparr>cd_insights := fst (save_insight_call tr isod now u inp (cd_insights cd))\<rparr>)"
  using insight_step_tidy [of "cd_insights cd" u "Note tr isod now inp"] assms
  by (intro insights_frame) (simp_all add: insight_step_def sound_def)

lemma proposal_fresh:
  assumes "account_ids_positive (tables s)" and p: "propose_action e mi s u a p m w = (s', Inr pa)"
  shows "fresh_proposal u pa"
proof -
  obtain q where q: "check_proposal e mi (tables s) u a p m w = Inr (q, pa_warning pa)" "pa_payload pa = Some q"
    "pa_user pa = u" "pa_type pa = a" "pa_status pa = Pending"
    using propose_Inr [OF p] by metis
  note c = check_proposal_Inr [OF q(1)]
  have "dogrula a q"
  proof (cases "a = Add_Transaction")
    case False
    then show ?thesis using c by simp
  next
    case True
    then have n: "q = normalize_transaction_payload (e\<lparr>aktif := w\<rparr>) mi (tables s) u p" "dogrula Add_Transaction p"
      using c by simp_all
    from normalize_cases [of "e\<lparr>aktif := w\<rparr>" mi "tables s" u p] consider "q = p"
      | kart cat where "kart \<in> set (accounts (tables s))"
          "q = p\<lparr>p_category := Some cat, p_is_card_expense := Some True, p_account_id := Some (acc_id kart)\<rparr>"
      using n(1) by metis
    then show ?thesis
      using n(2) True assms(1) by cases (auto simp: account_ids_positive_def list_all_iff intro!: dogrula_redirect)
  qed
  then show ?thesis using q by (simp add: fresh_proposal_def)
qed

lemma propose_tek_frame:
  assumes "sound cd" and "propose_tek_cagri e u w um inp cd = (cd', r)"
  shows "turn_frame u (case r of Inl _ \<Rightarrow> [] | Inr a \<Rightarrow> [fst a]) cd cd'"
proof (cases "tool_argumani inp")
  case (Inl r')
  then show ?thesis using assms by (auto simp: propose_tek_cagri_def frame_refl)
next
  case (Inr x)
  obtain ty p a where x: "x = (ty, p, a)" by (cases x)
  define m where "m = \<lparr>mesaj_var = (um \<noteq> []), hesap_geciyor = te_hesap e um, tarih_geciyor = pr_tarih a, ozet_sayilari = pr_sayilar a\<rparr>"
  obtain s res where pr: "propose_action (te_env e) (te_mi e) (cd_sys cd) u ty p m w = (s, res)" by fastforce
  show ?thesis
  proof (cases res)
    case (Inl err)
    have "s = cd_sys cd" using pr unfolding Inl by (rule propose_Inl)
    then show ?thesis using assms \<open>tool_argumani inp = Inr x\<close> x pr Inl by (auto simp: propose_tek_cagri_def m_def frame_refl)
  next
    case (Inr pa)
    have "fresh_proposal u pa" by (rule proposal_fresh [OF _ pr [unfolded Inr]]) (use assms in \<open>simp add: sound_def\<close>)
    moreover have "tables s = tables (cd_sys cd)" "pendings s = pendings (cd_sys cd) @ [pa]"
      using propose_Inr [OF pr [unfolded Inr]] by metis+
    ultimately have "turn_frame u [pa] cd (cd\<lparr>cd_sys := s\<rparr>)" using assms(1) by (simp add: turn_frame_def sound_def)
    then show ?thesis using assms \<open>tool_argumani inp = Inr x\<close> x pr Inr by (auto simp: propose_tek_cagri_def m_def)
  qed
qed

text \<open>The tool calls: every proposal that is kept as an action of the turn is a new pending one, in that order.\<close>

definition tool_frame :: "nat \<Rightarrow> tool_state \<Rightarrow> tool_state \<Rightarrow> bool" where
  "tool_frame u ts ts' \<longleftrightarrow> cd_llm (ts_cd ts') = cd_llm (ts_cd ts) \<and>
     (\<exists>acts. ts_actions ts' = ts_actions ts @ acts \<and> turn_frame u (map fst acts) (ts_cd ts) (ts_cd ts'))"

lemma tool_frame_refl: "sound (ts_cd ts) \<Longrightarrow> tool_frame u ts ts"
  using frame_refl [of "ts_cd ts" u] by (fastforce simp: tool_frame_def)

lemma tool_frame_trans: "tool_frame u ts1 ts2 \<Longrightarrow> tool_frame u ts2 ts3 \<Longrightarrow> tool_frame u ts1 ts3"
proof -
  assume a: "tool_frame u ts1 ts2" "tool_frame u ts2 ts3"
  obtain x y where x: "ts_actions ts2 = ts_actions ts1 @ x" "turn_frame u (map fst x) (ts_cd ts1) (ts_cd ts2)"
    and y: "ts_actions ts3 = ts_actions ts2 @ y" "turn_frame u (map fst y) (ts_cd ts2) (ts_cd ts3)"
    using a by (auto simp: tool_frame_def)
  have "turn_frame u (map fst (x @ y)) (ts_cd ts1) (ts_cd ts3)" using frame_trans [OF x(2) y(2)] by simp
  then show ?thesis using a x(1) y(1) unfolding tool_frame_def by simp
qed

lemma tool_frame_sound: "tool_frame u ts ts' \<Longrightarrow> sound (ts_cd ts')"
  unfolding tool_frame_def using frame_sound by blast

lemma tool_frame_same: "tool_frame u ts ts' \<Longrightarrow> ts_cd ts2 = ts_cd ts' \<Longrightarrow> ts_actions ts2 = ts_actions ts' \<Longrightarrow> tool_frame u ts ts2"
  by (simp add: tool_frame_def)

lemma propose_tek_llm: "cd_llm (fst (propose_tek_cagri e u w um inp cd)) = cd_llm cd"
  by (simp add: propose_tek_cagri_def split: sum.split prod.split)

lemma arac_frame:
  assumes "sound (ts_cd ts)"
  shows "tool_frame u ts (arac_isle e u w um c ts)"
proof (cases c)
  case (Call_Insight inp)
  obtain t bad where n: "save_insight_call (be_rules (te_olay e)) (te_isod e) (simdi (be_clock (te_olay e))) u inp
      (cd_insights (ts_cd ts)) = (t, bad)" by fastforce
  have "turn_frame u [] (ts_cd ts) ((ts_cd ts)\<lparr>cd_insights := t\<rparr>)"
    using note_frame [OF assms, of u "be_rules (te_olay e)" "te_isod e" "simdi (be_clock (te_olay e))" inp] n by simp
  then show ?thesis by (simp add: tool_frame_def arac_isle_def Call_Insight n)
next
  case (Call_Propose inp)
  obtain cd r where p: "propose_tek_cagri e u w um inp (ts_cd ts) = (cd, r)" by fastforce
  have "turn_frame u (case r of Inl _ \<Rightarrow> [] | Inr a \<Rightarrow> [fst a]) (ts_cd ts) cd" by (rule propose_tek_frame [OF assms p])
  moreover have "cd_llm cd = cd_llm (ts_cd ts)" using propose_tek_llm [of e u w um inp "ts_cd ts"] p by simp
  ultimately show ?thesis by (cases r) (simp_all add: tool_frame_def arac_isle_def Call_Propose p)
next
  case Call_Other
  then show ?thesis by (simp add: arac_isle_def tool_frame_refl assms)
qed

lemma oneri_frame: "sound (ts_cd ts) \<Longrightarrow> tool_frame u ts (oneri_isle e u w um c ts)"
  unfolding oneri_isle_def by (cases c) (simp_all add: arac_frame tool_frame_refl)

lemma tool_frame_fold:
  assumes "\<And>c ts. sound (ts_cd ts) \<Longrightarrow> tool_frame u ts (f c ts)" and "sound (ts_cd ts)"
  shows "tool_frame u ts (fold f cs ts)"
  using assms(2)
proof (induction cs arbitrary: ts)
  case Nil
  then show ?case by (simp add: tool_frame_refl)
next
  case (Cons c cs)
  have 1: "tool_frame u ts (f c ts)" by (rule assms(1) [OF Cons.prems])
  show ?case using tool_frame_trans [OF 1 Cons.IH [OF tool_frame_sound [OF 1]]] by simp
qed

text \<open>The retries start with a request of their own.\<close>

definition retry_frame :: "nat \<Rightarrow> nat \<Rightarrow> tool_state \<Rightarrow> tool_state \<Rightarrow> bool" where
  "retry_frame u k ts ts' \<longleftrightarrow> requests 0 k (cd_llm (ts_cd ts)) (cd_llm (ts_cd ts')) \<and>
     (\<exists>acts. ts_actions ts' = ts_actions ts @ acts \<and> turn_frame u (map fst acts) (ts_cd ts) (ts_cd ts'))"

lemma retry_frame_asked:
  assumes "sound (ts_cd ts)" and "ask e rq (ts_cd ts) = (cd, r)" and "tool_frame u (ts\<lparr>ts_cd := cd\<rparr>) ts'"
  shows "retry_frame u (3 * saglayici_sayisi (te_motor e)) ts ts'"
proof -
  have "turn_frame u [] (ts_cd ts) cd" using ask_frame [OF assms(1), of u e rq] assms(2) by simp
  moreover obtain acts where "ts_actions ts' = ts_actions ts @ acts" "turn_frame u (map fst acts) cd (ts_cd ts')"
    "cd_llm (ts_cd ts') = cd_llm cd"
    using assms(3) by (auto simp: tool_frame_def)
  moreover have "requests 0 (3 * saglayici_sayisi (te_motor e)) (cd_llm (ts_cd ts)) (cd_llm cd)"
    using ask_requests [of e "ts_cd ts" rq] assms(2) requests_weaken by fastforce
  ultimately show ?thesis unfolding retry_frame_def
    using frame_trans [of u "[]" "ts_cd ts" cd] requests_weaken by fastforce
qed

lemma retry_frame_refl: "sound (ts_cd ts) \<Longrightarrow> retry_frame u k ts ts"
  using frame_refl [of "ts_cd ts" u] by (fastforce simp: retry_frame_def requests_refl)

lemma ask_sound: "sound cd \<Longrightarrow> ask e rq cd = (cd', r) \<Longrightarrow> sound cd'"
  using frame_sound [OF ask_frame] by (metis fst_conv)

lemma oneri_tekrari_frame:
  assumes "sound (ts_cd ts)"
  shows "retry_frame u (3 * saglayici_sayisi (te_motor e)) ts (fst (oneri_tekrari e u w um tools ms resp ts))"
proof -
  obtain cd r where a: "ask e \<lparr>lq_mekanik = True, lq_messages = ms @ [user_msg (te_nudge_propose e (ts_redler ts))], lq_tools = tools\<rparr>
      (ts_cd ts) = (cd, r)" by fastforce
  have s: "sound (ts_cd (ts\<lparr>ts_cd := cd\<rparr>))" using ask_sound [OF assms a] by simp
  have "tool_frame u (ts\<lparr>ts_cd := cd\<rparr>) (fst (oneri_tekrari e u w um tools ms resp ts))"
  proof (cases r)
    case (Inl h)
    then show ?thesis using tool_frame_refl [OF s] by (simp add: oneri_tekrari_def a)
  next
    case (Inr x)
    have "tool_frame u (ts\<lparr>ts_cd := cd\<rparr>) (fold (oneri_isle e u w um) (lr_calls x) (ts\<lparr>ts_cd := cd\<rparr>))"
      by (rule tool_frame_fold [OF _ s]) (rule oneri_frame)
    then show ?thesis by (simp add: oneri_tekrari_def a Inr Let_def)
  qed
  then show ?thesis by (rule retry_frame_asked [OF assms a])
qed

lemma soru_tekrari_frame:
  assumes "sound (ts_cd ts)"
  shows "retry_frame u (3 * saglayici_sayisi (te_motor e)) ts (fst (soru_tekrari e offer ms resp ts))"
proof -
  obtain cd r where a: "ask e \<lparr>lq_mekanik = offer, lq_messages = ms @ [user_msg (te_nudge_soru e)], lq_tools = []\<rparr>
      (ts_cd ts) = (cd, r)" by fastforce
  have s: "sound (ts_cd (ts\<lparr>ts_cd := cd\<rparr>))" using ask_sound [OF assms a] by simp
  have "fst (soru_tekrari e offer ms resp ts) = ts\<lparr>ts_cd := cd\<rparr>"
    by (simp add: soru_tekrari_def a split: sum.split)
  then show ?thesis using retry_frame_asked [OF assms a tool_frame_refl [OF s]] by simp
qed

lemma tekrar_frame:
  assumes "sound (ts_cd ts)"
  shows "retry_frame u (3 * saglayici_sayisi (te_motor e)) ts (fst (tekrar_asamasi e u w um ny offer tools ms resp ts))"
  by (simp add: tekrar_asamasi_def oneri_tekrari_frame soru_tekrari_frame retry_frame_refl assms del: One_nat_def)

text \<open>The rest of the turn.\<close>

lemma guarded_tidy: "tidy u (snd st) (snd (guarded_extractor b w u name st))"
  unfolding guarded_extractor_def by (simp add: tidy_refl tidy_run_extractor split: prod.split session.split)

lemma batch_tidy: "tidy u (snd st) (snd (fold (guarded_extractor b w u) names st))"
proof (induction names arbitrary: st)
  case Nil
  then show ?case by (simp add: tidy_refl)
next
  case (Cons n ns)
  show ?case using tidy_trans [OF guarded_tidy Cons.IH] by simp
qed

lemma olay_frame:
  assumes "sound cd"
  shows "turn_frame u [] cd (snd (olay_tetikle e w u cd))" and "cd_llm (snd (olay_tetikle e w u cd)) = cd_llm cd"
proof -
  define b where "b = (te_olay e)\<lparr>be_history := (be_history (te_olay e))\<lparr>hi_db := tables (cd_sys cd), hi_memories := cd_memories cd\<rparr>\<rparr>"
  define t where "t = snd (fold (guarded_extractor b w u) event_after_user_message (Clean, cd_insights cd))"
  have o: "snd (olay_tetikle e w u cd) = cd\<lparr>cd_insights := t\<rparr>"
    by (simp add: olay_tetikle_def t_def b_def Let_def case_prod_beta)
  have "tidy u (cd_insights cd) t" using batch_tidy [of u "(Clean, cd_insights cd)"] by (simp add: t_def)
  then show "turn_frame u [] cd (snd (olay_tetikle e w u cd))"
    unfolding o using assms by (intro insights_frame) (simp_all add: tidy_def sound_def)
  show "cd_llm (snd (olay_tetikle e w u cd)) = cd_llm cd" unfolding o by simp
qed

lemma save_message_llm [simp]: "cd_llm (save_message e u role c calls cid acts cd) = cd_llm cd"
  by (simp add: save_message_def Let_def)

lemma tool_rows_frame:
  assumes "sound cd"
  shows "turn_frame u [] cd (fold (tool_row e u) acts cd) \<and> cd_llm (fold (tool_row e u) acts cd) = cd_llm cd"
  using assms
proof (induction acts arbitrary: cd)
  case Nil
  then show ?case by (simp add: frame_refl)
next
  case (Cons a acts)
  have 1: "turn_frame u [] cd (tool_row e u a cd)" unfolding tool_row_def by (rule save_message_frame [OF Cons.prems])
  show ?case using frame_then [OF 1 conjunct1 [OF Cons.IH [OF frame_sound [OF 1]]]] Cons.IH [OF frame_sound [OF 1]]
    by (simp add: tool_row_def)
qed

lemma save_answer_frame:
  assumes "sound cd"
  shows "turn_frame u [] cd (save_answer e u acts clean reply cd)" and "cd_llm (save_answer e u acts clean reply cd) = cd_llm cd"
proof -
  note s = save_message_frame [OF assms, of u e Role_Assistant]
  show "turn_frame u [] cd (save_answer e u acts clean reply cd)"
    unfolding save_answer_def using frame_then [OF s conjunct1 [OF tool_rows_frame [OF frame_sound [OF s]]]] s
    by (simp split: if_split)
  show "cd_llm (save_answer e u acts clean reply cd) = cd_llm cd"
    unfolding save_answer_def using tool_rows_frame [OF frame_sound [OF s]] by (simp split: if_split)
qed

text \<open>A turn: what it changes, the requests it makes, and the cards of its answer.\<close>

definition turn_outcome :: "nat \<Rightarrow> nat \<Rightarrow> nat \<Rightarrow> coach_db \<Rightarrow> coach_db \<times> turn_result option \<Rightarrow> bool" where
  "turn_outcome u a k cd out \<longleftrightarrow> requests a k (cd_llm cd) (cd_llm (fst out)) \<and>
     (\<exists>new. turn_frame u new cd (fst out) \<and> (case snd out of None \<Rightarrow> True | Some r \<Rightarrow> map fst (tr_actions r) = new))"

lemma turn_outcome_after:
  assumes "turn_frame u [] cd cd1" and "requests a k (cd_llm cd) (cd_llm cd1)" and "turn_outcome u b m cd1 out"
    and "a' \<le> a + b" and "k + m \<le> k'"
  shows "turn_outcome u a' k' cd out"
proof -
  obtain new where n: "turn_frame u new cd1 (fst out)" "case snd out of None \<Rightarrow> True | Some r \<Rightarrow> map fst (tr_actions r) = new"
    using assms(3) by (auto simp: turn_outcome_def)
  have "turn_frame u new cd (fst out)" using frame_trans [OF assms(1) n(1)] by simp
  moreover have "requests a' k' (cd_llm cd) (cd_llm (fst out))"
    using assms(3) by (intro requests_trans [OF assms(2) _ assms(4,5)]) (simp add: turn_outcome_def)
  ultimately show ?thesis using n(2) unfolding turn_outcome_def by blast
qed

lemma chat_sonu_outcome:
  assumes "sound cd"
  shows "turn_outcome u 0 (3 * saglayici_sayisi (te_motor e)) cd (chat_sonu e u w um kokpit ny offer tools ms resp cd)"
proof -
  define i where "i = \<lparr>ts_cd = cd, ts_actions = [], ts_redler = [], ts_insight_invalid = False\<rparr>"
  define ts0 where "ts0 = fold (arac_isle e u w um) (lr_calls resp) i"
  obtain ts body prov where t: "tekrar_asamasi e u w um ny offer tools ms resp ts0 = (ts, body, prov)" by (cases "tekrar_asamasi e u w um ny offer tools ms resp ts0")
  have 0: "tool_frame u i ts0" unfolding ts0_def by (rule tool_frame_fold) (simp_all add: arac_frame i_def assms)
  have 1: "retry_frame u (3 * saglayici_sayisi (te_motor e)) ts0 ts"
    using tekrar_frame [OF tool_frame_sound [OF 0], where u = u and e = e and w = w and um = um and ny = ny and offer = offer and
        tools = tools and ms = ms and resp = resp] t by simp
  obtain x where x: "ts_actions ts0 = x" "turn_frame u (map fst x) cd (ts_cd ts0)" "cd_llm (ts_cd ts0) = cd_llm cd"
    using 0 by (auto simp: tool_frame_def i_def)
  obtain y where y: "ts_actions ts = x @ y" "turn_frame u (map fst y) (ts_cd ts0) (ts_cd ts)"
    "requests 0 (3 * saglayici_sayisi (te_motor e)) (cd_llm (ts_cd ts0)) (cd_llm (ts_cd ts))"
    using 1 x(1) by (auto simp: retry_frame_def)
  have a: "turn_frame u (map fst (ts_actions ts)) cd (ts_cd ts)" using frame_trans [OF x(2) y(2)] y(1) by simp
  define cd0 where "cd0 = save_message e u Role_User um None None None (ts_cd ts)"
  have b: "turn_frame u (map fst (ts_actions ts)) cd cd0"
    unfolding cd0_def by (rule frame_then [OF a save_message_frame [OF frame_sound [OF a]]])
  obtain ses cd1 where o: "olay_tetikle e w u cd0 = (ses, cd1)" by fastforce
  have c: "turn_frame u (map fst (ts_actions ts)) cd cd1" "cd_llm cd1 = cd_llm (ts_cd ts)"
    using frame_then [OF b olay_frame(1) [OF frame_sound [OF b]]] olay_frame(2) [OF frame_sound [OF b]] o
    by (metis snd_conv) (metis cd0_def frame_sound b o olay_frame(2) save_message_llm snd_conv)
  obtain clean reply where f: "final_reply (te_ru e) (kokpit \<and> emanet_sifir u w (tables (cd_sys (ts_cd ts)))) um
      (ts_actions ts \<noteq> [] \<or> pending_var u w (cd_sys (ts_cd ts))) (length (ts_actions ts)) (ts_redler ts)
      (ts_insight_invalid ts) body = (clean, reply)" by fastforce
  note d = save_answer_frame [OF frame_sound [OF c(1)], where u = u and e = e and acts = "ts_actions ts" and clean = clean and reply = reply]
  have e: "turn_frame u (map fst (ts_actions ts)) cd (save_answer e u (ts_actions ts) clean reply cd1)"
    by (rule frame_then [OF c(1) d(1)])
  have r: "requests 0 (3 * saglayici_sayisi (te_motor e)) (cd_llm cd) (cd_llm cd1)"
    "requests 0 (3 * saglayici_sayisi (te_motor e)) (cd_llm cd) (cd_llm (save_answer e u (ts_actions ts) clean reply cd1))"
    using y(3) x(3) c(2) d(2) by simp_all
  have eq: "chat_sonu e u w um kokpit ny offer tools ms resp cd = (if ses = Needs_Rollback then (cd1, None)
      else (save_answer e u (ts_actions ts) clean reply cd1, Some \<lparr>tr_reply = reply, tr_actions = ts_actions ts,
        tr_memory = last_assistant u (cd_memories (save_answer e u (ts_actions ts) clean reply cd1)), tr_down = False,
        tr_provider = prov\<rparr>))"
    by (simp only: chat_sonu_def Let_def i_def [symmetric] ts0_def [symmetric] t prod.case f cd0_def [symmetric] o)
  show ?thesis unfolding eq using c(1) e r by (auto simp: turn_outcome_def)
qed

lemma turn_outcome_none:
  "turn_frame u [] cd cd' \<Longrightarrow> requests a k (cd_llm cd) (cd_llm cd') \<Longrightarrow> tr_actions r = [] \<Longrightarrow> turn_outcome u a k cd (cd', Some r)"
  by (auto simp: turn_outcome_def)

lemma plan_frame:
  assumes "sound cd"
  shows "turn_frame u [] cd (fst (plan_asamasi e planla offer ms cd))"
    and "requests 0 (3 * saglayici_sayisi (te_motor e)) (cd_llm cd) (cd_llm (fst (plan_asamasi e planla offer ms cd)))"
proof -
  define rq where "rq = \<lparr>lq_mekanik = offer, lq_messages = ms @ [user_msg (te_plan_talimati e)], lq_tools = []\<rparr>"
  have p: "fst (plan_asamasi e planla offer ms cd) = (if planla then fst (ask e rq cd) else cd)"
    by (simp add: plan_asamasi_def rq_def case_prod_beta split: prod.split sum.split)
  show "turn_frame u [] cd (fst (plan_asamasi e planla offer ms cd))"
    unfolding p using ask_frame [OF assms] frame_refl [OF assms] by simp
  show "requests 0 (3 * saglayici_sayisi (te_motor e)) (cd_llm cd) (cd_llm (fst (plan_asamasi e planla offer ms cd)))"
    unfolding p using requests_weaken [OF ask_requests [of e cd rq], of 0] requests_refl by simp
qed

lemma chat_outcome:
  assumes "sound cd"
  shows "turn_outcome u (min 1 (saglayici_sayisi (te_motor e))) (9 * saglayici_sayisi (te_motor e)) cd (chat e u w um kokpit cd)"
proof -
  define ny where "ny = niyet_cikar (ru_fold (te_ru e)) um"
  define selam where "selam = selamlasma_mi (ru_fold (te_ru e)) um"
  define offer where "offer = (ny_sunulsun ny \<and> \<not> selam)"
  define ms where "ms = load_history u (cd_memories cd) @ [user_msg um]"
  let ?k = "saglayici_sayisi (te_motor e)"
  obtain cd1 ms1 where p: "plan_asamasi e (kokpit \<and> \<not> ny_gerceklesmis ny) offer ms cd = (cd1, ms1)" by fastforce
  define rq where "rq = \<lparr>lq_mekanik = offer, lq_messages = ms1, lq_tools = araclar selam offer\<rparr>"
  obtain cd2 r where a: "ask e rq cd1 = (cd2, r)" by fastforce
  have 1: "turn_frame u [] cd cd1" "requests 0 (3 * ?k) (cd_llm cd) (cd_llm cd1)"
    using plan_frame [OF assms, where e = e and planla = "kokpit \<and> \<not> ny_gerceklesmis ny" and offer = offer and ms = ms]
    unfolding p by simp_all
  have 2: "turn_frame u [] cd1 cd2" "requests (min 1 ?k) (3 * ?k) (cd_llm cd1) (cd_llm cd2)"
    using ask_frame [OF frame_sound [OF 1(1)], of u e rq] ask_requests [of e cd1 rq] unfolding a by simp_all
  have 3: "turn_frame u [] cd cd2" by (rule frame_then [OF 1(1) 2(1)])
  have 4: "requests (min 1 ?k) (6 * ?k) (cd_llm cd) (cd_llm cd2)" by (rule requests_trans [OF 1(2) 2(2)]) simp_all
  have eq: "chat e u w um kokpit cd = (case r of
      Inl h \<Rightarrow> (cd2, Some \<lparr>tr_reply = \<lparr>rp_body = Koc_Dustu (hata_sinifi h), rp_notes = []\<rparr>, tr_actions = [],
        tr_memory = None, tr_down = True, tr_provider = None\<rparr>)
    | Inr resp \<Rightarrow> chat_sonu e u w um kokpit ny offer (araclar selam offer) ms1 resp cd2)"
    by (simp only: chat_def Let_def ny_def [symmetric] selam_def [symmetric] offer_def [symmetric] ms_def [symmetric] p prod.case
        rq_def [symmetric] a)
  show ?thesis
  proof (cases r)
    case (Inl h)
    show ?thesis unfolding eq Inl sum.case
      by (rule turn_outcome_none [OF 3 requests_weaken [OF 4]]) simp_all
  next
    case (Inr resp)
    show ?thesis unfolding eq Inr sum.case
      by (rule turn_outcome_after [OF 3 4 chat_sonu_outcome [OF frame_sound [OF 3]]]) simp_all
  qed
qed

subsection \<open>Any conversation\<close>

datatype coach_op = Turn turn_env "nat option" string bool | Forget

definition coach_step :: "nat \<times> coach_op \<Rightarrow> coach_db \<Rightarrow> coach_db" where
  "coach_step x cd = (case snd x of
     Turn e w um kokpit \<Rightarrow> fst (chat e (fst x) w um kokpit cd)
   | Forget \<Rightarrow> fst (reset_history (fst x) cd))"

lemma reset_frame:
  assumes "sound cd"
  shows "turn_frame u [] cd (fst (reset_history u cd))"
proof -
  have k: "insight_keys_ok (filter P t)" if "insight_keys_ok t" for P t
  proof -
    have "distinct (type_keys (filter P t)) \<and> set (type_keys (filter P t)) \<subseteq> set (type_keys t)"
      "distinct (dedup_keys (filter P t)) \<and> set (dedup_keys (filter P t)) \<subseteq> set (dedup_keys t)"
      using that unfolding insight_keys_ok_def by (induction t) (auto split: option.splits)
    then show ?thesis using that by (simp add: insight_keys_ok_def distinct_map_filter)
  qed
  show ?thesis using assms k
    by (simp add: turn_frame_def sound_def reset_history_def others_def other_memories_def)
qed

lemma coach_step_frame: "sound cd \<Longrightarrow> \<exists>new. turn_frame (fst x) new cd (coach_step x cd)"
  using chat_outcome reset_frame by (cases "snd x") (fastforce simp: coach_step_def turn_outcome_def)+

definition own_rows :: "nat \<Rightarrow> coach_db \<Rightarrow> insight list \<times> coach_memory list \<times> pending_action list" where
  "own_rows v cd = (filter (\<lambda>r. in_user r = v) (cd_insights cd), filter (\<lambda>m. cm_user m = v) (cd_memories cd),
     filter (\<lambda>p. pa_user p = v) (pendings (cd_sys cd)))"

lemma own_rows_frame:
  assumes "turn_frame u new cd cd'" and "v \<noteq> u"
  shows "own_rows v cd' = own_rows v cd"
proof -
  have "filter (\<lambda>m. cm_user m = v) ms = filter (\<lambda>m. cm_user m = v) (other_memories u ms)" for ms
    using assms(2) unfolding other_memories_def by (induction ms) auto
  moreover have "filter (\<lambda>p. pa_user p = v) new = []"
    using assms by (auto simp: turn_frame_def fresh_proposal_def list_all_iff filter_empty_conv)
  ultimately show ?thesis using assms others_mine [OF assms(2), of "cd_insights cd'" "cd_insights cd"]
    unfolding own_rows_def turn_frame_def by (metis append_Nil2 filter_append)
qed

text \<open>C17: Whatever users write, whatever the providers answer and however turns and resets of different users follow
  each other, the conversation moves no money: no account, transaction, debt or goal changes, the proposals stored
  before stay as they are, every new one is pending, belongs to a user who took a turn and meets the payload
  contract, and a user who took none keeps every row of the memory, of the insights and of the proposals.\<close>

theorem turns_move_no_money:
  assumes "sound cd"
  shows "let cd' = fold coach_step xs cd; new = drop (length (pendings (cd_sys cd))) (pendings (cd_sys cd')) in
     tables (cd_sys cd') = tables (cd_sys cd) \<and> pendings (cd_sys cd') = pendings (cd_sys cd) @ new \<and>
     list_all (\<lambda>p. pa_user p \<in> fst ` set xs \<and> fresh_proposal (pa_user p) p) new \<and>
     insight_keys_ok (cd_insights cd') \<and> (v \<notin> fst ` set xs \<longrightarrow> own_rows v cd' = own_rows v cd)"
proof -
  have "\<exists>new. sound cd' \<and> tables (cd_sys cd') = tables (cd_sys cd) \<and> pendings (cd_sys cd') = pendings (cd_sys cd) @ new \<and>
      list_all (\<lambda>p. pa_user p \<in> fst ` set xs \<and> fresh_proposal (pa_user p) p) new \<and>
      (v \<notin> fst ` set xs \<longrightarrow> own_rows v cd' = own_rows v cd)" if "cd' = fold coach_step xs cd" for cd'
    using assms that
  proof (induction xs arbitrary: cd)
    case (Cons x xs)
    obtain n1 where 1: "turn_frame (fst x) n1 cd (coach_step x cd)" using coach_step_frame [OF Cons.prems(1)] by blast
    have f: "list_all (\<lambda>p. pa_user p = fst x \<and> fresh_proposal (pa_user p) p) n1"
      using 1 by (auto simp: turn_frame_def fresh_proposal_def list_all_iff)
    obtain n2 where 2: "sound cd'" "tables (cd_sys cd') = tables (cd_sys (coach_step x cd))"
      "pendings (cd_sys cd') = pendings (cd_sys (coach_step x cd)) @ n2"
      "list_all (\<lambda>p. pa_user p \<in> fst ` set xs \<and> fresh_proposal (pa_user p) p) n2"
      "v \<notin> fst ` set xs \<longrightarrow> own_rows v cd' = own_rows v (coach_step x cd)"
      using Cons.IH [OF frame_sound [OF 1]] Cons.prems(2) by auto
    show ?case
      by (rule exI [of _ "n1 @ n2"])
        (use 1 2 f own_rows_frame [OF 1, of v] in \<open>auto simp: turn_frame_def list_all_iff\<close>)
  qed simp
  from this [OF refl] show ?thesis by (auto simp: Let_def sound_def)
qed

subsection \<open>The ledger of the requests\<close>

lemma count_snoc:
  "bugunku_cagri_sayisi now v (rows @ [r]) =
     bugunku_cagri_sayisi now v rows + (if cl_user r = v \<and> gun_baslangici now \<le> cl_at r then 1 else 0)"
  by (simp add: bugunku_cagri_sayisi_def)

lemma count_upd:
  assumes "\<And>r. cl_user (f r) = cl_user r" and "\<And>r. cl_at (f r) = cl_at r"
  shows "bugunku_cagri_sayisi now v (upd_row cl_id i f rows) = bugunku_cagri_sayisi now v rows"
  using assms unfolding bugunku_cagri_sayisi_def by (induction rows) auto

lemma today_started: "gun_baslangici now \<le> now"
  by (simp add: gun_baslangici_def)

lemma satiri_doldur_keeps [simp]: "cl_user (satiri_doldur c am r) = cl_user r" "cl_at (satiri_doldur c am r) = cl_at r"
  by (simp_all add: satiri_doldur_def)

lemma count_ek:
  "bugunku_cagri_sayisi now v (fold (\<lambda>x rs. ek_satir now u am rs x) cs rows) =
     bugunku_cagri_sayisi now v rows + (if v = u then length cs else 0)"
  by (induction cs arbitrary: rows) (simp_all add: ek_satir_def count_snoc today_started)

lemma count_uzlastir:
  "bugunku_cagri_sayisi now v (fst (ek_cagrilari_uzlastir now u am olcum (Some i) rows)) =
     bugunku_cagri_sayisi now v rows + (if v = u then length olcum - 1 else 0)"
  by (cases olcum) (simp_all add: ek_cagrilari_uzlastir_def count_ek count_upd)

lemma count_tamamla: "bugunku_cagri_sayisi now v (tamamla i p ok d rows) = bugunku_cagri_sayisi now v rows"
  unfolding tamamla_def by (rule count_upd) simp_all

lemma rezerve_cases:
  assumes "rezerve_et now cap u provider model am rows = (r, rows1)"
  shows "case r of None \<Rightarrow> rows1 = rows
    | Some i \<Rightarrow> bugunku_cagri_sayisi now v rows1 = bugunku_cagri_sayisi now v rows + (if v = u then 1 else 0)"
  using assms by (auto simp: rezerve_et_def rezerve_yaz_def rezerve_kontrol_def iptal_et_def Let_def count_snoc today_started
      del_row_snoc_fresh next_key_fresh split: if_splits)

text \<open>C18: A message that is refused (too long, personal ceiling, capacity of the day, no free slot) changes neither the
  ledger nor the conversation. One that is let in came below the ceiling of its user; the ledger grows by the
  requests that really went out, by one if there were none, and only for that user. A turn makes at most nine
  requests per provider of the chain, so a user is never charged more than that above the ceiling.\<close>

theorem chat_requests_accounted:
  assumes "sound cd" and "chat_endpoint e u w m kokpit (rows, cd) = ((rows', cd'), ans)"
  shows "let day = bugunku_cagri_sayisi (rt_now e); cap = kullanici_gunluk_tavan (rt_tavan e);
       bound = 9 * saglayici_sayisi (te_motor (rt_turn e)); cs = drop (length (ls_calls (cd_llm cd))) (ls_calls (cd_llm cd'))
     in (isl ans \<longrightarrow> rows' = rows \<and> cd' = cd) \<and>
        (\<not> isl ans \<longrightarrow> ls_calls (cd_llm cd') = ls_calls (cd_llm cd) @ cs \<and> length cs \<le> bound \<and>
           day u rows' = day u rows + max 1 (length cs) \<and>
           (cap \<noteq> 0 \<longrightarrow> day u rows < cap \<and> day u rows' < cap + max 1 bound)) \<and>
        (v \<noteq> u \<longrightarrow> day v rows' = day v rows)"
proof -
  define day where "day = bugunku_cagri_sayisi (rt_now e)"
  define cap where "cap = kullanici_gunluk_tavan (rt_tavan e)"
  define bound where "bound = 9 * saglayici_sayisi (te_motor (rt_turn e))"
  define cs where "cs = drop (length (ls_calls (cd_llm cd))) (ls_calls (cd_llm cd'))"
  let ?prov = "muhasebe_saglayici_adi (te_motor (rt_turn e))"
  obtain r rows1 where z: "rezerve_et (rt_now e) cap u ?prov (motor_model (te_motor (rt_turn e))) Koc rows = (r, rows1)"
    by fastforce
  have pre: "us_user_today (build_usage_info e u ?prov b rows) = day u rows" for b
    by (simp add: build_usage_info_def day_def Let_def split: option.split)
  show ?thesis
  proof (cases "isl ans")
    case True
    then have "rows' = rows \<and> cd' = cd"
      using assms(2) z rezerve_cases [OF z] unfolding chat_endpoint_def cap_def [symmetric]
      by (auto simp: Let_def split: if_splits option.splits prod.splits)
    then show ?thesis using True by (simp add: Let_def)
  next
    case False
    obtain i res where i: "r = Some i" and low: "cap \<noteq> 0 \<longrightarrow> day u rows < cap"
      and under: "chat_under e u w m kokpit i ?prov rows1 cd = ((rows', cd'), res)"
      using False assms(2) z pre unfolding chat_endpoint_def cap_def [symmetric]
      by (fastforce simp: Let_def split: if_splits option.splits prod.splits)
    obtain cd2 out where c2: "chat (rt_turn e) u w m kokpit cd = (cd2, out)" by fastforce
    have cd2: "cd2 = cd'" using under unfolding chat_under_def c2 by (simp add: Let_def)
    note c = c2 [unfolded cd2]
    have "fst (fst (chat_under e u w m kokpit i ?prov rows1 cd)) = rows'" by (simp add: under)
    then obtain p ok where rows': "fst (ek_cagrilari_uzlastir (rt_now e) u Koc cs (Some i) (tamamla i p ok (Some (rt_sure e)) rows1)) = rows'"
      unfolding chat_under_def c prod.case Let_def cs_def [symmetric] fst_conv by blast
    have q: "requests 0 bound (cd_llm cd) (cd_llm cd')"
      using chat_outcome [OF assms(1), of u "rt_turn e" w m kokpit] unfolding c turn_outcome_def bound_def
      by (auto intro: requests_weaken)
    then have n: "ls_calls (cd_llm cd') = ls_calls (cd_llm cd) @ cs" "length cs \<le> bound"
      by (auto simp: requests_def cs_def)
    have d: "day x rows' = day x rows + (if x = u then max 1 (length cs) else 0)" for x
      using rezerve_cases [OF z, of x] unfolding rows' [symmetric] day_def count_uzlastir count_tamamla i by (cases "length cs") simp_all
    show ?thesis using False low n d [of u] d [of v]
      unfolding day_def [symmetric] cap_def [symmetric] bound_def [symmetric] cs_def [symmetric] Let_def by auto
  qed
qed

subsection \<open>An honest answer\<close>

definition gives_notice :: "coach_reply \<Rightarrow> bool" where
  "gives_notice r \<longleftrightarrow> (case rp_body r of
     Metin s \<Rightarrow> strip s = [] \<or> list_ex (\<lambda>n. n \<in> {Onay_Yok_Notu, Hesap_Sorusu, Kayit_Yok_Notu}) (rp_notes r)
   | Tek_Kart \<Rightarrow> False | Cok_Kart _ \<Rightarrow> False | _ \<Rightarrow> True)"

definition plain_body :: "reply_body \<Rightarrow> bool" where
  "plain_body b \<longleftrightarrow> (case b of Metin _ \<Rightarrow> True | Onay_Yok_Istek \<Rightarrow> True | Hazirlanamadi \<Rightarrow> True | _ \<Rightarrow> False)"

text \<open>What the passes over the answer keep: a body stays one of the texts, the notes only grow.\<close>

definition noted :: "coach_reply \<Rightarrow> bool" where
  "noted r \<longleftrightarrow> rp_body r = Onay_Yok_Istek \<or> list_ex (\<lambda>n. n \<in> {Onay_Yok_Notu, Hesap_Sorusu, Kayit_Yok_Notu}) (rp_notes r)"

definition first_pass :: "reply_rules \<Rightarrow> bool \<Rightarrow> string \<Rightarrow> bool \<Rightarrow> reply_body \<Rightarrow> coach_reply" where
  "first_pass ru es um v body = (case body of
     Metin s \<Rightarrow> niyet_temizle ru v (strip (join_with nl (bolum_temizle ru es (ru_istek ru um) (splitlines s))))
   | b \<Rightarrow> \<lparr>rp_body = b, rp_notes = []\<rparr>)"

lemma postprocess_eq:
  "postprocess_report ru es um av bv body = (if body = Metin [] then \<lparr>rp_body = body, rp_notes = []\<rparr>
     else uslup ru (if av then first_pass ru es um (av \<or> bv) body
       else tamamlama_temizle ru (niyet_cikar (ru_fold ru) um) (first_pass ru es um (av \<or> bv) body)))"
  by (simp only: postprocess_report_def first_pass_def Let_def)

lemma niyet_body: "plain_body (rp_body (niyet_temizle ru v s))"
  "rp_notes (niyet_temizle ru v s) = [] \<or> rp_notes (niyet_temizle ru v s) = [Onay_Yok_Notu]"
  by (simp_all add: niyet_temizle_def plain_body_def Let_def)

lemma first_pass_body: "plain_body body \<Longrightarrow> plain_body (rp_body (first_pass ru es um v body))"
  by (cases body) (simp_all add: first_pass_def niyet_body(1))

lemma first_pass_notes: "rp_notes (first_pass ru es um v body) = [] \<or> rp_notes (first_pass ru es um v body) = [Onay_Yok_Notu]"
  using niyet_body(2) by (cases body) (simp_all add: first_pass_def)

lemma tamamlama_body: "plain_body (rp_body r) \<Longrightarrow> plain_body (rp_body (tamamlama_temizle ru ny r))"
  by (cases "rp_body r") (auto simp: tamamlama_temizle_def plain_body_def Let_def split: prod.split)

lemma tamamlama_noted:
  assumes "ny_gerceklesmis ny" and "\<not> ny_soru ny" and "rp_notes r = [] \<or> rp_notes r = [Onay_Yok_Notu]"
  shows "noted (tamamlama_temizle ru ny r)"
  using assms by (cases "rp_body r") (auto simp: tamamlama_temizle_def noted_def Let_def split: prod.split)

lemma uslup_keeps: "plain_body (rp_body r) \<Longrightarrow> plain_body (rp_body (uslup ru r))" "noted r \<Longrightarrow> noted (uslup ru r)"
  by (cases "rp_body r"; simp add: uslup_def plain_body_def noted_def)+

lemma confidence_keeps: "plain_body (rp_body r) \<Longrightarrow> plain_body (rp_body (strip_confidence_marker ru r))"
  "noted r \<Longrightarrow> noted (strip_confidence_marker ru r)"
  by (cases "rp_body r"; simp add: strip_confidence_marker_def plain_body_def noted_def)+

lemma postprocess_body:
  "plain_body body \<Longrightarrow> plain_body (rp_body (postprocess_report ru es um av bv body))"
  by (cases "body = Metin []") (simp_all add: postprocess_eq uslup_keeps(1) tamamlama_body first_pass_body)

lemma postprocess_noted:
  assumes "ny_gerceklesmis (niyet_cikar (ru_fold ru) um)" and "\<not> ny_soru (niyet_cikar (ru_fold ru) um)"
  shows "body = Metin [] \<or> noted (postprocess_report ru es um False bv body)"
  using uslup_keeps(2) [OF tamamlama_noted [OF assms first_pass_notes]] by (simp add: postprocess_eq)

lemma smart_body:
  assumes "plain_body (rp_body r) \<or> (n = 0 \<and> (\<exists>x. rp_body r = Red_Cumlesi x))"
  shows "case rp_body (build_smart_reply n r) of Tek_Kart \<Rightarrow> n = 1 | Cok_Kart m \<Rightarrow> m = n \<and> 2 \<le> n
    | Red_Cumlesi _ \<Rightarrow> n = 0 | Koc_Dustu _ \<Rightarrow> False | _ \<Rightarrow> True"
  using assms by (cases "rp_body r") (auto simp: build_smart_reply_def plain_body_def)

lemma smart_notice: "plain_body (rp_body r) \<and> noted r \<or> (\<exists>x. rp_body r = Red_Cumlesi x) \<or> rp_body r = Metin [] \<Longrightarrow> gives_notice (build_smart_reply 0 r)"
  by (cases "rp_body r") (auto simp: build_smart_reply_def gives_notice_def noted_def strip_def plain_body_def)

lemma final_reply_smart: "snd (final_reply ru es um bv n redler bad body) = build_smart_reply n (fst (final_reply ru es um bv n redler bad body))"
  by (simp add: final_reply_def Let_def)

lemma final_reply_body:
  assumes "plain_body body"
  shows "plain_body (rp_body (fst (final_reply ru es um bv n redler bad body))) \<or>
    (n = 0 \<and> (\<exists>x. rp_body (fst (final_reply ru es um bv n redler bad body)) = Red_Cumlesi x))"
  using confidence_keeps(1) [OF postprocess_body [OF assms, of ru es um "0 < n" bv], of ru]
  by (auto simp: final_reply_def Let_def split: option.split)

lemma final_reply_notice:
  assumes "ny_gerceklesmis (niyet_cikar (ru_fold ru) um)" and "\<not> ny_soru (niyet_cikar (ru_fold ru) um)" and "plain_body body"
  shows "gives_notice (snd (final_reply ru es um bv 0 redler bad body))"
proof -
  define r1 where "r1 = strip_confidence_marker ru (postprocess_report ru es um False bv body)"
  have r1: "plain_body (rp_body r1) \<and> noted r1 \<or> rp_body r1 = Metin [] "
  proof (cases "body = Metin []")
    case True
    then show ?thesis by (simp add: r1_def postprocess_eq strip_confidence_marker_def)
  next
    case False
    then show ?thesis
      using postprocess_noted [OF assms(1,2), of body es bv] postprocess_body [OF assms(3)] confidence_keeps unfolding r1_def by blast
  qed
  have "fst (final_reply ru es um bv 0 redler bad body) =
      (let r2 = (case en_oncelikli redler of Some red \<Rightarrow> \<lparr>rp_body = Red_Cumlesi red, rp_notes = []\<rparr> | None \<Rightarrow> r1)
       in if bad then r2\<lparr>rp_notes := rp_notes r2 @ [Icgoru_Notu]\<rparr> else r2)"
    by (simp add: final_reply_def r1_def Let_def split: option.split)
  then show ?thesis unfolding final_reply_smart using r1
    by (intro smart_notice) (auto simp: noted_def Let_def split: option.split)
qed

lemma tekrar_body: "plain_body (fst (snd (tekrar_asamasi e u w um ny offer tools ms resp ts)))"
  by (simp add: tekrar_asamasi_def oneri_tekrari_def soru_tekrari_def plain_body_def Let_def split: prod.split sum.split)

definition text_reply :: "reply_rules \<Rightarrow> string \<Rightarrow> turn_result \<Rightarrow> bool" where
  "text_reply ru um r \<longleftrightarrow> (\<exists>es bv redler bad body. plain_body body \<and>
     tr_reply r = snd (final_reply ru es um bv (length (tr_actions r)) redler bad body))"

lemma chat_sonu_reply:
  assumes "chat_sonu e u w um kokpit ny offer tools ms resp cd = (cd', Some r)"
  shows "text_reply (te_ru e) um r"
proof -
  define ts0 where "ts0 = fold (arac_isle e u w um) (lr_calls resp) \<lparr>ts_cd = cd, ts_actions = [], ts_redler = [], ts_insight_invalid = False\<rparr>"
  obtain ts body prov where t: "tekrar_asamasi e u w um ny offer tools ms resp ts0 = (ts, body, prov)"
    by (cases "tekrar_asamasi e u w um ny offer tools ms resp ts0")
  define es where "es = (kokpit \<and> emanet_sifir u w (tables (cd_sys (ts_cd ts))))"
  define bv where "bv = (ts_actions ts \<noteq> [] \<or> pending_var u w (cd_sys (ts_cd ts)))"
  obtain clean reply where f: "final_reply (te_ru e) es um bv (length (ts_actions ts)) (ts_redler ts) (ts_insight_invalid ts) body = (clean, reply)"
    by fastforce
  have "tr_reply r = reply \<and> tr_actions r = ts_actions ts"
    using assms unfolding chat_sonu_def Let_def ts0_def [symmetric] t prod.case es_def [symmetric] bv_def [symmetric] f
    by (auto split: prod.splits if_splits)
  moreover have "plain_body body" using tekrar_body [of e u w um ny offer tools ms resp ts0] t by simp
  ultimately show ?thesis unfolding text_reply_def using f by (metis snd_conv)
qed

lemma chat_reply:
  assumes "chat e u w um kokpit cd = (cd', Some r)"
  shows "tr_down r \<and> tr_actions r = [] \<and> (\<exists>x. rp_body (tr_reply r) = Koc_Dustu x) \<or> text_reply (te_ru e) um r"
  using assms unfolding chat_def Let_def by (auto split: prod.splits sum.splits dest!: chat_sonu_reply)

text \<open>C21: The answer never passes over that nothing was recorded. After a message that reports something done and asks
  nothing, a turn without a proposal ends with a refusal, a fixed sentence that says so, or a text with one of the
  three notes, whatever the model wrote. The sentence about a prepared card appears for exactly one proposal, the
  one about several for exactly that many, and a refusal only without any.\<close>

theorem answer_admits_nothing_recorded:
  assumes "chat e u w um kokpit cd = (cd', Some r)"
  shows "(ny_gerceklesmis (niyet_cikar (ru_fold (te_ru e)) um) \<and> \<not> ny_soru (niyet_cikar (ru_fold (te_ru e)) um) \<and>
       tr_actions r = [] \<longrightarrow> gives_notice (tr_reply r)) \<and>
    (case rp_body (tr_reply r) of Tek_Kart \<Rightarrow> length (tr_actions r) = 1
     | Cok_Kart n \<Rightarrow> n = length (tr_actions r) \<and> 2 \<le> n
     | Red_Cumlesi _ \<Rightarrow> tr_actions r = []
     | Koc_Dustu _ \<Rightarrow> tr_down r \<and> tr_actions r = []
     | _ \<Rightarrow> True)"
  using chat_reply [OF assms]
proof (elim disjE exE conjE)
  fix x
  assume "rp_body (tr_reply r) = Koc_Dustu x" and "tr_down r" and "tr_actions r = []"
  then show ?thesis by (simp add: gives_notice_def)
next
  assume "text_reply (te_ru e) um r"
  then obtain es bv redler bad body where b: "plain_body body"
    and r: "tr_reply r = snd (final_reply (te_ru e) es um bv (length (tr_actions r)) redler bad body)"
    unfolding text_reply_def by blast
  let ?clean = "fst (final_reply (te_ru e) es um bv (length (tr_actions r)) redler bad body)"
  have "case rp_body (build_smart_reply (length (tr_actions r)) ?clean) of Tek_Kart \<Rightarrow> length (tr_actions r) = 1
     | Cok_Kart m \<Rightarrow> m = length (tr_actions r) \<and> 2 \<le> length (tr_actions r)
     | Red_Cumlesi _ \<Rightarrow> length (tr_actions r) = 0 | Koc_Dustu _ \<Rightarrow> False | _ \<Rightarrow> True"
    by (rule smart_body) (rule final_reply_body [OF b])
  then have card: "case rp_body (tr_reply r) of Tek_Kart \<Rightarrow> length (tr_actions r) = 1
     | Cok_Kart m \<Rightarrow> m = length (tr_actions r) \<and> 2 \<le> length (tr_actions r)
     | Red_Cumlesi _ \<Rightarrow> length (tr_actions r) = 0 | Koc_Dustu _ \<Rightarrow> False | _ \<Rightarrow> True"
    unfolding final_reply_smart [symmetric] r [symmetric] .
  have "gives_notice (tr_reply r)" if "ny_gerceklesmis (niyet_cikar (ru_fold (te_ru e)) um)"
    and "\<not> ny_soru (niyet_cikar (ru_fold (te_ru e)) um)" and "tr_actions r = []"
    using final_reply_notice [OF that(1,2) b, of es bv redler bad] r that(3) by simp
  then show ?thesis using card by (auto split: reply_body.splits)
qed

subsection \<open>The chain of providers\<close>

text \<open>Providers whose answer to a request depends on the request alone.\<close>

definition steady :: "llm \<Rightarrow> bool" where
  "steady f \<longleftrightarrow> (\<forall>s n m. f s n = f s m)"

definition answer_of :: "llm \<Rightarrow> llm_request \<Rightarrow> provider \<Rightarrow> hata + llm_response" where
  "answer_of f rq p = (case f (pv_kind p) 0 (lq_mekanik rq) (wire_of (pv_kind p) (lq_messages rq)) (lq_tools rq) of
     Inl h \<Rightarrow> Inl h | Inr r \<Rightarrow> read_response p r)"

definition works :: "llm \<Rightarrow> llm_request \<Rightarrow> provider \<Rightarrow> bool" where
  "works f rq p \<longleftrightarrow> \<not> isl (answer_of f rq p)"

text \<open>The specification: the answer of the first provider that works under its name, else the last error.\<close>

definition first_answer :: "llm \<Rightarrow> llm_request \<Rightarrow> provider list \<Rightarrow> hata \<Rightarrow> hata + llm_response" where
  "first_answer f rq ps h = (case List.find (works f rq) ps of
     Some p \<Rightarrow> Inr ((projr (answer_of f rq p))\<lparr>lr_provider := Some (lower (NAME (pv_kind p)))\<rparr>)
   | None \<Rightarrow> Inl (if ps = [] then h else projl (answer_of f rq (last ps))))"

lemma steady_raw:
  assumes "steady f"
  shows "snd (raw_chat f p rq st) = answer_of f rq p" and "ls_oversized (fst (raw_chat f p rq st)) = ls_oversized st"
proof -
  have f: "f (pv_kind p) (length (ls_calls st)) = f (pv_kind p) 0" using assms by (simp add: steady_def)
  show "snd (raw_chat f p rq st) = answer_of f rq p" by (simp add: raw_chat_def answer_of_def Let_def f)
  show "ls_oversized (fst (raw_chat f p rq st)) = ls_oversized st" by (simp add: raw_chat_def Let_def)
qed

lemma dene_same:
  assumes "\<And>s. snd (raw s) = a" and "\<And>s. g (fst (raw s)) = g s"
  shows "snd (fst (dene tavan raw n k s)) = a \<and> g (fst (fst (dene tavan raw n k s))) = g s"
proof (induction n arbitrary: k s)
  case 0
  show ?case using assms by simp
next
  case (Suc n)
  obtain s' r where r: "raw s = (s', r)" by fastforce
  have s: "r = a" "g s' = g s" using assms(1) [of s] assms(2) [of s] r by simp_all
  show ?case using Suc.IH [of "k + 1" s'] r s
    by (simp add: case_prod_beta split: sum.split option.split)
qed

lemma steady_provider:
  assumes "steady f"
  shows "snd (provider_chat f tavan p rq st) = answer_of f rq p"
    and "ls_oversized (fst (provider_chat f tavan p rq st)) = ls_oversized st"
  using dene_same [of "raw_chat f p rq" "answer_of f rq p" ls_oversized tavan 2 1 st] steady_raw [OF assms]
  by (simp_all add: provider_chat_def call_with_retry_def)

text \<open>The chain remembers a name only of a provider that failed.\<close>

definition remembers_failures :: "llm \<Rightarrow> llm_request \<Rightarrow> provider list \<Rightarrow> llm_state \<Rightarrow> llm_state \<Rightarrow> bool" where
  "remembers_failures f rq ps st st' \<longleftrightarrow> set (ls_oversized st) \<subseteq> set (ls_oversized st') \<and>
     set (ls_oversized st') \<subseteq> set (ls_oversized st) \<union> (\<lambda>p. NAME (pv_kind p)) ` {p \<in> set ps. \<not> works f rq p}"

lemma first_answer_failed:
  "answer_of f rq p = Inl e \<Longrightarrow> first_answer f rq (p # ps) h = first_answer f rq ps e"
  by (cases "ps = []") (simp_all add: first_answer_def works_def split: option.split)

lemma remembers_step:
  assumes "\<not> works f rq p" and "set (ls_oversized st) \<subseteq> set (ls_oversized st1)"
    and "set (ls_oversized st1) \<subseteq> insert (NAME (pv_kind p)) (set (ls_oversized st))" and "remembers_failures f rq ps st1 st2"
  shows "remembers_failures f rq (p # ps) st st2"
proof -
  have "{q \<in> set (p # ps). \<not> works f rq q} = insert p {q \<in> set ps. \<not> works f rq q}" using assms(1) by auto
  then show ?thesis using assms(2-4) unfolding remembers_failures_def image_insert by auto
qed

lemma steady_zincir:
  assumes "steady f"
  shows "snd (zincir_dene (\<lambda>p. provider_chat f tavan p rq) i ps h st) = first_answer f rq ps h \<and>
    remembers_failures f rq ps st (fst (zincir_dene (\<lambda>p. provider_chat f tavan p rq) i ps h st))"
proof (induction ps arbitrary: i h st)
  case Nil
  then show ?case by (simp add: first_answer_def remembers_failures_def)
next
  case (Cons p ps)
  obtain st' r where c: "provider_chat f tavan p rq st = (st', r)" by fastforce
  have r: "r = answer_of f rq p" "ls_oversized st' = ls_oversized st" using steady_provider [OF assms, of tavan p rq st] c by simp_all
  show ?case
  proof (cases r)
    case (Inr x)
    then have "works f rq p" using r(1) by (simp add: works_def)
    then show ?thesis using c Inr r by (simp add: first_answer_def remembers_failures_def after_success_def)
  next
    case (Inl e)
    then have w: "\<not> works f rq p" using r(1) by (simp add: works_def)
    have o: "set (ls_oversized st) \<subseteq> set (ls_oversized (after_failure p e st'))"
      "set (ls_oversized (after_failure p e st')) \<subseteq> insert (NAME (pv_kind p)) (set (ls_oversized st))"
      using r(2) by (auto simp: after_failure_def)
    have eq: "zincir_dene (\<lambda>p. provider_chat f tavan p rq) i (p # ps) h st =
        zincir_dene (\<lambda>p. provider_chat f tavan p rq) (i + 1) ps e (after_failure p e st')"
      using c Inl by simp
    have a: "answer_of f rq p = Inl e" using r(1) Inl by simp
    show ?thesis unfolding eq first_answer_failed [OF a]
      using Cons.IH [of "i + 1" e "after_failure p e st'"] remembers_step [OF w o] by blast
  qed
qed

lemma find_filter: "(\<And>x. x \<in> set xs \<Longrightarrow> P x \<Longrightarrow> Q x) \<Longrightarrow> List.find P (filter Q xs) = List.find P xs"
  by (induction xs) auto

lemma find_adaylar:
  assumes "distinct (map (\<lambda>p. NAME (pv_kind p)) ps)" and "remembers_failures f rq (adaylar ps st) st st'"
    and "List.find (works f rq) (adaylar ps st) = Some p"
  shows "List.find (works f rq) (adaylar ps st') = Some p"
proof -
  let ?cs = "\<lambda>s. filter (\<lambda>p. NAME (pv_kind p) \<notin> set (ls_oversized s)) ps"
  have sub: "set (ls_oversized st) \<subseteq> set (ls_oversized st')" using assms(2) by (simp add: remembers_failures_def)
  have p: "p \<in> set (adaylar ps st)" "works f rq p" using find_Some_prop [OF assms(3)] by simp_all
  show ?thesis
  proof (cases "?cs st = []")
    case True
    then have "?cs st' = []" using sub by (auto simp: filter_empty_conv)
    then show ?thesis using assms(3) True by (simp add: adaylar_def)
  next
    case False
    then have a: "adaylar ps st = ?cs st" by (simp add: adaylar_def)
    have keep: "NAME (pv_kind q) \<notin> set (ls_oversized st')" if "q \<in> set (?cs st)" "works f rq q" for q
    proof
      assume "NAME (pv_kind q) \<in> set (ls_oversized st')"
      moreover have "NAME (pv_kind q) \<notin> set (ls_oversized st)" using that(1) by simp
      ultimately have "NAME (pv_kind q) \<in> (\<lambda>p. NAME (pv_kind p)) ` {p \<in> set (?cs st). \<not> works f rq p}"
        using assms(2) unfolding remembers_failures_def a by blast
      then obtain x where x: "NAME (pv_kind q) = NAME (pv_kind x)" "x \<in> set (?cs st)" "\<not> works f rq x" by (elim imageE) simp
      have "x = q" by (rule inj_onD [of "\<lambda>p. NAME (pv_kind p)" "set ps"]) (use assms(1) x that(1) in \<open>simp_all add: distinct_map\<close>)
      then show False using x(3) that(2) by simp
    qed
    have f: "?cs st' = filter (\<lambda>p. NAME (pv_kind p) \<notin> set (ls_oversized st')) (?cs st)"
      using sub by (auto simp: filter_filter intro!: filter_cong)
    have "p \<in> set (?cs st')" using p keep [of p] unfolding f a by simp
    then have "?cs st' \<noteq> []" by (metis empty_iff empty_set)
    then have "adaylar ps st' = ?cs st'" by (simp add: adaylar_def Let_def)
    then show ?thesis using assms(3) find_filter [of "?cs st" "works f rq"] keep unfolding f a by simp
  qed
qed


text \<open>A chain that is configured has one provider per name, at least two of them and at most seven: a turn makes at
  most 63 requests.\<close>

lemma keyed_kind: "build_keyed env s = Some p \<Longrightarrow> pv_kind p = s"
  by (auto simp: build_keyed_def split: if_splits)

lemma keyed_kinds:
  "map pv_kind (concat (map (\<lambda>s. option_list (build_keyed env s)) ss)) = filter (\<lambda>s. build_keyed env s \<noteq> None) ss"
  by (induction ss) (auto simp: option_list_def keyed_kind split: option.split)

lemma NAME_inj: "NAME s = NAME t \<Longrightarrow> s = t"
  by (cases s; cases t) (simp_all add: NAME_def)

lemma built_chain:
  assumes "build_provider env = Inr (Zincir ps)"
  shows "distinct (map (\<lambda>p. NAME (pv_kind p)) ps)" and "2 \<le> length ps" and "length ps \<le> 7"
proof -
  define L where "L = concat (map (\<lambda>s. option_list (build_keyed env s)) zincir_sirasi) @ option_list (build_ollama env)"
  have "(case L of [] \<Rightarrow> Inl Zincir_Bos | [p] \<Rightarrow> Inr (Tek p) | p # q # r \<Rightarrow> Inr (Zincir (p # q # r))) = Inr (Zincir ps)"
    using assms unfolding build_provider_def Let_def L_def [symmetric] by (simp split: option.splits if_splits)
  then have "ps = L" and two: "2 \<le> length ps" by (auto split: list.splits)
  then have ps: "ps = concat (map (\<lambda>s. option_list (build_keyed env s)) zincir_sirasi) @ option_list (build_ollama env)"
    by (simp add: L_def)
  have o: "map pv_kind (option_list (build_ollama env)) = (if build_ollama env = None then [] else [Ollama])"
    by (auto simp: build_ollama_def option_list_def ollama_provider_def)
  have k: "map pv_kind ps = filter (\<lambda>s. build_keyed env s \<noteq> None) zincir_sirasi @ (if build_ollama env = None then [] else [Ollama])"
    unfolding ps map_append keyed_kinds o ..
  have "distinct (map pv_kind ps)" unfolding k by (auto simp: zincir_sirasi_def)
  then show "distinct (map (\<lambda>p. NAME (pv_kind p)) ps)" using NAME_inj by (auto simp: distinct_map inj_on_def)
  show "2 \<le> length ps" by (rule two)
  have "length (map pv_kind ps) \<le> length zincir_sirasi + 1"
    unfolding k length_append using length_filter_le [of "\<lambda>s. build_keyed env s \<noteq> None" zincir_sirasi] by (simp add: le_SucI del: length_filter_le)
  then show "length ps \<le> 7" by (simp add: zincir_sirasi_def)
qed

subsection \<open>Observations and witnesses\<close>

definition ex_reply_rules :: reply_rules where
  "ex_reply_rules = \<lparr>ru_fold = id, ru_yc = (\<lambda>_. False), ru_istek = (\<lambda>_. False), ru_niyet = (\<lambda>_. False), ru_koseli = (\<lambda>_. None),
     ru_dolgu = (\<lambda>_. False), ru_siz = id, ru_isaret = id\<rparr>"

definition ex_groq :: provider where "ex_groq = \<lparr>pv_kind = Groq, pv_model = ''m''\<rparr>"
definition ex_cerebras :: provider where "ex_cerebras = \<lparr>pv_kind = Cerebras, pv_model = ''m''\<rparr>"

definition ex_turn :: "llm \<Rightarrow> turn_env" where
  "ex_turn f = \<lparr>te_llm = f, te_tavan = 5, te_motor = Tek ex_groq, te_env = ex_env, te_mi = ex_mi, te_hesap = (\<lambda>_. True),
     te_ru = ex_reply_rules, te_isod = (\<lambda>_. None), te_olay = ex_batch, te_vakit = int, te_yaz = (\<lambda>_. ''yanit''),
     te_plan_talimati = ''plan'', te_plan_basi = ''plan: '', te_nudge_propose = (\<lambda>_. ''oner''), te_nudge_soru = ''yaz''\<rparr>"

definition ex_said_by_model :: "string \<Rightarrow> tool_call list \<Rightarrow> hata + raw_response" where
  "ex_said_by_model s cs = Inr \<lparr>rr_texts = [s], rr_calls = cs, rr_reason = None, rr_in = None, rr_out = None\<rparr>"

definition ex_proposal :: tool_call where
  "ex_proposal = Call_Propose (Some \<lparr>pr_type = Some Update_Account_Balance, pr_payload = Some ex_payload, pr_sayilar = [50],
     pr_tarih = False, pr_summary = ''bakiye 50''\<rparr>)"

definition ex_coach :: coach_db where
  "ex_coach = \<lparr>cd_sys = ex_sys, cd_insights = [], cd_memories = [],
     cd_llm = \<lparr>ls_calls = [], ls_oversized = [], ls_last = None, ls_fallbacks = 0\<rparr>\<rparr>"

lemma ex_coach_sound: "sound ex_coach"
  by (simp add: sound_def ex_coach_def account_ids_positive_def ex_sys_def ex_cash_def insight_keys_ok_def)

definition ex_busy :: hata where
  "ex_busy = \<lparr>ht_alanlar = [Alan_Int 503], ht_metin = [], ht_bos = False, ht_bekle = None\<rparr>"

text \<open>The closing word boundary makes one of the verbs unreachable.\<close>

lemma recorded_not_recognised: "\<not> gerceklesmis_mi ''200 lira kaydettim''"
  by code_simp

text \<open>Behind the retry a turn changes neither the tables nor the log of the requests.\<close>

lemma save_message_sys [simp]: "cd_sys (save_message e u role c calls cid acts cd) = cd_sys cd"
  by (simp add: save_message_def Let_def)

lemma tool_rows_keep: "cd_sys (fold (tool_row e u) acts cd) = cd_sys cd \<and> cd_llm (fold (tool_row e u) acts cd) = cd_llm cd"
  by (induction acts arbitrary: cd) (simp_all add: tool_row_def)

lemma olay_keeps: "cd_sys (snd (olay_tetikle e w u cd)) = cd_sys cd \<and> cd_llm (snd (olay_tetikle e w u cd)) = cd_llm cd"
  by (simp add: olay_tetikle_def Let_def case_prod_beta)

lemma save_answer_keeps:
  "cd_sys (save_answer e u acts clean reply cd) = cd_sys cd \<and> cd_llm (save_answer e u acts clean reply cd) = cd_llm cd"
  by (simp add: save_answer_def tool_rows_keep)

definition tools_used :: "turn_env \<Rightarrow> nat \<Rightarrow> nat option \<Rightarrow> string \<Rightarrow> llm_response \<Rightarrow> coach_db \<Rightarrow> tool_state" where
  "tools_used e u w um resp cd =
     fold (arac_isle e u w um) (lr_calls resp) \<lparr>ts_cd = cd, ts_actions = [], ts_redler = [], ts_insight_invalid = False\<rparr>"

lemma chat_sonu_keeps:
  "let cd' = fst (chat_sonu e u w um kokpit ny offer tools ms resp cd);
       ts = fst (tekrar_asamasi e u w um ny offer tools ms resp (tools_used e u w um resp cd))
   in cd_sys cd' = cd_sys (ts_cd ts) \<and> cd_llm cd' = cd_llm (ts_cd ts)"
  by (simp add: chat_sonu_def tools_used_def [symmetric] Let_def case_prod_beta save_answer_keeps olay_keeps)

text \<open>One provider, one message: nine requests.\<close>

definition ex_slow :: llm where
  "ex_slow s n _ _ _ = (if n mod 3 = 2 then ex_said_by_model (if n = 2 then ''plan'' else []) [] else Inl ex_busy)"

lemma busy_retries: "tekrar_karari t a ex_busy = Some (bekleme_tavani a)"
proof -
  have "siniflandir ex_busy = Gecici" by code_simp
  then show ?thesis by (simp add: tekrar_karari_def is_quota_exceeded_def is_retryable_error_def ex_busy_def)
qed

lemma slow_answers:
  assumes "length (ls_calls st) mod 3 = 0"
  shows "\<exists>st' r. provider_chat ex_slow t ex_groq rq st = (st', Inr r) \<and> length (ls_calls st') = length (ls_calls st) + 3 \<and>
    lr_calls r = [] \<and> lr_text r = (if ls_calls st = [] then ''plan'' else [])"
proof -
  have m: "Suc (length (ls_calls st)) mod 3 = 1" "Suc (Suc (length (ls_calls st))) mod 3 = 2" using assms by (simp_all add: mod_Suc)
  have p: "strip ''plan'' = ''plan''" "strip [] = []" by code_simp+
  show ?thesis using assms m
    by (simp add: provider_chat_def call_with_retry_def numeral_2_eq_2 raw_chat_def Let_def ex_slow_def busy_retries
        ex_said_by_model_def read_response_def ex_groq_def p case_prod_beta)
qed

lemma slow_ask:
  assumes "length (ls_calls (cd_llm cd)) mod 3 = 0"
  shows "\<exists>st r. ask (ex_turn ex_slow) rq cd = (cd\<lparr>cd_llm := st\<rparr>, Inr r) \<and>
    length (ls_calls st) = length (ls_calls (cd_llm cd)) + 3 \<and> lr_calls r = [] \<and>
    lr_text r = (if ls_calls (cd_llm cd) = [] then ''plan'' else [])"
  using slow_answers [OF assms, of 5 rq] by (auto simp: ask_def ex_turn_def motor_chat_def)

lemma ex_intent:
  "ny_sunulsun (niyet_cikar id ''market'')" "\<not> ny_gerceklesmis (niyet_cikar id ''market'')" "\<not> selamlasma_mi id ''market''"
  by code_simp+

lemma nine_requests: "length (ls_calls (cd_llm (fst (chat (ex_turn ex_slow) 7 (Some 3) ''market'' True ex_coach)))) = 9"
proof -
  define e where "e = ex_turn ex_slow"
  define ms where "ms = load_history 7 (cd_memories ex_coach) @ [user_msg ''market'']"
  have ru: "ru_fold (te_ru e) = id" by (simp add: e_def ex_turn_def ex_reply_rules_def)
  have z: "ls_calls (cd_llm ex_coach) = []" by (simp add: ex_coach_def)
  obtain st1 r1 where 1: "ask e \<lparr>lq_mekanik = True, lq_messages = ms @ [user_msg (te_plan_talimati e)], lq_tools = []\<rparr> ex_coach =
      (ex_coach\<lparr>cd_llm := st1\<rparr>, Inr r1)" "length (ls_calls st1) = 3"
    using slow_ask [of ex_coach "\<lparr>lq_mekanik = True, lq_messages = ms @ [user_msg (te_plan_talimati e)], lq_tools = []\<rparr>"] z
    unfolding e_def [symmetric] by auto
  then have ne: "ls_calls st1 \<noteq> []" by auto
  obtain ms1 where p: "plan_asamasi e True True ms ex_coach = (ex_coach\<lparr>cd_llm := st1\<rparr>, ms1)"
    unfolding plan_asamasi_def 1 by simp
  let ?rq = "\<lparr>lq_mekanik = True, lq_messages = ms1, lq_tools = [Tool_Propose, Tool_Insight]\<rparr>"
  obtain st2 r2 where 2: "ask e ?rq (ex_coach\<lparr>cd_llm := st1\<rparr>) = (ex_coach\<lparr>cd_llm := st2\<rparr>, Inr r2)" "length (ls_calls st2) = 6"
    "lr_calls r2 = []" "lr_text r2 = []"
    using slow_ask [of "ex_coach\<lparr>cd_llm := st1\<rparr>" ?rq] 1(2) ne unfolding e_def [symmetric] by auto
  define ts where "ts = \<lparr>ts_cd = ex_coach\<lparr>cd_llm := st2\<rparr>, ts_actions = [], ts_redler = [], ts_insight_invalid = False\<rparr>"
  define ms2 where "ms2 = ms1 @ [user_msg (te_nudge_propose e [])]"
  obtain st3 r3 where 3: "ask e \<lparr>lq_mekanik = True, lq_messages = ms2, lq_tools = [Tool_Propose, Tool_Insight]\<rparr> (ts_cd ts) =
      (ex_coach\<lparr>cd_llm := st3\<rparr>, Inr r3)" "length (ls_calls st3) = 9" "lr_calls r3 = []"
    using slow_ask [of "ts_cd ts" "\<lparr>lq_mekanik = True, lq_messages = ms2, lq_tools = [Tool_Propose, Tool_Insight]\<rparr>"] 2(2)
    unfolding e_def [symmetric] by (auto simp: ts_def)
  have chat: "chat e 7 (Some 3) ''market'' True ex_coach =
      chat_sonu e 7 (Some 3) ''market'' True (niyet_cikar id ''market'') True [Tool_Propose, Tool_Insight] ms1 r2 (ex_coach\<lparr>cd_llm := st2\<rparr>)"
    unfolding chat_def Let_def ms_def [symmetric] ru by (simp add: ex_intent p araclar_def 2(1))
  have t: "tools_used e 7 (Some 3) ''market'' r2 (ex_coach\<lparr>cd_llm := st2\<rparr>) = ts" by (simp add: tools_used_def 2(3) ts_def)
  have s: "strip [] = []" by code_simp
  have "cd_llm (ts_cd (fst (tekrar_asamasi e 7 (Some 3) ''market'' (niyet_cikar id ''market'') True [Tool_Propose, Tool_Insight] ms1 r2 ts))) = st3"
    using 3(1,3) by (simp add: tekrar_asamasi_def bos_ya_da_sahte_def 2(4) s ts_def oneri_tekrari_def ms2_def Let_def)
  then show ?thesis using chat_sonu_keeps [where e = e and u = 7 and w = "Some 3" and um = "''market''" and kokpit = True and
      ny = "niyet_cikar id ''market''" and offer = True and tools = "[Tool_Propose, Tool_Insight]" and ms = ms1 and resp = r2 and
      cd = "ex_coach\<lparr>cd_llm := st2\<rparr>"] 3(2) unfolding t Let_def e_def [symmetric] chat by simp
qed

subsection \<open>More observations\<close>

text \<open>A refused proposal is lost from the answer as soon as another one of the same turn is accepted.\<close>

lemma refusal_lost: "final_reply ru es um bv (Suc n) redler bad body = final_reply ru es um bv (Suc n) [] bad body"
proof -
  have "en_oncelikli [] = None" by (simp add: en_oncelikli_def)
  then show ?thesis by (cases "en_oncelikli redler") (simp_all add: final_reply_def)
qed

text \<open>An extractor whose flush the database refuses takes the whole turn with it.\<close>

lemma broken_trigger_ends_turn:
  assumes "fst (olay_tetikle e w u (save_message e u Role_User um None None None
      (ts_cd (fst (tekrar_asamasi e u w um ny offer tools ms resp (tools_used e u w um resp cd)))))) = Needs_Rollback"
  shows "snd (chat_sonu e u w um kokpit ny offer tools ms resp cd) = None"
  using assms by (simp add: chat_sonu_def tools_used_def [symmetric] Let_def case_prod_beta)

lemma unbroken_trigger:
  assumes "\<And>u name. \<not> be_breaks (te_olay e) u name"
  shows "fst (olay_tetikle e w u cd) = Clean"
proof -
  have "fst (fold (guarded_extractor b w u) names (Clean, t)) = Clean" if "\<And>u name. \<not> be_breaks b u name" for b names t
    using that by (induction names arbitrary: t) (simp_all add: guarded_extractor_def)
  then show ?thesis using assms by (simp add: olay_tetikle_def Let_def case_prod_beta)
qed

lemma unbroken_answers:
  assumes "\<And>u name. \<not> be_breaks (te_olay e) u name"
  shows "\<exists>cd' r. chat_sonu e u w um kokpit ny offer tools ms resp cd = (cd', Some r) \<and>
    tr_actions r = ts_actions (fst (tekrar_asamasi e u w um ny offer tools ms resp (tools_used e u w um resp cd)))"
  using unbroken_trigger [OF assms] by (simp add: chat_sonu_def tools_used_def [symmetric] Let_def case_prod_beta)

text \<open>After a turn with two proposals the window of six rows opens with the answer to a call it no longer holds; the
  other wire formats drop such a row, the one for Anthropic sends it.\<close>

definition ex_row :: "nat \<Rightarrow> coach_role \<Rightarrow> stored_call list option option \<Rightarrow> string option \<Rightarrow> coach_memory" where
  "ex_row i r cs c = \<lparr>cm_id = i, cm_user = 7, cm_role = r, cm_content = ''x'', cm_calls = cs, cm_call_id = c, cm_actions = None, cm_time = int i\<rparr>"

definition ex_window :: "coach_memory list" where
  "ex_window = [ex_row 1 Role_User None None,
     ex_row 2 Role_Assistant (Some (Some [\<lparr>sc_id = Some ''call_1'', sc_name = Some ''propose_action''\<rparr>,
       \<lparr>sc_id = Some ''call_2'', sc_name = Some ''propose_action''\<rparr>])) None,
     ex_row 3 Role_Tool None (Some ''call_1''), ex_row 4 Role_Tool None (Some ''call_2''),
     ex_row 5 Role_User None None, ex_row 6 Role_Assistant None None,
     ex_row 7 Role_User None None, ex_row 8 Role_Assistant None None]"

lemma orphan_result_sent:
  "hd (to_anthropic_messages (load_history 7 ex_window)) = Ant_Result ''call_1'' ''x''"
  "hd (to_openai_messages (load_history 7 ex_window)) = Oai_Text Role_User ''x''"
  by code_simp+

text \<open>The message is a question, so the turn offers the note alone; a proposal the model makes nevertheless is stored.\<close>

definition ex_eager :: llm where
  "ex_eager _ _ _ _ _ = ex_said_by_model ''Hazir.'' [ex_proposal]"

lemma question_intent:
  "ny_soru (niyet_cikar id ''ne yapayim'')" "\<not> ny_sunulsun (niyet_cikar id ''ne yapayim'')" "\<not> selamlasma_mi id ''ne yapayim''"
  by code_simp+

lemma eager_ask: "\<exists>st r. ask (ex_turn ex_eager) rq cd = (cd\<lparr>cd_llm := st\<rparr>, Inr r) \<and> lr_calls r = [ex_proposal] \<and> strip (lr_text r) \<noteq> []"
proof -
  have "strip ''Hazir.'' = ''Hazir.''" by code_simp
  then show ?thesis
    by (auto simp: ask_def ex_turn_def motor_chat_def provider_chat_def call_with_retry_def numeral_2_eq_2 raw_chat_def Let_def ex_eager_def
        ex_said_by_model_def read_response_def ex_groq_def)
qed

lemma eager_tools:
  assumes "cd_sys cd = ex_sys" and "lr_calls r = [ex_proposal]"
  shows "ts_actions (tools_used (ex_turn ex_eager) 7 (Some 3) ''ne yapayim'' r cd) \<noteq> [] \<and>
    length (pendings (cd_sys (ts_cd (tools_used (ex_turn ex_eager) 7 (Some 3) ''ne yapayim'' r cd)))) = Suc (length (pendings ex_sys))"
proof -
  have "check_proposal ex_env ex_mi (tables ex_sys) 7 Update_Account_Balance ex_payload ex_metin (Some 3) = Inr (ex_payload, False)"
    by (simp add: check_proposal_def dogrula_def ex_payload_def empty_payload_def only_fields_def req_id_def
        finans_bakiye_def fin_max_def ozet_payload_celiskisi_def para_alani_def ex_metin_def fsub_def fl_pos less_imp_le)
  then show ?thesis using assms unfolding ex_metin_def
    by (simp add: tools_used_def arac_isle_def propose_tek_cagri_def ex_proposal_def tool_argumani_def ex_turn_def propose_action_def Let_def)
qed

lemma unoffered_proposal_stored:
  "Tool_Propose \<notin> set (araclar (selamlasma_mi id ''ne yapayim'') (ny_sunulsun (niyet_cikar id ''ne yapayim'')))"
  "length (pendings (cd_sys (fst (chat (ex_turn ex_eager) 7 (Some 3) ''ne yapayim'' False ex_coach)))) = Suc (length (pendings ex_sys))"
proof -
  define e where "e = ex_turn ex_eager"
  define um where "um = ''ne yapayim''"
  define ms where "ms = load_history 7 (cd_memories ex_coach) @ [user_msg um]"
  note q = question_intent [folded um_def]
  have ru: "ru_fold (te_ru e) = id" by (simp add: e_def ex_turn_def ex_reply_rules_def)
  show "Tool_Propose \<notin> set (araclar (selamlasma_mi id um) (ny_sunulsun (niyet_cikar id um)))" by (simp add: q araclar_def)
  obtain st r where 1: "ask e \<lparr>lq_mekanik = False, lq_messages = ms, lq_tools = [Tool_Insight]\<rparr> ex_coach = (ex_coach\<lparr>cd_llm := st\<rparr>, Inr r)"
    "lr_calls r = [ex_proposal]" "strip (lr_text r) \<noteq> []" using eager_ask unfolding e_def by blast
  define cd where "cd = ex_coach\<lparr>cd_llm := st\<rparr>"
  have s: "cd_sys cd = ex_sys" by (simp add: cd_def ex_coach_def)
  note t = eager_tools [OF s 1(2), folded e_def um_def]
  have chat: "chat e 7 (Some 3) um False ex_coach = chat_sonu e 7 (Some 3) um False (niyet_cikar id um) False [Tool_Insight] ms r cd"
    unfolding chat_def Let_def ru ms_def [symmetric] cd_def by (simp add: plan_asamasi_def araclar_def q 1(1))
  have "fst (tekrar_asamasi e 7 (Some 3) um (niyet_cikar id um) False [Tool_Insight] ms r ts) = ts" for ts
    by (simp add: tekrar_asamasi_def 1(3))
  then show "length (pendings (cd_sys (fst (chat e 7 (Some 3) um False ex_coach)))) = Suc (length (pendings ex_sys))"
    unfolding chat using t chat_sonu_keeps [where e = e and u = 7 and w = "Some 3" and um = um and kokpit = False and
      ny = "niyet_cikar id um" and offer = False and tools = "[Tool_Insight]" and ms = ms and resp = r and cd = cd]
    by (simp add: Let_def)
qed

subsection \<open>Witnesses\<close>

lemma turns_move_no_money_witness:
  "let cd' = fold coach_step [(7, Turn (ex_turn ex_slow) (Some 3) ''market'' True), (8, Forget)] ex_coach
   in tables (cd_sys cd') = tables (cd_sys ex_coach) \<and> own_rows 9 cd' = own_rows 9 ex_coach"
  using turns_move_no_money [OF ex_coach_sound, where v = 9 and
      xs = "[(7, Turn (ex_turn ex_slow) (Some 3) ''market'' True), (8, Forget)]"]
  unfolding Let_def by simp

definition ex_route :: route_env where
  "ex_route = \<lparr>rt_turn = ex_turn ex_slow, rt_now = 0, rt_tavan = None, rt_gemini = None, rt_openrouter = None,
     rt_slot = True, rt_sure = 5\<rparr>"

lemma ex_route_open:
  "\<exists>i rows1. rezerve_et 0 (kullanici_gunluk_tavan None) 7 p m Koc [] = (Some i, rows1)"
  "us_user_today (build_usage_info ex_route 7 p y []) = 0" "\<not> us_block (build_usage_info ex_route 7 p y [])"
proof -
  have "kullanici_gunluk_tavan None = 80" by (simp add: kullanici_gunluk_tavan_def)
  then show "\<exists>i rows1. rezerve_et 0 (kullanici_gunluk_tavan None) 7 p m Koc [] = (Some i, rows1)"
    by (simp add: rezerve_et_def rezerve_yaz_def rezerve_kontrol_def sira_def gun_baslangici_def Let_def)
  have z: "paylasilan_cagri_sayisi 0 t [] = 0" for t by (simp add: paylasilan_cagri_sayisi_def)
  show "us_user_today (build_usage_info ex_route 7 p y []) = 0"
    by (simp add: build_usage_info_def bugunku_cagri_sayisi_def Let_def ex_route_def split: option.split)
  have r: "fround 1 0 = 0" by code_simp
  have "fround 1 (fmul (fdiv 0 x) 100) = 0" for x using r by (simp add: fdiv_def fmul_def)
  then show "\<not> us_block (build_usage_info ex_route 7 p y [])"
    by (simp add: build_usage_info_def Let_def ex_route_def z split: option.split)
qed

lemma chat_requests_accounted_witness:
  "\<exists>rows' cd' ans. chat_endpoint ex_route 7 (Some 3) ''market'' True ([], ex_coach) = ((rows', cd'), ans) \<and>
     bugunku_cagri_sayisi 0 7 rows' = 9 \<and> bugunku_cagri_sayisi 0 8 rows' = 0"
proof -
  obtain rows' cd' ans where e: "chat_endpoint ex_route 7 (Some 3) ''market'' True ([], ex_coach) = ((rows', cd'), ans)"
    by (metis prod.exhaust)
  have z: "ls_calls (cd_llm ex_coach) = []" by (simp add: ex_coach_def)
  have ok: "\<not> isl ans \<and> cd' = fst (chat (ex_turn ex_slow) 7 (Some 3) ''market'' True ex_coach)"
  proof -
    let ?m = "te_motor (rt_turn ex_route)"
    obtain i rows1 where "rezerve_et 0 (kullanici_gunluk_tavan None) 7 (muhasebe_saglayici_adi ?m) (motor_model ?m) Koc [] = (Some i, rows1)"
      using ex_route_open(1) by blast
    moreover have "rt_now ex_route = 0" "rt_tavan ex_route = None" "rt_slot ex_route" "rt_turn ex_route = ex_turn ex_slow"
      by (simp_all add: ex_route_def)
    ultimately show ?thesis using e ex_route_open(2,3)
      by (simp add: chat_endpoint_def chat_under_def Let_def kullanici_gunluk_tavan_def case_prod_beta) auto
  qed
  have n: "length (ls_calls (cd_llm cd')) = 9" using ok nine_requests by simp
  show ?thesis using chat_requests_accounted [OF ex_coach_sound e, where v = 8] ok n e z
    by (auto simp: Let_def ex_route_def bugunku_cagri_sayisi_def)
qed

definition ex_told :: llm where
  "ex_told _ _ _ _ _ = ex_said_by_model ''Kaydettim.'' []"

lemma told_ask: "\<exists>st r. ask (ex_turn ex_told) rq cd = (cd\<lparr>cd_llm := st\<rparr>, Inr r) \<and> lr_calls r = []"
  by (auto simp: ask_def ex_turn_def motor_chat_def provider_chat_def call_with_retry_def numeral_2_eq_2 raw_chat_def Let_def ex_told_def
      ex_said_by_model_def read_response_def ex_groq_def)

lemma done_intent: "ny_gerceklesmis (niyet_cikar id ''maas yatti'')" "\<not> ny_soru (niyet_cikar id ''maas yatti'')"
  by code_simp+

lemma told_turn:
  "\<exists>cd' r. chat (ex_turn ex_told) 7 (Some 3) ''maas yatti'' False ex_coach = (cd', Some r) \<and> tr_actions r = []"
proof -
  define e where "e = ex_turn ex_told"
  define um where "um = ''maas yatti''"
  define ny where "ny = niyet_cikar id um"
  define offer where "offer = (ny_sunulsun ny \<and> \<not> selamlasma_mi id um)"
  define ms where "ms = load_history 7 (cd_memories ex_coach) @ [user_msg um]"
  define tools where "tools = araclar (selamlasma_mi id um) offer"
  have ru: "ru_fold (te_ru e) = id" by (simp add: e_def ex_turn_def ex_reply_rules_def)
  have told: "\<exists>st r. ask e rq cd = (cd\<lparr>cd_llm := st\<rparr>, Inr r) \<and> lr_calls r = []" for rq cd
    unfolding e_def by (rule told_ask)
  obtain st r where 1: "ask e \<lparr>lq_mekanik = offer, lq_messages = ms, lq_tools = tools\<rparr> ex_coach = (ex_coach\<lparr>cd_llm := st\<rparr>, Inr r)"
    "lr_calls r = []" using told by blast
  have t: "ts_actions (tools_used e 7 (Some 3) um r cd) = []" for cd by (simp add: tools_used_def 1(2))
  have again: "ts_actions (fst (tekrar_asamasi e 7 (Some 3) um ny offer tools ms r ts)) = []" if "ts_actions ts = []" for ts
  proof -
    obtain st2 r2 where "ask e \<lparr>lq_mekanik = True, lq_messages = ms @ [user_msg (te_nudge_propose e (ts_redler ts))], lq_tools = tools\<rparr>
        (ts_cd ts) = ((ts_cd ts)\<lparr>cd_llm := st2\<rparr>, Inr r2)" "lr_calls r2 = []" using told by blast
    then show ?thesis using that
      by (simp add: tekrar_asamasi_def oneri_tekrari_def soru_tekrari_def Let_def split: prod.split sum.split)
  qed
  have "chat e 7 (Some 3) um False ex_coach = chat_sonu e 7 (Some 3) um False ny offer tools ms r (ex_coach\<lparr>cd_llm := st\<rparr>)"
    unfolding chat_def Let_def ru ny_def [symmetric] offer_def [symmetric] tools_def [symmetric] ms_def [symmetric]
    by (simp add: plan_asamasi_def 1(1))
  moreover have "\<not> be_breaks (te_olay e) u name" for u name by (simp add: e_def ex_turn_def ex_batch_def)
  ultimately show ?thesis
    using unbroken_answers [of e 7 "Some 3" um False ny offer tools ms r "ex_coach\<lparr>cd_llm := st\<rparr>"] again [OF t]
    unfolding e_def um_def by metis
qed

lemma answer_admits_nothing_recorded_witness:
  "\<exists>cd' r. chat (ex_turn ex_told) 7 (Some 3) ''maas yatti'' False ex_coach = (cd', Some r) \<and>
     tr_actions r = [] \<and> gives_notice (tr_reply r)"
proof -
  obtain cd' r where r: "chat (ex_turn ex_told) 7 (Some 3) ''maas yatti'' False ex_coach = (cd', Some r)" "tr_actions r = []"
    using told_turn by blast
  have "ru_fold (te_ru (ex_turn ex_told)) = id" by (simp add: ex_turn_def ex_reply_rules_def)
  then have "gives_notice (tr_reply r)" using answer_admits_nothing_recorded [OF r(1)] r(2) done_intent by simp
  then show ?thesis using r by blast
qed

definition ex_chain :: llm where
  "ex_chain s _ _ _ _ = (if s = Groq then Inl ex_busy else ex_said_by_model ''Merhaba'' [])"


end
