(* ===== verification/Spec2Isabelle.thy ===== *)
theory Spec2Isabelle
  imports Action_Protocol Goal_Laws Debt_Strategy_Laws Usage_Laws Cockpit_Laws
    Simulation_Laws Auth_Laws Account_Deletion Records_Laws
    Insight_Laws Scheduler_Laws Coach_Laws
begin

text \<open>
  Verification development of FinancialOS, a personal finance server in Python (FastAPI, SQLAlchemy). The root
  theory only imports the others; every theory opens with what it holds.

  \<^bold>\<open>The program.\<close> A request comes in with a token; app/dependencies.py finds the user and app/workspace_deps.py the
  active workspace. The routers under app/routers write rows (app/models.py) of accounts, transactions, debts,
  recurring items, goals and the rest; the engines compute from these rows (app/rules_engine.py, app/cashflow.py,
  app/debt_strategy.py, app/simulation_engine.py, app/goal_engine.py). The coach (app/coach.py) answers messages
  with the help of a language model. It may not move money: it proposes an action, which the user approves
  and app/action_executor.py then runs. What the coach learns of a user is kept as insights
  (app/coach_insights.py), partly by jobs of app/scheduler.py. Limits on the use stand in front of all of it
  (app/rate_limit.py, app/llm_quota.py).

  \<^bold>\<open>How the code is modelled.\<close> A row is a record, a table the list of its rows in primary key order, the session the
  record \<open>db\<close> of the tables (theory Data_Model). An operation is a function from the session and the request to the
  new session and a result; an exception or an HTTP error is the left side of a sum or \<open>None\<close>. Unless the code
  commits before it raises, the session it returns then is the old one, as after the rollback. Interleaved requests
  are inductive step relations: \<open>conf_step\<close> (approval), \<open>quota_step\<close> (reservations), \<open>ws_step\<close>, \<open>auth_step\<close>, \<open>txn_step\<close>,
  \<open>debt_step\<close>, \<open>goal_step\<close>, \<open>record_step\<close>; conversations and scheduled jobs are folds over lists of operations.
  What lies outside the repository is a parameter: the model's answers (\<open>llm\<close>), the clock, environment variables,
  password hashing, the random source of identifiers, the exponentiation of floats.

  \<^bold>\<open>Foundations.\<close>
  \<^item> Prelude: lookups, updates and primary keys of tables, and the collections of rules the components share.
  \<^item> Numbers: app/money.py and \<open>float\<close>. A \<open>Decimal\<close> or a float is a rational; \<open>fl\<close> rounds to 53 bits, \<open>dctx\<close> to 28
    digits, \<open>qhe\<close> and \<open>qhu\<close> to decimal places. The locale \<open>rounding\<close> (monotone, odd, zero stays) is the contract
    that these and \<open>fround\<close> are interpreted in. Infinities, overflow and underflow of floats are not modelled.
  \<^item> Calendar: dates and app/dates.py. Its walks over months have a bound where the code has one.
  \<^item> Texts: \<open>str\<close> methods and regular expressions, on ASCII; the folding of Turkish letters is a parameter.
  \<^item> Data_Model and Balance_Rules: the rows, app/balance_rules.py, app/account_rules.py and the integrity listener of
    app/butunluk.py. Posting to an account is the locale \<open>ledger\<close>, interpreted on \<open>credit\<close>; transactions and debts rest
    on its laws.

  \<^bold>\<open>Access.\<close>
  \<^item> Workspace_Scope: app/workspace_deps.py, app/routers/workspaces.py, app/beta_access.py. Over any requests a
    personal workspace stays private and every workspace keeps its single owner.
  \<^item> Auth, Auth_Laws: app/auth.py, app/routers/auth.py. A token is its claims in the log \<open>minted\<close>. Shown: a changed
    credential ends every session for good, tokens that may be used once are, closed beta, equal answers for known and
    unknown addresses; and where two uses of one refresh token race.
  \<^item> Account_Deletion: app/kvkk.py. No row of the user is left and nothing of others goes; key reuse is shown as a trap.

  \<^bold>\<open>Money.\<close>
  \<^item> Transactions, Debts: app/routers/transactions.py, app/routers/debts.py, app/services/debt_settlement.py. The
    abstract state is what an account holds beyond its booked rows; no sequence of requests changes it.
  \<^item> Records, Records_Laws: the routers of accounts, recurring items, categories, envelopes, wishes and checkpoints. The locale
    \<open>scoped_table\<close> is interpreted once per table; isolation, keys and references follow for all.
  \<^item> Goals, Goal_Laws: app/goal_engine.py, app/goal_rules.py, app/routers/goals.py.
  \<^item> Actions, Action_Laws, Action_Executor, Action_Protocol: app/action_schema.py, app/action_executor.py. A proposal that is
    stored meets the contract, an approval ends it in one of its final states, concurrent approvals run it at most once,
    entrusted accounts stay untouched. The locale \<open>proposer\<close> covers recurring incomes and expenses.

  \<^bold>\<open>Analysis.\<close>
  \<^item> Cashflow, Cashflow_Laws: app/cashflow.py; the walk over the days refines the plain ledger of its events.
  \<^item> Rules_Budget, Rules_Analysis, Cash_Calendar, Yield_Threshold, Budget_Laws: app/rules_engine.py and app/vergi.py.
  \<^item> Debt_Strategy, Debt_Strategy_Laws: app/debt_strategy.py. The 600 months of the code are the fuel of the model; a plan that
    ends before them has closed every debt. The locale \<open>money_arith\<close> holds for floats and for exact numbers.
  \<^item> Simulation, Simulation_Laws: app/simulation_engine.py; the chained horizons agree with one projection.
  \<^item> Cockpit, Cockpit_Laws: \<open>generate_cockpit\<close>, the panel and the snapshots.

  \<^bold>\<open>Limits and jobs.\<close>
  \<^item> Usage_Limits, Usage_Laws: app/llm_cost.py, app/llm_quota.py, app/rate_limit.py. Both stores of the limiter are
    interpretations of \<open>sliding_window\<close>; the quota is an interleaving whose granted reservations stay under the cap.
  \<^item> Scheduler, Scheduler_Laws: app/scheduler.py. Retention deletes nothing a later request could notice: the clean
    session and the other one give the same answers to any requests. A start-up runs exactly what is late.

  \<^bold>\<open>The coach.\<close>
  \<^item> Prompt_Safety: app/prompt_safety.py, app/token_tahmini.py.
  \<^item> Insights, Insight_Notes, Insight_Laws: app/coach_insights.py, app/insight_schema.py. \<open>tidy\<close> is what every extractor keeps:
    unique keys, no row of another user. After a run the active insights of a type are what the data say.
  \<^item> Providers: app/provider_errors.py, app/llm_hata.py and the provider half of app/coach.py. A call makes at most three
    attempts (fuel of \<open>dene\<close>, the number the code has), a chain goes through its providers once.
  \<^item> Coach_Text, Coach_Turn, Coach_Routes: app/intent_rules.py, app/action_errors.py, app/uslup_kurallari.py, \<open>CoachEngine.chat\<close>
    and app/routers/coach.py. A reply is its body and the fixed notes after it, not their wording.
  \<^item> Coach_Laws: a conversation of any users moves no money and leaves the rows of others alone (\<open>turn_frame\<close>); a message costs
    its user exactly the requests it made, at most nine per provider; the answer admits that nothing was recorded; the chain
    implements \<open>first_answer\<close>.

  \<^bold>\<open>Termination.\<close> Every function is total. Recursions that are not structural have a measure; the only bounds are the code's
  own (600 months, the months of a walk, three attempts), so no result depends on fuel the code does not have.

  \<^bold>\<open>Observations.\<close> Lemmas outside the list of properties show on concrete rows where the code does not do what a comment
  or a test says, for instance \<open>card_payment_net_worth\<close>, \<open>month_end_card_drifts\<close>, \<open>recycled_user_id\<close>,
  \<open>unoffered_proposal_stored\<close> and \<open>nine_requests\<close>.

  \<^bold>\<open>Not modelled.\<close> Display names, notes and the wording of messages; letters outside ASCII; the expressions that recognise a
  red line or a merchant (parameters); the scale a database column forces on a number; HTTP, e-mail and prices;
  grounding of amounts, the confidence mark, the evaluation and the trace of a turn; reports, exports,
  onboarding and the premortem, which only read; start-up, configuration, backup and operator endpoints; the
  scripts and the JavaScript client.
\<close>

end
